(* ===== verification/Prelude.thy ===== *)
theory Prelude
  imports Main "HOL-Library.Word"
begin

text \<open>
  Shared vocabulary of the development: the machine integer types of inc/types.h, the error
  values a run of the code can end in, the state-and-error monad every stateful operation is
  written in, the Hoare triples and the invariant collections the component proofs use, and
  generic lemmas on lists, options and words.
\<close>

section \<open>Machine integers (inc/types.h)\<close>

type_synonym uint8 = "8 word"
type_synonym uint16 = "16 word"
type_synonym uint32 = "32 word"
type_synonym uint64 = "64 word"

section \<open>Errors\<close>

text \<open>
  Every way a modelled operation can end without returning to its caller: a call of panic or a
  failed assert (both leave the operation for good), a dereference of a null pointer, an access
  outside an array or a buffer, a list macro applied to an element that is not on the list (it
  would corrupt the links), an access to a page that is not mapped, and a call chain cut off by
  the depth bound of the model.
\<close>

datatype error =
    Panic string
  | AssertFailed
  | NullDeref
  | OutOfBounds
  | CorruptList
  | BadAddress
  | OutOfFuel

section \<open>The state-and-error monad\<close>

type_synonym ('s, 'a) M = "'s \<Rightarrow> error + 'a \<times> 's"

definition ret :: "'a \<Rightarrow> ('s, 'a) M" where
  "ret x = (\<lambda>s. Inr (x, s))"

definition raise :: "error \<Rightarrow> ('s, 'a) M" where
  "raise e = (\<lambda>s. Inl e)"

definition bnd :: "('s, 'a) M \<Rightarrow> ('a \<Rightarrow> ('s, 'b) M) \<Rightarrow> ('s, 'b) M" where
  "bnd m f = (\<lambda>s. case m s of Inl e \<Rightarrow> Inl e | Inr (x, s') \<Rightarrow> f x s')"

definition seqm :: "('s, 'a) M \<Rightarrow> ('s, 'b) M \<Rightarrow> ('s, 'b) M" where
  "seqm m k = bnd m (\<lambda>_. k)"

definition gets :: "('s \<Rightarrow> 'a) \<Rightarrow> ('s, 'a) M" where
  "gets f = (\<lambda>s. Inr (f s, s))"

definition modify :: "('s \<Rightarrow> 's) \<Rightarrow> ('s, unit) M" where
  "modify f = (\<lambda>s. Inr ((), f s))"

definition guard :: "bool \<Rightarrow> error \<Rightarrow> ('s, unit) M" where
  "guard b e = (if b then ret () else raise e)"

definition whenM :: "bool \<Rightarrow> ('s, unit) M \<Rightarrow> ('s, unit) M" where
  "whenM b m = (if b then m else ret ())"

text \<open>The loop \<^verbatim>\<open>for (i = lo; i < lo + n; i++) body(i)\<close>.\<close>

primrec for_n :: "nat \<Rightarrow> nat \<Rightarrow> (nat \<Rightarrow> ('s, unit) M) \<Rightarrow> ('s, unit) M" where
  "for_n 0 lo body = ret ()"
| "for_n (Suc n) lo body = seqm (body lo) (for_n n (Suc lo) body)"

text \<open>The same loop with a counter that the body updates.\<close>

primrec acc_n :: "nat \<Rightarrow> nat \<Rightarrow> (nat \<Rightarrow> 'a \<Rightarrow> ('s, 'a) M) \<Rightarrow> 'a \<Rightarrow> ('s, 'a) M" where
  "acc_n 0 lo body acc = ret acc"
| "acc_n (Suc n) lo body acc = bnd (body lo acc) (acc_n n (Suc lo) body)"

text \<open>The loop \<^verbatim>\<open>LIST_FOREACH(x, xs) body(x)\<close> over the elements the list had on entry.\<close>

primrec for_each :: "'b list \<Rightarrow> ('b \<Rightarrow> ('s, unit) M) \<Rightarrow> ('s, unit) M" where
  "for_each [] body = ret ()"
| "for_each (x # xs) body = seqm (body x) (for_each xs body)"

definition deref :: "'b option \<Rightarrow> ('s, 'b) M" where
  "deref p = (case p of None \<Rightarrow> raise NullDeref | Some x \<Rightarrow> ret x)"

lemma ret_apply [simp]: "ret x s = Inr (x, s)"
  by (simp add: ret_def)

lemma raise_apply [simp]: "raise e s = Inl e"
  by (simp add: raise_def)

lemma gets_apply [simp]: "gets f s = Inr (f s, s)"
  by (simp add: gets_def)

lemma modify_apply [simp]: "modify f s = Inr ((), f s)"
  by (simp add: modify_def)

lemma bnd_apply: "bnd m f s = (case m s of Inl e \<Rightarrow> Inl e | Inr (x, s') \<Rightarrow> f x s')"
  by (simp add: bnd_def)

lemma bnd_Inr [simp]: "m s = Inr (x, s') \<Longrightarrow> bnd m f s = f x s'"
  by (simp add: bnd_def)

lemma bnd_Inl [simp]: "m s = Inl e \<Longrightarrow> bnd m f s = Inl e"
  by (simp add: bnd_def)

lemma seqm_Inr [simp]: "m s = Inr (x, s') \<Longrightarrow> seqm m k s = k s'"
  by (simp add: seqm_def)

lemma seqm_Inl [simp]: "m s = Inl e \<Longrightarrow> seqm m k s = Inl e"
  by (simp add: seqm_def)

lemma bnd_ret [simp]: "bnd (ret x) f = f x"
  by (simp add: bnd_def ret_def)

lemma bnd_raise [simp]: "bnd (raise e) f = raise e"
  by (simp add: bnd_def raise_def)

lemma bnd_eq_Inr:
  "bnd m f s = Inr (y, t) \<longleftrightarrow> (\<exists>x s'. m s = Inr (x, s') \<and> f x s' = Inr (y, t))"
  by (auto simp: bnd_def split: sum.splits)

lemma seqm_eq_Inr:
  "seqm m k s = Inr (y, t) \<longleftrightarrow> (\<exists>x s'. m s = Inr (x, s') \<and> k s' = Inr (y, t))"
  by (simp add: seqm_def bnd_eq_Inr)

lemma guard_apply [simp]: "guard b e s = (if b then Inr ((), s) else Inl e)"
  by (simp add: guard_def)

lemma whenM_apply [simp]: "whenM b m s = (if b then m s else Inr ((), s))"
  by (simp add: whenM_def)

lemma deref_simps [simp]:
  "deref None s = Inl NullDeref"
  "deref (Some x) s = Inr (x, s)"
  by (simp_all add: deref_def)

lemma deref_eq_Inr [simp]: "deref p s = Inr (x, t) \<longleftrightarrow> p = Some x \<and> t = s"
  by (cases p) auto

section \<open>Hoare triples\<close>

text \<open>
  \<^term>\<open>hoare P m Q\<close>: from a state with \<open>P\<close>, if the operation returns, \<open>Q\<close> holds of its
  result and the new state.  \<^term>\<open>succeeds P m Q\<close>: from a state with \<open>P\<close> it does return, and
  \<open>Q\<close> holds.  \<^term>\<open>preserves I m\<close>: the operation keeps \<open>I\<close>.
\<close>

definition hoare :: "('s \<Rightarrow> bool) \<Rightarrow> ('s, 'a) M \<Rightarrow> ('a \<Rightarrow> 's \<Rightarrow> bool) \<Rightarrow> bool" where
  "hoare P m Q \<longleftrightarrow> (\<forall>s. P s \<longrightarrow> (case m s of Inl e \<Rightarrow> True | Inr (x, s') \<Rightarrow> Q x s'))"

definition succeeds :: "('s \<Rightarrow> bool) \<Rightarrow> ('s, 'a) M \<Rightarrow> ('a \<Rightarrow> 's \<Rightarrow> bool) \<Rightarrow> bool" where
  "succeeds P m Q \<longleftrightarrow> (\<forall>s. P s \<longrightarrow> (\<exists>x s'. m s = Inr (x, s') \<and> Q x s'))"

definition preserves :: "('s \<Rightarrow> bool) \<Rightarrow> ('s, 'a) M \<Rightarrow> bool" where
  "preserves I m \<longleftrightarrow> (\<forall>s x s'. I s \<longrightarrow> m s = Inr (x, s') \<longrightarrow> I s')"

named_theorems preserves_intros

lemma hoareI:
  "(\<And>s x s'. P s \<Longrightarrow> m s = Inr (x, s') \<Longrightarrow> Q x s') \<Longrightarrow> hoare P m Q"
  by (auto simp: hoare_def split: sum.splits)

lemma hoareD: "hoare P m Q \<Longrightarrow> P s \<Longrightarrow> m s = Inr (x, s') \<Longrightarrow> Q x s'"
  by (auto simp: hoare_def)

lemma succeedsD: "succeeds P m Q \<Longrightarrow> P s \<Longrightarrow> \<exists>x s'. m s = Inr (x, s') \<and> Q x s'"
  by (auto simp: succeeds_def)

lemma hoare_bnd:
  assumes m: "hoare P m R" and f: "\<And>x. hoare (R x) (f x) Q"
  shows "hoare P (bnd m f) Q"
proof (rule hoareI)
  fix s y t assume "P s" and "bnd m f s = Inr (y, t)"
  then obtain x s' where "m s = Inr (x, s')" and fx: "f x s' = Inr (y, t)"
    by (auto simp: bnd_eq_Inr)
  with m \<open>P s\<close> have "R x s'" by (blast dest: hoareD)
  then show "Q y t" by (rule hoareD[OF f _ fx])
qed

lemma succeeds_bnd:
  assumes m: "succeeds P m R" and f: "\<And>x. succeeds (R x) (f x) Q"
  shows "succeeds P (bnd m f) Q"
  unfolding succeeds_def
proof (intro allI impI)
  fix s assume "P s"
  from succeedsD[OF m this] obtain x s' where "m s = Inr (x, s')" and "R x s'" by blast
  then show "\<exists>y t. bnd m f s = Inr (y, t) \<and> Q y t"
    using succeedsD[OF f] by (simp add: bnd_def)
qed

lemma preservesI:
  "(\<And>s x s'. I s \<Longrightarrow> m s = Inr (x, s') \<Longrightarrow> I s') \<Longrightarrow> preserves I m"
  by (auto simp: preserves_def)

lemma preservesD: "preserves I m \<Longrightarrow> m s = Inr (x, s') \<Longrightarrow> I s \<Longrightarrow> I s'"
  by (auto simp: preserves_def)

lemma preserves_ret [preserves_intros]: "preserves I (ret x)"
  by (simp add: preserves_def)

lemma preserves_raise [preserves_intros]: "preserves I (raise e)"
  by (simp add: preserves_def)

lemma preserves_gets [preserves_intros]: "preserves I (gets f)"
  by (simp add: preserves_def)

lemma preserves_guard [preserves_intros]: "preserves I (guard b e)"
  by (simp add: preserves_def)

lemma preserves_deref [preserves_intros]: "preserves I (deref p)"
  by (simp add: preserves_def)

lemma preserves_bnd [preserves_intros]:
  "preserves I m \<Longrightarrow> (\<And>x. preserves I (f x)) \<Longrightarrow> preserves I (bnd m f)"
  unfolding preserves_def bnd_eq_Inr by blast

lemma preserves_seqm [preserves_intros]:
  "preserves I m \<Longrightarrow> preserves I k \<Longrightarrow> preserves I (seqm m k)"
  unfolding preserves_def seqm_eq_Inr by blast

lemma preserves_whenM [preserves_intros]: "(b \<Longrightarrow> preserves I m) \<Longrightarrow> preserves I (whenM b m)"
  by (auto simp: preserves_def whenM_def)

lemma preserves_if [preserves_intros]:
  "(b \<Longrightarrow> preserves I m) \<Longrightarrow> (\<not> b \<Longrightarrow> preserves I k) \<Longrightarrow> preserves I (if b then m else k)"
  by simp

lemma preserves_case_option [preserves_intros]:
  "preserves I m \<Longrightarrow> (\<And>x. preserves I (f x))
   \<Longrightarrow> preserves I (case z of None \<Rightarrow> m | Some x \<Rightarrow> f x)"
  by (cases z) auto

lemma preserves_case_prod [preserves_intros]:
  "(\<And>x y. preserves I (f x y)) \<Longrightarrow> preserves I (case z of (x, y) \<Rightarrow> f x y)"
  by (cases z) auto

lemma preserves_modify: "(\<And>s. I s \<Longrightarrow> I (f s)) \<Longrightarrow> preserves I (modify f)"
  by (simp add: preserves_def)

lemma preserves_for_n [preserves_intros]:
  "(\<And>i. preserves I (body i)) \<Longrightarrow> preserves I (for_n n lo body)"
  by (induction n arbitrary: lo) (auto intro: preserves_intros)

lemma preserves_for_each [preserves_intros]:
  "(\<And>x. preserves I (body x)) \<Longrightarrow> preserves I (for_each xs body)"
  by (induction xs) (auto intro: preserves_intros)

lemma for_n_invariant:
  assumes "\<And>i s s'. lo \<le> i \<Longrightarrow> i < lo + n \<Longrightarrow> J i s \<Longrightarrow> body i s = Inr ((), s') \<Longrightarrow> J (Suc i) s'"
    and "J lo s" and "for_n n lo body s = Inr ((), s')"
  shows "J (lo + n) s'"
  using assms
proof (induction n arbitrary: lo s)
  case 0
  then show ?case by simp
next
  case (Suc n)
  from Suc.prems(3) obtain s1 where
    b: "body lo s = Inr ((), s1)" and r: "for_n n (Suc lo) body s1 = Inr ((), s')"
    by (auto simp: seqm_eq_Inr)
  have "J (Suc lo) s1" using Suc.prems(1)[OF _ _ Suc.prems(2) b] by simp
  then have "J (Suc lo + n) s'" using r Suc.prems(1) by (intro Suc.IH) auto
  then show ?case by simp
qed

section \<open>Lists and options\<close>

definition hd_opt :: "'a list \<Rightarrow> 'a option" where
  "hd_opt xs = (case xs of [] \<Rightarrow> None | x # _ \<Rightarrow> Some x)"

definition last_opt :: "'a list \<Rightarrow> 'a option" where
  "last_opt xs = (if xs = [] then None else Some (last xs))"

lemma hd_opt_simps [simp]: "hd_opt [] = None" "hd_opt (x # xs) = Some x"
  by (simp_all add: hd_opt_def)

lemma hd_opt_append [simp]: "hd_opt (xs @ ys) = (if xs = [] then hd_opt ys else hd_opt xs)"
  by (cases xs) auto

lemma last_opt_simps [simp]:
  "last_opt [] = None" "last_opt (xs @ [x]) = Some x"
  "last_opt (x # xs) = (if xs = [] then Some x else last_opt xs)"
  by (simp_all add: last_opt_def)

lemma last_opt_append [simp]:
  "last_opt (xs @ ys) = (if ys = [] then last_opt xs else last_opt ys)"
  by (simp add: last_opt_def)

lemma hd_opt_eq_Some: "hd_opt xs = Some x \<longleftrightarrow> (\<exists>ys. xs = x # ys)"
  by (cases xs) auto

lemma hd_opt_eq_None [simp]: "hd_opt xs = None \<longleftrightarrow> xs = []"
  by (cases xs) auto

lemma last_opt_eq_Some: "last_opt xs = Some x \<longleftrightarrow> (\<exists>ys. xs = ys @ [x])"
  by (cases xs rule: rev_cases) auto

lemma last_opt_eq_None [simp]: "last_opt xs = None \<longleftrightarrow> xs = []"
  by (simp add: last_opt_def)

lemma hd_opt_in: "hd_opt xs = Some x \<Longrightarrow> x \<in> set xs"
  by (auto simp: hd_opt_eq_Some)

lemma last_opt_in: "last_opt xs = Some x \<Longrightarrow> x \<in> set xs"
  by (auto simp: last_opt_eq_Some)

lemma find_split:
  "find P xs = Some x \<Longrightarrow> \<exists>as bs. xs = as @ x # bs \<and> P x \<and> (\<forall>y\<in>set as. \<not> P y)"
proof (induction xs)
  case Nil
  then show ?case by simp
next
  case (Cons y ys)
  show ?case
  proof (cases "P y")
    case True
    with Cons.prems have "x = y" by simp
    with True show ?thesis by (intro exI[of _ "[]"] exI[of _ ys]) simp
  next
    case False
    with Cons.prems Cons.IH obtain as bs where
      "ys = as @ x # bs" "P x" "\<forall>y\<in>set as. \<not> P y" by auto
    with False show ?thesis by (intro exI[of _ "y # as"] exI[of _ bs]) simp
  qed
qed

lemma remove1_append_mid [simp]: "x \<notin> set as \<Longrightarrow> remove1 x (as @ x # bs) = as @ bs"
  by (induction as) auto

lemma rev_upt_Cons: "0 < n \<Longrightarrow> rev [0..<n] = (n - 1) # rev [0..<n - 1]"
  by (cases n) auto

section \<open>Words\<close>

lemma word_add_le_unat:
  fixes a b :: "'a::len word"
  assumes "unat a + unat b < 2 ^ LENGTH('a)"
  shows "unat (a + b) = unat a + unat b"
  using assms by (simp add: unat_word_ariths)

lemma unat_of_nat_small: "n < 2 ^ LENGTH('a) \<Longrightarrow> unat (of_nat n :: 'a::len word) = n"
  by (simp add: unsigned_of_nat take_bit_nat_eq_self)

lemma unat_sub_le: "(b :: 'a::len word) \<le> a \<Longrightarrow> unat (a - b) = unat a - unat b"
  by (simp add: unat_sub)

end
