(* ===== verification/Queue.thy ===== *)
theory Queue
  imports Prelude
begin

text \<open>
  The intrusive doubly linked lists of inc/queue.h, at the level of the pointers the macros
  assign.  A node carries a link to its successor and to its predecessor; a list head carries
  the first and the last node and a 32-bit size.  Each macro is one definition that performs
  the macro's assignments in order.  The second half shows that each macro implements the
  list operation its name promises, and states the result as the interface
  \<open>linked_list\<close>, which the macros interpret; the components of the kernel are modelled on
  the list operations.
\<close>

section \<open>List heads and links\<close>

text \<open>\<open>LIST_ENTRY(type)\<close>: the links of every node, \<open>None\<close> being the null pointer.\<close>

record 'n links =
  le_next :: "'n \<Rightarrow> 'n option"
  le_prev :: "'n \<Rightarrow> 'n option"

text \<open>\<open>LIST_HEAD(name, type)\<close>.\<close>

record 'n list_head =
  lh_first :: "'n option"
  lh_last :: "'n option"
  lh_size :: uint32

text \<open>The memory a macro works on: all links and one list head.\<close>

type_synonym 'n qstate = "'n links \<times> 'n list_head"

definition set_next :: "'n \<Rightarrow> 'n option \<Rightarrow> 'n links \<Rightarrow> 'n links" where
  "set_next x v h = h\<lparr>le_next := (le_next h)(x := v)\<rparr>"

definition set_prev :: "'n \<Rightarrow> 'n option \<Rightarrow> 'n links \<Rightarrow> 'n links" where
  "set_prev x v h = h\<lparr>le_prev := (le_prev h)(x := v)\<rparr>"

lemma links_upd_simps [simp]:
  "le_next (set_next x v h) = (le_next h)(x := v)"
  "le_prev (set_next x v h) = le_prev h"
  "le_next (set_prev x v h) = le_next h"
  "le_prev (set_prev x v h) = (le_prev h)(x := v)"
  by (simp_all add: set_next_def set_prev_def)

section \<open>The macros\<close>

definition LIST_INIT :: "'n qstate \<Rightarrow> 'n qstate" where
  "LIST_INIT = (\<lambda>(h, q). (h, q\<lparr>lh_first := None, lh_last := None, lh_size := 0\<rparr>))"

definition LIST_FIRST :: "'n qstate \<Rightarrow> 'n option" where
  "LIST_FIRST = (\<lambda>(h, q). lh_first q)"

definition LIST_LAST :: "'n qstate \<Rightarrow> 'n option" where
  "LIST_LAST = (\<lambda>(h, q). lh_last q)"

definition LIST_EMPTY :: "'n qstate \<Rightarrow> bool" where
  "LIST_EMPTY = (\<lambda>(h, q). lh_first q = None)"

definition LIST_NEXT :: "'n \<Rightarrow> 'n qstate \<Rightarrow> 'n option" where
  "LIST_NEXT elm = (\<lambda>(h, q). le_next h elm)"

definition LIST_INSERT_HEAD :: "'n \<Rightarrow> 'n qstate \<Rightarrow> 'n qstate" where
  "LIST_INSERT_HEAD elm = (\<lambda>(h, q).
     let h1 = set_next elm (lh_first q) h;
         (h2, q2) = (case lh_first q of
             Some f \<Rightarrow> (set_prev f (Some elm) h1, q)
           | None \<Rightarrow> (h1, q\<lparr>lh_last := Some elm\<rparr>));
         q3 = q2\<lparr>lh_first := Some elm\<rparr>;
         h3 = set_prev elm None h2
     in (h3, q3\<lparr>lh_size := lh_size q3 + 1\<rparr>))"

definition LIST_INSERT_TAIL :: "'n \<Rightarrow> 'n qstate \<Rightarrow> 'n qstate" where
  "LIST_INSERT_TAIL elm = (\<lambda>(h, q).
     let h1 = set_prev elm (lh_last q) h;
         (h2, q2) = (case lh_last q of
             Some l \<Rightarrow> (set_next l (Some elm) h1, q)
           | None \<Rightarrow> (h1, q\<lparr>lh_first := Some elm\<rparr>));
         q3 = q2\<lparr>lh_last := Some elm\<rparr>;
         h3 = set_next elm None h2
     in (h3, q3\<lparr>lh_size := lh_size q3 + 1\<rparr>))"

definition LIST_INSERT_AFTER :: "'n \<Rightarrow> 'n \<Rightarrow> 'n qstate \<Rightarrow> 'n qstate" where
  "LIST_INSERT_AFTER listelm elm = (\<lambda>(h, q).
     let h1 = set_next elm (le_next h listelm) h;
         h2 = (case le_next h1 listelm of Some n \<Rightarrow> set_prev n (Some elm) h1 | None \<Rightarrow> h1);
         h3 = set_next listelm (Some elm) h2;
         h4 = set_prev elm (Some listelm) h3;
         q1 = (if le_next h4 elm = None then q\<lparr>lh_last := Some elm\<rparr> else q)
     in (h4, q1\<lparr>lh_size := lh_size q1 + 1\<rparr>))"

definition LIST_INSERT_BEFORE :: "'n \<Rightarrow> 'n \<Rightarrow> 'n qstate \<Rightarrow> 'n qstate" where
  "LIST_INSERT_BEFORE listelm elm = (\<lambda>(h, q).
     let h1 = set_prev elm (le_prev h listelm) h;
         h2 = set_next elm (Some listelm) h1;
         (h3, q1) = (case le_prev h2 listelm of
             Some p \<Rightarrow> (set_next p (Some elm) h2, q)
           | None \<Rightarrow> (h2, q\<lparr>lh_first := Some elm\<rparr>));
         h4 = set_prev listelm (Some elm) h3
     in (h4, q1\<lparr>lh_size := lh_size q1 + 1\<rparr>))"

definition LIST_REMOVE :: "'n \<Rightarrow> 'n qstate \<Rightarrow> 'n qstate" where
  "LIST_REMOVE elm = (\<lambda>(h, q).
     let (h1, q1) = (case le_next h elm of
             Some n \<Rightarrow> (set_prev n (le_prev h elm) h, q)
           | None \<Rightarrow> (h, q\<lparr>lh_last := le_prev h elm\<rparr>));
         (h2, q2) = (case le_prev h1 elm of
             Some p \<Rightarrow> (set_next p (le_next h1 elm) h1, q1)
           | None \<Rightarrow> (h1, q1\<lparr>lh_first := le_next h1 elm\<rparr>));
         h3 = set_prev elm None (set_next elm None h2)
     in (h3, q2\<lparr>lh_size := lh_size q2 - 1\<rparr>))"

text \<open>The loop of \<open>LIST_FOREACH\<close> visits the nodes along the next links, at most \<open>n\<close> of them.\<close>

fun LIST_walk :: "nat \<Rightarrow> 'n option \<Rightarrow> 'n links \<Rightarrow> 'n list" where
  "LIST_walk 0 v h = []"
| "LIST_walk (Suc n) None h = []"
| "LIST_walk (Suc n) (Some x) h = x # LIST_walk n (le_next h x) h"

text \<open>
  \<open>LIST_CONCAT\<close> works on two heads that share the links.  In the case of two nonempty lists it
  resets the second head, its size included, before it adds that size to the first.
\<close>

definition LIST_CONCAT ::
  "'n links \<Rightarrow> 'n list_head \<Rightarrow> 'n list_head \<Rightarrow> 'n links \<times> 'n list_head \<times> 'n list_head" where
  "LIST_CONCAT h q1 q2 =
     (let (h', q1', q2') =
        (case lh_first q1 of
           None \<Rightarrow> (h, q1\<lparr>lh_first := lh_first q2, lh_last := lh_last q2\<rparr>, q2)
         | Some f1 \<Rightarrow>
            (case lh_first q2 of
               None \<Rightarrow> (h, q1, q2)
             | Some f2 \<Rightarrow>
                (let h1 = (case lh_last q1 of Some l1 \<Rightarrow> set_next l1 (Some f2) h | None \<Rightarrow> h);
                     h2 = set_prev f2 (lh_last q1) h1
                 in (h2, q1\<lparr>lh_last := lh_last q2\<rparr>,
                     q2\<lparr>lh_first := None, lh_last := None, lh_size := 0\<rparr>))))
      in (h', q1'\<lparr>lh_size := lh_size q1' + lh_size q2'\<rparr>, q2'))"

section \<open>The list operations the macros stand for\<close>

fun insert_before :: "'n \<Rightarrow> 'n \<Rightarrow> 'n list \<Rightarrow> 'n list" where
  "insert_before l e [] = []"
| "insert_before l e (x # xs) = (if x = l then e # x # xs else x # insert_before l e xs)"

fun insert_after :: "'n \<Rightarrow> 'n \<Rightarrow> 'n list \<Rightarrow> 'n list" where
  "insert_after l e [] = []"
| "insert_after l e (x # xs) = (if x = l then x # e # xs else x # insert_after l e xs)"

fun next_of :: "'n \<Rightarrow> 'n list \<Rightarrow> 'n option" where
  "next_of e [] = None"
| "next_of e (x # xs) = (if x = e then hd_opt xs else next_of e xs)"

lemma insert_before_mid [simp]:
  "l \<notin> set as \<Longrightarrow> insert_before l e (as @ l # bs) = as @ e # l # bs"
  by (induction as) auto

lemma insert_after_mid [simp]:
  "l \<notin> set as \<Longrightarrow> insert_after l e (as @ l # bs) = as @ l # e # bs"
  by (induction as) auto

lemma next_of_mid [simp]: "l \<notin> set as \<Longrightarrow> next_of l (as @ l # bs) = hd_opt bs"
  by (induction as) auto

lemma set_insert_before [simp]:
  "set (insert_before l e xs) = (if l \<in> set xs then insert e (set xs) else set xs)"
  by (induction xs) auto

lemma set_insert_after [simp]:
  "set (insert_after l e xs) = (if l \<in> set xs then insert e (set xs) else set xs)"
  by (induction xs) auto

lemma distinct_insert_before [simp]:
  "distinct xs \<Longrightarrow> e \<notin> set xs \<Longrightarrow> distinct (insert_before l e xs)"
  by (induction xs) auto

lemma distinct_insert_after [simp]:
  "distinct xs \<Longrightarrow> e \<notin> set xs \<Longrightarrow> distinct (insert_after l e xs)"
  by (induction xs) auto

lemma next_of_in: "next_of e xs = Some y \<Longrightarrow> y \<in> set xs"
  by (induction xs) (auto split: if_splits dest: hd_opt_in)

section \<open>Representation\<close>

text \<open>
  \<^term>\<open>chain h p xs e\<close>: the nodes \<open>xs\<close> are linked one after the other, the first one's
  predecessor link is \<open>p\<close> and the last one's successor link is \<open>e\<close>.
\<close>

fun chain :: "'n links \<Rightarrow> 'n option \<Rightarrow> 'n list \<Rightarrow> 'n option \<Rightarrow> bool" where
  "chain h p [] e \<longleftrightarrow> True"
| "chain h p (x # xs) e \<longleftrightarrow>
     le_prev h x = p \<and> le_next h x = (if xs = [] then e else hd_opt xs) \<and> chain h (Some x) xs e"

definition is_list :: "'n qstate \<Rightarrow> 'n list \<Rightarrow> bool" where
  "is_list = (\<lambda>(h, q) xs. distinct xs \<and> lh_first q = hd_opt xs \<and> lh_last q = last_opt xs \<and>
     lh_size q = of_nat (length xs) \<and> chain h None xs None)"

lemma chain_append:
  "chain h p (xs @ ys) e \<longleftrightarrow>
     chain h p xs (if ys = [] then e else hd_opt ys) \<and>
     chain h (if xs = [] then p else last_opt xs) ys e"
  by (induction xs arbitrary: p) auto

lemma chain_set_next [simp]: "z \<notin> set xs \<Longrightarrow> chain (set_next z v h) p xs e = chain h p xs e"
  by (induction xs arbitrary: p) auto

lemma chain_set_prev [simp]: "z \<notin> set xs \<Longrightarrow> chain (set_prev z v h) p xs e = chain h p xs e"
  by (induction xs arbitrary: p) auto

lemma chain_walk:
  "chain h p xs None \<Longrightarrow> length xs \<le> n \<Longrightarrow> LIST_walk n (hd_opt xs) h = xs"
proof (induction xs arbitrary: n p)
  case Nil
  then show ?case by (cases n) auto
next
  case (Cons x xs)
  then obtain m where "n = Suc m" by (cases n) auto
  with Cons.prems Cons.IH[of "Some x" m] show ?case by (cases xs) auto
qed

section \<open>Each macro implements its list operation\<close>

lemma is_list_init: "is_list (LIST_INIT s) []"
  by (cases s) (simp add: LIST_INIT_def is_list_def)

lemma is_list_first: "is_list s xs \<Longrightarrow> LIST_FIRST s = hd_opt xs"
  by (cases s) (simp add: LIST_FIRST_def is_list_def)

lemma is_list_last: "is_list s xs \<Longrightarrow> LIST_LAST s = last_opt xs"
  by (cases s) (simp add: LIST_LAST_def is_list_def)

lemma is_list_empty: "is_list s xs \<Longrightarrow> LIST_EMPTY s \<longleftrightarrow> xs = []"
  by (cases s) (simp add: LIST_EMPTY_def is_list_def)

lemma is_list_next:
  assumes "is_list s xs" and "x \<in> set xs"
  shows "LIST_NEXT x s = next_of x xs"
proof -
  from assms(2) obtain as bs where xs: "xs = as @ x # bs" and "x \<notin> set as"
    by (meson split_list_first)
  with assms(1) show ?thesis
    by (cases s) (auto simp: LIST_NEXT_def is_list_def chain_append)
qed

lemma is_list_insert_head:
  assumes "is_list s xs" and "e \<notin> set xs"
  shows "is_list (LIST_INSERT_HEAD e s) (e # xs)"
  using assms by (cases s; cases xs)
    (auto simp: LIST_INSERT_HEAD_def is_list_def Let_def algebra_simps)

lemma is_list_insert_tail:
  assumes "is_list s xs" and "e \<notin> set xs"
  shows "is_list (LIST_INSERT_TAIL e s) (xs @ [e])"
  using assms by (cases s; cases xs rule: rev_cases)
    (auto simp: LIST_INSERT_TAIL_def is_list_def Let_def chain_append algebra_simps
          split: if_splits)

lemma is_list_insert_after:
  assumes "is_list s xs" and "l \<in> set xs" and "e \<notin> set xs"
  shows "is_list (LIST_INSERT_AFTER l e s) (insert_after l e xs)"
proof -
  from assms(2) obtain as bs where xs: "xs = as @ l # bs" and l: "l \<notin> set as"
    by (meson split_list_first)
  have ins: "insert_after l e xs = as @ l # e # bs" using l by (simp add: xs)
  show ?thesis using assms l unfolding ins unfolding xs
    by (cases s; cases bs)
      (auto simp: LIST_INSERT_AFTER_def is_list_def Let_def chain_append algebra_simps
            split: if_splits)
qed

lemma is_list_insert_before:
  assumes "is_list s xs" and "l \<in> set xs" and "e \<notin> set xs"
  shows "is_list (LIST_INSERT_BEFORE l e s) (insert_before l e xs)"
proof -
  from assms(2) obtain as bs where xs: "xs = as @ l # bs" and l: "l \<notin> set as"
    by (meson split_list_first)
  have ins: "insert_before l e xs = as @ e # l # bs" using l by (simp add: xs)
  show ?thesis using assms l unfolding ins unfolding xs
    by (cases s; cases as rule: rev_cases)
      (auto simp: LIST_INSERT_BEFORE_def is_list_def Let_def chain_append algebra_simps
            split: if_splits)
qed

lemma is_list_remove:
  assumes "is_list s xs" and "e \<in> set xs"
  shows "is_list (LIST_REMOVE e s) (remove1 e xs)"
proof -
  from assms(2) obtain as bs where xs: "xs = as @ e # bs" and e: "e \<notin> set as"
    by (meson split_list_first)
  have rem: "remove1 e xs = as @ bs" using e by (simp add: xs)
  show ?thesis using assms e unfolding rem unfolding xs
    by (cases s; cases as rule: rev_cases; cases bs)
      (auto simp: LIST_REMOVE_def is_list_def Let_def chain_append algebra_simps
            split: if_splits)
qed

lemma is_list_foreach:
  assumes "is_list (h, q) xs" and "length xs \<le> n"
  shows "LIST_walk n (LIST_FIRST (h, q)) h = xs"
  using assms by (auto simp: is_list_def LIST_FIRST_def intro: chain_walk)

text \<open>Nodes outside the list keep their links, so another list over them is not disturbed.\<close>

lemma is_list_frame:
  assumes "is_list (h, q) xs" and "\<And>x. x \<in> set xs \<Longrightarrow> le_next h' x = le_next h x"
    and "\<And>x. x \<in> set xs \<Longrightarrow> le_prev h' x = le_prev h x"
  shows "is_list (h', q) xs"
proof -
  have "chain h' p ys r = chain h p ys r" if "set ys \<subseteq> set xs" for p ys r
    using that assms(2,3) by (induction ys arbitrary: p) auto
  with assms(1) show ?thesis by (simp add: is_list_def)
qed

section \<open>The interface the macros provide\<close>

text \<open>
  What a client of the macros may rely on: \<open>rep s xs\<close> says that the memory \<open>s\<close> holds the
  list \<open>xs\<close>.
\<close>

locale linked_list =
  fixes rep :: "'h \<Rightarrow> 'n list \<Rightarrow> bool"
    and init :: "'h \<Rightarrow> 'h"
    and first :: "'h \<Rightarrow> 'n option"
    and final :: "'h \<Rightarrow> 'n option"
    and ins_head :: "'n \<Rightarrow> 'h \<Rightarrow> 'h"
    and ins_tail :: "'n \<Rightarrow> 'h \<Rightarrow> 'h"
    and rem :: "'n \<Rightarrow> 'h \<Rightarrow> 'h"
  assumes rep_distinct: "rep s xs \<Longrightarrow> distinct xs"
    and rep_init: "rep (init s) []"
    and rep_first: "rep s xs \<Longrightarrow> first s = hd_opt xs"
    and rep_final: "rep s xs \<Longrightarrow> final s = last_opt xs"
    and rep_ins_head: "rep s xs \<Longrightarrow> e \<notin> set xs \<Longrightarrow> rep (ins_head e s) (e # xs)"
    and rep_ins_tail: "rep s xs \<Longrightarrow> e \<notin> set xs \<Longrightarrow> rep (ins_tail e s) (xs @ [e])"
    and rep_rem: "rep s xs \<Longrightarrow> e \<in> set xs \<Longrightarrow> rep (rem e s) (remove1 e xs)"
begin

text \<open>A fixed number of nodes put at the head one by one are found in reverse order.\<close>

lemma rep_fold_ins_head:
  "rep s xs \<Longrightarrow> distinct es \<Longrightarrow> set es \<inter> set xs = {} \<Longrightarrow> rep (fold ins_head es s) (rev es @ xs)"
proof (induction es arbitrary: s xs)
  case Nil
  then show ?case by simp
next
  case (Cons e es)
  then have "rep (ins_head e s) (e # xs)" by (intro rep_ins_head) auto
  with Cons.prems Cons.IH[of "ins_head e s" "e # xs"] show ?case by auto
qed

text \<open>Entering at the head and leaving from the end is first in, first out.\<close>

fun drain :: "nat \<Rightarrow> 'h \<Rightarrow> 'n list" where
  "drain 0 s = []"
| "drain (Suc n) s = (case final s of None \<Rightarrow> [] | Some x \<Rightarrow> x # drain n (rem x s))"

lemma drain_rep: "rep s xs \<Longrightarrow> length xs = n \<Longrightarrow> drain n s = rev xs"
proof (induction n arbitrary: s xs)
  case 0
  then show ?case by simp
next
  case (Suc n)
  then obtain ys x where xs: "xs = ys @ [x]" by (cases xs rule: rev_cases) auto
  with Suc.prems have "x \<notin> set ys" using rep_distinct by fastforce
  then have "remove1 x xs = ys" using xs by (simp add: remove1_append)
  then have "rep (rem x s) ys" using rep_rem[OF Suc.prems(1), of x] xs by simp
  with Suc xs show ?case by (simp add: rep_final)
qed

lemma fifo:
  assumes "distinct es"
  shows "drain (length es) (fold ins_head es (init s)) = es"
proof -
  have "rep (fold ins_head es (init s)) (rev es @ [])"
    using assms by (intro rep_fold_ins_head rep_init) auto
  then show ?thesis using drain_rep[of _ "rev es" "length es"] by simp
qed

text \<open>Taking the first node and putting it at the end rotates the list.\<close>

lemma rep_rotate:
  assumes "rep s (x # xs)"
  shows "rep (ins_tail x (rem x s)) (rotate1 (x # xs))"
proof -
  have "x \<notin> set xs" using rep_distinct[OF assms] by simp
  moreover have "rep (rem x s) xs" using rep_rem[OF assms, of x] by simp
  ultimately show ?thesis by (simp add: rep_ins_tail)
qed

end

interpretation macros: linked_list is_list LIST_INIT LIST_FIRST LIST_LAST
  LIST_INSERT_HEAD LIST_INSERT_TAIL LIST_REMOVE
proof unfold_locales
  fix s :: "'n qstate" and xs
  assume "is_list s xs"
  then show "distinct xs" by (cases s) (simp add: is_list_def)
qed (simp_all add: is_list_init is_list_first is_list_last is_list_insert_head
      is_list_insert_tail is_list_remove)

section \<open>Properties\<close>

text \<open>C37: Every insertion and removal macro, applied to a well-formed list with the element it needs on
  it (or not on it), performs exactly the list operation it is named after and leaves a well-formed
  list: forward links, backward links, first, last and size.\<close>

theorem queue_macros_refine_lists:
  assumes "is_list s xs" and "l \<in> set xs" and "e \<notin> set xs"
  shows "is_list (LIST_INSERT_HEAD e s) (e # xs) \<and> is_list (LIST_INSERT_TAIL e s) (xs @ [e]) \<and>
    is_list (LIST_INSERT_AFTER l e s) (insert_after l e xs) \<and>
    is_list (LIST_INSERT_BEFORE l e s) (insert_before l e xs) \<and>
    is_list (LIST_REMOVE l s) (remove1 l xs) \<and>
    LIST_FIRST s = hd_opt xs \<and> LIST_LAST s = last_opt xs \<and> LIST_NEXT l s = next_of l xs"
  using assms is_list_insert_head is_list_insert_tail is_list_insert_after is_list_insert_before
    is_list_remove is_list_first is_list_last is_list_next by metis

definition no_links :: "nat qstate" where
  "no_links = (\<lparr>le_next = (\<lambda>_. None), le_prev = (\<lambda>_. None)\<rparr>,
               \<lparr>lh_first = None, lh_last = None, lh_size = 0\<rparr>)"

theorem queue_macros_refine_lists_witness:
  "is_list (LIST_REMOVE 7 (LIST_INSERT_HEAD 8 (LIST_INSERT_HEAD 7 (LIST_INIT no_links)))) [8]"
proof -
  have "is_list (LIST_INSERT_HEAD 8 (LIST_INSERT_HEAD 7 (LIST_INIT no_links))) [8, 7]"
    by (intro is_list_insert_head is_list_init) simp_all
  from queue_macros_refine_lists[OF this, of 7 9] show ?thesis by simp
qed

text \<open>Dequeue from the tail, as the ready queues and the semaphores do, \<open>n\<close> times.\<close>

fun dequeue_all :: "nat \<Rightarrow> 'n qstate \<Rightarrow> 'n list" where
  "dequeue_all 0 s = []"
| "dequeue_all (Suc n) s =
     (case LIST_LAST s of None \<Rightarrow> [] | Some x \<Rightarrow> x # dequeue_all n (LIST_REMOVE x s))"

lemma dequeue_all_eq: "dequeue_all n s = macros.drain n s"
  by (induction n arbitrary: s) (simp_all split: option.splits)

text \<open>Inserting at the head and taking from the tail is first in, first out, whatever the size.\<close>

theorem queue_fifo:
  assumes "distinct es"
  shows "dequeue_all (length es) (fold LIST_INSERT_HEAD es (LIST_INIT s)) = es"
  unfolding dequeue_all_eq by (rule macros.fifo[OF assms])

theorem queue_fifo_witness:
  "dequeue_all 3 (fold LIST_INSERT_HEAD [4, 2, 9] (LIST_INIT no_links)) = [4, 2, 9]"
  using queue_fifo[of "[4, 2, 9]" no_links] by (simp add: numeral_3_eq_3)

text \<open>Joining two nonempty lists with \<open>LIST_CONCAT\<close> leaves the first head with the nodes of both
  lists but the size of the first: the second size is reset before it is added.\<close>

theorem list_concat_loses_size:
  assumes "is_list (h, q1) (x # xs)" and "is_list (h, q2) (y # ys)"
    and "LIST_CONCAT h q1 q2 = (h', q1', q2')"
  shows "lh_size q1' = of_nat (length (x # xs)) \<and> lh_last q1' = last_opt (y # ys) \<and>
    lh_first q1' = Some x \<and> lh_first q2' = None"
  using assms by (auto simp: LIST_CONCAT_def is_list_def)

theorem list_concat_loses_size_witness:
  "case LIST_CONCAT \<lparr>le_next = (\<lambda>_. None), le_prev = (\<lambda>_. None)\<rparr>
      \<lparr>lh_first = Some (1 :: nat), lh_last = Some 1, lh_size = 1\<rparr>
      \<lparr>lh_first = Some 2, lh_last = Some 2, lh_size = 1\<rparr> of
     (h', q1', q2') \<Rightarrow> lh_size q1' = 1 \<and> lh_last q1' = Some 2"
proof -
  let ?h = "\<lparr>le_next = (\<lambda>_. None), le_prev = (\<lambda>_. None)\<rparr> :: nat links"
  let ?q = "\<lambda>n :: nat. \<lparr>lh_first = Some n, lh_last = Some n, lh_size = 1\<rparr>"
  obtain h' q1' q2' where c: "LIST_CONCAT ?h (?q 1) (?q 2) = (h', q1', q2')"
    by (metis prod_cases3)
  have "is_list (?h, ?q 1) [1]" and "is_list (?h, ?q 2) [2]" by (simp_all add: is_list_def)
  from list_concat_loses_size[OF this c] show ?thesis unfolding c by simp
qed

end
