(* ===== verification/Region.thy ===== *)
theory Region
  imports Prelude "HOL-Library.Multiset"
begin

text \<open>
  The abstract specification of a first-fit heap: the free space is a list of intervals
  \<open>(start, length)\<close> over the natural numbers, in address order and with a gap between any
  two of them (no two free intervals touch), and an allocated block is an interval too.
  \<open>take_fit\<close> takes a block from the front of the first interval that is long enough,
  \<open>release\<close> returns a block and merges it with the neighbours it touches.  The user heap and
  the kernel heap both refine these operations; the interface \<open>region_heap\<close> collects what
  follows for any implementation.
\<close>

type_synonym region = "nat \<times> nat"

section \<open>Intervals\<close>

definition cells :: "region \<Rightarrow> nat set" where
  "cells r = {fst r ..< fst r + snd r}"

definition cover :: "region list \<Rightarrow> nat set" where
  "cover rs = (\<Union>r\<in>set rs. cells r)"

definition before :: "region \<Rightarrow> region \<Rightarrow> bool" where
  "before r r' \<longleftrightarrow> fst r + snd r < fst r'"

definition gapped :: "region list \<Rightarrow> bool" where
  "gapped rs \<longleftrightarrow> sorted_wrt before rs \<and> (\<forall>r\<in>set rs. 0 < snd r)"

definition disjoint_regions :: "region list \<Rightarrow> bool" where
  "disjoint_regions rs \<longleftrightarrow> sorted_wrt (\<lambda>r r'. cells r \<inter> cells r' = {}) rs"

definition total_size :: "region list \<Rightarrow> nat" where
  "total_size rs = sum_list (map snd rs)"

lemma cover_simps [simp]:
  "cover [] = {}" "cover (r # rs) = cells r \<union> cover rs" "cover (rs @ rs') = cover rs \<union> cover rs'"
  by (auto simp: cover_def)

lemma cells_Pair [simp]: "cells (a, n) = {a..<a + n}"
  by (simp add: cells_def)

lemma total_size_simps [simp]:
  "total_size [] = 0" "total_size (r # rs) = snd r + total_size rs"
  "total_size (rs @ rs') = total_size rs + total_size rs'"
  by (simp_all add: total_size_def)

lemma in_cover_iff: "x \<in> cover rs \<longleftrightarrow> (\<exists>a n. (a, n) \<in> set rs \<and> a \<le> x \<and> x < a + n)"
  by (force simp: cover_def cells_def)

lemma gapped_simps [simp]:
  "gapped []"
  "gapped (r # rs) \<longleftrightarrow> 0 < snd r \<and> (\<forall>r'\<in>set rs. before r r') \<and> gapped rs"
  by (auto simp: gapped_def)

lemma gapped_append:
  "gapped (rs @ rs') \<longleftrightarrow> gapped rs \<and> gapped rs' \<and> (\<forall>r\<in>set rs. \<forall>r'\<in>set rs'. before r r')"
  by (auto simp: gapped_def sorted_wrt_append)

lemma cells_subset_cover: "r \<in> set rs \<Longrightarrow> cells r \<subseteq> cover rs"
  by (auto simp: cover_def)

lemma disjoint_cells_cover: "A \<inter> cover rs = {} \<longleftrightarrow> (\<forall>r\<in>set rs. A \<inter> cells r = {})"
  by (auto simp: cover_def)

lemma disjoint_regions_Cons:
  "disjoint_regions (r # rs) \<longleftrightarrow> cells r \<inter> cover rs = {} \<and> disjoint_regions rs"
  by (auto simp: disjoint_regions_def cover_def)

lemma disjoint_regions_append:
  "disjoint_regions (rs @ rs') \<longleftrightarrow>
     disjoint_regions rs \<and> disjoint_regions rs' \<and> cover rs \<inter> cover rs' = {}"
  by (auto simp: disjoint_regions_def sorted_wrt_append cover_def)

lemma disjoint_regions_mset:
  assumes "mset rs = mset rs'"
  shows "disjoint_regions rs \<longleftrightarrow> disjoint_regions rs'"
  using assms
proof (induction rs arbitrary: rs')
  case Nil
  then show ?case by simp
next
  case (Cons r rs)
  then have "r \<in> set rs'" by (metis list.set_intros(1) mset_eq_setD)
  then obtain as bs where rs': "rs' = as @ r # bs" by (meson split_list)
  with Cons.prems have m: "mset rs = mset (as @ bs)" by simp
  then have "cover rs = cover (as @ bs)" by (metis cover_def set_mset_mset)
  with Cons.IH[OF m] show ?case
    by (auto simp: rs' disjoint_regions_Cons disjoint_regions_append)
qed

lemma disjoint_regions_pair:
  assumes "disjoint_regions rs" and "i < length rs" and "j < length rs" and "i \<noteq> j"
  shows "cells (rs ! i) \<inter> cells (rs ! j) = {}"
proof -
  have *: "cells (rs ! i) \<inter> cells (rs ! j) = {}" if "i < j" "j < length rs" for i j
    using assms(1) that by (auto simp: disjoint_regions_def sorted_wrt_iff_nth_less)
  show ?thesis using *[of i j] *[of j i] assms(2-4) by (cases i j rule: linorder_cases) auto
qed

lemma before_disjoint: "before r r' \<Longrightarrow> cells r \<inter> cells r' = {}"
  by (auto simp: before_def cells_def)

lemma gapped_disjoint: "gapped rs \<Longrightarrow> disjoint_regions rs"
proof (induction rs)
  case Nil
  then show ?case by (simp add: disjoint_regions_def)
next
  case (Cons r rs)
  then have "cells r \<inter> cover rs = {}"
    unfolding disjoint_cells_cover by (simp add: before_disjoint)
  with Cons show ?case by (simp add: disjoint_regions_Cons)
qed

lemma card_cells [simp]: "card (cells r) = snd r"
  by (simp add: cells_def)

lemma finite_cells [simp]: "finite (cells r)"
  by (simp add: cells_def)

lemma finite_cover [simp]: "finite (cover rs)"
  by (simp add: cover_def)

lemma card_cover: "disjoint_regions rs \<Longrightarrow> card (cover rs) = total_size rs"
  by (induction rs) (simp_all add: disjoint_regions_Cons card_Un_disjoint)

section \<open>Taking a block: first fit\<close>

definition shrink_first :: "nat \<Rightarrow> region \<Rightarrow> region list" where
  "shrink_first n r = (if snd r = n then [] else [(fst r + n, snd r - n)])"

fun take_fit :: "nat \<Rightarrow> region list \<Rightarrow> (nat \<times> region list) option" where
  "take_fit n [] = None"
| "take_fit n (r # rs) =
     (if n \<le> snd r then Some (fst r, shrink_first n r @ rs)
      else map_option (\<lambda>(a, rs'). (a, r # rs')) (take_fit n rs))"

lemma take_fit_None: "take_fit n rs = None \<longleftrightarrow> (\<forall>r\<in>set rs. snd r < n)"
  by (induction rs) auto

lemma take_fit_split:
  "take_fit n rs = Some (a, rs') \<Longrightarrow>
     \<exists>as r bs. rs = as @ r # bs \<and> rs' = as @ shrink_first n r @ bs \<and> a = fst r \<and> n \<le> snd r \<and>
       (\<forall>x\<in>set as. snd x < n)"
proof (induction rs arbitrary: rs')
  case Nil
  then show ?case by simp
next
  case (Cons x xs)
  show ?case
  proof (cases "n \<le> snd x")
    case True
    with Cons.prems show ?thesis
      by (intro exI[of _ "[]"] exI[of _ x] exI[of _ xs]) auto
  next
    case False
    with Cons.prems obtain ys where "take_fit n xs = Some (a, ys)" and rs': "rs' = x # ys"
      by auto
    then obtain as r bs where "xs = as @ r # bs" "ys = as @ shrink_first n r @ bs"
      "a = fst r" "n \<le> snd r" "\<forall>x\<in>set as. snd x < n"
      using Cons.IH by blast
    with False rs' show ?thesis
      by (intro exI[of _ "x # as"] exI[of _ r] exI[of _ bs]) auto
  qed
qed

lemma take_fit_mid:
  "\<forall>x\<in>set as. snd x < n \<Longrightarrow> n \<le> snd r \<Longrightarrow>
   take_fit n (as @ r # bs) = Some (fst r, as @ shrink_first n r @ bs)"
  by (induction as) auto

lemma cells_shrink: "n \<le> snd r \<Longrightarrow> cells r = cells (fst r, n) \<union> cover (shrink_first n r)"
  by (auto simp: cells_def shrink_first_def)

lemma cells_shrink_disjoint: "cells (fst r, n) \<inter> cover (shrink_first n r) = {}"
  by (auto simp: shrink_first_def)

lemma take_fit_cover:
  assumes "take_fit n rs = Some (a, rs')" and "gapped rs"
  shows "cover rs = cells (a, n) \<union> cover rs'" and "cells (a, n) \<inter> cover rs' = {}"
proof -
  from take_fit_split[OF assms(1)] obtain as r bs where
    rs: "rs = as @ r # bs" "rs' = as @ shrink_first n r @ bs" "a = fst r" "n \<le> snd r" by blast
  show "cover rs = cells (a, n) \<union> cover rs'"
    using cells_shrink[OF rs(4)] by (auto simp: rs)
  have "disjoint_regions (as @ r # bs)"
    using gapped_disjoint[OF assms(2)] by (simp add: rs)
  then have "cells r \<inter> cover (as @ bs) = {}"
    by (auto simp: disjoint_regions_append disjoint_regions_Cons)
  then show "cells (a, n) \<inter> cover rs' = {}"
    using cells_shrink[OF rs(4)] cells_shrink_disjoint[of r n] rs by auto
qed

lemma take_fit_gapped:
  assumes "take_fit n rs = Some (a, rs')" and "gapped rs"
  shows "gapped rs'"
proof -
  from take_fit_split[OF assms(1)] obtain as r bs where
    "rs = as @ r # bs" "rs' = as @ shrink_first n r @ bs" "n \<le> snd r" by blast
  with assms(2) show ?thesis
    by (auto simp: gapped_append shrink_first_def before_def)
qed

section \<open>Returning a block: coalescing\<close>

definition touches :: "region \<Rightarrow> region \<Rightarrow> bool" where
  "touches r r' \<longleftrightarrow> fst r + snd r = fst r'"

text \<open>Merge a block with the last interval below it and the first interval above it.\<close>

definition release :: "region \<Rightarrow> region list \<Rightarrow> region list" where
  "release r rs =
     (let lo = takeWhile (\<lambda>x. fst x < fst r) rs; hi = dropWhile (\<lambda>x. fst x < fst r) rs;
          r1 = (if lo \<noteq> [] \<and> touches (last lo) r
                then (fst (last lo), snd (last lo) + snd r) else r);
          lo1 = (if lo \<noteq> [] \<and> touches (last lo) r then butlast lo else lo);
          r2 = (if hi \<noteq> [] \<and> touches r (hd hi) then (fst r1, snd r1 + snd (hd hi)) else r1);
          hi1 = (if hi \<noteq> [] \<and> touches r (hd hi) then tl hi else hi)
      in lo1 @ r2 # hi1)"

lemma release_parts:
  assumes "\<forall>x\<in>set lo. fst x < fst r" and "\<forall>x\<in>set hi. \<not> fst x < fst r"
  shows "takeWhile (\<lambda>x. fst x < fst r) (lo @ hi) = lo"
    and "dropWhile (\<lambda>x. fst x < fst r) (lo @ hi) = hi"
proof -
  have "takeWhile (\<lambda>x. fst x < fst r) hi = []" and "dropWhile (\<lambda>x. fst x < fst r) hi = hi"
    using assms(2) by (cases hi; auto)+
  with assms(1) show "takeWhile (\<lambda>x. fst x < fst r) (lo @ hi) = lo"
    and "dropWhile (\<lambda>x. fst x < fst r) (lo @ hi) = hi" by auto
qed

text \<open>The four cases of a release, for a list split at the address of the block.\<close>

lemma release_plain:
  assumes "\<forall>x\<in>set lo. fst x < fst r" and "\<forall>x\<in>set hi. \<not> fst x < fst r"
    and "lo = [] \<or> \<not> touches (last lo) r" and "hi = [] \<or> \<not> touches r (hd hi)"
  shows "release r (lo @ hi) = lo @ r # hi"
  unfolding release_def Let_def release_parts[OF assms(1,2)] using assms(3,4) by auto

lemma release_low:
  assumes "\<forall>x\<in>set (lo @ [p]). fst x < fst r" and "\<forall>x\<in>set hi. \<not> fst x < fst r"
    and "touches p r" and "hi = [] \<or> \<not> touches r (hd hi)"
  shows "release r (lo @ p # hi) = lo @ (fst p, snd p + snd r) # hi"
proof -
  have "lo @ p # hi = (lo @ [p]) @ hi" by simp
  then show ?thesis
    unfolding release_def Let_def using assms(3,4) release_parts[OF assms(1,2)] by auto
qed

lemma release_high:
  assumes "\<forall>x\<in>set lo. fst x < fst r" and "\<forall>x\<in>set (q # hi). \<not> fst x < fst r"
    and "lo = [] \<or> \<not> touches (last lo) r" and "touches r q"
  shows "release r (lo @ q # hi) = lo @ (fst r, snd r + snd q) # hi"
  unfolding release_def Let_def release_parts[OF assms(1,2)] using assms(3,4) by auto

lemma release_both:
  assumes "\<forall>x\<in>set (lo @ [p]). fst x < fst r" and "\<forall>x\<in>set (q # hi). \<not> fst x < fst r"
    and "touches p r" and "touches r q"
  shows "release r (lo @ p # q # hi) = lo @ (fst p, snd p + snd r + snd q) # hi"
proof -
  have "lo @ p # q # hi = (lo @ [p]) @ q # hi" by simp
  then show ?thesis
    unfolding release_def Let_def using assms(3,4) release_parts[OF assms(1,2)] by auto
qed

lemma gapped_split_at:
  assumes "gapped rs"
  obtains lo hi where "rs = lo @ hi" and "\<forall>x\<in>set lo. fst x < a" and "\<forall>x\<in>set hi. \<not> fst x < a"
proof -
  let ?P = "\<lambda>x::region. fst x < a"
  have "\<forall>x\<in>set (dropWhile ?P rs). \<not> ?P x"
  proof (cases "dropWhile ?P rs")
    case Nil
    show ?thesis unfolding Nil by simp
  next
    case (Cons y ys)
    with hd_dropWhile[of ?P rs] have y: "\<not> ?P y" by simp
    have "gapped (y # ys)"
      using assms Cons takeWhile_dropWhile_id[of ?P rs] gapped_append by metis
    with y Cons show ?thesis by (auto simp: before_def)
  qed
  moreover have "rs = takeWhile ?P rs @ dropWhile ?P rs" by simp
  moreover have "\<forall>x\<in>set (takeWhile ?P rs). ?P x" by (auto dest: set_takeWhileD)
  ultimately show ?thesis using that by blast
qed

text \<open>The intervals below and above a block that is disjoint from all of them.\<close>

lemma gapped_neighbours:
  assumes "gapped (lo @ hi)" and "\<forall>x\<in>set lo. fst x < fst r" and "\<forall>x\<in>set hi. \<not> fst x < fst r"
    and "0 < snd r" and "cells r \<inter> cover (lo @ hi) = {}"
  shows "\<forall>x\<in>set lo. fst x + snd x \<le> fst r" and "\<forall>x\<in>set hi. fst r + snd r \<le> fst x"
proof -
  show "\<forall>x\<in>set lo. fst x + snd x \<le> fst r"
  proof
    fix x assume x: "x \<in> set lo"
    then have "cells r \<inter> cells x = {}" using assms(5) by (auto simp: cover_def)
    then have "fst r \<notin> cells x" using assms(4) by (auto simp: cells_def)
    with x assms(2) show "fst x + snd x \<le> fst r" by (auto simp: cells_def)
  qed
  show "\<forall>x\<in>set hi. fst r + snd r \<le> fst x"
  proof
    fix x assume x: "x \<in> set hi"
    then have "cells r \<inter> cells x = {}" using assms(5) by (auto simp: cover_def)
    moreover have "fst x \<in> cells x" using x assms(1) by (auto simp: gapped_append gapped_def cells_def)
    ultimately have "fst x \<notin> cells r" by auto
    with x assms(3) show "fst r + snd r \<le> fst x" by (auto simp: cells_def)
  qed
qed

lemma release_cases:
  assumes "gapped rs" and "0 < snd r" and "cells r \<inter> cover rs = {}"
  obtains
    (plain) lo hi where "rs = lo @ hi" "release r rs = lo @ r # hi"
      "\<forall>x\<in>set lo. before x r" "\<forall>x\<in>set hi. before r x"
  | (low) lo p hi where "rs = lo @ p # hi" "release r rs = lo @ (fst p, snd p + snd r) # hi"
      "touches p r" "\<forall>x\<in>set hi. before r x"
  | (high) lo q hi where "rs = lo @ q # hi" "release r rs = lo @ (fst r, snd r + snd q) # hi"
      "\<forall>x\<in>set lo. before x r" "touches r q"
  | (both) lo p q hi where "rs = lo @ p # q # hi"
      "release r rs = lo @ (fst p, snd p + snd r + snd q) # hi" "touches p r" "touches r q"
proof -
  obtain lo hi where rs: "rs = lo @ hi" and lo: "\<forall>x\<in>set lo. fst x < fst r"
    and hi: "\<forall>x\<in>set hi. \<not> fst x < fst r"
    using gapped_split_at[OF assms(1)] by blast
  note nb = gapped_neighbours[OF assms(1)[unfolded rs] lo hi assms(2) assms(3)[unfolded rs]]
  have lo_b: "\<forall>x\<in>set lo. before x r" if "lo = [] \<or> \<not> touches (last lo) r"
  proof (cases lo rule: rev_cases)
    case (snoc ys y)
    have "\<forall>x\<in>set ys. before x y" using assms(1) by (auto simp: rs snoc gapped_append)
    with that nb(1) snoc lo show ?thesis by (auto simp: before_def touches_def)
  qed simp
  have hi_b: "\<forall>x\<in>set hi. before r x" if "hi = [] \<or> \<not> touches r (hd hi)"
  proof (cases hi)
    case (Cons y ys)
    have "\<forall>x\<in>set ys. before y x" using assms(1) by (auto simp: rs Cons gapped_append)
    with that nb(2) Cons show ?thesis by (auto simp: before_def touches_def)
  qed simp
  show ?thesis
  proof (cases "lo = [] \<or> \<not> touches (last lo) r"; cases "hi = [] \<or> \<not> touches r (hd hi)")
    assume *: "lo = [] \<or> \<not> touches (last lo) r" "hi = [] \<or> \<not> touches r (hd hi)"
    show ?thesis
      using plain[OF rs] release_plain[OF lo hi *] lo_b hi_b * by (simp add: rs)
  next
    assume *: "lo = [] \<or> \<not> touches (last lo) r" "\<not> (hi = [] \<or> \<not> touches r (hd hi))"
    then obtain q hi' where q: "hi = q # hi'" "touches r q" by (cases hi) auto
    then show ?thesis
      using high[of lo q hi'] release_high[of lo r q hi'] lo hi lo_b * by (simp add: rs)
  next
    assume *: "\<not> (lo = [] \<or> \<not> touches (last lo) r)" "hi = [] \<or> \<not> touches r (hd hi)"
    then obtain p lo' where p: "lo = lo' @ [p]" "touches p r" by (cases lo rule: rev_cases) auto
    then show ?thesis
      using low[of lo' p hi] release_low[of lo' p r hi] lo hi hi_b * by (simp add: rs)
  next
    assume *: "\<not> (lo = [] \<or> \<not> touches (last lo) r)" "\<not> (hi = [] \<or> \<not> touches r (hd hi))"
    then obtain p lo' where p: "lo = lo' @ [p]" "touches p r" by (cases lo rule: rev_cases) auto
    from * obtain q hi' where q: "hi = q # hi'" "touches r q" by (cases hi) auto
    from p q show ?thesis
      using both[of lo' p q hi'] release_both[of lo' p r q hi'] lo hi by (simp add: rs)
  qed
qed

lemma release_cover:
  assumes "gapped rs" and "0 < snd r" and "cells r \<inter> cover rs = {}"
  shows "cover (release r rs) = cells r \<union> cover rs"
  using assms by (cases rule: release_cases) (auto simp: cells_def touches_def)

lemma release_gapped:
  assumes "gapped rs" and "0 < snd r" and "cells r \<inter> cover rs = {}"
  shows "gapped (release r rs)"
  using assms
proof (cases rule: release_cases)
  case (plain lo hi)
  with assms(1,2) show ?thesis by (fastforce simp: gapped_append before_def)
next
  case (low lo p hi)
  with assms(1,2) show ?thesis by (auto simp: gapped_append before_def touches_def)
next
  case (high lo q hi)
  with assms(1,2) show ?thesis by (fastforce simp: gapped_append before_def touches_def)
next
  case (both lo p q hi)
  with assms(1,2) show ?thesis by (auto simp: gapped_append before_def touches_def)
qed

lemma release_total:
  assumes "gapped rs" and "0 < snd r" and "cells r \<inter> cover rs = {}"
  shows "total_size (release r rs) = snd r + total_size rs"
  using assms by (cases rule: release_cases) auto

section \<open>A free list is determined by the space it covers\<close>

lemma gapped_Cons_min:
  assumes "gapped ((a, n) # rs)"
  shows "a \<in> cover ((a, n) # rs)" and "x \<in> cover ((a, n) # rs) \<Longrightarrow> a \<le> x"
    and "a + n \<notin> cover ((a, n) # rs)"
  using assms by (auto simp: in_cover_iff before_def)

lemma gapped_unique:
  assumes "gapped rs" and "gapped rs'" and "cover rs = cover rs'"
  shows "rs = rs'"
  using assms
proof (induction rs arbitrary: rs')
  case Nil
  then have "cover rs' = {}" by simp
  with Nil.prems(2) show ?case by (cases rs') (auto simp: cells_def)
next
  case (Cons r rs)
  obtain a n where r: "r = (a, n)" by force
  with Cons.prems(1,3) have "cover rs' \<noteq> {}" by auto
  then obtain b m rs1 where rs': "rs' = (b, m) # rs1" by (cases rs') auto
  note 1 = gapped_Cons_min[OF Cons.prems(1)[unfolded r]]
  note 2 = gapped_Cons_min[OF Cons.prems(2)[unfolded rs']]
  note eq = Cons.prems(3)[unfolded r rs']
  have ab: "a = b" using 1(1,2) 2(1,2) eq by (metis le_antisym)
  have "\<not> n < m" and "\<not> m < n" using 1(3) 2(3) eq ab by auto
  then have nm: "n = m" by simp
  have "cover rs = cover ((a, n) # rs) - {a..<a + n}"
    using gapped_disjoint[OF Cons.prems(1)] by (auto simp: disjoint_regions_Cons r)
  moreover have "cover rs1 = cover ((b, m) # rs1) - {b..<b + m}"
    using gapped_disjoint[OF Cons.prems(2)] by (auto simp: disjoint_regions_Cons rs')
  ultimately have "cover rs = cover rs1" using eq ab nm by simp
  then have "rs = rs1" using Cons.prems(1,2) by (intro Cons.IH) (auto simp: rs')
  with ab nm show ?case by (simp add: r rs')
qed

lemma release_take_fit:
  assumes "take_fit n rs = Some (a, rs')" and "gapped rs" and "0 < n"
  shows "release (a, n) rs' = rs"
proof (rule gapped_unique)
  note tf = take_fit_cover[OF assms(1,2)] take_fit_gapped[OF assms(1,2)]
  show "gapped (release (a, n) rs')" using tf assms(3) by (intro release_gapped) auto
  show "cover (release (a, n) rs') = cover rs"
    using tf assms(3) by (subst release_cover) auto
qed (rule assms(2))

section \<open>The interface of a heap of regions\<close>

text \<open>
  \<open>frees s\<close> and \<open>takens s\<close> are the free intervals and the allocated blocks of a state;
  \<open>alloc r s a s'\<close> says that the request \<open>r\<close>, made in \<open>s\<close>, returned the address \<open>a\<close> and left
  \<open>s'\<close>; \<open>dealloc a s s'\<close> that freeing the address \<open>a\<close> led from \<open>s\<close> to \<open>s'\<close>.
\<close>

locale region_heap =
  fixes inv :: "'s \<Rightarrow> bool"
    and frees :: "'s \<Rightarrow> region list"
    and takens :: "'s \<Rightarrow> region list"
    and len :: "'r \<Rightarrow> nat"
    and alloc :: "'r \<Rightarrow> 's \<Rightarrow> nat \<Rightarrow> 's \<Rightarrow> bool"
    and dealloc :: "nat \<Rightarrow> 's \<Rightarrow> 's \<Rightarrow> bool"
  assumes inv_gapped: "inv s \<Longrightarrow> gapped (frees s)"
    and inv_taken_disjoint: "inv s \<Longrightarrow> disjoint_regions (takens s)"
    and inv_free_taken: "inv s \<Longrightarrow> cover (takens s) \<inter> cover (frees s) = {}"
    and inv_taken_pos: "inv s \<Longrightarrow> r \<in> set (takens s) \<Longrightarrow> 0 < snd r"
    and alloc_inv: "inv s \<Longrightarrow> alloc q s a s' \<Longrightarrow> inv s'"
    and alloc_free: "inv s \<Longrightarrow> alloc q s a s' \<Longrightarrow>
       cover (frees s) = cells (a, len q) \<union> cover (frees s')"
    and alloc_taken: "inv s \<Longrightarrow> alloc q s a s' \<Longrightarrow>
       mset (takens s') = add_mset (a, len q) (mset (takens s))"
    and dealloc_inv: "inv s \<Longrightarrow> dealloc a s s' \<Longrightarrow> inv s'"
    and dealloc_free: "inv s \<Longrightarrow> dealloc a s s' \<Longrightarrow>
       \<exists>n. (a, n) \<in> set (takens s) \<and> mset (takens s') = mset (takens s) - {#(a, n)#} \<and>
           frees s' = release (a, n) (frees s)"
begin

inductive run :: "'s \<Rightarrow> 's \<Rightarrow> bool" where
  run_refl: "run s s"
| run_alloc: "run s t \<Longrightarrow> alloc q t a u \<Longrightarrow> run s u"
| run_dealloc: "run s t \<Longrightarrow> dealloc a t u \<Longrightarrow> run s u"

definition space :: "'s \<Rightarrow> nat set" where
  "space s = cover (frees s) \<union> cover (takens s)"

lemma cover_mset: "mset rs = mset rs' \<Longrightarrow> cover rs = cover rs'"
  by (metis cover_def set_mset_mset)

lemma alloc_space:
  assumes "inv s" and "alloc q s a s'"
  shows "space s' = space s"
proof -
  have "cover (takens s') = cover ((a, len q) # takens s)"
    by (rule cover_mset) (simp add: alloc_taken[OF assms])
  then show ?thesis using alloc_free[OF assms] by (auto simp: space_def)
qed

lemma alloc_fresh:
  assumes "inv s" and "alloc q s a s'" and "r \<in> set (takens s)"
  shows "cells (a, len q) \<inter> cells r = {}"
  using inv_free_taken[OF assms(1)] alloc_free[OF assms(1,2)] cells_subset_cover[OF assms(3)]
  by blast

lemma dealloc_space:
  assumes "inv s" and "dealloc a s s'"
  shows "space s' = space s"
proof -
  from dealloc_free[OF assms] obtain n where n: "(a, n) \<in> set (takens s)"
    "mset (takens s') = mset (takens s) - {#(a, n)#}" "frees s' = release (a, n) (frees s)"
    by blast
  have sub: "cells (a, n) \<subseteq> cover (takens s)" by (rule cells_subset_cover[OF n(1)])
  have pos: "0 < snd (a, n)" by (rule inv_taken_pos[OF assms(1) n(1)])
  have dis: "cells (a, n) \<inter> cover (frees s) = {}" using sub inv_free_taken[OF assms(1)] by blast
  have "cover (takens s) = cover ((a, n) # takens s')"
    by (rule cover_mset) (use n in simp)
  then show ?thesis
    using release_cover[OF inv_gapped[OF assms(1)] pos dis] n(3) by (auto simp: space_def)
qed

lemma run_inv_space: "run s t \<Longrightarrow> inv s \<Longrightarrow> inv t \<and> space t = space s"
proof (induction rule: run.induct)
  case (run_refl s)
  then show ?case by simp
next
  case (run_alloc s t q a u)
  then show ?case using alloc_inv alloc_space by blast
next
  case (run_dealloc s t a u)
  then show ?case using dealloc_inv dealloc_space by blast
qed

text \<open>In every state of a run, no two allocated blocks overlap, and no byte is lost.\<close>

lemma run_disjoint:
  assumes "run s t" and "inv s" and "i < length (takens t)" and "j < length (takens t)"
    and "i \<noteq> j"
  shows "cells (takens t ! i) \<inter> cells (takens t ! j) = {}"
  using run_inv_space[OF assms(1,2)] inv_taken_disjoint disjoint_regions_pair assms(3-5) by blast

lemma run_conserves:
  assumes "run s t" and "inv s"
  shows "total_size (frees t) + total_size (takens t) =
         total_size (frees s) + total_size (takens s)"
proof -
  have "card (space u) = total_size (frees u) + total_size (takens u)" if "inv u" for u
    using inv_free_taken[OF that] gapped_disjoint[OF inv_gapped[OF that]]
      inv_taken_disjoint[OF that]
    by (auto simp: space_def card_Un_disjoint card_cover Int_commute)
  then show ?thesis using run_inv_space[OF assms] assms(2) by metis
qed

text \<open>When everything has been freed again, the free list is what it was at the start.\<close>

lemma run_all_freed:
  assumes "run s t" and "inv s" and "takens s = []" and "takens t = []"
  shows "frees t = frees s"
proof -
  from run_inv_space[OF assms(1,2)] have "inv t" and "space t = space s" by auto
  then show ?thesis
    using assms inv_gapped gapped_unique[of "frees t" "frees s"] by (auto simp: space_def)
qed

text \<open>Freeing a block right after its allocation restores the free list.\<close>

lemma alloc_dealloc:
  assumes "inv s" and "alloc q s a s'" and "dealloc a s' s''"
    and "\<forall>m. (a, m) \<in> set (takens s') \<longrightarrow> m = len q"
  shows "frees s'' = frees s"
proof (rule gapped_unique)
  have i: "inv s'" "inv s''" using alloc_inv[OF assms(1,2)] dealloc_inv assms(3) by blast+
  from dealloc_free[OF i(1) assms(3)] assms(4) have
    rel: "frees s'' = release (a, len q) (frees s')" and "(a, len q) \<in> set (takens s')" by auto
  then have pos: "0 < snd (a, len q)" and dis: "cells (a, len q) \<inter> cover (frees s') = {}"
    using inv_taken_pos[OF i(1)] cells_subset_cover[of "(a, len q)"] inv_free_taken[OF i(1)]
    by blast+
  show "gapped (frees s'')" and "gapped (frees s)" using i assms(1) inv_gapped by blast+
  show "cover (frees s'') = cover (frees s)"
    using release_cover[OF inv_gapped[OF i(1)] pos dis] rel alloc_free[OF assms(1,2)] by simp
qed

end

text \<open>A first-fit heap takes the block from the front of the first interval that fits.\<close>

locale first_fit_heap = region_heap +
  assumes alloc_first_fit: "inv s \<Longrightarrow> alloc q s a s' \<Longrightarrow> take_fit (len q) (frees s) = Some (a, frees s')"
begin

text \<open>The block returned is the lowest one that fits.\<close>

lemma alloc_lowest:
  assumes "inv s" and "alloc q s a s'" and "(b, m) \<in> set (frees s)" and "len q \<le> m"
  shows "a \<le> b"
proof -
  from take_fit_split[OF alloc_first_fit[OF assms(1,2)]] obtain as r bs where
    s: "frees s = as @ r # bs" "a = fst r" "\<forall>x\<in>set as. snd x < len q" by blast
  with assms(3,4) have "(b, m) = r \<or> (b, m) \<in> set bs" by auto
  moreover have "\<forall>x\<in>set bs. before r x"
    using inv_gapped[OF assms(1)] by (simp add: s gapped_append)
  ultimately show ?thesis by (auto simp: s before_def)
qed

end

end
