(* ===== verification/Layout.thy ===== *)
theory Layout
  imports Prelude
begin

unbundle bit_operations_syntax

text \<open>
  The address arithmetic of the kernel: the macros of inc/mmu.h that split a linear address,
  the rounding macros of inc/types.h, the entry macros of kern/helpers.h, and the constants of
  the address-space map of inc/memlayout.h.  All of it is 32-bit unsigned arithmetic, with the
  wrap-around of C.
\<close>

section \<open>Rounding (inc/types.h)\<close>

definition ROUNDDOWN :: "uint32 \<Rightarrow> uint32 \<Rightarrow> uint32" where
  "ROUNDDOWN a n = a - a mod n"

definition ROUNDUP :: "uint32 \<Rightarrow> uint32 \<Rightarrow> uint32" where
  "ROUNDUP a n = ROUNDDOWN (a + n - 1) n"

section \<open>Paging constants and address decomposition (inc/mmu.h)\<close>

definition PAGE_SIZE :: uint32 where "PAGE_SIZE = 4096"
definition NPTENTRIES :: uint32 where "NPTENTRIES = 1024"
definition PTSIZE :: uint32 where "PTSIZE = PAGE_SIZE * NPTENTRIES"

definition PPN :: "uint32 \<Rightarrow> uint32" where
  "PPN la = drop_bit 12 la"

definition PDX :: "uint32 \<Rightarrow> uint32" where
  "PDX la = drop_bit 22 la AND 0x3FF"

definition PTX :: "uint32 \<Rightarrow> uint32" where
  "PTX la = drop_bit 12 la AND 0x3FF"

definition PGOFF :: "uint32 \<Rightarrow> uint32" where
  "PGOFF la = la AND 0xFFF"

definition PGADDR :: "uint32 \<Rightarrow> uint32 \<Rightarrow> uint32 \<Rightarrow> uint32" where
  "PGADDR d t off = push_bit 22 d OR push_bit 12 t OR off"

definition EXTRACT_ADDRESS :: "uint32 \<Rightarrow> uint32" where
  "EXTRACT_ADDRESS entry = entry AND NOT 0xFFF"

definition PERM_PRESENT :: uint32 where "PERM_PRESENT = 0x001"
definition PERM_WRITEABLE :: uint32 where "PERM_WRITEABLE = 0x002"
definition PERM_USER :: uint32 where "PERM_USER = 0x004"
definition PERM_USED :: uint32 where "PERM_USED = 0x020"
definition PERM_MODIFIED :: uint32 where "PERM_MODIFIED = 0x040"
definition PERM_BUFFERED :: uint32 where "PERM_BUFFERED = 0x200"

lemmas perm_defs = PERM_PRESENT_def PERM_WRITEABLE_def PERM_USER_def PERM_USED_def
  PERM_MODIFIED_def PERM_BUFFERED_def

section \<open>Page table entries (kern/helpers.h)\<close>

definition CONSTRUCT_ENTRY :: "uint32 \<Rightarrow> uint32 \<Rightarrow> uint32" where
  "CONSTRUCT_ENTRY phys_frame_address permissions = phys_frame_address OR permissions"

section \<open>The address-space map (inc/memlayout.h)\<close>

definition KERNEL_BASE :: uint32 where "KERNEL_BASE = 0xF0000000"
definition PHYS_IO_MEM :: uint32 where "PHYS_IO_MEM = 0x0A0000"
definition PHYS_EXTENDED_MEM :: uint32 where "PHYS_EXTENDED_MEM = 0x100000"
definition VPT :: uint32 where "VPT = KERNEL_BASE - PTSIZE"
definition KERNEL_STACK_TOP :: uint32 where "KERNEL_STACK_TOP = VPT"
definition KERNEL_STACK_SIZE :: uint32 where "KERNEL_STACK_SIZE = 8 * PAGE_SIZE"
definition USER_LIMIT :: uint32 where "USER_LIMIT = KERNEL_STACK_TOP - PTSIZE"
definition UVPT :: uint32 where "UVPT = USER_LIMIT - PTSIZE"
definition UENVS :: uint32 where "UENVS = UVPT - 2 * PTSIZE"
definition USER_TOP :: uint32 where "USER_TOP = UENVS"
definition USTACKTOP :: uint32 where "USTACKTOP = USER_TOP - 2 * PAGE_SIZE"
definition KERNEL_HEAP_START :: uint32 where "KERNEL_HEAP_START = 0xF6000000"
definition KERNEL_HEAP_MAX :: uint32 where "KERNEL_HEAP_MAX = 0xFFFFF000"
definition USER_HEAP_START :: uint32 where "USER_HEAP_START = 0x80000000"
definition USER_HEAP_MAX :: uint32 where "USER_HEAP_MAX = 0xC0000000"

text \<open>\<open>struct WorkingSetElement\<close> is two words and a byte, 12 bytes with its padding.\<close>

definition sizeof_WorkingSetElement :: uint32 where "sizeof_WorkingSetElement = 12"

definition USER_PAGES_WS_START :: uint32 where "USER_PAGES_WS_START = USER_HEAP_MAX"

definition USER_PAGES_WS_MAX :: uint32 where
  "USER_PAGES_WS_MAX = USER_PAGES_WS_START + sizeof_WorkingSetElement * USER_TOP div PAGE_SIZE"

definition USTACKBOTTOM :: uint32 where
  "USTACKBOTTOM = ROUNDUP USER_PAGES_WS_MAX PAGE_SIZE"

definition KERNEL_SHARES_ARR_INIT_SIZE :: uint32 where "KERNEL_SHARES_ARR_INIT_SIZE = 0x2000"
definition KERNEL_SEMAPHORES_ARR_INIT_SIZE :: uint32 where
  "KERNEL_SEMAPHORES_ARR_INIT_SIZE = 0x2000"

lemmas layout_defs = KERNEL_BASE_def PHYS_IO_MEM_def PHYS_EXTENDED_MEM_def VPT_def
  KERNEL_STACK_TOP_def KERNEL_STACK_SIZE_def USER_LIMIT_def UVPT_def UENVS_def USER_TOP_def
  USTACKTOP_def KERNEL_HEAP_START_def KERNEL_HEAP_MAX_def USER_HEAP_START_def
  USER_HEAP_MAX_def PAGE_SIZE_def NPTENTRIES_def PTSIZE_def

text \<open>Address check of kern/memory_manager.h.\<close>

definition CHECK_IF_KERNEL_ADDRESS :: "uint32 \<Rightarrow> bool" where
  "CHECK_IF_KERNEL_ADDRESS va \<longleftrightarrow> USER_TOP \<le> va \<and> va \<le> 0xFFFFFFFF"

section \<open>Lemmas on rounding\<close>

lemma unat_ROUNDDOWN: "unat (ROUNDDOWN a n) = unat a - unat a mod unat n"
proof -
  have "a mod n \<le> a" by (simp add: word_le_nat_alt unat_mod mod_less_eq_dividend)
  then show ?thesis by (simp add: ROUNDDOWN_def unat_sub_le unat_mod)
qed

lemma unat_ROUNDDOWN_page:
  "unat (ROUNDDOWN a PAGE_SIZE) = 4096 * (unat a div 4096)"
  by (simp add: unat_ROUNDDOWN PAGE_SIZE_def minus_mod_eq_mult_div)

lemma add_page_minus_1: "a + PAGE_SIZE - 1 = a + 4095"
  by (simp add: PAGE_SIZE_def)

lemma unat_ROUNDUP_page:
  assumes "unat a \<le> 2 ^ 32 - 4096"
  shows "unat (ROUNDUP a PAGE_SIZE) = 4096 * ((unat a + 4095) div 4096)"
proof -
  have "unat (a + 4095) = unat a + 4095"
    using assms by (subst word_add_le_unat) auto
  then show ?thesis
    by (simp only: ROUNDUP_def add_page_minus_1 unat_ROUNDDOWN_page)
qed

text \<open>A request within one page of the top of the address space wraps to zero.\<close>

lemma ROUNDUP_page_wraps:
  assumes "2 ^ 32 - 4096 < unat a"
  shows "ROUNDUP a PAGE_SIZE = 0"
proof -
  have lt: "unat a < 2 ^ 32" using unsigned_less[of a] by simp
  have "unat (a + 4095) = unat a + 4095 - 2 ^ 32"
    using assms lt by (simp add: unat_word_ariths mod_if)
  then have "unat (a + 4095) div 4096 = 0" using assms lt by simp
  then have "unat (ROUNDUP a PAGE_SIZE) = 0"
    by (simp only: ROUNDUP_def add_page_minus_1 unat_ROUNDDOWN_page)
  then show ?thesis by (simp add: unat_eq_0)
qed

lemma ROUNDUP_page_dvd: "4096 dvd unat (ROUNDUP a PAGE_SIZE)"
  by (simp add: ROUNDUP_def unat_ROUNDDOWN_page)

lemma ROUNDUP_page_ge:
  assumes "unat a \<le> 2 ^ 32 - 4096"
  shows "unat a \<le> unat (ROUNDUP a PAGE_SIZE)" and "unat (ROUNDUP a PAGE_SIZE) < unat a + 4096"
  using assms by (auto simp: unat_ROUNDUP_page)

lemma ROUNDUP_page_pos:
  assumes "0 < unat a" and "unat a \<le> 2 ^ 32 - 4096"
  shows "0 < unat (ROUNDUP a PAGE_SIZE)"
  using ROUNDUP_page_ge(1)[OF assms(2)] assms(1) by simp

lemma ROUNDUP_page_of_multiple:
  assumes "4096 dvd unat a"
  shows "ROUNDUP a PAGE_SIZE = a"
proof -
  have lt: "unat a < 2 ^ 32" using unsigned_less[of a] by simp
  from assms obtain k where k: "unat a = 4096 * k" by (auto simp: dvd_def)
  with lt have "k < 2 ^ 20" by simp
  with k have "unat a \<le> 2 ^ 32 - 4096" by simp
  then have "unat (ROUNDUP a PAGE_SIZE) = 4096 * ((4096 * k + 4095) div 4096)"
    using k by (simp add: unat_ROUNDUP_page)
  also have "(4096 * k + 4095) div 4096 = k" by simp
  finally show ?thesis using k by (simp add: word_unat_eq_iff)
qed

lemma ROUNDUP_page_idem [simp]:
  "ROUNDUP (ROUNDUP a PAGE_SIZE) PAGE_SIZE = ROUNDUP a PAGE_SIZE"
  by (rule ROUNDUP_page_of_multiple) (rule ROUNDUP_page_dvd)

section \<open>Lemmas on the decomposition of an address\<close>

lemma and_0x3FF: "(a :: uint32) AND 0x3FF = take_bit 10 a"
  unfolding take_bit_eq_mask by (simp add: mask_eq_exp_minus_1)

lemma and_0xFFF: "(a :: uint32) AND 0xFFF = take_bit 12 a"
  unfolding take_bit_eq_mask by (simp add: mask_eq_exp_minus_1)

lemma PGADDR_decompose: "PGADDR (PDX la) (PTX la) (PGOFF la) = la"
  unfolding PGADDR_def PDX_def PTX_def PGOFF_def and_0x3FF and_0xFFF
proof (rule bit_word_eqI)
  fix n assume "n < LENGTH(32)"
  then show "bit (push_bit 22 (take_bit 10 (drop_bit 22 la)) OR
      push_bit 12 (take_bit 10 (drop_bit 12 la)) OR take_bit 12 la) n \<longleftrightarrow> bit la n"
    by (cases "n < 12"; cases "n < 22") (auto simp: bit_simps)
qed

lemma bit_EXTRACT: "bit (EXTRACT_ADDRESS e) n \<longleftrightarrow> bit e n \<and> 12 \<le> n"
proof -
  have "EXTRACT_ADDRESS e = e AND NOT (mask 12)"
    by (simp add: EXTRACT_ADDRESS_def mask_eq_exp_minus_1)
  then show ?thesis
    by (auto simp: bit_and_iff bit_not_iff bit_mask_iff simp del: mask_numeral
        dest: bit_imp_le_length)
qed

lemma EXTRACT_CONSTRUCT:
  assumes "pa AND 0xFFF = 0" and "perm AND NOT 0xFFF = 0"
  shows "EXTRACT_ADDRESS (CONSTRUCT_ENTRY pa perm) = pa"
    and "CONSTRUCT_ENTRY pa perm AND 0xFFF = perm"
proof -
  have pa: "\<not> bit pa n" if "n < 12" for n
    using arg_cong[OF assms(1), of "\<lambda>w. bit w n"] that by (auto simp: and_0xFFF bit_simps)
  have perm: "\<not> bit perm n" if "12 \<le> n" for n
    using arg_cong[OF assms(2), of "\<lambda>w. bit w n"] that bit_EXTRACT[of perm n]
    by (auto simp: EXTRACT_ADDRESS_def)
  show "EXTRACT_ADDRESS (CONSTRUCT_ENTRY pa perm) = pa"
    by (rule bit_word_eqI)
      (use pa perm in \<open>auto simp: bit_EXTRACT CONSTRUCT_ENTRY_def bit_or_iff not_less[symmetric]\<close>)
  show "CONSTRUCT_ENTRY pa perm AND 0xFFF = perm"
    unfolding and_0xFFF
    by (rule bit_word_eqI)
      (use pa perm in \<open>auto simp: CONSTRUCT_ENTRY_def bit_simps not_less[symmetric]\<close>)
qed

section \<open>Addresses inside a page\<close>

lemma aligned_plus:
  fixes a off :: uint32
  assumes "a AND 0xFFF = 0" and "off < 4096"
  shows "PPN (a + off) = PPN a" and "(a + off) AND 0xFFF = off"
proof -
  have "unat off < 2 ^ 12" using assms(2) by (simp add: word_less_nat_alt)
  then have self: "take_bit 12 off = off"
    by (simp add: word_unat_eq_iff unsigned_take_bit_eq take_bit_nat_eq_self)
  have off: "\<not> bit off n" if "12 \<le> n" for n
    using arg_cong[OF self, of "\<lambda>w. bit w n"] that by (auto simp: bit_take_bit_iff)
  have a: "\<not> bit a n" if "n < 12" for n
    using arg_cong[OF assms(1), of "\<lambda>w. bit w n"] that by (auto simp: and_0xFFF bit_simps)
  have eq: "a + off = a OR off"
    by (rule disjunctive_add) (metis a off not_le)
  show "PPN (a + off) = PPN a"
    unfolding eq by (rule bit_word_eqI) (simp add: PPN_def bit_simps off)
  show "(a + off) AND 0xFFF = off"
    unfolding eq and_0xFFF
    by (rule bit_word_eqI) (use a off in \<open>auto simp: bit_simps not_less\<close>)
qed

lemma PDX_PPN: "PDX a = drop_bit 10 (PPN a) AND 0x3FF"
  by (simp add: PDX_def PPN_def)

lemma PTX_PPN: "PTX a = PPN a AND 0x3FF"
  by (simp add: PTX_def PPN_def)

lemma aligned_plus_indices:
  assumes "(a :: uint32) AND 0xFFF = 0" and "off < 4096"
  shows "PDX (a + off) = PDX a" and "PTX (a + off) = PTX a"
  using aligned_plus(1)[OF assms] by (simp_all add: PDX_PPN PTX_PPN)

end
