(* ===== verification/Block.thy ===== *)
theory Block
  imports Queue Region Layout
begin

text \<open>
  \<open>struct Block_Info\<close> of inc/memlayout.h, the descriptor both heap managers keep for a run of
  pages, and what the two managers share: the loop that looks for the neighbours of an address
  in a sorted list, and the regions a list of descriptors stands for.
\<close>

record Block_Info =
  start_va :: uint32
  blk_size :: uint32

definition zero_block :: Block_Info where
  "zero_block = \<lparr>start_va = 0, blk_size = 0\<rparr>"

text \<open>
  The loop both managers run over a sorted list: as long as the test holds, the element is the
  predecessor; the first element that fails it is the successor and ends the loop.
\<close>

fun foreach_pre_nex :: "('b \<Rightarrow> bool) \<Rightarrow> 'b option \<Rightarrow> 'b list \<Rightarrow> 'b option \<times> 'b option" where
  "foreach_pre_nex P pre [] = (pre, None)"
| "foreach_pre_nex P pre (cur # rest) =
     (if P cur then foreach_pre_nex P (Some cur) rest else (pre, Some cur))"

lemma foreach_pre_nex_split:
  assumes "\<forall>x\<in>set lo. P x" and "\<forall>x\<in>set hi. \<not> P x"
  shows "foreach_pre_nex P pre (lo @ hi) = (if lo = [] then pre else last_opt lo, hd_opt hi)"
  using assms
proof (induction lo arbitrary: pre)
  case Nil
  then show ?case by (cases hi) auto
next
  case (Cons x lo)
  then show ?case by auto
qed

section \<open>The regions of a list of descriptors\<close>

lemma Block_Info_update2 [simp]:
  "b\<lparr>start_va := a, blk_size := n\<rparr> = \<lparr>start_va = a, blk_size = n\<rparr>"
  by (cases b) simp

definition region_of :: "Block_Info \<Rightarrow> region" where
  "region_of b = (unat (start_va b), unat (blk_size b))"

definition regions :: "(nat \<Rightarrow> Block_Info) \<Rightarrow> nat list \<Rightarrow> region list" where
  "regions bi ids = map (\<lambda>i. region_of (bi i)) ids"

lemma region_of_simps [simp]:
  "fst (region_of b) = unat (start_va b)" "snd (region_of b) = unat (blk_size b)"
  by (simp_all add: region_of_def)

lemma regions_simps [simp]:
  "regions bi [] = []" "regions bi (i # ids) = region_of (bi i) # regions bi ids"
  "regions bi (ids @ ids') = regions bi ids @ regions bi ids'"
  by (simp_all add: regions_def)

lemma regions_upd [simp]: "i \<notin> set ids \<Longrightarrow> regions (bi(i := b)) ids = regions bi ids"
  by (auto simp: regions_def)

lemma set_regions: "set (regions bi ids) = (\<lambda>i. region_of (bi i)) ` set ids"
  by (simp add: regions_def)

lemma regions_cong: "(\<And>i. i \<in> set ids \<Longrightarrow> bi i = bi' i) \<Longrightarrow> regions bi ids = regions bi' ids"
  by (auto simp: regions_def)

lemma mset_regions_remove1:
  assumes "i \<in> set ids"
  shows "mset (regions bi (remove1 i ids)) = mset (regions bi ids) - {#region_of (bi i)#}"
  using assms by (simp add: regions_def image_mset_Diff)

text \<open>A block that ends below the top of the address space has no wrap-around in its end.\<close>

lemma unat_block_end:
  assumes "unat (start_va b) + unat (blk_size b) < 2 ^ 32"
  shows "unat (start_va b + blk_size b) = unat (start_va b) + unat (blk_size b)"
  using assms by (simp add: word_add_le_unat)

lemma block_end_eq_iff:
  assumes "unat (start_va b) + unat (blk_size b) < 2 ^ 32"
  shows "start_va b + blk_size b = start_va c \<longleftrightarrow> touches (region_of b) (region_of c)"
  using unat_block_end[OF assms] by (auto simp: touches_def word_unat_eq_iff)

section \<open>Both heaps insert a descriptor by address\<close>

text \<open>
  \<open>insert_sorted\<close> of kern/kheap.c.  It reads the first and the last element before it looks
  whether there are any, so that on an empty list it dereferences a null pointer.
\<close>

definition insert_sorted :: "(nat \<Rightarrow> Block_Info) \<Rightarrow> nat list \<Rightarrow> nat \<Rightarrow> error + nat list" where
  "insert_sorted bi curr_list elem =
     (case hd_opt curr_list of None \<Rightarrow> Inl NullDeref
      | Some str \<Rightarrow>
        (if start_va (bi elem) \<le> start_va (bi str)
         then Inr (insert_before str elem curr_list)
         else (case last_opt curr_list of None \<Rightarrow> Inl NullDeref
               | Some lst \<Rightarrow>
                 (if start_va (bi lst) \<le> start_va (bi elem)
                  then Inr (insert_after lst elem curr_list)
                  else (case foreach_pre_nex (\<lambda>cur. start_va (bi cur) \<le> start_va (bi elem))
                                None curr_list of
                          (None, None) \<Rightarrow> Inr (elem # curr_list)
                        | (Some pre, _) \<Rightarrow> Inr (insert_after pre elem curr_list)
                        | (None, Some nex) \<Rightarrow> Inr (insert_before nex elem curr_list))))))"

lemma insert_sorted_Nil [simp]: "insert_sorted bi [] e = Inl NullDeref"
  by (simp add: insert_sorted_def)

lemma insert_sorted_split:
  assumes "xs = lo @ hi" and "xs \<noteq> []" and "distinct xs"
    and lo: "\<forall>x\<in>set lo. start_va (bi x) < start_va (bi e)"
    and hi: "\<forall>x\<in>set hi. start_va (bi e) < start_va (bi x)"
  shows "insert_sorted bi xs e = Inr (lo @ e # hi)"
proof (cases lo rule: rev_cases)
  case Nil
  with assms(1,2) obtain h hs where "hi = h # hs" by (cases hi) auto
  moreover from this hi have "start_va (bi e) \<le> start_va (bi h)" by (simp add: order_less_imp_le)
  ultimately show ?thesis using Nil assms(1) by (simp add: insert_sorted_def)
next
  case (snoc ys y)
  have not_first: "\<not> start_va (bi e) \<le> start_va (bi (hd lo))"
    using lo snoc by (cases ys) auto
  have hd: "hd_opt xs = Some (hd lo)" using snoc assms(1) by (cases ys) auto
  have y: "y \<notin> set ys" using assms(1,3) snoc by auto
  have after: "insert_after y e xs = lo @ e # hi"
    using insert_after_mid[OF y, of e hi] assms(1) snoc by simp
  show ?thesis
  proof (cases hi rule: rev_cases)
    case Nil
    have "last_opt xs = Some y" using Nil snoc assms(1) by simp
    moreover have "start_va (bi y) \<le> start_va (bi e)" using lo snoc by auto
    ultimately show ?thesis using hd not_first after by (simp add: insert_sorted_def)
  next
    case (snoc zs z)
    then have "last_opt xs = Some z" using assms(1) by simp
    moreover have "\<not> start_va (bi z) \<le> start_va (bi e)" using hi snoc by auto
    moreover have "foreach_pre_nex (\<lambda>c. start_va (bi c) \<le> start_va (bi e)) None xs =
        (Some y, hd_opt hi)"
      using foreach_pre_nex_split[of lo "\<lambda>c. start_va (bi c) \<le> start_va (bi e)" hi None]
        lo hi \<open>lo = ys @ [y]\<close> assms(1) by (auto simp: order_less_imp_le not_le)
    ultimately show ?thesis using hd not_first after by (simp add: insert_sorted_def)
  qed
qed

lemma mset_insert_before: "l \<in> set xs \<Longrightarrow> mset (insert_before l e xs) = add_mset e (mset xs)"
  by (induction xs) auto

lemma mset_insert_after: "l \<in> set xs \<Longrightarrow> mset (insert_after l e xs) = add_mset e (mset xs)"
  by (induction xs) auto

lemma foreach_pre_nex_in:
  assumes "foreach_pre_nex P pre xs = (p, q)"
  shows "p = pre \<or> p \<in> Some ` set xs" and "q = None \<or> q \<in> Some ` set xs"
  using assms by (induction xs arbitrary: pre) (auto split: if_splits)

text \<open>On a nonempty list the descriptor is always inserted, wherever it lands.\<close>

lemma insert_sorted_mset:
  assumes "xs \<noteq> []"
  shows "\<exists>ys. insert_sorted bi xs e = Inr ys \<and> mset ys = add_mset e (mset xs)"
proof -
  obtain p q where pq: "foreach_pre_nex (\<lambda>cur. start_va (bi cur) \<le> start_va (bi e)) None xs = (p, q)"
    by force
  obtain f l where fl: "hd_opt xs = Some f" "last_opt xs = Some l"
    using assms by (metis hd_opt_eq_None last_opt_eq_None not_None_eq)
  then have "f \<in> set xs" "l \<in> set xs" by (simp_all add: hd_opt_in last_opt_in)
  then show ?thesis
    using foreach_pre_nex_in[OF pq] fl pq
    by (auto simp: insert_sorted_def mset_insert_before mset_insert_after split: option.splits)
qed

section \<open>Neighbours and regions\<close>

text \<open>
  What the merging code needs to know about a free list with gaps and a block outside it: the
  list splits at the block's address, and no free block or released block reaches the end of
  the 32-bit address space.
\<close>

lemma split_ids_at:
  assumes "gapped (regions bi xs)"
  obtains lo hi where "xs = lo @ hi" and "\<forall>x\<in>set lo. start_va (bi x) < a"
    and "\<forall>x\<in>set hi. \<not> start_va (bi x) < a"
proof -
  from gapped_split_at[OF assms, of "unat a"] obtain l h where
    lh: "regions bi xs = l @ h" "\<forall>x\<in>set l. fst x < unat a" "\<forall>x\<in>set h. \<not> fst x < unat a" by blast
  let ?lo = "take (length l) xs" and ?hi = "drop (length l) xs"
  have "regions bi ?lo = l" and "regions bi ?hi = h"
    using lh(1) by (simp_all add: regions_def take_map[symmetric] drop_map[symmetric])
  then have "\<forall>x\<in>set ?lo. region_of (bi x) \<in> set l" and "\<forall>x\<in>set ?hi. region_of (bi x) \<in> set h"
    using set_regions[of bi ?lo] set_regions[of bi ?hi] by auto
  with lh(2,3) have "\<forall>x\<in>set ?lo. start_va (bi x) < a" and "\<forall>x\<in>set ?hi. \<not> start_va (bi x) < a"
    unfolding word_less_nat_alt by fastforce+
  then show ?thesis using that[of ?lo ?hi] by simp
qed

text \<open>
  The situation in which a block is returned to a free list: the block \<open>tk\<close> is on no list, it
  is not empty, and it overlaps no free block.
\<close>

definition releasable :: "(nat \<Rightarrow> Block_Info) \<Rightarrow> nat list \<Rightarrow> nat \<Rightarrow> bool" where
  "releasable bi fl tk \<longleftrightarrow>
     distinct fl \<and> tk \<notin> set fl \<and> gapped (regions bi fl) \<and> 0 < unat (blk_size (bi tk)) \<and>
     cells (region_of (bi tk)) \<inter> cover (regions bi fl) = {} \<and>
     (\<forall>i\<in>insert tk (set fl). unat (start_va (bi i)) + unat (blk_size (bi i)) < 2 ^ 32)"

lemma releasable_split:
  assumes "releasable bi fl tk"
  obtains lo hi where "fl = lo @ hi"
    and "\<forall>x\<in>set lo. start_va (bi x) < start_va (bi tk)"
    and "\<forall>x\<in>set hi. start_va (bi tk) < start_va (bi x)"
proof -
  from assms have g: "gapped (regions bi fl)" and p: "0 < snd (region_of (bi tk))"
    and d: "cells (region_of (bi tk)) \<inter> cover (regions bi fl) = {}"
    by (auto simp: releasable_def)
  from split_ids_at[OF g, of "start_va (bi tk)"] obtain lo hi where
    s: "fl = lo @ hi" "\<forall>x\<in>set lo. start_va (bi x) < start_va (bi tk)"
    "\<forall>x\<in>set hi. \<not> start_va (bi x) < start_va (bi tk)" by metis
  have "\<forall>x\<in>set (regions bi hi). fst (region_of (bi tk)) + snd (region_of (bi tk)) \<le> fst x"
    using g d s(2,3) unfolding s(1) regions_simps(3)
    by (intro gapped_neighbours(2)[OF _ _ _ p, of "regions bi lo"])
      (auto simp: set_regions word_less_nat_alt)
  with p have "\<forall>x\<in>set hi. start_va (bi tk) < start_va (bi x)"
    by (fastforce simp: set_regions word_less_nat_alt)
  with s show ?thesis using that by blast
qed


text \<open>
  The four ways the merging code leaves the descriptors, for a free list split at the address of
  the released block: in each of them the regions are those of the abstract release.
\<close>

lemma releasable_fits:
  assumes "releasable bi fl tk" and "p \<in> set fl" and "touches (region_of (bi p)) (region_of (bi tk))"
  shows "unat (blk_size (bi p) + blk_size (bi tk)) = unat (blk_size (bi p)) + unat (blk_size (bi tk))"
    and "q \<in> set fl \<Longrightarrow> touches (region_of (bi tk)) (region_of (bi q)) \<Longrightarrow>
      unat (blk_size (bi p) + (blk_size (bi tk) + blk_size (bi q))) =
      unat (blk_size (bi p)) + unat (blk_size (bi tk)) + unat (blk_size (bi q))"
proof -
  have b: "unat (start_va (bi i)) + unat (blk_size (bi i)) < 2 ^ 32" if "i = tk \<or> i \<in> set fl" for i
    using assms(1) that unfolding releasable_def by blast
  have t: "unat (start_va (bi p)) + unat (blk_size (bi p)) = unat (start_va (bi tk))"
    using assms(3) by (simp add: touches_def)
  show "unat (blk_size (bi p) + blk_size (bi tk)) = unat (blk_size (bi p)) + unat (blk_size (bi tk))"
    using b[of tk] t by (intro word_add_le_unat) simp
  assume q: "q \<in> set fl" and "touches (region_of (bi tk)) (region_of (bi q))"
  then have t2: "unat (start_va (bi tk)) + unat (blk_size (bi tk)) = unat (start_va (bi q))"
    by (simp add: touches_def)
  have e: "unat (blk_size (bi tk) + blk_size (bi q)) = unat (blk_size (bi tk)) + unat (blk_size (bi q))"
    using b[of q] q t2 by (intro word_add_le_unat) simp
  show "unat (blk_size (bi p) + (blk_size (bi tk) + blk_size (bi q))) =
      unat (blk_size (bi p)) + unat (blk_size (bi tk)) + unat (blk_size (bi q))"
    using b[of q] q t t2 e by (subst word_add_le_unat) simp_all
qed

lemma releasable_fits_high:
  assumes "releasable bi fl tk" and "q \<in> set fl" and "touches (region_of (bi tk)) (region_of (bi q))"
  shows "unat (blk_size (bi q) + blk_size (bi tk)) = unat (blk_size (bi tk)) + unat (blk_size (bi q))"
proof -
  have "unat (start_va (bi q)) + unat (blk_size (bi q)) < 2 ^ 32"
    using assms(1,2) unfolding releasable_def by blast
  moreover have "unat (start_va (bi tk)) + unat (blk_size (bi tk)) = unat (start_va (bi q))"
    using assms(3) by (simp add: touches_def)
  ultimately show ?thesis by (subst word_add_le_unat) simp_all
qed

definition split_at :: "(nat \<Rightarrow> Block_Info) \<Rightarrow> nat list \<Rightarrow> nat \<Rightarrow> nat list \<Rightarrow> bool" where
  "split_at bi lo tk hi \<longleftrightarrow>
     (\<forall>x\<in>set lo. start_va (bi x) < start_va (bi tk)) \<and> (\<forall>x\<in>set hi. start_va (bi tk) < start_va (bi x))"

lemma split_at_regions:
  assumes "split_at bi lo tk hi"
  shows "\<forall>x\<in>set (regions bi lo). fst x < fst (region_of (bi tk))"
    and "\<forall>x\<in>set (regions bi hi). \<not> fst x < fst (region_of (bi tk))"
  using assms by (auto simp: split_at_def set_regions word_less_nat_alt)

lemma regions_last: "xs \<noteq> [] \<Longrightarrow> last (regions bi xs) = region_of (bi (last xs))"
  by (simp add: regions_def last_map)

lemma regions_hd: "xs \<noteq> [] \<Longrightarrow> hd (regions bi xs) = region_of (bi (hd xs))"
  by (simp add: regions_def hd_map)

lemma regions_Nil [simp]: "regions bi xs = [] \<longleftrightarrow> xs = []"
  by (simp add: regions_def)

definition joins_low :: "(nat \<Rightarrow> Block_Info) \<Rightarrow> nat list \<Rightarrow> nat \<Rightarrow> bool" where
  "joins_low bi lo tk \<longleftrightarrow> lo \<noteq> [] \<and> touches (region_of (bi (last lo))) (region_of (bi tk))"

definition joins_high :: "(nat \<Rightarrow> Block_Info) \<Rightarrow> nat \<Rightarrow> nat list \<Rightarrow> bool" where
  "joins_high bi tk hi \<longleftrightarrow> hi \<noteq> [] \<and> touches (region_of (bi tk)) (region_of (bi (hd hi)))"

lemma merge_none:
  assumes "split_at bi lo tk hi" and "\<not> joins_low bi lo tk" and "\<not> joins_high bi tk hi"
  shows "regions bi (lo @ tk # hi) = release (region_of (bi tk)) (regions bi (lo @ hi))"
proof -
  have 1: "regions bi lo = [] \<or> \<not> touches (last (regions bi lo)) (region_of (bi tk))"
    using assms(2) by (cases "lo = []") (simp_all add: joins_low_def regions_last)
  have 2: "regions bi hi = [] \<or> \<not> touches (region_of (bi tk)) (hd (regions bi hi))"
    using assms(3) by (cases "hi = []") (simp_all add: joins_high_def regions_hd)
  show ?thesis using release_plain[OF split_at_regions[OF assms(1)] 1 2] by simp
qed

lemma merge_low:
  assumes "releasable bi (lo @ p # hi) tk" and "split_at bi (lo @ [p]) tk hi"
    and "joins_low bi (lo @ [p]) tk" and "\<not> joins_high bi tk hi"
  shows "regions (bi(p := (bi p)\<lparr>blk_size := blk_size (bi p) + blk_size (bi tk)\<rparr>, tk := zero_block))
           (lo @ p # hi) = release (region_of (bi tk)) (regions bi (lo @ p # hi))"
proof -
  from assms(1) have d: "p \<notin> set lo" "p \<notin> set hi" "tk \<notin> set lo" "tk \<notin> set hi" "tk \<noteq> p"
    by (auto simp: releasable_def)
  have t: "touches (region_of (bi p)) (region_of (bi tk))" using assms(3) by (simp add: joins_low_def)
  note r = split_at_regions[OF assms(2)]
  have "release (region_of (bi tk)) (regions bi lo @ region_of (bi p) # regions bi hi) =
    regions bi lo @ (fst (region_of (bi p)), snd (region_of (bi p)) + snd (region_of (bi tk))) # regions bi hi"
    using r t assms(4) by (intro release_low; cases "hi = []") (auto simp: joins_high_def regions_hd)
  then show ?thesis using d releasable_fits(1)[OF assms(1) _ t] by (simp add: region_of_def)
qed

lemma merge_high:
  assumes "releasable bi (lo @ q # hi) tk" and "split_at bi lo tk (q # hi)"
    and "\<not> joins_low bi lo tk" and "joins_high bi tk (q # hi)"
  shows "regions (bi(q := \<lparr>start_va = start_va (bi tk), blk_size = blk_size (bi q) + blk_size (bi tk)\<rparr>,
             tk := zero_block)) (lo @ q # hi) =
         release (region_of (bi tk)) (regions bi (lo @ q # hi))"
proof -
  from assms(1) have d: "q \<notin> set lo" "q \<notin> set hi" "tk \<notin> set lo" "tk \<notin> set hi" "tk \<noteq> q"
    by (auto simp: releasable_def)
  have t: "touches (region_of (bi tk)) (region_of (bi q))" using assms(4) by (simp add: joins_high_def)
  note r = split_at_regions[OF assms(2)]
  have "release (region_of (bi tk)) (regions bi lo @ region_of (bi q) # regions bi hi) =
    regions bi lo @ (fst (region_of (bi tk)), snd (region_of (bi tk)) + snd (region_of (bi q))) # regions bi hi"
    using r t assms(3) by (intro release_high; cases "lo = []") (auto simp: joins_low_def regions_last)
  then show ?thesis using d releasable_fits_high[OF assms(1) _ t] by (simp add: region_of_def)
qed

lemma merge_both:
  assumes "releasable bi (lo @ p # q # hi) tk" and "split_at bi (lo @ [p]) tk (q # hi)"
    and "joins_low bi (lo @ [p]) tk" and "joins_high bi tk (q # hi)"
  shows "regions (bi(p := (bi p)\<lparr>blk_size := blk_size (bi p) + (blk_size (bi tk) + blk_size (bi q))\<rparr>,
             tk := zero_block, q := zero_block)) (lo @ p # hi) =
         release (region_of (bi tk)) (regions bi (lo @ p # q # hi))"
proof -
  from assms(1) have d: "p \<notin> set lo" "p \<notin> set hi" "tk \<notin> set lo" "tk \<notin> set hi" "tk \<noteq> p"
    "q \<notin> set lo" "q \<notin> set hi" "q \<noteq> p" "q \<noteq> tk" by (auto simp: releasable_def)
  have t: "touches (region_of (bi p)) (region_of (bi tk))" "touches (region_of (bi tk)) (region_of (bi q))"
    using assms(3,4) by (simp_all add: joins_low_def joins_high_def)
  note r = split_at_regions[OF assms(2)]
  have "release (region_of (bi tk))
      (regions bi lo @ region_of (bi p) # region_of (bi q) # regions bi hi) =
    regions bi lo @ (fst (region_of (bi p)), snd (region_of (bi p)) + snd (region_of (bi tk)) +
      snd (region_of (bi q))) # regions bi hi"
    using r t by (intro release_both) auto
  then show ?thesis using d releasable_fits(2)[OF assms(1) _ t(1) _ t(2)] by (simp add: region_of_def)
qed

section \<open>Searching and page alignment\<close>

definition page_aligned :: "region \<Rightarrow> bool" where
  "page_aligned r \<longleftrightarrow> 4096 dvd fst r \<and> 4096 dvd snd r"

lemma find_None_take_fit:
  "find (\<lambda>b. n \<le> blk_size (bi b)) ids = None \<longleftrightarrow> take_fit (unat n) (regions bi ids) = None"
  by (auto simp: find_None_iff take_fit_None set_regions word_le_nat_alt not_le)

lemma find_Some_take_fit:
  assumes "find (\<lambda>b. n \<le> blk_size (bi b)) ids = Some f"
  obtains as bs where "ids = as @ f # bs" and "unat n \<le> unat (blk_size (bi f))"
    and "take_fit (unat n) (regions bi ids) = Some (unat (start_va (bi f)),
           regions bi as @ shrink_first (unat n) (region_of (bi f)) @ regions bi bs)"
proof -
  from find_split[OF assms] obtain as bs where
    s: "ids = as @ f # bs" "n \<le> blk_size (bi f)" "\<forall>y\<in>set as. \<not> n \<le> blk_size (bi y)" by blast
  then have "\<forall>x\<in>set (regions bi as). snd x < unat n"
    by (auto simp: set_regions word_le_nat_alt not_le)
  from take_fit_mid[OF this, of "region_of (bi f)" "regions bi bs"] s
  show ?thesis by (intro that[of as bs]) (auto simp: word_le_nat_alt)
qed

text \<open>The descriptor left for the rest of the block that was cut.\<close>

lemma region_of_shrunk:
  assumes "unat n \<le> unat (blk_size b)" and "unat (start_va b) + unat (blk_size b) < 2 ^ 32"
  shows "region_of \<lparr>start_va = start_va b + n, blk_size = blk_size b - n\<rparr> =
         (unat (start_va b) + unat n, unat (blk_size b) - unat n)"
  using assms by (simp add: region_of_def word_add_le_unat unat_sub_le word_le_nat_alt)

lemma shrink_first_aligned:
  "page_aligned r \<Longrightarrow> 4096 dvd n \<Longrightarrow> x \<in> set (shrink_first n r) \<Longrightarrow> page_aligned x"
  by (auto simp: shrink_first_def page_aligned_def dvd_diff_nat split: if_splits)

lemma take_fit_aligned:
  assumes "take_fit n rs = Some (a, rs')" and "\<forall>r\<in>set rs. page_aligned r" and "4096 dvd n"
  shows "page_aligned (a, n)" and "\<forall>r\<in>set rs'. page_aligned r"
proof -
  from take_fit_split[OF assms(1)] obtain as r bs where
    rs: "rs = as @ r # bs" "rs' = as @ shrink_first n r @ bs" "a = fst r" by blast
  show "page_aligned (a, n)" using assms(2,3) rs by (auto simp: page_aligned_def)
  show "\<forall>r\<in>set rs'. page_aligned r"
    using assms(2,3) rs shrink_first_aligned[of r n] by auto
qed

lemma ends_eq_iff:
  assumes "releasable bi fl tk" and "i \<in> insert tk (set fl)"
  shows "start_va (bi i) + blk_size (bi i) = start_va (bi j) \<longleftrightarrow>
         touches (region_of (bi i)) (region_of (bi j))"
  using assms by (intro block_end_eq_iff) (auto simp: releasable_def)

lemma utakens_find:
  assumes "find (\<lambda>b. start_va (bi b) = va) ids = Some b"
  shows "(unat va, unat (blk_size (bi b))) \<in> set (regions bi ids)" and "b \<in> set ids"
  using find_split[OF assms] by (auto simp: set_regions region_of_def)

lemma release_aligned:
  assumes "gapped rs" and "0 < snd r" and "cells r \<inter> cover rs = {}"
    and "\<forall>x\<in>set rs. page_aligned x" and "page_aligned r"
  shows "\<forall>x\<in>set (release r rs). page_aligned x"
  using assms(1-3)
proof (cases rule: release_cases)
  case (plain lo hi) then show ?thesis using assms(4,5) by auto
next
  case (low lo p hi) then show ?thesis using assms(4,5) by (auto simp: page_aligned_def)
next
  case (high lo q hi) then show ?thesis using assms(4,5) by (auto simp: page_aligned_def)
next
  case (both lo p q hi) then show ?thesis using assms(4,5) by (auto simp: page_aligned_def)
qed

text \<open>Two blocks of one start are the same block: no taken block is empty.\<close>

lemma disjoint_regions_start:
  assumes "disjoint_regions rs" and "(a, n) \<in> set rs" and "(a, m) \<in> set rs" and "0 < n" and "0 < m"
  shows "n = m"
proof (rule ccontr)
  assume ne: "n \<noteq> m"
  from assms(2,3) obtain i j where "i < length rs" "rs ! i = (a, n)" "j < length rs" "rs ! j = (a, m)"
    by (auto simp: in_set_conv_nth)
  moreover from this ne have "i \<noteq> j" by auto
  ultimately have "cells (a, n) \<inter> cells (a, m) = {}"
    using disjoint_regions_pair[OF assms(1), of i j] by auto
  with assms(4,5) show False by (auto simp: cells_def)
qed

end
