(* ===== verification/Uheap.thy ===== *)
theory Uheap
  imports Block
begin

text \<open>
  The user heap, lib/uheap.c: \<open>malloc\<close>, \<open>free\<close>, \<open>smalloc\<close>, \<open>sget\<close>, \<open>sfree\<close> and \<open>realloc\<close>, with the
  first-fit search and the coalescing of freed blocks they use.  The state holds the descriptor
  array \<open>blocks_info_user\<close>, the three lists that share it, and the system calls made so far.
  What the kernel answers to a call that returns a value is a parameter of the operation.
\<close>

section \<open>State\<close>

datatype sys_call =
    Sys_allocateMem uint32 uint32
  | Sys_freeMem uint32 uint32
  | Sys_createSharedObject string uint32 uint8 uint32
  | Sys_getSharedObject int string uint32
  | Sys_freeSharedObject int uint32

record uheap =
  blocks_info_user :: "nat \<Rightarrow> Block_Info"
  Block_info_free_list_user :: "nat list"
  Block_info_taken_list_user :: "nat list"
  free_blocks_user :: "nat list"
  first_time :: bool
  sys_trace :: "sys_call list"

text \<open>The answers of the kernel to the system calls whose result the heap uses.\<close>

record kernel_answers =
  sys_isUHeapPlacementStrategyFIRSTFIT :: uint32
  sys_createSharedObject :: "string \<Rightarrow> uint32 \<Rightarrow> uint8 \<Rightarrow> uint32 \<Rightarrow> int"
  sys_getSizeOfSharedObject :: "int \<Rightarrow> string \<Rightarrow> int"
  sys_getSharedObject :: "int \<Rightarrow> string \<Rightarrow> uint32 \<Rightarrow> int"

definition Max_number_of_blocks_user :: nat where
  "Max_number_of_blocks_user = 100000"

definition E_SHARED_MEM_NOT_EXISTS :: int where
  "E_SHARED_MEM_NOT_EXISTS = -16"

definition sys_log :: "sys_call \<Rightarrow> uheap \<Rightarrow> uheap" where
  "sys_log c s = s\<lparr>sys_trace := sys_trace s @ [c]\<rparr>"

text \<open>A process starts with its data section zeroed and \<open>first_time\<close> set.\<close>

definition uheap_start :: uheap where
  "uheap_start = \<lparr>blocks_info_user = (\<lambda>_. zero_block), Block_info_free_list_user = [],
     Block_info_taken_list_user = [], free_blocks_user = [], first_time = True, sys_trace = []\<rparr>"

section \<open>Operations\<close>

definition allocate_block :: "(uheap, nat) M" where
  "allocate_block = (\<lambda>s. case free_blocks_user s of
       [] \<Rightarrow> Inl (Panic ''Error no free blocks !!!!'')
     | p # ps \<Rightarrow> Inr (p, s\<lparr>free_blocks_user := ps\<rparr>))"

text \<open>The statements that clear a descriptor and put it back on the list of unused ones.\<close>

definition recycle_user :: "nat \<Rightarrow> uheap \<Rightarrow> uheap" where
  "recycle_user p s = s\<lparr>blocks_info_user := (blocks_info_user s)(p := zero_block),
     free_blocks_user := p # free_blocks_user s\<rparr>"

definition set_block_user :: "nat \<Rightarrow> Block_Info \<Rightarrow> uheap \<Rightarrow> uheap" where
  "set_block_user p b s = s\<lparr>blocks_info_user := (blocks_info_user s)(p := b)\<rparr>"

definition init_user_heap :: "(uheap, unit) M" where
  "init_user_heap = (\<lambda>s.
     let s1 = s\<lparr>Block_info_free_list_user := [], Block_info_taken_list_user := [],
                free_blocks_user := fold (\<lambda>i l. i # l) [0..<Max_number_of_blocks_user] []\<rparr>
     in bnd allocate_block (\<lambda>ptr s2.
          let s3 = set_block_user ptr
                 \<lparr>start_va = USER_HEAP_START, blk_size = USER_HEAP_MAX - USER_HEAP_START\<rparr>
                 (s2\<lparr>first_time := False\<rparr>)
          in Inr ((), s3\<lparr>Block_info_free_list_user := ptr # Block_info_free_list_user s3\<rparr>)) s1)"

definition first_fit_user :: "uint32 \<Rightarrow> (uheap, uint32) M" where
  "first_fit_user sz =
     bnd (\<lambda>s. whenM (first_time s) init_user_heap s) (\<lambda>_ s.
       let size = ROUNDUP sz PAGE_SIZE in
       case find (\<lambda>b. size \<le> blk_size (blocks_info_user s b)) (Block_info_free_list_user s) of
         None \<Rightarrow> Inr (0, s)
       | Some found \<Rightarrow>
          let b = blocks_info_user s found;
              tmp = start_va b;
              s1 = set_block_user found
                     (b\<lparr>start_va := start_va b + size, blk_size := blk_size b - size\<rparr>) s;
              s2 = (if blk_size (blocks_info_user s1 found) = 0
                    then recycle_user found
                      (s1\<lparr>Block_info_free_list_user :=
                            remove1 found (Block_info_free_list_user s1)\<rparr>)
                    else s1)
          in bnd allocate_block (\<lambda>ptr s3.
               let s4 = set_block_user ptr \<lparr>start_va = tmp, blk_size = size\<rparr> s3
               in Inr (tmp, s4\<lparr>Block_info_taken_list_user :=
                                  ptr # Block_info_taken_list_user s4\<rparr>)) s2)"

definition malloc :: "uint32 \<Rightarrow> (uheap, uint32) M" where
  "malloc sz =
     (let size = ROUNDUP sz PAGE_SIZE in
      bnd (first_fit_user size) (\<lambda>space.
        if space = 0 then ret 0
        else seqm (modify (sys_log (Sys_allocateMem space size))) (ret space)))"

text \<open>\<open>insert_sorted_user\<close> is the user heap's own copy of the kernel's \<open>insert_sorted\<close>.\<close>

definition insert_sorted_user :: "(nat \<Rightarrow> Block_Info) \<Rightarrow> nat list \<Rightarrow> nat \<Rightarrow> error + nat list" where
  "insert_sorted_user bi curr_list elem =
     (case hd_opt curr_list of None \<Rightarrow> Inl NullDeref
      | Some str \<Rightarrow>
        (if start_va (bi elem) \<le> start_va (bi str)
         then Inr (insert_before str elem curr_list)
         else (case last_opt curr_list of None \<Rightarrow> Inl NullDeref
               | Some lst \<Rightarrow>
                 (if start_va (bi lst) \<le> start_va (bi elem)
                  then Inr (insert_after lst elem curr_list)
                  else (case foreach_pre_nex (\<lambda>cur. start_va (bi cur) \<le> start_va (bi elem))
                                None curr_list of
                          (None, None) \<Rightarrow> Inr (elem # curr_list)
                        | (Some pre, _) \<Rightarrow> Inr (insert_after pre elem curr_list)
                        | (None, Some nex) \<Rightarrow> Inr (insert_before nex elem curr_list))))))"

definition insert_free_user :: "nat \<Rightarrow> (uheap, unit) M" where
  "insert_free_user tk = (\<lambda>s.
     case insert_sorted_user (blocks_info_user s) (Block_info_free_list_user s) tk of
       Inl e \<Rightarrow> Inl e
     | Inr l \<Rightarrow> Inr ((), s\<lparr>Block_info_free_list_user := l\<rparr>))"

definition Coalescing_heap_user :: "nat \<Rightarrow> (uheap, unit) M" where
  "Coalescing_heap_user tk = (\<lambda>s.
     let bi = blocks_info_user s; fl = Block_info_free_list_user s; t = bi tk;
         t_end = start_va t + blk_size t
     in
     case (hd_opt fl, last_opt fl) of
       (Some str, Some lst) \<Rightarrow>
         if start_va t \<le> start_va (bi str) \<and> t_end = start_va (bi str) then
           Inr ((), recycle_user tk (set_block_user str
             \<lparr>start_va = start_va t, blk_size = blk_size (bi str) + blk_size t\<rparr> s))
         else if start_va (bi lst) \<le> start_va t then
           (if start_va (bi lst) + blk_size (bi lst) = start_va t then
              Inr ((), recycle_user tk (set_block_user lst
                ((bi lst)\<lparr>blk_size := blk_size (bi lst) + blk_size t\<rparr>) s))
            else insert_free_user tk s)
         else
           (let (pre, nex) = foreach_pre_nex (\<lambda>curr. start_va (bi curr) < start_va t) None fl;
                nex_ok = (case nex of None \<Rightarrow> False | Some n \<Rightarrow> t_end = start_va (bi n));
                pre_ok = (case pre of None \<Rightarrow> False
                          | Some p \<Rightarrow> start_va (bi p) + blk_size (bi p) = start_va t)
            in
            case (pre, nex) of
              (Some p, Some n) \<Rightarrow>
                if nex_ok \<and> pre_ok then
                  Inr ((), recycle_user n (recycle_user tk
                    ((set_block_user p ((bi p)\<lparr>blk_size := blk_size (bi p) +
                        (blk_size t + blk_size (bi n))\<rparr>) s)
                      \<lparr>Block_info_free_list_user := remove1 n fl\<rparr>)))
                else if nex_ok then
                  Inr ((), recycle_user tk (set_block_user n
                    \<lparr>start_va = start_va t, blk_size = blk_size (bi n) + blk_size t\<rparr> s))
                else if pre_ok then
                  Inr ((), recycle_user tk (set_block_user p
                    ((bi p)\<lparr>blk_size := blk_size (bi p) + blk_size t\<rparr>) s))
                else insert_free_user tk s
            | (None, Some n) \<Rightarrow>
                if nex_ok then
                  Inr ((), recycle_user tk (set_block_user n
                    \<lparr>start_va = start_va t, blk_size = blk_size (bi n) + blk_size t\<rparr> s))
                else insert_free_user tk s
            | (Some p, None) \<Rightarrow>
                if pre_ok then
                  Inr ((), recycle_user tk (set_block_user p
                    ((bi p)\<lparr>blk_size := blk_size (bi p) + blk_size t\<rparr>) s))
                else insert_free_user tk s
            | (None, None) \<Rightarrow> insert_free_user tk s)
     | _ \<Rightarrow> Inl NullDeref)"

definition free_user :: "uint32 \<Rightarrow> (uheap, unit) M" where
  "free_user virtual_address = (\<lambda>s.
     case find (\<lambda>b. start_va (blocks_info_user s b) = virtual_address)
            (Block_info_taken_list_user s) of
       None \<Rightarrow> Inr ((), s)
     | Some b \<Rightarrow>
         let s1 = sys_log (Sys_freeMem virtual_address (blk_size (blocks_info_user s b))) s;
             s2 = s1\<lparr>Block_info_taken_list_user := remove1 b (Block_info_taken_list_user s1)\<rparr>
         in Coalescing_heap_user b s2)"

definition smalloc :: "kernel_answers \<Rightarrow> string \<Rightarrow> uint32 \<Rightarrow> uint8 \<Rightarrow> (uheap, uint32) M" where
  "smalloc K sharedVarName sz isWritable =
     (if sys_isUHeapPlacementStrategyFIRSTFIT K \<noteq> 0 then
        (let size = ROUNDUP sz PAGE_SIZE in
         bnd (first_fit_user size) (\<lambda>Result.
           if Result \<noteq> 0 then
             seqm (modify (sys_log (Sys_createSharedObject sharedVarName size isWritable Result)))
               (if 0 \<le> sys_createSharedObject K sharedVarName size isWritable Result
                then ret Result else ret 0)
           else ret 0))
      else ret 0)"

definition sget :: "kernel_answers \<Rightarrow> int \<Rightarrow> string \<Rightarrow> (uheap, uint32) M" where
  "sget K ownerEnvID sharedVarName =
     (if sys_isUHeapPlacementStrategyFIRSTFIT K \<noteq> 0 then
        (let check = sys_getSizeOfSharedObject K ownerEnvID sharedVarName in
         if check = E_SHARED_MEM_NOT_EXISTS then ret 0
         else bnd (first_fit_user (word_of_int check)) (\<lambda>Result.
           if Result \<noteq> 0 then
             seqm (modify (sys_log (Sys_getSharedObject ownerEnvID sharedVarName Result)))
               (if 0 \<le> sys_getSharedObject K ownerEnvID sharedVarName Result
                then ret Result else ret 0)
           else ret 0))
      else ret 0)"

definition sfree :: "uint32 \<Rightarrow> (uheap, unit) M" where
  "sfree virtual_address = modify (sys_log (Sys_freeSharedObject 0 virtual_address))"

text \<open>\<open>realloc\<close> stops at the panic on its first line; what follows it is not reached.\<close>

definition realloc_user :: "uint32 \<Rightarrow> uint32 \<Rightarrow> (uheap, uint32) M" where
  "realloc_user virtual_address new_size = raise (Panic ''realloc() is not implemented yet...!!'')"

end
