(* ===== verification/Uheap_Correct.thy ===== *)
theory Uheap_Correct
  imports Uheap
begin

text \<open>
  Correctness of the user heap: its invariant, the refinement of the first-fit search and of
  the coalescing code to the operations on regions of theory Region, and the interpretation of
  the interface of a first-fit heap.
\<close>

section \<open>Abstraction and invariant\<close>

definition ufrees :: "uheap \<Rightarrow> region list" where
  "ufrees s = regions (blocks_info_user s) (Block_info_free_list_user s)"

definition utakens :: "uheap \<Rightarrow> region list" where
  "utakens s = regions (blocks_info_user s) (Block_info_taken_list_user s)"

definition user_heap_cells :: "nat set" where
  "user_heap_cells = {unat USER_HEAP_START ..< unat USER_HEAP_MAX}"

text \<open>Every descriptor of the array is on exactly one of the three lists.\<close>

definition descriptors :: "uheap \<Rightarrow> nat list" where
  "descriptors s =
     Block_info_free_list_user s @ Block_info_taken_list_user s @ free_blocks_user s"

definition uh_inv :: "uheap \<Rightarrow> bool" where
  "uh_inv s \<longleftrightarrow>
     \<not> first_time s \<and>
     mset (descriptors s) = mset [0..<Max_number_of_blocks_user] \<and>
     gapped (ufrees s) \<and>
     disjoint_regions (utakens s) \<and>
     (\<forall>r\<in>set (utakens s). 0 < snd r) \<and>
     cover (utakens s) \<inter> cover (ufrees s) = {} \<and>
     cover (ufrees s) \<union> cover (utakens s) = user_heap_cells \<and>
     (\<forall>r\<in>set (ufrees s @ utakens s). page_aligned r)"

lemma uh_inv_distinct: "uh_inv s \<Longrightarrow> distinct (descriptors s)"
  unfolding uh_inv_def by (metis distinct_upt mset_eq_imp_distinct_iff)

lemma user_heap_cells_eq: "user_heap_cells = {0x80000000 ..< 0xC0000000}"
  by (simp add: user_heap_cells_def layout_defs)

text \<open>Every block of the heap lies inside it.\<close>

lemma region_in_heap:
  assumes "cells r \<subseteq> user_heap_cells" and "0 < snd r"
  shows "0x80000000 \<le> fst r" and "fst r + snd r \<le> 0xC0000000"
proof -
  have "fst r \<in> cells r" and "fst r + snd r - 1 \<in> cells r" using assms(2) by (auto simp: cells_def)
  then have "fst r \<in> user_heap_cells" and "fst r + snd r - 1 \<in> user_heap_cells"
    using assms(1) by blast+
  then show "0x80000000 \<le> fst r" and "fst r + snd r \<le> 0xC0000000"
    by (auto simp: user_heap_cells_eq)
qed

lemma uh_inv_free_bounds:
  assumes "uh_inv s" and "r \<in> set (ufrees s)"
  shows "0 < snd r" and "0x80000000 \<le> fst r" and "fst r + snd r \<le> 0xC0000000"
proof -
  show p: "0 < snd r" using assms by (auto simp: uh_inv_def gapped_def)
  have "cells r \<subseteq> user_heap_cells"
    using assms cells_subset_cover[OF assms(2)] by (auto simp: uh_inv_def)
  from region_in_heap[OF this p]
  show "0x80000000 \<le> fst r" and "fst r + snd r \<le> 0xC0000000" by auto
qed

lemma uh_inv_taken_bounds:
  assumes "uh_inv s" and "r \<in> set (utakens s)"
  shows "0 < snd r" and "0x80000000 \<le> fst r" and "fst r + snd r \<le> 0xC0000000"
proof -
  show p: "0 < snd r" using assms by (auto simp: uh_inv_def)
  have "cells r \<subseteq> user_heap_cells"
    using assms cells_subset_cover[OF assms(2)] by (auto simp: uh_inv_def)
  from region_in_heap[OF this p]
  show "0x80000000 \<le> fst r" and "fst r + snd r \<le> 0xC0000000" by auto
qed

section \<open>The search refines the abstract first fit\<close>

text \<open>
  Every outcome of the search on an initialised heap: no interval is long enough (NULL), no
  descriptor is left to describe the block (panic), or the block is cut from the first interval
  that is long enough and becomes the head of the list of taken blocks.
\<close>

lemma first_fit_user_None:
  assumes "\<not> first_time s" and "take_fit (unat (ROUNDUP q PAGE_SIZE)) (ufrees s) = None"
  shows "first_fit_user q s = Inr (0, s)"
  using assms by (simp add: first_fit_user_def bnd_apply ufrees_def find_None_take_fit[symmetric])

lemma first_fit_user_Some:
  assumes inv: "uh_inv s" and n: "n = ROUNDUP q PAGE_SIZE"
    and tf: "take_fit (unat n) (ufrees s) = Some (a, fr)"
    and res: "first_fit_user q s = Inr (p, s')"
  shows "unat p = a" and "ufrees s' = fr" and "utakens s' = (a, unat n) # utakens s"
    and "\<not> first_time s'" and "sys_trace s' = sys_trace s"
    and "mset (descriptors s') = mset (descriptors s)"
proof -
  let ?bi = "blocks_info_user s" and ?fl = "Block_info_free_list_user s"
    and ?tl = "Block_info_taken_list_user s"
  from tf have "find (\<lambda>b. n \<le> blk_size (?bi b)) ?fl \<noteq> None"
    by (auto simp: ufrees_def find_None_take_fit)
  then obtain f where f: "find (\<lambda>b. n \<le> blk_size (?bi b)) ?fl = Some f" by blast
  from find_Some_take_fit[OF f] obtain as bs where
    fl: "?fl = as @ f # bs" and le: "unat n \<le> unat (blk_size (?bi f))"
    and tf': "take_fit (unat n) (regions ?bi ?fl) = Some (unat (start_va (?bi f)),
           regions ?bi as @ shrink_first (unat n) (region_of (?bi f)) @ regions ?bi bs)" by metis
  have a: "a = unat (start_va (?bi f))"
    and fr: "fr = regions ?bi as @ shrink_first (unat n) (region_of (?bi f)) @ regions ?bi bs"
    using tf tf' by (auto simp: ufrees_def)
  have dist: "distinct (as @ f # bs @ ?tl @ free_blocks_user s)"
    using uh_inv_distinct[OF inv] fl by (simp add: descriptors_def)
  have "region_of (?bi f) \<in> set (ufrees s)" by (simp add: ufrees_def set_regions fl)
  from uh_inv_free_bounds[OF inv this]
  have bound: "unat (start_va (?bi f)) + unat (blk_size (?bi f)) < 2 ^ 32" by simp
  note shrunk = region_of_shrunk[OF le bound]
  have ft: "\<not> first_time s" using inv by (simp add: uh_inv_def)
  have "unat p = a \<and> ufrees s' = fr \<and> utakens s' = (a, unat n) # utakens s \<and>
    \<not> first_time s' \<and> sys_trace s' = sys_trace s \<and>
    mset (descriptors s') = mset (descriptors s)"
  proof (cases "blk_size (?bi f) = n")
    case True
    have "remove1 f ?fl = as @ bs" using dist fl by simp
    with res f True ft show ?thesis using dist fr a arg_cong[OF fl, of mset]
      by (auto simp: first_fit_user_def bnd_apply Let_def n[symmetric] set_block_user_def
          recycle_user_def allocate_block_def ufrees_def utakens_def shrink_first_def region_of_def
          descriptors_def split: sum.splits prod.splits)
  next
    case False
    then have nz: "blk_size (?bi f) - n \<noteq> 0" by simp
    let ?b1 = "\<lparr>start_va = start_va (?bi f) + n, blk_size = blk_size (?bi f) - n\<rparr>"
    let ?s1 = "s\<lparr>blocks_info_user := ?bi(f := ?b1)\<rparr>"
    have step: "first_fit_user q s = bnd allocate_block (\<lambda>ptr s3.
        Inr (start_va (?bi f), s3\<lparr>blocks_info_user := (blocks_info_user s3)
            (ptr := \<lparr>start_va = start_va (?bi f), blk_size = n\<rparr>),
          Block_info_taken_list_user := ptr # Block_info_taken_list_user s3\<rparr>)) ?s1"
      using f ft nz by (simp add: first_fit_user_def bnd_apply[of "\<lambda>s. whenM _ _ s"] Let_def
          n[symmetric] set_block_user_def)
    from res obtain ptr ps where ps: "free_blocks_user s = ptr # ps"
      unfolding step by (auto simp: bnd_apply allocate_block_def split: list.splits)
    have s': "s' = s\<lparr>blocks_info_user := ?bi(f := ?b1,
          ptr := \<lparr>start_va = start_va (?bi f), blk_size = n\<rparr>),
        Block_info_taken_list_user := ptr # ?tl, free_blocks_user := ps\<rparr>"
      and p: "p = start_va (?bi f)"
      using res ps unfolding step by (auto simp: bnd_apply allocate_block_def)
    from dist ps have d: "f \<notin> set as" "f \<notin> set bs" "f \<notin> set ?tl" "ptr \<noteq> f"
      "ptr \<notin> set as" "ptr \<notin> set bs" "ptr \<notin> set ?tl" by auto
    have ne: "unat (blk_size (?bi f)) \<noteq> unat n"
      using False by (metis word_unat_eq_iff)
    have "ufrees s' = fr"
      using d ne shrunk by (simp add: s' ufrees_def fl fr shrink_first_def region_of_def)
    moreover have "utakens s' = (a, unat n) # utakens s"
      using d by (simp add: s' utakens_def a region_of_def)
    ultimately show ?thesis using ps fl ft by (simp add: s' p a descriptors_def)
  qed
  then show "unat p = a" and "ufrees s' = fr" and "utakens s' = (a, unat n) # utakens s"
    and "\<not> first_time s'" and "sys_trace s' = sys_trace s"
    and "mset (descriptors s') = mset (descriptors s)"
    by blast+
qed

lemma first_fit_user_inv:
  assumes inv: "uh_inv s" and pos: "0 < unat (ROUNDUP q PAGE_SIZE)"
    and res: "first_fit_user q s = Inr (p, s')"
  shows "uh_inv s'"
proof (cases "take_fit (unat (ROUNDUP q PAGE_SIZE)) (ufrees s)")
  case None
  with first_fit_user_None[OF _ None] res inv show ?thesis by (auto simp: uh_inv_def)
next
  case (Some z)
  obtain a fr where z: "z = (a, fr)" by force
  note sp = first_fit_user_Some[OF inv refl Some[unfolded z] res]
  have g: "gapped (ufrees s)" using inv by (simp add: uh_inv_def)
  note tf = take_fit_cover[OF Some[unfolded z] g] take_fit_gapped[OF Some[unfolded z] g]
  have al: "\<forall>r\<in>set (ufrees s). page_aligned r" using inv by (simp add: uh_inv_def)
  note ta = take_fit_aligned[OF Some[unfolded z] al ROUNDUP_page_dvd]
  show ?thesis
    unfolding uh_inv_def sp(2,3)
    using inv pos tf ta sp(4,6) by (auto simp: uh_inv_def disjoint_regions_Cons)
qed

section \<open>The coalescing code refines the abstract release\<close>

lemma insert_sorted_user_eq: "insert_sorted_user = insert_sorted"
  by (intro ext) (simp add: insert_sorted_user_def insert_sorted_def)

text \<open>
  What a release does to the state besides the free regions: the descriptors of the other blocks,
  the taken list and the trace are untouched, and every descriptor stays on exactly one list.
\<close>

definition coalesced :: "uheap \<Rightarrow> nat \<Rightarrow> uheap \<Rightarrow> bool" where
  "coalesced s tk s' \<longleftrightarrow>
     ufrees s' = release (region_of (blocks_info_user s tk)) (ufrees s) \<and>
     Block_info_taken_list_user s' = Block_info_taken_list_user s \<and>
     first_time s' = first_time s \<and> sys_trace s' = sys_trace s \<and>
     mset (Block_info_free_list_user s' @ free_blocks_user s') =
       add_mset tk (mset (Block_info_free_list_user s @ free_blocks_user s)) \<and>
     (\<forall>i. i \<notin> insert tk (set (Block_info_free_list_user s)) \<longrightarrow>
        blocks_info_user s' i = blocks_info_user s i)"

lemma insert_free_user_coalesced:
  assumes "releasable (blocks_info_user s) (lo @ hi) tk"
    and fl: "Block_info_free_list_user s = lo @ hi" and ne: "lo @ hi \<noteq> []"
    and sp: "split_at (blocks_info_user s) lo tk hi"
    and "\<not> joins_low (blocks_info_user s) lo tk" and "\<not> joins_high (blocks_info_user s) tk hi"
  shows "\<exists>s'. insert_free_user tk s = Inr ((), s') \<and> coalesced s tk s'"
proof -
  have "distinct (lo @ hi)" using assms(1) by (simp add: releasable_def)
  from insert_sorted_split[OF refl ne this, of "blocks_info_user s" tk] sp have
    "insert_free_user tk s = Inr ((), s\<lparr>Block_info_free_list_user := lo @ tk # hi\<rparr>)"
    by (simp add: insert_free_user_def insert_sorted_user_eq split_at_def fl)
  moreover have "coalesced s tk (s\<lparr>Block_info_free_list_user := lo @ tk # hi\<rparr>)"
    using merge_none[OF sp assms(5,6)] by (simp add: coalesced_def ufrees_def fl)
  ultimately show ?thesis by blast
qed

lemma coalesced_low:
  assumes r: "releasable (blocks_info_user s) (lo @ p # hi) tk"
    and fl: "Block_info_free_list_user s = lo @ p # hi"
    and m: "split_at (blocks_info_user s) (lo @ [p]) tk hi"
    "joins_low (blocks_info_user s) (lo @ [p]) tk" "\<not> joins_high (blocks_info_user s) tk hi"
  shows "coalesced s tk (recycle_user tk (set_block_user p ((blocks_info_user s p)
     \<lparr>blk_size := blk_size (blocks_info_user s p) + blk_size (blocks_info_user s tk)\<rparr>) s))"
  using merge_low[OF r m] fl
  by (auto simp: coalesced_def ufrees_def recycle_user_def set_block_user_def)

lemma coalesced_high:
  assumes r: "releasable (blocks_info_user s) (lo @ q # hi) tk"
    and fl: "Block_info_free_list_user s = lo @ q # hi"
    and m: "split_at (blocks_info_user s) lo tk (q # hi)"
    "\<not> joins_low (blocks_info_user s) lo tk" "joins_high (blocks_info_user s) tk (q # hi)"
  shows "coalesced s tk (recycle_user tk (set_block_user q
     \<lparr>start_va = start_va (blocks_info_user s tk),
      blk_size = blk_size (blocks_info_user s q) + blk_size (blocks_info_user s tk)\<rparr> s))"
  using merge_high[OF r m] fl
  by (auto simp: coalesced_def ufrees_def recycle_user_def set_block_user_def)

lemma coalesced_both:
  assumes r: "releasable (blocks_info_user s) (lo @ p # q # hi) tk"
    and fl: "Block_info_free_list_user s = lo @ p # q # hi"
    and m: "split_at (blocks_info_user s) (lo @ [p]) tk (q # hi)"
    "joins_low (blocks_info_user s) (lo @ [p]) tk" "joins_high (blocks_info_user s) tk (q # hi)"
  shows "coalesced s tk (recycle_user q (recycle_user tk
     ((set_block_user p ((blocks_info_user s p)\<lparr>blk_size := blk_size (blocks_info_user s p) +
        (blk_size (blocks_info_user s tk) + blk_size (blocks_info_user s q))\<rparr>) s)
       \<lparr>Block_info_free_list_user := remove1 q (lo @ p # q # hi)\<rparr>)))"
proof -
  have "remove1 q (lo @ p # q # hi) = lo @ p # hi"
    using r by (auto simp: releasable_def remove1_append)
  then show ?thesis using merge_both[OF r m] fl
    by (auto simp: coalesced_def ufrees_def recycle_user_def set_block_user_def)
qed

lemma coalesce_head:
  assumes r: "releasable (blocks_info_user s) (q # hi) tk"
    and fl: "Block_info_free_list_user s = q # hi"
    and sp: "split_at (blocks_info_user s) [] tk (q # hi)"
  shows "\<exists>s'. Coalescing_heap_user tk s = Inr ((), s') \<and> coalesced s tk s'"
proof (cases "joins_high (blocks_info_user s) tk (q # hi)")
  case True
  then have "start_va (blocks_info_user s tk) + blk_size (blocks_info_user s tk) =
      start_va (blocks_info_user s q)"
    using ends_eq_iff[OF r, of tk q] by (simp add: joins_high_def)
  moreover have "start_va (blocks_info_user s tk) \<le> start_va (blocks_info_user s q)"
    using sp by (simp add: split_at_def order_less_imp_le)
  ultimately have "Coalescing_heap_user tk s = Inr ((), recycle_user tk (set_block_user q
     \<lparr>start_va = start_va (blocks_info_user s tk),
      blk_size = blk_size (blocks_info_user s q) + blk_size (blocks_info_user s tk)\<rparr> s))"
    by (cases hi rule: rev_cases) (simp_all add: Coalescing_heap_user_def Let_def fl)
  with coalesced_high[of s "[]" q hi tk] r fl sp True show ?thesis by (simp add: joins_low_def)
next
  case False
  then have "start_va (blocks_info_user s tk) + blk_size (blocks_info_user s tk) \<noteq>
      start_va (blocks_info_user s q)"
    using ends_eq_iff[OF r, of tk q] by (simp add: joins_high_def)
  moreover have "\<not> start_va (blocks_info_user s (if hi = [] then q else last hi)) \<le>
      start_va (blocks_info_user s tk)"
    using sp by (auto simp: split_at_def not_le)
  moreover have "\<not> start_va (blocks_info_user s q) < start_va (blocks_info_user s tk)"
    using sp by (auto simp: split_at_def)
  ultimately have "Coalescing_heap_user tk s = insert_free_user tk s"
    by (cases hi rule: rev_cases) (auto simp: Coalescing_heap_user_def Let_def fl)
  then show ?thesis
    using insert_free_user_coalesced[of s "[]" "q # hi" tk] r fl sp False by (simp add: joins_low_def)
qed

lemma coalesce_tail:
  assumes r: "releasable (blocks_info_user s) (lo @ [p]) tk"
    and fl: "Block_info_free_list_user s = lo @ [p]"
    and sp: "split_at (blocks_info_user s) (lo @ [p]) tk []"
  shows "\<exists>s'. Coalescing_heap_user tk s = Inr ((), s') \<and> coalesced s tk s'"
proof -
  obtain f where f: "hd_opt (lo @ [p]) = Some f" "f \<in> set (lo @ [p])" by (cases lo) auto
  have nf: "\<not> start_va (blocks_info_user s tk) \<le> start_va (blocks_info_user s f)"
    using sp f(2) by (auto simp: split_at_def not_le)
  have le: "start_va (blocks_info_user s p) \<le> start_va (blocks_info_user s tk)"
    using sp by (simp add: split_at_def order_less_imp_le)
  have jl: "joins_low (blocks_info_user s) (lo @ [p]) tk \<longleftrightarrow>
      start_va (blocks_info_user s p) + blk_size (blocks_info_user s p) = start_va (blocks_info_user s tk)"
    using ends_eq_iff[OF r, of p tk] by (simp add: joins_low_def)
  show ?thesis
  proof (cases "joins_low (blocks_info_user s) (lo @ [p]) tk")
    case True
    with coalesced_low[of s lo p "[]" tk] r fl sp f(1) nf le jl show ?thesis
      by (simp add: Coalescing_heap_user_def Let_def joins_high_def)
  next
    case False
    with f(1) nf le jl fl have "Coalescing_heap_user tk s = insert_free_user tk s"
      by (simp add: Coalescing_heap_user_def Let_def)
    then show ?thesis
      using insert_free_user_coalesced[of s "lo @ [p]" "[]" tk] r fl sp False
      by (simp add: joins_high_def)
  qed
qed

lemma coalesce_middle:
  assumes r: "releasable (blocks_info_user s) (lo @ p # q # hi) tk"
    and fl: "Block_info_free_list_user s = lo @ p # q # hi"
    and sp: "split_at (blocks_info_user s) (lo @ [p]) tk (q # hi)"
  shows "\<exists>s'. Coalescing_heap_user tk s = Inr ((), s') \<and> coalesced s tk s'"
proof -
  let ?b = "blocks_info_user s"
  obtain f where f: "hd_opt (lo @ p # q # hi) = Some f" "f \<in> set (lo @ [p])" by (cases lo) auto
  obtain l where l: "last_opt (lo @ p # q # hi) = Some l" "l \<in> set (q # hi)"
    by (cases hi rule: rev_cases) auto
  have nf: "\<not> start_va (?b tk) \<le> start_va (?b f)" using sp f(2) by (auto simp: split_at_def not_le)
  have nl: "\<not> start_va (?b l) \<le> start_va (?b tk)" using sp l(2) by (auto simp: split_at_def not_le)
  have "lo @ p # q # hi = (lo @ [p]) @ q # hi" by simp
  then have pn: "foreach_pre_nex (\<lambda>c. start_va (?b c) < start_va (?b tk)) None (lo @ p # q # hi) =
      (Some p, Some q)"
    using foreach_pre_nex_split[of "lo @ [p]" "\<lambda>c. start_va (?b c) < start_va (?b tk)" "q # hi" None] sp
    by (auto simp: split_at_def not_less order_less_imp_le)
  have jl: "joins_low ?b (lo @ [p]) tk \<longleftrightarrow> start_va (?b p) + blk_size (?b p) = start_va (?b tk)"
    using ends_eq_iff[OF r, of p tk] by (simp add: joins_low_def)
  have jh: "joins_high ?b tk (q # hi) \<longleftrightarrow> start_va (?b tk) + blk_size (?b tk) = start_va (?b q)"
    using ends_eq_iff[OF r, of tk q] by (simp add: joins_high_def)
  have run: "Coalescing_heap_user tk s =
      (if joins_high ?b tk (q # hi) \<and> joins_low ?b (lo @ [p]) tk then
         Inr ((), recycle_user q (recycle_user tk ((set_block_user p ((?b p)\<lparr>blk_size :=
           blk_size (?b p) + (blk_size (?b tk) + blk_size (?b q))\<rparr>) s)
           \<lparr>Block_info_free_list_user := remove1 q (lo @ p # q # hi)\<rparr>)))
       else if joins_high ?b tk (q # hi) then
         Inr ((), recycle_user tk (set_block_user q
           \<lparr>start_va = start_va (?b tk), blk_size = blk_size (?b q) + blk_size (?b tk)\<rparr> s))
       else if joins_low ?b (lo @ [p]) tk then
         Inr ((), recycle_user tk (set_block_user p
           ((?b p)\<lparr>blk_size := blk_size (?b p) + blk_size (?b tk)\<rparr>) s))
       else insert_free_user tk s)"
    using f l nf nl pn by (simp add: Coalescing_heap_user_def Let_def fl jl jh)
  show ?thesis
    unfolding run
    using coalesced_both[OF r fl sp] coalesced_low[of s lo p "q # hi" tk]
      coalesced_high[of s "lo @ [p]" q hi tk] insert_free_user_coalesced[of s "lo @ [p]" "q # hi" tk]
      r fl sp by simp
qed

lemma Coalescing_heap_user_spec:
  assumes r: "releasable (blocks_info_user s) (Block_info_free_list_user s) tk"
    and ne: "Block_info_free_list_user s \<noteq> []"
  shows "\<exists>s'. Coalescing_heap_user tk s = Inr ((), s') \<and> coalesced s tk s'"
proof -
  obtain lo hi where fl: "Block_info_free_list_user s = lo @ hi"
    and sp: "split_at (blocks_info_user s) lo tk hi"
    by (rule releasable_split[OF r]) (simp add: split_at_def)
  show ?thesis
  proof (cases lo rule: rev_cases)
    case Nil
    then have "hi \<noteq> []" using ne fl by simp
    then obtain q hi' where hi: "hi = q # hi'" by (meson neq_Nil_conv)
    have fl': "Block_info_free_list_user s = q # hi'" unfolding fl Nil hi by simp
    show ?thesis
      by (rule coalesce_head[OF r[unfolded fl'] fl' sp[unfolded Nil hi]])
  next
    case (snoc lo' p)
    note lo = this
    show ?thesis
    proof (cases hi)
      case Nil
      have fl': "Block_info_free_list_user s = lo' @ [p]" unfolding fl lo Nil by simp
      show ?thesis
        by (rule coalesce_tail[OF r[unfolded fl'] fl' sp[unfolded lo Nil]])
    next
      case (Cons q hi')
      have fl': "Block_info_free_list_user s = lo' @ p # q # hi'" unfolding fl lo Cons by simp
      show ?thesis
        by (rule coalesce_middle[OF r[unfolded fl'] fl' sp[unfolded lo Cons]])
    qed
  qed
qed

section \<open>malloc\<close>

lemma first_fit_user_idem:
  "first_fit_user (ROUNDUP sz PAGE_SIZE) s = first_fit_user sz s"
  by (simp add: first_fit_user_def ROUNDUP_page_idem)

text \<open>The search cannot fail while there is an unused descriptor.\<close>

lemma first_fit_user_returns:
  assumes "\<not> first_time s" and "free_blocks_user s \<noteq> []"
  obtains p s' where "first_fit_user q s = Inr (p, s')"
proof -
  have "\<exists>p s'. first_fit_user q s = Inr (p, s')"
    using assms by (auto simp: first_fit_user_def bnd_apply Let_def allocate_block_def
        set_block_user_def recycle_user_def split: option.splits list.splits)
  then show ?thesis using that by blast
qed

lemma sys_log_simps [simp]:
  "ufrees (sys_log c s) = ufrees s" "utakens (sys_log c s) = utakens s"
  "descriptors (sys_log c s) = descriptors s" "first_time (sys_log c s) = first_time s"
  "sys_trace (sys_log c s) = sys_trace s @ [c]" "uh_inv (sys_log c s) = uh_inv s"
  "blocks_info_user (sys_log c s) = blocks_info_user s"
  "Block_info_free_list_user (sys_log c s) = Block_info_free_list_user s"
  "Block_info_taken_list_user (sys_log c s) = Block_info_taken_list_user s"
  "free_blocks_user (sys_log c s) = free_blocks_user s"
  by (simp_all add: sys_log_def ufrees_def utakens_def descriptors_def uh_inv_def)

text \<open>What a malloc that returns has done, as one relation between the two states.\<close>

definition malloc_effect :: "uint32 \<Rightarrow> uheap \<Rightarrow> uint32 \<Rightarrow> uheap \<Rightarrow> bool" where
  "malloc_effect n s p s' \<longleftrightarrow>
     (case take_fit (unat n) (ufrees s) of
        None \<Rightarrow> p = 0 \<and> s' = s
      | Some (a, fr) \<Rightarrow> unat p = a \<and> p \<noteq> 0 \<and> ufrees s' = fr \<and>
          utakens s' = (a, unat n) # utakens s \<and>
          sys_trace s' = sys_trace s @ [Sys_allocateMem p n])"

lemma malloc_cases:
  assumes inv: "uh_inv s" and res: "malloc sz s = Inr (p, s')"
  shows "malloc_effect (ROUNDUP sz PAGE_SIZE) s p s'"
    and "0 < unat (ROUNDUP sz PAGE_SIZE) \<Longrightarrow> uh_inv s'"
proof -
  let ?size = "ROUNDUP sz PAGE_SIZE"
  from inv have ft: "\<not> first_time s" by (simp add: uh_inv_def)
  from res obtain s1 where s1: "first_fit_user sz s = Inr (p, s1)"
    and s': "s' = (if p = 0 then s1 else sys_log (Sys_allocateMem p ?size) s1)"
    by (auto simp: malloc_def Let_def bnd_eq_Inr seqm_eq_Inr first_fit_user_idem split: if_splits)
  show "uh_inv s'" if "0 < unat ?size" using first_fit_user_inv[OF inv that s1] by (simp add: s')
  show "malloc_effect ?size s p s'"
  proof (cases "take_fit (unat ?size) (ufrees s)")
    case None
    with first_fit_user_None[OF ft None] s1 s' show ?thesis by (simp add: malloc_effect_def)
  next
    case (Some z)
    obtain a fr where z: "z = (a, fr)" by force
    note sp = first_fit_user_Some[OF inv refl Some[unfolded z] s1]
    from take_fit_split[OF Some[unfolded z]] obtain r where "r \<in> set (ufrees s)" "a = fst r" by (metis in_set_conv_decomp)
    with uh_inv_free_bounds[OF inv] have "0 < a" by fastforce
    with sp(1) have "p \<noteq> 0" by auto
    with sp Some z s' show ?thesis by (simp add: malloc_effect_def)
  qed
qed

lemma malloc_returns:
  assumes "uh_inv s" and "free_blocks_user s \<noteq> []"
  obtains p s' where "malloc sz s = Inr (p, s')"
proof -
  have "\<not> first_time s" using assms(1) by (simp add: uh_inv_def)
  from first_fit_user_returns[OF this assms(2), of sz] obtain p s' where
    "first_fit_user sz s = Inr (p, s')" by blast
  then show ?thesis
    using that by (cases "p = 0") (auto simp: malloc_def Let_def bnd_apply seqm_def first_fit_user_idem)
qed

section \<open>free\<close>

lemma free_user_absent:
  assumes "\<forall>n. (unat va, n) \<notin> set (utakens s)"
  shows "free_user va s = Inr ((), s)"
proof -
  have "find (\<lambda>b. start_va (blocks_info_user s b) = va) (Block_info_taken_list_user s) = None"
    using assms by (auto simp: find_None_iff utakens_def set_regions region_of_def)
  then show ?thesis by (simp add: free_user_def)
qed

lemma uh_inv_start_unique:
  assumes "uh_inv s" and "(a, n) \<in> set (utakens s)" and "(a, m) \<in> set (utakens s)"
  shows "m = n"
proof -
  have "0 < n" and "0 < m" using assms unfolding uh_inv_def by force+
  with disjoint_regions_start[of "utakens s" a m n] assms show ?thesis by (simp add: uh_inv_def)
qed

text \<open>The block that \<open>free\<close> finds satisfies what the merging code relies on.\<close>

lemma taken_releasable:
  assumes inv: "uh_inv s" and b: "b \<in> set (Block_info_taken_list_user s)"
  shows "releasable (blocks_info_user s) (Block_info_free_list_user s) b"
proof -
  have in_t: "region_of (blocks_info_user s b) \<in> set (utakens s)"
    using b by (simp add: utakens_def set_regions)
  have fb: "unat (start_va (blocks_info_user s i)) + unat (blk_size (blocks_info_user s i)) < 2 ^ 32"
    if "i \<in> insert b (set (Block_info_free_list_user s))" for i
  proof (cases "i = b")
    case True
    with uh_inv_taken_bounds(3)[OF inv in_t] show ?thesis by simp
  next
    case False
    with that have "region_of (blocks_info_user s i) \<in> set (ufrees s)"
      by (simp add: ufrees_def set_regions)
    from uh_inv_free_bounds(3)[OF inv this] show ?thesis by simp
  qed
  moreover have "cells (region_of (blocks_info_user s b)) \<inter> cover (ufrees s) = {}"
    using inv cells_subset_cover[OF in_t] by (auto simp: uh_inv_def)
  moreover have "0 < snd (region_of (blocks_info_user s b))" using inv in_t by (auto simp: uh_inv_def)
  ultimately show ?thesis
    using inv uh_inv_distinct[OF inv] b unfolding releasable_def
    by (auto simp: descriptors_def ufrees_def uh_inv_def)
qed

text \<open>free on an address that was allocated, when the free list is not empty.\<close>

definition free_effect :: "uint32 \<Rightarrow> nat \<Rightarrow> uheap \<Rightarrow> uheap \<Rightarrow> bool" where
  "free_effect va n s s' \<longleftrightarrow>
     ufrees s' = release (unat va, n) (ufrees s) \<and>
     mset (utakens s') = mset (utakens s) - {#(unat va, n)#} \<and>
     sys_trace s' = sys_trace s @ [Sys_freeMem va (of_nat n)]"

lemma free_user_found:
  assumes inv: "uh_inv s" and t: "(unat va, n) \<in> set (utakens s)"
  obtains b where "b \<in> set (Block_info_taken_list_user s)" and "start_va (blocks_info_user s b) = va"
    and "unat (blk_size (blocks_info_user s b)) = n"
    and "free_user va s = Coalescing_heap_user b ((sys_log (Sys_freeMem va (of_nat n)) s)
      \<lparr>Block_info_taken_list_user := remove1 b (Block_info_taken_list_user s)\<rparr>)"
proof -
  let ?bi = "blocks_info_user s"
  from t have "find (\<lambda>b. start_va (?bi b) = va) (Block_info_taken_list_user s) \<noteq> None"
    by (auto simp: find_None_iff utakens_def set_regions region_of_def word_unat_eq_iff)
  then obtain b where b: "find (\<lambda>b. start_va (?bi b) = va) (Block_info_taken_list_user s) = Some b"
    by blast
  have n: "unat (blk_size (?bi b)) = n"
    using uh_inv_start_unique[OF inv t] utakens_find(1)[OF b] by (simp add: utakens_def)
  then have "of_nat n = blk_size (?bi b)" by auto
  with b n show ?thesis
    using find_split[OF b] by (intro that[of b]) (auto simp: free_user_def)
qed

lemma uh_inv_after_free:
  assumes inv: "uh_inv s" and t: "(a, n) \<in> set (utakens s)"
    and fr: "ufrees s' = release (a, n) (ufrees s)"
    and tk: "mset (utakens s') = mset (utakens s) - {#(a, n)#}"
    and "mset (descriptors s') = mset (descriptors s)" and "first_time s' = first_time s"
  shows "uh_inv s'"
proof -
  have g: "gapped (ufrees s)" using inv by (simp add: uh_inv_def)
  have pos: "0 < snd (a, n)" using inv t by (auto simp: uh_inv_def)
  have dis: "cells (a, n) \<inter> cover (ufrees s) = {}"
    using inv cells_subset_cover[OF t] by (auto simp: uh_inv_def)
  have perm: "mset (utakens s) = mset ((a, n) # utakens s')" using t tk by simp
  have dr: "disjoint_regions ((a, n) # utakens s')"
    using inv disjoint_regions_mset[OF perm] by (simp add: uh_inv_def)
  have cov: "cover (utakens s) = cells (a, n) \<union> cover (utakens s')"
    using perm by (metis cover_def cover_simps(2) set_mset_mset)
  have sets: "set (utakens s) = insert (a, n) (set (utakens s'))"
    using perm by (metis list.simps(15) set_mset_mset)
  have al: "\<forall>r\<in>set (ufrees s'). page_aligned r"
    unfolding fr using inv t by (intro release_aligned[OF g pos dis]) (auto simp: uh_inv_def)
  show ?thesis
    unfolding uh_inv_def
    using inv assms(5,6) release_gapped[OF g pos dis] release_cover[OF g pos dis] dr cov sets al
    by (auto simp: uh_inv_def fr disjoint_regions_Cons)
qed

lemma free_user_taken:
  assumes inv: "uh_inv s" and t: "(unat va, n) \<in> set (utakens s)" and ne: "ufrees s \<noteq> []"
  shows "\<exists>s'. free_user va s = Inr ((), s') \<and> free_effect va n s s' \<and> uh_inv s'"
proof -
  let ?bi = "blocks_info_user s"
  obtain b where b: "b \<in> set (Block_info_taken_list_user s)" and va: "start_va (?bi b) = va"
    and n: "unat (blk_size (?bi b)) = n"
    and run: "free_user va s = Coalescing_heap_user b ((sys_log (Sys_freeMem va (of_nat n)) s)
      \<lparr>Block_info_taken_list_user := remove1 b (Block_info_taken_list_user s)\<rparr>)"
    by (rule free_user_found[OF inv t])
  let ?s1 = "(sys_log (Sys_freeMem va (of_nat n)) s)
      \<lparr>Block_info_taken_list_user := remove1 b (Block_info_taken_list_user s)\<rparr>"
  from va n have reg: "region_of (?bi b) = (unat va, n)" by (simp add: region_of_def)
  have rel: "releasable (blocks_info_user ?s1) (Block_info_free_list_user ?s1) b"
    using taken_releasable[OF inv b] by simp
  have "Block_info_free_list_user ?s1 \<noteq> []" using ne by (auto simp: ufrees_def)
  from Coalescing_heap_user_spec[OF rel this] obtain s' where
    s': "Coalescing_heap_user b ?s1 = Inr ((), s')" and c: "coalesced ?s1 b s'" by blast
  have ids: "distinct (descriptors s)" by (rule uh_inv_distinct[OF inv])
  have fr: "ufrees s' = release (unat va, n) (ufrees s)"
    using c reg by (simp add: coalesced_def ufrees_def)
  have tl: "Block_info_taken_list_user s' = remove1 b (Block_info_taken_list_user s)"
    using c by (simp add: coalesced_def)
  have same: "blocks_info_user s' i = ?bi i" if "i \<in> set (remove1 b (Block_info_taken_list_user s))" for i
  proof -
    have "i \<noteq> b" and "i \<notin> set (Block_info_free_list_user s)"
      using that ids by (auto simp: descriptors_def)
    then show ?thesis using c by (simp add: coalesced_def)
  qed
  have "utakens s' = regions ?bi (remove1 b (Block_info_taken_list_user s))"
    unfolding utakens_def tl by (rule regions_cong) (rule same)
  then have tk: "mset (utakens s') = mset (utakens s) - {#(unat va, n)#}"
    using mset_regions_remove1[OF b, of ?bi] reg by (simp add: utakens_def)
  have eff: "free_effect va n s s'" using fr tk c by (simp add: free_effect_def coalesced_def)
  have t1: "add_mset b (mset (Block_info_taken_list_user s')) = mset (Block_info_taken_list_user s)"
    using b by (simp add: tl)
  have t2: "mset (Block_info_free_list_user s') + mset (free_blocks_user s') =
      add_mset b (mset (Block_info_free_list_user s) + mset (free_blocks_user s))"
    using c by (simp add: coalesced_def)
  have "mset (descriptors s') = (mset (Block_info_free_list_user s') + mset (free_blocks_user s')) +
      mset (Block_info_taken_list_user s')" by (simp add: descriptors_def ac_simps)
  also have "\<dots> = mset (descriptors s)"
    unfolding t2 by (simp add: descriptors_def t1[symmetric] ac_simps)
  finally have "mset (descriptors s') = mset (descriptors s)" .
  moreover have "first_time s' = first_time s" using c by (simp add: coalesced_def)
  ultimately have "uh_inv s'" by (intro uh_inv_after_free[OF inv t fr tk])
  moreover note eff
  ultimately show ?thesis using run s' by auto
qed

end
