(* ===== verification/Uheap_Props.thy ===== *)
theory Uheap_Props
  imports Uheap_Correct
begin

text \<open>
  What a user program can rely on when it calls \<open>malloc\<close> and \<open>free\<close> of lib/uheap.c: the heap
  set up by the first call, the interface of theory Region interpreted on the two functions,
  and the properties of any sequence of calls.
\<close>

section \<open>The initial heap\<close>

definition initial_user_heap :: "uheap \<Rightarrow> uheap" where
  "initial_user_heap s = s\<lparr>
     blocks_info_user := (blocks_info_user s)(Max_number_of_blocks_user - 1 :=
        \<lparr>start_va = USER_HEAP_START, blk_size = USER_HEAP_MAX - USER_HEAP_START\<rparr>),
     Block_info_free_list_user := [Max_number_of_blocks_user - 1],
     Block_info_taken_list_user := [],
     free_blocks_user := rev [0..<Max_number_of_blocks_user - 1],
     first_time := False\<rparr>"

lemma fold_insert_head: "fold (\<lambda>i l. i # l) xs ys = rev xs @ ys"
  by (induction xs arbitrary: ys) auto

lemma init_user_heap_eq: "init_user_heap s = Inr ((), initial_user_heap s)"
proof -
  have "0 < Max_number_of_blocks_user" by (simp add: Max_number_of_blocks_user_def)
  from rev_upt_Cons[OF this] show ?thesis
    by (simp add: init_user_heap_def Let_def fold_insert_head bnd_apply allocate_block_def
        set_block_user_def initial_user_heap_def)
qed

lemma initial_user_heap_regions:
  "ufrees (initial_user_heap s) = [(0x80000000, 0x40000000)]"
  "utakens (initial_user_heap s) = []"
  "sys_trace (initial_user_heap s) = sys_trace s"
  "\<not> first_time (initial_user_heap s)"
  by (simp_all add: initial_user_heap_def ufrees_def utakens_def region_of_def layout_defs)

lemma initial_user_heap_inv: "uh_inv (initial_user_heap s)"
proof -
  have "mset (descriptors (initial_user_heap s)) = mset ((Max_number_of_blocks_user - 1) #
      [0..<Max_number_of_blocks_user - 1])"
    by (simp add: descriptors_def initial_user_heap_def)
  also have "\<dots> = mset ([0..<Max_number_of_blocks_user - 1] @ [Max_number_of_blocks_user - 1])" by simp
  also have "\<dots> = mset [0..<Max_number_of_blocks_user]"
    by (subst upt_Suc_append[symmetric]) (simp_all add: Max_number_of_blocks_user_def)
  finally show ?thesis
    by (simp add: uh_inv_def initial_user_heap_regions disjoint_regions_def user_heap_cells_eq
        page_aligned_def)
qed

lemma first_fit_user_first_time:
  assumes "first_time s"
  shows "first_fit_user q s = first_fit_user q (initial_user_heap s)"
  using assms by (simp add: first_fit_user_def bnd_apply init_user_heap_eq initial_user_heap_regions)

lemma malloc_first_time:
  assumes "first_time s"
  shows "malloc sz s = malloc sz (initial_user_heap s)"
  using assms by (simp add: malloc_def bnd_apply first_fit_user_first_time Let_def)

section \<open>The interface of a first-fit heap\<close>

definition user_alloc :: "uint32 \<Rightarrow> uheap \<Rightarrow> nat \<Rightarrow> uheap \<Rightarrow> bool" where
  "user_alloc q s a s' \<longleftrightarrow>
     0 < unat (ROUNDUP q PAGE_SIZE) \<and> (\<exists>p. malloc q s = Inr (p, s') \<and> p \<noteq> 0 \<and> a = unat p)"

definition user_dealloc :: "nat \<Rightarrow> uheap \<Rightarrow> uheap \<Rightarrow> bool" where
  "user_dealloc a s s' \<longleftrightarrow>
     (\<exists>va n. a = unat va \<and> (a, n) \<in> set (utakens s) \<and> free_user va s = Inr ((), s'))"

definition request_len :: "uint32 \<Rightarrow> nat" where
  "request_len q = unat (ROUNDUP q PAGE_SIZE)"

lemma user_alloc_facts:
  assumes inv: "uh_inv s" and a: "user_alloc q s a s'"
  shows "uh_inv s'" and "take_fit (request_len q) (ufrees s) = Some (a, ufrees s')"
    and "utakens s' = (a, request_len q) # utakens s"
proof -
  from a obtain p where p: "malloc q s = Inr (p, s')" "p \<noteq> 0" "a = unat p"
    and pos: "0 < unat (ROUNDUP q PAGE_SIZE)" by (auto simp: user_alloc_def)
  from malloc_cases[OF inv p(1)] pos have "uh_inv s'"
    and "malloc_effect (ROUNDUP q PAGE_SIZE) s p s'" by blast+
  then show "uh_inv s'" and "take_fit (request_len q) (ufrees s) = Some (a, ufrees s')"
    and "utakens s' = (a, request_len q) # utakens s"
    using p by (auto simp: malloc_effect_def request_len_def split: option.splits)
qed

text \<open>On a heap with no free space left, freeing a block dereferences a null pointer.\<close>

lemma free_user_no_free:
  assumes "(unat va, n) \<in> set (utakens s)" and "Block_info_free_list_user s = []"
  shows "free_user va s = Inl NullDeref"
proof -
  have "find (\<lambda>b. start_va (blocks_info_user s b) = va) (Block_info_taken_list_user s) \<noteq> None"
    using assms(1) by (auto simp: find_None_iff utakens_def set_regions region_of_def word_unat_eq_iff)
  then show ?thesis
    using assms(2) by (auto simp: free_user_def Let_def Coalescing_heap_user_def)
qed

lemma user_dealloc_facts:
  assumes inv: "uh_inv s" and d: "user_dealloc a s s'"
  shows "uh_inv s'" and "\<exists>n. (a, n) \<in> set (utakens s) \<and>
    mset (utakens s') = mset (utakens s) - {#(a, n)#} \<and> ufrees s' = release (a, n) (ufrees s)"
proof -
  from d obtain va n where va: "a = unat va" "(unat va, n) \<in> set (utakens s)"
    "free_user va s = Inr ((), s')" by (auto simp: user_dealloc_def)
  then have "ufrees s \<noteq> []" using free_user_no_free by (auto simp: ufrees_def)
  from free_user_taken[OF inv va(2) this] va show "uh_inv s'" and "\<exists>n. (a, n) \<in> set (utakens s) \<and>
    mset (utakens s') = mset (utakens s) - {#(a, n)#} \<and> ufrees s' = release (a, n) (ufrees s)"
    by (auto simp: free_effect_def)
qed

interpretation user_heap: first_fit_heap uh_inv ufrees utakens request_len user_alloc user_dealloc
proof unfold_locales
  fix s q a s' assume i: "uh_inv s" and al: "user_alloc q s a s'"
  note f = user_alloc_facts[OF i al]
  have g: "gapped (ufrees s)" using i by (simp add: uh_inv_def)
  show "uh_inv s'" by (rule f)
  show "cover (ufrees s) = cells (a, request_len q) \<union> cover (ufrees s')"
    by (rule take_fit_cover(1)[OF f(2) g])
  show "mset (utakens s') = add_mset (a, request_len q) (mset (utakens s))" by (simp add: f(3))
  show "take_fit (request_len q) (ufrees s) = Some (a, ufrees s')" by (rule f(2))
next
  fix s a s' assume i: "uh_inv s" and d: "user_dealloc a s s'"
  show "uh_inv s'" by (rule user_dealloc_facts(1)[OF i d])
  show "\<exists>n. (a, n) \<in> set (utakens s) \<and> mset (utakens s') = mset (utakens s) - {#(a, n)#} \<and>
      ufrees s' = release (a, n) (ufrees s)" by (rule user_dealloc_facts(2)[OF i d])
qed (simp_all add: uh_inv_def)

section \<open>Sequences of calls\<close>

datatype uheap_op = Do_malloc uint32 | Do_free uint32

fun uheap_run :: "uheap_op list \<Rightarrow> uheap \<Rightarrow> error + uheap" where
  "uheap_run [] s = Inr s"
| "uheap_run (Do_malloc n # ops) s = (case malloc n s of Inl e \<Rightarrow> Inl e | Inr (p, s') \<Rightarrow> uheap_run ops s')"
| "uheap_run (Do_free a # ops) s = (case free_user a s of Inl e \<Rightarrow> Inl e | Inr (_, s') \<Rightarrow> uheap_run ops s')"

definition sane_request :: "uheap_op \<Rightarrow> bool" where
  "sane_request r = (case r of Do_malloc n \<Rightarrow> 0 < n \<and> n \<le> 0xFFFFF000 | Do_free a \<Rightarrow> True)"

lemma sane_len: "sane_request (Do_malloc n) \<Longrightarrow> 0 < unat (ROUNDUP n PAGE_SIZE)"
  by (rule ROUNDUP_page_pos) (auto simp: sane_request_def word_le_nat_alt word_less_nat_alt)

lemma uheap_run_simulates:
  assumes "uheap_run ops s = Inr t" and "\<forall>r\<in>set ops. sane_request r" and "uh_inv s"
  shows "user_heap.run s t"
proof -
  have "user_heap.run s0 t"
    if "uheap_run ops s = Inr t" "\<forall>r\<in>set ops. sane_request r" "uh_inv s" "user_heap.run s0 s" for s0
    using that
  proof (induction ops s rule: uheap_run.induct)
    case (1 s)
    then show ?case by simp
  next
    case (2 n ops s)
    from 2(2) obtain p s' where m: "malloc n s = Inr (p, s')" and r: "uheap_run ops s' = Inr t"
      by (auto split: sum.splits prod.splits)
    have pos: "0 < unat (ROUNDUP n PAGE_SIZE)" using 2(3) by (intro sane_len) simp
    have "p = 0 \<Longrightarrow> s' = s"
      using malloc_cases(1)[OF 2(4) m] by (auto simp: malloc_effect_def split: option.splits)
    moreover have "p \<noteq> 0 \<Longrightarrow> user_heap.run s0 s'"
      using user_heap.run_alloc[OF 2(5), of n "unat p" s'] m pos by (auto simp: user_alloc_def)
    ultimately have "user_heap.run s0 s'" using 2(5) by blast
    then show ?case using 2(1)[OF m refl r] 2(3) malloc_cases(2)[OF 2(4) m pos] by simp
  next
    case (3 a ops s)
    from 3(2) obtain s' where m: "free_user a s = Inr ((), s')" and r: "uheap_run ops s' = Inr t"
      by (auto split: sum.splits prod.splits)
    have "user_heap.run s0 s' \<and> uh_inv s'"
    proof (cases "\<exists>n. (unat a, n) \<in> set (utakens s)")
      case True
      with m have "user_dealloc (unat a) s s'" by (auto simp: user_dealloc_def)
      then show ?thesis using user_heap.run_dealloc[OF 3(5)] user_dealloc_facts(1)[OF 3(4)] by blast
    next
      case False
      with free_user_absent m have "s' = s" by auto
      then show ?thesis using 3(4,5) by simp
    qed
    then show ?case using 3(1)[OF m refl r] 3(3) by simp
  qed
  from this[OF assms user_heap.run_refl] show ?thesis .
qed

text \<open>From the start of the process: until the first malloc nothing is allocated.\<close>

lemma free_user_start:
  assumes "first_time s" and "Block_info_taken_list_user s = []"
  shows "free_user a s = Inr ((), s)"
  using assms by (intro free_user_absent) (simp add: utakens_def)

lemma uheap_run_from_start:
  assumes "uheap_run ops uheap_start = Inr t" and "\<forall>r\<in>set ops. sane_request r"
  shows "t = uheap_start \<or> user_heap.run (initial_user_heap uheap_start) t"
  using assms
proof (induction ops)
  case Nil
  then show ?case by simp
next
  case (Cons r ops)
  show ?case
  proof (cases r)
    case (Do_malloc n)
    have "malloc n uheap_start = malloc n (initial_user_heap uheap_start)"
      by (rule malloc_first_time) (simp add: uheap_start_def)
    with Cons.prems(1) Do_malloc have "uheap_run (r # ops) (initial_user_heap uheap_start) = Inr t"
      by simp
    then show ?thesis using uheap_run_simulates Cons.prems(2) initial_user_heap_inv by blast
  next
    case (Do_free a)
    have "free_user a uheap_start = Inr ((), uheap_start)"
      by (rule free_user_start) (simp_all add: uheap_start_def)
    with Cons Do_free show ?thesis by simp
  qed
qed

section \<open>Properties\<close>

text \<open>A concrete history: two pages are allocated and the first is freed again.\<close>

lemma initial_free_blocks: "free_blocks_user (initial_user_heap s) \<noteq> []"
  by (simp add: initial_user_heap_def Max_number_of_blocks_user_def)

lemma take_fit_page: "take_fit 4096 [(a, n)] =
    (if 4096 \<le> n then Some (a, shrink_first 4096 (a, n)) else None)"
  by simp

lemma malloc_page_effect:
  assumes inv: "uh_inv s" and fb: "free_blocks_user s \<noteq> []" and fr: "ufrees s = [(a, n)]" and "4096 < n"
  obtains p s' where "malloc 4096 s = Inr (p, s')" and "unat p = a" and "uh_inv s'"
    and "ufrees s' = [(a + 4096, n - 4096)]" and "utakens s' = (a, 4096) # utakens s"
    and "length (free_blocks_user s') = length (free_blocks_user s) - 1"
proof -
  have R: "ROUNDUP 4096 PAGE_SIZE = 4096"
    by (simp add: ROUNDUP_def ROUNDDOWN_def PAGE_SIZE_def)
  from malloc_returns[OF inv fb, of 4096] obtain p s' where m: "malloc 4096 s = Inr (p, s')" by blast
  from malloc_cases[OF inv m] have e: "malloc_effect 4096 s p s'" and i: "uh_inv s'"
    unfolding R by simp_all
  then have x: "unat p = a" "ufrees s' = [(a + 4096, n - 4096)]" "utakens s' = (a, 4096) # utakens s"
    using fr \<open>4096 < n\<close> by (simp_all add: malloc_effect_def shrink_first_def)
  have "length (descriptors s) = length (descriptors s')"
    using inv i unfolding uh_inv_def by (metis size_mset)
  moreover have "length (Block_info_free_list_user s) = 1" and "length (Block_info_free_list_user s') = 1"
    and "length (Block_info_taken_list_user s') = Suc (length (Block_info_taken_list_user s))"
    using arg_cong[OF fr, of length] arg_cong[OF x(2), of length] arg_cong[OF x(3), of length]
    by (simp_all add: ufrees_def utakens_def regions_def)
  ultimately have "length (free_blocks_user s') = length (free_blocks_user s) - 1"
    by (simp add: descriptors_def)
  with that m x i show ?thesis by blast
qed

lemma malloc_page_initial:
  obtains p s1 where "malloc 4096 (initial_user_heap uheap_start) = Inr (p, s1)" and "uh_inv s1"
    and "ufrees s1 = [(0x80001000, 0x3FFFF000)]" and "utakens s1 = [(0x80000000, 4096)]"
    and "length (free_blocks_user s1) = 99998"
proof -
  let ?s0 = "initial_user_heap uheap_start"
  have fb: "length (free_blocks_user ?s0) = 99999"
    by (simp add: initial_user_heap_def Max_number_of_blocks_user_def)
  obtain p s1 where "malloc 4096 ?s0 = Inr (p, s1)" "unat p = 0x80000000" "uh_inv s1"
    "ufrees s1 = [(0x80000000 + 4096, 0x40000000 - 4096)]" "utakens s1 = (0x80000000, 4096) # utakens ?s0"
    "length (free_blocks_user s1) = length (free_blocks_user ?s0) - 1"
    by (rule malloc_page_effect[OF initial_user_heap_inv[of uheap_start]
          initial_free_blocks[of uheap_start] initial_user_heap_regions(1)[of uheap_start]]) simp
  then show ?thesis by (intro that[of p s1]) (simp_all add: initial_user_heap_regions fb)
qed

lemma two_pages_then_free:
  obtains t where "uheap_run [Do_malloc 4096, Do_malloc 4096, Do_free 0x80000000] uheap_start = Inr t"
    and "utakens t = [(0x80001000, 4096)]" and "\<not> first_time t"
proof -
  let ?s0 = "initial_user_heap uheap_start"
  from malloc_page_initial
  obtain p s1 where 1: "malloc 4096 ?s0 = Inr (p, s1)" "uh_inv s1"
    "ufrees s1 = [(0x80001000, 0x3FFFF000)]" "utakens s1 = [(0x80000000, 4096)]"
    "length (free_blocks_user s1) = 99998" by blast
  have "free_blocks_user s1 \<noteq> []" using 1(5) by auto
  then obtain q s2 where "malloc 4096 s1 = Inr (q, s2)" "unat q = 0x80001000" "uh_inv s2"
    "ufrees s2 = [(0x80001000 + 4096, 0x3FFFF000 - 4096)]" "utakens s2 = (0x80001000, 4096) # utakens s1"
    "length (free_blocks_user s2) = length (free_blocks_user s1) - 1"
    by (rule malloc_page_effect[OF 1(2) _ 1(3)]) simp
  then have 2: "malloc 4096 s1 = Inr (q, s2)" "uh_inv s2"
    "ufrees s2 = [(0x80002000, 0x3FFFE000)]" "utakens s2 = [(0x80001000, 4096), (0x80000000, 4096)]"
    by (simp_all add: 1(4))
  have "(unat (0x80000000 :: uint32), 4096) \<in> set (utakens s2)" and "ufrees s2 \<noteq> []"
    by (simp_all add: 2)
  from free_user_taken[OF 2(2) this] obtain t where 3: "free_user 0x80000000 s2 = Inr ((), t)"
    "mset (utakens t) = mset [(0x80001000, 4096)]" "uh_inv t"
    by (auto simp: free_effect_def 2(4))
  have "utakens t = [(0x80001000, 4096)]" using 3(2) by simp
  moreover have "malloc 4096 uheap_start = malloc 4096 ?s0"
    by (rule malloc_first_time) (simp add: uheap_start_def)
  ultimately show ?thesis using 1(1) 2(1) 3 by (intro that[of t]) (auto simp: uh_inv_def)
qed

text \<open>C12: A malloc of a sane size on an initialised heap with an unused descriptor always returns.
  It returns NULL and changes nothing when no free interval is long enough; otherwise it returns
  the start of the lowest free interval that is, cuts the rounded size off the front of it,
  records the block as taken, asks the kernel for exactly those pages, and keeps the invariant.\<close>

theorem malloc_first_fit:
  assumes "uh_inv s" and "free_blocks_user s \<noteq> []" and "0 < sz" and "sz \<le> 0xFFFFF000"
  shows "\<exists>p s'. malloc sz s = Inr (p, s') \<and> uh_inv s' \<and>
    (case take_fit (unat (ROUNDUP sz PAGE_SIZE)) (ufrees s) of
       None \<Rightarrow> p = 0 \<and> s' = s
     | Some (a, fr) \<Rightarrow> unat p = a \<and> p \<noteq> 0 \<and> ufrees s' = fr \<and>
         utakens s' = (a, unat (ROUNDUP sz PAGE_SIZE)) # utakens s \<and>
         sys_trace s' = sys_trace s @ [Sys_allocateMem p (ROUNDUP sz PAGE_SIZE)])"
proof -
  from malloc_returns[OF assms(1,2), of sz] obtain p s' where m: "malloc sz s = Inr (p, s')" by blast
  have "0 < unat (ROUNDUP sz PAGE_SIZE)"
    using sane_len[of sz] assms(3,4) by (simp add: sane_request_def)
  with malloc_cases[OF assms(1) m] m show ?thesis unfolding malloc_effect_def by blast
qed

theorem malloc_first_fit_witness:
  "\<exists>p s'. malloc 5000 (initial_user_heap uheap_start) = Inr (p, s') \<and> unat p = 0x80000000 \<and>
     utakens s' = [(0x80000000, 8192)] \<and> ufrees s' = [(0x80002000, 0x3FFFE000)]"
proof -
  have "ROUNDUP 5000 PAGE_SIZE = 8192" by (simp add: ROUNDUP_def ROUNDDOWN_def PAGE_SIZE_def)
  with malloc_first_fit[OF initial_user_heap_inv[of uheap_start] initial_free_blocks, of 5000]
  show ?thesis by (auto simp: initial_user_heap_regions shrink_first_def)
qed

text \<open>C13: A free of an allocated address while something of the heap is free always returns: the
  block goes back to the free space, merged with the free neighbours it touches, the other
  blocks are untouched, and the kernel is told to drop exactly its pages.  When nothing is free it dereferences a null pointer.\<close>

theorem free_coalesces:
  assumes "uh_inv s" and "(unat va, n) \<in> set (utakens s)"
  shows "if ufrees s = [] then free_user va s = Inl NullDeref
    else \<exists>s'. free_user va s = Inr ((), s') \<and> uh_inv s' \<and>
      ufrees s' = release (unat va, n) (ufrees s) \<and>
      mset (utakens s') = mset (utakens s) - {#(unat va, n)#} \<and>
      sys_trace s' = sys_trace s @ [Sys_freeMem va (of_nat n)]"
proof (cases "ufrees s = []")
  case True
  then show ?thesis using free_user_no_free[OF assms(2)] by (simp add: ufrees_def)
next
  case False
  then show ?thesis using free_user_taken[OF assms False] unfolding free_effect_def by auto
qed

theorem free_coalesces_witness:
  "\<exists>s s'. ufrees s = [(0x80001000, 0x3FFFF000)] \<and> utakens s = [(0x80000000, 4096)] \<and>
     free_user 0x80000000 s = Inr ((), s') \<and> ufrees s' = [(0x80000000, 0x40000000)]"
proof -
  obtain s1 where 1: "uh_inv s1"
    "ufrees s1 = [(0x80001000, 0x3FFFF000)]" "utakens s1 = [(0x80000000, 4096)]"
    by (rule malloc_page_initial)
  have "(unat (0x80000000 :: uint32), 4096) \<in> set (utakens s1)" by (simp add: 1)
  from free_coalesces[OF 1(1) this] 1 show ?thesis
    by (auto simp: release_def touches_def)
qed

text \<open>C11: Take any sequence of malloc calls with sizes of 1 to \<open>0xFFFFF000\<close> bytes and of free calls that a process makes from its start and
  that runs to its end.  In the state it reaches the allocated blocks are page aligned, inside the user heap and pairwise disjoint, none
  of them overlaps the free space, and no byte of the heap is lost.  Sizes that round to 0 are excluded: their block
  overlaps the next one (\<open>malloc_zero_size_aliases\<close>).\<close>

theorem user_heap_safe:
  assumes "uheap_run ops uheap_start = Inr t" and "\<forall>r\<in>set ops. sane_request r"
  shows "disjoint_regions (utakens t) \<and> cover (utakens t) \<inter> cover (ufrees t) = {} \<and>
    (\<forall>r\<in>set (utakens t). page_aligned r \<and> 0 < snd r \<and> cells r \<subseteq> user_heap_cells) \<and>
    (first_time t \<or> total_size (ufrees t) + total_size (utakens t) = 0x40000000)"
proof -
  consider "t = uheap_start" | "user_heap.run (initial_user_heap uheap_start) t"
    using uheap_run_from_start[OF assms] by blast
  then show ?thesis
  proof cases
    case 1
    then show ?thesis by (simp add: uheap_start_def ufrees_def utakens_def disjoint_regions_def)
  next
    case 2
    note user_heap.run_inv_space[OF 2 initial_user_heap_inv] user_heap.run_conserves[OF 2 initial_user_heap_inv]
    then show ?thesis using cells_subset_cover
      by (fastforce simp: uh_inv_def initial_user_heap_regions)
  qed
qed

theorem user_heap_safe_witness:
  "\<exists>t. uheap_run [Do_malloc 4096, Do_malloc 4096, Do_free 0x80000000] uheap_start = Inr t \<and>
     utakens t = [(0x80001000, 4096)] \<and> total_size (ufrees t) + total_size (utakens t) = 0x40000000"
proof -
  obtain t where t: "uheap_run [Do_malloc 4096, Do_malloc 4096, Do_free 0x80000000] uheap_start = Inr t"
    "utakens t = [(0x80001000, 4096)]" "\<not> first_time t" by (rule two_pages_then_free)
  with user_heap_safe[OF t(1)] show ?thesis by (auto simp: sane_request_def)
qed

text \<open>There is no fragmentation left behind: once a process has freed everything it allocated, in
  whatever order, the free list is the single interval the heap started with.\<close>

theorem user_heap_all_freed:
  assumes "uheap_run ops uheap_start = Inr t" and "\<forall>r\<in>set ops. sane_request r"
    and "utakens t = []" and "\<not> first_time t"
  shows "ufrees t = [(0x80000000, 0x40000000)]"
proof -
  have "user_heap.run (initial_user_heap uheap_start) t"
    using uheap_run_from_start[OF assms(1,2)] assms(4) by (auto simp: uheap_start_def)
  from user_heap.run_all_freed[OF this initial_user_heap_inv] assms(3)
  show ?thesis by (simp add: initial_user_heap_regions)
qed

theorem user_heap_all_freed_witness:
  "\<exists>t. uheap_run [Do_malloc 4096, Do_malloc 4096, Do_free 0x80000000, Do_free 0x80001000] uheap_start
         = Inr t \<and> ufrees t = [(0x80000000, 0x40000000)]"
proof -
  obtain t1 where t1: "uheap_run [Do_malloc 4096, Do_malloc 4096, Do_free 0x80000000] uheap_start = Inr t1"
    "utakens t1 = [(0x80001000, 4096)]" "\<not> first_time t1" by (rule two_pages_then_free)
  have r: "user_heap.run (initial_user_heap uheap_start) t1"
    using uheap_run_from_start[OF t1(1)] t1(3) by (auto simp: sane_request_def uheap_start_def)
  have inv: "uh_inv t1" and sp: "total_size (ufrees t1) = 0x3FFFF000"
    using user_heap.run_inv_space[OF r initial_user_heap_inv] t1(2)
      user_heap.run_conserves[OF r initial_user_heap_inv]
    by (simp_all add: initial_user_heap_regions)
  have "(unat (0x80001000 :: uint32), 4096) \<in> set (utakens t1)" and "ufrees t1 \<noteq> []"
    using t1(2) sp by auto
  from free_user_taken[OF inv this] obtain t where t: "free_user 0x80001000 t1 = Inr ((), t)"
    "utakens t = []" "\<not> first_time t" using t1(2) by (auto simp: free_effect_def uh_inv_def)
  have "uheap_run [Do_malloc 4096, Do_malloc 4096, Do_free 0x80000000, Do_free 0x80001000] uheap_start = Inr t"
    using t1(1) t(1) by (auto split: sum.splits prod.splits)
  with user_heap_all_freed[OF this] t show ?thesis by (auto simp: sane_request_def)
qed

text \<open>A request whose size rounds to zero is not refused: malloc of 0, or of more than 0xFFFFF000
  bytes (the round-up wraps), returns the address of the first free interval as if the request had
  succeeded, without taking a byte from the free space, so the next block overlaps it.\<close>

theorem malloc_zero_size_aliases:
  assumes "uh_inv s" and "free_blocks_user s \<noteq> []" and "ufrees s = (a, m) # fr"
    and "sz = 0 \<or> 0xFFFFF000 < sz"
  shows "\<exists>p s'. malloc sz s = Inr (p, s') \<and> unat p = a \<and> p \<noteq> 0 \<and> ufrees s' = ufrees s \<and>
    utakens s' = (a, 0) # utakens s"
proof -
  have R: "ROUNDUP sz PAGE_SIZE = 0"
    using assms(4) ROUNDUP_page_wraps[of sz]
    by (auto simp: word_less_nat_alt ROUNDUP_def ROUNDDOWN_def PAGE_SIZE_def)
  from malloc_returns[OF assms(1,2), of sz] obtain p s' where m: "malloc sz s = Inr (p, s')" by blast
  have "0 < m" using assms(1,3) by (auto simp: uh_inv_def)
  with malloc_cases(1)[OF assms(1) m] m assms(3) show ?thesis
    by (auto simp: R malloc_effect_def shrink_first_def)
qed

theorem malloc_zero_size_aliases_witness:
  "\<exists>p s'. malloc 0xFFFFFFFF (initial_user_heap uheap_start) = Inr (p, s') \<and> unat p = 0x80000000 \<and>
     ufrees s' = [(0x80000000, 0x40000000)] \<and> utakens s' = [(0x80000000, 0)]"
  using malloc_zero_size_aliases[OF initial_user_heap_inv[of uheap_start] initial_free_blocks
      initial_user_heap_regions(1), of "0xFFFFFFFF"]
  by (auto simp: initial_user_heap_regions)

text \<open>C39: A process that allocates the whole heap in one call and then frees it does not get the heap
  back: with an empty free list the merging code reads through a null pointer.\<close>

theorem free_after_exhaustion:
  "uheap_run [Do_malloc 0x40000000, Do_free 0x80000000] uheap_start = Inl NullDeref"
proof -
  let ?s0 = "initial_user_heap uheap_start"
  have R: "ROUNDUP 0x40000000 PAGE_SIZE = 0x40000000"
    by (simp add: ROUNDUP_def ROUNDDOWN_def PAGE_SIZE_def)
  from malloc_returns[OF initial_user_heap_inv initial_free_blocks]
  obtain p s where m: "malloc 0x40000000 ?s0 = Inr (p, s)" by blast
  from malloc_cases(1)[OF initial_user_heap_inv m] have
    "ufrees s = []" and "utakens s = [(0x80000000, 0x40000000)]"
    by (simp_all add: R malloc_effect_def initial_user_heap_regions shrink_first_def)
  then have "(unat (0x80000000 :: uint32), 0x40000000) \<in> set (utakens s)"
    and "Block_info_free_list_user s = []" by (simp_all add: ufrees_def)
  then have "free_user 0x80000000 s = Inl NullDeref" by (rule free_user_no_free)
  moreover have "malloc 0x40000000 uheap_start = malloc 0x40000000 ?s0"
    by (rule malloc_first_time) (simp add: uheap_start_def)
  ultimately show ?thesis using m by simp
qed

end
