(* ===== verification/KState.thy ===== *)
theory KState
  imports Block
begin

text \<open>
  The state of the kernel: the structs of inc/memlayout.h, inc/environment_definitions.h and
  inc/trap.h and the global variables of kern/ that the modelled components read and write.

  \<^item> Words the kernel reads and writes through pointers (page directories and page tables) are in
    \<open>kmem\<close>, indexed by kernel virtual address.  A pointer is its 32-bit value; an access to the
    first page is a null-pointer dereference.
  \<^item> The elements of an intrusive list are the indices of the array the structs live in, and the
    list itself is the list of indices that theory Queue shows the macros to maintain.
  \<^item> The contents of user pages and of disk pages are words indexed by frame and by disk frame.
  \<^item> Instructions with an effect outside memory (TLB, CR2, CR3, the disk controller, the clock)
    are appended to the trace \<open>hw\<close>.
\<close>

section \<open>Structs\<close>

record Frame_Info =
  references :: uint16
  fi_va :: uint32
  environment :: "nat option"
  isBuffered :: bool

text \<open>\<open>initialize_frame_info\<close> of kern/memory_manager.c writes zeros over the struct.\<close>

definition zero_frame_info :: Frame_Info where
  "zero_frame_info = \<lparr>references = 0, fi_va = 0, environment = None, isBuffered = False\<rparr>"

record WorkingSetElement =
  ws_va :: uint32
  ws_empty :: uint8
  time_stamp :: uint32

text \<open>The registers of \<open>struct PushRegs\<close> come first; the padding words are left out.\<close>

record Trapframe =
  tf_edi :: uint32
  tf_esi :: uint32
  tf_ebp :: uint32
  tf_oesp :: uint32
  tf_ebx :: uint32
  tf_edx :: uint32
  tf_ecx :: uint32
  tf_eax :: uint32
  tf_es :: uint16
  tf_ds :: uint16
  tf_trapno :: uint32
  tf_err :: uint32
  tf_eip :: uint32
  tf_cs :: uint16
  tf_eflags :: uint32
  tf_esp :: uint32
  tf_ss :: uint16

definition zero_trapframe :: Trapframe where
  "zero_trapframe = \<lparr>tf_edi = 0, tf_esi = 0, tf_ebp = 0, tf_oesp = 0, tf_ebx = 0, tf_edx = 0, tf_ecx = 0,
     tf_eax = 0, tf_es = 0, tf_ds = 0, tf_trapno = 0, tf_err = 0, tf_eip = 0, tf_cs = 0, tf_eflags = 0,
     tf_esp = 0, tf_ss = 0\<rparr>"

datatype env_status_t =
  ENV_FREE | ENV_READY | ENV_BLOCKED | ENV_NEW | ENV_EXIT | ENV_UNKNOWN

text \<open>
  \<open>struct Env\<close>.  The array that \<open>ptr_pageWorkingSet\<close> points to belongs to one environment only, so
  its elements are kept with the environment, beside the pointer that \<open>kfree\<close> needs.
\<close>

record Env =
  env_tf :: Trapframe
  env_id :: uint32
  env_parent_id :: uint32
  env_status :: env_status_t
  env_runs :: uint32
  env_page_directory :: uint32
  env_cr3 :: uint32
  disk_env_pgdir :: uint32
  disk_env_pgdir_PA :: uint32
  disk_env_tabledir :: uint32
  disk_env_tabledir_PA :: uint32
  page_WS_max_size :: uint32
  ptr_pageWorkingSet :: uint32
  pageWorkingSet :: "nat \<Rightarrow> WorkingSetElement"
  ptr_tws :: "nat \<Rightarrow> WorkingSetElement"
  page_last_WS_index :: uint32
  table_last_WS_index :: uint32
  pageFaultsCounter :: uint32
  tableFaultsCounter :: uint32
  nModifiedPages :: uint32
  nNotModifiedPages :: uint32
  prog_name :: string
  uptr_pws :: uint32

definition zero_ws :: WorkingSetElement where
  "zero_ws = \<lparr>ws_va = 0, ws_empty = 0, time_stamp = 0\<rparr>"

definition zero_env :: Env where
  "zero_env = \<lparr>env_tf = zero_trapframe, env_id = 0, env_parent_id = 0, env_status = ENV_FREE,
     env_runs = 0, env_page_directory = 0, env_cr3 = 0, disk_env_pgdir = 0, disk_env_pgdir_PA = 0,
     disk_env_tabledir = 0, disk_env_tabledir_PA = 0, page_WS_max_size = 0,
     ptr_pageWorkingSet = 0, pageWorkingSet = (\<lambda>_. zero_ws), ptr_tws = (\<lambda>_. zero_ws),
     page_last_WS_index = 0, table_last_WS_index = 0, pageFaultsCounter = 0,
     tableFaultsCounter = 0, nModifiedPages = 0, nNotModifiedPages = 0, prog_name = [],
     uptr_pws = 0\<rparr>"

record Semaphore =
  sem_ownerID :: uint32
  sem_name :: string
  env_queue :: "nat list"
  sem_value :: uint32
  sem_empty :: bool

definition zero_semaphore :: Semaphore where
  "zero_semaphore = \<lparr>sem_ownerID = 0, sem_name = [], env_queue = [], sem_value = 0, sem_empty = True\<rparr>"

record Share =
  share_ownerID :: uint32
  share_name :: string
  share_size :: uint32
  share_references :: uint32
  isWritable :: uint8
  share_empty :: bool
  framesStorage :: uint32

definition zero_share :: Share where
  "zero_share = \<lparr>share_ownerID = 0, share_name = [], share_size = 0, share_references = 0,
     isWritable = 0, share_empty = True, framesStorage = 0\<rparr>"

section \<open>Strategies and the hardware trace\<close>

datatype placement =
  PLACE_CONTALLOC | PLACE_FIRSTFIT | PLACE_BESTFIT | PLACE_NEXTFIT | PLACE_WORSTFIT

datatype page_rep =
  PG_REP_NONE | PG_REP_LRU | PG_REP_CLOCK | PG_REP_FIFO | PG_REP_MODIFIEDCLOCK

datatype hw_event =
    Tlbflush
  | Tlb_invalidate uint32
  | Load_cr2 uint32
  | Load_cr3 uint32
  | Ide_read uint32 uint32
  | Ide_write uint32 uint32
  | Kclock_stop
  | Kclock_reset
  | Kclock_resume
  | Pop_trapframe nat
  | Resume_kernel uint32
  | Command_prompt

type_synonym page = "nat \<Rightarrow> uint32"

section \<open>The kernel state\<close>

record kstate =
  kmem :: "uint32 \<Rightarrow> uint32"
  frames_info :: "nat \<Rightarrow> Frame_Info"
  number_of_frames :: uint32
  free_frame_list :: "nat list"
  modified_frame_list :: "nat list"
  frame_data :: "nat \<Rightarrow> page"
  ptr_page_directory :: uint32
  phys_page_directory :: uint32
  ptr_free_mem :: uint32
  ptr_zero_page :: uint32
  ptr_temp_page :: uint32
  blocks_info :: "nat \<Rightarrow> Block_Info"
  Block_info_free_list :: "nat list"
  Block_info_taken_list :: "nat list"
  free_blocks :: "nat list"
  last_va_in_kheap :: uint32
  KHeapPlacementStrategy :: placement
  UHeapPlacementStrategy :: uint32
  disk_free_frame_list :: "nat list"
  disk_data :: "nat \<Rightarrow> page"
  disk_error :: "uint32 \<Rightarrow> int"
  envs :: "nat \<Rightarrow> Env"
  env_free_list :: "nat list"
  env_ready_queue :: "nat list"
  env_new_queue :: "nat list"
  env_exit_queue :: "nat list"
  curenv :: "nat option"
  sched_next :: "nat option"
  scheduler_started :: bool
  PageRepAlgoType :: page_rep
  EnableModifiedBuffer :: uint32
  EnableBuffering :: uint32
  ModifiedBufferLength :: uint32
  bypassInstrLength :: uint8
  tstcnt :: uint32
  time :: uint32
  cr2 :: uint32
  semaphores :: "nat \<Rightarrow> Semaphore"
  semaphores_ptr :: uint32
  MAX_SEMAPHORES :: uint32
  shares :: "nat \<Rightarrow> Share"
  shares_ptr :: uint32
  MAX_SHARES :: uint32
  hw :: "hw_event list"

section \<open>Access to kernel memory\<close>

definition load :: "uint32 \<Rightarrow> (kstate, uint32) M" where
  "load a = (\<lambda>s. if a < PAGE_SIZE then Inl NullDeref else Inr (kmem s a, s))"

definition store :: "uint32 \<Rightarrow> uint32 \<Rightarrow> (kstate, unit) M" where
  "store a v = (\<lambda>s. if a < PAGE_SIZE then Inl NullDeref else Inr ((), s\<lparr>kmem := (kmem s)(a := v)\<rparr>))"

text \<open>\<open>p[i]\<close> for a pointer \<open>p\<close> to 32-bit words.\<close>

definition word_at :: "uint32 \<Rightarrow> uint32 \<Rightarrow> uint32" where
  "word_at p i = p + 4 * i"

definition emit :: "hw_event \<Rightarrow> kstate \<Rightarrow> kstate" where
  "emit e s = s\<lparr>hw := hw s @ [e]\<rparr>"

text \<open>\<open>memset(p, 0, PAGE_SIZE)\<close> on a page of words.\<close>

definition zero_words :: "uint32 \<Rightarrow> (uint32 \<Rightarrow> uint32) \<Rightarrow> uint32 \<Rightarrow> uint32" where
  "zero_words p m = (\<lambda>a. if a - p < PAGE_SIZE then 0 else m a)"

definition memset_page :: "uint32 \<Rightarrow> (kstate, unit) M" where
  "memset_page p = (\<lambda>s. if p < PAGE_SIZE then Inl NullDeref
                        else Inr ((), s\<lparr>kmem := zero_words p (kmem s)\<rparr>))"

definition get_env :: "nat \<Rightarrow> (kstate, Env) M" where
  "get_env e = gets (\<lambda>s. envs s e)"

definition upd_env :: "nat \<Rightarrow> (Env \<Rightarrow> Env) \<Rightarrow> kstate \<Rightarrow> kstate" where
  "upd_env e f s = s\<lparr>envs := (envs s)(e := f (envs s e))\<rparr>"

definition upd_frame :: "nat \<Rightarrow> (Frame_Info \<Rightarrow> Frame_Info) \<Rightarrow> kstate \<Rightarrow> kstate" where
  "upd_frame fi f s = s\<lparr>frames_info := (frames_info s)(fi := f (frames_info s fi))\<rparr>"

lemma load_eq_Inr [simp]: "load a s = Inr (v, t) \<longleftrightarrow> PAGE_SIZE \<le> a \<and> v = kmem s a \<and> t = s"
  by (auto simp: load_def not_le)

lemma load_ok [simp]: "PAGE_SIZE \<le> a \<Longrightarrow> load a s = Inr (kmem s a, s)"
  by simp

lemma store_eq_Inr [simp]:
  "store a v s = Inr (u, t) \<longleftrightarrow> PAGE_SIZE \<le> a \<and> t = s\<lparr>kmem := (kmem s)(a := v)\<rparr>"
  by (auto simp: store_def not_le)

lemma store_ok: "PAGE_SIZE \<le> a \<Longrightarrow> store a v s = Inr ((), s\<lparr>kmem := (kmem s)(a := v)\<rparr>)"
  by simp

lemma upd_frame_simps [simp]:
  "kmem (upd_frame fi f s) = kmem s" "number_of_frames (upd_frame fi f s) = number_of_frames s"
  "free_frame_list (upd_frame fi f s) = free_frame_list s"
  "frames_info (upd_frame fi f s) = (frames_info s)(fi := f (frames_info s fi))"
  "envs (upd_frame fi f s) = envs s" "hw (upd_frame fi f s) = hw s"
  "curenv (upd_frame fi f s) = curenv s" "frame_data (upd_frame fi f s) = frame_data s"
  "disk_data (upd_frame fi f s) = disk_data s"
  "ptr_page_directory (upd_frame fi f s) = ptr_page_directory s"
  by (simp_all add: upd_frame_def)

lemma upd_env_simps [simp]:
  "kmem (upd_env e g s) = kmem s" "number_of_frames (upd_env e g s) = number_of_frames s"
  "frames_info (upd_env e g s) = frames_info s" "envs (upd_env e g s) = (envs s)(e := g (envs s e))"
  "free_frame_list (upd_env e g s) = free_frame_list s" "curenv (upd_env e g s) = curenv s"
  "ptr_page_directory (upd_env e g s) = ptr_page_directory s"
  by (simp_all add: upd_env_def)

lemma emit_simps [simp]:
  "kmem (emit ev s) = kmem s" "number_of_frames (emit ev s) = number_of_frames s"
  "frames_info (emit ev s) = frames_info s" "envs (emit ev s) = envs s"
  "free_frame_list (emit ev s) = free_frame_list s" "curenv (emit ev s) = curenv s"
  "hw (emit ev s) = hw s @ [ev]" "frame_data (emit ev s) = frame_data s"
  "disk_data (emit ev s) = disk_data s" "disk_error (emit ev s) = disk_error s"
  "ptr_page_directory (emit ev s) = ptr_page_directory s"
  by (simp_all add: emit_def)

text \<open>Removal of an element that must be on the list.\<close>

definition list_remove :: "'a \<Rightarrow> 'a list \<Rightarrow> error + 'a list" where
  "list_remove x xs = (if x \<in> set xs then Inr (remove1 x xs) else Inl CorruptList)"

lemma list_remove_ok [simp]: "x \<in> set xs \<Longrightarrow> list_remove x xs = Inr (remove1 x xs)"
  by (simp add: list_remove_def)

end
