(* ===== verification/Paging.thy ===== *)
theory Paging
  imports KState
begin

text \<open>
  Physical frames, page tables and the disk frames of the page file: kern/memory_manager.c with
  the address macros of kern/helpers.h and kern/memory_manager.h, and the part of
  kern/file_manager.c that these operations call.

  Some of these operations call \<open>kmalloc\<close> when a table has to be created, and \<open>kmalloc\<close> calls
  them.  Here the callee is the parameter \<open>km\<close>; theory Kheap ties the knot.
\<close>

section \<open>Error codes (inc/error.h)\<close>

definition E_NO_MEM :: int where "E_NO_MEM = -4"
definition E_BAD_ENV :: int where "E_BAD_ENV = -2"
definition E_NO_FREE_ENV :: int where "E_NO_FREE_ENV = -5"
definition E_NO_PAGE_FILE_SPACE :: int where "E_NO_PAGE_FILE_SPACE = -8"
definition E_PAGE_NOT_EXIST_IN_PF :: int where "E_PAGE_NOT_EXIST_IN_PF = -9"
definition E_TABLE_NOT_EXIST_IN_PF :: int where "E_TABLE_NOT_EXIST_IN_PF = -10"
definition E_NO_SEMAPHORE :: int where "E_NO_SEMAPHORE = -11"
definition E_SEMAPHORE_EXISTS :: int where "E_SEMAPHORE_EXISTS = -12"
definition E_SEMAPHORE_NOT_EXISTS :: int where "E_SEMAPHORE_NOT_EXISTS = -13"
definition E_NO_SHARE :: int where "E_NO_SHARE = -14"
definition E_SHARED_MEM_EXISTS :: int where "E_SHARED_MEM_EXISTS = -15"
definition E_SHARED_MEM_NOT_EXISTS :: int where "E_SHARED_MEM_NOT_EXISTS = -16"
definition E_NO_VM :: int where "E_NO_VM = -20"
definition E_INVAL :: int where "E_INVAL = -3"
definition E_ENV_CREATION_ERROR :: int where "E_ENV_CREATION_ERROR = -17"

lemmas error_codes = E_NO_MEM_def E_BAD_ENV_def E_NO_FREE_ENV_def E_NO_PAGE_FILE_SPACE_def
  E_PAGE_NOT_EXIST_IN_PF_def E_TABLE_NOT_EXIST_IN_PF_def E_NO_SEMAPHORE_def
  E_SEMAPHORE_EXISTS_def E_SEMAPHORE_NOT_EXISTS_def E_NO_SHARE_def E_SHARED_MEM_EXISTS_def
  E_SHARED_MEM_NOT_EXISTS_def E_NO_VM_def

section \<open>Frame numbers and addresses\<close>

definition to_physical_address :: "nat \<Rightarrow> uint32" where
  "to_physical_address fi = push_bit 12 (of_nat fi)"

definition to_frame_info :: "uint32 \<Rightarrow> (kstate, nat) M" where
  "to_frame_info pa = (\<lambda>s. if number_of_frames s \<le> PPN pa
     then Inl (Panic ''to_frame_info called with invalid pa'')
     else Inr (unat (PPN pa), s))"

definition STATIC_KERNEL_VIRTUAL_ADDRESS :: "uint32 \<Rightarrow> (kstate, uint32) M" where
  "STATIC_KERNEL_VIRTUAL_ADDRESS pa = (\<lambda>s. if number_of_frames s \<le> PPN pa
     then Inl (Panic ''K_VIRTUAL_ADDRESS called with invalid pa'')
     else Inr (pa + KERNEL_BASE, s))"

definition STATIC_KERNEL_PHYSICAL_ADDRESS :: "uint32 \<Rightarrow> (kstate, uint32) M" where
  "STATIC_KERNEL_PHYSICAL_ADDRESS kva = (\<lambda>s. if kva < KERNEL_BASE
     then Inl (Panic ''K_PHYSICAL_ADDRESS called with invalid kva'')
     else Inr (kva - KERNEL_BASE, s))"

text \<open>\<open>kheap_virtual_address\<close> reads the array without a bound check.\<close>

definition kheap_virtual_address :: "uint32 \<Rightarrow> (kstate, uint32) M" where
  "kheap_virtual_address pa = (\<lambda>s. if number_of_frames s \<le> PPN pa then Inl OutOfBounds
     else Inr (fi_va (frames_info s (unat (PPN pa))) + (pa AND 0xFFF), s))"

section \<open>Free frames\<close>

definition initialize_frame_info :: "nat \<Rightarrow> (kstate, unit) M" where
  "initialize_frame_info fi = modify (upd_frame fi (\<lambda>_. zero_frame_info))"

definition free_frame :: "nat \<Rightarrow> (kstate, unit) M" where
  "free_frame fi = seqm (initialize_frame_info fi)
     (modify (\<lambda>s. s\<lparr>free_frame_list := fi # free_frame_list s\<rparr>))"

definition decrement_references :: "nat \<Rightarrow> (kstate, unit) M" where
  "decrement_references fi =
     seqm (modify (upd_frame fi (\<lambda>f. f\<lparr>references := references f - 1\<rparr>)))
       (\<lambda>s. if references (frames_info s fi) = 0 then free_frame fi s else Inr ((), s))"

section \<open>Finding a page table\<close>

datatype table_status = TABLE_IN_MEMORY | TABLE_NOT_EXIST

text \<open>The kernel address of the table that a directory entry for \<open>va\<close> refers to.\<close>

definition table_address :: "uint32 \<Rightarrow> uint32 \<Rightarrow> (kstate, uint32) M" where
  "table_address va entry =
     (if \<not> CHECK_IF_KERNEL_ADDRESS va then kheap_virtual_address (EXTRACT_ADDRESS entry)
      else STATIC_KERNEL_VIRTUAL_ADDRESS (EXTRACT_ADDRESS entry))"

text \<open>
  For a table that is not in memory the code loads CR2 and calls \<open>fault_handler(NULL)\<close>, whose
  first statement reads the trap frame it was given.
\<close>

definition get_page_table :: "uint32 \<Rightarrow> uint32 \<Rightarrow> (kstate, table_status \<times> uint32) M" where
  "get_page_table pgdir va =
     bnd (load (word_at pgdir (PDX va))) (\<lambda>entry.
     bnd (table_address va entry) (\<lambda>pt.
       if entry AND PERM_PRESENT = PERM_PRESENT then ret (TABLE_IN_MEMORY, pt)
       else if entry \<noteq> 0 then seqm (modify (\<lambda>s. s\<lparr>cr2 := va\<rparr>)) (raise NullDeref)
       else ret (TABLE_NOT_EXIST, 0)))"

definition kheap_physical_address :: "uint32 \<Rightarrow> (kstate, uint32) M" where
  "kheap_physical_address va =
     bnd (gets ptr_page_directory) (\<lambda>pgdir.
     bnd (get_page_table pgdir va) (\<lambda>(st, pt).
     bnd (load (word_at pt (PTX va))) (\<lambda>pte.
       ret (drop_bit 12 pte * PAGE_SIZE + (va AND 0xFFF)))))"

text \<open>Returns the frame, or none, and the table it looked in.\<close>

definition get_frame_info :: "uint32 \<Rightarrow> uint32 \<Rightarrow> (kstate, nat option \<times> uint32) M" where
  "get_frame_info pgdir va =
     bnd (get_page_table pgdir va) (\<lambda>(st, pt).
       if pt \<noteq> 0 then
         bnd (load (word_at pt (PTX va))) (\<lambda>pte.
           if pte \<noteq> 0 then bnd (to_frame_info (EXTRACT_ADDRESS pte)) (\<lambda>fi. ret (Some fi, pt))
           else ret (None, pt))
       else ret (None, pt))"

definition tlb_invalidate :: "uint32 \<Rightarrow> (kstate, unit) M" where
  "tlb_invalidate va = modify (emit (Tlb_invalidate va))"

definition tlbflush :: "(kstate, unit) M" where
  "tlbflush = modify (emit Tlbflush)"

definition unmap_frame :: "uint32 \<Rightarrow> uint32 \<Rightarrow> (kstate, unit) M" where
  "unmap_frame pgdir va =
     bnd (get_frame_info pgdir va) (\<lambda>(fi, pt).
       case fi of None \<Rightarrow> ret ()
       | Some f \<Rightarrow> seqm (decrement_references f)
                    (seqm (store (word_at pt (PTX va)) 0) (tlb_invalidate va)))"

section \<open>Disk frames and disk transfers (kern/file_manager.c)\<close>

definition PAGE_FILE_START_SECTOR :: uint32 where "PAGE_FILE_START_SECTOR = 0xA000"
definition SECTOR_PER_PAGE :: uint32 where "SECTOR_PER_PAGE = 8"
definition PAGES_PER_FILE :: nat where "PAGES_PER_FILE = 133120"

text \<open>
  The page a virtual address denotes for a transfer: kernel memory above \<open>KERNEL_BASE\<close>, or the
  frame mapped there in the page directory of the running environment.
\<close>

definition active_frame :: "uint32 \<Rightarrow> kstate \<Rightarrow> nat option" where
  "active_frame va s =
     (case curenv s of None \<Rightarrow> None
      | Some e \<Rightarrow>
         (case get_frame_info (env_page_directory (envs s e)) va s of
            Inr ((fi, _), _) \<Rightarrow> fi
          | Inl _ \<Rightarrow> None))"

text \<open>A word of kernel memory at any byte address, in the byte order of the machine.\<close>

definition word_from :: "(uint32 \<Rightarrow> uint32) \<Rightarrow> uint32 \<Rightarrow> uint32" where
  "word_from m a = (let k = unat (a AND 3); b = a AND NOT 3 in
     if k = 0 then m a else drop_bit (8 * k) (m b) OR push_bit (32 - 8 * k) (m (b + 4)))"

definition kernel_words :: "uint32 \<Rightarrow> kstate \<Rightarrow> page" where
  "kernel_words p s = (\<lambda>i. word_from (kmem s) (word_at p (of_nat i)))"

definition fill_words :: "uint32 \<Rightarrow> page \<Rightarrow> (uint32 \<Rightarrow> uint32) \<Rightarrow> uint32 \<Rightarrow> uint32" where
  "fill_words p pg m = (\<lambda>a. if a - p < PAGE_SIZE then pg (unat (a - p) div 4) else m a)"

definition page_contents :: "uint32 \<Rightarrow> (kstate, page) M" where
  "page_contents va = (\<lambda>s. if KERNEL_BASE \<le> va then Inr (kernel_words va s, s)
     else (case active_frame va s of None \<Rightarrow> Inl BadAddress
           | Some f \<Rightarrow> Inr (frame_data s f, s)))"

definition set_page_contents :: "uint32 \<Rightarrow> page \<Rightarrow> (kstate, unit) M" where
  "set_page_contents va pg = (\<lambda>s. if KERNEL_BASE \<le> va
       then Inr ((), s\<lparr>kmem := fill_words va pg (kmem s)\<rparr>)
     else (case active_frame va s of None \<Rightarrow> Inl BadAddress
           | Some f \<Rightarrow> Inr ((), s\<lparr>frame_data := (frame_data s)(f := pg)\<rparr>)))"

text \<open>
  A disk transfer fails or succeeds as \<open>disk_error\<close> says for its first sector.  A failed read
  leaves memory alone; a failed write panics.
\<close>

definition disk_sector :: "uint32 \<Rightarrow> uint32" where
  "disk_sector dfn = PAGE_FILE_START_SECTOR + dfn * SECTOR_PER_PAGE"

definition read_disk_page :: "uint32 \<Rightarrow> uint32 \<Rightarrow> (kstate, int) M" where
  "read_disk_page dfn va =
     seqm (modify (emit (Ide_read (disk_sector dfn) va)))
     (bnd (gets (\<lambda>s. disk_error s (disk_sector dfn))) (\<lambda>success.
      bnd (gets (\<lambda>s. disk_data s (unat dfn))) (\<lambda>pg.
        seqm (whenM (success = 0) (set_page_contents va pg)) (ret success))))"

definition write_disk_page :: "uint32 \<Rightarrow> uint32 \<Rightarrow> (kstate, int) M" where
  "write_disk_page dfn va =
     seqm (modify (emit (Ide_write (disk_sector dfn) va)))
     (bnd (gets (\<lambda>s. disk_error s (disk_sector dfn))) (\<lambda>success.
        if success \<noteq> 0 then raise (Panic ''Error writing on disk'')
        else bnd (page_contents va) (\<lambda>pg.
          seqm (modify (\<lambda>s. s\<lparr>disk_data := (disk_data s)(unat dfn := pg)\<rparr>)) (ret success))))"

definition initialize_disk_page_file :: "(kstate, unit) M" where
  "initialize_disk_page_file =
     modify (\<lambda>s. s\<lparr>disk_free_frame_list := fold (\<lambda>i l. i # l) [1..<PAGES_PER_FILE] []\<rparr>)"

text \<open>Returns the disk frame, or none where the code returns \<open>E_NO_PAGE_FILE_SPACE\<close>.\<close>

definition allocate_disk_frame :: "(kstate, nat option) M" where
  "allocate_disk_frame = (\<lambda>s. case disk_free_frame_list s of
       [] \<Rightarrow> Inr (None, s)
     | d # ds \<Rightarrow> Inr (Some d, s\<lparr>disk_free_frame_list := ds\<rparr>))"

definition free_disk_frame :: "uint32 \<Rightarrow> (kstate, unit) M" where
  "free_disk_frame dfn =
     whenM (dfn \<noteq> 0) (modify (\<lambda>s. s\<lparr>disk_free_frame_list := unat dfn # disk_free_frame_list s\<rparr>))"

definition pf_calculate_free_frames :: "(kstate, uint32) M" where
  "pf_calculate_free_frames = gets (\<lambda>s. fold (\<lambda>_ n. n + 1) (disk_free_frame_list s) 0)"

section \<open>The table file (kern/file_manager.c)\<close>

definition get_disk_table_directory :: "(uint32 \<Rightarrow> (kstate, uint32) M) \<Rightarrow> nat \<Rightarrow> (kstate, int) M" where
  "get_disk_table_directory km e =
     bnd (get_env e) (\<lambda>env.
       if disk_env_tabledir env = 0 then
         bnd (km PAGE_SIZE) (\<lambda>p.
         seqm (modify (upd_env e (\<lambda>v. v\<lparr>disk_env_tabledir := p\<rparr>)))
           (if p = 0 then ret E_NO_VM
            else bnd (kheap_physical_address p) (\<lambda>pa.
              seqm (modify (upd_env e (\<lambda>v. v\<lparr>disk_env_tabledir_PA := pa\<rparr>)))
                (seqm (memset_page p) (ret 0)))))
       else ret 0)"

definition pf_write_env_table ::
  "(uint32 \<Rightarrow> (kstate, uint32) M) \<Rightarrow> nat \<Rightarrow> uint32 \<Rightarrow> uint32 \<Rightarrow> (kstate, int) M" where
  "pf_write_env_table km e va tableKVA =
     seqm (guard (va < KERNEL_BASE) AssertFailed)
     (bnd (get_disk_table_directory km e) (\<lambda>_.
      bnd (get_env e) (\<lambda>env.
      bnd (load (word_at (disk_env_tabledir env) (PDX va))) (\<lambda>dfn.
        if dfn = 0 then
          bnd allocate_disk_frame (\<lambda>d. case d of
              None \<Rightarrow> ret E_NO_PAGE_FILE_SPACE
            | Some d \<Rightarrow> seqm (store (word_at (disk_env_tabledir env) (PDX va)) (of_nat d))
                          (write_disk_page (of_nat d) tableKVA))
        else write_disk_page dfn tableKVA))))"

definition pf_read_env_table :: "nat \<Rightarrow> uint32 \<Rightarrow> uint32 \<Rightarrow> (kstate, int) M" where
  "pf_read_env_table e va tableKVA =
     bnd (get_env e) (\<lambda>env.
       if disk_env_tabledir env = 0 then ret E_TABLE_NOT_EXIST_IN_PF
       else bnd (load (word_at (disk_env_tabledir env) (PDX va))) (\<lambda>dfn.
         if dfn = 0 then ret E_TABLE_NOT_EXIST_IN_PF else read_disk_page dfn tableKVA))"

definition pf_remove_env_all_tables :: "nat \<Rightarrow> (kstate, unit) M" where
  "pf_remove_env_all_tables e =
     bnd (get_env e) (\<lambda>env.
       whenM (disk_env_tabledir env \<noteq> 0)
         (for_n (unat (PDX USER_TOP)) 0 (\<lambda>pdeno.
            bnd (load (word_at (disk_env_tabledir env) (of_nat pdeno))) (\<lambda>dfn.
            seqm (store (word_at (disk_env_tabledir env) (of_nat pdeno)) 0)
              (free_disk_frame dfn)))))"

definition pf_remove_env_table :: "nat \<Rightarrow> uint32 \<Rightarrow> (kstate, unit) M" where
  "pf_remove_env_table e va =
     bnd (get_env e) (\<lambda>env.
       whenM (disk_env_tabledir env \<noteq> 0)
         (bnd (load (word_at (disk_env_tabledir env) (PDX va))) (\<lambda>dfn.
          seqm (store (word_at (disk_env_tabledir env) (PDX va)) 0) (free_disk_frame dfn))))"

end
