(* ===== verification/Kheap.thy ===== *)
theory Kheap
  imports Paging
begin

text \<open>
  The kernel heap (kern/kheap.c) and the paging operations that need it to create a page table
  (kern/memory_manager.c).  \<open>kmalloc\<close> maps each page it hands out with \<open>map_frame\<close>, and
  \<open>map_frame\<close> calls \<open>create_page_table\<close>, which calls \<open>kmalloc\<close>.  Every operation of the cycle is
  written with the inner \<open>kmalloc\<close> as its parameter \<open>km\<close>; \<open>kmalloc_depth\<close> unrolls the cycle,
  and \<open>kmalloc\<close> is the unrolling of depth 3.
\<close>

section \<open>Flags of page table entries\<close>

definition pd_is_table_used :: "nat \<Rightarrow> uint32 \<Rightarrow> (kstate, bool) M" where
  "pd_is_table_used e va =
     bnd (get_env e) (\<lambda>env. bnd (load (word_at (env_page_directory env) (PDX va))) (\<lambda>pde.
       ret (pde AND PERM_USED = PERM_USED)))"

definition pd_set_table_unused :: "nat \<Rightarrow> uint32 \<Rightarrow> (kstate, unit) M" where
  "pd_set_table_unused e va =
     bnd (get_env e) (\<lambda>env. bnd (load (word_at (env_page_directory env) (PDX va))) (\<lambda>pde.
       seqm (store (word_at (env_page_directory env) (PDX va)) (pde AND NOT PERM_USED))
         (tlb_invalidate va)))"

definition pd_clear_page_dir_entry :: "nat \<Rightarrow> uint32 \<Rightarrow> (kstate, unit) M" where
  "pd_clear_page_dir_entry e va =
     bnd (get_env e) (\<lambda>env.
       seqm (store (word_at (env_page_directory env) (PDX va)) 0) tlbflush)"

text \<open>The statement that updates one entry of a table: read it, apply \<open>f\<close>, write it back.\<close>

definition update_word :: "uint32 \<Rightarrow> (uint32 \<Rightarrow> uint32) \<Rightarrow> (kstate, unit) M" where
  "update_word a f = bnd (load a) (\<lambda>v. store a (f v))"

text \<open>
  \<open>pt_set_page_permissions\<close> and \<open>pt_clear_page_table_entry\<close> have the same three cases: the table
  is in memory; it is on disk, and is read into the temporary page, updated and written back; or
  it does not exist.
\<close>

definition pt_update_entry ::
  "(uint32 \<Rightarrow> (kstate, uint32) M) \<Rightarrow> (uint32 \<Rightarrow> uint32) \<Rightarrow> string \<Rightarrow> string \<Rightarrow> nat \<Rightarrow> uint32 \<Rightarrow> (kstate, unit) M" where
  "pt_update_entry km f not_in_pf not_exist e va =
     bnd (get_env e) (\<lambda>env.
     bnd (load (word_at (env_page_directory env) (PDX va))) (\<lambda>pde.
       seqm
        (if pde AND PERM_PRESENT = PERM_PRESENT then
           bnd (table_address va pde) (\<lambda>pt. update_word (word_at pt (PTX va)) f)
         else if pde \<noteq> 0 then
           bnd (gets ptr_temp_page) (\<lambda>tmp.
           bnd (pf_read_env_table e va tmp) (\<lambda>success.
             if success = E_TABLE_NOT_EXIST_IN_PF then raise (Panic not_in_pf)
             else seqm (update_word (word_at tmp (PTX va)) f)
                    (bnd (pf_write_env_table km e va tmp) (\<lambda>_. ret ()))))
         else raise (Panic not_exist))
        (tlb_invalidate va)))"

definition pt_set_page_permissions ::
  "(uint32 \<Rightarrow> (kstate, uint32) M) \<Rightarrow> nat \<Rightarrow> uint32 \<Rightarrow> uint32 \<Rightarrow> uint32 \<Rightarrow> (kstate, unit) M" where
  "pt_set_page_permissions km e va permissions_to_set permissions_to_clear =
     pt_update_entry km (\<lambda>pte. (pte OR permissions_to_set) AND NOT permissions_to_clear)
       ''pt_set_page_permissions: table not found in PF''
       ''pt_set_page_permissions: page table does not exist'' e va"

definition pt_clear_page_table_entry ::
  "(uint32 \<Rightarrow> (kstate, uint32) M) \<Rightarrow> nat \<Rightarrow> uint32 \<Rightarrow> (kstate, unit) M" where
  "pt_clear_page_table_entry km e va =
     pt_update_entry km (\<lambda>_. 0)
       ''pt_clear_page_table_entry: table not found in PF''
       ''pt_clear_page_table_entry: page table does not exist'' e va"

definition pt_get_page_permissions :: "nat \<Rightarrow> uint32 \<Rightarrow> (kstate, uint32) M" where
  "pt_get_page_permissions e va =
     bnd (get_env e) (\<lambda>env.
     bnd (load (word_at (env_page_directory env) (PDX va))) (\<lambda>pde.
       if pde AND PERM_PRESENT = PERM_PRESENT then
         bnd (table_address va pde) (\<lambda>pt.
         bnd (load (word_at pt (PTX va))) (\<lambda>pte. ret (pte AND 0xFFF)))
       else if pde \<noteq> 0 then
         bnd (gets ptr_temp_page) (\<lambda>tmp.
         bnd (pf_read_env_table e va tmp) (\<lambda>success.
           if success = E_TABLE_NOT_EXIST_IN_PF
           then raise (Panic ''pt_get_page_permissions: table not found in PF'')
           else bnd (load (word_at tmp (PTX va))) (\<lambda>pte. ret (pte AND 0xFFF))))
       else ret 0))"

section \<open>Allocating and mapping frames\<close>

text \<open>
  On an empty free list the code goes on with a null pointer, which \<open>LIST_REMOVE\<close> dereferences.
\<close>

definition allocate_frame :: "(uint32 \<Rightarrow> (kstate, uint32) M) \<Rightarrow> (kstate, nat) M" where
  "allocate_frame km =
     bnd (gets free_frame_list) (\<lambda>fl.
     bnd (deref (hd_opt fl)) (\<lambda>fi.
     seqm (modify (\<lambda>s. s\<lparr>free_frame_list := tl fl\<rparr>))
     (bnd (gets (\<lambda>s. frames_info s fi)) (\<lambda>f.
      seqm (whenM (isBuffered f)
              (bnd (deref (environment f)) (\<lambda>e. pt_clear_page_table_entry km e (fi_va f))))
        (seqm (initialize_frame_info fi) (ret fi))))))"

definition create_page_table ::
  "(uint32 \<Rightarrow> (kstate, uint32) M) \<Rightarrow> uint32 \<Rightarrow> uint32 \<Rightarrow> (kstate, uint32) M" where
  "create_page_table km pgdir va =
     bnd (km PAGE_SIZE) (\<lambda>add.
       if add = 0 then raise (Panic ''No enough memory'')
       else bnd (kheap_physical_address add) (\<lambda>pa.
         seqm (store (word_at pgdir (PDX va))
                 (CONSTRUCT_ENTRY pa (PERM_USER OR PERM_WRITEABLE OR PERM_PRESENT)))
         (seqm (for_n 1024 0 (\<lambda>i. store (word_at add (of_nat i)) 0))
         (seqm tlbflush (ret add)))))"

definition map_frame ::
  "(uint32 \<Rightarrow> (kstate, uint32) M) \<Rightarrow> uint32 \<Rightarrow> nat \<Rightarrow> uint32 \<Rightarrow> uint32 \<Rightarrow> (kstate, unit) M" where
  "map_frame km pgdir fi va perm =
     (let physical_address = to_physical_address fi in
      bnd (get_page_table pgdir va) (\<lambda>(st, pt0).
      bnd (if st = TABLE_NOT_EXIST then create_page_table km pgdir va else ret pt0) (\<lambda>pt.
      bnd (load (word_at pt (PTX va))) (\<lambda>pte.
        if pte AND PERM_PRESENT = PERM_PRESENT \<and> EXTRACT_ADDRESS pte = physical_address then ret ()
        else
          seqm (whenM (pte AND PERM_PRESENT = PERM_PRESENT) (unmap_frame pgdir va))
          (seqm (modify (upd_frame fi (\<lambda>f. f\<lparr>references := references f + 1, fi_va := va\<rparr>)))
            (store (word_at pt (PTX va))
               (CONSTRUCT_ENTRY physical_address (perm OR PERM_PRESENT))))))))"

definition loadtime_map_frame ::
  "(uint32 \<Rightarrow> (kstate, uint32) M) \<Rightarrow> uint32 \<Rightarrow> nat \<Rightarrow> uint32 \<Rightarrow> uint32 \<Rightarrow> (kstate, unit) M" where
  "loadtime_map_frame km pgdir fi va perm =
     bnd (load (word_at pgdir (PDX va))) (\<lambda>pde.
     bnd (table_address va pde) (\<lambda>pt0.
     bnd (if pde = 0 then create_page_table km pgdir va else ret pt0) (\<lambda>pt.
       seqm (modify (upd_frame fi (\<lambda>f. f\<lparr>references := references f + 1\<rparr>)))
         (store (word_at pt (PTX va))
            (CONSTRUCT_ENTRY (to_physical_address fi) (perm OR PERM_PRESENT))))))"

section \<open>Block descriptors\<close>

definition Max_number_of_blocks :: nat where
  "Max_number_of_blocks = 1000000"

definition k_allocate_block :: "(kstate, nat) M" where
  "k_allocate_block = (\<lambda>s. case free_blocks s of
       [] \<Rightarrow> Inl (Panic ''Error no free blocks !!!!'')
     | p # ps \<Rightarrow> Inr (p, s\<lparr>free_blocks := ps\<rparr>))"

definition set_block :: "nat \<Rightarrow> Block_Info \<Rightarrow> kstate \<Rightarrow> kstate" where
  "set_block p b s = s\<lparr>blocks_info := (blocks_info s)(p := b)\<rparr>"

text \<open>The statements that clear a descriptor and put it back on the list of unused ones.\<close>

definition recycle :: "nat \<Rightarrow> kstate \<Rightarrow> kstate" where
  "recycle p s = s\<lparr>blocks_info := (blocks_info s)(p := zero_block),
     free_blocks := p # free_blocks s\<rparr>"

section \<open>Allocation strategies\<close>

text \<open>The loop that backs the pages from \<open>start\<close> on with newly allocated frames.\<close>

definition back_pages :: "(uint32 \<Rightarrow> (kstate, uint32) M) \<Rightarrow> uint32 \<Rightarrow> uint32 \<Rightarrow> (kstate, unit) M" where
  "back_pages km start sz =
     for_n (unat (sz div PAGE_SIZE)) 0 (\<lambda>i.
       bnd (allocate_frame km) (\<lambda>fi.
       bnd (gets ptr_page_directory) (\<lambda>pgdir.
         map_frame km pgdir fi (start + of_nat i * PAGE_SIZE) PERM_WRITEABLE)))"

definition cont_allocation :: "(uint32 \<Rightarrow> (kstate, uint32) M) \<Rightarrow> uint32 \<Rightarrow> (kstate, uint32) M" where
  "cont_allocation km sz =
     (let size = ROUNDUP sz PAGE_SIZE in
      bnd (gets last_va_in_kheap) (\<lambda>last.
        if size \<le> KERNEL_HEAP_MAX - last then
          seqm (back_pages km last size)
          (bnd (gets last_va_in_kheap) (\<lambda>tmp.
           seqm (modify (\<lambda>s. s\<lparr>last_va_in_kheap := last_va_in_kheap s + size\<rparr>))
           (bnd k_allocate_block (\<lambda>ptr.
            seqm (modify (\<lambda>s. (set_block ptr \<lparr>start_va = tmp, blk_size = size\<rparr> s)
                     \<lparr>Block_info_taken_list := ptr # Block_info_taken_list s\<rparr>))
              (ret tmp)))))
        else ret 0))"

text \<open>Cut the requested size from the front of a free block; drop the block when nothing is left.\<close>

definition cut_block :: "nat \<Rightarrow> uint32 \<Rightarrow> kstate \<Rightarrow> kstate" where
  "cut_block b sz s =
     (let bi = blocks_info s b;
          s1 = set_block b \<lparr>start_va = start_va bi + sz, blk_size = blk_size bi - sz\<rparr> s
      in if blk_size bi - sz = 0
         then recycle b (s1\<lparr>Block_info_free_list := remove1 b (Block_info_free_list s1)\<rparr>)
         else s1)"

definition insert_taken_sorted :: "nat \<Rightarrow> (kstate, unit) M" where
  "insert_taken_sorted p = (\<lambda>s. case insert_sorted (blocks_info s) (Block_info_taken_list s) p of
       Inl e \<Rightarrow> Inl e | Inr l \<Rightarrow> Inr ((), s\<lparr>Block_info_taken_list := l\<rparr>))"

definition insert_free_sorted :: "nat \<Rightarrow> (kstate, unit) M" where
  "insert_free_sorted p = (\<lambda>s. case insert_sorted (blocks_info s) (Block_info_free_list s) p of
       Inl e \<Rightarrow> Inl e | Inr l \<Rightarrow> Inr ((), s\<lparr>Block_info_free_list := l\<rparr>))"

definition first_fit_allocation :: "(uint32 \<Rightarrow> (kstate, uint32) M) \<Rightarrow> uint32 \<Rightarrow> (kstate, uint32) M" where
  "first_fit_allocation km sz =
     (let size = ROUNDUP sz PAGE_SIZE in
      bnd (gets (\<lambda>s. find (\<lambda>b. size \<le> blk_size (blocks_info s b)) (Block_info_free_list s))) (\<lambda>found.
        case found of None \<Rightarrow> ret 0
        | Some found \<Rightarrow>
          bnd (gets (\<lambda>s. start_va (blocks_info s found))) (\<lambda>tmp.
          seqm (back_pages km tmp size)
          (bnd (gets (\<lambda>s. start_va (blocks_info s found))) (\<lambda>tmp.
           seqm (modify (cut_block found size))
           (seqm (modify (\<lambda>s. s\<lparr>last_va_in_kheap := last_va_in_kheap s + size\<rparr>))
           (bnd k_allocate_block (\<lambda>ptr.
            seqm (modify (set_block ptr \<lparr>start_va = tmp, blk_size = size\<rparr>))
            (seqm (insert_taken_sorted ptr) (ret tmp))))))))))"

text \<open>
  The search of \<open>next_fit_allocation\<close>: the first block at or after \<open>last_va_in_kheap\<close> that fits
  ends the loop; before that, the lowest block that fits is remembered.
\<close>

fun next_fit_search ::
  "(nat \<Rightarrow> Block_Info) \<Rightarrow> uint32 \<Rightarrow> uint32 \<Rightarrow> nat option \<Rightarrow> nat list \<Rightarrow> nat option \<times> nat option" where
  "next_fit_search bi lst sz bef [] = (None, bef)"
| "next_fit_search bi lst sz bef (b # bs) =
     (if sz \<le> blk_size (bi b) then
        (if lst \<le> start_va (bi b) then (Some b, bef)
         else next_fit_search bi lst sz
                (case bef of None \<Rightarrow> Some b
                 | Some b' \<Rightarrow> if start_va (bi b) \<le> start_va (bi b') then Some b else bef) bs)
      else next_fit_search bi lst sz bef bs)"

definition next_fit_allocation :: "(uint32 \<Rightarrow> (kstate, uint32) M) \<Rightarrow> uint32 \<Rightarrow> (kstate, uint32) M" where
  "next_fit_allocation km sz =
     (let size = ROUNDUP sz PAGE_SIZE in
      bnd (gets (\<lambda>s. next_fit_search (blocks_info s) (last_va_in_kheap s) size None
                       (Block_info_free_list s))) (\<lambda>(aft, bef).
        case (case aft of None \<Rightarrow> bef | Some a \<Rightarrow> Some a) of
          None \<Rightarrow> ret 0
        | Some b \<Rightarrow>
          bnd (gets (\<lambda>s. start_va (blocks_info s b))) (\<lambda>tmp.
          seqm (modify (cut_block b size))
          (seqm (modify (\<lambda>s. s\<lparr>last_va_in_kheap := tmp\<rparr>))
          (seqm (back_pages km tmp size)
          (bnd k_allocate_block (\<lambda>ptr.
           seqm (modify (\<lambda>s. (set_block ptr \<lparr>start_va = tmp, blk_size = size\<rparr> s)
                    \<lparr>Block_info_taken_list := ptr # Block_info_taken_list s\<rparr>))
             (ret tmp))))))))"

section \<open>kmalloc\<close>

definition kmalloc_body :: "(uint32 \<Rightarrow> (kstate, uint32) M) \<Rightarrow> uint32 \<Rightarrow> (kstate, uint32) M" where
  "kmalloc_body km sz =
     bnd (gets KHeapPlacementStrategy) (\<lambda>st.
       case st of
         PLACE_CONTALLOC \<Rightarrow> cont_allocation km sz
       | PLACE_FIRSTFIT \<Rightarrow> first_fit_allocation km sz
       | PLACE_NEXTFIT \<Rightarrow> next_fit_allocation km sz
       | _ \<Rightarrow> ret 0)"

primrec kmalloc_depth :: "nat \<Rightarrow> uint32 \<Rightarrow> (kstate, uint32) M" where
  "kmalloc_depth 0 = (\<lambda>size. raise OutOfFuel)"
| "kmalloc_depth (Suc n) = kmalloc_body (kmalloc_depth n)"

definition kmalloc :: "uint32 \<Rightarrow> (kstate, uint32) M" where
  "kmalloc = kmalloc_depth 3"

section \<open>kfree\<close>

definition Coalescing_heap :: "nat \<Rightarrow> (kstate, unit) M" where
  "Coalescing_heap tk = (\<lambda>s.
     let bi = blocks_info s; fl = Block_info_free_list s; t = bi tk;
         t_end = start_va t + blk_size t;
         (pre, nex) = foreach_pre_nex (\<lambda>curr. start_va (bi curr) \<le> start_va t) None fl;
         nex_ok = (case nex of None \<Rightarrow> None
                   | Some n \<Rightarrow> if t_end = start_va (bi n) then Some n else None);
         pre_ok = (case pre of None \<Rightarrow> None
                   | Some p \<Rightarrow> if start_va (bi p) + blk_size (bi p) = start_va t then Some p else None)
     in
     case (pre_ok, nex_ok) of
       (Some p, Some n) \<Rightarrow>
         Inr ((), recycle n (recycle tk
           ((set_block p ((bi p)\<lparr>blk_size := blk_size (bi p) + (blk_size t + blk_size (bi n))\<rparr>) s)
             \<lparr>Block_info_free_list := remove1 n fl\<rparr>)))
     | (None, Some n) \<Rightarrow>
         Inr ((), recycle tk (set_block n
           \<lparr>start_va = start_va t, blk_size = blk_size (bi n) + blk_size t\<rparr> s))
     | (Some p, None) \<Rightarrow>
         Inr ((), recycle tk (set_block p ((bi p)\<lparr>blk_size := blk_size (bi p) + blk_size t\<rparr>) s))
     | (None, None) \<Rightarrow>
         insert_free_sorted tk
           (if KHeapPlacementStrategy s = PLACE_NEXTFIT \<and> start_va t < last_va_in_kheap s
            then s\<lparr>last_va_in_kheap := start_va t\<rparr> else s))"

definition kfree :: "uint32 \<Rightarrow> (kstate, unit) M" where
  "kfree virtual_address =
     bnd (gets (\<lambda>s. find (\<lambda>b. start_va (blocks_info s b) = virtual_address)
                      (Block_info_taken_list s))) (\<lambda>found.
       case found of None \<Rightarrow> ret ()
       | Some b \<Rightarrow>
         bnd (gets (\<lambda>s. blk_size (blocks_info s b))) (\<lambda>sz.
         bnd (gets ptr_page_directory) (\<lambda>pgdir.
         seqm (for_n (unat (sz div PAGE_SIZE)) 0 (\<lambda>j.
                 unmap_frame pgdir (virtual_address + of_nat j * PAGE_SIZE)))
         (seqm (modify (\<lambda>s. s\<lparr>Block_info_taken_list := remove1 b (Block_info_taken_list s)\<rparr>))
           (Coalescing_heap b)))))"

text \<open>\<open>krealloc\<close> returns NULL in its first statement; the rest of its body is not reached.\<close>

definition krealloc :: "uint32 \<Rightarrow> uint32 \<Rightarrow> (kstate, uint32) M" where
  "krealloc virtual_address new_size = ret 0"

section \<open>Storage of the frames of a shared object\<close>

definition create_frames_storage :: "(kstate, uint32) M" where
  "create_frames_storage =
     bnd (kmalloc PAGE_SIZE) (\<lambda>p.
       if p = 0 then raise (Panic ''NOT ENOUGH KERNEL HEAP SPACE'') else ret p)"

definition add_frame_to_storage :: "uint32 \<Rightarrow> nat \<Rightarrow> uint32 \<Rightarrow> (kstate, unit) M" where
  "add_frame_to_storage frames_storage fi index =
     (let va = index * PAGE_SIZE in
      bnd (get_page_table frames_storage va) (\<lambda>(st, pt0).
      bnd (if st = TABLE_NOT_EXIST then create_page_table kmalloc frames_storage va else ret pt0)
        (\<lambda>pt. store (word_at pt (PTX va)) (CONSTRUCT_ENTRY (to_physical_address fi) PERM_PRESENT))))"

definition get_frame_from_storage :: "uint32 \<Rightarrow> uint32 \<Rightarrow> (kstate, nat option) M" where
  "get_frame_from_storage frames_storage index =
     bnd (get_frame_info frames_storage (index * PAGE_SIZE)) (\<lambda>(fi, pt). ret fi)"

definition clear_frames_storage :: "uint32 \<Rightarrow> (kstate, unit) M" where
  "clear_frames_storage frames_storage =
     for_n 1024 0 (\<lambda>i.
       bnd (load (word_at frames_storage (of_nat i))) (\<lambda>pde.
         whenM (pde \<noteq> 0)
           (bnd (kheap_virtual_address (EXTRACT_ADDRESS pde)) (\<lambda>kva.
            seqm (kfree kva) (store (word_at frames_storage (of_nat i)) 0)))))"

end
