(* ===== verification/Pool.thy ===== *)
theory Pool
  imports Prelude
begin

text \<open>
  The contract of an allocator of numbered resources: what it hands out was available, is not
  available while it is held, and becomes available again when it is given back.  The physical
  frames and the disk frames of the page file are both pools.
\<close>

locale resource_pool =
  fixes inv :: "'s \<Rightarrow> bool"
    and avail :: "'s \<Rightarrow> 'r set"
    and obtains_res :: "'s \<Rightarrow> 'r \<Rightarrow> 's \<Rightarrow> bool"
    and gives_back :: "'r \<Rightarrow> 's \<Rightarrow> 's \<Rightarrow> bool"
  assumes obtain_avail: "inv s \<Longrightarrow> obtains_res s r s' \<Longrightarrow> r \<in> avail s"
    and obtain_rest: "inv s \<Longrightarrow> obtains_res s r s' \<Longrightarrow> avail s' = avail s - {r}"
    and obtain_inv: "inv s \<Longrightarrow> obtains_res s r s' \<Longrightarrow> inv s'"
    and give_avail: "inv s \<Longrightarrow> r \<notin> avail s \<Longrightarrow> gives_back r s s' \<Longrightarrow> avail s' = insert r (avail s)"
    and give_inv: "inv s \<Longrightarrow> r \<notin> avail s \<Longrightarrow> gives_back r s s' \<Longrightarrow> inv s'"
begin

text \<open>A history of the pool with the set of resources its clients hold; only held ones are returned.\<close>

inductive history :: "'s \<Rightarrow> 'r set \<Rightarrow> 's \<Rightarrow> bool" where
  start: "history s {} s"
| obtain_one: "history s H t \<Longrightarrow> obtains_res t r u \<Longrightarrow> history s (insert r H) u"
| give_one: "history s H t \<Longrightarrow> r \<in> H \<Longrightarrow> gives_back r t u \<Longrightarrow> history s (H - {r}) u"

inductive_cases history_obtainE: "history s (insert r H) u"

lemma history_inv:
  assumes "history s H t" and "inv s"
  shows "inv t \<and> H \<inter> avail t = {} \<and> H \<union> avail t = avail s"
  using assms
proof (induction rule: history.induct)
  case (start s)
  then show ?case by simp
next
  case (obtain_one s H t r u)
  then have t: "inv t" "H \<inter> avail t = {}" "H \<union> avail t = avail s" by blast+
  have "avail u = avail t - {r}" and "r \<in> avail t" and "inv u"
    using obtain_avail obtain_rest obtain_inv t(1) obtain_one(2) by metis+
  with t(2,3) show ?case by auto
next
  case (give_one s H t r u)
  then have t: "inv t" "H \<inter> avail t = {}" "H \<union> avail t = avail s" by blast+
  then have "r \<notin> avail t" using give_one(2) by blast
  then have "avail u = insert r (avail t)" and "inv u"
    using give_avail[OF t(1) _ give_one(3)] give_inv[OF t(1) _ give_one(3)] by simp_all
  with t(2,3) give_one(2) show ?case by auto
qed

text \<open>A resource that is held is not handed out a second time.\<close>

lemma never_twice:
  assumes "history s H t" and "inv s" and "obtains_res t r u"
  shows "r \<notin> H"
  using history_inv[OF assms(1,2)] obtain_avail assms(3) by blast

end

end
