(* ===== verification/Paging_Correct.thy ===== *)
theory Paging_Correct
  imports Kheap Pool
begin

text \<open>
  Correctness of the page table operations: what \<open>get_frame_info\<close>, \<open>unmap_frame\<close> and
  \<open>map_frame\<close> do to the entry of a mapped table, and the reference counting invariant they keep:
  a frame's counter is the number of page table entries that refer to it, and exactly the frames
  with counter zero are handed out again.
\<close>

section \<open>Entries\<close>

lemma PPN_EXTRACT [simp]: "PPN (EXTRACT_ADDRESS e) = PPN e"
  by (rule bit_word_eqI) (simp add: PPN_def bit_drop_bit_eq bit_EXTRACT)

text \<open>The frame an entry refers to.\<close>

definition frame_of :: "uint32 \<Rightarrow> nat" where
  "frame_of e = unat (PPN e)"

lemma unat_PPN: "unat (PPN a) = unat a div 4096"
  unfolding PPN_def unat_drop_bit_eq by (simp add: drop_bit_eq_div)

lemma frame_of_less: "frame_of e < 2 ^ 20"
proof -
  have "unat e < 2 ^ 32" using unsigned_less[of e] by simp
  then show ?thesis by (simp add: frame_of_def unat_PPN)
qed

lemma unat_to_physical_address:
  assumes "fi < 2 ^ 20"
  shows "unat (to_physical_address fi) = fi * 4096"
proof -
  have "to_physical_address fi = of_nat (fi * 4096)"
    by (simp add: to_physical_address_def push_bit_eq_mult)
  moreover have "fi * 4096 < 2 ^ 32" using assms by simp
  ultimately show ?thesis by (simp add: unsigned_of_nat take_bit_nat_eq_self del: of_nat_mult)
qed

lemma to_physical_address_aligned: "to_physical_address fi AND 0xFFF = 0"
  unfolding and_0xFFF to_physical_address_def
  by (rule bit_word_eqI) (simp add: bit_simps)

lemma PPN_to_physical_address:
  assumes "fi < 2 ^ 20"
  shows "PPN (to_physical_address fi) = of_nat fi"
  using assms by (intro word_unat_eq_iff[THEN iffD2])
    (simp add: unat_PPN unat_to_physical_address unsigned_of_nat take_bit_nat_eq_self)

text \<open>Permissions are the low twelve bits of an entry.\<close>

definition perm_bits :: "uint32 \<Rightarrow> bool" where
  "perm_bits p \<longleftrightarrow> p AND NOT 0xFFF = 0"

lemma perm_bits_present: "perm_bits p \<Longrightarrow> perm_bits (p OR PERM_PRESENT)"
  by (simp add: perm_bits_def PERM_PRESENT_def bit.conj_disj_distrib2)

lemma EXTRACT_entry:
  assumes "perm_bits p"
  shows "EXTRACT_ADDRESS (CONSTRUCT_ENTRY (to_physical_address fi) p) = to_physical_address fi"
    and "CONSTRUCT_ENTRY (to_physical_address fi) p AND 0xFFF = p"
  using EXTRACT_CONSTRUCT[OF to_physical_address_aligned, of p] assms by (simp_all add: perm_bits_def)

lemma frame_of_entry:
  assumes "perm_bits p" and "fi < 2 ^ 20"
  shows "frame_of (CONSTRUCT_ENTRY (to_physical_address fi) p) = fi"
proof -
  have "PPN (CONSTRUCT_ENTRY (to_physical_address fi) p) = of_nat fi"
    using EXTRACT_entry(1)[OF assms(1), of fi] PPN_to_physical_address[OF assms(2)]
    by (metis PPN_EXTRACT)
  with assms(2) show ?thesis by (simp add: frame_of_def unsigned_of_nat take_bit_nat_eq_self)
qed

lemma entry_present: "CONSTRUCT_ENTRY pa (p OR PERM_PRESENT) AND PERM_PRESENT = PERM_PRESENT"
  by (simp add: CONSTRUCT_ENTRY_def bit.conj_disj_distrib2 PERM_PRESENT_def or.assoc[symmetric])

lemma entry_nonzero: "e AND PERM_PRESENT = PERM_PRESENT \<Longrightarrow> e \<noteq> 0"
  by (auto simp: PERM_PRESENT_def)

lemma EXTRACT_eq_iff:
  assumes "fi < 2 ^ 20"
  shows "EXTRACT_ADDRESS e = to_physical_address fi \<longleftrightarrow> frame_of e = fi"
proof
  assume "EXTRACT_ADDRESS e = to_physical_address fi"
  then have "PPN e = of_nat fi" using PPN_to_physical_address[OF assms] by (metis PPN_EXTRACT)
  then show "frame_of e = fi"
    using assms by (simp add: frame_of_def unsigned_of_nat take_bit_nat_eq_self)
next
  assume f: "frame_of e = fi"
  show "EXTRACT_ADDRESS e = to_physical_address fi"
  proof (rule bit_word_eqI)
    fix n assume n: "n < LENGTH(32)"
    have "to_physical_address fi = push_bit 12 (PPN e)"
      using f by (auto simp: to_physical_address_def frame_of_def)
    then show "bit (EXTRACT_ADDRESS e) n \<longleftrightarrow> bit (to_physical_address fi) n"
      using n by (auto simp: bit_EXTRACT PPN_def bit_push_bit_iff bit_drop_bit_eq)
  qed
qed

section \<open>The slot of a virtual address\<close>

text \<open>
  The address of the page table entry of \<open>va\<close>, when its table is in memory and all the reads on
  the way are of valid addresses.
\<close>

definition table_of :: "uint32 \<Rightarrow> uint32 \<Rightarrow> kstate \<Rightarrow> uint32 option" where
  "table_of pgdir va s =
     (let a = word_at pgdir (PDX va); e = kmem s a in
      if a < PAGE_SIZE \<or> e AND PERM_PRESENT \<noteq> PERM_PRESENT then None
      else (case table_address va e s of Inl err \<Rightarrow> None | Inr (pt, s') \<Rightarrow> Some pt))"

definition slot :: "uint32 \<Rightarrow> uint32 \<Rightarrow> kstate \<Rightarrow> uint32 option" where
  "slot pgdir va s = (case table_of pgdir va s of None \<Rightarrow> None
     | Some pt \<Rightarrow> if pt = 0 \<or> word_at pt (PTX va) < PAGE_SIZE then None
                  else Some (word_at pt (PTX va)))"

lemma table_address_state [simp]: "table_address va e s = Inr (pt, s') \<Longrightarrow> s' = s"
  by (auto simp: table_address_def kheap_virtual_address_def STATIC_KERNEL_VIRTUAL_ADDRESS_def
      split: if_splits)

lemma table_of_get_page_table:
  assumes "table_of pgdir va s = Some pt"
  shows "get_page_table pgdir va s = Inr ((TABLE_IN_MEMORY, pt), s)"
  using assms table_address_state
  by (fastforce simp: table_of_def get_page_table_def Let_def bnd_apply load_def
      split: if_splits sum.splits)

lemma slotE:
  assumes "slot pgdir va s = Some w"
  obtains pt where "table_of pgdir va s = Some pt" and "pt \<noteq> 0" and "w = word_at pt (PTX va)"
    and "PAGE_SIZE \<le> w" and "get_page_table pgdir va s = Inr ((TABLE_IN_MEMORY, pt), s)"
  using assms table_of_get_page_table by (auto simp: slot_def not_less split: option.splits if_splits)

lemma get_frame_info_slot:
  assumes "slot pgdir va s = Some w" and "kmem s w \<noteq> 0 \<Longrightarrow> frame_of (kmem s w) < unat (number_of_frames s)"
  obtains pt where "get_frame_info pgdir va s =
      Inr ((if kmem s w = 0 then None else Some (frame_of (kmem s w)), pt), s)"
    and "w = word_at pt (PTX va)" and "pt \<noteq> 0"
proof -
  from slotE[OF assms(1)] obtain pt where pt: "pt \<noteq> 0" "w = word_at pt (PTX va)" "PAGE_SIZE \<le> w"
    "get_page_table pgdir va s = Inr ((TABLE_IN_MEMORY, pt), s)" by blast
  have "\<not> number_of_frames s \<le> PPN (kmem s w)" if "kmem s w \<noteq> 0"
    using assms(2)[OF that] by (simp add: frame_of_def word_le_nat_alt not_le)
  moreover have "PAGE_SIZE \<le> word_at pt (PTX va)" using pt(2,3) by simp
  ultimately have "get_frame_info pgdir va s =
      Inr ((if kmem s w = 0 then None else Some (frame_of (kmem s w)), pt), s)"
    using pt(1,2,4) by (simp add: get_frame_info_def bnd_apply to_frame_info_def frame_of_def)
  with pt that show ?thesis by blast
qed

section \<open>Unmapping\<close>

text \<open>One reference less; the frame goes back to the free list when it was the last.\<close>

definition dec_ref :: "nat \<Rightarrow> kstate \<Rightarrow> kstate" where
  "dec_ref f s =
     (if references (frames_info s f) = 1
      then s\<lparr>frames_info := (frames_info s)(f := zero_frame_info), free_frame_list := f # free_frame_list s\<rparr>
      else s\<lparr>frames_info := (frames_info s)(f := (frames_info s f)
              \<lparr>references := references (frames_info s f) - 1\<rparr>)\<rparr>)"

lemma decrement_references_eq: "decrement_references f s = Inr ((), dec_ref f s)"
proof -
  have "references (frames_info s f) - 1 = 0 \<longleftrightarrow> references (frames_info s f) = 1" by simp
  then show ?thesis
    by (auto simp: decrement_references_def dec_ref_def free_frame_def initialize_frame_info_def
        upd_frame_def)
qed

lemma dec_ref_simps [simp]:
  "kmem (dec_ref f s) = kmem s" "number_of_frames (dec_ref f s) = number_of_frames s"
  "hw (dec_ref f s) = hw s"
  by (simp_all add: dec_ref_def)

lemma unmap_frame_slot:
  assumes w: "slot pgdir va s = Some w" and "kmem s w \<noteq> 0"
    and "frame_of (kmem s w) < unat (number_of_frames s)"
  shows "unmap_frame pgdir va s =
    Inr ((), emit (Tlb_invalidate va) ((dec_ref (frame_of (kmem s w)) s)\<lparr>kmem := (kmem s)(w := 0)\<rparr>))"
proof -
  from get_frame_info_slot[OF w assms(3)] obtain pt where
    g: "get_frame_info pgdir va s = Inr ((if kmem s w = 0 then None else Some (frame_of (kmem s w)), pt), s)"
    and pt: "w = word_at pt (PTX va)" by blast
  have "PAGE_SIZE \<le> w" using slotE[OF w] by blast
  then show ?thesis
    using g assms(2) pt
    by (simp add: unmap_frame_def bnd_apply seqm_def decrement_references_eq store_def not_less[symmetric]
        tlb_invalidate_def)
qed

lemma unmap_frame_empty:
  assumes "slot pgdir va s = Some w" and "kmem s w = 0"
  shows "unmap_frame pgdir va s = Inr ((), s)"
proof -
  obtain pt where "get_frame_info pgdir va s =
      Inr ((if kmem s w = 0 then None else Some (frame_of (kmem s w)), pt), s)"
    by (rule get_frame_info_slot[OF assms(1)]) (use assms(2) in blast)+
  with assms(2) show ?thesis by (simp add: unmap_frame_def)
qed

section \<open>Mapping\<close>

definition inc_ref :: "nat \<Rightarrow> uint32 \<Rightarrow> kstate \<Rightarrow> kstate" where
  "inc_ref fi va s = upd_frame fi (\<lambda>f. f\<lparr>references := references f + 1, fi_va := va\<rparr>) s"

lemma inc_ref_simps [simp]:
  "kmem (inc_ref fi va s) = kmem s" "number_of_frames (inc_ref fi va s) = number_of_frames s"
  "free_frame_list (inc_ref fi va s) = free_frame_list s"
  by (simp_all add: inc_ref_def upd_frame_def)

lemma map_frame_slot:
  assumes w: "slot pgdir va s = Some w" and fi: "fi < 2 ^ 20"
    and fr: "kmem s w AND PERM_PRESENT = PERM_PRESENT \<Longrightarrow> frame_of (kmem s w) < unat (number_of_frames s)"
  shows "map_frame km pgdir fi va perm s =
    (if kmem s w AND PERM_PRESENT = PERM_PRESENT \<and> frame_of (kmem s w) = fi then Inr ((), s)
     else let s1 = (if kmem s w AND PERM_PRESENT = PERM_PRESENT
                    then emit (Tlb_invalidate va) ((dec_ref (frame_of (kmem s w)) s)\<lparr>kmem := (kmem s)(w := 0)\<rparr>)
                    else s)
          in Inr ((), (inc_ref fi va s1)\<lparr>kmem := (kmem s1)(w :=
                CONSTRUCT_ENTRY (to_physical_address fi) (perm OR PERM_PRESENT))\<rparr>))"
proof -
  from slotE[OF w] obtain pt where pt: "w = word_at pt (PTX va)" "PAGE_SIZE \<le> w"
    "get_page_table pgdir va s = Inr ((TABLE_IN_MEMORY, pt), s)" by blast
  note g = pt(3)
  have pge: "PAGE_SIZE \<le> word_at pt (PTX va)" using pt(1,2) by simp
  show ?thesis
  proof (cases "kmem s w AND PERM_PRESENT = PERM_PRESENT")
    case True
    note un = unmap_frame_slot[OF w entry_nonzero[OF True] fr[OF True]]
    show ?thesis
      using True un pge
      by (simp add: map_frame_def g Let_def EXTRACT_eq_iff[OF fi] pt(1) seqm_def bnd_apply
          inc_ref_def emit_def)
  next
    case False
    then show ?thesis using pge
      by (simp add: map_frame_def g Let_def pt(1) seqm_def bnd_apply inc_ref_def)
  qed
qed

section \<open>Reference counts\<close>

text \<open>
  \<open>T\<close> is the set of the page table slots of all address spaces (the addresses of their entries),
  \<open>R\<close> the frames reserved at boot, whose counters mean nothing, and \<open>A\<close> the frames that have
  been allocated and are not mapped yet.  In a state with \<open>refs_inv T R A\<close> the counter of every
  other frame is the number of slots that refer to it, and the frames with counter zero are
  exactly the free ones and those of \<open>A\<close>: no frame is lost and none is free while it is mapped.
\<close>

definition mapped :: "uint32 set \<Rightarrow> (uint32 \<Rightarrow> uint32) \<Rightarrow> nat \<Rightarrow> uint32 set" where
  "mapped T m f = {a \<in> T. m a \<noteq> 0 \<and> frame_of (m a) = f}"

definition frame_ok :: "nat set \<Rightarrow> kstate \<Rightarrow> nat \<Rightarrow> bool" where
  "frame_ok R s f \<longleftrightarrow> f < unat (number_of_frames s) \<and> f \<notin> R"

definition refs_inv :: "uint32 set \<Rightarrow> nat set \<Rightarrow> nat set \<Rightarrow> kstate \<Rightarrow> bool" where
  "refs_inv T R A s \<longleftrightarrow>
     finite T \<and> unat (number_of_frames s) \<le> 2 ^ 20 \<and>
     (\<forall>a\<in>T. kmem s a \<noteq> 0 \<longrightarrow>
        kmem s a AND PERM_PRESENT = PERM_PRESENT \<and> frame_ok R s (frame_of (kmem s a))) \<and>
     distinct (free_frame_list s) \<and> set (free_frame_list s) \<inter> A = {} \<and>
     (\<forall>f\<in>set (free_frame_list s) \<union> A. frame_ok R s f) \<and>
     (\<forall>f\<in>set (free_frame_list s). \<not> isBuffered (frames_info s f)) \<and>
     (\<forall>f. frame_ok R s f \<longrightarrow> unat (references (frames_info s f)) = card (mapped T (kmem s) f)) \<and>
     (\<forall>f. frame_ok R s f \<longrightarrow>
        (references (frames_info s f) = 0 \<longleftrightarrow> f \<in> set (free_frame_list s) \<union> A))"

lemma mapped_upd:
  assumes "w \<in> T"
  shows "mapped T (m(w := e)) f =
    (if e \<noteq> 0 \<and> frame_of e = f then insert w (mapped T m f) else mapped T m f - {w})"
  using assms by (auto simp: mapped_def)

lemma finite_mapped: "finite T \<Longrightarrow> finite (mapped T m f)"
  by (simp add: mapped_def)

lemma refs_invD:
  assumes "refs_inv T R A s"
  shows "finite T" and "unat (number_of_frames s) \<le> 2 ^ 20" and "distinct (free_frame_list s)"
    and "set (free_frame_list s) \<inter> A = {}"
    and "a \<in> T \<Longrightarrow> kmem s a \<noteq> 0 \<Longrightarrow> kmem s a AND PERM_PRESENT = PERM_PRESENT"
    and "a \<in> T \<Longrightarrow> kmem s a \<noteq> 0 \<Longrightarrow> frame_ok R s (frame_of (kmem s a))"
    and "f \<in> set (free_frame_list s) \<union> A \<Longrightarrow> frame_ok R s f"
    and "frame_ok R s f \<Longrightarrow> unat (references (frames_info s f)) = card (mapped T (kmem s) f)"
    and "frame_ok R s f \<Longrightarrow>
      references (frames_info s f) = 0 \<longleftrightarrow> f \<in> set (free_frame_list s) \<union> A"
    and "f \<in> set (free_frame_list s) \<Longrightarrow> \<not> isBuffered (frames_info s f)"
  using assms unfolding refs_inv_def by blast+

lemma refs_inv_emit [simp]: "refs_inv T R A (emit ev s) = refs_inv T R A s"
  by (simp add: refs_inv_def frame_ok_def)

lemma mapped_positive:
  assumes inv: "refs_inv T R A s" and "w \<in> T" and "kmem s w \<noteq> 0"
  defines "f \<equiv> frame_of (kmem s w)"
  shows "frame_ok R s f" and "w \<in> mapped T (kmem s) f" and "references (frames_info s f) \<noteq> 0"
    and "f \<notin> set (free_frame_list s) \<union> A"
proof -
  show ok: "frame_ok R s f" using refs_invD(6)[OF inv assms(2,3)] by (simp add: f_def)
  show m: "w \<in> mapped T (kmem s) f" using assms(2,3) by (simp add: mapped_def f_def)
  then have "card (mapped T (kmem s) f) \<noteq> 0"
    using finite_mapped[OF refs_invD(1)[OF inv]] by auto
  then show r: "references (frames_info s f) \<noteq> 0" using refs_invD(8)[OF inv ok] by auto
  then show "f \<notin> set (free_frame_list s) \<union> A" using refs_invD(9)[OF inv ok] by simp
qed

lemma refs_inv_clear:
  assumes inv: "refs_inv T R A s" and w: "w \<in> T" "kmem s w \<noteq> 0"
  shows "refs_inv T R A ((dec_ref (frame_of (kmem s w)) s)\<lparr>kmem := (kmem s)(w := 0)\<rparr>)"
proof -
  let ?g = "frame_of (kmem s w)"
  note g = mapped_positive[OF inv w]
  note fin = finite_mapped[OF refs_invD(1)[OF inv], of "kmem s"]
  have card_g: "card (mapped T ((kmem s)(w := 0)) ?g) = unat (references (frames_info s ?g)) - 1"
    using g(2) fin refs_invD(8)[OF inv g(1)] by (simp add: mapped_upd[OF w(1)])
  have other: "mapped T ((kmem s)(w := 0)) f = mapped T (kmem s) f" if "f \<noteq> ?g" for f
    using that by (auto simp: mapped_def)
  have pos: "unat (references (frames_info s ?g)) \<noteq> 0" using g(3) by (simp add: unat_eq_0)
  show ?thesis
  proof (cases "references (frames_info s ?g) = 1")
    case True
    then have "card (mapped T ((kmem s)(w := 0)) ?g) = 0" using card_g by simp
    then show ?thesis
      using inv True g(1,4) other
      by (auto simp: refs_inv_def dec_ref_def frame_ok_def zero_frame_info_def)
  next
    case False
    have u: "unat (references (frames_info s ?g) - 1) = unat (references (frames_info s ?g)) - 1"
      by (rule unat_minus_one[OF g(3)])
    have "references (frames_info s ?g) - 1 \<noteq> 0" using False by simp
    then show ?thesis
      using inv False g(1,3,4) other u card_g
      by (auto simp: refs_inv_def dec_ref_def frame_ok_def)
  qed
qed

lemma refs_inv_set:
  assumes inv: "refs_inv T R A s" and w: "w \<in> T" "kmem s w = 0"
    and fi: "frame_ok R s fi" "fi \<notin> set (free_frame_list s)" "card (mapped T (kmem s) fi) < 65535"
    and e: "e AND PERM_PRESENT = PERM_PRESENT" "frame_of e = fi"
  shows "refs_inv T R (A - {fi}) ((inc_ref fi va s)\<lparr>kmem := (kmem s)(w := e)\<rparr>)"
proof -
  let ?r = "references (frames_info s fi)"
  have r: "unat ?r = card (mapped T (kmem s) fi)" by (rule refs_invD(8)[OF inv fi(1)])
  with fi(3) have u: "unat (?r + 1) = unat ?r + 1" by (subst word_add_le_unat) simp_all
  then have nz: "?r + 1 \<noteq> 0" by (metis Suc_eq_plus1 nat.distinct(1) unsigned_0)
  have nm: "w \<notin> mapped T (kmem s) fi" using w(2) by (simp add: mapped_def)
  have e0: "e \<noteq> 0" by (rule entry_nonzero[OF e(1)])
  have card_fi: "card (mapped T ((kmem s)(w := e)) fi) = unat (?r + 1)"
    using nm e0 e(2) r u finite_mapped[OF refs_invD(1)[OF inv], of "kmem s" fi]
    by (simp add: mapped_upd[OF w(1)])
  have other: "mapped T ((kmem s)(w := e)) f = mapped T (kmem s) f" if "f \<noteq> fi" for f
    using that e(2) w(2) by (auto simp: mapped_def)
  show ?thesis
    using inv fi(1,2) nz card_fi other e
    by (auto simp: refs_inv_def inc_ref_def upd_frame_def frame_ok_def)
qed

lemma refs_inv_mono_kmem_outside:
  assumes "refs_inv T R A s" and "a \<notin> T"
  shows "refs_inv T R A (s\<lparr>kmem := (kmem s)(a := v)\<rparr>)"
proof -
  have "mapped T ((kmem s)(a := v)) f = mapped T (kmem s) f" for f
    using assms(2) by (auto simp: mapped_def)
  with assms show ?thesis by (auto simp: refs_inv_def frame_ok_def)
qed

section \<open>The operations keep the reference counts\<close>

lemma unmap_frame_refs:
  assumes inv: "refs_inv T R A s" and w: "slot pgdir va s = Some w" "w \<in> T"
  shows "\<exists>s'. unmap_frame pgdir va s = Inr ((), s') \<and> refs_inv T R A s' \<and> kmem s' = (kmem s)(w := 0)"
proof (cases "kmem s w = 0")
  case True
  then have "kmem s = (kmem s)(w := 0)" by auto
  with unmap_frame_empty[OF w(1) True] inv show ?thesis by metis
next
  case False
  have "frame_of (kmem s w) < unat (number_of_frames s)"
    using refs_invD(6)[OF inv w(2) False] by (simp add: frame_ok_def)
  from unmap_frame_slot[OF w(1) False this] refs_inv_clear[OF inv w(2) False] show ?thesis by simp
qed

lemma map_frame_refs:
  assumes inv: "refs_inv T R A s" and w: "slot pgdir va s = Some w" "w \<in> T"
    and fi: "frame_ok R s fi" "fi \<notin> set (free_frame_list s)" "card (mapped T (kmem s) fi) < 65535"
    and perm: "perm_bits perm" and other: "frame_of (kmem s w) \<noteq> fi \<or> kmem s w = 0"
  shows "\<exists>s'. map_frame km pgdir fi va perm s = Inr ((), s') \<and> refs_inv T R (A - {fi}) s' \<and>
    kmem s' = (kmem s)(w := CONSTRUCT_ENTRY (to_physical_address fi) (perm OR PERM_PRESENT))"
proof -
  let ?e = "CONSTRUCT_ENTRY (to_physical_address fi) (perm OR PERM_PRESENT)"
  have lt: "fi < 2 ^ 20" using fi(1) refs_invD(2)[OF inv] by (simp add: frame_ok_def)
  have e: "?e AND PERM_PRESENT = PERM_PRESENT" "frame_of ?e = fi"
    using entry_present frame_of_entry[OF perm_bits_present[OF perm] lt] by simp_all
  have fr: "frame_of (kmem s w) < unat (number_of_frames s)"
    if "kmem s w AND PERM_PRESENT = PERM_PRESENT"
    using refs_invD(6)[OF inv w(2) entry_nonzero[OF that]] by (simp add: frame_ok_def)
  note eq = map_frame_slot[OF w(1) lt fr, of km perm]
  show ?thesis
  proof (cases "kmem s w = 0")
    case True
    then have "\<not> kmem s w AND PERM_PRESENT = PERM_PRESENT" by (auto simp: PERM_PRESENT_def)
    then show ?thesis using eq refs_inv_set[OF inv w(2) True fi e, of va] by simp
  next
    case False
    have p: "kmem s w AND PERM_PRESENT = PERM_PRESENT" by (rule refs_invD(5)[OF inv w(2) False])
    let ?g = "frame_of (kmem s w)"
    let ?s0 = "(dec_ref ?g s)\<lparr>kmem := (kmem s)(w := 0)\<rparr>"
    let ?s1 = "emit (Tlb_invalidate va) ?s0"
    have g: "?g \<noteq> fi" using other False by simp
    have i1: "refs_inv T R A ?s1" using refs_inv_clear[OF inv w(2) False] by simp
    have k1: "kmem ?s1 w = 0" by simp
    have "frame_ok R ?s1 fi" using fi(1) by (simp add: frame_ok_def)
    moreover have "fi \<notin> set (free_frame_list ?s1)" using fi(2) g by (simp add: dec_ref_def)
    moreover have "mapped T (kmem ?s1) fi = mapped T (kmem s) fi" using g by (auto simp: mapped_def)
    ultimately have "refs_inv T R (A - {fi}) ((inc_ref fi va ?s1)\<lparr>kmem := (kmem ?s1)(w := ?e)\<rparr>)"
      using refs_inv_set[OF i1 w(2) k1 _ _ _ e] fi(3) by simp
    then show ?thesis using eq p g by (simp add: Let_def)
  qed
qed

text \<open>
  A frame that is handed out is not mapped anywhere: nobody can still read or write it.
\<close>

lemma allocate_frame_free:
  assumes inv: "refs_inv T R A s" and ne: "free_frame_list s = fi # fl"
  shows "allocate_frame km s = Inr (fi, (upd_frame fi (\<lambda>_. zero_frame_info) s)\<lparr>free_frame_list := fl\<rparr>)"
proof -
  have "\<not> isBuffered (frames_info s fi)" by (rule refs_invD(10)[OF inv]) (simp add: ne)
  then show ?thesis
    by (simp add: allocate_frame_def bnd_apply seqm_def ne initialize_frame_info_def upd_frame_def)
qed

lemma allocate_frame_refs:
  assumes inv: "refs_inv T R A s" and ne: "free_frame_list s = fi # fl"
  shows "\<exists>s'. allocate_frame km s = Inr (fi, s') \<and> refs_inv T R (insert fi A) s' \<and>
    free_frame_list s' = fl \<and> mapped T (kmem s') fi = {} \<and> fi \<notin> A \<and> kmem s' = kmem s"
proof -
  let ?s' = "(upd_frame fi (\<lambda>_. zero_frame_info) s)\<lparr>free_frame_list := fl\<rparr>"
  have mem: "fi \<in> set (free_frame_list s) \<union> A" by (simp add: ne)
  have ok: "frame_ok R s fi" by (rule refs_invD(7)[OF inv mem])
  have r0: "references (frames_info s fi) = 0" using refs_invD(9)[OF inv ok] mem by simp
  then have "card (mapped T (kmem s) fi) = 0" using refs_invD(8)[OF inv ok] by simp
  then have m: "mapped T (kmem s) fi = {}" using finite_mapped[OF refs_invD(1)[OF inv]] by simp
  have "fi \<notin> A" using refs_invD(4)[OF inv] by (auto simp: ne)
  moreover have "refs_inv T R (insert fi A) ?s'"
    using inv ok r0 m \<open>fi \<notin> A\<close> by (auto simp: refs_inv_def upd_frame_def frame_ok_def ne zero_frame_info_def)
  ultimately show ?thesis using allocate_frame_free[OF inv ne] m by simp
qed

section \<open>The disk frames are a pool\<close>

definition disk_inv :: "kstate \<Rightarrow> bool" where
  "disk_inv s \<longleftrightarrow> distinct (disk_free_frame_list s) \<and>
     set (disk_free_frame_list s) \<subseteq> {1..<PAGES_PER_FILE}"

definition disk_obtains :: "kstate \<Rightarrow> nat \<Rightarrow> kstate \<Rightarrow> bool" where
  "disk_obtains s d s' \<longleftrightarrow> allocate_disk_frame s = Inr (Some d, s')"

definition disk_gives :: "nat \<Rightarrow> kstate \<Rightarrow> kstate \<Rightarrow> bool" where
  "disk_gives d s s' \<longleftrightarrow> d \<in> {1..<PAGES_PER_FILE} \<and> free_disk_frame (of_nat d) s = Inr ((), s')"

lemma disk_number:
  assumes "d \<in> {1..<PAGES_PER_FILE}"
  shows "unat (of_nat d :: uint32) = d" and "(of_nat d :: uint32) \<noteq> 0"
proof -
  have "d < 2 ^ 32" using assms by (simp add: PAGES_PER_FILE_def)
  then show u: "unat (of_nat d :: uint32) = d" by (simp add: unsigned_of_nat take_bit_nat_eq_self)
  show "(of_nat d :: uint32) \<noteq> 0" using u assms by (metis atLeastLessThan_iff not_one_le_zero unsigned_0)
qed

lemma free_disk_frame_eq:
  assumes "d \<in> {1..<PAGES_PER_FILE}"
  shows "free_disk_frame (of_nat d) s =
    Inr ((), s\<lparr>disk_free_frame_list := d # disk_free_frame_list s\<rparr>)"
  using disk_number[OF assms] by (simp add: free_disk_frame_def)

interpretation disk_pool: resource_pool disk_inv "\<lambda>s. set (disk_free_frame_list s)"
  disk_obtains disk_gives
proof unfold_locales
  fix s r s' assume i: "disk_inv s" and o: "disk_obtains s r s'"
  then obtain ds where ds: "disk_free_frame_list s = r # ds" "s' = s\<lparr>disk_free_frame_list := ds\<rparr>"
    by (auto simp: disk_obtains_def allocate_disk_frame_def split: list.splits)
  with i show "r \<in> set (disk_free_frame_list s)"
    and "set (disk_free_frame_list s') = set (disk_free_frame_list s) - {r}" and "disk_inv s'"
    by (auto simp: disk_inv_def)
next
  fix s r s' assume i: "disk_inv s" and n: "r \<notin> set (disk_free_frame_list s)" and g: "disk_gives r s s'"
  then have "s' = s\<lparr>disk_free_frame_list := r # disk_free_frame_list s\<rparr>" and "r \<in> {1..<PAGES_PER_FILE}"
    using free_disk_frame_eq by (auto simp: disk_gives_def)
  with i n show "set (disk_free_frame_list s') = insert r (set (disk_free_frame_list s))"
    and "disk_inv s'" by (auto simp: disk_inv_def)
qed

lemma initialize_disk_inv:
  "\<exists>s'. initialize_disk_page_file s = Inr ((), s') \<and> disk_inv s' \<and>
     set (disk_free_frame_list s') = {1..<PAGES_PER_FILE}"
proof -
  have "fold (\<lambda>i l. i # l) xs ys = rev xs @ ys" for xs ys :: "nat list"
    by (induction xs arbitrary: ys) auto
  then show ?thesis by (simp add: initialize_disk_page_file_def disk_inv_def)
qed

end
