(* ===== verification/Kheap_Pages.thy ===== *)
theory Kheap_Pages
  imports Paging_Correct
begin

text \<open>
  The page tables under the kernel heap: which slot belongs to which heap page, and the loops of
  \<open>kmalloc\<close> and \<open>kfree\<close> that back a block with frames and give the frames back.
\<close>

section \<open>Heap pages and their slots\<close>

definition heap_page :: "uint32 \<Rightarrow> bool" where
  "heap_page v \<longleftrightarrow> v AND 0xFFF = 0 \<and> KERNEL_HEAP_START \<le> v \<and> v < KERNEL_HEAP_MAX"

text \<open>
  \<open>K\<close> gives the slot of every heap page: the page tables of the kernel heap exist (they are created
  at boot), different pages have different slots, and no slot is a word of the page directory.
\<close>

definition kslots :: "(uint32 \<Rightarrow> uint32) \<Rightarrow> kstate \<Rightarrow> bool" where
  "kslots K s \<longleftrightarrow>
     (\<forall>v. heap_page v \<longrightarrow> slot (ptr_page_directory s) v s = Some (K v)) \<and>
     inj_on K {v. heap_page v} \<and>
     (\<forall>v w. heap_page v \<longrightarrow> K v \<noteq> word_at (ptr_page_directory s) (PDX w))"

text \<open>Everything but page table entries, frame descriptors, the free frames and the trace.\<close>

definition same_rest :: "kstate \<Rightarrow> kstate \<Rightarrow> bool" where
  "same_rest s s' \<longleftrightarrow>
     s'\<lparr>kmem := kmem s, frames_info := frames_info s, free_frame_list := free_frame_list s,
       hw := hw s\<rparr> = s"

lemma same_restD:
  assumes "same_rest s s'"
  shows "ptr_page_directory s' = ptr_page_directory s" "number_of_frames s' = number_of_frames s"
    "blocks_info s' = blocks_info s" "Block_info_free_list s' = Block_info_free_list s"
    "Block_info_taken_list s' = Block_info_taken_list s" "free_blocks s' = free_blocks s"
    "last_va_in_kheap s' = last_va_in_kheap s" "KHeapPlacementStrategy s' = KHeapPlacementStrategy s"
    "envs s' = envs s" "curenv s' = curenv s" "frame_data s' = frame_data s" "disk_data s' = disk_data s"
  using arg_cong[OF assms[unfolded same_rest_def], of ptr_page_directory]
    arg_cong[OF assms[unfolded same_rest_def], of number_of_frames]
    arg_cong[OF assms[unfolded same_rest_def], of blocks_info]
    arg_cong[OF assms[unfolded same_rest_def], of Block_info_free_list]
    arg_cong[OF assms[unfolded same_rest_def], of Block_info_taken_list]
    arg_cong[OF assms[unfolded same_rest_def], of free_blocks]
    arg_cong[OF assms[unfolded same_rest_def], of last_va_in_kheap]
    arg_cong[OF assms[unfolded same_rest_def], of KHeapPlacementStrategy]
    arg_cong[OF assms[unfolded same_rest_def], of envs]
    arg_cong[OF assms[unfolded same_rest_def], of curenv]
    arg_cong[OF assms[unfolded same_rest_def], of frame_data]
    arg_cong[OF assms[unfolded same_rest_def], of disk_data]
  by simp_all

lemma same_rest_refl [simp]: "same_rest s s"
  by (simp add: same_rest_def)

lemma same_rest_trans:
  assumes "same_rest s t" and "same_rest t u"
  shows "same_rest s u"
proof -
  have "u\<lparr>kmem := kmem s, frames_info := frames_info s, free_frame_list := free_frame_list s, hw := hw s\<rparr> =
      (u\<lparr>kmem := kmem t, frames_info := frames_info t, free_frame_list := free_frame_list t, hw := hw t\<rparr>)
        \<lparr>kmem := kmem s, frames_info := frames_info s, free_frame_list := free_frame_list s, hw := hw s\<rparr>"
    by simp
  also have "\<dots> = t\<lparr>kmem := kmem s, frames_info := frames_info s, free_frame_list := free_frame_list s, hw := hw s\<rparr>"
    using assms(2) by (simp only: same_rest_def)
  also have "\<dots> = s" using assms(1) by (simp only: same_rest_def)
  finally show ?thesis by (simp only: same_rest_def)
qed

lemma same_rest_updates [simp]:
  "same_rest s (s\<lparr>kmem := m\<rparr>)" "same_rest s (s\<lparr>frames_info := f\<rparr>)"
  "same_rest s (s\<lparr>free_frame_list := l\<rparr>)" "same_rest s (s\<lparr>hw := h\<rparr>)"
  by (simp_all add: same_rest_def)

lemma same_rest_upd_frame [simp]: "same_rest s (upd_frame f g s)"
  by (simp add: upd_frame_def)

lemma same_rest_dec_ref [simp]: "same_rest s (dec_ref f s)"
  by (simp add: dec_ref_def same_rest_def)

lemma same_rest_kmem: "same_rest s t \<Longrightarrow> same_rest s (t\<lparr>kmem := m\<rparr>)"
  by (erule same_rest_trans) simp

lemma same_rest_emit: "same_rest s t \<Longrightarrow> same_rest s (emit ev t)"
  by (erule same_rest_trans) (simp add: emit_def)

lemma heap_page_kernel: "heap_page v \<Longrightarrow> CHECK_IF_KERNEL_ADDRESS v"
proof -
  assume "heap_page v"
  then have "KERNEL_HEAP_START \<le> v" by (simp add: heap_page_def)
  moreover have "USER_TOP \<le> KERNEL_HEAP_START" by (simp add: layout_defs)
  moreover have "v \<le> 0xFFFFFFFF"
    using unsigned_less[of v, where ?'a = nat] by (simp add: word_le_nat_alt)
  ultimately show ?thesis unfolding CHECK_IF_KERNEL_ADDRESS_def by (meson order_trans)
qed

lemma slot_kernel_stable:
  assumes "slot pgdir va s = Some w" and "CHECK_IF_KERNEL_ADDRESS va"
    and "kmem s' (word_at pgdir (PDX va)) = kmem s (word_at pgdir (PDX va))"
    and "number_of_frames s' = number_of_frames s"
  shows "slot pgdir va s' = Some w"
proof -
  have "table_of pgdir va s' = table_of pgdir va s"
    using assms(2-4)
    by (simp add: table_of_def Let_def table_address_def STATIC_KERNEL_VIRTUAL_ADDRESS_def)
  with assms(1) show ?thesis by (simp add: slot_def)
qed

lemma kslots_stable:
  assumes K: "kslots K s" and "same_rest s s'"
    and "\<And>a. kmem s' a \<noteq> kmem s a \<Longrightarrow> \<exists>v. heap_page v \<and> a = K v"
  shows "kslots K s'"
proof -
  note r = same_restD[OF assms(2)]
  have "slot (ptr_page_directory s') v s' = Some (K v)" if v: "heap_page v" for v
  proof -
    have "kmem s' (word_at (ptr_page_directory s) (PDX v)) = kmem s (word_at (ptr_page_directory s) (PDX v))"
    proof (rule ccontr)
      assume "\<not> ?thesis"
      then obtain u where "heap_page u" and "word_at (ptr_page_directory s) (PDX v) = K u"
        using assms(3) by blast
      with K show False unfolding kslots_def by metis
    qed
    note a = this
    have b: "slot (ptr_page_directory s) v s = Some (K v)" using K v by (simp add: kslots_def)
    show ?thesis
      unfolding r(1) by (rule slot_kernel_stable[OF b heap_page_kernel[OF v] a r(2)])
  qed
  moreover have "inj_on K {v. heap_page v}"
    and "\<forall>v w. heap_page v \<longrightarrow> K v \<noteq> word_at (ptr_page_directory s') (PDX w)"
    using K unfolding kslots_def r(1) by blast+
  ultimately show ?thesis unfolding kslots_def by blast
qed

lemma kslotsD:
  assumes "kslots K s" and "heap_page v"
  shows "slot (ptr_page_directory s) v s = Some (K v)"
  using assms by (simp add: kslots_def)

section \<open>Backing one page\<close>

lemma perm_bits_writeable [simp]: "perm_bits PERM_WRITEABLE" "perm_bits PERM_USER"
  by (simp_all add: perm_bits_def perm_defs)

definition heap_entry :: "nat \<Rightarrow> uint32" where
  "heap_entry fi = CONSTRUCT_ENTRY (to_physical_address fi) (PERM_WRITEABLE OR PERM_PRESENT)"

lemma heap_entry_nonzero [simp]: "heap_entry fi \<noteq> 0"
  by (simp add: heap_entry_def entry_nonzero entry_present)

lemma dec_inc_same:
  "same_rest s (upd_frame f g (dec_ref h s))"
  by (rule same_rest_trans[OF same_rest_dec_ref same_rest_upd_frame])

definition back_page :: "(uint32 \<Rightarrow> (kstate, uint32) M) \<Rightarrow> uint32 \<Rightarrow> (kstate, unit) M" where
  "back_page km v = bnd (allocate_frame km) (\<lambda>fi. bnd (gets ptr_page_directory) (\<lambda>pgdir.
     map_frame km pgdir fi v PERM_WRITEABLE))"

lemma back_pages_loop:
  "back_pages km start sz =
     for_n (unat (sz div PAGE_SIZE)) 0 (\<lambda>i. back_page km (start + of_nat i * PAGE_SIZE))"
  by (simp only: back_pages_def back_page_def)

lemma back_one_page:
  assumes inv: "refs_inv T R A s" and K: "kslots K s" and T: "K v \<in> T" and v: "heap_page v"
    and fr: "free_frame_list s = fi # fl" and z: "kmem s (K v) = 0"
  shows "\<exists>s'. back_page km v s = Inr ((), s') \<and>
    refs_inv T R A s' \<and> kslots K s' \<and> same_rest s s' \<and> free_frame_list s' = fl \<and>
    kmem s' = (kmem s)(K v := heap_entry fi)"
proof -
  let ?s1 = "(upd_frame fi (\<lambda>_. zero_frame_info) s)\<lparr>free_frame_list := fl\<rparr>"
  have al: "allocate_frame km s = Inr (fi, ?s1)" by (rule allocate_frame_free[OF inv fr])
  from allocate_frame_refs[OF inv fr, of km] al have
    i1: "refs_inv T R (insert fi A) ?s1" and m1: "mapped T (kmem ?s1) fi = {}" and nA: "fi \<notin> A" by auto
  have r1: "same_rest s ?s1" by (simp add: upd_frame_def same_rest_def)
  have sl: "slot (ptr_page_directory ?s1) v ?s1 = Some (K v)"
    by (rule slot_kernel_stable[OF _ heap_page_kernel[OF v]]) (use kslotsD[OF K v] in simp_all)
  have z1: "kmem ?s1 (K v) = 0" using z by simp
  have fi: "fi < 2 ^ 20"
    using refs_invD(2)[OF inv] refs_invD(7)[OF inv, of fi] by (simp add: fr frame_ok_def)
  have np: "\<not> kmem ?s1 (K v) AND PERM_PRESENT = PERM_PRESENT" using z1 by (auto simp: PERM_PRESENT_def)
  then have run: "map_frame km (ptr_page_directory ?s1) fi v PERM_WRITEABLE ?s1 =
      Inr ((), (inc_ref fi v ?s1)\<lparr>kmem := (kmem ?s1)(K v := heap_entry fi)\<rparr>)" (is "_ = Inr ((), ?s2)")
    using map_frame_slot[OF sl fi, where km = km and perm = PERM_WRITEABLE] by (simp add: heap_entry_def)
  have "frame_ok R ?s1 fi" using refs_invD(7)[OF i1] by simp
  moreover have "fi \<notin> set (free_frame_list ?s1)" using refs_invD(3)[OF inv] by (simp add: fr)
  ultimately obtain s3 where "map_frame km (ptr_page_directory ?s1) fi v PERM_WRITEABLE ?s1 = Inr ((), s3)"
    "refs_inv T R (insert fi A - {fi}) s3"
    using map_frame_refs[OF i1 sl T, of fi PERM_WRITEABLE km] m1 z1 by auto
  with run nA have i2: "refs_inv T R A ?s2" by simp
  have r2: "same_rest s ?s2"
    unfolding inc_ref_def by (rule same_rest_kmem) (rule same_rest_trans[OF r1 same_rest_upd_frame])
  have k2: "kmem ?s2 = (kmem s)(K v := heap_entry fi)" by simp
  have "kslots K ?s2"
    by (rule kslots_stable[OF K r2]) (use v in \<open>auto simp: k2 split: if_splits\<close>)
  then show ?thesis using al run i2 r2 k2 by (simp add: bnd_apply back_page_def)
qed

section \<open>The loops over the pages of a block\<close>

lemma back_loop:
  assumes "refs_inv T R A s" and "kslots K s" and "n \<le> length (free_frame_list s)"
    and "\<And>i. lo \<le> i \<Longrightarrow> i < lo + n \<Longrightarrow> heap_page (pg i) \<and> K (pg i) \<in> T \<and> kmem s (K (pg i)) = 0"
    and "inj_on pg {lo..<lo + n}"
  shows "\<exists>s'. for_n n lo (\<lambda>i. back_page km (pg i)) s = Inr ((), s') \<and>
    refs_inv T R A s' \<and> kslots K s' \<and> same_rest s s' \<and>
    free_frame_list s' = drop n (free_frame_list s) \<and>
    (\<forall>i. lo \<le> i \<longrightarrow> i < lo + n \<longrightarrow> kmem s' (K (pg i)) \<noteq> 0) \<and>
    (\<forall>a. (\<forall>i. lo \<le> i \<longrightarrow> i < lo + n \<longrightarrow> a \<noteq> K (pg i)) \<longrightarrow> kmem s' a = kmem s a)"
  using assms
proof (induction n arbitrary: lo s)
  case 0
  then show ?case by simp
next
  case (Suc n)
  from Suc.prems(3) obtain fi fl where fl: "free_frame_list s = fi # fl"
    by (cases "free_frame_list s") auto
  have p0: "heap_page (pg lo)" "K (pg lo) \<in> T" "kmem s (K (pg lo)) = 0"
    using Suc.prems(4)[of lo] by simp_all
  from back_one_page[OF Suc.prems(1,2) p0(2,1) fl p0(3), of km] obtain s1 where
    s1: "back_page km (pg lo) s = Inr ((), s1)"
    "refs_inv T R A s1" "kslots K s1" "same_rest s s1" "free_frame_list s1 = fl"
    "kmem s1 = (kmem s)(K (pg lo) := heap_entry fi)" by blast
  have ne: "K (pg i) \<noteq> K (pg lo)" if "Suc lo \<le> i" "i < Suc lo + n" for i
  proof
    assume "K (pg i) = K (pg lo)"
    moreover have "inj_on K {v. heap_page v}" using Suc.prems(2) by (simp add: kslots_def)
    ultimately have "pg i = pg lo"
      using Suc.prems(4)[of i] p0(1) that by (auto dest: inj_onD)
    with Suc.prems(5) that have "i = lo" by (auto dest: inj_onD)
    with that show False by simp
  qed
  have "\<exists>s'. for_n n (Suc lo) (\<lambda>i. back_page km (pg i)) s1 = Inr ((), s') \<and>
    refs_inv T R A s' \<and> kslots K s' \<and> same_rest s1 s' \<and>
    free_frame_list s' = drop n (free_frame_list s1) \<and>
    (\<forall>i. Suc lo \<le> i \<longrightarrow> i < Suc lo + n \<longrightarrow> kmem s' (K (pg i)) \<noteq> 0) \<and>
    (\<forall>a. (\<forall>i. Suc lo \<le> i \<longrightarrow> i < Suc lo + n \<longrightarrow> a \<noteq> K (pg i)) \<longrightarrow> kmem s' a = kmem s1 a)"
  proof (rule Suc.IH[OF s1(2,3)])
    show "n \<le> length (free_frame_list s1)" using Suc.prems(3) fl s1(5) by simp
    show "heap_page (pg i) \<and> K (pg i) \<in> T \<and> kmem s1 (K (pg i)) = 0"
      if "Suc lo \<le> i" "i < Suc lo + n" for i
      using Suc.prems(4)[of i] ne[OF that] that by (simp add: s1(6))
    show "inj_on pg {Suc lo..<Suc lo + n}"
      by (rule inj_on_subset[OF Suc.prems(5)]) auto
  qed
  then obtain s' where s': "for_n n (Suc lo) (\<lambda>i. back_page km (pg i)) s1 = Inr ((), s')"
    "refs_inv T R A s'" "kslots K s'" "same_rest s1 s'" "free_frame_list s' = drop n fl"
    "\<forall>i. Suc lo \<le> i \<longrightarrow> i < Suc lo + n \<longrightarrow> kmem s' (K (pg i)) \<noteq> 0"
    "\<forall>a. (\<forall>i. Suc lo \<le> i \<longrightarrow> i < Suc lo + n \<longrightarrow> a \<noteq> K (pg i)) \<longrightarrow> kmem s' a = kmem s1 a"
    unfolding s1(5) by blast
  have lo: "kmem s' (K (pg lo)) = heap_entry fi"
    using s'(7) ne by (metis s1(6) fun_upd_same)
  have nz: "kmem s' (K (pg i)) \<noteq> 0" if "lo \<le> i" "i < lo + Suc n" for i
    using s'(6) lo that by (cases "i = lo") auto
  have rest: "kmem s' a = kmem s a" if "\<forall>i. lo \<le> i \<longrightarrow> i < lo + Suc n \<longrightarrow> a \<noteq> K (pg i)" for a
  proof -
    have "kmem s' a = kmem s1 a" using s'(7) that by simp
    moreover have "a \<noteq> K (pg lo)" using that by simp
    ultimately show ?thesis by (simp add: s1(6))
  qed
  have "for_n (Suc n) lo (\<lambda>i. back_page km (pg i)) s = Inr ((), s')"
    using s1(1) s'(1) by simp
  then show ?case
    using s'(2,3,5) same_rest_trans[OF s1(4) s'(4)] nz rest by (simp add: fl)
qed

text \<open>When the frames run out the loop ends in the null dereference of \<open>allocate_frame\<close>.\<close>

lemma back_loop_exhausted:
  assumes "refs_inv T R A s" and "kslots K s" and "length (free_frame_list s) < n"
    and "\<And>i. lo \<le> i \<Longrightarrow> i < lo + n \<Longrightarrow> heap_page (pg i) \<and> K (pg i) \<in> T \<and> kmem s (K (pg i)) = 0"
    and "inj_on pg {lo..<lo + n}"
  shows "for_n n lo (\<lambda>i. back_page km (pg i)) s = Inl NullDeref"
  using assms
proof (induction n arbitrary: lo s)
  case 0
  then show ?case by simp
next
  case (Suc n)
  show ?case
  proof (cases "free_frame_list s")
    case Nil
    then show ?thesis by (simp add: back_page_def allocate_frame_def bnd_apply)
  next
    case (Cons fi fl)
    have p0: "heap_page (pg lo)" "K (pg lo) \<in> T" "kmem s (K (pg lo)) = 0"
      using Suc.prems(4)[of lo] by simp_all
    from back_one_page[OF Suc.prems(1,2) p0(2,1) Cons p0(3), of km] obtain s1 where
      s1: "back_page km (pg lo) s = Inr ((), s1)"
      "refs_inv T R A s1" "kslots K s1" "free_frame_list s1 = fl"
      "kmem s1 = (kmem s)(K (pg lo) := heap_entry fi)" by blast
    have ne: "K (pg i) \<noteq> K (pg lo)" if "Suc lo \<le> i" "i < Suc lo + n" for i
    proof
      assume "K (pg i) = K (pg lo)"
      moreover have "inj_on K {v. heap_page v}" using Suc.prems(2) by (simp add: kslots_def)
      ultimately have "pg i = pg lo"
        using Suc.prems(4)[of i] p0(1) that by (auto dest: inj_onD)
      with Suc.prems(5) that have "i = lo" by (auto dest: inj_onD)
      with that show False by simp
    qed
    have "for_n n (Suc lo) (\<lambda>i. back_page km (pg i)) s1 = Inl NullDeref"
    proof (rule Suc.IH[OF s1(2,3)])
      show "length (free_frame_list s1) < n" using Suc.prems(3) Cons s1(4) by simp
      show "heap_page (pg i) \<and> K (pg i) \<in> T \<and> kmem s1 (K (pg i)) = 0"
        if "Suc lo \<le> i" "i < Suc lo + n" for i
        using Suc.prems(4)[of i] ne[OF that] that by (simp add: s1(5))
      show "inj_on pg {Suc lo..<Suc lo + n}" by (rule inj_on_subset[OF Suc.prems(5)]) auto
    qed
    with s1(1) show ?thesis by simp
  qed
qed

lemma unmap_frame_rest:
  assumes inv: "refs_inv T R A s" and K: "kslots K s" and "K v \<in> T" and v: "heap_page v"
  shows "\<exists>s'. unmap_frame (ptr_page_directory s) v s = Inr ((), s') \<and> refs_inv T R A s' \<and>
    kslots K s' \<and> same_rest s s' \<and> kmem s' = (kmem s)(K v := 0)"
proof -
  have sl: "slot (ptr_page_directory s) v s = Some (K v)" by (rule kslotsD[OF K v])
  obtain s' where s': "unmap_frame (ptr_page_directory s) v s = Inr ((), s')" "refs_inv T R A s'"
    "kmem s' = (kmem s)(K v := 0)"
    using unmap_frame_refs[OF inv sl assms(3)] by blast
  have "same_rest s s'"
  proof (cases "kmem s (K v) = 0")
    case True
    with s'(1) unmap_frame_empty[OF sl] show ?thesis by simp
  next
    case False
    then have "frame_of (kmem s (K v)) < unat (number_of_frames s)"
      using mapped_positive(1)[OF inv assms(3)] by (simp add: frame_ok_def)
    then have "s' = emit (Tlb_invalidate v) ((dec_ref (frame_of (kmem s (K v))) s)
        \<lparr>kmem := (kmem s)(K v := 0)\<rparr>)"
      using unmap_frame_slot[OF sl False] s'(1) by simp
    then show ?thesis by (simp only: same_rest_emit same_rest_kmem same_rest_dec_ref)
  qed
  moreover from this have "kslots K s'"
    by (rule kslots_stable[OF K]) (use v in \<open>auto simp: s'(3) split: if_splits\<close>)
  ultimately show ?thesis using s' by blast
qed

lemma unmap_loop:
  assumes "refs_inv T R A s" and "kslots K s" and "pd = ptr_page_directory s"
    and "\<And>i. lo \<le> i \<Longrightarrow> i < lo + n \<Longrightarrow> heap_page (pg i) \<and> K (pg i) \<in> T"
  shows "\<exists>s'. for_n n lo (\<lambda>i. unmap_frame pd (pg i)) s = Inr ((), s') \<and>
    refs_inv T R A s' \<and> kslots K s' \<and> same_rest s s' \<and>
    kmem s' = (\<lambda>a. if \<exists>i. lo \<le> i \<and> i < lo + n \<and> a = K (pg i) then 0 else kmem s a)"
  using assms
proof (induction n arbitrary: lo s)
  case 0
  then show ?case by (auto simp: fun_eq_iff)
next
  case (Suc n)
  from unmap_frame_rest[OF Suc.prems(1,2), of "pg lo"] Suc.prems(3) Suc.prems(4)[of lo] obtain s1 where
    s1: "unmap_frame pd (pg lo) s = Inr ((), s1)" "refs_inv T R A s1" "kslots K s1"
    "same_rest s s1" "kmem s1 = (kmem s)(K (pg lo) := 0)" by auto
  have "\<exists>s'. for_n n (Suc lo) (\<lambda>i. unmap_frame pd (pg i)) s1 = Inr ((), s') \<and>
    refs_inv T R A s' \<and> kslots K s' \<and> same_rest s1 s' \<and>
    kmem s' = (\<lambda>a. if \<exists>i. Suc lo \<le> i \<and> i < Suc lo + n \<and> a = K (pg i) then 0 else kmem s1 a)"
    using Suc.prems(3,4) same_restD(1)[OF s1(4)] by (intro Suc.IH[OF s1(2,3)]) simp_all
  then obtain s' where s': "for_n n (Suc lo) (\<lambda>i. unmap_frame pd (pg i)) s1 = Inr ((), s')"
    "refs_inv T R A s'" "kslots K s'" "same_rest s1 s'"
    "kmem s' = (\<lambda>a. if \<exists>i. Suc lo \<le> i \<and> i < Suc lo + n \<and> a = K (pg i) then 0 else kmem s1 a)"
    by blast
  have ex: "(\<exists>i. lo \<le> i \<and> i < lo + Suc n \<and> a = K (pg i)) \<longleftrightarrow>
      a = K (pg lo) \<or> (\<exists>i. Suc lo \<le> i \<and> i < Suc lo + n \<and> a = K (pg i))" for a
  proof -
    have "{lo..<lo + Suc n} = insert lo {Suc lo..<Suc lo + n}" by auto
    then have "(\<exists>i\<in>{lo..<lo + Suc n}. a = K (pg i)) \<longleftrightarrow>
        a = K (pg lo) \<or> (\<exists>i\<in>{Suc lo..<Suc lo + n}. a = K (pg i))" by simp
    then show ?thesis by (simp only: Bex_def atLeastLessThan_iff conj_assoc)
  qed
  have "kmem s' = (\<lambda>a. if \<exists>i. lo \<le> i \<and> i < lo + Suc n \<and> a = K (pg i) then 0 else kmem s a)"
    unfolding ex s'(5) s1(5)
  proof (rule ext)
    fix x show "(if \<exists>i. Suc lo \<le> i \<and> i < Suc lo + n \<and> x = K (pg i) then 0 else ((kmem s)(K (pg lo) := 0)) x) =
      (if x = K (pg lo) \<or> (\<exists>i. Suc lo \<le> i \<and> i < Suc lo + n \<and> x = K (pg i)) then 0 else kmem s x)"
      by (cases "x = K (pg lo)") auto
  qed
  then show ?case using s1(1) s'(1-3) same_rest_trans[OF s1(4) s'(4)] by simp
qed

end
