(* ===== verification/Kheap_Correct.thy ===== *)
theory Kheap_Correct
  imports Kheap_Pages
begin

text \<open>
  Correctness of the kernel heap: the invariant that ties the block lists to the page tables, and
  the specifications of \<open>kmalloc\<close> for its first-fit and next-fit strategies and of \<open>kfree\<close>.
\<close>

section \<open>Abstraction and invariant\<close>

definition kfrees :: "kstate \<Rightarrow> region list" where
  "kfrees s = regions (blocks_info s) (Block_info_free_list s)"

definition ktakens :: "kstate \<Rightarrow> region list" where
  "ktakens s = regions (blocks_info s) (Block_info_taken_list s)"

definition kernel_heap_cells :: "nat set" where
  "kernel_heap_cells = {unat KERNEL_HEAP_START ..< unat KERNEL_HEAP_MAX}"

definition kdescriptors :: "kstate \<Rightarrow> nat list" where
  "kdescriptors s = Block_info_free_list s @ Block_info_taken_list s @ free_blocks s"

definition blocks_ok :: "kstate \<Rightarrow> bool" where
  "blocks_ok s \<longleftrightarrow>
     mset (kdescriptors s) = mset [0..<Max_number_of_blocks] \<and>
     gapped (kfrees s) \<and> disjoint_regions (ktakens s) \<and>
     (\<forall>r\<in>set (ktakens s). 0 < snd r) \<and>
     cover (ktakens s) \<inter> cover (kfrees s) = {} \<and>
     cover (kfrees s) \<union> cover (ktakens s) = kernel_heap_cells \<and>
     (\<forall>r\<in>set (kfrees s @ ktakens s). page_aligned r)"

text \<open>A page of the heap is mapped exactly when it belongs to a taken block.\<close>

definition backed :: "(uint32 \<Rightarrow> uint32) \<Rightarrow> kstate \<Rightarrow> bool" where
  "backed K s \<longleftrightarrow> (\<forall>v. heap_page v \<longrightarrow> (kmem s (K v) = 0 \<longleftrightarrow> unat v \<in> cover (kfrees s)))"

definition kh_inv :: "(uint32 \<Rightarrow> uint32) \<Rightarrow> uint32 set \<Rightarrow> nat set \<Rightarrow> kstate \<Rightarrow> bool" where
  "kh_inv K T R s \<longleftrightarrow> blocks_ok s \<and> backed K s \<and> refs_inv T R {} s \<and> kslots K s \<and>
     (\<forall>v. heap_page v \<longrightarrow> K v \<in> T)"

lemma kernel_heap_cells_eq: "kernel_heap_cells = {0xF6000000 ..< 0xFFFFF000}"
  by (simp add: kernel_heap_cells_def layout_defs)

lemma blocks_ok_distinct: "blocks_ok s \<Longrightarrow> distinct (kdescriptors s)"
  unfolding blocks_ok_def by (metis distinct_upt mset_eq_imp_distinct_iff)

lemma blocks_okD:
  assumes "blocks_ok s"
  shows "gapped (kfrees s)" and "disjoint_regions (ktakens s)"
    and "r \<in> set (ktakens s) \<Longrightarrow> 0 < snd r" and "r \<in> set (kfrees s) \<Longrightarrow> 0 < snd r"
    and "cover (ktakens s) \<inter> cover (kfrees s) = {}"
    and "cover (kfrees s) \<union> cover (ktakens s) = kernel_heap_cells"
    and "r \<in> set (kfrees s) \<union> set (ktakens s) \<Longrightarrow> page_aligned r"
    and "r \<in> set (kfrees s) \<union> set (ktakens s) \<Longrightarrow> 0xF6000000 \<le> fst r \<and> fst r + snd r \<le> 0xFFFFF000"
proof -
  show pos: "r \<in> set (ktakens s) \<Longrightarrow> 0 < snd r" "r \<in> set (kfrees s) \<Longrightarrow> 0 < snd r" for r
    using assms by (auto simp: blocks_ok_def gapped_def)
  show "gapped (kfrees s)" and "disjoint_regions (ktakens s)"
    and "cover (ktakens s) \<inter> cover (kfrees s) = {}"
    and cov: "cover (kfrees s) \<union> cover (ktakens s) = kernel_heap_cells"
    and "r \<in> set (kfrees s) \<union> set (ktakens s) \<Longrightarrow> page_aligned r"
    using assms by (auto simp: blocks_ok_def)
  assume r: "r \<in> set (kfrees s) \<union> set (ktakens s)"
  then have "cells r \<subseteq> kernel_heap_cells" and p: "0 < snd r"
    using cells_subset_cover[of r] pos cov by blast+
  moreover have "fst r \<in> cells r" and "fst r + snd r - 1 \<in> cells r" using p by (auto simp: cells_def)
  ultimately have "fst r \<in> kernel_heap_cells" and "fst r + snd r - 1 \<in> kernel_heap_cells" by blast+
  then show "0xF6000000 \<le> fst r \<and> fst r + snd r \<le> 0xFFFFF000"
    by (auto simp: kernel_heap_cells_eq)
qed

text \<open>The heap has 40959 pages, so a million descriptors are never used up.\<close>

lemma total_size_pages:
  assumes "\<forall>r\<in>set rs. page_aligned r \<and> 0 < snd r"
  shows "4096 * length rs \<le> total_size rs"
  using assms
proof (induction rs)
  case (Cons r rs)
  then have "4096 \<le> snd r" by (auto simp: page_aligned_def dvd_imp_le)
  with Cons show ?case by simp
qed simp

lemma descriptors_suffice:
  assumes "blocks_ok s"
  shows "free_blocks s \<noteq> []"
proof -
  note d = blocks_okD[OF assms]
  let ?rs = "kfrees s @ ktakens s"
  have "disjoint_regions ?rs"
    using gapped_disjoint[OF d(1)] d(2,5) by (auto simp: disjoint_regions_append)
  from card_cover[OF this] have "total_size ?rs = card kernel_heap_cells" using d(6) by simp
  also have "\<dots> = 167768064" by (simp add: kernel_heap_cells_eq)
  moreover have "\<forall>r\<in>set ?rs. page_aligned r \<and> 0 < snd r"
    unfolding set_append using d(3,4,7) by blast
  ultimately have "4096 * length ?rs \<le> 167768064"
    using total_size_pages[of ?rs] by simp
  then have "length (kfrees s) + length (ktakens s) \<le> 40959" by simp
  moreover have "length (kdescriptors s) = 1000000"
    using assms unfolding blocks_ok_def
    by (metis Max_number_of_blocks_def diff_zero length_upt size_mset)
  ultimately show ?thesis by (auto simp: kdescriptors_def kfrees_def ktakens_def regions_def)
qed

section \<open>Pages of a block\<close>

lemma page_address:
  assumes "unat start + n * 4096 \<le> 2 ^ 32" and "i < n"
  shows "unat (start + of_nat i * PAGE_SIZE :: uint32) = unat start + i * 4096"
proof -
  have "i * 4096 < n * 4096" using assms(2) by simp
  then have lt: "unat start + i * 4096 < 2 ^ 32" using assms(1) by linarith
  then have "unat (of_nat (i * 4096) :: uint32) = i * 4096"
    by (simp add: unsigned_of_nat take_bit_nat_eq_self del: of_nat_mult)
  then have "unat (of_nat i * PAGE_SIZE :: uint32) = i * 4096" by (simp add: PAGE_SIZE_def)
  with lt show ?thesis by (subst word_add_le_unat) simp_all
qed

lemma unat_mod_page: "(v :: uint32) AND 0xFFF = 0 \<longleftrightarrow> 4096 dvd unat v"
  unfolding and_0xFFF
  by (simp add: word_unat_eq_iff take_bit_eq_mod unat_mod mod_eq_0_iff_dvd del: unsigned_take_bit_eq)

lemma heap_page_iff: "heap_page v \<longleftrightarrow> 4096 dvd unat v \<and> unat v \<in> kernel_heap_cells"
  by (auto simp: heap_page_def unat_mod_page kernel_heap_cells_def word_le_nat_alt word_less_nat_alt)

lemma block_pages:
  assumes "cells (unat start, n) \<subseteq> kernel_heap_cells" and "4096 dvd unat start" and "4096 dvd n"
  shows "i < n div 4096 \<Longrightarrow> heap_page (start + of_nat i * PAGE_SIZE)"
    and "i < n div 4096 \<Longrightarrow> unat (start + of_nat i * PAGE_SIZE) = unat start + i * 4096"
    and "inj_on (\<lambda>i. start + of_nat i * PAGE_SIZE) {0..<0 + n div 4096}"
    and "heap_page v \<Longrightarrow> unat v \<in> cells (unat start, n) \<longleftrightarrow> (\<exists>i. i < n div 4096 \<and> v = start + of_nat i * PAGE_SIZE)"
proof -
  have n: "n div 4096 * 4096 = n" using assms(3) by simp
  have top: "unat start + n \<le> 2 ^ 32"
  proof (cases "n = 0")
    case True
    then show ?thesis using unsigned_less[of start, where ?'a = nat] by simp
  next
    case False
    then have "unat start + n - 1 \<in> cells (unat start, n)" by simp
    with assms(1) have "unat start + n - 1 \<in> kernel_heap_cells" by blast
    then show ?thesis using False by (auto simp: kernel_heap_cells_eq)
  qed
  show u: "unat (start + of_nat i * PAGE_SIZE) = unat start + i * 4096" if "i < n div 4096" for i
    by (rule page_address[of _ "n div 4096"]) (use top n that in simp_all)
  have in_cells: "unat start + i * 4096 \<in> cells (unat start, n)" if "i < n div 4096" for i
  proof -
    have "i * 4096 < n div 4096 * 4096" using that by simp
    then show ?thesis using n by simp
  qed
  show "heap_page (start + of_nat i * PAGE_SIZE)" if "i < n div 4096" for i
    using in_cells[OF that] assms(1,2) by (auto simp: heap_page_iff u[OF that])
  show "inj_on (\<lambda>i. start + of_nat i * PAGE_SIZE) {0..<0 + n div 4096}"
  proof (rule inj_onI)
    fix i j assume ij: "i \<in> {0..<0 + n div 4096}" "j \<in> {0..<0 + n div 4096}"
      and eq: "start + of_nat i * PAGE_SIZE = start + of_nat j * PAGE_SIZE"
    have "unat start + i * 4096 = unat start + j * 4096"
      using arg_cong[OF eq, of unat] ij unfolding atLeastLessThan_iff add_0 by (simp only: u)
    then show "i = j" by simp
  qed
  assume v: "heap_page v"
  show "unat v \<in> cells (unat start, n) \<longleftrightarrow> (\<exists>i. i < n div 4096 \<and> v = start + of_nat i * PAGE_SIZE)"
  proof
    assume "\<exists>i. i < n div 4096 \<and> v = start + of_nat i * PAGE_SIZE"
    then show "unat v \<in> cells (unat start, n)" using u in_cells by auto
  next
    assume c: "unat v \<in> cells (unat start, n)"
    then have "4096 dvd unat v - unat start" using v assms(2) by (simp add: heap_page_iff dvd_diff_nat)
    then obtain i where "unat v - unat start = 4096 * i" by (auto simp: dvd_def)
    with c have i: "unat v = unat start + i * 4096" "i * 4096 < n div 4096 * 4096" using n by auto
    then have "i < n div 4096" by simp
    moreover from this have "v = start + of_nat i * PAGE_SIZE" using i(1) u by (simp add: word_unat_eq_iff)
    ultimately show "\<exists>i. i < n div 4096 \<and> v = start + of_nat i * PAGE_SIZE" by blast
  qed
qed

section \<open>Cutting a block from the free list\<close>

lemma cut_region:
  assumes "gapped (as @ r # bs)" and "n \<le> snd r"
  shows "cover (as @ r # bs) = cells (fst r, n) \<union> cover (as @ shrink_first n r @ bs)"
    and "cells (fst r, n) \<inter> cover (as @ shrink_first n r @ bs) = {}"
    and "gapped (as @ shrink_first n r @ bs)"
proof -
  show "cover (as @ r # bs) = cells (fst r, n) \<union> cover (as @ shrink_first n r @ bs)"
    using cells_shrink[OF assms(2)] by auto
  have sub: "cells (fst r, n) \<subseteq> cells r" using assms(2) by (auto simp: cells_def)
  have d: "disjoint_regions (as @ r # bs)" by (rule gapped_disjoint[OF assms(1)])
  then have "cells r \<inter> cover as = {}" and "cells r \<inter> cover bs = {}"
    by (auto simp: disjoint_regions_append disjoint_regions_Cons)
  with sub have "cells (fst r, n) \<inter> cover as = {}" and "cells (fst r, n) \<inter> cover bs = {}" by blast+
  with cells_shrink_disjoint[of r n] show "cells (fst r, n) \<inter> cover (as @ shrink_first n r @ bs) = {}"
    by auto
  show "gapped (as @ shrink_first n r @ bs)"
    using assms by (auto simp: gapped_append shrink_first_def before_def)
qed

lemma cut_block_rest [simp]:
  "kmem (cut_block f n s) = kmem s" "frames_info (cut_block f n s) = frames_info s"
  "free_frame_list (cut_block f n s) = free_frame_list s"
  "number_of_frames (cut_block f n s) = number_of_frames s"
  "ptr_page_directory (cut_block f n s) = ptr_page_directory s"
  "Block_info_taken_list (cut_block f n s) = Block_info_taken_list s"
  "KHeapPlacementStrategy (cut_block f n s) = KHeapPlacementStrategy s"
  by (simp_all add: cut_block_def Let_def set_block_def recycle_def)

lemma cut_block_spec:
  assumes ok: "blocks_ok s" and fl: "Block_info_free_list s = as @ f # bs"
    and le: "unat n \<le> unat (blk_size (blocks_info s f))"
  shows "kfrees (cut_block f n s) = regions (blocks_info s) as @
      shrink_first (unat n) (region_of (blocks_info s f)) @ regions (blocks_info s) bs"
    and "ktakens (cut_block f n s) = ktakens s"
    and "mset (kdescriptors (cut_block f n s)) = mset (kdescriptors s)"
    and "free_blocks (cut_block f n s) \<noteq> []"
proof -
  let ?b = "blocks_info s f"
  have d: "f \<notin> set as" "f \<notin> set bs" "f \<notin> set (Block_info_taken_list s)"
    using blocks_ok_distinct[OF ok] by (auto simp: kdescriptors_def fl)
  have "region_of ?b \<in> set (kfrees s)" by (simp add: kfrees_def fl)
  then have "unat (start_va ?b) + unat (blk_size ?b) < 2 ^ 32" using blocks_okD(8)[OF ok] by fastforce
  note shrunk = region_of_shrunk[OF le this]
  note defs = cut_block_def Let_def set_block_def recycle_def kfrees_def ktakens_def kdescriptors_def fl
  have nz: "blk_size ?b - n = 0 \<longleftrightarrow> unat (blk_size ?b) = unat n"
    by (metis right_minus_eq word_unat_eq_iff)
  show "kfrees (cut_block f n s) = regions (blocks_info s) as @
      shrink_first (unat n) (region_of ?b) @ regions (blocks_info s) bs"
    using d shrunk nz by (auto simp: defs shrink_first_def)
  show "ktakens (cut_block f n s) = ktakens s" using d by (auto simp: defs)
  show "mset (kdescriptors (cut_block f n s)) = mset (kdescriptors s)" using d by (auto simp: defs)
  show "free_blocks (cut_block f n s) \<noteq> []" using descriptors_suffice[OF ok] by (auto simp: defs)
qed

lemma take_descriptor:
  assumes "distinct (kdescriptors s)" and "free_blocks s = ptr # ps"
    and "blocks_info s' = (blocks_info s)(ptr := \<lparr>start_va = a, blk_size = n\<rparr>)"
    and "Block_info_free_list s' = Block_info_free_list s" and "free_blocks s' = ps"
    and "mset (Block_info_taken_list s') = add_mset ptr (mset (Block_info_taken_list s))"
  shows "kfrees s' = kfrees s" and "mset (ktakens s') = add_mset (unat a, unat n) (mset (ktakens s))"
    and "mset (kdescriptors s') = mset (kdescriptors s)"
proof -
  have d: "ptr \<notin> set (Block_info_free_list s)" "ptr \<notin> set (Block_info_taken_list s)"
    using assms(1,2) by (auto simp: kdescriptors_def)
  show "kfrees s' = kfrees s" using d by (simp add: kfrees_def assms(3,4))
  have "mset (ktakens s') = image_mset (\<lambda>i. region_of (blocks_info s' i)) (mset (Block_info_taken_list s'))"
    by (simp add: ktakens_def regions_def)
  also have "\<dots> = add_mset (unat a, unat n)
      (image_mset (\<lambda>i. region_of (blocks_info s' i)) (mset (Block_info_taken_list s)))"
    by (simp add: assms(3,6) region_of_def)
  also have "image_mset (\<lambda>i. region_of (blocks_info s' i)) (mset (Block_info_taken_list s)) = mset (ktakens s)"
    using d by (auto simp: ktakens_def regions_def assms(3) intro!: image_mset_cong)
  finally show "mset (ktakens s') = add_mset (unat a, unat n) (mset (ktakens s))" .
  show "mset (kdescriptors s') = mset (kdescriptors s)" by (simp add: kdescriptors_def assms(2,4-6))
qed

lemma cover_mset_cong: "mset rs = mset rs' \<Longrightarrow> cover rs = cover rs'"
  by (metis cover_def set_mset_mset)

lemma blocks_ok_alloc:
  assumes ok: "blocks_ok s" and fr: "kfrees s = as @ r # bs" and n: "n \<le> snd r" "0 < n" "4096 dvd n"
    and s': "kfrees s' = as @ shrink_first n r @ bs"
      "mset (ktakens s') = add_mset (fst r, n) (mset (ktakens s))"
      "mset (kdescriptors s') = mset (kdescriptors s)"
  shows "blocks_ok s'" and "cover (kfrees s) = cells (fst r, n) \<union> cover (kfrees s')"
    and "cells (fst r, n) \<inter> cover (kfrees s') = {}"
proof -
  note d = blocks_okD[OF ok]
  note c = cut_region[OF d(1)[unfolded fr] n(1)]
  show c1: "cover (kfrees s) = cells (fst r, n) \<union> cover (kfrees s')"
    and c2: "cells (fst r, n) \<inter> cover (kfrees s') = {}" using c(1,2) by (simp_all add: fr s'(1))
  have m: "mset (ktakens s') = mset ((fst r, n) # ktakens s)" by (simp add: s'(2))
  have ct: "cover (ktakens s') = cells (fst r, n) \<union> cover (ktakens s)"
    using cover_mset_cong[OF m] by simp
  have st: "set (ktakens s') = insert (fst r, n) (set (ktakens s))" using mset_eq_setD[OF m] by simp
  have al: "page_aligned r" using d(7) by (simp add: fr)
  have "disjoint_regions (ktakens s')"
    unfolding disjoint_regions_mset[OF m] disjoint_regions_Cons using d(2,5) c1 by blast
  moreover have "\<forall>x\<in>set (kfrees s' @ ktakens s'). page_aligned x"
    using d(7) shrink_first_aligned[OF al n(3)] al n(3)
    by (auto simp: s'(1) st fr page_aligned_def)
  moreover have "\<forall>x\<in>set (ktakens s'). 0 < snd x" using d(3) n(2) by (auto simp: st)
  moreover have "cover (ktakens s') \<inter> cover (kfrees s') = {}" using ct c1 c2 d(5) by blast
  moreover have "cover (kfrees s') \<union> cover (ktakens s') = kernel_heap_cells"
    using ct c1 d(6) by blast
  moreover have "gapped (kfrees s')" using c(3) by (simp add: s'(1))
  moreover have "mset (kdescriptors s') = mset [0..<Max_number_of_blocks]"
    using ok s'(3) by (simp add: blocks_ok_def)
  ultimately show "blocks_ok s'" by (simp add: blocks_ok_def)
qed

section \<open>Backing the pages of a free block\<close>

text \<open>The parts of the state that the page table invariants read.\<close>

lemma refs_inv_cong:
  assumes "kmem s' = kmem s" and "frames_info s' = frames_info s"
    and "free_frame_list s' = free_frame_list s" and "number_of_frames s' = number_of_frames s"
  shows "refs_inv T R A s' = refs_inv T R A s"
  by (simp add: refs_inv_def frame_ok_def assms)

lemma kslots_cong:
  assumes "kmem s' = kmem s" and "ptr_page_directory s' = ptr_page_directory s"
    and "number_of_frames s' = number_of_frames s" and "kslots K s"
  shows "kslots K s'"
proof -
  have "slot (ptr_page_directory s') v s' = Some (K v)" if v: "heap_page v" for v
    unfolding assms(2)
    by (rule slot_kernel_stable[OF kslotsD[OF assms(4) v] heap_page_kernel[OF v] _ assms(3)])
      (simp add: assms(1))
  then show ?thesis using assms(2,4) unfolding kslots_def by metis
qed

lemma back_block:
  assumes r: "refs_inv T R {} s" "kslots K s" "\<forall>v. heap_page v \<longrightarrow> K v \<in> T"
    and c: "cells (unat start, unat n) \<subseteq> kernel_heap_cells" "4096 dvd unat start" "4096 dvd unat n"
    and z: "\<forall>v. heap_page v \<longrightarrow> unat v \<in> cells (unat start, unat n) \<longrightarrow> kmem s (K v) = 0"
  shows "unat n div 4096 \<le> length (free_frame_list s) \<Longrightarrow>
      \<exists>s'. back_pages km start n s = Inr ((), s') \<and> refs_inv T R {} s' \<and> kslots K s' \<and> same_rest s s' \<and>
        free_frame_list s' = drop (unat n div 4096) (free_frame_list s) \<and>
        (\<forall>v. heap_page v \<longrightarrow> (if unat v \<in> cells (unat start, unat n) then kmem s' (K v) \<noteq> 0
                              else kmem s' (K v) = kmem s (K v)))"
    and "length (free_frame_list s) < unat n div 4096 \<Longrightarrow> back_pages km start n s = Inl NullDeref"
proof -
  let ?pg = "\<lambda>i. start + of_nat i * PAGE_SIZE"
  note b = block_pages[OF c]
  have N: "unat (n div PAGE_SIZE) = unat n div 4096" by (simp add: PAGE_SIZE_def unat_div)
  have hyp: "heap_page (?pg i) \<and> K (?pg i) \<in> T \<and> kmem s (K (?pg i)) = 0" if "0 \<le> i" "i < 0 + unat n div 4096" for i
  proof -
    have i: "i < unat n div 4096" using that by simp
    have h: "heap_page (?pg i)" by (rule b(1)[OF i])
    moreover have "unat (?pg i) \<in> cells (unat start, unat n)" using b(4)[OF h] i by blast
    ultimately show ?thesis using r(3) z by blast
  qed
  show "back_pages km start n s = Inl NullDeref" if "length (free_frame_list s) < unat n div 4096"
    unfolding back_pages_loop N using back_loop_exhausted[OF r(1,2) that hyp b(3)] by simp
  assume le: "unat n div 4096 \<le> length (free_frame_list s)"
  from back_loop[OF r(1,2) le hyp b(3), of km] obtain s' where
    s': "back_pages km start n s = Inr ((), s')" "refs_inv T R {} s'" "kslots K s'" "same_rest s s'"
    "free_frame_list s' = drop (unat n div 4096) (free_frame_list s)"
    "\<forall>i. 0 \<le> i \<longrightarrow> i < 0 + unat n div 4096 \<longrightarrow> kmem s' (K (?pg i)) \<noteq> 0"
    "\<forall>a. (\<forall>i. 0 \<le> i \<longrightarrow> i < 0 + unat n div 4096 \<longrightarrow> a \<noteq> K (?pg i)) \<longrightarrow> kmem s' a = kmem s a"
    unfolding back_pages_loop N by blast
  have "if unat v \<in> cells (unat start, unat n) then kmem s' (K v) \<noteq> 0 else kmem s' (K v) = kmem s (K v)"
    if v: "heap_page v" for v
  proof (cases "unat v \<in> cells (unat start, unat n)")
    case True
    then obtain i where "i < unat n div 4096" "v = ?pg i" using b(4)[OF v] by blast
    with s'(6) True show ?thesis by simp
  next
    case False
    have "K v \<noteq> K (?pg i)" if i: "i < unat n div 4096" for i
    proof
      assume "K v = K (?pg i)"
      moreover have "inj_on K {v. heap_page v}" using r(2) by (simp add: kslots_def)
      ultimately have "v = ?pg i" using v b(1)[OF i] by (auto dest: inj_onD)
      with False b(4)[OF v] i show False by blast
    qed
    with s'(7) have "kmem s' (K v) = kmem s (K v)" by simp
    with False show ?thesis by (simp only: if_False)
  qed
  with s'(1-5) show "\<exists>s'. back_pages km start n s = Inr ((), s') \<and> refs_inv T R {} s' \<and> kslots K s' \<and>
      same_rest s s' \<and> free_frame_list s' = drop (unat n div 4096) (free_frame_list s) \<and>
      (\<forall>v. heap_page v \<longrightarrow> (if unat v \<in> cells (unat start, unat n) then kmem s' (K v) \<noteq> 0
                            else kmem s' (K v) = kmem s (K v)))" by blast
qed

section \<open>First fit\<close>

lemma same_rest_blocks:
  assumes "same_rest s s'"
  shows "kfrees s' = kfrees s" and "ktakens s' = ktakens s" and "kdescriptors s' = kdescriptors s"
    and "blocks_ok s' = blocks_ok s"
  using same_restD[OF assms] by (simp_all add: kfrees_def ktakens_def kdescriptors_def blocks_ok_def)

lemma kh_invD:
  assumes "kh_inv K T R s"
  shows "blocks_ok s" and "refs_inv T R {} s" and "kslots K s" and "heap_page v \<Longrightarrow> K v \<in> T"
    and "heap_page v \<Longrightarrow> kmem s (K v) = 0 \<longleftrightarrow> unat v \<in> cover (kfrees s)"
  using assms by (simp_all add: kh_inv_def backed_def)

lemma free_region_facts:
  assumes ok: "blocks_ok s" and f: "f \<in> set (Block_info_free_list s)"
    and le: "unat n \<le> unat (blk_size (blocks_info s f))"
  shows "cells (unat (start_va (blocks_info s f)), unat n) \<subseteq> cover (kfrees s)"
    and "cells (unat (start_va (blocks_info s f)), unat n) \<subseteq> kernel_heap_cells"
    and "4096 dvd unat (start_va (blocks_info s f))" and "start_va (blocks_info s f) \<noteq> 0"
proof -
  have m: "region_of (blocks_info s f) \<in> set (kfrees s)" using f by (simp add: kfrees_def set_regions)
  have "cells (unat (start_va (blocks_info s f)), unat n) \<subseteq> cells (region_of (blocks_info s f))"
    using le by (auto simp: cells_def)
  then show 1: "cells (unat (start_va (blocks_info s f)), unat n) \<subseteq> cover (kfrees s)"
    using cells_subset_cover[OF m] by blast
  with blocks_okD(6)[OF ok] show "cells (unat (start_va (blocks_info s f)), unat n) \<subseteq> kernel_heap_cells"
    by blast
  show "4096 dvd unat (start_va (blocks_info s f))"
  proof -
    have "page_aligned (region_of (blocks_info s f))" using blocks_okD(7)[OF ok] m by blast
    then show ?thesis by (simp add: page_aligned_def)
  qed
  have "0xF6000000 \<le> unat (start_va (blocks_info s f))" using blocks_okD(8)[OF ok] m by fastforce
  then show "start_va (blocks_info s f) \<noteq> 0" by auto
qed

text \<open>Assembling the invariant after a block has been cut, backed and recorded.\<close>

lemma kh_inv_alloc:
  assumes inv: "kh_inv K T R s" and n: "0 < n" "4096 dvd n" "n \<le> snd r"
    and fr: "kfrees s = as @ r # bs" "kfrees s' = as @ shrink_first n r @ bs"
    and tk: "mset (ktakens s') = add_mset (fst r, n) (mset (ktakens s))"
    and ds: "mset (kdescriptors s') = mset (kdescriptors s)"
    and pt: "refs_inv T R {} s'" "kslots K s'"
    and mem: "\<And>v. heap_page v \<Longrightarrow> (if unat v \<in> cells (fst r, n) then kmem s' (K v) \<noteq> 0
                                      else kmem s' (K v) = kmem s (K v))"
  shows "kh_inv K T R s'"
proof -
  note b = blocks_ok_alloc[OF kh_invD(1)[OF inv] fr(1) n(3,1,2) fr(2) tk ds]
  have "kmem s' (K v) = 0 \<longleftrightarrow> unat v \<in> cover (kfrees s')" if v: "heap_page v" for v
    using mem[OF v] kh_invD(5)[OF inv v] b(2,3) by (auto split: if_splits)
  then show ?thesis using b(1) pt kh_invD(4)[OF inv] by (simp add: kh_inv_def backed_def)
qed

lemma first_fit_None:
  assumes "take_fit (unat (ROUNDUP sz PAGE_SIZE)) (kfrees s) = None"
  shows "first_fit_allocation km sz s = Inr (0, s)"
  using assms by (simp add: first_fit_allocation_def Let_def kfrees_def find_None_take_fit[symmetric])

text \<open>The search has found a block; what the pages and the lists look like then.\<close>

lemma first_fit_found:
  assumes "take_fit (unat n) (kfrees s) = Some (a, fr)"
  obtains f as bs where "find (\<lambda>b. n \<le> blk_size (blocks_info s b)) (Block_info_free_list s) = Some f"
    and "Block_info_free_list s = as @ f # bs" and "unat n \<le> unat (blk_size (blocks_info s f))"
    and "a = unat (start_va (blocks_info s f))"
    and "fr = regions (blocks_info s) as @ shrink_first (unat n) (region_of (blocks_info s f)) @
           regions (blocks_info s) bs"
proof -
  let ?bi = "blocks_info s"
  from assms have "find (\<lambda>b. n \<le> blk_size (?bi b)) (Block_info_free_list s) \<noteq> None"
    by (auto simp: kfrees_def find_None_take_fit)
  then obtain f where f: "find (\<lambda>b. n \<le> blk_size (?bi b)) (Block_info_free_list s) = Some f" by blast
  from find_Some_take_fit[OF f] obtain as bs where
    s: "Block_info_free_list s = as @ f # bs" "unat n \<le> unat (blk_size (?bi f))"
    "take_fit (unat n) (regions ?bi (Block_info_free_list s)) = Some (unat (start_va (?bi f)),
           regions ?bi as @ shrink_first (unat n) (region_of (?bi f)) @ regions ?bi bs)" by metis
  with assms have "a = unat (start_va (?bi f))"
    "fr = regions ?bi as @ shrink_first (unat n) (region_of (?bi f)) @ regions ?bi bs"
    by (simp_all add: kfrees_def)
  with f s(1,2) show ?thesis by (rule that)
qed

lemma ROUNDUP_page_facts:
  assumes "n = ROUNDUP sz PAGE_SIZE"
  shows "4096 dvd unat n"
  using assms ROUNDUP_page_dvd by simp

lemma first_fit_Some:
  assumes inv: "kh_inv K T R s" and n: "n = ROUNDUP sz PAGE_SIZE" "0 < unat n"
    and tf: "take_fit (unat n) (kfrees s) = Some (a, fr)"
  shows "length (free_frame_list s) < unat n div 4096 \<Longrightarrow> first_fit_allocation km sz s = Inl NullDeref"
    and "Block_info_taken_list s = [] \<Longrightarrow> first_fit_allocation km sz s = Inl NullDeref"
    and "unat n div 4096 \<le> length (free_frame_list s) \<Longrightarrow> Block_info_taken_list s \<noteq> [] \<Longrightarrow>
      \<exists>p s'. first_fit_allocation km sz s = Inr (p, s') \<and> unat p = a \<and> p \<noteq> 0 \<and> kh_inv K T R s' \<and>
        kfrees s' = fr \<and> mset (ktakens s') = add_mset (a, unat n) (mset (ktakens s)) \<and>
        KHeapPlacementStrategy s' = KHeapPlacementStrategy s \<and>
        free_frame_list s' = drop (unat n div 4096) (free_frame_list s)"
proof -
  obtain f as bs where f: "find (\<lambda>b. n \<le> blk_size (blocks_info s b)) (Block_info_free_list s) = Some f"
    and fl: "Block_info_free_list s = as @ f # bs" and le: "unat n \<le> unat (blk_size (blocks_info s f))"
    and a: "a = unat (start_va (blocks_info s f))"
    and fr: "fr = regions (blocks_info s) as @ shrink_first (unat n) (region_of (blocks_info s f)) @
           regions (blocks_info s) bs"
    by (rule first_fit_found[OF tf])
  let ?st = "start_va (blocks_info s f)"
  note ok = kh_invD(1)[OF inv]
  have "f \<in> set (Block_info_free_list s)" by (simp add: fl)
  note fr_facts = free_region_facts[OF ok this le]
  have zero: "\<forall>v. heap_page v \<longrightarrow> unat v \<in> cells (unat ?st, unat n) \<longrightarrow> kmem s (K v) = 0"
    using kh_invD(5)[OF inv] fr_facts(1) by blast
  have KT: "\<forall>v. heap_page v \<longrightarrow> K v \<in> T" using kh_invD(4)[OF inv] by blast
  note bb = back_block[OF kh_invD(2,3)[OF inv] KT fr_facts(2,3) ROUNDUP_page_facts[OF n(1)] zero, where km = km]
  have run: "first_fit_allocation km sz s = seqm (back_pages km ?st n)
      (bnd (gets (\<lambda>s. start_va (blocks_info s f))) (\<lambda>tmp.
       seqm (modify (cut_block f n))
       (seqm (modify (\<lambda>s. s\<lparr>last_va_in_kheap := last_va_in_kheap s + n\<rparr>))
       (bnd k_allocate_block (\<lambda>ptr.
        seqm (modify (set_block ptr \<lparr>start_va = tmp, blk_size = n\<rparr>))
        (seqm (insert_taken_sorted ptr) (ret tmp))))))) s"
    unfolding first_fit_allocation_def Let_def n(1)[symmetric] using f by simp
  show short: "first_fit_allocation km sz s = Inl NullDeref" if "length (free_frame_list s) < unat n div 4096"
    unfolding run using bb(2)[OF that] by simp
  have long: "first_fit_allocation km sz s = Inl NullDeref \<or> Block_info_taken_list s \<noteq> [] \<and>
      (\<exists>p s'. first_fit_allocation km sz s = Inr (p, s') \<and> unat p = a \<and> p \<noteq> 0 \<and> kh_inv K T R s' \<and>
        kfrees s' = fr \<and> mset (ktakens s') = add_mset (a, unat n) (mset (ktakens s)) \<and>
        KHeapPlacementStrategy s' = KHeapPlacementStrategy s \<and>
        free_frame_list s' = drop (unat n div 4096) (free_frame_list s))"
    and longne: "Block_info_taken_list s \<noteq> [] \<Longrightarrow> first_fit_allocation km sz s \<noteq> Inl NullDeref"
    if enough: "unat n div 4096 \<le> length (free_frame_list s)"
  proof -
    from bb(1)[OF enough] obtain s1 where s1: "back_pages km ?st n s = Inr ((), s1)" "refs_inv T R {} s1"
      "kslots K s1" "same_rest s s1" "free_frame_list s1 = drop (unat n div 4096) (free_frame_list s)"
      "\<forall>v. heap_page v \<longrightarrow> (if unat v \<in> cells (unat ?st, unat n) then kmem s1 (K v) \<noteq> 0
                            else kmem s1 (K v) = kmem s (K v))" by blast
    note r = same_restD[OF s1(4)] and b = same_rest_blocks[OF s1(4)]
    let ?s2 = "(cut_block f n s1)\<lparr>last_va_in_kheap := last_va_in_kheap (cut_block f n s1) + n\<rparr>"
    have ok1: "blocks_ok s1" using ok b(4) by simp
    have fl1: "Block_info_free_list s1 = as @ f # bs" using fl r by simp
    have le1: "unat n \<le> unat (blk_size (blocks_info s1 f))" using le r by simp
    note cut = cut_block_spec[OF ok1 fl1 le1]
    from cut(4) obtain ptr ps where ps: "free_blocks (cut_block f n s1) = ptr # ps"
      by (cases "free_blocks (cut_block f n s1)") auto
    let ?s4 = "set_block ptr \<lparr>start_va = ?st, blk_size = n\<rparr> (?s2\<lparr>free_blocks := ps\<rparr>)"
    have run2: "first_fit_allocation km sz s = seqm (insert_taken_sorted ptr) (ret ?st) ?s4"
      unfolding run by (simp add: s1(1) r(3) k_allocate_block_def bnd_apply seqm_def ps)
    have tl4: "Block_info_taken_list ?s4 = Block_info_taken_list s" by (simp add: set_block_def r)
    show "Block_info_taken_list s \<noteq> [] \<Longrightarrow> first_fit_allocation km sz s \<noteq> Inl NullDeref"
      unfolding run2 using insert_sorted_mset[of "Block_info_taken_list s" "blocks_info ?s4" ptr]
      by (auto simp: insert_taken_sorted_def tl4 seqm_def bnd_apply)
    show "first_fit_allocation km sz s = Inl NullDeref \<or> Block_info_taken_list s \<noteq> [] \<and>
      (\<exists>p s'. first_fit_allocation km sz s = Inr (p, s') \<and> unat p = a \<and> p \<noteq> 0 \<and> kh_inv K T R s' \<and>
        kfrees s' = fr \<and> mset (ktakens s') = add_mset (a, unat n) (mset (ktakens s)) \<and>
        KHeapPlacementStrategy s' = KHeapPlacementStrategy s \<and>
        free_frame_list s' = drop (unat n div 4096) (free_frame_list s))"
    proof (cases "Block_info_taken_list s = []")
      case True
      then show ?thesis unfolding run2 by (simp add: insert_taken_sorted_def tl4)
    next
      case False
      from insert_sorted_mset[OF this, of "blocks_info ?s4" ptr] obtain ys where
        ys: "insert_sorted (blocks_info ?s4) (Block_info_taken_list s) ptr = Inr ys"
        "mset ys = add_mset ptr (mset (Block_info_taken_list s))" by blast
      let ?s5 = "?s4\<lparr>Block_info_taken_list := ys\<rparr>"
      have run3: "first_fit_allocation km sz s = Inr (?st, ?s5)"
        unfolding run2 using ys(1) by (simp add: insert_taken_sorted_def tl4 seqm_def bnd_apply)
      have dist: "distinct (kdescriptors (cut_block f n s1))"
        using blocks_ok_distinct[OF ok1] cut(3) by (metis mset_eq_imp_distinct_iff)
      have td: "kfrees ?s5 = kfrees (cut_block f n s1)"
        "mset (ktakens ?s5) = add_mset (unat ?st, unat n) (mset (ktakens (cut_block f n s1)))"
        "mset (kdescriptors ?s5) = mset (kdescriptors (cut_block f n s1))"
        by (rule take_descriptor[OF dist ps]; simp add: set_block_def ys(2) r)+
      have frees: "kfrees ?s5 = fr" using td(1) cut(1) fr r by simp
      have takens: "mset (ktakens ?s5) = add_mset (a, unat n) (mset (ktakens s))"
        using td(2) cut(2) a b(2) by simp
      have descr: "mset (kdescriptors ?s5) = mset (kdescriptors s)" using td(3) cut(3) b(3) by simp
      have k: "kfrees s = regions (blocks_info s) as @ region_of (blocks_info s f) # regions (blocks_info s) bs"
        by (simp add: kfrees_def fl)
      have "kh_inv K T R ?s5"
      proof (rule kh_inv_alloc[OF inv n(2) ROUNDUP_page_facts[OF n(1)] _ k])
        show "unat n \<le> snd (region_of (blocks_info s f))" using le by simp
        show "kfrees ?s5 = regions (blocks_info s) as @ shrink_first (unat n) (region_of (blocks_info s f)) @
            regions (blocks_info s) bs" using frees fr by simp
        show "mset (ktakens ?s5) = add_mset (fst (region_of (blocks_info s f)), unat n) (mset (ktakens s))"
          using takens a by simp
        show "refs_inv T R {} ?s5"
          by (subst refs_inv_cong[of _ s1]) (simp_all add: set_block_def s1(2))
        show "kslots K ?s5" by (rule kslots_cong[OF _ _ _ s1(3)]) (simp_all add: set_block_def)
        show "if unat v \<in> cells (fst (region_of (blocks_info s f)), unat n) then kmem ?s5 (K v) \<noteq> 0
            else kmem ?s5 (K v) = kmem s (K v)" if "heap_page v" for v
          using s1(6) that by (simp add: set_block_def)
      qed (rule descr)
      then have "first_fit_allocation km sz s = Inr (?st, ?s5) \<and> unat ?st = a \<and> ?st \<noteq> 0 \<and> kh_inv K T R ?s5 \<and>
          kfrees ?s5 = fr \<and> mset (ktakens ?s5) = add_mset (a, unat n) (mset (ktakens s)) \<and>
          KHeapPlacementStrategy ?s5 = KHeapPlacementStrategy s \<and>
          free_frame_list ?s5 = drop (unat n div 4096) (free_frame_list s)"
        using run3 a fr_facts(4) frees takens s1(5) r by (simp add: set_block_def)
      with False show ?thesis by blast
    qed
  qed
  show "first_fit_allocation km sz s = Inl NullDeref" if "Block_info_taken_list s = []"
    using short long that by (meson not_le)
  show "\<exists>p s'. first_fit_allocation km sz s = Inr (p, s') \<and> unat p = a \<and> p \<noteq> 0 \<and> kh_inv K T R s' \<and>
        kfrees s' = fr \<and> mset (ktakens s') = add_mset (a, unat n) (mset (ktakens s)) \<and>
        KHeapPlacementStrategy s' = KHeapPlacementStrategy s \<and>
        free_frame_list s' = drop (unat n div 4096) (free_frame_list s)"
    if "unat n div 4096 \<le> length (free_frame_list s)" "Block_info_taken_list s \<noteq> []"
    using long[OF that(1)] longne[OF that] by blast
qed

end
