(* ===== verification/Kheap_Free.thy ===== *)
theory Kheap_Free
  imports Kheap_Correct
begin

text \<open>
  Correctness of \<open>kfree\<close>: the merging code on every branch, the loop that unmaps the pages of the
  block, and the invariant afterwards; and of the next-fit strategy of \<open>kmalloc\<close>.
\<close>

section \<open>Coalescing\<close>

definition kcoalesced :: "kstate \<Rightarrow> nat \<Rightarrow> kstate \<Rightarrow> bool" where
  "kcoalesced s tk s' \<longleftrightarrow>
     kfrees s' = release (region_of (blocks_info s tk)) (kfrees s) \<and>
     Block_info_taken_list s' = Block_info_taken_list s \<and>
     mset (Block_info_free_list s' @ free_blocks s') =
       add_mset tk (mset (Block_info_free_list s @ free_blocks s)) \<and>
     (\<forall>i. i \<notin> insert tk (set (Block_info_free_list s)) \<longrightarrow> blocks_info s' i = blocks_info s i) \<and>
     kmem s' = kmem s \<and> frames_info s' = frames_info s \<and> free_frame_list s' = free_frame_list s \<and>
     number_of_frames s' = number_of_frames s \<and> ptr_page_directory s' = ptr_page_directory s \<and>
     KHeapPlacementStrategy s' = KHeapPlacementStrategy s"

lemmas kcoalesced_defs = kcoalesced_def kfrees_def recycle_def set_block_def

lemma insert_free_sorted_coalesced:
  assumes "releasable (blocks_info s) (lo @ hi) tk"
    and fl: "Block_info_free_list s = lo @ hi" and ne: "lo @ hi \<noteq> []"
    and sp: "split_at (blocks_info s) lo tk hi"
    and "\<not> joins_low (blocks_info s) lo tk" and "\<not> joins_high (blocks_info s) tk hi"
  shows "\<exists>s'. insert_free_sorted tk (s\<lparr>last_va_in_kheap := x\<rparr>) = Inr ((), s') \<and> kcoalesced s tk s'"
    and "\<exists>s'. insert_free_sorted tk s = Inr ((), s') \<and> kcoalesced s tk s'"
proof -
  have "distinct (lo @ hi)" using assms(1) by (simp add: releasable_def)
  from insert_sorted_split[OF refl ne this, of "blocks_info s" tk] sp have
    ins: "insert_sorted (blocks_info s) (lo @ hi) tk = Inr (lo @ tk # hi)"
    by (simp add: split_at_def)
  show "\<exists>s'. insert_free_sorted tk (s\<lparr>last_va_in_kheap := x\<rparr>) = Inr ((), s') \<and> kcoalesced s tk s'"
    and "\<exists>s'. insert_free_sorted tk s = Inr ((), s') \<and> kcoalesced s tk s'"
    using merge_none[OF sp assms(5,6)] ins by (simp_all add: insert_free_sorted_def kcoalesced_defs fl)
qed

lemma kcoalesced_low:
  assumes r: "releasable (blocks_info s) (lo @ p # hi) tk" and fl: "Block_info_free_list s = lo @ p # hi"
    and m: "split_at (blocks_info s) (lo @ [p]) tk hi"
    "joins_low (blocks_info s) (lo @ [p]) tk" "\<not> joins_high (blocks_info s) tk hi"
  shows "kcoalesced s tk (recycle tk (set_block p ((blocks_info s p)
     \<lparr>blk_size := blk_size (blocks_info s p) + blk_size (blocks_info s tk)\<rparr>) s))"
  using merge_low[OF r m] fl by (auto simp: kcoalesced_defs)

lemma kcoalesced_high:
  assumes r: "releasable (blocks_info s) (lo @ q # hi) tk" and fl: "Block_info_free_list s = lo @ q # hi"
    and m: "split_at (blocks_info s) lo tk (q # hi)"
    "\<not> joins_low (blocks_info s) lo tk" "joins_high (blocks_info s) tk (q # hi)"
  shows "kcoalesced s tk (recycle tk (set_block q
     \<lparr>start_va = start_va (blocks_info s tk),
      blk_size = blk_size (blocks_info s q) + blk_size (blocks_info s tk)\<rparr> s))"
  using merge_high[OF r m] fl by (auto simp: kcoalesced_defs)

lemma kcoalesced_both:
  assumes r: "releasable (blocks_info s) (lo @ p # q # hi) tk"
    and fl: "Block_info_free_list s = lo @ p # q # hi"
    and m: "split_at (blocks_info s) (lo @ [p]) tk (q # hi)"
    "joins_low (blocks_info s) (lo @ [p]) tk" "joins_high (blocks_info s) tk (q # hi)"
  shows "kcoalesced s tk (recycle q (recycle tk
     ((set_block p ((blocks_info s p)\<lparr>blk_size := blk_size (blocks_info s p) +
        (blk_size (blocks_info s tk) + blk_size (blocks_info s q))\<rparr>) s)
       \<lparr>Block_info_free_list := remove1 q (lo @ p # q # hi)\<rparr>)))"
proof -
  have "remove1 q (lo @ p # q # hi) = lo @ p # hi"
    using r by (auto simp: releasable_def remove1_append)
  then show ?thesis using merge_both[OF r m] fl by (auto simp: kcoalesced_defs)
qed

text \<open>The neighbours the loop finds are the last block below and the first block above.\<close>

lemma Coalescing_heap_run:
  assumes sp: "split_at (blocks_info s) lo tk hi" and fl: "Block_info_free_list s = lo @ hi"
    and r: "releasable (blocks_info s) (lo @ hi) tk"
  shows "Coalescing_heap tk s =
    (case (if joins_low (blocks_info s) lo tk then Some (last lo) else None,
           if joins_high (blocks_info s) tk hi then Some (hd hi) else None) of
       (Some p, Some n) \<Rightarrow>
         Inr ((), recycle n (recycle tk
           ((set_block p ((blocks_info s p)\<lparr>blk_size := blk_size (blocks_info s p) +
              (blk_size (blocks_info s tk) + blk_size (blocks_info s n))\<rparr>) s)
             \<lparr>Block_info_free_list := remove1 n (lo @ hi)\<rparr>)))
     | (None, Some n) \<Rightarrow>
         Inr ((), recycle tk (set_block n
           \<lparr>start_va = start_va (blocks_info s tk),
            blk_size = blk_size (blocks_info s n) + blk_size (blocks_info s tk)\<rparr> s))
     | (Some p, None) \<Rightarrow>
         Inr ((), recycle tk (set_block p
           ((blocks_info s p)\<lparr>blk_size := blk_size (blocks_info s p) + blk_size (blocks_info s tk)\<rparr>) s))
     | (None, None) \<Rightarrow>
         insert_free_sorted tk
           (if KHeapPlacementStrategy s = PLACE_NEXTFIT \<and> start_va (blocks_info s tk) < last_va_in_kheap s
            then s\<lparr>last_va_in_kheap := start_va (blocks_info s tk)\<rparr> else s))"
proof -
  have pn: "foreach_pre_nex (\<lambda>c. start_va (blocks_info s c) \<le> start_va (blocks_info s tk)) None (lo @ hi) =
      (if lo = [] then None else last_opt lo, hd_opt hi)"
    by (rule foreach_pre_nex_split) (use sp in \<open>auto simp: split_at_def order_less_imp_le not_le\<close>)
  have jl: "joins_low (blocks_info s) lo tk \<longleftrightarrow> lo \<noteq> [] \<and>
      start_va (blocks_info s (last lo)) + blk_size (blocks_info s (last lo)) = start_va (blocks_info s tk)"
    using ends_eq_iff[OF r, of "last lo" tk] by (auto simp: joins_low_def)
  have jh: "joins_high (blocks_info s) tk hi \<longleftrightarrow> hi \<noteq> [] \<and>
      start_va (blocks_info s tk) + blk_size (blocks_info s tk) = start_va (blocks_info s (hd hi))"
    using ends_eq_iff[OF r, of tk "hd hi"] by (auto simp: joins_high_def)
  show ?thesis
    unfolding Coalescing_heap_def Let_def fl pn jl jh
    by (cases lo rule: rev_cases; cases hi) (simp_all split: option.splits)
qed

lemma Coalescing_heap_spec:
  assumes r: "releasable (blocks_info s) (Block_info_free_list s) tk" and ne: "Block_info_free_list s \<noteq> []"
  shows "\<exists>s'. Coalescing_heap tk s = Inr ((), s') \<and> kcoalesced s tk s'"
proof -
  obtain lo hi where fl: "Block_info_free_list s = lo @ hi" and sp: "split_at (blocks_info s) lo tk hi"
    by (rule releasable_split[OF r]) (simp add: split_at_def)
  note r' = r[unfolded fl] and ne' = ne[unfolded fl]
  note run = Coalescing_heap_run[OF sp fl r']
  show ?thesis
  proof (cases "joins_low (blocks_info s) lo tk")
    case True
    then obtain lo' p where lo: "lo = lo' @ [p]" by (cases lo rule: rev_cases) (auto simp: joins_low_def)
    show ?thesis
    proof (cases "joins_high (blocks_info s) tk hi")
      case True
      then obtain q hi' where hi: "hi = q # hi'" by (cases hi) (auto simp: joins_high_def)
      show ?thesis
        using kcoalesced_both[of s lo' p q hi' tk] r' fl sp True \<open>joins_low (blocks_info s) lo tk\<close> run
        by (simp add: lo hi)
    next
      case False
      then show ?thesis
        using kcoalesced_low[of s lo' p hi tk] r' fl sp \<open>joins_low (blocks_info s) lo tk\<close> run
        by (simp add: lo)
    qed
  next
    case False
    show ?thesis
    proof (cases "joins_high (blocks_info s) tk hi")
      case True
      then obtain q hi' where hi: "hi = q # hi'" by (cases hi) (auto simp: joins_high_def)
      show ?thesis
        using kcoalesced_high[of s lo q hi' tk] r' fl sp True False run by (simp add: hi)
    next
      case nh: False
      show ?thesis
        using insert_free_sorted_coalesced[OF r' fl ne' sp False nh] False nh run by simp
    qed
  qed
qed

text \<open>When nothing is free the released block cannot be inserted.\<close>

lemma Coalescing_heap_empty:
  assumes "Block_info_free_list s = []"
  shows "Coalescing_heap tk s = Inl NullDeref"
  using assms by (simp add: Coalescing_heap_def Let_def insert_free_sorted_def)

section \<open>kfree\<close>

lemma kernel_taken_releasable:
  assumes ok: "blocks_ok s" and b: "b \<in> set (Block_info_taken_list s)"
  shows "releasable (blocks_info s) (Block_info_free_list s) b"
proof -
  note d = blocks_okD[OF ok]
  have in_t: "region_of (blocks_info s b) \<in> set (ktakens s)" using b by (simp add: ktakens_def set_regions)
  have "unat (start_va (blocks_info s i)) + unat (blk_size (blocks_info s i)) < 2 ^ 32"
    if "i \<in> insert b (set (Block_info_free_list s))" for i
  proof -
    have "region_of (blocks_info s i) \<in> set (kfrees s) \<union> set (ktakens s)"
      using that in_t by (auto simp: kfrees_def set_regions)
    from d(8)[OF this] show ?thesis by simp
  qed
  moreover have "cells (region_of (blocks_info s b)) \<inter> cover (kfrees s) = {}"
    using d(5) cells_subset_cover[OF in_t] by blast
  moreover have "0 < snd (region_of (blocks_info s b))" by (rule d(3)[OF in_t])
  ultimately show ?thesis
    using d(1) blocks_ok_distinct[OF ok] b unfolding releasable_def
    by (auto simp: kdescriptors_def kfrees_def)
qed

lemma kernel_start_unique:
  assumes ok: "blocks_ok s" and "(a, n) \<in> set (ktakens s)" and "(a, m) \<in> set (ktakens s)"
  shows "n = m"
  using disjoint_regions_start[OF blocks_okD(2)[OF ok] assms(2,3)] blocks_okD(3)[OF ok] assms(2,3)
  by fastforce

lemma blocks_ok_free:
  assumes ok: "blocks_ok s" and t: "(a, n) \<in> set (ktakens s)"
    and fr: "kfrees s' = release (a, n) (kfrees s)"
    and tk: "mset (ktakens s') = mset (ktakens s) - {#(a, n)#}"
    and ds: "mset (kdescriptors s') = mset (kdescriptors s)"
  shows "blocks_ok s'" and "cover (kfrees s') = cells (a, n) \<union> cover (kfrees s)"
proof -
  note d = blocks_okD[OF ok]
  have pos: "0 < snd (a, n)" by (rule d(3)[OF t])
  have dis: "cells (a, n) \<inter> cover (kfrees s) = {}" using d(5) cells_subset_cover[OF t] by blast
  have perm: "mset (ktakens s) = mset ((a, n) # ktakens s')" using t tk by simp
  have dr: "disjoint_regions ((a, n) # ktakens s')" using d(2) disjoint_regions_mset[OF perm] by simp
  have cov: "cover (ktakens s) = cells (a, n) \<union> cover (ktakens s')"
    using cover_mset_cong[OF perm] by simp
  have sets: "set (ktakens s) = insert (a, n) (set (ktakens s'))" using mset_eq_setD[OF perm] by simp
  have al: "\<forall>r\<in>set (kfrees s'). page_aligned r"
    unfolding fr using d(7) t by (intro release_aligned[OF d(1) pos dis]) blast+
  show cf: "cover (kfrees s') = cells (a, n) \<union> cover (kfrees s)"
    unfolding fr by (rule release_cover[OF d(1) pos dis])
  have "gapped (kfrees s')" unfolding fr by (rule release_gapped[OF d(1) pos dis])
  moreover have "cells (a, n) \<inter> cover (ktakens s') = {}" and "disjoint_regions (ktakens s')"
    using dr by (auto simp: disjoint_regions_Cons)
  moreover have "cover (ktakens s') \<inter> cover (kfrees s') = {}"
    unfolding cf using d(5) cov calculation(2) by blast
  moreover have "cover (kfrees s') \<union> cover (ktakens s') = kernel_heap_cells"
    using cf cov d(6) by blast
  moreover have "\<forall>r\<in>set (ktakens s'). 0 < snd r" using d(3) sets by blast
  moreover have "\<forall>r\<in>set (kfrees s' @ ktakens s'). page_aligned r"
    unfolding set_append using al d(7) sets by blast
  moreover have "mset (kdescriptors s') = mset [0..<Max_number_of_blocks]"
    using ok ds by (simp add: blocks_ok_def)
  ultimately show "blocks_ok s'" by (simp add: blocks_ok_def)
qed

text \<open>The loop clears exactly the entries of the pages of the block.\<close>

lemma unmap_block:
  assumes r: "refs_inv T R {} s" "kslots K s" "\<forall>v. heap_page v \<longrightarrow> K v \<in> T"
    and c: "cells (unat start, unat n) \<subseteq> kernel_heap_cells" "4096 dvd unat start" "4096 dvd unat n"
  shows "\<exists>s'. for_n (unat (n div PAGE_SIZE)) 0 (\<lambda>j.
        unmap_frame (ptr_page_directory s) (start + of_nat j * PAGE_SIZE)) s = Inr ((), s') \<and>
      refs_inv T R {} s' \<and> kslots K s' \<and> same_rest s s' \<and>
      (\<forall>v. heap_page v \<longrightarrow> kmem s' (K v) = (if unat v \<in> cells (unat start, unat n) then 0 else kmem s (K v)))"
proof -
  let ?pg = "\<lambda>i. start + of_nat i * PAGE_SIZE"
  note b = block_pages[OF c]
  have N: "unat (n div PAGE_SIZE) = unat n div 4096" by (simp add: PAGE_SIZE_def unat_div)
  have hyp: "heap_page (?pg i) \<and> K (?pg i) \<in> T" if "0 \<le> i" "i < 0 + unat n div 4096" for i
    using b(1) r(3) that by simp
  obtain s' where s': "for_n (unat n div 4096) 0 (\<lambda>j. unmap_frame (ptr_page_directory s) (?pg j)) s = Inr ((), s')"
    "refs_inv T R {} s'" "kslots K s'" "same_rest s s'"
    "kmem s' = (\<lambda>a. if \<exists>i. 0 \<le> i \<and> i < 0 + unat n div 4096 \<and> a = K (?pg i) then 0 else kmem s a)"
    using unmap_loop[OF r(1,2) refl, where lo = 0 and n = "unat n div 4096" and pg = ?pg] hyp by blast
  have "kmem s' (K v) = (if unat v \<in> cells (unat start, unat n) then 0 else kmem s (K v))"
    if v: "heap_page v" for v
  proof -
    have "(\<exists>i. 0 \<le> i \<and> i < 0 + unat n div 4096 \<and> K v = K (?pg i)) \<longleftrightarrow>
        (\<exists>i. i < unat n div 4096 \<and> v = ?pg i)"
    proof -
      have "inj_on K {v. heap_page v}" using r(2) by (simp add: kslots_def)
      then have "K v = K (?pg i) \<longleftrightarrow> v = ?pg i" if "i < unat n div 4096" for i
        using v b(1)[OF that] by (auto dest: inj_onD)
      then show ?thesis by auto
    qed
    then show ?thesis unfolding s'(5) b(4)[OF v] by simp
  qed
  with s'(1-4) show ?thesis unfolding N by blast
qed

lemma kfree_absent:
  assumes "\<forall>n. (unat va, n) \<notin> set (ktakens s)"
  shows "kfree va s = Inr ((), s)"
proof -
  have "find (\<lambda>b. start_va (blocks_info s b) = va) (Block_info_taken_list s) = None"
    using assms by (auto simp: find_None_iff ktakens_def set_regions region_of_def)
  then show ?thesis by (simp add: kfree_def)
qed

lemma kfree_found:
  assumes inv: "kh_inv K T R s" and t: "(unat va, n) \<in> set (ktakens s)"
  obtains b s1 where "b \<in> set (Block_info_taken_list s)" and "region_of (blocks_info s b) = (unat va, n)"
    and "kfree va s = Coalescing_heap b (s1\<lparr>Block_info_taken_list := remove1 b (Block_info_taken_list s)\<rparr>)"
    and "refs_inv T R {} s1" and "kslots K s1" and "same_rest s s1"
    and "\<forall>v. heap_page v \<longrightarrow> kmem s1 (K v) = (if unat v \<in> cells (unat va, n) then 0 else kmem s (K v))"
proof -
  let ?bi = "blocks_info s"
  note ok = kh_invD(1)[OF inv]
  from t have "find (\<lambda>b. start_va (?bi b) = va) (Block_info_taken_list s) \<noteq> None"
    by (auto simp: find_None_iff ktakens_def set_regions region_of_def word_unat_eq_iff)
  then obtain b where b: "find (\<lambda>b. start_va (?bi b) = va) (Block_info_taken_list s) = Some b"
    by blast
  have n: "unat (blk_size (?bi b)) = n"
    using kernel_start_unique[OF ok t] utakens_find(1)[OF b] by (simp add: ktakens_def)
  have va: "start_va (?bi b) = va" and bt: "b \<in> set (Block_info_taken_list s)"
    using find_split[OF b] by auto
  have sub: "cells (unat va, n) \<subseteq> kernel_heap_cells"
    using cells_subset_cover[OF t] blocks_okD(6)[OF ok] by blast
  have "page_aligned (unat va, n)" using blocks_okD(7)[OF ok] t by blast
  then have al: "4096 dvd unat va" "4096 dvd n" by (simp_all add: page_aligned_def)
  have KT: "\<forall>v. heap_page v \<longrightarrow> K v \<in> T" using kh_invD(4)[OF inv] by blast
  from unmap_block[OF kh_invD(2,3)[OF inv] KT, of va "blk_size (?bi b)"] sub al n obtain s1 where
    s1: "for_n (unat (blk_size (?bi b) div PAGE_SIZE)) 0 (\<lambda>j.
        unmap_frame (ptr_page_directory s) (va + of_nat j * PAGE_SIZE)) s = Inr ((), s1)"
    "refs_inv T R {} s1" "kslots K s1" "same_rest s s1"
    "\<forall>v. heap_page v \<longrightarrow> kmem s1 (K v) = (if unat v \<in> cells (unat va, n) then 0 else kmem s (K v))"
    by auto
  have "kfree va s = Coalescing_heap b (s1\<lparr>Block_info_taken_list := remove1 b (Block_info_taken_list s)\<rparr>)"
    using b s1(1) same_restD(5)[OF s1(4)] by (simp add: kfree_def)
  with bt va n s1(2-5) show ?thesis by (intro that[of b s1]) (simp_all add: region_of_def)
qed

lemma kfree_taken:
  assumes inv: "kh_inv K T R s" and t: "(unat va, n) \<in> set (ktakens s)" and ne: "kfrees s \<noteq> []"
  shows "\<exists>s'. kfree va s = Inr ((), s') \<and> kh_inv K T R s' \<and> kfrees s' = release (unat va, n) (kfrees s) \<and>
    mset (ktakens s') = mset (ktakens s) - {#(unat va, n)#} \<and>
    KHeapPlacementStrategy s' = KHeapPlacementStrategy s"
proof -
  obtain b s1 where b: "b \<in> set (Block_info_taken_list s)" "region_of (blocks_info s b) = (unat va, n)"
    and run: "kfree va s = Coalescing_heap b (s1\<lparr>Block_info_taken_list := remove1 b (Block_info_taken_list s)\<rparr>)"
    and s1: "refs_inv T R {} s1" "kslots K s1" "same_rest s s1"
    "\<forall>v. heap_page v \<longrightarrow> kmem s1 (K v) = (if unat v \<in> cells (unat va, n) then 0 else kmem s (K v))"
    by (rule kfree_found[OF inv t])
  note ok = kh_invD(1)[OF inv] and r = same_restD[OF s1(3)]
  let ?s2 = "s1\<lparr>Block_info_taken_list := remove1 b (Block_info_taken_list s)\<rparr>"
  have "releasable (blocks_info ?s2) (Block_info_free_list ?s2) b"
    using kernel_taken_releasable[OF ok b(1)] r by simp
  moreover have "Block_info_free_list ?s2 \<noteq> []" using ne r by (auto simp: kfrees_def)
  ultimately obtain s' where s': "Coalescing_heap b ?s2 = Inr ((), s')" and c: "kcoalesced ?s2 b s'"
    using Coalescing_heap_spec by blast
  have ids: "distinct (kdescriptors s)" by (rule blocks_ok_distinct[OF ok])
  have fr: "kfrees s' = release (unat va, n) (kfrees s)"
    using c b(2) r by (simp add: kcoalesced_def kfrees_def)
  have tl: "Block_info_taken_list s' = remove1 b (Block_info_taken_list s)"
    using c by (simp add: kcoalesced_def)
  have same: "blocks_info s' i = blocks_info s i" if "i \<in> set (remove1 b (Block_info_taken_list s))" for i
  proof -
    have "i \<noteq> b" and "i \<notin> set (Block_info_free_list s)"
      using that ids by (auto simp: kdescriptors_def)
    then show ?thesis using c r by (simp add: kcoalesced_def)
  qed
  have "ktakens s' = regions (blocks_info s) (remove1 b (Block_info_taken_list s))"
    unfolding ktakens_def tl by (rule regions_cong) (rule same)
  then have tk: "mset (ktakens s') = mset (ktakens s) - {#(unat va, n)#}"
    using mset_regions_remove1[OF b(1), of "blocks_info s"] b(2) by (simp add: ktakens_def)
  have t1: "add_mset b (mset (Block_info_taken_list s')) = mset (Block_info_taken_list s)"
    using b(1) by (simp add: tl)
  have t2: "mset (Block_info_free_list s') + mset (free_blocks s') =
      add_mset b (mset (Block_info_free_list s) + mset (free_blocks s))"
    using c r by (simp add: kcoalesced_def)
  have "mset (kdescriptors s') = (mset (Block_info_free_list s') + mset (free_blocks s')) +
      mset (Block_info_taken_list s')" by (simp add: kdescriptors_def ac_simps)
  also have "\<dots> = mset (kdescriptors s)"
    unfolding t2 by (simp add: kdescriptors_def t1[symmetric] ac_simps)
  finally have ds: "mset (kdescriptors s') = mset (kdescriptors s)" .
  note ok' = blocks_ok_free[OF ok t fr tk ds]
  have mem: "kmem s' = kmem s1" "frames_info s' = frames_info s1" "free_frame_list s' = free_frame_list s1"
    "number_of_frames s' = number_of_frames s1" "ptr_page_directory s' = ptr_page_directory s1"
    using c by (simp_all add: kcoalesced_def)
  have "refs_inv T R {} s'" using s1(1) by (simp add: refs_inv_cong[OF mem(1-4)])
  moreover have "kslots K s'" by (rule kslots_cong[OF mem(1,5,4) s1(2)])
  moreover have "kmem s' (K v) = 0 \<longleftrightarrow> unat v \<in> cover (kfrees s')" if v: "heap_page v" for v
    using s1(4) v kh_invD(5)[OF inv v] by (auto simp: mem(1) ok'(2))
  ultimately have "kh_inv K T R s'" using ok'(1) kh_invD(4)[OF inv] by (simp add: kh_inv_def backed_def)
  moreover have "KHeapPlacementStrategy s' = KHeapPlacementStrategy s" using c r by (simp add: kcoalesced_def)
  ultimately show ?thesis using run s' fr tk by auto
qed

lemma kfree_full:
  assumes inv: "kh_inv K T R s" and t: "(unat va, n) \<in> set (ktakens s)" and "kfrees s = []"
  shows "kfree va s = Inl NullDeref"
proof -
  obtain b s1 where run: "kfree va s = Coalescing_heap b (s1\<lparr>Block_info_taken_list := remove1 b (Block_info_taken_list s)\<rparr>)"
    and s1: "same_rest s s1" by (rule kfree_found[OF inv t])
  have "Block_info_free_list s = []" using assms(3) by (simp add: kfrees_def)
  then show ?thesis unfolding run using same_restD[OF s1] by (intro Coalescing_heap_empty) simp
qed

section \<open>Next fit\<close>

text \<open>
  The search in closed form, for a list in address order: the lowest block at or after the last
  allocation that is long enough, and otherwise the lowest one below it.
\<close>

lemma next_fit_search_eq:
  assumes "sorted_wrt (\<lambda>x y. start_va (bi x) < start_va (bi y)) xs"
    and "\<forall>b. bef = Some b \<longrightarrow> (\<forall>x\<in>set xs. start_va (bi b) < start_va (bi x))"
  shows "fst (next_fit_search bi lst sz bef xs) =
      find (\<lambda>b. sz \<le> blk_size (bi b) \<and> lst \<le> start_va (bi b)) xs"
    and "fst (next_fit_search bi lst sz bef xs) = None \<Longrightarrow>
      snd (next_fit_search bi lst sz bef xs) =
        (case bef of Some b \<Rightarrow> Some b | None \<Rightarrow> find (\<lambda>b. sz \<le> blk_size (bi b)) xs)"
proof -
  have "fst (next_fit_search bi lst sz bef xs) =
      find (\<lambda>b. sz \<le> blk_size (bi b) \<and> lst \<le> start_va (bi b)) xs \<and>
    (fst (next_fit_search bi lst sz bef xs) = None \<longrightarrow>
      snd (next_fit_search bi lst sz bef xs) =
        (case bef of Some b \<Rightarrow> Some b | None \<Rightarrow> find (\<lambda>b. sz \<le> blk_size (bi b)) xs))"
    using assms
  proof (induction xs arbitrary: bef)
    case Nil
    then show ?case by (cases bef) auto
  next
    case (Cons x xs)
    show ?case
    proof (cases bef)
      case None
      then show ?thesis using Cons.IH[of None] Cons.IH[of "Some x"] Cons.prems by auto
    next
      case (Some b)
      then have "\<not> start_va (bi x) \<le> start_va (bi b)" using Cons.prems(2) by (simp add: not_le)
      then show ?thesis using Some Cons.IH[of bef] Cons.prems by auto
    qed
  qed
  then show "fst (next_fit_search bi lst sz bef xs) =
      find (\<lambda>b. sz \<le> blk_size (bi b) \<and> lst \<le> start_va (bi b)) xs"
    and "fst (next_fit_search bi lst sz bef xs) = None \<Longrightarrow>
      snd (next_fit_search bi lst sz bef xs) =
        (case bef of Some b \<Rightarrow> Some b | None \<Rightarrow> find (\<lambda>b. sz \<le> blk_size (bi b)) xs)" by blast+
qed

lemma gapped_starts_sorted:
  assumes "gapped (regions bi ids)"
  shows "sorted_wrt (\<lambda>x y. start_va (bi x) < start_va (bi y)) ids"
proof -
  have "sorted_wrt (\<lambda>x y. before (region_of (bi x)) (region_of (bi y))) ids"
    using assms by (simp add: gapped_def regions_def sorted_wrt_map)
  then show ?thesis
    by (rule sorted_wrt_mono_rel[rotated]) (simp add: before_def word_less_nat_alt)
qed

text \<open>The block next fit chooses, as a function of the free list and of the last allocation.\<close>

definition next_fit_choice :: "nat \<Rightarrow> nat \<Rightarrow> region list \<Rightarrow> region option" where
  "next_fit_choice lst n rs =
     (case find (\<lambda>r. n \<le> snd r \<and> lst \<le> fst r) rs of Some r \<Rightarrow> Some r
      | None \<Rightarrow> find (\<lambda>r. n \<le> snd r) rs)"

lemma find_regions:
  "find (\<lambda>r. P (fst r) (snd r)) (regions bi ids) =
   map_option (\<lambda>i. region_of (bi i)) (find (\<lambda>i. P (unat (start_va (bi i))) (unat (blk_size (bi i)))) ids)"
  by (induction ids) auto

definition next_fit_block :: "uint32 \<Rightarrow> kstate \<Rightarrow> nat option" where
  "next_fit_block n s =
     (case next_fit_search (blocks_info s) (last_va_in_kheap s) n None (Block_info_free_list s) of
        (Some a, _) \<Rightarrow> Some a | (None, bef) \<Rightarrow> bef)"

lemma next_fit_block_choice:
  assumes "gapped (kfrees s)"
  shows "map_option (\<lambda>f. region_of (blocks_info s f)) (next_fit_block n s) =
    next_fit_choice (unat (last_va_in_kheap s)) (unat n) (kfrees s)"
proof -
  let ?bi = "blocks_info s" and ?fl = "Block_info_free_list s"
  have "sorted_wrt (\<lambda>x y. start_va (?bi x) < start_va (?bi y)) ?fl"
    using gapped_starts_sorted assms by (simp add: kfrees_def)
  note s = next_fit_search_eq[OF this, of None "last_va_in_kheap s" n, simplified]
  have "next_fit_block n s = (case find (\<lambda>b. n \<le> blk_size (?bi b) \<and> last_va_in_kheap s \<le> start_va (?bi b)) ?fl of
      Some a \<Rightarrow> Some a | None \<Rightarrow> find (\<lambda>b. n \<le> blk_size (?bi b)) ?fl)"
    using s by (auto simp: next_fit_block_def split: prod.splits option.splits)
  then show ?thesis
    using find_regions[of "\<lambda>a m. unat n \<le> m \<and> unat (last_va_in_kheap s) \<le> a" ?bi ?fl]
      find_regions[of "\<lambda>a m. unat n \<le> m" ?bi ?fl]
    by (simp add: next_fit_choice_def kfrees_def word_le_nat_alt split: option.splits)
qed

lemma next_fit_block_in:
  assumes "gapped (kfrees s)" and "next_fit_block n s = Some f"
  shows "f \<in> set (Block_info_free_list s)" and "unat n \<le> unat (blk_size (blocks_info s f))"
proof -
  let ?bi = "blocks_info s" and ?fl = "Block_info_free_list s"
  have "sorted_wrt (\<lambda>x y. start_va (?bi x) < start_va (?bi y)) ?fl"
    using gapped_starts_sorted assms by (simp add: kfrees_def)
  note s = next_fit_search_eq[OF this, of None "last_va_in_kheap s" n, simplified]
  have "next_fit_block n s = (case find (\<lambda>b. n \<le> blk_size (?bi b) \<and> last_va_in_kheap s \<le> start_va (?bi b)) ?fl of
      Some a \<Rightarrow> Some a | None \<Rightarrow> find (\<lambda>b. n \<le> blk_size (?bi b)) ?fl)"
    using s by (auto simp: next_fit_block_def split: prod.splits option.splits)
  with assms(2) show "f \<in> set ?fl" and "unat n \<le> unat (blk_size (?bi f))"
    by (auto simp: find_Some_iff word_le_nat_alt split: option.splits)
qed

lemma next_fit_None:
  assumes "next_fit_block (ROUNDUP sz PAGE_SIZE) s = None"
  shows "next_fit_allocation km sz s = Inr (0, s)"
  using assms
  by (auto simp: next_fit_allocation_def next_fit_block_def Let_def split: prod.splits option.splits)

lemma next_fit_run:
  assumes "next_fit_block n s = Some b" and "n = ROUNDUP sz PAGE_SIZE"
  shows "next_fit_allocation km sz s =
     (let tmp = start_va (blocks_info s b) in
      seqm (back_pages km tmp n)
       (bnd k_allocate_block (\<lambda>ptr.
          seqm (modify (\<lambda>s. (set_block ptr \<lparr>start_va = tmp, blk_size = n\<rparr> s)
                   \<lparr>Block_info_taken_list := ptr # Block_info_taken_list s\<rparr>))
            (ret tmp))) ((cut_block b n s)\<lparr>last_va_in_kheap := tmp\<rparr>))"
  using assms
  by (auto simp: next_fit_allocation_def next_fit_block_def Let_def seqm_def bnd_apply
      split: prod.splits option.splits)

lemma next_fit_Some:
  assumes inv: "kh_inv K T R s" and n: "n = ROUNDUP sz PAGE_SIZE" "0 < unat n"
    and nb: "next_fit_block n s = Some f"
  shows "length (free_frame_list s) < unat n div 4096 \<Longrightarrow> next_fit_allocation km sz s = Inl NullDeref"
    and "unat n div 4096 \<le> length (free_frame_list s) \<Longrightarrow>
      \<exists>s' as bs. next_fit_allocation km sz s = Inr (start_va (blocks_info s f), s') \<and> kh_inv K T R s' \<and>
        start_va (blocks_info s f) \<noteq> 0 \<and>
        kfrees s = as @ region_of (blocks_info s f) # bs \<and>
        kfrees s' = as @ shrink_first (unat n) (region_of (blocks_info s f)) @ bs \<and>
        mset (ktakens s') = add_mset (unat (start_va (blocks_info s f)), unat n) (mset (ktakens s)) \<and>
        KHeapPlacementStrategy s' = KHeapPlacementStrategy s \<and>
        last_va_in_kheap s' = start_va (blocks_info s f) \<and>
        free_frame_list s' = drop (unat n div 4096) (free_frame_list s)"
proof -
  let ?st = "start_va (blocks_info s f)"
  note ok = kh_invD(1)[OF inv]
  note nf = next_fit_block_in[OF blocks_okD(1)[OF ok] nb]
  from nf(1) obtain as bs where fl: "Block_info_free_list s = as @ f # bs" by (meson split_list)
  note cut = cut_block_spec[OF ok fl nf(2)] and fr_facts = free_region_facts[OF ok nf]
  let ?s1 = "(cut_block f n s)\<lparr>last_va_in_kheap := ?st\<rparr>"
  have r1: "refs_inv T R {} ?s1" using kh_invD(2)[OF inv] by (simp add: refs_inv_cong[of ?s1 s])
  have k1: "kslots K ?s1" by (rule kslots_cong[OF _ _ _ kh_invD(3)[OF inv]]) simp_all
  have zero: "\<forall>v. heap_page v \<longrightarrow> unat v \<in> cells (unat ?st, unat n) \<longrightarrow> kmem ?s1 (K v) = 0"
    using kh_invD(5)[OF inv] fr_facts(1) by auto
  have KT: "\<forall>v. heap_page v \<longrightarrow> K v \<in> T" using kh_invD(4)[OF inv] by blast
  note bb = back_block[OF r1 k1 KT fr_facts(2,3) ROUNDUP_page_facts[OF n(1)] zero, where km = km]
  note run = next_fit_run[OF nb n(1), of km, unfolded Let_def]
  show "next_fit_allocation km sz s = Inl NullDeref" if "length (free_frame_list s) < unat n div 4096"
    unfolding run using bb(2) that by simp
  assume enough: "unat n div 4096 \<le> length (free_frame_list s)"
  then obtain s2 where s2: "back_pages km ?st n ?s1 = Inr ((), s2)" "refs_inv T R {} s2" "kslots K s2"
    "same_rest ?s1 s2" "free_frame_list s2 = drop (unat n div 4096) (free_frame_list s)"
    "\<forall>v. heap_page v \<longrightarrow> (if unat v \<in> cells (unat ?st, unat n) then kmem s2 (K v) \<noteq> 0
                          else kmem s2 (K v) = kmem ?s1 (K v))"
    using bb(1) by auto
  note r = same_restD[OF s2(4)] and b = same_rest_blocks[OF s2(4)]
  have same: "kfrees ?s1 = kfrees (cut_block f n s)" "ktakens ?s1 = ktakens s"
    "kdescriptors ?s1 = kdescriptors (cut_block f n s)"
    using cut(2) by (simp_all add: kfrees_def ktakens_def kdescriptors_def)
  from cut(4) obtain ptr ps where "free_blocks (cut_block f n s) = ptr # ps"
    by (cases "free_blocks (cut_block f n s)") auto
  then have ps: "free_blocks s2 = ptr # ps" using r(6) by simp
  let ?s3 = "(set_block ptr \<lparr>start_va = ?st, blk_size = n\<rparr> (s2\<lparr>free_blocks := ps\<rparr>))
    \<lparr>Block_info_taken_list := ptr # Block_info_taken_list s2\<rparr>"
  have run3: "next_fit_allocation km sz s = Inr (?st, ?s3)"
    unfolding run by (simp add: s2(1) k_allocate_block_def bnd_apply seqm_def ps)
  have dist: "distinct (kdescriptors s2)"
    using blocks_ok_distinct[OF ok] cut(3) b(3) same(3) by (metis mset_eq_imp_distinct_iff)
  have td: "kfrees ?s3 = kfrees s2" "mset (ktakens ?s3) = add_mset (unat ?st, unat n) (mset (ktakens s2))"
    "mset (kdescriptors ?s3) = mset (kdescriptors s2)"
    by (rule take_descriptor[OF dist ps]; simp add: set_block_def)+
  let ?as = "regions (blocks_info s) as" and ?bs = "regions (blocks_info s) bs"
  have k: "kfrees s = ?as @ region_of (blocks_info s f) # ?bs" by (simp add: kfrees_def fl)
  have frees: "kfrees ?s3 = ?as @ shrink_first (unat n) (region_of (blocks_info s f)) @ ?bs"
    using td(1) b(1) same(1) cut(1) by simp
  have takens: "mset (ktakens ?s3) = add_mset (unat ?st, unat n) (mset (ktakens s))"
    using td(2) b(2) same(2) by simp
  have "kh_inv K T R ?s3"
  proof (rule kh_inv_alloc[OF inv n(2) ROUNDUP_page_facts[OF n(1)] _ k frees])
    show "unat n \<le> snd (region_of (blocks_info s f))" using nf(2) by simp
    show "mset (ktakens ?s3) = add_mset (fst (region_of (blocks_info s f)), unat n) (mset (ktakens s))"
      using takens by simp
    show "mset (kdescriptors ?s3) = mset (kdescriptors s)" using td(3) b(3) same(3) cut(3) by simp
    show "refs_inv T R {} ?s3" by (subst refs_inv_cong[of _ s2]) (simp_all add: set_block_def s2(2))
    show "kslots K ?s3" by (rule kslots_cong[OF _ _ _ s2(3)]) (simp_all add: set_block_def)
    show "if unat v \<in> cells (fst (region_of (blocks_info s f)), unat n) then kmem ?s3 (K v) \<noteq> 0
        else kmem ?s3 (K v) = kmem s (K v)" if "heap_page v" for v
      using s2(6) that by (simp add: set_block_def)
  qed
  with run3 k frees takens fr_facts(4) r s2(5) show "\<exists>s' as bs. next_fit_allocation km sz s = Inr (?st, s') \<and>
      kh_inv K T R s' \<and> ?st \<noteq> 0 \<and> kfrees s = as @ region_of (blocks_info s f) # bs \<and>
      kfrees s' = as @ shrink_first (unat n) (region_of (blocks_info s f)) @ bs \<and>
      mset (ktakens s') = add_mset (unat ?st, unat n) (mset (ktakens s)) \<and>
      KHeapPlacementStrategy s' = KHeapPlacementStrategy s \<and> last_va_in_kheap s' = ?st \<and>
      free_frame_list s' = drop (unat n div 4096) (free_frame_list s)"
    by (intro exI[of _ ?s3] exI[of _ ?as] exI[of _ ?bs]) (simp add: set_block_def)
qed

end
