(* ===== verification/Paging_Props.thy ===== *)
theory Paging_Props
  imports Paging_Correct
begin

text \<open>
  The properties of the page table operations, with a small concrete machine on which each of
  them is instantiated.
\<close>

section \<open>A small machine\<close>

definition zero_kstate :: kstate where
  "zero_kstate = \<lparr>kmem = (\<lambda>_. 0), frames_info = (\<lambda>_. zero_frame_info), number_of_frames = 0,
     free_frame_list = [], modified_frame_list = [], frame_data = (\<lambda>_ _. 0),
     ptr_page_directory = 0, phys_page_directory = 0, ptr_free_mem = 0, ptr_zero_page = 0,
     ptr_temp_page = 0, blocks_info = (\<lambda>_. zero_block), Block_info_free_list = [],
     Block_info_taken_list = [], free_blocks = [], last_va_in_kheap = KERNEL_HEAP_START,
     KHeapPlacementStrategy = PLACE_CONTALLOC, UHeapPlacementStrategy = 0,
     disk_free_frame_list = [], disk_data = (\<lambda>_ _. 0), disk_error = (\<lambda>_. 0),
     envs = (\<lambda>_. zero_env), env_free_list = [], env_ready_queue = [], env_new_queue = [],
     env_exit_queue = [], curenv = None, sched_next = None, scheduler_started = False,
     PageRepAlgoType = PG_REP_NONE, EnableModifiedBuffer = 0, EnableBuffering = 0,
     ModifiedBufferLength = 0, bypassInstrLength = 0, tstcnt = 0, time = 0, cr2 = 0,
     semaphores = (\<lambda>_. zero_semaphore), semaphores_ptr = 0, MAX_SEMAPHORES = 0,
     shares = (\<lambda>_. zero_share), shares_ptr = 0, MAX_SHARES = 0, hw = []\<rparr>"

text \<open>
  Its page directory is at 0xF0300000 and has one page table, in frame 0x301, for the first four
  megabytes of the kernel heap; frames 0x400 to 0x402 are free and the rest is reserved.
\<close>

definition machine :: kstate where
  "machine = zero_kstate\<lparr>ptr_page_directory := 0xF0300000, number_of_frames := 0x403,
     free_frame_list := [0x400, 0x401, 0x402],
     kmem := (\<lambda>a. if a = 0xF0300F60 then 0x301003 else 0),
     last_va_in_kheap := KERNEL_HEAP_START\<rparr>"

definition heap_slots :: "uint32 set" where
  "heap_slots = {0xF0301000, 0xF0301004, 0xF0301008}"

lemma machine_slot:
  "slot 0xF0300000 0xF6000000 machine = Some 0xF0301000"
  "slot 0xF0300000 0xF6001000 machine = Some 0xF0301004"
  by (simp_all add: slot_def table_of_def Let_def machine_def word_at_def PDX_def PTX_def
      PAGE_SIZE_def PERM_PRESENT_def table_address_def CHECK_IF_KERNEL_ADDRESS_def layout_defs
      STATIC_KERNEL_VIRTUAL_ADDRESS_def EXTRACT_ADDRESS_def PPN_def)

lemma machine_refs: "refs_inv heap_slots {0..<0x400} {} machine"
proof -
  have "frame_ok {0..<0x400} machine f \<longleftrightarrow> f \<in> {0x400, 0x401, 0x402}" for f
    by (auto simp: frame_ok_def machine_def)
  moreover have "kmem machine a = 0" if "a \<in> heap_slots" for a
    using that by (auto simp: machine_def heap_slots_def)
  moreover from this have "mapped heap_slots (kmem machine) f = {}" for f by (auto simp: mapped_def)
  ultimately show ?thesis
    by (simp add: refs_inv_def heap_slots_def) (simp add: machine_def zero_kstate_def zero_frame_info_def)
qed

section \<open>Reference counting\<close>

text \<open>C7: Mapping a frame over any page keeps the reference counts right: the old frame of the page
  loses a reference (and is freed if it was the last), the new one gains one, the entry holds the
  frame's address with the requested permissions, and no other entry changes.\<close>

theorem map_frame_keeps_refcounts:
  assumes "refs_inv T R A s" and "slot pgdir va s = Some w" and "w \<in> T"
    and "frame_ok R s fi" and "fi \<notin> set (free_frame_list s)" and "card (mapped T (kmem s) fi) < 65535"
    and "perm_bits perm" and "frame_of (kmem s w) \<noteq> fi \<or> kmem s w = 0"
  shows "\<exists>s'. map_frame km pgdir fi va perm s = Inr ((), s') \<and> refs_inv T R (A - {fi}) s' \<and>
    kmem s' = (kmem s)(w := CONSTRUCT_ENTRY (to_physical_address fi) (perm OR PERM_PRESENT))"
  by (rule map_frame_refs[OF assms])

theorem map_frame_keeps_refcounts_witness:
  "\<exists>s1 s2. allocate_frame kmalloc machine = Inr (0x400, s1) \<and>
     map_frame kmalloc 0xF0300000 0x400 0xF6000000 PERM_WRITEABLE s1 = Inr ((), s2) \<and>
     kmem s2 0xF0301000 = 0x400003 \<and> refs_inv heap_slots {0..<0x400} {} s2"
proof -
  have "free_frame_list machine = 0x400 # [0x401, 0x402]" by (simp add: machine_def)
  from allocate_frame_refs[OF machine_refs this, of kmalloc] obtain s1 where s1:
    "allocate_frame kmalloc machine = Inr (0x400, s1)" "refs_inv heap_slots {0..<0x400} {0x400} s1"
    "free_frame_list s1 = [0x401, 0x402]" "mapped heap_slots (kmem s1) 0x400 = {}" "kmem s1 = kmem machine"
    by blast
  have n: "number_of_frames s1 = 0x403"
    using s1(1) by (auto simp: allocate_frame_def machine_def bnd_apply seqm_def zero_kstate_def
        zero_frame_info_def initialize_frame_info_def)
  have "slot 0xF0300000 0xF6000000 s1 = slot 0xF0300000 0xF6000000 machine"
    using s1(5) n by (simp add: slot_def table_of_def Let_def table_address_def
        CHECK_IF_KERNEL_ADDRESS_def layout_defs STATIC_KERNEL_VIRTUAL_ADDRESS_def machine_def
        split: sum.splits)
  then have "slot 0xF0300000 0xF6000000 s1 = Some 0xF0301000" by (simp add: machine_slot)
  moreover have "frame_ok {0..<0x400} s1 0x400" by (simp add: frame_ok_def n)
  moreover have "kmem s1 0xF0301000 = 0" by (simp add: s1(5) machine_def)
  ultimately have "\<exists>s2. map_frame kmalloc 0xF0300000 0x400 0xF6000000 PERM_WRITEABLE s1 = Inr ((), s2) \<and>
      refs_inv heap_slots {0..<0x400} ({0x400} - {0x400}) s2 \<and> kmem s2 = (kmem s1)(0xF0301000 :=
        CONSTRUCT_ENTRY (to_physical_address 0x400) (PERM_WRITEABLE OR PERM_PRESENT))"
    using s1(3,4)
    by (intro map_frame_keeps_refcounts[OF s1(2)]) (simp_all add: heap_slots_def perm_bits_def PERM_WRITEABLE_def)
  with s1(1) show ?thesis
    by (auto simp: CONSTRUCT_ENTRY_def to_physical_address_def perm_defs)
qed

text \<open>C8: Unmapping a page always returns, clears exactly its entry and keeps the reference counts
  right: the frame is returned to the free list when, and only when, no other page refers to it.\<close>

theorem unmap_frame_keeps_refcounts:
  assumes "refs_inv T R A s" and "slot pgdir va s = Some w" and "w \<in> T"
  shows "\<exists>s'. unmap_frame pgdir va s = Inr ((), s') \<and> refs_inv T R A s' \<and> kmem s' = (kmem s)(w := 0)"
  by (rule unmap_frame_refs[OF assms])

theorem unmap_frame_keeps_refcounts_witness:
  "\<exists>s'. unmap_frame 0xF0300000 0xF6001000 machine = Inr ((), s') \<and> kmem s' 0xF0301004 = 0"
  using unmap_frame_keeps_refcounts[OF machine_refs machine_slot(2)] by (auto simp: heap_slots_def)

text \<open>A frame that is handed out is on no page of any address space and is not one that another
  caller was given and has not mapped yet; the rest of the free list is untouched.\<close>

theorem allocate_frame_unmapped:
  assumes "refs_inv T R A s" and "free_frame_list s = fi # fl"
  shows "\<exists>s'. allocate_frame km s = Inr (fi, s') \<and> refs_inv T R (insert fi A) s' \<and>
    free_frame_list s' = fl \<and> mapped T (kmem s') fi = {} \<and> fi \<notin> A"
  using allocate_frame_refs[OF assms] by blast

theorem allocate_frame_unmapped_witness:
  "\<exists>s'. allocate_frame kmalloc machine = Inr (0x400, s') \<and> free_frame_list s' = [0x401, 0x402] \<and>
     mapped heap_slots (kmem s') 0x400 = {}"
proof -
  have "free_frame_list machine = 0x400 # [0x401, 0x402]" by (simp add: machine_def)
  from allocate_frame_unmapped[OF machine_refs this, of kmalloc] show ?thesis by blast
qed

text \<open>With no free frame left, \<open>allocate_frame\<close> does not report failure: it goes on with a null
  pointer, so the checks for NULL that its callers make are never reached.\<close>

theorem allocate_frame_exhausted:
  assumes "free_frame_list s = []"
  shows "allocate_frame km s = Inl NullDeref"
  using assms by (simp add: allocate_frame_def bnd_apply)

theorem allocate_frame_exhausted_witness:
  "allocate_frame kmalloc zero_kstate = Inl NullDeref"
  by (rule allocate_frame_exhausted) (simp add: zero_kstate_def)

section \<open>Mapping and lookup\<close>

lemma slot_stable:
  assumes "slot pgdir va s = Some w"
    and "kmem s' (word_at pgdir (PDX va)) = kmem s (word_at pgdir (PDX va))"
    and "number_of_frames s' = number_of_frames s"
    and "\<not> CHECK_IF_KERNEL_ADDRESS va \<Longrightarrow>
      fi_va (frames_info s' (frame_of (kmem s (word_at pgdir (PDX va))))) =
      fi_va (frames_info s (frame_of (kmem s (word_at pgdir (PDX va)))))"
  shows "slot pgdir va s' = Some w"
proof -
  have "table_of pgdir va s' = table_of pgdir va s"
    using assms(2-4)
    by (auto simp: table_of_def Let_def table_address_def kheap_virtual_address_def frame_of_def
        STATIC_KERNEL_VIRTUAL_ADDRESS_def split: sum.splits)
  with assms(1) show ?thesis by (simp add: slot_def)
qed

text \<open>What is mapped is what is found: after \<open>map_frame\<close> the page leads to the frame, and its
  entry carries exactly the requested permissions and the present bit.\<close>

theorem map_then_lookup:
  assumes "slot pgdir va s = Some w" and "kmem s w = 0" and "fi < unat (number_of_frames s)"
    and "fi < 2 ^ 20" and "perm_bits perm" and "w \<noteq> word_at pgdir (PDX va)"
    and "frame_of (kmem s (word_at pgdir (PDX va))) \<noteq> fi"
  shows "\<exists>s' pt. map_frame km pgdir fi va perm s = Inr ((), s') \<and>
    get_frame_info pgdir va s' = Inr ((Some fi, pt), s') \<and> w = word_at pt (PTX va) \<and>
    kmem s' w AND 0xFFF = perm OR PERM_PRESENT"
proof -
  let ?e = "CONSTRUCT_ENTRY (to_physical_address fi) (perm OR PERM_PRESENT)"
  let ?s' = "(inc_ref fi va s)\<lparr>kmem := (kmem s)(w := ?e)\<rparr>"
  have "\<not> kmem s w AND PERM_PRESENT = PERM_PRESENT" using assms(2) by (auto simp: PERM_PRESENT_def)
  then have run: "map_frame km pgdir fi va perm s = Inr ((), ?s')"
    using map_frame_slot[OF assms(1,4), of km perm] by simp
  have sl: "slot pgdir va ?s' = Some w"
    using assms(6,7) by (intro slot_stable[OF assms(1)]) (simp_all add: inc_ref_def)
  have e: "frame_of ?e = fi" and nz: "?e \<noteq> 0" and p: "?e AND 0xFFF = perm OR PERM_PRESENT"
    using frame_of_entry[OF perm_bits_present[OF assms(5)] assms(4)] entry_nonzero[OF entry_present]
      EXTRACT_entry(2)[OF perm_bits_present[OF assms(5)]] by auto
  obtain pt where "get_frame_info pgdir va ?s' = Inr ((Some fi, pt), ?s')" "w = word_at pt (PTX va)"
    by (rule get_frame_info_slot[OF sl]) (use e nz assms(3) in simp_all)
  with run p show ?thesis by auto
qed

theorem map_then_lookup_witness:
  "\<exists>s' pt. map_frame kmalloc 0xF0300000 0x402 0xF6001000 PERM_WRITEABLE machine = Inr ((), s') \<and>
    get_frame_info 0xF0300000 0xF6001000 s' = Inr ((Some 0x402, pt), s') \<and> kmem s' 0xF0301004 AND 0xFFF = 3"
proof -
  have "kmem machine 0xF0301004 = 0" and "(0x402::nat) < unat (number_of_frames machine)"
    and "perm_bits PERM_WRITEABLE" and "(0xF0301004::uint32) \<noteq> word_at 0xF0300000 (PDX 0xF6001000)"
    and "frame_of (kmem machine (word_at 0xF0300000 (PDX 0xF6001000))) \<noteq> 0x402"
    by (simp_all add: machine_def perm_bits_def PERM_WRITEABLE_def word_at_def PDX_def frame_of_def PPN_def)
  from map_then_lookup[OF machine_slot(2) this(1,2) _ this(3-5), of kmalloc]
  show ?thesis by (auto simp: perm_defs)
qed

text \<open>Mapping a frame again on a page that already has it changes nothing: the requested
  permissions are dropped, although the operation promises an entry with them.\<close>

theorem remap_keeps_old_permissions:
  assumes "slot pgdir va s = Some w" and "fi < 2 ^ 20" and "kmem s w AND PERM_PRESENT = PERM_PRESENT"
    and "frame_of (kmem s w) = fi" and "fi < unat (number_of_frames s)"
  shows "map_frame km pgdir fi va perm s = Inr ((), s)"
  using map_frame_slot[OF assms(1,2), of km perm] assms(3-5) by simp

theorem remap_keeps_old_permissions_witness:
  "map_frame kmalloc 0xF0300000 0x402 0xF6000000 PERM_USER
     (machine\<lparr>kmem := (kmem machine)(0xF0301000 := 0x402003)\<rparr>) =
   Inr ((), machine\<lparr>kmem := (kmem machine)(0xF0301000 := 0x402003)\<rparr>)"
proof (rule remap_keeps_old_permissions)
  show "slot 0xF0300000 0xF6000000 (machine\<lparr>kmem := (kmem machine)(0xF0301000 := 0x402003)\<rparr>) =
      Some 0xF0301000"
    by (rule slot_stable[OF machine_slot(1)])
      (simp_all add: word_at_def PDX_def CHECK_IF_KERNEL_ADDRESS_def layout_defs)
qed (simp_all add: PERM_PRESENT_def frame_of_def PPN_def machine_def)

lemma slot_same_page:
  assumes "PDX va' = PDX va" and "PTX va' = PTX va"
    and "CHECK_IF_KERNEL_ADDRESS va' = CHECK_IF_KERNEL_ADDRESS va"
  shows "slot pgdir va' s = slot pgdir va s"
  using assms by (simp only: slot_def table_of_def table_address_def)

lemma kernel_heap_page_addresses:
  assumes "KERNEL_HEAP_START \<le> va" and "va AND 0xFFF = 0" and "off < 4096"
  shows "CHECK_IF_KERNEL_ADDRESS va \<and> CHECK_IF_KERNEL_ADDRESS (va + off)"
proof -
  have "unat (PPN (va + off)) = unat (PPN va)" using aligned_plus(1)[OF assms(2,3)] by simp
  then have "unat (va + off) div 4096 = unat va div 4096" by (simp add: unat_PPN)
  moreover have ge: "0xF6000000 \<le> unat va" using assms(1) by (simp add: KERNEL_HEAP_START_def word_le_nat_alt)
  then have "0xF6000 \<le> unat va div 4096" by (simp add: less_eq_div_iff_mult_less_eq)
  ultimately have "0xF6000 \<le> unat (va + off) div 4096" by simp
  then have "0xF6000000 \<le> unat (va + off)" by (simp add: less_eq_div_iff_mult_less_eq)
  then have "(0xF6000000 :: uint32) \<le> va + off" and "(0xF6000000 :: uint32) \<le> va"
    using ge by (simp_all add: word_le_nat_alt)
  moreover have "USER_TOP \<le> 0xF6000000" by (simp add: layout_defs)
  moreover have "x \<le> 0xFFFFFFFF" for x :: uint32
    using unsigned_less[of x, where ?'a = nat] by (simp add: word_le_nat_alt)
  ultimately show ?thesis unfolding CHECK_IF_KERNEL_ADDRESS_def by (meson order_trans)
qed

text \<open>The two address translations of the kernel heap are inverse on a page that was just mapped:
  the virtual address of the physical address of \<open>va\<close> is \<open>va\<close>, offset included.\<close>

theorem kheap_translation_roundtrip:
  assumes "slot (ptr_page_directory s) va s = Some w" and "kmem s w = 0"
    and "fi < unat (number_of_frames s)" and "fi < 2 ^ 20" and "perm_bits perm"
    and "w \<noteq> word_at (ptr_page_directory s) (PDX va)"
    and "KERNEL_HEAP_START \<le> va" and "va AND 0xFFF = 0" and "off < 4096"
  shows "\<exists>s' pa. map_frame km (ptr_page_directory s) fi va perm s = Inr ((), s') \<and>
    kheap_physical_address (va + off) s' = Inr (pa, s') \<and> pa = to_physical_address fi + off \<and>
    kheap_virtual_address pa s' = Inr (va + off, s')"
proof -
  let ?pd = "ptr_page_directory s"
  let ?e = "CONSTRUCT_ENTRY (to_physical_address fi) (perm OR PERM_PRESENT)"
  let ?s' = "(inc_ref fi va s)\<lparr>kmem := (kmem s)(w := ?e)\<rparr>"
  let ?pa = "to_physical_address fi + off"
  have "\<not> kmem s w AND PERM_PRESENT = PERM_PRESENT" using assms(2) by (auto simp: PERM_PRESENT_def)
  then have run: "map_frame km ?pd fi va perm s = Inr ((), ?s')"
    using map_frame_slot[OF assms(1,4), of km perm] by simp
  have kern: "CHECK_IF_KERNEL_ADDRESS va" "CHECK_IF_KERNEL_ADDRESS (va + off)"
    using kernel_heap_page_addresses[OF assms(7-9)] by simp_all
  have "slot ?pd va ?s' = Some w"
    using assms(6) kern(1) by (intro slot_stable[OF assms(1)]) simp_all
  then have "slot ?pd (va + off) ?s' = Some w"
    by (subst slot_same_page[OF aligned_plus_indices[OF assms(8,9)]]) (use kern in simp_all)
  from slotE[OF this] obtain pt where pt: "w = word_at pt (PTX (va + off))" "PAGE_SIZE \<le> w"
    "get_page_table ?pd (va + off) ?s' = Inr ((TABLE_IN_MEMORY, pt), ?s')" by blast
  have e: "PPN ?e = of_nat fi"
    using EXTRACT_entry(1)[OF perm_bits_present[OF assms(5)], of fi] PPN_to_physical_address[OF assms(4)]
    by (metis PPN_EXTRACT)
  have pa: "drop_bit 12 ?e * PAGE_SIZE = to_physical_address fi"
    using e by (simp add: PPN_def to_physical_address_def PAGE_SIZE_def push_bit_eq_mult)
  have pge: "PAGE_SIZE \<le> word_at pt (PTX (va + off))" using pt(1,2) by simp
  have "kheap_physical_address (va + off) ?s' = Inr (?pa, ?s')"
    using pt(1,3) pge pa aligned_plus(2)[OF assms(8,9)]
    by (simp add: kheap_physical_address_def inc_ref_def)
  moreover have "kheap_virtual_address ?pa ?s' = Inr (va + off, ?s')"
    using aligned_plus[OF to_physical_address_aligned assms(9)] PPN_to_physical_address[OF assms(4)] assms(3,4)
    by (simp add: kheap_virtual_address_def inc_ref_def word_le_nat_alt unsigned_of_nat take_bit_nat_eq_self)
  ultimately show ?thesis using run by blast
qed

theorem kheap_translation_roundtrip_witness:
  "\<exists>s'. map_frame kmalloc 0xF0300000 0x402 0xF6001000 PERM_WRITEABLE machine = Inr ((), s') \<and>
    kheap_physical_address 0xF6001234 s' = Inr (0x402234, s') \<and>
    kheap_virtual_address 0x402234 s' = Inr (0xF6001234, s')"
proof -
  have pd: "ptr_page_directory machine = 0xF0300000" by (simp add: machine_def)
  have "kmem machine 0xF0301004 = 0" and "(0x402::nat) < unat (number_of_frames machine)"
    and "perm_bits PERM_WRITEABLE" and "(0xF0301004::uint32) \<noteq> word_at 0xF0300000 (PDX 0xF6001000)"
    by (simp_all add: machine_def perm_bits_def PERM_WRITEABLE_def word_at_def PDX_def)
  from kheap_translation_roundtrip[of machine "0xF6001000", unfolded pd, OF machine_slot(2) this(1,2) _ this(3,4),
      of "0x234" kmalloc]
  show ?thesis by (auto simp: KERNEL_HEAP_START_def to_physical_address_def)
qed

text \<open>The translation is lost as soon as the frame of a kernel heap page is mapped somewhere else
  as well, which \<open>initialize_environment\<close> does with the frames of the page working set: the virtual
  address of the frame is then the new page, not the kernel heap page.\<close>

theorem second_mapping_breaks_translation:
  assumes "slot pgdir dva s = Some w" and "kmem s w = 0" and "fi < unat (number_of_frames s)"
    and "fi < 2 ^ 20"
  shows "\<exists>s'. map_frame km pgdir fi dva perm s = Inr ((), s') \<and>
    kheap_virtual_address (to_physical_address fi) s' = Inr (dva, s')"
proof -
  have "\<not> kmem s w AND PERM_PRESENT = PERM_PRESENT" using assms(2) by (auto simp: PERM_PRESENT_def)
  then show ?thesis
    using map_frame_slot[OF assms(1,4), of km perm] PPN_to_physical_address[OF assms(4)] assms(3,4)
      to_physical_address_aligned[of fi]
    by (simp add: kheap_virtual_address_def inc_ref_def word_le_nat_alt unsigned_of_nat take_bit_nat_eq_self)
qed

theorem second_mapping_breaks_translation_witness:
  "\<exists>s'. map_frame kmalloc 0xF0300000 0x402 0xF6001000 PERM_USER machine = Inr ((), s') \<and>
    kheap_virtual_address 0x402000 s' = Inr (0xF6001000, s')"
proof -
  have "kmem machine 0xF0301004 = 0" and "(0x402::nat) < unat (number_of_frames machine)"
    by (simp_all add: machine_def)
  from second_mapping_breaks_translation[OF machine_slot(2) this, of kmalloc PERM_USER]
  show ?thesis by (simp add: to_physical_address_def)
qed

end
