(* ===== verification/Kheap_Props.thy ===== *)
theory Kheap_Props
  imports Kheap_Free Paging_Props
begin

text \<open>
  The properties of the kernel heap: \<open>kmalloc\<close> with its two searching strategies, \<open>kfree\<close>, any
  history of the two, and the error paths.
\<close>

section \<open>The strategies\<close>

lemma kmalloc_strategies:
  "KHeapPlacementStrategy s = PLACE_FIRSTFIT \<Longrightarrow> kmalloc sz s = first_fit_allocation (kmalloc_depth 2) sz s"
  "KHeapPlacementStrategy s = PLACE_NEXTFIT \<Longrightarrow> kmalloc sz s = next_fit_allocation (kmalloc_depth 2) sz s"
  "KHeapPlacementStrategy s = PLACE_CONTALLOC \<Longrightarrow> kmalloc sz s = cont_allocation (kmalloc_depth 2) sz s"
  by (simp_all add: kmalloc_def kmalloc_body_def numeral_3_eq_3 numeral_2_eq_2)

lemma kh_inv_strategy [simp]: "kh_inv K T R (s\<lparr>KHeapPlacementStrategy := p\<rparr>) = kh_inv K T R s"
proof -
  have "kslots K (s\<lparr>KHeapPlacementStrategy := p\<rparr>) = kslots K s"
    using kslots_cong[of "s\<lparr>KHeapPlacementStrategy := p\<rparr>" s K]
      kslots_cong[of s "s\<lparr>KHeapPlacementStrategy := p\<rparr>" K] by auto
  then show ?thesis
    by (simp add: kh_inv_def blocks_ok_def backed_def kfrees_def ktakens_def kdescriptors_def
        refs_inv_def frame_ok_def)
qed

lemma strategy_regions [simp]:
  "kfrees (s\<lparr>KHeapPlacementStrategy := p\<rparr>) = kfrees s" "ktakens (s\<lparr>KHeapPlacementStrategy := p\<rparr>) = ktakens s"
  by (simp_all add: kfrees_def ktakens_def)

section \<open>The interface of a heap\<close>

definition kernel_len :: "placement \<times> uint32 \<Rightarrow> nat" where
  "kernel_len q = unat (ROUNDUP (snd q) PAGE_SIZE)"

text \<open>The strategy is set, then the request is made; a block is freed under whatever strategy is set.\<close>

definition kernel_alloc :: "placement \<times> uint32 \<Rightarrow> kstate \<Rightarrow> nat \<Rightarrow> kstate \<Rightarrow> bool" where
  "kernel_alloc q s a s' \<longleftrightarrow> fst q \<in> {PLACE_FIRSTFIT, PLACE_NEXTFIT} \<and> 0 < kernel_len q \<and>
     (\<exists>p. kmalloc (snd q) (s\<lparr>KHeapPlacementStrategy := fst q\<rparr>) = Inr (p, s') \<and> p \<noteq> 0 \<and> a = unat p)"

definition kernel_first_alloc :: "placement \<times> uint32 \<Rightarrow> kstate \<Rightarrow> nat \<Rightarrow> kstate \<Rightarrow> bool" where
  "kernel_first_alloc q s a s' \<longleftrightarrow> fst q = PLACE_FIRSTFIT \<and> kernel_alloc q s a s'"

definition kernel_dealloc :: "nat \<Rightarrow> kstate \<Rightarrow> kstate \<Rightarrow> bool" where
  "kernel_dealloc a s s' \<longleftrightarrow> (\<exists>va n st. a = unat va \<and> (a, n) \<in> set (ktakens s) \<and>
     kfree va (s\<lparr>KHeapPlacementStrategy := st\<rparr>) = Inr ((), s'))"

lemma kmalloc_first_fit_cases:
  assumes inv: "kh_inv K T R s" and st: "KHeapPlacementStrategy s = PLACE_FIRSTFIT"
    and n: "n = ROUNDUP sz PAGE_SIZE" "0 < unat n" and res: "kmalloc sz s = Inr (p, s')"
  shows "p = 0 \<and> s' = s \<and> take_fit (unat n) (kfrees s) = None \<or>
    p \<noteq> 0 \<and> take_fit (unat n) (kfrees s) = Some (unat p, kfrees s') \<and> kh_inv K T R s' \<and>
    mset (ktakens s') = add_mset (unat p, unat n) (mset (ktakens s))"
proof (cases "take_fit (unat n) (kfrees s)")
  case None
  then show ?thesis
    using res first_fit_None[of sz s] n(1) by (simp add: kmalloc_strategies(1)[OF st])
next
  case (Some z)
  obtain a fr where z: "z = (a, fr)" by force
  note f = first_fit_Some[OF inv n Some[unfolded z], of "kmalloc_depth 2"]
  have "unat n div 4096 \<le> length (free_frame_list s)" and "Block_info_taken_list s \<noteq> []"
    using f(1,2) res by (auto simp: kmalloc_strategies(1)[OF st] not_less[symmetric])
  from f(3)[OF this] res Some z show ?thesis by (auto simp: kmalloc_strategies(1)[OF st])
qed

lemma kmalloc_next_fit_cases:
  assumes inv: "kh_inv K T R s" and st: "KHeapPlacementStrategy s = PLACE_NEXTFIT"
    and n: "n = ROUNDUP sz PAGE_SIZE" "0 < unat n" and res: "kmalloc sz s = Inr (p, s')"
  shows "p = 0 \<and> s' = s \<and> next_fit_choice (unat (last_va_in_kheap s)) (unat n) (kfrees s) = None \<or>
    p \<noteq> 0 \<and> kh_inv K T R s' \<and> mset (ktakens s') = add_mset (unat p, unat n) (mset (ktakens s)) \<and>
    (\<exists>m as bs. next_fit_choice (unat (last_va_in_kheap s)) (unat n) (kfrees s) = Some (unat p, m) \<and>
      unat n \<le> m \<and> kfrees s = as @ (unat p, m) # bs \<and>
      kfrees s' = as @ shrink_first (unat n) (unat p, m) @ bs)"
proof -
  note g = blocks_okD(1)[OF kh_invD(1)[OF inv]]
  note c = next_fit_block_choice[OF g, of n]
  show ?thesis
  proof (cases "next_fit_block n s")
    case None
    then show ?thesis
      using res next_fit_None[of sz s] n(1) c by (simp add: kmalloc_strategies(2)[OF st])
  next
    case (Some f)
    note nf = next_fit_Some[OF inv n Some, of "kmalloc_depth 2"]
    have "unat n div 4096 \<le> length (free_frame_list s)"
      using nf(1) res by (auto simp: kmalloc_strategies(2)[OF st] not_less[symmetric])
    from nf(2)[OF this] obtain s2 as bs where x:
      "next_fit_allocation (kmalloc_depth 2) sz s = Inr (start_va (blocks_info s f), s2)" "kh_inv K T R s2"
      "start_va (blocks_info s f) \<noteq> 0" "kfrees s = as @ region_of (blocks_info s f) # bs"
      "kfrees s2 = as @ shrink_first (unat n) (region_of (blocks_info s f)) @ bs"
      "mset (ktakens s2) = add_mset (unat (start_va (blocks_info s f)), unat n) (mset (ktakens s))" by blast
    have p: "p = start_va (blocks_info s f)" "s' = s2" using x(1) res by (simp_all add: kmalloc_strategies(2)[OF st])
    let ?m = "unat (blk_size (blocks_info s f))"
    have reg: "region_of (blocks_info s f) = (unat p, ?m)" by (simp add: region_of_def p)
    have "next_fit_choice (unat (last_va_in_kheap s)) (unat n) (kfrees s) = Some (unat p, ?m)"
      unfolding c[symmetric] Some option.map reg ..
    moreover have "kfrees s = as @ (unat p, ?m) # bs"
      and "kfrees s' = as @ shrink_first (unat n) (unat p, ?m) @ bs"
      using x(4,5) unfolding reg p(2) by blast+
    moreover have "p \<noteq> 0" "kh_inv K T R s'" "mset (ktakens s') = add_mset (unat p, unat n) (mset (ktakens s))"
      using x(2,3,6) unfolding p by blast+
    moreover note next_fit_block_in(2)[OF g Some]
    ultimately show ?thesis by blast
  qed
qed

lemma kernel_alloc_facts:
  assumes inv: "kh_inv K T R s" and al: "kernel_alloc q s a s'"
  shows "kh_inv K T R s'" and "cover (kfrees s) = cells (a, kernel_len q) \<union> cover (kfrees s')"
    and "mset (ktakens s') = add_mset (a, kernel_len q) (mset (ktakens s))"
    and "fst q = PLACE_FIRSTFIT \<Longrightarrow> take_fit (kernel_len q) (kfrees s) = Some (a, kfrees s')"
proof -
  let ?s = "s\<lparr>KHeapPlacementStrategy := fst q\<rparr>"
  from al obtain p where p: "kmalloc (snd q) ?s = Inr (p, s')" "p \<noteq> 0" "a = unat p"
    and pos: "0 < unat (ROUNDUP (snd q) PAGE_SIZE)" and st: "fst q = PLACE_FIRSTFIT \<or> fst q = PLACE_NEXTFIT"
    by (auto simp: kernel_alloc_def kernel_len_def)
  have i: "kh_inv K T R ?s" using inv by simp
  note g = blocks_okD(1)[OF kh_invD(1)[OF inv]]
  have ff: "take_fit (kernel_len q) (kfrees s) = Some (a, kfrees s') \<and> kh_inv K T R s' \<and>
      mset (ktakens s') = add_mset (a, kernel_len q) (mset (ktakens s))" if "fst q = PLACE_FIRSTFIT"
    using kmalloc_first_fit_cases[OF i _ refl pos p(1)] that p(2,3) by (auto simp: kernel_len_def)
  have nf: "kh_inv K T R s' \<and> mset (ktakens s') = add_mset (a, kernel_len q) (mset (ktakens s)) \<and>
      cover (kfrees s) = cells (a, kernel_len q) \<union> cover (kfrees s')" if "fst q = PLACE_NEXTFIT"
  proof -
    from kmalloc_next_fit_cases[OF i _ refl pos p(1)] that p(2) obtain m as bs where
      k: "kh_inv K T R s'" "mset (ktakens s') = add_mset (unat p, unat (ROUNDUP (snd q) PAGE_SIZE)) (mset (ktakens s))"
      "unat (ROUNDUP (snd q) PAGE_SIZE) \<le> m" "kfrees s = as @ (unat p, m) # bs"
      "kfrees s' = as @ shrink_first (unat (ROUNDUP (snd q) PAGE_SIZE)) (unat p, m) @ bs" by auto
    from cut_region(1)[OF g[unfolded k(4)], of "unat (ROUNDUP (snd q) PAGE_SIZE)"] k p(3)
    show ?thesis by (simp add: kernel_len_def)
  qed
  show "kh_inv K T R s'" and "mset (ktakens s') = add_mset (a, kernel_len q) (mset (ktakens s))"
    using ff nf st by blast+
  show "cover (kfrees s) = cells (a, kernel_len q) \<union> cover (kfrees s')"
    using take_fit_cover(1)[OF _ g] ff nf st by blast
  show "take_fit (kernel_len q) (kfrees s) = Some (a, kfrees s')" if "fst q = PLACE_FIRSTFIT"
    using ff that by blast
qed

lemma kernel_dealloc_facts:
  assumes inv: "kh_inv K T R s" and d: "kernel_dealloc a s s'"
  shows "kh_inv K T R s'" and "\<exists>n. (a, n) \<in> set (ktakens s) \<and>
    mset (ktakens s') = mset (ktakens s) - {#(a, n)#} \<and> kfrees s' = release (a, n) (kfrees s)"
proof -
  from d obtain va n st where va: "a = unat va" "(unat va, n) \<in> set (ktakens s)"
    "kfree va (s\<lparr>KHeapPlacementStrategy := st\<rparr>) = Inr ((), s')"
    by (auto simp: kernel_dealloc_def)
  let ?s = "s\<lparr>KHeapPlacementStrategy := st\<rparr>"
  have i: "kh_inv K T R ?s" and t: "(unat va, n) \<in> set (ktakens ?s)" using inv va(2) by simp_all
  have "kfrees ?s \<noteq> []" using kfree_full[OF i t] va(3) by auto
  from kfree_taken[OF i t this] va show "kh_inv K T R s'" and "\<exists>n. (a, n) \<in> set (ktakens s) \<and>
    mset (ktakens s') = mset (ktakens s) - {#(a, n)#} \<and> kfrees s' = release (a, n) (kfrees s)"
    by auto
qed

interpretation kernel_heap: region_heap "kh_inv K T R" kfrees ktakens kernel_len kernel_alloc kernel_dealloc
proof unfold_locales
  fix s assume "kh_inv K T R s"
  note d = blocks_okD[OF kh_invD(1)[OF this]]
  show "gapped (kfrees s)" and "disjoint_regions (ktakens s)" and "cover (ktakens s) \<inter> cover (kfrees s) = {}"
    and "r \<in> set (ktakens s) \<Longrightarrow> 0 < snd r" for r by (rule d; assumption)+
next
  fix s q a s' assume "kh_inv K T R s" and "kernel_alloc q s a s'"
  note f = kernel_alloc_facts[OF this]
  show "kh_inv K T R s'" and "cover (kfrees s) = cells (a, kernel_len q) \<union> cover (kfrees s')"
    and "mset (ktakens s') = add_mset (a, kernel_len q) (mset (ktakens s))" by (rule f)+
next
  fix s a s' assume "kh_inv K T R s" and "kernel_dealloc a s s'"
  note f = kernel_dealloc_facts[OF this]
  show "kh_inv K T R s'" and "\<exists>n. (a, n) \<in> set (ktakens s) \<and>
    mset (ktakens s') = mset (ktakens s) - {#(a, n)#} \<and> kfrees s' = release (a, n) (kfrees s)"
    by (rule f)+
qed

interpretation kernel_first_fit: first_fit_heap "kh_inv K T R" kfrees ktakens kernel_len
  kernel_first_alloc kernel_dealloc
proof unfold_locales
  fix s q a s' assume i: "kh_inv K T R s" and "kernel_first_alloc q s a s'"
  then have al: "kernel_alloc q s a s'" and st: "fst q = PLACE_FIRSTFIT"
    by (simp_all add: kernel_first_alloc_def)
  note f = kernel_alloc_facts[OF i al]
  show "kh_inv K T R s'" and "cover (kfrees s) = cells (a, kernel_len q) \<union> cover (kfrees s')"
    and "mset (ktakens s') = add_mset (a, kernel_len q) (mset (ktakens s))" by (rule f)+
  show "take_fit (kernel_len q) (kfrees s) = Some (a, kfrees s')" by (rule f(4)[OF st])
qed (rule kernel_heap.inv_gapped kernel_heap.inv_taken_disjoint kernel_heap.inv_free_taken
    kernel_heap.inv_taken_pos kernel_heap.dealloc_inv kernel_heap.dealloc_free; assumption)+

section \<open>A concrete kernel\<close>

text \<open>
  A kernel heap with nothing allocated: its forty page tables are in frames 0x301 to 0x328 and
  empty, all of it is one free block, and no block is taken; four frames are free.
\<close>

definition kernel_start :: kstate where
  "kernel_start = zero_kstate\<lparr>ptr_page_directory := 0xF0300000, number_of_frames := 0x404,
     free_frame_list := [0x400, 0x401, 0x402, 0x403],
     kmem := (\<lambda>a. if 0xF0300F60 \<le> a \<and> a \<le> 0xF0300FFC
       then CONSTRUCT_ENTRY (to_physical_address (0x301 + (unat a - 0xF0300F60) div 4))
              (PERM_WRITEABLE OR PERM_PRESENT)
       else 0),
     blocks_info := (\<lambda>_. zero_block)(0 := \<lparr>start_va = KERNEL_HEAP_START,
       blk_size = KERNEL_HEAP_MAX - KERNEL_HEAP_START\<rparr>),
     Block_info_free_list := [0], free_blocks := [1..<Max_number_of_blocks],
     KHeapPlacementStrategy := PLACE_NEXTFIT\<rparr>"

definition kernel_slot :: "uint32 \<Rightarrow> uint32" where
  "kernel_slot v = of_nat (0xF0301000 + 4 * (unat v div 4096 - 0xF6000))"

definition kernel_slots :: "uint32 set" where
  "kernel_slots = kernel_slot ` {v. heap_page v}"

lemma unat_PDX: "unat (PDX v) = unat v div 4194304"
proof -
  have "unat v div 4194304 < 1024" using unsigned_less[of v, where ?'a = nat] by simp
  then show ?thesis
    unfolding PDX_def and_0x3FF unsigned_take_bit_eq unat_drop_bit_eq
    by (simp add: take_bit_eq_mod drop_bit_eq_div)
qed

lemma unat_PTX: "unat (PTX v) = unat v div 4096 mod 1024"
  unfolding PTX_def and_0x3FF unsigned_take_bit_eq unat_drop_bit_eq
  by (simp add: take_bit_eq_mod drop_bit_eq_div)

lemma heap_page_range:
  assumes "heap_page v"
  shows "984 \<le> unat v div 4194304" and "unat v div 4194304 < 1024" and "0xF6000 \<le> unat v div 4096"
    and "unat v div 4096 < 0xFFFFF" and "unat v div 4096 = 1024 * (unat v div 4194304) + unat v div 4096 mod 1024"
proof -
  have b: "0xF6000000 \<le> unat v" "unat v < 0xFFFFF000"
    using assms by (simp_all add: heap_page_iff kernel_heap_cells_eq)
  show "984 \<le> unat v div 4194304" and "0xF6000 \<le> unat v div 4096"
    using b(1) by (simp_all add: less_eq_div_iff_mult_less_eq)
  show "unat v div 4194304 < 1024" and "unat v div 4096 < 0xFFFFF" using b(2) by simp_all
  have "unat v div 4096 div 1024 = unat v div 4194304" by (simp add: div_mult2_eq[symmetric])
  then show "unat v div 4096 = 1024 * (unat v div 4194304) + unat v div 4096 mod 1024"
    using mult_div_mod_eq[of 1024 "unat v div 4096"] by simp
qed

lemma kernel_slot_nat:
  assumes "heap_page v"
  shows "unat (kernel_slot v) = 0xF0301000 + 4 * (unat v div 4096 - 0xF6000)"
  unfolding kernel_slot_def
  by (rule unat_of_nat_small) (use heap_page_range(3,4)[OF assms] in simp)

lemma kernel_start_pde:
  assumes "heap_page v"
  shows "unat (word_at 0xF0300000 (PDX v)) = 0xF0300000 + 4 * (unat v div 4194304)"
    and "kmem kernel_start (word_at 0xF0300000 (PDX v)) =
      CONSTRUCT_ENTRY (to_physical_address (0x301 + (unat v div 4194304 - 984))) (PERM_WRITEABLE OR PERM_PRESENT)"
proof -
  note h = heap_page_range(1,2)[OF assms]
  have "unat (4 * PDX v) = 4 * (unat v div 4194304)"
    using h by (simp add: unat_word_ariths unat_PDX)
  then show u: "unat (word_at 0xF0300000 (PDX v)) = 0xF0300000 + 4 * (unat v div 4194304)"
    unfolding word_at_def using h by (subst word_add_le_unat) simp_all
  have "(0xF0300F60 :: uint32) \<le> word_at 0xF0300000 (PDX v)" "word_at 0xF0300000 (PDX v) \<le> (0xF0300FFC :: uint32)"
    using h by (simp_all add: word_le_nat_alt u)
  moreover have "(unat (word_at 0xF0300000 (PDX v)) - 0xF0300F60) div 4 = unat v div 4194304 - 984"
    using h by (simp add: u)
  ultimately show "kmem kernel_start (word_at 0xF0300000 (PDX v)) =
      CONSTRUCT_ENTRY (to_physical_address (0x301 + (unat v div 4194304 - 984))) (PERM_WRITEABLE OR PERM_PRESENT)"
    by (simp add: kernel_start_def)
qed

lemma kernel_start_slot:
  assumes v: "heap_page v"
  shows "slot 0xF0300000 v kernel_start = Some (kernel_slot v)"
proof -
  note h = heap_page_range[OF v]
  let ?t = "0x301 + (unat v div 4194304 - 984)" and ?a = "word_at 0xF0300000 (PDX v)"
  let ?e = "CONSTRUCT_ENTRY (to_physical_address ?t) (PERM_WRITEABLE OR PERM_PRESENT)"
  have t: "?t < 2 ^ 20" "?t < 0x329" using h by simp_all
  have pb: "perm_bits (PERM_WRITEABLE OR PERM_PRESENT)" by (simp add: perm_bits_present)
  have ea: "EXTRACT_ADDRESS ?e = to_physical_address ?t" by (rule EXTRACT_entry(1)[OF pb])
  have ppn: "PPN (to_physical_address ?t) = of_nat ?t" by (rule PPN_to_physical_address[OF t(1)])
  have "unat (of_nat ?t :: uint32) = ?t" by (rule unat_of_nat_small) (use t in simp)
  then have "\<not> number_of_frames kernel_start \<le> PPN (EXTRACT_ADDRESS ?e)"
    unfolding ea ppn using t by (simp add: kernel_start_def word_le_nat_alt)
  then have ta: "table_address v ?e kernel_start = Inr (to_physical_address ?t + KERNEL_BASE, kernel_start)"
    using heap_page_kernel[OF v] ea by (simp add: table_address_def STATIC_KERNEL_VIRTUAL_ADDRESS_def)
  have "\<not> ?a < PAGE_SIZE" using kernel_start_pde(1)[OF v] by (simp add: word_less_nat_alt PAGE_SIZE_def)
  then have tab: "table_of 0xF0300000 v kernel_start = Some (to_physical_address ?t + KERNEL_BASE)"
    unfolding table_of_def Let_def kernel_start_pde(2)[OF v] ta using entry_present by simp
  have pt: "unat (to_physical_address ?t + KERNEL_BASE) = ?t * 4096 + 0xF0000000"
    using t unat_to_physical_address[OF t(1)] by (subst word_add_le_unat) (simp_all add: KERNEL_BASE_def)
  have "unat (4 * PTX v) = 4 * (unat v div 4096 mod 1024)" by (simp add: unat_word_ariths unat_PTX)
  then have w: "unat (word_at (to_physical_address ?t + KERNEL_BASE) (PTX v)) =
      ?t * 4096 + 0xF0000000 + 4 * (unat v div 4096 mod 1024)"
  proof -
    have "?t * 4096 \<le> 0x328 * 4096" using t by (intro mult_le_mono1) simp
    moreover have "unat v div 4096 mod 1024 < 1024" by simp
    ultimately have "unat (to_physical_address ?t + KERNEL_BASE) + 4 * (unat v div 4096 mod 1024) < 0x100000000"
      unfolding pt by linarith
    then show ?thesis
      unfolding word_at_def using pt \<open>unat (4 * PTX v) = _\<close> by (subst word_add_le_unat) simp_all
  qed
  have "unat (word_at (to_physical_address ?t + KERNEL_BASE) (PTX v)) = unat (kernel_slot v)"
  proof -
    have "(0x301 + (x - 984)) * 4096 + 0xF0000000 + 4 * m = 0xF0301000 + 4 * (y - 0xF6000)"
      if "984 \<le> x" "0xF6000 \<le> y" "y = 1024 * x + m" for x y m :: nat
      using that by (simp add: algebra_simps)
    from this[OF h(1,3,5)] show ?thesis unfolding w kernel_slot_nat[OF v] .
  qed
  then have "word_at (to_physical_address ?t + KERNEL_BASE) (PTX v) = kernel_slot v"
    by (simp add: word_unat_eq_iff)
  moreover have "to_physical_address ?t + KERNEL_BASE \<noteq> 0" using pt by auto
  moreover have "\<not> kernel_slot v < PAGE_SIZE"
    by (simp add: word_less_nat_alt kernel_slot_nat[OF v] PAGE_SIZE_def)
  ultimately show ?thesis by (simp add: slot_def tab)
qed

lemma kernel_slots_zero: "a \<in> kernel_slots \<Longrightarrow> kmem kernel_start a = 0"
  using kernel_slot_nat by (auto simp: kernel_slots_def kernel_start_def word_le_nat_alt)

lemma kernel_start_kslots: "kslots kernel_slot kernel_start"
proof -
  have pd: "ptr_page_directory kernel_start = 0xF0300000" by (simp add: kernel_start_def)
  have "inj_on kernel_slot {v. heap_page v}"
  proof (rule inj_onI)
    fix v w assume v: "v \<in> {v. heap_page v}" "w \<in> {v. heap_page v}" and eq: "kernel_slot v = kernel_slot w"
    then have "unat v div 4096 - 0xF6000 = unat w div 4096 - 0xF6000"
      using kernel_slot_nat[of v] kernel_slot_nat[of w] by simp
    moreover have "0xF6000 \<le> unat v div 4096" "0xF6000 \<le> unat w div 4096"
      using v heap_page_range(3) by simp_all
    ultimately have "unat v div 4096 = unat w div 4096" by linarith
    moreover have "4096 dvd unat v" "4096 dvd unat w" using v by (simp_all add: heap_page_iff)
    ultimately show "v = w" by (metis dvd_div_mult_self word_unat_eq_iff)
  qed
  moreover have "kernel_slot v \<noteq> word_at 0xF0300000 (PDX w)" if v: "heap_page v" for v w
  proof
    assume eq: "kernel_slot v = word_at 0xF0300000 (PDX w)"
    have lt: "unat (PDX w) < 1024"
      unfolding unat_PDX using unsigned_less[of w, where ?'a = nat] by simp
    then have "unat (4 * PDX w) = 4 * unat (PDX w)" by (simp add: unat_word_ariths)
    with lt have "unat (word_at 0xF0300000 (PDX w)) = 0xF0300000 + 4 * unat (PDX w)"
      unfolding word_at_def by (subst word_add_le_unat) simp_all
    with lt kernel_slot_nat[OF v] eq show False by simp
  qed
  ultimately show ?thesis unfolding kslots_def pd using kernel_start_slot by blast
qed

lemma kernel_start_refs: "refs_inv kernel_slots {0..<0x400} {} kernel_start"
proof -
  have "mapped kernel_slots (kmem kernel_start) f = {}" for f
    using kernel_slots_zero by (auto simp: mapped_def)
  moreover have "finite kernel_slots" by (simp add: kernel_slots_def)
  ultimately show ?thesis
    using kernel_slots_zero
    by (simp add: refs_inv_def frame_ok_def) (auto simp: kernel_start_def zero_kstate_def zero_frame_info_def)
qed

lemma kernel_start_regions: "kfrees kernel_start = [(0xF6000000, 0x09FFF000)]" "ktakens kernel_start = []"
  by (simp_all add: kernel_start_def kfrees_def ktakens_def region_of_def layout_defs zero_kstate_def)

lemma kernel_start_inv: "kh_inv kernel_slot kernel_slots {0..<0x400} kernel_start"
proof -
  have "mset (kdescriptors kernel_start) = mset (0 # [1..<Max_number_of_blocks])"
    by (simp add: kdescriptors_def kernel_start_def zero_kstate_def)
  also have "0 # [1..<Max_number_of_blocks] = [0..<Max_number_of_blocks]"
    by (simp add: upt_rec[of 0] Max_number_of_blocks_def)
  finally have "blocks_ok kernel_start"
    by (simp add: blocks_ok_def kernel_start_regions disjoint_regions_def kernel_heap_cells_eq page_aligned_def)
  moreover have "backed kernel_slot kernel_start"
    using kernel_slots_zero
    by (auto simp: backed_def kernel_start_regions kernel_slots_def heap_page_iff kernel_heap_cells_eq)
  ultimately show ?thesis
    using kernel_start_kslots kernel_start_refs by (simp add: kh_inv_def kernel_slots_def)
qed

text \<open>
  A history of this kernel: a page by next fit, two pages by first fit, and the first page freed.
\<close>

lemma ROUNDUP_examples: "ROUNDUP 0x1000 PAGE_SIZE = 0x1000" "ROUNDUP 0x2000 PAGE_SIZE = 0x2000"
  by (simp_all add: ROUNDUP_def ROUNDDOWN_def PAGE_SIZE_def)

lemma mset_single_list: "mset xs = {#a#} \<Longrightarrow> xs = [a]"
  by simp

lemma kernel_first_page:
  obtains s1 where "kmalloc 0x1000 kernel_start = Inr (0xF6000000, s1)"
    and "kh_inv kernel_slot kernel_slots {0..<0x400} s1" and "kfrees s1 = [(0xF6001000, 0x09FFE000)]"
    and "ktakens s1 = [(0xF6000000, 0x1000)]" and "free_frame_list s1 = [0x401, 0x402, 0x403]"
    and "KHeapPlacementStrategy s1 = PLACE_NEXTFIT"
proof -
  have nb: "next_fit_block 0x1000 kernel_start = Some 0"
    by (simp add: next_fit_block_def kernel_start_def zero_kstate_def layout_defs)
  have st: "KHeapPlacementStrategy kernel_start = PLACE_NEXTFIT" by (simp add: kernel_start_def)
  have ff: "free_frame_list kernel_start = [0x400, 0x401, 0x402, 0x403]" by (simp add: kernel_start_def)
  have b0: "start_va (blocks_info kernel_start 0) = 0xF6000000" "region_of (blocks_info kernel_start 0) = (0xF6000000, 0x09FFF000)"
    by (simp_all add: kernel_start_def layout_defs region_of_def)
  from next_fit_Some(2)[OF kernel_start_inv ROUNDUP_examples(1)[symmetric] _ nb, of "kmalloc_depth 2"]
  obtain s1 as bs where x:
    "next_fit_allocation (kmalloc_depth 2) 0x1000 kernel_start = Inr (0xF6000000, s1)"
    "kh_inv kernel_slot kernel_slots {0..<0x400} s1"
    "[(0xF6000000, 0x09FFF000)] = as @ (0xF6000000, 0x09FFF000) # bs"
    "kfrees s1 = as @ shrink_first 0x1000 (0xF6000000, 0x09FFF000) @ bs"
    "mset (ktakens s1) = {#(0xF6000000, 0x1000)#}"
    "KHeapPlacementStrategy s1 = PLACE_NEXTFIT" "free_frame_list s1 = drop 1 [0x400, 0x401, 0x402, 0x403]"
    unfolding b0 kernel_start_regions ff st by auto
  then have "as = []" "bs = []" by (simp_all add: Cons_eq_append_conv)
  with x that show ?thesis by (simp add: kmalloc_strategies(2)[OF st] shrink_first_def)
qed

lemma kernel_two_pages:
  assumes "kh_inv kernel_slot kernel_slots {0..<0x400} s1" and "kfrees s1 = [(0xF6001000, 0x09FFE000)]"
    and "ktakens s1 = [(0xF6000000, 0x1000)]" and "free_frame_list s1 = [0x401, 0x402, 0x403]"
  obtains s2 where "kmalloc 0x2000 (s1\<lparr>KHeapPlacementStrategy := PLACE_FIRSTFIT\<rparr>) = Inr (0xF6001000, s2)"
    and "kh_inv kernel_slot kernel_slots {0..<0x400} s2" and "kfrees s2 = [(0xF6003000, 0x09FFC000)]"
    and "mset (ktakens s2) = {#(0xF6001000, 0x2000), (0xF6000000, 0x1000)#}"
proof -
  let ?s = "s1\<lparr>KHeapPlacementStrategy := PLACE_FIRSTFIT\<rparr>"
  have inv: "kh_inv kernel_slot kernel_slots {0..<0x400} ?s" using assms(1) by simp
  have ne: "Block_info_taken_list ?s \<noteq> []" using assms(3) by (auto simp: ktakens_def)
  have tf: "take_fit (unat (0x2000 :: uint32)) (kfrees ?s) = Some (0xF6001000, [(0xF6003000, 0x09FFC000)])"
    using assms(2) by (simp add: shrink_first_def)
  from first_fit_Some(3)[OF inv ROUNDUP_examples(2)[symmetric] _ tf, of "kmalloc_depth 2"] ne assms(4)
  obtain p s2 where x: "first_fit_allocation (kmalloc_depth 2) 0x2000 ?s = Inr (p, s2)" "unat p = 0xF6001000"
    "kh_inv kernel_slot kernel_slots {0..<0x400} s2" "kfrees s2 = [(0xF6003000, 0x09FFC000)]"
    "mset (ktakens s2) = add_mset (0xF6001000, 0x2000) (mset (ktakens s1))" by auto
  have "p = 0xF6001000" using x(2) by (simp add: word_unat_eq_iff)
  with x assms(3) that show ?thesis by (simp add: kmalloc_strategies(1))
qed

section \<open>kmalloc\<close>

text \<open>C5: First fit.  \<open>kmalloc\<close> returns NULL exactly when no free interval is long enough; otherwise
  it returns the start of the lowest one, cut by the rounded size, with every page of the block
  mapped to a frame of its own and no other heap page touched (both are part of the invariant).
  It never runs out of descriptors; it fails with a null dereference when there are too few
  frames, and when no block has been allocated yet.\<close>

theorem kmalloc_first_fit:
  assumes "kh_inv K T R s" and "KHeapPlacementStrategy s = PLACE_FIRSTFIT"
    and "0 < unat (ROUNDUP sz PAGE_SIZE)"
  shows "case take_fit (unat (ROUNDUP sz PAGE_SIZE)) (kfrees s) of
      None \<Rightarrow> kmalloc sz s = Inr (0, s)
    | Some (a, fr) \<Rightarrow>
        if length (free_frame_list s) < unat (ROUNDUP sz PAGE_SIZE) div 4096 \<or> Block_info_taken_list s = []
        then kmalloc sz s = Inl NullDeref
        else \<exists>p s'. kmalloc sz s = Inr (p, s') \<and> unat p = a \<and> p \<noteq> 0 \<and> kh_inv K T R s' \<and> kfrees s' = fr \<and>
          mset (ktakens s') = add_mset (a, unat (ROUNDUP sz PAGE_SIZE)) (mset (ktakens s)) \<and>
          free_frame_list s' = drop (unat (ROUNDUP sz PAGE_SIZE) div 4096) (free_frame_list s)"
proof (cases "take_fit (unat (ROUNDUP sz PAGE_SIZE)) (kfrees s)")
  case None
  then show ?thesis using first_fit_None by (simp add: kmalloc_strategies(1)[OF assms(2)])
next
  case (Some z)
  obtain a fr where z: "z = (a, fr)" by force
  note f = first_fit_Some[OF assms(1) refl assms(3) Some[unfolded z], of "kmalloc_depth 2"]
  show ?thesis
    unfolding Some z option.case prod.case kmalloc_strategies(1)[OF assms(2)]
    using f by (cases "length (free_frame_list s) < unat (ROUNDUP sz PAGE_SIZE) div 4096 \<or>
      Block_info_taken_list s = []") (auto simp: not_less)
qed

theorem kmalloc_first_fit_witness:
  "\<exists>s1 s2. kmalloc 0x1000 kernel_start = Inr (0xF6000000, s1) \<and>
     kmalloc 0x2000 (s1\<lparr>KHeapPlacementStrategy := PLACE_FIRSTFIT\<rparr>) = Inr (0xF6001000, s2)"
proof -
  obtain s1 where s1: "kmalloc 0x1000 kernel_start = Inr (0xF6000000, s1)"
    "kh_inv kernel_slot kernel_slots {0..<0x400} s1" "kfrees s1 = [(0xF6001000, 0x09FFE000)]"
    "ktakens s1 = [(0xF6000000, 0x1000)]" "free_frame_list s1 = [0x401, 0x402, 0x403]"
    by (rule kernel_first_page)
  let ?s = "s1\<lparr>KHeapPlacementStrategy := PLACE_FIRSTFIT\<rparr>"
  have "Block_info_taken_list s1 \<noteq> []" using s1(4) by (auto simp: ktakens_def)
  moreover have "kh_inv kernel_slot kernel_slots {0..<0x400} ?s" using s1(2) by simp
  note kmalloc_first_fit[OF this, of "0x2000", unfolded ROUNDUP_examples]
  ultimately obtain p s2 where "kmalloc 0x2000 ?s = Inr (p, s2)" "unat p = 0xF6001000"
    using s1(3,5) by (auto simp: shrink_first_def)
  moreover from this have "p = 0xF6001000" by (simp add: word_unat_eq_iff)
  ultimately show ?thesis using s1(1) by blast
qed

text \<open>C20: Next fit searches from \<open>last_va_in_kheap\<close> on.  \<open>kmalloc\<close> cuts its block from the front of the lowest free interval that is
  long enough and starts at \<open>last_va_in_kheap\<close> or above it, otherwise of the lowest one that is long enough anywhere, and
  sets \<open>last_va_in_kheap\<close> to the block; when no interval is long enough it returns NULL and changes nothing.  Enough frames are
  free, and the size does not round to 0.  The address need not be that of the last block: \<open>kfree\<close> may lower it
  (\<open>kfree_moves_last\<close>), and the other strategies advance it.\<close>

theorem kmalloc_next_fit:
  assumes "kh_inv K T R s" and "KHeapPlacementStrategy s = PLACE_NEXTFIT"
    and "0 < unat (ROUNDUP sz PAGE_SIZE)"
    and "unat (ROUNDUP sz PAGE_SIZE) div 4096 \<le> length (free_frame_list s)"
  shows "case next_fit_choice (unat (last_va_in_kheap s)) (unat (ROUNDUP sz PAGE_SIZE)) (kfrees s) of
      None \<Rightarrow> kmalloc sz s = Inr (0, s)
    | Some (a, m) \<Rightarrow> \<exists>p s' as bs. kmalloc sz s = Inr (p, s') \<and> unat p = a \<and> p \<noteq> 0 \<and> kh_inv K T R s' \<and>
        last_va_in_kheap s' = p \<and> kfrees s = as @ (a, m) # bs \<and>
        kfrees s' = as @ shrink_first (unat (ROUNDUP sz PAGE_SIZE)) (a, m) @ bs \<and>
        mset (ktakens s') = add_mset (a, unat (ROUNDUP sz PAGE_SIZE)) (mset (ktakens s))"
proof -
  let ?n = "ROUNDUP sz PAGE_SIZE"
  note c = next_fit_block_choice[OF blocks_okD(1)[OF kh_invD(1)[OF assms(1)]], of ?n]
  show ?thesis
  proof (cases "next_fit_block ?n s")
    case None
    then have "next_fit_choice (unat (last_va_in_kheap s)) (unat ?n) (kfrees s) = None" using c by simp
    then show ?thesis using next_fit_None[OF None] by (simp add: kmalloc_strategies(2)[OF assms(2)])
  next
    case (Some f)
    have "next_fit_choice (unat (last_va_in_kheap s)) (unat ?n) (kfrees s) = Some (region_of (blocks_info s f))"
      using c Some by simp
    moreover have "region_of (blocks_info s f) =
        (unat (start_va (blocks_info s f)), unat (blk_size (blocks_info s f)))" by (simp add: region_of_def)
    ultimately show ?thesis
      using next_fit_Some(2)[OF assms(1) refl assms(3) Some assms(4), of "kmalloc_depth 2"]
      unfolding kmalloc_strategies(2)[OF assms(2)] by fastforce
  qed
qed

theorem kmalloc_next_fit_witness:
  "\<exists>s1. kmalloc 0x1000 kernel_start = Inr (0xF6000000, s1) \<and> last_va_in_kheap s1 = 0xF6000000"
proof -
  have st: "KHeapPlacementStrategy kernel_start = PLACE_NEXTFIT"
    and l: "length (free_frame_list kernel_start) = 4" "last_va_in_kheap kernel_start = KERNEL_HEAP_START"
    by (simp_all add: kernel_start_def zero_kstate_def)
  have "next_fit_choice (unat KERNEL_HEAP_START) 0x1000 (kfrees kernel_start) = Some (0xF6000000, 0x09FFF000)"
    by (simp add: next_fit_choice_def kernel_start_regions layout_defs)
  with kmalloc_next_fit[OF kernel_start_inv st, of "0x1000", unfolded ROUNDUP_examples] l
  obtain p s1 where "kmalloc 0x1000 kernel_start = Inr (p, s1)" "unat p = 0xF6000000" "last_va_in_kheap s1 = p"
    by auto
  moreover from this have "p = 0xF6000000" by (simp add: word_unat_eq_iff)
  ultimately show ?thesis by auto
qed

section \<open>kfree\<close>

text \<open>C6: \<open>kfree\<close> of a block while something is free returns it to the free space, merged with the neighbours it
  touches, takes it from the taken blocks, and unmaps its pages and no others.  When nothing is free, \<open>kfree\<close> of a block dereferences a null
  pointer.  An address at which no block starts changes nothing.\<close>

theorem kfree_coalesces:
  assumes "kh_inv K T R s"
  shows "case find (\<lambda>r. fst r = unat va) (ktakens s) of
      None \<Rightarrow> kfree va s = Inr ((), s)
    | Some (a, n) \<Rightarrow> if kfrees s = [] then kfree va s = Inl NullDeref
        else \<exists>s'. kfree va s = Inr ((), s') \<and> kh_inv K T R s' \<and>
          kfrees s' = release (a, n) (kfrees s) \<and> mset (ktakens s') = mset (ktakens s) - {#(a, n)#} \<and>
          (\<forall>v. heap_page v \<longrightarrow> (kmem s' (K v) = 0 \<longleftrightarrow> kmem s (K v) = 0 \<or> unat v \<in> cells (a, n)))"
proof (cases "find (\<lambda>r. fst r = unat va) (ktakens s)")
  case None
  then have "\<forall>n. (unat va, n) \<notin> set (ktakens s)" by (auto simp: find_None_iff)
  with kfree_absent None show ?thesis by simp
next
  case (Some r)
  then have "fst r = unat va" "r \<in> set (ktakens s)" by (auto simp: find_Some_iff)
  then have r: "r = (unat va, snd r)" and t: "(unat va, snd r) \<in> set (ktakens s)" by (metis prod.collapse)+
  show ?thesis
  proof (cases "kfrees s = []")
    case True
    with kfree_full[OF assms t True] Some show ?thesis by (simp split: prod.split)
  next
    case False
    from kfree_taken[OF assms t False] obtain s' where s': "kfree va s = Inr ((), s')" "kh_inv K T R s'"
      "kfrees s' = release (unat va, snd r) (kfrees s)"
      "mset (ktakens s') = mset (ktakens s) - {#(unat va, snd r)#}" by blast
    note d = blocks_okD[OF kh_invD(1)[OF assms]]
    have "cover (kfrees s') = cells (unat va, snd r) \<union> cover (kfrees s)"
      unfolding s'(3) using d(1) d(3)[OF t] d(5) cells_subset_cover[OF t] by (intro release_cover) auto
    then have "\<forall>v. heap_page v \<longrightarrow> (kmem s' (K v) = 0 \<longleftrightarrow> kmem s (K v) = 0 \<or> unat v \<in> cells (unat va, snd r))"
      using kh_invD(5)[OF s'(2)] kh_invD(5)[OF assms] by blast
    with s' False show ?thesis unfolding Some option.case by (subst r) auto
  qed
qed

theorem kfree_coalesces_witness:
  "\<exists>s1 s2. kmalloc 0x1000 kernel_start = Inr (0xF6000000, s1) \<and> kfree 0xF6000000 s1 = Inr ((), s2) \<and>
     kfrees s2 = [(0xF6000000, 0x09FFF000)] \<and> ktakens s2 = []"
proof -
  obtain s1 where s1: "kmalloc 0x1000 kernel_start = Inr (0xF6000000, s1)"
    "kh_inv kernel_slot kernel_slots {0..<0x400} s1" "kfrees s1 = [(0xF6001000, 0x09FFE000)]"
    "ktakens s1 = [(0xF6000000, 0x1000)]" by (rule kernel_first_page)
  from kfree_coalesces[OF s1(2), of "0xF6000000"] s1(3,4) obtain s2 where
    "kfree 0xF6000000 s1 = Inr ((), s2)"
    "kfrees s2 = release (0xF6000000, 0x1000) [(0xF6001000, 0x09FFE000)]" "ktakens s2 = []" by auto
  moreover have "release (0xF6000000, 0x1000) [(0xF6001000, 0x09FFE000)] = [(0xF6000000, 0x09FFF000)]"
    by (simp add: release_def touches_def)
  ultimately show ?thesis using s1(1) by simp
qed

text \<open>Next fit goes on from the last block, or from one that was freed below it and touches no free neighbour.\<close>

theorem kfree_moves_last:
  assumes "kh_inv K T R s" and "kfree va s = Inr ((), s')"
  shows "last_va_in_kheap s' = last_va_in_kheap s \<or>
    KHeapPlacementStrategy s = PLACE_NEXTFIT \<and> va < last_va_in_kheap s \<and> last_va_in_kheap s' = va"
proof (cases "\<exists>n. (unat va, n) \<in> set (ktakens s)")
  case False
  with kfree_absent assms(2) show ?thesis by auto
next
  case True
  then obtain n where t: "(unat va, n) \<in> set (ktakens s)" by blast
  obtain b s1 where b: "region_of (blocks_info s b) = (unat va, n)"
    and run: "kfree va s = Coalescing_heap b (s1\<lparr>Block_info_taken_list := remove1 b (Block_info_taken_list s)\<rparr>)"
    and s1: "same_rest s s1" by (rule kfree_found[OF assms(1) t])
  note r = same_restD[OF s1]
  have va: "start_va (blocks_info s1 b) = va" using b r by (simp add: region_of_def word_unat_eq_iff)
  show ?thesis using assms(2) r va unfolding run
    by (auto simp: Coalescing_heap_def Let_def insert_free_sorted_def recycle_def set_block_def
        split: prod.splits option.splits sum.splits if_splits)
qed

section \<open>Histories\<close>

text \<open>A client of the kernel heap: it may choose the strategy anew before every request.\<close>

datatype kheap_op = K_malloc placement uint32 | K_free uint32

fun kheap_run :: "kheap_op list \<Rightarrow> kstate \<Rightarrow> error + kstate" where
  "kheap_run [] s = Inr s"
| "kheap_run (K_malloc st n # ops) s =
     (case kmalloc n (s\<lparr>KHeapPlacementStrategy := st\<rparr>) of Inl e \<Rightarrow> Inl e | Inr (p, s') \<Rightarrow> kheap_run ops s')"
| "kheap_run (K_free a # ops) s = (case kfree a s of Inl e \<Rightarrow> Inl e | Inr (_, s') \<Rightarrow> kheap_run ops s')"

fun_cases kheap_run_ConsE: "kheap_run (r # ops) s = Inr t"

definition kheap_request :: "kheap_op \<Rightarrow> bool" where
  "kheap_request r = (case r of
     K_malloc st n \<Rightarrow> st \<in> {PLACE_FIRSTFIT, PLACE_NEXTFIT} \<and> 0 < n \<and> n \<le> 0xFFFFF000
   | K_free a \<Rightarrow> True)"

lemma kheap_request_len: "kheap_request (K_malloc st n) \<Longrightarrow> 0 < unat (ROUNDUP n PAGE_SIZE)"
  by (rule ROUNDUP_page_pos) (auto simp: kheap_request_def word_le_nat_alt word_less_nat_alt)

text \<open>
  A request that is answered with NULL leaves the strategy changed, which no operation of the
  interface does; so the states of the two are compared up to the strategy.
\<close>

lemma kheap_run_simulates:
  assumes "kheap_run ops s = Inr t" and "\<forall>r\<in>set ops. kheap_request r" and "kh_inv K T R s"
  shows "\<exists>t' st. kernel_heap.run s t' \<and> t = t'\<lparr>KHeapPlacementStrategy := st\<rparr>"
proof -
  have "\<exists>t' st. kernel_heap.run s0 t' \<and> t = t'\<lparr>KHeapPlacementStrategy := st\<rparr>"
    if "kheap_run ops s = Inr t" "\<forall>r\<in>set ops. kheap_request r" "kh_inv K T R s"
      "kernel_heap.run s0 s1" "s = s1\<lparr>KHeapPlacementStrategy := st\<rparr>" for s0 s1 st
    using that
  proof (induction ops s arbitrary: s1 st rule: kheap_run.induct)
    case (1 s)
    then show ?case by auto
  next
    case (2 pl n ops s)
    from 2(2) obtain p s' where m: "kmalloc n (s\<lparr>KHeapPlacementStrategy := pl\<rparr>) = Inr (p, s')"
      and r: "kheap_run ops s' = Inr t" by (auto split: sum.splits prod.splits)
    have rq: "pl \<in> {PLACE_FIRSTFIT, PLACE_NEXTFIT}" and pos: "0 < unat (ROUNDUP n PAGE_SIZE)"
      using 2(3) kheap_request_len[of pl n] by (auto simp: kheap_request_def)
    have inv: "kh_inv K T R (s\<lparr>KHeapPlacementStrategy := pl\<rparr>)" using 2(4) by simp
    have rest: "\<forall>r\<in>set ops. kheap_request r" using 2(3) by simp
    show ?case
    proof (cases "p = 0")
      case True
      then have s': "s' = s\<lparr>KHeapPlacementStrategy := pl\<rparr>"
        using rq kmalloc_first_fit_cases[OF inv _ refl pos m] kmalloc_next_fit_cases[OF inv _ refl pos m] by auto
      then have "s' = s1\<lparr>KHeapPlacementStrategy := pl\<rparr>" by (simp add: 2(6))
      from 2(1)[OF m refl r rest _ 2(5) this] show ?thesis using inv s' by simp
    next
      case False
      then have al: "kernel_alloc (pl, n) s1 (unat p) s'"
        using m rq pos by (simp add: kernel_alloc_def kernel_len_def 2(6))
      have i1: "kh_inv K T R s1" using 2(4) by (simp add: 2(6))
      have "s' = s'\<lparr>KHeapPlacementStrategy := KHeapPlacementStrategy s'\<rparr>" by simp
      from 2(1)[OF m refl r rest kernel_alloc_facts(1)[OF i1 al] kernel_heap.run_alloc[OF 2(5) al] this]
      show ?thesis .
    qed
  next
    case (3 a ops s)
    from 3(2) obtain s' where m: "kfree a s = Inr ((), s')" and r: "kheap_run ops s' = Inr t"
      by (auto split: sum.splits prod.splits)
    have rest: "\<forall>r\<in>set ops. kheap_request r" using 3(3) by simp
    show ?case
    proof (cases "\<exists>n. (unat a, n) \<in> set (ktakens s)")
      case True
      with m have d: "kernel_dealloc (unat a) s1 s'" unfolding 3(6) by (auto simp: kernel_dealloc_def)
      have i1: "kh_inv K T R s1" using 3(4) by (simp add: 3(6))
      have "s' = s'\<lparr>KHeapPlacementStrategy := KHeapPlacementStrategy s'\<rparr>" by simp
      from 3(1)[OF m refl r rest kernel_dealloc_facts(1)[OF i1 d] kernel_heap.run_dealloc[OF 3(5) d] this]
      show ?thesis .
    next
      case False
      with kfree_absent m have "s' = s" by auto
      then show ?thesis using 3(1)[OF m refl r rest _ 3(5), of st] 3(4,6) by simp
    qed
  qed
  from this[OF assms kernel_heap.run_refl, of "KHeapPlacementStrategy s"] show ?thesis by simp
qed

text \<open>C1: Take any history of \<open>kmalloc\<close> by first fit or next fit (the strategy may change before each
  request) with sizes of 1 to \<open>0xFFFFF000\<close> bytes, and of \<open>kfree\<close> of any address, that starts from a state with the invariant
  and runs to its end.  Afterwards no two blocks overlap, no byte is lost, and a heap page is mapped exactly when it
  belongs to a block.  The contiguous strategy is excluded: a block it returns stays free (\<open>contalloc_block_stays_free\<close>).
  So are sizes that round to 0.\<close>

theorem kernel_heap_safe:
  assumes "kheap_run ops s = Inr t" and "\<forall>r\<in>set ops. kheap_request r" and "kh_inv K T R s"
  shows "kh_inv K T R t \<and>
    (\<forall>i j. i < length (ktakens t) \<and> j < length (ktakens t) \<and> i \<noteq> j \<longrightarrow>
       cells (ktakens t ! i) \<inter> cells (ktakens t ! j) = {}) \<and>
    total_size (kfrees t) + total_size (ktakens t) = total_size (kfrees s) + total_size (ktakens s) \<and>
    (\<forall>v. heap_page v \<longrightarrow> (kmem t (K v) \<noteq> 0 \<longleftrightarrow> (\<exists>r\<in>set (ktakens t). unat v \<in> cells r)))"
proof (intro conjI)
  obtain t' st where
    r: "kernel_heap.run s t'" and t: "t = t'\<lparr>KHeapPlacementStrategy := st\<rparr>"
    using kheap_run_simulates[OF assms] by blast
  from kernel_heap.run_inv_space[OF r assms(3)] have inv: "kh_inv K T R t'" by blast
  then show it: "kh_inv K T R t" by (simp add: t)
  show "\<forall>i j. i < length (ktakens t) \<and> j < length (ktakens t) \<and> i \<noteq> j \<longrightarrow>
      cells (ktakens t ! i) \<inter> cells (ktakens t ! j) = {}"
    using kernel_heap.run_disjoint[OF r assms(3)] by (simp add: t)
  show "total_size (kfrees t) + total_size (ktakens t) = total_size (kfrees s) + total_size (ktakens s)"
    using kernel_heap.run_conserves[OF r assms(3)] by (simp add: t)
  note d = blocks_okD[OF kh_invD(1)[OF it]]
  show "\<forall>v. heap_page v \<longrightarrow> (kmem t (K v) \<noteq> 0 \<longleftrightarrow> (\<exists>r\<in>set (ktakens t). unat v \<in> cells r))"
  proof (intro allI impI)
    fix v assume v: "heap_page v"
    then have "unat v \<in> cover (kfrees t) \<union> cover (ktakens t)" using d(6) by (simp add: heap_page_iff)
    then have "kmem t (K v) \<noteq> 0 \<longleftrightarrow> unat v \<in> cover (ktakens t)"
      using kh_invD(5)[OF it v] d(5) by blast
    then show "kmem t (K v) \<noteq> 0 \<longleftrightarrow> (\<exists>r\<in>set (ktakens t). unat v \<in> cells r)" by (simp add: cover_def)
  qed
qed

definition example_history :: "kheap_op list" where
  "example_history = [K_malloc PLACE_NEXTFIT 0x1000, K_malloc PLACE_FIRSTFIT 0x2000, K_free 0xF6000000]"

lemma example_history_requests: "\<forall>r\<in>set example_history. kheap_request r"
  by (simp add: example_history_def kheap_request_def)

lemma kernel_start_strategy: "kernel_start\<lparr>KHeapPlacementStrategy := PLACE_NEXTFIT\<rparr> = kernel_start"
  by (simp add: kernel_start_def)

lemma example_history_runs:
  obtains t where "kheap_run example_history kernel_start = Inr t" and "ktakens t = [(0xF6001000, 0x2000)]"
proof -
  obtain s1 where s1: "kmalloc 0x1000 kernel_start = Inr (0xF6000000, s1)"
    "kh_inv kernel_slot kernel_slots {0..<0x400} s1" "kfrees s1 = [(0xF6001000, 0x09FFE000)]"
    "ktakens s1 = [(0xF6000000, 0x1000)]" "free_frame_list s1 = [0x401, 0x402, 0x403]"
    by (rule kernel_first_page)
  obtain s2 where s2: "kmalloc 0x2000 (s1\<lparr>KHeapPlacementStrategy := PLACE_FIRSTFIT\<rparr>) = Inr (0xF6001000, s2)"
    "kh_inv kernel_slot kernel_slots {0..<0x400} s2" "kfrees s2 = [(0xF6003000, 0x09FFC000)]"
    "mset (ktakens s2) = {#(0xF6001000, 0x2000), (0xF6000000, 0x1000)#}"
    by (rule kernel_two_pages[OF s1(2-5)])
  have "(unat (0xF6000000 :: uint32), 0x1000) \<in> set (ktakens s2)"
    using arg_cong[OF s2(4), of set_mset] by simp
  from kfree_taken[OF s2(2) this] s2(3,4) obtain s3 where
    "kfree 0xF6000000 s2 = Inr ((), s3)" "mset (ktakens s3) = {#(0xF6001000, 0x2000)#}" by auto
  then show ?thesis
    using s1(1) s2(1) by (intro that[of s3]) (simp_all add: example_history_def kernel_start_strategy)
qed

theorem kernel_heap_safe_witness:
  "\<exists>t. kheap_run example_history kernel_start = Inr t \<and>
     total_size (kfrees t) + total_size (ktakens t) = 0x09FFF000"
proof -
  obtain t where t: "kheap_run example_history kernel_start = Inr t" by (rule example_history_runs)
  from kernel_heap_safe[OF t example_history_requests kernel_start_inv] t
  show ?thesis by (simp add: kernel_start_regions)
qed

text \<open>When every block has been freed the kernel heap is what it was: one free interval list,
  and no heap page mapped.\<close>

theorem kernel_heap_all_freed:
  assumes "kheap_run ops s = Inr t" and "\<forall>r\<in>set ops. kheap_request r" and "kh_inv K T R s"
    and "ktakens s = []" and "ktakens t = []"
  shows "kfrees t = kfrees s \<and> (\<forall>v. heap_page v \<longrightarrow> kmem t (K v) = 0)"
proof -
  from kheap_run_simulates[OF assms(1-3)] obtain t' st where
    r: "kernel_heap.run s t'" and t: "t = t'\<lparr>KHeapPlacementStrategy := st\<rparr>" by blast
  from kernel_heap.run_all_freed[OF r assms(3,4)] assms(5) have fr: "kfrees t = kfrees s" by (simp add: t)
  have "kh_inv K T R t" using kernel_heap.run_inv_space[OF r assms(3)] by (simp add: t)
  note d = blocks_okD(6)[OF kh_invD(1)[OF this]] kh_invD(5)[OF this]
  have "kmem t (K v) = 0" if "heap_page v" for v
    using d that assms(5) by (auto simp: heap_page_iff)
  with fr show ?thesis by blast
qed

theorem kernel_heap_all_freed_witness:
  "\<exists>t. kheap_run [K_malloc PLACE_NEXTFIT 0x1000, K_free 0xF6000000] kernel_start = Inr t \<and>
     kfrees t = [(0xF6000000, 0x09FFF000)]"
proof -
  obtain s1 where s1: "kmalloc 0x1000 kernel_start = Inr (0xF6000000, s1)"
    "kh_inv kernel_slot kernel_slots {0..<0x400} s1" "kfrees s1 = [(0xF6001000, 0x09FFE000)]"
    "ktakens s1 = [(0xF6000000, 0x1000)]" by (rule kernel_first_page)
  have "(unat (0xF6000000 :: uint32), 0x1000) \<in> set (ktakens s1)" using s1(4) by simp
  from kfree_taken[OF s1(2) this] s1(3,4) obtain s2 where
    s2: "kfree 0xF6000000 s1 = Inr ((), s2)" "ktakens s2 = []" by auto
  let ?ops = "[K_malloc PLACE_NEXTFIT 0x1000, K_free 0xF6000000]"
  have run: "kheap_run ?ops kernel_start = Inr s2" using s1(1) s2(1) by (simp add: kernel_start_strategy)
  have rq: "\<forall>r\<in>set ?ops. kheap_request r" by (simp add: kheap_request_def)
  from kernel_heap_all_freed[OF run rq kernel_start_inv kernel_start_regions(2) s2(2)] run
  show ?thesis by (simp add: kernel_start_regions)
qed

section \<open>Error paths\<close>

lemma preserves_reads [preserves_intros]:
  "preserves I (load a)" "preserves I (table_address va e)" "preserves I (to_frame_info pa)"
  by (auto simp: preserves_def to_frame_info_def split: if_splits dest: table_address_state)

lemma unmap_frame_keeps_free_list:
  "preserves (\<lambda>s. Block_info_free_list s = l) (unmap_frame pgdir va)"
proof -
  have st: "preserves (\<lambda>s. Block_info_free_list s = l) (store a v)" for a v
    by (auto simp: preserves_def)
  have g: "preserves (\<lambda>s. Block_info_free_list s = l) (get_frame_info pgdir va)"
    unfolding get_frame_info_def get_page_table_def
    by (intro preserves_intros preserves_modify) simp_all
  have d: "preserves (\<lambda>s. Block_info_free_list s = l) (decrement_references f)" for f
    by (auto simp: preserves_def decrement_references_eq dec_ref_def)
  have t: "preserves (\<lambda>s. Block_info_free_list s = l) (tlb_invalidate va)"
    by (auto simp: preserves_def tlb_invalidate_def emit_def)
  show ?thesis unfolding unmap_frame_def by (intro preserves_intros g d st t)
qed

text \<open>When nothing of the kernel heap is free, \<open>kfree\<close> of an allocated block does not return: the
  block cannot be inserted into an empty free list.\<close>

theorem kfree_full_heap:
  assumes "Block_info_free_list s = []" and "b \<in> set (Block_info_taken_list s)"
    and "start_va (blocks_info s b) = va"
  shows "\<exists>e. kfree va s = Inl e"
proof (rule ccontr)
  assume "\<nexists>e. kfree va s = Inl e"
  then obtain s' where res: "kfree va s = Inr ((), s')" by (cases "kfree va s") auto
  have "find (\<lambda>b. start_va (blocks_info s b) = va) (Block_info_taken_list s) \<noteq> None"
    using assms(2,3) by (auto simp: find_None_iff)
  then obtain c where c: "find (\<lambda>b. start_va (blocks_info s b) = va) (Block_info_taken_list s) = Some c"
    by blast
  let ?loop = "for_n (unat (blk_size (blocks_info s c) div PAGE_SIZE)) 0
    (\<lambda>j. unmap_frame (ptr_page_directory s) (va + of_nat j * PAGE_SIZE))"
  from res c obtain s1 where s1: "?loop s = Inr ((), s1)"
    "Coalescing_heap c (s1\<lparr>Block_info_taken_list := remove1 c (Block_info_taken_list s1)\<rparr>) = Inr ((), s')"
    by (auto simp: kfree_def seqm_eq_Inr)
  have "preserves (\<lambda>s. Block_info_free_list s = []) ?loop"
    by (intro preserves_for_n unmap_frame_keeps_free_list)
  from preservesD[OF this s1(1)] assms(1) have "Block_info_free_list s1 = []" by simp
  with s1(2) show False by (simp add: Coalescing_heap_empty)
qed

theorem kfree_full_heap_witness:
  "\<exists>e. kfree 0xF6000000 (machine\<lparr>blocks_info := (\<lambda>_. \<lparr>start_va = 0xF6000000, blk_size = 0x1000\<rparr>),
     Block_info_taken_list := [0]\<rparr>) = Inl e"
  by (rule kfree_full_heap) (simp_all add: machine_def zero_kstate_def)

text \<open>A request under the contiguous strategy, with what it asks of the page tables and descriptors only.\<close>

definition heap_tables_ok :: "(uint32 \<Rightarrow> uint32) \<Rightarrow> uint32 set \<Rightarrow> nat set \<Rightarrow> kstate \<Rightarrow> bool" where
  "heap_tables_ok K T R s \<longleftrightarrow> refs_inv T R {} s \<and> kslots K s \<and> (\<forall>v. heap_page v \<longrightarrow> K v \<in> T) \<and>
     distinct (kdescriptors s)"

lemma kh_inv_tables_ok: "kh_inv K T R s \<Longrightarrow> heap_tables_ok K T R s"
  by (simp add: kh_inv_def heap_tables_ok_def blocks_ok_distinct)

lemma kmalloc_contiguous:
  assumes ok: "heap_tables_ok K T R s" and st: "KHeapPlacementStrategy s = PLACE_CONTALLOC"
    and n: "n = ROUNDUP sz PAGE_SIZE" "n \<le> KERNEL_HEAP_MAX - last_va_in_kheap s"
    and al: "4096 dvd unat (last_va_in_kheap s)"
    and sub: "cells (unat (last_va_in_kheap s), unat n) \<subseteq> kernel_heap_cells"
    and zero: "\<forall>v. heap_page v \<longrightarrow> unat v \<in> cells (unat (last_va_in_kheap s), unat n) \<longrightarrow> kmem s (K v) = 0"
    and ff: "unat n div 4096 \<le> length (free_frame_list s)" and fb: "free_blocks s \<noteq> []"
  obtains t where "kmalloc sz s = Inr (last_va_in_kheap s, t)" and "heap_tables_ok K T R t"
    and "kfrees t = kfrees s" and "mset (ktakens t) = add_mset (unat (last_va_in_kheap s), unat n) (mset (ktakens s))"
    and "mset (kdescriptors t) = mset (kdescriptors s)" and "free_blocks t = tl (free_blocks s)"
    and "last_va_in_kheap t = last_va_in_kheap s + n" and "KHeapPlacementStrategy t = PLACE_CONTALLOC"
    and "free_frame_list t = drop (unat n div 4096) (free_frame_list s)"
    and "\<And>v. heap_page v \<Longrightarrow> if unat v \<in> cells (unat (last_va_in_kheap s), unat n) then kmem t (K v) \<noteq> 0
                              else kmem t (K v) = kmem s (K v)"
    and "shares t = shares s" and "shares_ptr t = shares_ptr s" and "MAX_SHARES t = MAX_SHARES s"
    and "MAX_SEMAPHORES t = MAX_SEMAPHORES s"
proof -
  let ?l = "last_va_in_kheap s"
  from ok have K: "refs_inv T R {} s" "kslots K s" "\<forall>v. heap_page v \<longrightarrow> K v \<in> T" and dist: "distinct (kdescriptors s)"
    by (simp_all add: heap_tables_ok_def)
  from back_block(1)[OF K sub al ROUNDUP_page_facts[OF n(1)] zero ff]
  obtain s1 where s1: "back_pages (kmalloc_depth 2) ?l n s = Inr ((), s1)" "refs_inv T R {} s1" "kslots K s1" "same_rest s s1"
    "free_frame_list s1 = drop (unat n div 4096) (free_frame_list s)"
    "\<forall>v. heap_page v \<longrightarrow> (if unat v \<in> cells (unat ?l, unat n) then kmem s1 (K v) \<noteq> 0 else kmem s1 (K v) = kmem s (K v))"
    by blast
  note r = same_restD[OF s1(4)] and b = same_rest_blocks[OF s1(4)]
  from fb obtain ptr ps where ps: "free_blocks s = ptr # ps" by (cases "free_blocks s") auto
  let ?t = "(set_block ptr \<lparr>start_va = ?l, blk_size = n\<rparr> (s1\<lparr>last_va_in_kheap := ?l + n, free_blocks := ps\<rparr>))
    \<lparr>Block_info_taken_list := ptr # Block_info_taken_list s\<rparr>"
  have run: "kmalloc sz s = Inr (?l, ?t)"
    using s1(1) n(2) r ps
    by (simp add: kmalloc_strategies(3)[OF st] cont_allocation_def Let_def n(1)[symmetric]
        k_allocate_block_def bnd_apply seqm_def set_block_def)
  have d1: "distinct (kdescriptors s1)" using dist b(3) by simp
  have ps1: "free_blocks s1 = ptr # ps" using r ps by simp
  have t: "kfrees ?t = kfrees s1" "mset (ktakens ?t) = add_mset (unat ?l, unat n) (mset (ktakens s1))"
    "mset (kdescriptors ?t) = mset (kdescriptors s1)"
    by (rule take_descriptor[OF d1 ps1]; simp add: set_block_def r)+
  have "refs_inv T R {} ?t = refs_inv T R {} s1" by (rule refs_inv_cong) (simp_all add: set_block_def)
  moreover have "kslots K ?t" by (rule kslots_cong[OF _ _ _ s1(3)]) (simp_all add: set_block_def)
  moreover have "distinct (kdescriptors ?t)" using d1 t(3) by (metis mset_eq_imp_distinct_iff)
  ultimately have tok: "heap_tables_ok K T R ?t" using s1(2) K(3) by (simp add: heap_tables_ok_def)
  note same = s1(4)[unfolded same_rest_def, symmetric]
  show ?thesis
    by (rule that[OF run tok])
      (use t b r s1(5,6) ps st in \<open>simp_all add: set_block_def
         arg_cong[OF same, of shares] arg_cong[OF same, of shares_ptr] arg_cong[OF same, of MAX_SHARES] arg_cong[OF same, of MAX_SEMAPHORES]\<close>)
qed

text \<open>The contiguous strategy does not take its block from the free list: the block it returns
  is taken and free at the same time, so after a change of strategy it is handed out again.\<close>

theorem contalloc_block_stays_free:
  assumes "kh_inv K T R s" and "KHeapPlacementStrategy s = PLACE_CONTALLOC"
    and "n = ROUNDUP sz PAGE_SIZE" and "0 < unat n" and "n \<le> KERNEL_HEAP_MAX - last_va_in_kheap s"
    and "4096 dvd unat (last_va_in_kheap s)" and "cells (unat (last_va_in_kheap s), unat n) \<subseteq> cover (kfrees s)"
    and "unat n div 4096 \<le> length (free_frame_list s)"
  shows "\<exists>s'. kmalloc sz s = Inr (last_va_in_kheap s, s') \<and>
    (unat (last_va_in_kheap s), unat n) \<in> set (ktakens s') \<and>
    kfrees s' = kfrees s \<and> cells (unat (last_va_in_kheap s), unat n) \<subseteq> cover (kfrees s')"
proof -
  note ok = kh_invD(1)[OF assms(1)]
  have sub: "cells (unat (last_va_in_kheap s), unat n) \<subseteq> kernel_heap_cells" using assms(7) blocks_okD(6)[OF ok] by blast
  have zero: "\<forall>v. heap_page v \<longrightarrow> unat v \<in> cells (unat (last_va_in_kheap s), unat n) \<longrightarrow> kmem s (K v) = 0"
    using kh_invD(5)[OF assms(1)] assms(7) by blast
  from kmalloc_contiguous[OF kh_inv_tables_ok[OF assms(1)] assms(2,3,5,6) sub zero assms(8) descriptors_suffice[OF ok]]
  obtain t where t: "kmalloc sz s = Inr (last_va_in_kheap s, t)" "kfrees t = kfrees s"
    "mset (ktakens t) = add_mset (unat (last_va_in_kheap s), unat n) (mset (ktakens s))" .
  from arg_cong[OF t(3), of set_mset] have "(unat (last_va_in_kheap s), unat n) \<in> set (ktakens t)" by simp
  with t assms(7) show ?thesis by auto
qed

theorem contalloc_block_stays_free_witness:
  "\<exists>s'. kmalloc 0x1000 (kernel_start\<lparr>KHeapPlacementStrategy := PLACE_CONTALLOC\<rparr>) = Inr (0xF6000000, s') \<and>
     (0xF6000000, 0x1000) \<in> set (ktakens s') \<and> 0xF6000000 \<in> cover (kfrees s')"
proof -
  let ?s = "kernel_start\<lparr>KHeapPlacementStrategy := PLACE_CONTALLOC\<rparr>"
  have inv: "kh_inv kernel_slot kernel_slots {0..<0x400} ?s" using kernel_start_inv by simp
  have l: "last_va_in_kheap ?s = 0xF6000000" "length (free_frame_list kernel_start) = 4"
    by (simp_all add: kernel_start_def zero_kstate_def layout_defs)
  have "\<exists>s'. kmalloc 0x1000 ?s = Inr (last_va_in_kheap ?s, s') \<and>
    (unat (last_va_in_kheap ?s), unat (0x1000 :: uint32)) \<in> set (ktakens s') \<and> kfrees s' = kfrees ?s \<and>
    cells (unat (last_va_in_kheap ?s), unat (0x1000 :: uint32)) \<subseteq> cover (kfrees s')"
    by (rule contalloc_block_stays_free[OF inv])
      (simp_all add: l ROUNDUP_examples kernel_start_regions, simp add: layout_defs)
  then show ?thesis by (auto simp: l kernel_start_regions)
qed

text \<open>A block that \<open>kmalloc\<close> returned and \<open>kfree\<close> took back leaves the heap as it was: the same
  free intervals, the same taken blocks, the same pages mapped.\<close>

theorem kmalloc_kfree_roundtrip:
  assumes "kh_inv K T R s" and "KHeapPlacementStrategy s \<in> {PLACE_FIRSTFIT, PLACE_NEXTFIT}"
    and "0 < unat (ROUNDUP sz PAGE_SIZE)" and "kmalloc sz s = Inr (p, s1)" and "p \<noteq> 0"
    and "kfree p s1 = Inr ((), s2)"
  shows "kfrees s2 = kfrees s \<and> mset (ktakens s2) = mset (ktakens s) \<and>
    (\<forall>v. heap_page v \<longrightarrow> (kmem s2 (K v) = 0 \<longleftrightarrow> kmem s (K v) = 0))"
proof -
  let ?q = "(KHeapPlacementStrategy s, sz)"
  have al: "kernel_alloc ?q s (unat p) s1" using assms(2-5) by (simp add: kernel_alloc_def kernel_len_def)
  note f = kernel_alloc_facts(1,3)[OF assms(1) al]
  have t: "(unat p, kernel_len ?q) \<in> set (ktakens s1)" using arg_cong[OF f(2), of set_mset] by simp
  have "s1 = s1\<lparr>KHeapPlacementStrategy := KHeapPlacementStrategy s1\<rparr>" by simp
  with t assms(6) have d: "kernel_dealloc (unat p) s1 s2" unfolding kernel_dealloc_def by metis
  have u: "\<forall>m. (unat p, m) \<in> set (ktakens s1) \<longrightarrow> m = kernel_len ?q"
    using kernel_start_unique[OF kh_invD(1)[OF f(1)] _ t] by blast
  have fr: "kfrees s2 = kfrees s" by (rule kernel_heap.alloc_dealloc[OF assms(1) al d u])
  obtain n where n: "(unat p, n) \<in> set (ktakens s1)"
    "mset (ktakens s2) = mset (ktakens s1) - {#(unat p, n)#}"
    using kernel_dealloc_facts(2)[OF f(1) d] by blast
  with u f(2) have "mset (ktakens s2) = mset (ktakens s)" by auto
  moreover have "kh_inv K T R s2" by (rule kernel_dealloc_facts(1)[OF f(1) d])
  ultimately show ?thesis using fr kh_invD(5)[OF assms(1)] kh_invD(5)[of K T R s2] by simp
qed

theorem kmalloc_kfree_roundtrip_witness:
  "\<exists>s1 s2. kmalloc 0x1000 kernel_start = Inr (0xF6000000, s1) \<and> kfree 0xF6000000 s1 = Inr ((), s2) \<and>
     kfrees s2 = kfrees kernel_start"
proof -
  obtain s1 where s1: "kmalloc 0x1000 kernel_start = Inr (0xF6000000, s1)"
    "kh_inv kernel_slot kernel_slots {0..<0x400} s1" "kfrees s1 = [(0xF6001000, 0x09FFE000)]"
    "ktakens s1 = [(0xF6000000, 0x1000)]" by (rule kernel_first_page)
  have "(unat (0xF6000000 :: uint32), 0x1000) \<in> set (ktakens s1)" using s1(4) by simp
  from kfree_taken[OF s1(2) this] s1(3) obtain s2 where s2: "kfree 0xF6000000 s1 = Inr ((), s2)" by auto
  have "KHeapPlacementStrategy kernel_start \<in> {PLACE_FIRSTFIT, PLACE_NEXTFIT}" by (simp add: kernel_start_def)
  from kmalloc_kfree_roundtrip[OF kernel_start_inv this _ s1(1) _ s2] s1(1) s2
  show ?thesis by (simp add: ROUNDUP_examples)
qed

end
