(* ===== verification/Cstring.thy ===== *)
theory Cstring
  imports Prelude "HOL-Library.Signed_Division"
begin

text \<open>
  The string and memory routines of lib/string.c, which the kernel and the user programs share.
  Memory is a function from addresses to bytes, a pointer is an address, and a loop that runs to
  the terminating null byte is a partial function: it has no result on memory without one.
\<close>

type_synonym memory = "uint32 \<Rightarrow> uint8"

text \<open>The character codes the routines compare with.\<close>

definition chr :: "char \<Rightarrow> uint8" where
  "chr c = of_nat (of_char c)"

section \<open>Lengths and copies\<close>

partial_function (option) strlen_go :: "memory \<Rightarrow> uint32 \<Rightarrow> uint32 \<Rightarrow> uint32 option" where
  "strlen_go m s n = (if m s \<noteq> 0 then strlen_go m (s + 1) (n + 1) else Some n)"

definition strlen :: "memory \<Rightarrow> uint32 \<Rightarrow> uint32 option" where
  "strlen m s = strlen_go m s 0"

fun strnlen_go :: "memory \<Rightarrow> uint32 \<Rightarrow> nat \<Rightarrow> uint32 \<Rightarrow> uint32" where
  "strnlen_go m s 0 n = n"
| "strnlen_go m s (Suc k) n = (if m s \<noteq> 0 then strnlen_go m (s + 1) k (n + 1) else n)"

definition strnlen :: "memory \<Rightarrow> uint32 \<Rightarrow> uint32 \<Rightarrow> uint32" where
  "strnlen m s sz = strnlen_go m s (unat sz) 0"

partial_function (option) strcpy :: "memory \<Rightarrow> uint32 \<Rightarrow> uint32 \<Rightarrow> memory option" where
  "strcpy m dst src =
     (let m' = m(dst := m src) in if m' dst \<noteq> 0 then strcpy m' (dst + 1) (src + 1) else Some m')"

fun strncpy_go :: "memory \<Rightarrow> uint32 \<Rightarrow> uint32 \<Rightarrow> nat \<Rightarrow> memory" where
  "strncpy_go m dst src 0 = m"
| "strncpy_go m dst src (Suc k) =
     (let m' = m(dst := m src) in
      strncpy_go m' (dst + 1) (if m' src \<noteq> 0 then src + 1 else src) k)"

definition strncpy :: "memory \<Rightarrow> uint32 \<Rightarrow> uint32 \<Rightarrow> uint32 \<Rightarrow> memory" where
  "strncpy m dst src sz = strncpy_go m dst src (unat sz)"

text \<open>\<open>while (--sz > 0 && *src)\<close>: \<open>n\<close> is the number of bytes that may still be copied.\<close>

fun strlcpy_go :: "memory \<Rightarrow> uint32 \<Rightarrow> uint32 \<Rightarrow> nat \<Rightarrow> memory \<times> uint32" where
  "strlcpy_go m dst src 0 = (m(dst := 0), dst)"
| "strlcpy_go m dst src (Suc n) =
     (if m src \<noteq> 0 then strlcpy_go (m(dst := m src)) (dst + 1) (src + 1) n else (m(dst := 0), dst))"

definition strlcpy :: "memory \<Rightarrow> uint32 \<Rightarrow> uint32 \<Rightarrow> uint32 \<Rightarrow> memory \<times> uint32" where
  "strlcpy m dst src sz =
     (if 0 < sz then (case strlcpy_go m dst src (unat sz - 1) of (m', d) \<Rightarrow> (m', d - dst)) else (m, 0))"

section \<open>Comparison and search\<close>

partial_function (option) strcmp :: "memory \<Rightarrow> uint32 \<Rightarrow> uint32 \<Rightarrow> int option" where
  "strcmp m p q =
     (if m p \<noteq> 0 \<and> m p = m q then strcmp m (p + 1) (q + 1) else Some (uint (m p) - uint (m q)))"

fun strncmp_go :: "memory \<Rightarrow> uint32 \<Rightarrow> uint32 \<Rightarrow> nat \<Rightarrow> int" where
  "strncmp_go m p q 0 = 0"
| "strncmp_go m p q (Suc n) =
     (if m p \<noteq> 0 \<and> m p = m q then strncmp_go m (p + 1) (q + 1) n else uint (m p) - uint (m q))"

definition strncmp :: "memory \<Rightarrow> uint32 \<Rightarrow> uint32 \<Rightarrow> uint32 \<Rightarrow> int" where
  "strncmp m p q n = strncmp_go m p q (unat n)"

partial_function (option) strchr :: "memory \<Rightarrow> uint32 \<Rightarrow> uint8 \<Rightarrow> uint32 option" where
  "strchr m s c = (if m s \<noteq> 0 then if m s = c then Some s else strchr m (s + 1) c else Some 0)"

partial_function (option) strfind :: "memory \<Rightarrow> uint32 \<Rightarrow> uint8 \<Rightarrow> uint32 option" where
  "strfind m s c = (if m s \<noteq> 0 \<and> m s \<noteq> c then strfind m (s + 1) c else Some s)"

fun memcmp_go :: "memory \<Rightarrow> uint32 \<Rightarrow> uint32 \<Rightarrow> nat \<Rightarrow> int" where
  "memcmp_go m s1 s2 0 = 0"
| "memcmp_go m s1 s2 (Suc n) =
     (if m s1 \<noteq> m s2 then uint (m s1) - uint (m s2) else memcmp_go m (s1 + 1) (s2 + 1) n)"

definition memcmp :: "memory \<Rightarrow> uint32 \<Rightarrow> uint32 \<Rightarrow> uint32 \<Rightarrow> int" where
  "memcmp m v1 v2 n = memcmp_go m v1 v2 (unat n)"

function memfind_go :: "memory \<Rightarrow> uint32 \<Rightarrow> uint8 \<Rightarrow> uint32 \<Rightarrow> uint32" where
  "memfind_go m s c ends =
     (if s < ends then if m s = c then s else memfind_go m (s + 1) c ends else s)"
  by pat_completeness auto
termination
proof (relation "measure (\<lambda>(m, s, c, ends). unat ends - unat s)")
  fix m :: memory and s ends :: uint32 and c :: uint8
  assume lt: "s < ends"
  have "unat ends < 2 ^ 32" using unsigned_less[of ends, where ?'a = nat] by simp
  with lt have "unat (s + 1) = Suc (unat s)"
    by (subst word_add_le_unat) (simp_all add: word_less_nat_alt)
  with lt show "((m, s + 1, c, ends), m, s, c, ends) \<in> measure (\<lambda>(m, s, c, ends). unat ends - unat s)"
    by (simp add: word_less_nat_alt)
qed simp

definition memfind :: "memory \<Rightarrow> uint32 \<Rightarrow> uint8 \<Rightarrow> uint32 \<Rightarrow> uint32" where
  "memfind m s c n = memfind_go m s c (s + n)"

section \<open>Memory blocks\<close>

text \<open>\<open>memset\<close> counts in a signed integer, so a length of two gigabytes or more sets nothing.\<close>

fun memset_go :: "memory \<Rightarrow> uint32 \<Rightarrow> uint8 \<Rightarrow> nat \<Rightarrow> memory" where
  "memset_go m p c 0 = m"
| "memset_go m p c (Suc n) = memset_go (m(p := c)) (p + 1) c n"

definition memset :: "memory \<Rightarrow> uint32 \<Rightarrow> uint8 \<Rightarrow> uint32 \<Rightarrow> memory" where
  "memset m v c n = memset_go m v c (nat (sint n))"

fun copy_up :: "memory \<Rightarrow> uint32 \<Rightarrow> uint32 \<Rightarrow> nat \<Rightarrow> memory" where
  "copy_up m d s 0 = m"
| "copy_up m d s (Suc n) = copy_up (m(d := m s)) (d + 1) (s + 1) n"

fun copy_down :: "memory \<Rightarrow> uint32 \<Rightarrow> uint32 \<Rightarrow> nat \<Rightarrow> memory" where
  "copy_down m d s 0 = m"
| "copy_down m d s (Suc n) = copy_down (m(d - 1 := m (s - 1))) (d - 1) (s - 1) n"

definition memcpy :: "memory \<Rightarrow> uint32 \<Rightarrow> uint32 \<Rightarrow> uint32 \<Rightarrow> memory" where
  "memcpy m dst src n = copy_up m dst src (unat n)"

definition memmove :: "memory \<Rightarrow> uint32 \<Rightarrow> uint32 \<Rightarrow> uint32 \<Rightarrow> memory" where
  "memmove m dst src n =
     (if src < dst \<and> dst < src + n then copy_down m (dst + n) (src + n) (unat n)
      else copy_up m dst src (unat n))"

section \<open>Numbers\<close>

definition digit_value :: "uint8 \<Rightarrow> int option" where
  "digit_value c =
     (if chr CHR ''0'' \<le> c \<and> c \<le> chr CHR ''9'' then Some (uint c - uint (chr CHR ''0''))
      else if chr CHR ''a'' \<le> c \<and> c \<le> chr CHR ''z'' then Some (uint c - uint (chr CHR ''a'') + 10)
      else if chr CHR ''A'' \<le> c \<and> c \<le> chr CHR ''Z'' then Some (uint c - uint (chr CHR ''A'') + 10)
      else None)"

partial_function (option) strtol_digits :: "memory \<Rightarrow> uint32 \<Rightarrow> int \<Rightarrow> uint32 \<Rightarrow> (uint32 \<times> uint32) option" where
  "strtol_digits m s base val =
     (case digit_value (m s) of None \<Rightarrow> Some (val, s)
      | Some dig \<Rightarrow> if base \<le> dig then Some (val, s)
                    else strtol_digits m (s + 1) base (val * of_int base + of_int dig))"

partial_function (option) skip_blanks :: "memory \<Rightarrow> uint32 \<Rightarrow> uint32 option" where
  "skip_blanks m s = (if m s = chr CHR '' '' \<or> m s = 9 then skip_blanks m (s + 1) else Some s)"

text \<open>Returns the value, as the bits of the C \<open>long\<close>, and the end pointer.\<close>

definition strtol :: "memory \<Rightarrow> uint32 \<Rightarrow> int \<Rightarrow> (uint32 \<times> uint32) option" where
  "strtol m s0 base0 =
     (case skip_blanks m s0 of None \<Rightarrow> None
      | Some s1 \<Rightarrow>
        (let neg = (m s1 = chr CHR ''-'');
             s2 = (if m s1 = chr CHR ''+'' \<or> neg then s1 + 1 else s1);
             hex = ((base0 = 0 \<or> base0 = 16) \<and> m s2 = chr CHR ''0'' \<and> m (s2 + 1) = chr CHR ''x'');
             oct = (\<not> hex \<and> base0 = 0 \<and> m s2 = chr CHR ''0'');
             s3 = (if hex then s2 + 2 else if oct then s2 + 1 else s2);
             base = (if hex then 16 else if oct then 8 else if base0 = 0 then 10 else base0)
         in map_option (\<lambda>(val, e). (if neg then - val else val, e)) (strtol_digits m s3 base 0)))"

text \<open>
  \<open>ltostr\<close> writes the digits from the lowest one on and stops before the first zero digit; then
  it reverses them.  The result is the text it leaves in the buffer.  The most negative number
  stays negative when its sign is dropped, and so do its digits: \<open>/\<close> and \<open>%\<close> of C round to zero.
\<close>

function ltostr_digits :: "int \<Rightarrow> int list" where
  "ltostr_digits value =
     value smod 10 # (if (value sdiv 10) smod 10 \<noteq> 0 then ltostr_digits (value sdiv 10) else [])"
  by pat_completeness auto
termination
proof (relation "measure (\<lambda>v. nat \<bar>v\<bar>)")
  fix v :: int
  assume "(v sdiv 10) smod 10 \<noteq> 0"
  then have "v \<noteq> 0" by (auto simp: signed_divide_int_def)
  then have "\<bar>v sdiv 10\<bar> < \<bar>v\<bar>" by (auto simp: signed_divide_int_def abs_mult abs_sgn_eq)
  then show "(v sdiv 10, v) \<in> measure (\<lambda>v. nat \<bar>v\<bar>)" by simp
qed simp

definition ltostr :: "uint32 \<Rightarrow> uint8 list" where
  "ltostr value =
     (let neg = (value <s 0); v = (if neg then value * -1 else value) in
      (if neg then [chr CHR ''-''] else []) @
      map (\<lambda>d. of_int d + chr CHR ''0'') (rev (ltostr_digits (sint v))))"

section \<open>Concatenation and splitting\<close>

definition strcconcat :: "memory \<Rightarrow> uint32 \<Rightarrow> uint32 \<Rightarrow> uint32 \<Rightarrow> memory option" where
  "strcconcat m str1 str2 fin =
     (case strlen m str1 of None \<Rightarrow> None
      | Some len1 \<Rightarrow>
        (case strlen m str2 of None \<Rightarrow> None
         | Some len2 \<Rightarrow>
           (let m1 = copy_up m fin str1 (unat len1);
                m2 = copy_up m1 (fin + len1) str2 (unat len2)
            in Some (m2(fin + len1 + len2 := 0)))))"

definition MAX_ARGUMENTS :: nat where "MAX_ARGUMENTS = 16"

text \<open>\<open>*string && strchr(SPLIT_CHARS, *string)\<close>\<close>

definition at_split :: "memory \<Rightarrow> uint32 \<Rightarrow> uint32 \<Rightarrow> bool option" where
  "at_split m sep s = (if m s = 0 then Some False
     else map_option (\<lambda>p. p \<noteq> 0) (strchr m sep (m s)))"

partial_function (option) trim_split :: "memory \<Rightarrow> uint32 \<Rightarrow> uint32 \<Rightarrow> (memory \<times> uint32) option" where
  "trim_split m sep s = Option.bind (at_split m sep s) (\<lambda>b.
     if b then trim_split (m(s := 0)) sep (s + 1) else Some (m, s))"

partial_function (option) skip_word :: "memory \<Rightarrow> uint32 \<Rightarrow> uint32 \<Rightarrow> uint32 option" where
  "skip_word m sep s = Option.bind (at_split m sep s) (\<lambda>b.
     if m s \<noteq> 0 \<and> \<not> b then skip_word m sep (s + 1) else Some s)"

text \<open>The memory afterwards, the arguments found, and the result: 0 when there were too many.\<close>

partial_function (option) strsplit_go ::
  "memory \<Rightarrow> uint32 \<Rightarrow> uint32 \<Rightarrow> uint32 list \<Rightarrow> (memory \<times> uint32 list \<times> int) option" where
  "strsplit_go m s sep argv = Option.bind (trim_split m sep s) (\<lambda>(m, s).
     if m s = 0 then Some (m, argv, 1)
     else if length argv = MAX_ARGUMENTS - 1 then Some (m, argv, 0)
     else Option.bind (skip_word m sep s) (\<lambda>s'. strsplit_go m s' sep (argv @ [s])))"

definition strsplit :: "memory \<Rightarrow> uint32 \<Rightarrow> uint32 \<Rightarrow> (memory \<times> uint32 list \<times> int) option" where
  "strsplit m s sep = strsplit_go m s sep []"

section \<open>Strings in memory\<close>

text \<open>The bytes \<open>xs\<close>, none of them null, are at \<open>p\<close>, and a null byte follows.\<close>

fun string_at :: "memory \<Rightarrow> uint32 \<Rightarrow> uint8 list \<Rightarrow> bool" where
  "string_at m p [] \<longleftrightarrow> m p = 0"
| "string_at m p (x # xs) \<longleftrightarrow> x \<noteq> 0 \<and> m p = x \<and> string_at m (p + 1) xs"

lemma strlen_go_string: "string_at m p xs \<Longrightarrow> strlen_go m p n = Some (n + of_nat (length xs))"
  by (induction xs arbitrary: p n) (simp_all add: strlen_go.simps add.assoc)

lemma strlen_string: "string_at m p xs \<Longrightarrow> strlen m p = Some (of_nat (length xs))"
  using strlen_go_string[of m p xs 0] by (simp add: strlen_def)

fun compare_bytes :: "uint8 list \<Rightarrow> uint8 list \<Rightarrow> int" where
  "compare_bytes [] [] = 0"
| "compare_bytes (x # xs) [] = uint x"
| "compare_bytes [] (y # ys) = - uint y"
| "compare_bytes (x # xs) (y # ys) = (if x = y then compare_bytes xs ys else uint x - uint y)"

lemma strcmp_strings:
  "string_at m p xs \<Longrightarrow> string_at m q ys \<Longrightarrow> strcmp m p q = Some (compare_bytes xs ys)"
  by (induction xs ys arbitrary: p q rule: compare_bytes.induct) (auto simp: strcmp.simps)

lemma compare_bytes_zero:
  assumes "0 \<notin> set xs" and "0 \<notin> set ys"
  shows "compare_bytes xs ys = 0 \<longleftrightarrow> xs = ys"
  using assms
  by (induction xs ys rule: compare_bytes.induct) (auto simp: word_uint_eq_iff[symmetric] uint_0_iff)

lemma string_at_nonzero: "string_at m p xs \<Longrightarrow> 0 \<notin> set xs"
  by (induction xs arbitrary: p) auto

section \<open>Moving memory\<close>

lemma copy_up_spec:
  assumes "\<And>i j. i < n \<Longrightarrow> j < n \<Longrightarrow> i < j \<Longrightarrow> d + of_nat i \<noteq> s + of_nat j" and "n \<le> 2 ^ 32"
  shows "copy_up m d s n a = (if unat (a - d) < n then m (s + (a - d)) else m a)"
  using assms
proof (induction n arbitrary: m d s)
  case 0
  then show ?case by simp
next
  case (Suc n)
  let ?m = "m(d := m s)"
  have IH: "copy_up ?m (d + 1) (s + 1) n a =
      (if unat (a - (d + 1)) < n then ?m (s + 1 + (a - (d + 1))) else ?m a)"
  proof (rule Suc.IH)
    fix i j assume "i < n" "j < n" "i < j"
    then show "d + 1 + of_nat i \<noteq> s + 1 + of_nat j"
      using Suc.prems(1)[of "Suc i" "Suc j"] by (simp add: ac_simps)
  qed (use Suc.prems in simp)
  show ?case
  proof (cases "a = d")
    case True
    have "d - (d + 1) = 0xFFFFFFFF" by simp
    then have "unat (d - (d + 1)) = 2 ^ 32 - 1" by (simp only:) simp
    then have "\<not> unat (a - (d + 1)) < n" using Suc.prems(2) True by simp
    then show ?thesis using IH True by simp
  next
    case False
    then have "a - d \<noteq> 0" by simp
    then have u: "unat (a - (d + 1)) = unat (a - d) - 1" and pos: "0 < unat (a - d)"
      by (simp_all add: diff_diff_add[symmetric] unat_minus_one unat_gt_0)
    have sa: "s + 1 + (a - (d + 1)) = s + (a - d)" by simp
    have ne: "s + (a - d) \<noteq> d" if "unat (a - d) < Suc n"
      using Suc.prems(1)[of 0 "unat (a - d)"] that pos by auto
    show ?thesis unfolding copy_up.simps IH sa using u pos ne False by auto
  qed
qed

lemma copy_down_spec:
  assumes "\<And>i j. i < n \<Longrightarrow> j < n \<Longrightarrow> j < i \<Longrightarrow> d + of_nat i \<noteq> s + of_nat j" and "n \<le> 2 ^ 32"
  shows "copy_down m (d + of_nat n) (s + of_nat n) n a = (if unat (a - d) < n then m (s + (a - d)) else m a)"
  using assms
proof (induction n arbitrary: m)
  case 0
  then show ?case by simp
next
  case (Suc n)
  let ?m = "m(d + of_nat n := m (s + of_nat n))"
  have IH: "copy_down ?m (d + of_nat n) (s + of_nat n) n a =
      (if unat (a - d) < n then ?m (s + (a - d)) else ?m a)"
    by (rule Suc.IH) (use Suc.prems in auto)
  have step: "copy_down m (d + of_nat (Suc n)) (s + of_nat (Suc n)) (Suc n) a =
      copy_down ?m (d + of_nat n) (s + of_nat n) n a" by simp
  have n: "unat (of_nat n :: uint32) = n" by (rule unat_of_nat_small) (use Suc.prems(2) in simp)
  show ?case
  proof (cases "a = d + of_nat n")
    case True
    then have "a - d = of_nat n" by simp
    with True show ?thesis unfolding step IH using n by simp
  next
    case False
    then have "unat (a - d) \<noteq> n" using n by (metis add.commute diff_add_cancel word_unat_eq_iff)
    moreover have "s + (a - d) \<noteq> d + of_nat n" if "unat (a - d) < n"
      using Suc.prems(1)[of n "unat (a - d)"] that by auto
    ultimately show ?thesis unfolding step IH using False by auto
  qed
qed

section \<open>Properties\<close>

text \<open>C38: \<open>memmove\<close> is right for overlapping blocks in both directions: afterwards the destination holds
  the bytes the source held before, and every other byte is unchanged.\<close>

theorem memmove_correct:
  assumes "unat src + unat n < 2 ^ 32" and "unat dst + unat n \<le> 2 ^ 32"
  shows "memmove m dst src n = (\<lambda>a. if a - dst < n then m (src + (a - dst)) else m a)"
proof (rule ext)
  fix a
  have n: "unat n \<le> 2 ^ 32" using unsigned_less[of n, where ?'a = nat] by simp
  have di: "unat (dst + of_nat i) = unat dst + i" if "i < unat n" for i
    using that assms(2) n by (subst word_add_le_unat) (simp_all add: unat_of_nat_small)
  have si: "unat (src + of_nat i) = unat src + i" if "i < unat n" for i
    using that assms(1) n by (subst word_add_le_unat) (simp_all add: unat_of_nat_small)
  have sn: "unat (src + n) = unat src + unat n" using assms(1) by (subst word_add_le_unat) simp_all
  show "memmove m dst src n a = (if a - dst < n then m (src + (a - dst)) else m a)"
  proof (cases "src < dst \<and> dst < src + n")
    case True
    have "dst + of_nat i \<noteq> src + of_nat j" if "i < unat n" "j < unat n" "j < i" for i j
      using di[OF that(1)] si[OF that(2)] True that(3) by (auto simp: word_less_nat_alt dest: arg_cong[of _ _ unat])
    from copy_down_spec[OF this n, of m a] True show ?thesis
      by (simp add: memmove_def word_less_nat_alt)
  next
    case False
    have "dst + of_nat i \<noteq> src + of_nat j" if "i < unat n" "j < unat n" "i < j" for i j
    proof
      assume "dst + of_nat i = src + of_nat j"
      then have "unat dst + i = unat src + j" using di[OF that(1)] si[OF that(2)] by simp
      moreover have "unat dst \<le> unat src \<or> unat src + unat n \<le> unat dst"
        using False sn by (auto simp: word_less_nat_alt)
      ultimately show False using that by linarith
    qed
    from copy_up_spec[OF this n, of m a] False show ?thesis
      by (auto simp: memmove_def word_less_nat_alt)
  qed
qed

theorem memmove_correct_witness:
  "memmove (\<lambda>a. of_nat (unat a)) 0x101 0x100 4 0x104 = 3 \<and> memmove (\<lambda>a. of_nat (unat a)) 0x100 0x101 4 0x103 = 4"
proof -
  have "memmove (\<lambda>a. of_nat (unat a)) 0x101 0x100 4 =
      (\<lambda>a. if a - 0x101 < 4 then of_nat (unat (0x100 + (a - 0x101))) else of_nat (unat a))"
    by (rule memmove_correct) simp_all
  moreover have "memmove (\<lambda>a. of_nat (unat a)) 0x100 0x101 4 =
      (\<lambda>a. if a - 0x100 < 4 then of_nat (unat (0x101 + (a - 0x100))) else of_nat (unat a))"
    by (rule memmove_correct) simp_all
  ultimately show ?thesis by simp
qed

text \<open>\<open>strcmp\<close> returns on any two strings, zero exactly when they are equal; the kernel's tables
  of semaphores and shared objects, which are searched with it, may be read as tables of names.\<close>

theorem strcmp_correct:
  assumes "string_at m p xs" and "string_at m q ys"
  shows "\<exists>r. strcmp m p q = Some r \<and> (r = 0 \<longleftrightarrow> xs = ys)"
  using strcmp_strings[OF assms] compare_bytes_zero[OF string_at_nonzero[OF assms(1)] string_at_nonzero[OF assms(2)]]
  by simp

theorem strcmp_correct_witness:
  "strcmp ((\<lambda>_. 0)(0x10 := 97, 0x11 := 98, 0x20 := 97, 0x21 := 98)) 0x10 0x20 = Some 0"
proof -
  let ?m = "(\<lambda>_. 0)(0x10 := 97, 0x11 := 98, 0x20 := 97, 0x21 := 98) :: memory"
  have "string_at ?m 0x10 [97, 98]" and "string_at ?m 0x20 [97, 98]" by simp_all
  from strcmp_correct[OF this] show ?thesis by auto
qed

fun decimal_digits :: "nat \<Rightarrow> nat list" where
  "decimal_digits n = (if n < 10 then [n] else n mod 10 # decimal_digits (n div 10))"

declare decimal_digits.simps [simp del] ltostr_digits.simps [simp del]

lemma decimal_digits_hd: "decimal_digits n = n mod 10 # (if n < 10 then [] else decimal_digits (n div 10))"
  by (simp add: decimal_digits.simps)

lemma ltostr_digits_nat:
  "ltostr_digits (int n) = int (n mod 10) # (if n div 10 mod 10 \<noteq> 0 then ltostr_digits (int (n div 10)) else [])"
proof -
  have d: "int m sdiv 10 = int (m div 10)" for m by (cases "m = 0") (simp_all add: signed_divide_int_def zdiv_int)
  have "int m smod 10 = int (m mod 10)" for m
    using d[of m] by (cases "m = 0") (simp_all add: signed_modulo_int_def zmod_int minus_div_mult_eq_mod zdiv_int)
  with d show ?thesis by (simp add: ltostr_digits.simps[of "int n"])
qed

text \<open>C40: \<open>ltostr\<close> writes the decimal digits of a number exactly when none of them but the last is zero:
  at a zero digit it stops, so that 105 is written as 5.\<close>

theorem ltostr_digits_correct_iff:
  "ltostr_digits (int n) = map int (decimal_digits n) \<longleftrightarrow> n < 10 \<or> 0 \<notin> set (decimal_digits (n div 10))"
proof (induction n rule: less_induct)
  case (less n)
  show ?case
  proof (cases "n < 10")
    case True
    then show ?thesis by (simp add: ltostr_digits_nat[of n] decimal_digits.simps[of n])
  next
    case False
    let ?q = "n div 10"
    have q: "?q < n" "0 < ?q" using False by simp_all
    note d = decimal_digits_hd[of ?q]
    show ?thesis
    proof (cases "?q mod 10 = 0")
      case True
      then show ?thesis using False d
        by (simp add: ltostr_digits_nat[of n] decimal_digits.simps[of n])
    next
      case nz: False
      then have "ltostr_digits (int n) = map int (decimal_digits n) \<longleftrightarrow>
          ltostr_digits (int ?q) = map int (decimal_digits ?q)"
        using False by (simp add: ltostr_digits_nat[of n] decimal_digits.simps[of n])
      also have "\<dots> \<longleftrightarrow> ?q < 10 \<or> 0 \<notin> set (decimal_digits (?q div 10))" by (rule less.IH[OF q(1)])
      also have "\<dots> \<longleftrightarrow> 0 \<notin> set (decimal_digits ?q)" using d nz q(2) by auto
      finally show ?thesis using False by simp
    qed
  qed
qed

theorem ltostr_digits_correct_iff_witness:
  "ltostr_digits 105 \<noteq> map int (decimal_digits 105) \<and> ltostr_digits 1250 = map int (decimal_digits 1250)"
  using ltostr_digits_correct_iff[of 105] ltostr_digits_correct_iff[of 1250]
  by (simp add: decimal_digits.simps)

end
