(* ===== verification/PageFile.thy ===== *)
theory PageFile
  imports Paging_Props Kheap_Free
begin

text \<open>
  The page file, kern/file_manager.c: the disk page directory and disk page tables of an
  environment, which map its virtual pages to disk frames, and the operations that add, write
  back, read and remove pages.  (Disk frames, transfers and the table file are in theory Paging.)
\<close>

section \<open>Disk page directory and tables\<close>

definition get_disk_page_directory :: "nat \<Rightarrow> (kstate, int) M" where
  "get_disk_page_directory e =
     bnd (get_env e) (\<lambda>env.
       if disk_env_pgdir env = 0 then
         bnd (kmalloc PAGE_SIZE) (\<lambda>p.
         seqm (modify (upd_env e (\<lambda>v. v\<lparr>disk_env_pgdir := p\<rparr>)))
           (if p = 0 then ret E_NO_VM
            else bnd (kheap_physical_address p) (\<lambda>pa.
              seqm (modify (upd_env e (\<lambda>v. v\<lparr>disk_env_pgdir_PA := pa\<rparr>)))
                (seqm (memset_page p) (ret 0)))))
       else ret 0)"

text \<open>Returns the code's result and the table, 0 for none.\<close>

definition get_disk_page_table :: "uint32 \<Rightarrow> uint32 \<Rightarrow> bool \<Rightarrow> (kstate, int \<times> uint32) M" where
  "get_disk_page_table dir va create =
     bnd (load (word_at dir (PDX va))) (\<lambda>entry.
     bnd (table_address va entry) (\<lambda>pt.
       if entry = 0 then
         if create then
           bnd (kmalloc PAGE_SIZE) (\<lambda>p.
             if p = 0 then ret (E_NO_VM, 0)
             else bnd (kheap_physical_address p) (\<lambda>pa.
               seqm (store (word_at dir (PDX va)) (CONSTRUCT_ENTRY pa PERM_PRESENT))
               (seqm (memset_page p) (ret (0, p)))))
         else ret (0, 0)
       else ret (0, pt)))"

section \<open>Pages\<close>

text \<open>The disk frame of a page, allocated when there is none; none when the disk is full.\<close>

definition page_disk_frame :: "nat \<Rightarrow> uint32 \<Rightarrow> (kstate, uint32 option) M" where
  "page_disk_frame e va =
     seqm (guard (va < KERNEL_BASE) AssertFailed)
     (bnd (get_disk_page_directory e) (\<lambda>_.
      bnd (get_env e) (\<lambda>env.
      bnd (get_disk_page_table (disk_env_pgdir env) va True) (\<lambda>(_, pt).
      bnd (load (word_at pt (PTX va))) (\<lambda>dfn.
        if dfn = 0 then
          bnd allocate_disk_frame (\<lambda>d. case d of
              None \<Rightarrow> ret None
            | Some d \<Rightarrow> seqm (store (word_at pt (PTX va)) (of_nat d)) (ret (Some (of_nat d))))
        else ret (Some dfn))))))"

definition pf_add_env_page :: "nat \<Rightarrow> uint32 \<Rightarrow> uint32 \<Rightarrow> (kstate, int) M" where
  "pf_add_env_page e va dataSrc =
     bnd (page_disk_frame e va) (\<lambda>d. case d of
         None \<Rightarrow> ret E_NO_PAGE_FILE_SPACE
       | Some dfn \<Rightarrow> write_disk_page dfn dataSrc)"

definition pf_add_empty_env_page :: "nat \<Rightarrow> uint32 \<Rightarrow> uint8 \<Rightarrow> (kstate, int) M" where
  "pf_add_empty_env_page e va initializeByZero =
     (if initializeByZero \<noteq> 0 then bnd (gets ptr_zero_page) (pf_add_env_page e va)
      else bnd (page_disk_frame e va) (\<lambda>d. case d of
          None \<Rightarrow> ret E_NO_PAGE_FILE_SPACE | Some _ \<Rightarrow> ret 0))"

text \<open>
  Writes a frame back to the disk frame of the page.  The frame is mapped for the transfer at
  \<open>USER_LIMIT\<close>, and its counter is raised for a moment so that unmapping does not free it.
\<close>

definition write_back :: "nat \<Rightarrow> uint32 \<Rightarrow> nat \<Rightarrow> (kstate, int) M" where
  "write_back e dfn fi =
     bnd (get_env e) (\<lambda>env.
     seqm (map_frame kmalloc (env_page_directory env) fi USER_LIMIT 0)
     (bnd (write_disk_page dfn (ROUNDDOWN USER_LIMIT PAGE_SIZE)) (\<lambda>r.
      seqm (modify (upd_frame fi (\<lambda>f. f\<lparr>references := references f + 1\<rparr>)))
      (seqm (unmap_frame (env_page_directory env) USER_LIMIT)
      (seqm (modify (upd_frame fi (\<lambda>f. f\<lparr>references := references f - 1\<rparr>)))
        (ret r))))))"

definition pf_update_env_page :: "nat \<Rightarrow> uint32 \<Rightarrow> nat \<Rightarrow> (kstate, int) M" where
  "pf_update_env_page e va fi =
     seqm (guard (va < KERNEL_BASE) AssertFailed)
     (bnd (get_disk_page_directory e) (\<lambda>_.
      bnd (get_env e) (\<lambda>env.
      bnd (get_disk_page_table (disk_env_pgdir env) va False) (\<lambda>(_, pt).
        if pt = 0 then ret E_PAGE_NOT_EXIST_IN_PF
        else bnd (load (word_at pt (PTX va))) (\<lambda>dfn.
          if dfn = 0 then ret E_PAGE_NOT_EXIST_IN_PF else write_back e dfn fi)))))"

definition pf_read_env_page :: "nat \<Rightarrow> uint32 \<Rightarrow> (kstate, int) M" where
  "pf_read_env_page e va0 =
     (let va = ROUNDDOWN va0 PAGE_SIZE in
      bnd (get_env e) (\<lambda>env.
        if disk_env_pgdir env = 0 then ret E_PAGE_NOT_EXIST_IN_PF
        else bnd (get_disk_page_table (disk_env_pgdir env) va False) (\<lambda>(_, pt).
          if pt = 0 then ret E_PAGE_NOT_EXIST_IN_PF
          else bnd (load (word_at pt (PTX va))) (\<lambda>dfn.
            if dfn = 0 then ret E_PAGE_NOT_EXIST_IN_PF
            else bnd (read_disk_page dfn va) (\<lambda>disk_read_error.
              bnd (gets curenv) (\<lambda>c.
              bnd (deref c) (\<lambda>c.
              seqm (pt_set_page_permissions kmalloc c va 0 PERM_MODIFIED)
                (ret disk_read_error))))))))"

definition pf_remove_env_page :: "nat \<Rightarrow> uint32 \<Rightarrow> (kstate, unit) M" where
  "pf_remove_env_page e va =
     bnd (get_env e) (\<lambda>env.
       if disk_env_pgdir env = 0 then ret ()
       else bnd (get_disk_page_table (disk_env_pgdir env) va False) (\<lambda>(_, pt).
         if pt = 0 then ret ()
         else bnd (load (word_at pt (PTX va))) (\<lambda>dfn.
           seqm (store (word_at pt (PTX va)) 0) (free_disk_frame dfn))))"

definition pf_free_env :: "nat \<Rightarrow> (kstate, unit) M" where
  "pf_free_env e =
     bnd (get_env e) (\<lambda>env.
     seqm (for_n (unat (PDX USER_TOP)) 0 (\<lambda>pdeno.
       bnd (load (word_at (disk_env_pgdir env) (of_nat pdeno))) (\<lambda>pde.
         whenM (pde AND PERM_PRESENT \<noteq> 0)
           (bnd (kheap_virtual_address (EXTRACT_ADDRESS pde)) (\<lambda>pt.
            seqm (for_n 1024 0 (\<lambda>pteno.
              bnd (load (word_at pt (of_nat pteno))) (\<lambda>dfn.
              seqm (store (word_at pt (of_nat pteno)) 0) (free_disk_frame dfn))))
            (seqm (store (word_at (disk_env_pgdir env) (of_nat pdeno)) 0) (kfree pt)))))))
     (seqm (kfree (disk_env_pgdir env))
     (seqm (modify (upd_env e (\<lambda>v. v\<lparr>disk_env_pgdir := 0, disk_env_pgdir_PA := 0\<rparr>)))
       (if disk_env_tabledir env = 0 then ret ()
        else seqm (pf_remove_env_all_tables e)
          (seqm (kfree (disk_env_tabledir env))
            (modify (upd_env e (\<lambda>v. v\<lparr>disk_env_tabledir := 0, disk_env_tabledir_PA := 0\<rparr>))))))))"

definition pf_calculate_allocated_pages :: "nat \<Rightarrow> (kstate, uint32) M" where
  "pf_calculate_allocated_pages e =
     bnd (get_env e) (\<lambda>env.
       acc_n (unat (PDX USER_TOP)) 0 (\<lambda>pdIndex counter.
         bnd (load (word_at (disk_env_pgdir env) (of_nat pdIndex))) (\<lambda>pde.
           if pde AND PERM_PRESENT = 0 then ret counter
           else bnd (kheap_virtual_address (EXTRACT_ADDRESS pde)) (\<lambda>pt.
             acc_n 1024 0 (\<lambda>ptIndex counter.
               bnd (load (word_at pt (of_nat ptIndex))) (\<lambda>dfn.
                 ret (if dfn \<noteq> 0 then counter + 1 else counter))) counter))) 0)"

section \<open>Writing a page back and reading it again\<close>

text \<open>The word of the disk page table that holds the disk frame of a page.\<close>

definition disk_table_of :: "nat \<Rightarrow> uint32 \<Rightarrow> kstate \<Rightarrow> uint32 option" where
  "disk_table_of e va s =
     (let dir = disk_env_pgdir (envs s e); a = word_at dir (PDX va) in
      if dir = 0 \<or> a < PAGE_SIZE \<or> kmem s a = 0 then None
      else (case table_address va (kmem s a) s of Inl err \<Rightarrow> None | Inr (pt, _) \<Rightarrow> Some pt))"

definition disk_slot :: "nat \<Rightarrow> uint32 \<Rightarrow> kstate \<Rightarrow> uint32 option" where
  "disk_slot e va s = (case disk_table_of e va s of None \<Rightarrow> None
     | Some pt \<Rightarrow> if pt = 0 \<or> word_at pt (PTX va) < PAGE_SIZE then None else Some (word_at pt (PTX va)))"

lemma disk_slotE:
  assumes "disk_slot e va s = Some w"
  obtains pt where "disk_env_pgdir (envs s e) \<noteq> 0" and "pt \<noteq> 0" and "w = word_at pt (PTX va)"
    and "PAGE_SIZE \<le> w" and "get_disk_page_table (disk_env_pgdir (envs s e)) va c s = Inr ((0, pt), s)"
proof -
  let ?dir = "disk_env_pgdir (envs s e)"
  from assms obtain pt where pt: "disk_table_of e va s = Some pt" "pt \<noteq> 0" "w = word_at pt (PTX va)" "PAGE_SIZE \<le> w"
    by (auto simp: disk_slot_def not_less split: option.splits if_splits)
  then obtain s' where d: "?dir \<noteq> 0" "\<not> word_at ?dir (PDX va) < PAGE_SIZE" "kmem s (word_at ?dir (PDX va)) \<noteq> 0"
    "table_address va (kmem s (word_at ?dir (PDX va))) s = Inr (pt, s')"
    by (auto simp: disk_table_of_def Let_def split: if_splits sum.splits)
  moreover from this table_address_state have "s' = s" by blast
  ultimately have "get_disk_page_table ?dir va c s = Inr ((0, pt), s)"
    by (simp add: get_disk_page_table_def bnd_apply load_def)
  with d(1) pt(2-4) show ?thesis by (rule that)
qed

lemma get_disk_page_directory_present:
  assumes "disk_env_pgdir (envs s e) \<noteq> 0"
  shows "get_disk_page_directory e s = Inr (0, s)"
  using assms by (simp add: get_disk_page_directory_def get_env_def)

lemma user_limit_kernel: "CHECK_IF_KERNEL_ADDRESS USER_LIMIT" "ROUNDDOWN USER_LIMIT PAGE_SIZE = USER_LIMIT"
    "\<not> KERNEL_BASE \<le> USER_LIMIT"
  by (simp_all add: CHECK_IF_KERNEL_ADDRESS_def layout_defs ROUNDDOWN_def)

text \<open>The frame is written from its temporary page, and the page tables are as before afterwards.\<close>

lemma write_back_full:
  assumes cur: "curenv s = Some e" and pd: "pgdir = env_page_directory (envs s e)"
    and sl: "slot pgdir USER_LIMIT s = Some u" and z: "kmem s u = 0" and ne: "u \<noteq> word_at pgdir (PDX USER_LIMIT)"
    and fi: "fi < unat (number_of_frames s)" "fi < 2 ^ 20" and r: "references (frames_info s fi) \<noteq> 65535"
    and disk: "disk_error s (disk_sector dfn) = 0"
  shows "\<exists>s'. write_back e dfn fi s = Inr (0, s') \<and>
    disk_data s' = (disk_data s)(unat dfn := frame_data s fi) \<and> kmem s' = kmem s \<and>
    frame_data s' = frame_data s \<and> free_frame_list s' = free_frame_list s \<and>
    references (frames_info s' fi) = references (frames_info s fi) \<and>
    envs s' = envs s \<and> time s' = time s \<and> number_of_frames s' = number_of_frames s \<and> curenv s' = curenv s \<and>
    disk_error s' = disk_error s \<and> (\<forall>g. g \<noteq> fi \<longrightarrow> frames_info s' g = frames_info s g)"
proof -
  let ?e = "CONSTRUCT_ENTRY (to_physical_address fi) (0 OR PERM_PRESENT)"
  let ?s1 = "(inc_ref fi USER_LIMIT s)\<lparr>kmem := (kmem s)(u := ?e)\<rparr>"
  have np: "\<not> kmem s u AND PERM_PRESENT = PERM_PRESENT" using z by (auto simp: PERM_PRESENT_def)
  have run1: "map_frame kmalloc pgdir fi USER_LIMIT 0 s = Inr ((), ?s1)"
    using map_frame_slot[OF sl fi(2), of kmalloc 0] np by simp
  have pb: "perm_bits 0" by (simp add: perm_bits_def)
  have fo: "frame_of ?e = fi" by (rule frame_of_entry[OF perm_bits_present[OF pb] fi(2)])
  have nz: "?e \<noteq> 0" by (rule entry_nonzero[OF entry_present])
  have sl1: "slot pgdir USER_LIMIT ?s1 = Some u"
    by (rule slot_kernel_stable[OF sl user_limit_kernel(1)]) (use ne in \<open>simp_all add: inc_ref_def\<close>)
  obtain pt where gi: "get_frame_info pgdir USER_LIMIT ?s1 = Inr ((Some fi, pt), ?s1)"
    by (rule get_frame_info_slot[OF sl1]) (use fo nz fi(1) in \<open>simp_all add: inc_ref_def\<close>)
  have act: "active_frame USER_LIMIT (emit ev ?s1) = active_frame USER_LIMIT ?s1" for ev
  proof -
    have "slot pgdir USER_LIMIT (emit ev ?s1) = Some u"
      by (rule slot_kernel_stable[OF sl1 user_limit_kernel(1)]) simp_all
    then obtain pt' where "get_frame_info pgdir USER_LIMIT (emit ev ?s1) = Inr ((Some fi, pt'), emit ev ?s1)"
      by (rule get_frame_info_slot) (use fo nz fi(1) in \<open>simp_all add: inc_ref_def\<close>)
    with gi cur pd show ?thesis by (simp add: active_frame_def inc_ref_def upd_frame_def emit_def)
  qed
  have a1: "active_frame USER_LIMIT ?s1 = Some fi"
    using gi cur pd by (simp add: active_frame_def inc_ref_def upd_frame_def)
  let ?s2 = "(emit (Ide_write (disk_sector dfn) USER_LIMIT) ?s1)
    \<lparr>disk_data := (disk_data s)(unat dfn := frame_data s fi)\<rparr>"
  have run2: "write_disk_page dfn USER_LIMIT ?s1 = Inr (0, ?s2)"
    using disk act a1 user_limit_kernel(3)
    by (simp add: write_disk_page_def page_contents_def bnd_apply seqm_def inc_ref_def upd_frame_def emit_def)
  let ?s3 = "upd_frame fi (\<lambda>f. f\<lparr>references := references f + 1\<rparr>) ?s2"
  have sl3: "slot pgdir USER_LIMIT ?s3 = Some u"
    by (rule slot_kernel_stable[OF sl1 user_limit_kernel(1)]) simp_all
  have k3: "kmem ?s3 u = ?e" by simp
  have un: "unmap_frame pgdir USER_LIMIT ?s3 =
      Inr ((), emit (Tlb_invalidate USER_LIMIT) ((dec_ref fi ?s3)\<lparr>kmem := (kmem ?s3)(u := 0)\<rparr>))"
    using unmap_frame_slot[OF sl3, unfolded k3 fo] nz fi(1) by (simp add: inc_ref_def)
  have refs3: "references (frames_info ?s3 fi) = references (frames_info s fi) + 2"
    by (simp add: inc_ref_def)
  have ne1: "references (frames_info s fi) + 2 \<noteq> 1"
  proof
    assume "references (frames_info s fi) + 2 = 1"
    then have "references (frames_info s fi) = 1 - 2" by (metis add_diff_cancel_right')
    with r show False by simp
  qed
  have kback: "(kmem s)(u := 0) = kmem s" using z by (metis fun_upd_triv)
  have "write_back e dfn fi s = Inr (0, upd_frame fi (\<lambda>f. f\<lparr>references := references f - 1\<rparr>)
      (emit (Tlb_invalidate USER_LIMIT) ((dec_ref fi ?s3)\<lparr>kmem := (kmem ?s3)(u := 0)\<rparr>)))"
    using run1 run2 un pd user_limit_kernel(2)
    by (simp add: write_back_def get_env_def bnd_apply seqm_def)
  then show ?thesis
    using refs3 ne1 kback by (auto simp: dec_ref_def inc_ref_def upd_frame_def emit_def)
qed

lemma write_back_spec:
  assumes cur: "curenv s = Some e" and pd: "pgdir = env_page_directory (envs s e)"
    and sl: "slot pgdir USER_LIMIT s = Some u" and z: "kmem s u = 0" and ne: "u \<noteq> word_at pgdir (PDX USER_LIMIT)"
    and fi: "fi < unat (number_of_frames s)" "fi < 2 ^ 20" and r: "references (frames_info s fi) \<noteq> 65535"
    and disk: "disk_error s (disk_sector dfn) = 0"
  shows "\<exists>s'. write_back e dfn fi s = Inr (0, s') \<and>
    disk_data s' = (disk_data s)(unat dfn := frame_data s fi) \<and> kmem s' = kmem s \<and>
    frame_data s' = frame_data s \<and> free_frame_list s' = free_frame_list s \<and>
    references (frames_info s' fi) = references (frames_info s fi)"
  using write_back_full[OF assms] by blast

lemma pf_update_env_page_spec:
  assumes va: "va < KERNEL_BASE" and w: "disk_slot e va s = Some w" "kmem s w \<noteq> 0"
  shows "pf_update_env_page e va fi s = write_back e (kmem s w) fi s"
proof -
  from disk_slotE[OF w(1)] obtain pt where pt: "disk_env_pgdir (envs s e) \<noteq> 0" "pt \<noteq> 0"
    "w = word_at pt (PTX va)" "PAGE_SIZE \<le> w"
    "get_disk_page_table (disk_env_pgdir (envs s e)) va False s = Inr ((0, pt), s)" by metis
  then show ?thesis
    using va w(2) get_disk_page_directory_present[OF pt(1)]
    by (simp add: pf_update_env_page_def get_env_def bnd_apply seqm_def)
qed

lemma pt_set_page_permissions_present:
  assumes "slot (env_page_directory (envs s e)) va s = Some u"
  shows "pt_set_page_permissions km e va p_set p_clear s =
    Inr ((), emit (Tlb_invalidate va) (s\<lparr>kmem := (kmem s)(u := (kmem s u OR p_set) AND NOT p_clear)\<rparr>))"
proof -
  let ?pd = "env_page_directory (envs s e)"
  from slotE[OF assms] obtain pt where pt: "table_of ?pd va s = Some pt" "u = word_at pt (PTX va)" "PAGE_SIZE \<le> u" by metis
  then obtain s' where d: "\<not> word_at ?pd (PDX va) < PAGE_SIZE"
    "kmem s (word_at ?pd (PDX va)) AND PERM_PRESENT = PERM_PRESENT"
    "table_address va (kmem s (word_at ?pd (PDX va))) s = Inr (pt, s')"
    by (auto simp: table_of_def Let_def split: if_splits sum.splits)
  moreover from this table_address_state have "s' = s" by blast
  ultimately show ?thesis
    using pt(2,3)
    by (simp add: pt_set_page_permissions_def pt_update_entry_def get_env_def update_word_def
        tlb_invalidate_def bnd_apply seqm_def load_def store_def not_less)
qed

text \<open>
  A page that is present in the running environment is read from its disk frame into the frame it
  is mapped to, and loses its modified bit.
\<close>

lemma pf_read_env_page_spec:
  assumes va: "va = ROUNDDOWN va0 PAGE_SIZE" "va < KERNEL_BASE"
    and w: "disk_slot e va s = Some w" "kmem s w \<noteq> 0"
    and cur: "curenv s = Some c" and u: "slot (env_page_directory (envs s c)) va s = Some u"
    and f: "kmem s u \<noteq> 0" "frame_of (kmem s u) < unat (number_of_frames s)"
    and disk: "disk_error s (disk_sector (kmem s w)) = 0"
  shows "\<exists>s'. pf_read_env_page e va0 s = Inr (0, s') \<and>
    frame_data s' = (frame_data s)(frame_of (kmem s u) := disk_data s (unat (kmem s w))) \<and>
    kmem s' = (kmem s)(u := kmem s u AND NOT PERM_MODIFIED) \<and> disk_data s' = disk_data s \<and>
    envs s' = envs s \<and> free_frame_list s' = free_frame_list s \<and> time s' = time s \<and> frames_info s' = frames_info s"
proof -
  let ?pd = "env_page_directory (envs s c)" and ?f = "frame_of (kmem s u)" and ?dfn = "kmem s w"
  from disk_slotE[OF w(1)] obtain pt where pt: "disk_env_pgdir (envs s e) \<noteq> 0" "pt \<noteq> 0"
    "w = word_at pt (PTX va)" "PAGE_SIZE \<le> w"
    "get_disk_page_table (disk_env_pgdir (envs s e)) va False s = Inr ((0, pt), s)" by metis
  let ?s1 = "emit (Ide_read (disk_sector ?dfn) va) s"
  have "slot ?pd va ?s1 = Some u"
    by (rule slot_stable[OF u]) simp_all
  then obtain pt1 where "get_frame_info ?pd va ?s1 = Inr ((Some ?f, pt1), ?s1)"
    by (rule get_frame_info_slot) (use f in simp_all)
  then have act: "active_frame va ?s1 = Some ?f" using cur by (simp add: active_frame_def)
  let ?s2 = "?s1\<lparr>frame_data := (frame_data s)(?f := disk_data s (unat ?dfn))\<rparr>"
  have rd: "read_disk_page ?dfn va s = Inr (0, ?s2)"
    using disk act va(2) by (simp add: read_disk_page_def set_page_contents_def bnd_apply seqm_def not_le[symmetric])
  have "slot (env_page_directory (envs ?s2 c)) va ?s2 = Some u"
    by (rule slot_stable[of _ _ s]) (use u in \<open>simp_all add: emit_def\<close>)
  note perm = pt_set_page_permissions_present[OF this, of kmalloc 0 PERM_MODIFIED]
  have "pf_read_env_page e va0 s = bnd (read_disk_page ?dfn va) (\<lambda>disk_read_error.
      bnd (gets curenv) (\<lambda>c. bnd (deref c) (\<lambda>c.
      seqm (pt_set_page_permissions kmalloc c va 0 PERM_MODIFIED) (ret disk_read_error)))) s"
    using pt w(2) va(1) by (simp add: pf_read_env_page_def Let_def get_env_def)
  also have "\<dots> = Inr (0, emit (Tlb_invalidate va)
      (?s2\<lparr>kmem := (kmem ?s2)(u := (kmem ?s2 u OR 0) AND NOT PERM_MODIFIED)\<rparr>))"
    using rd perm cur by (simp add: bnd_apply seqm_def emit_def)
  finally show ?thesis by (simp add: emit_def)
qed

section \<open>Properties\<close>

text \<open>
  A machine on which a page can be swapped: environment 0 runs, its page 0x800000 is mapped to
  frame 0x400 and has disk frame 5, and the table of the temporary page exists.
\<close>

definition swap_env :: Env where
  "swap_env = zero_env\<lparr>env_page_directory := 0xF0300000, disk_env_pgdir := 0xF6001000\<rparr>"

definition swap_machine :: kstate where
  "swap_machine = zero_kstate\<lparr>number_of_frames := 0x404, curenv := Some 0, envs := (\<lambda>_. swap_env),
     frames_info := (\<lambda>_. zero_frame_info)(0x302 := zero_frame_info\<lparr>fi_va := 0xF6000000\<rparr>,
        0x303 := zero_frame_info\<lparr>fi_va := 0xF6002000\<rparr>, 0x400 := zero_frame_info\<lparr>references := 1\<rparr>),
     frame_data := (\<lambda>_ _. 0)(0x400 := \<lambda>i. of_nat i),
     kmem := (\<lambda>_. 0)(0xF0300EF8 := 0x301003, 0xF0300008 := 0x302007, 0xF6000000 := 0x400047,
        0xF6001008 := 0x303001, 0xF6002000 := 5)\<rparr>"

lemmas swap_eval = swap_machine_def swap_env_def slot_def table_of_def disk_slot_def disk_table_of_def
  Let_def word_at_def PDX_def PTX_def PAGE_SIZE_def PERM_PRESENT_def table_address_def
  CHECK_IF_KERNEL_ADDRESS_def layout_defs STATIC_KERNEL_VIRTUAL_ADDRESS_def EXTRACT_ADDRESS_def
  PPN_def kheap_virtual_address_def zero_frame_info_def

lemma swap_machine_slots:
  "slot 0xF0300000 USER_LIMIT swap_machine = Some 0xF0301000"
  "slot 0xF0300000 0x800000 swap_machine = Some 0xF6000000"
  "disk_slot 0 0x800000 swap_machine = Some 0xF6002000"
  by (simp_all add: swap_eval)

text \<open>C9: Writing a page back copies the frame to the disk frame of the page and changes nothing else
  that matters: page tables, free frames, the frame's own counter and all frame contents are as
  before, although the frame was mapped and unmapped on the way.\<close>

theorem page_out_writes_frame:
  assumes "va < KERNEL_BASE" and "disk_slot e va s = Some w" and "kmem s w \<noteq> 0" and "curenv s = Some e"
    and "slot (env_page_directory (envs s e)) USER_LIMIT s = Some u" and "kmem s u = 0"
    and "u \<noteq> word_at (env_page_directory (envs s e)) (PDX USER_LIMIT)"
    and "fi < unat (number_of_frames s)" and "fi < 2 ^ 20" and "references (frames_info s fi) \<noteq> 65535"
    and "disk_error s (disk_sector (kmem s w)) = 0"
  shows "\<exists>s'. pf_update_env_page e va fi s = Inr (0, s') \<and>
    disk_data s' = (disk_data s)(unat (kmem s w) := frame_data s fi) \<and> kmem s' = kmem s \<and>
    frame_data s' = frame_data s \<and> free_frame_list s' = free_frame_list s \<and>
    references (frames_info s' fi) = references (frames_info s fi)"
  unfolding pf_update_env_page_spec[OF assms(1-3)] by (rule write_back_spec[OF assms(4) refl assms(5-11)])

theorem page_out_writes_frame_witness:
  "\<exists>s'. pf_update_env_page 0 0x800000 0x400 swap_machine = Inr (0, s') \<and> disk_data s' 5 7 = 7"
proof -
  have "\<exists>s'. pf_update_env_page 0 0x800000 0x400 swap_machine = Inr (0, s') \<and>
    disk_data s' = (disk_data swap_machine)(unat (kmem swap_machine 0xF6002000) := frame_data swap_machine 0x400) \<and>
    kmem s' = kmem swap_machine \<and> frame_data s' = frame_data swap_machine \<and>
    free_frame_list s' = free_frame_list swap_machine \<and>
    references (frames_info s' 0x400) = references (frames_info swap_machine 0x400)"
    by (rule page_out_writes_frame[where u = "0xF0301000"])
      (use swap_machine_slots in \<open>simp_all add: swap_machine_def swap_env_def layout_defs word_at_def
        PDX_def zero_frame_info_def zero_kstate_def\<close>)
  then show ?thesis by (auto simp: swap_machine_def)
qed

text \<open>C10: What was paged out is what is paged in: once a page has been written back, reading it in any
  later state in which its disk frame was not overwritten restores the contents of the frame,
  into whatever frame the page is mapped to by then, and clears the modified bit.\<close>

theorem page_in_after_page_out:
  assumes "va < KERNEL_BASE" and "disk_slot e va s = Some w" and "kmem s w \<noteq> 0" and "curenv s = Some e"
    and "slot (env_page_directory (envs s e)) USER_LIMIT s = Some u" and "kmem s u = 0"
    and "u \<noteq> word_at (env_page_directory (envs s e)) (PDX USER_LIMIT)"
    and "fi < unat (number_of_frames s)" and "fi < 2 ^ 20" and "references (frames_info s fi) \<noteq> 65535"
    and "disk_error s (disk_sector (kmem s w)) = 0"
    and "pf_update_env_page e va fi s = Inr (r, s1)"
    and "disk_data s2 (unat (kmem s w)) = disk_data s1 (unat (kmem s w))"
    and "va = ROUNDDOWN va0 PAGE_SIZE" and "disk_slot e va s2 = Some w2" and "kmem s2 w2 = kmem s w"
    and "curenv s2 = Some c" and "slot (env_page_directory (envs s2 c)) va s2 = Some u2"
    and "kmem s2 u2 \<noteq> 0" and "frame_of (kmem s2 u2) < unat (number_of_frames s2)"
    and "disk_error s2 (disk_sector (kmem s w)) = 0"
  shows "\<exists>s3. pf_read_env_page e va0 s2 = Inr (0, s3) \<and>
    frame_data s3 = (frame_data s2)(frame_of (kmem s2 u2) := frame_data s fi) \<and>
    kmem s3 = (kmem s2)(u2 := kmem s2 u2 AND NOT PERM_MODIFIED)"
proof -
  from write_back_spec[OF assms(4) refl assms(5-11)] assms(12) have
    "disk_data s1 (unat (kmem s w)) = frame_data s fi"
    unfolding pf_update_env_page_spec[OF assms(1-3)] by auto
  moreover have "kmem s2 w2 \<noteq> 0" and "disk_error s2 (disk_sector (kmem s2 w2)) = 0" using assms(3,16,21) by simp_all
  ultimately show ?thesis
    using pf_read_env_page_spec[OF assms(14,1,15) _ assms(17-20)] assms(13,16) by auto
qed

theorem page_in_after_page_out_witness:
  "\<exists>s1 s3. pf_update_env_page 0 0x800000 0x400 swap_machine = Inr (0, s1) \<and>
     pf_read_env_page 0 0x800123 (swap_machine\<lparr>disk_data := disk_data s1,
       kmem := (kmem swap_machine)(0xF6000000 := 0x401047)\<rparr>) = Inr (0, s3) \<and>
     frame_data s3 0x401 7 = 7 \<and> kmem s3 0xF6000000 = 0x401007"
proof -
  have out: "pf_update_env_page 0 0x800000 0x400 swap_machine = write_back 0 5 0x400 swap_machine"
    using pf_update_env_page_spec[OF _ swap_machine_slots(3), of "0x400"] by (simp add: swap_machine_def layout_defs)
  have "\<exists>s'. write_back 0 5 0x400 swap_machine = Inr (0, s') \<and> True"
    using write_back_spec[of swap_machine 0 "0xF0300000" "0xF0301000" "0x400" 5] swap_machine_slots(1)
    by (fastforce simp: swap_machine_def swap_env_def layout_defs word_at_def PDX_def zero_frame_info_def zero_kstate_def)
  then obtain s1 where s1: "pf_update_env_page 0 0x800000 0x400 swap_machine = Inr (0, s1)" using out by auto
  let ?s2 = "swap_machine\<lparr>disk_data := disk_data s1, kmem := (kmem swap_machine)(0xF6000000 := 0x401047)\<rparr>"
  have "\<exists>s3. pf_read_env_page 0 0x800123 ?s2 = Inr (0, s3) \<and>
    frame_data s3 = (frame_data ?s2)(frame_of (kmem ?s2 0xF6000000) := frame_data swap_machine 0x400) \<and>
    kmem s3 = (kmem ?s2)(0xF6000000 := kmem ?s2 0xF6000000 AND NOT PERM_MODIFIED)"
  proof (rule page_in_after_page_out[OF _ swap_machine_slots(3) _ _ _ _ _ _ _ _ _ s1])
    show "disk_slot 0 0x800000 ?s2 = Some 0xF6002000" by (simp add: swap_eval)
    show "slot (env_page_directory (envs ?s2 0)) 0x800000 ?s2 = Some 0xF6000000" by (simp add: swap_eval)
    show "slot (env_page_directory (envs swap_machine 0)) USER_LIMIT swap_machine = Some 0xF0301000"
      using swap_machine_slots(1) by (simp add: swap_machine_def swap_env_def)
  qed (simp_all add: swap_machine_def swap_env_def layout_defs word_at_def PDX_def zero_frame_info_def
      zero_kstate_def ROUNDDOWN_def frame_of_def PPN_def)
  then show ?thesis
    using s1 by (auto simp: swap_machine_def frame_of_def PPN_def PERM_MODIFIED_def)
qed

end
