(* ===== verification/WorkingSet.thy ===== *)
theory WorkingSet
  imports PageFile
begin

text \<open>
  The rest of kern/memory_manager.c: the working set of an environment, the kernel side of
  malloc, free and realloc (\<open>allocateMem\<close>, \<open>freeMem\<close>, \<open>moveMem\<close>), the frame counts, the lists
  of buffered frames, and the choice of a placement strategy.
\<close>

section \<open>Page working set\<close>

text \<open>The array is reached through a pointer, which is null when its allocation has failed.\<close>

definition get_ws :: "nat \<Rightarrow> (kstate, Env) M" where
  "get_ws e = bnd (get_env e) (\<lambda>env. seqm (guard (ptr_pageWorkingSet env \<noteq> 0) NullDeref) (ret env))"

definition upd_ws :: "nat \<Rightarrow> nat \<Rightarrow> (WorkingSetElement \<Rightarrow> WorkingSetElement) \<Rightarrow> kstate \<Rightarrow> kstate" where
  "upd_ws e i f = upd_env e (\<lambda>v. v\<lparr>pageWorkingSet := (pageWorkingSet v)(i := f (pageWorkingSet v i))\<rparr>)"

definition empty_ws :: WorkingSetElement where
  "empty_ws = \<lparr>ws_va = 0, ws_empty = 1, time_stamp = 0\<rparr>"

text \<open>The entries in use, in the order of the array.\<close>

definition used_entries :: "(nat \<Rightarrow> WorkingSetElement) \<Rightarrow> nat \<Rightarrow> nat list" where
  "used_entries ws n = filter (\<lambda>i. ws_empty (ws i) = 0) [0..<n]"

definition env_page_ws_get_size :: "nat \<Rightarrow> (kstate, uint32) M" where
  "env_page_ws_get_size e =
     bnd (get_env e) (\<lambda>env. if page_WS_max_size env = 0 then ret 0 else
     bnd (get_ws e) (\<lambda>env.
       ret (of_nat (length (used_entries (pageWorkingSet env) (unat (page_WS_max_size env)))))))"

text \<open>The index is a parameter, so the assertion may fail.\<close>

definition env_page_ws_clear_entry :: "nat \<Rightarrow> uint32 \<Rightarrow> (kstate, unit) M" where
  "env_page_ws_clear_entry e i =
     bnd (get_env e) (\<lambda>env. seqm (guard (i < page_WS_max_size env) AssertFailed)
       (bnd (get_ws e) (\<lambda>_. modify (upd_ws e (unat i) (\<lambda>_. empty_ws)))))"

definition env_page_ws_set_entry :: "nat \<Rightarrow> uint32 \<Rightarrow> uint32 \<Rightarrow> (kstate, unit) M" where
  "env_page_ws_set_entry e i va =
     bnd (get_env e) (\<lambda>env. seqm (guard (i < page_WS_max_size env) AssertFailed)
       (seqm (guard (va < USER_TOP) AssertFailed)
       (bnd (get_ws e) (\<lambda>_.
        seqm (modify (\<lambda>s. upd_ws e (unat i) (\<lambda>_. \<lparr>ws_va = ROUNDDOWN va PAGE_SIZE, ws_empty = 0,
                time_stamp = time s\<rparr>) s))
          (modify (\<lambda>s. s\<lparr>time := time s + 1\<rparr>))))))"

definition env_page_ws_get_virtual_address :: "nat \<Rightarrow> uint32 \<Rightarrow> (kstate, uint32) M" where
  "env_page_ws_get_virtual_address e i =
     bnd (get_env e) (\<lambda>env. seqm (guard (i < page_WS_max_size env) AssertFailed)
       (bnd (get_ws e) (\<lambda>env. ret (ROUNDDOWN (ws_va (pageWorkingSet env (unat i))) PAGE_SIZE))))"

definition env_page_ws_get_time_stamp :: "nat \<Rightarrow> uint32 \<Rightarrow> (kstate, uint32) M" where
  "env_page_ws_get_time_stamp e i =
     bnd (get_env e) (\<lambda>env. seqm (guard (i < page_WS_max_size env) AssertFailed)
       (bnd (get_ws e) (\<lambda>env. ret (time_stamp (pageWorkingSet env (unat i))))))"

definition env_page_ws_is_entry_empty :: "nat \<Rightarrow> uint32 \<Rightarrow> (kstate, uint32) M" where
  "env_page_ws_is_entry_empty e i =
     bnd (get_ws e) (\<lambda>env. ret (ucast (ws_empty (pageWorkingSet env (unat i)))))"

definition env_page_ws_invalidate :: "nat \<Rightarrow> uint32 \<Rightarrow> (kstate, unit) M" where
  "env_page_ws_invalidate e va =
     bnd (get_env e) (\<lambda>env. if page_WS_max_size env = 0 then ret () else
     bnd (get_ws e) (\<lambda>env.
       case find (\<lambda>i. ROUNDDOWN (ws_va (pageWorkingSet env i)) PAGE_SIZE = ROUNDDOWN va PAGE_SIZE)
              [0..<unat (page_WS_max_size env)] of
         None \<Rightarrow> ret ()
       | Some i \<Rightarrow> env_page_ws_clear_entry e (of_nat i)))"

section \<open>Table working set\<close>

definition TWS_MAX_SIZE :: nat where "TWS_MAX_SIZE = 50"

definition table_start :: "uint32 \<Rightarrow> uint32" where
  "table_start va = ROUNDDOWN va (PAGE_SIZE * 1024)"

definition upd_tws :: "nat \<Rightarrow> nat \<Rightarrow> (WorkingSetElement \<Rightarrow> WorkingSetElement) \<Rightarrow> kstate \<Rightarrow> kstate" where
  "upd_tws e i f = upd_env e (\<lambda>v. v\<lparr>ptr_tws := (ptr_tws v)(i := f (ptr_tws v i))\<rparr>)"

definition check_tws :: "uint32 \<Rightarrow> (kstate, unit) M" where
  "check_tws i = guard (unat i < TWS_MAX_SIZE) AssertFailed"

definition env_table_ws_get_size :: "nat \<Rightarrow> (kstate, uint32) M" where
  "env_table_ws_get_size e =
     bnd (get_env e) (\<lambda>env. ret (of_nat (length (used_entries (ptr_tws env) TWS_MAX_SIZE))))"

definition env_table_ws_clear_entry :: "nat \<Rightarrow> uint32 \<Rightarrow> (kstate, unit) M" where
  "env_table_ws_clear_entry e i = seqm (check_tws i) (modify (upd_tws e (unat i) (\<lambda>_. empty_ws)))"

definition env_table_ws_set_entry :: "nat \<Rightarrow> uint32 \<Rightarrow> uint32 \<Rightarrow> (kstate, unit) M" where
  "env_table_ws_set_entry e i va =
     seqm (check_tws i) (seqm (guard (va < USER_TOP) AssertFailed)
       (modify (upd_tws e (unat i)
          (\<lambda>_. \<lparr>ws_va = table_start va, ws_empty = 0, time_stamp = 0x80000000\<rparr>))))"

definition env_table_ws_get_virtual_address :: "nat \<Rightarrow> uint32 \<Rightarrow> (kstate, uint32) M" where
  "env_table_ws_get_virtual_address e i =
     seqm (check_tws i) (bnd (get_env e) (\<lambda>env. ret (table_start (ws_va (ptr_tws env (unat i))))))"

definition env_table_ws_get_time_stamp :: "nat \<Rightarrow> uint32 \<Rightarrow> (kstate, uint32) M" where
  "env_table_ws_get_time_stamp e i =
     seqm (check_tws i) (bnd (get_env e) (\<lambda>env. ret (time_stamp (ptr_tws env (unat i)))))"

text \<open>The read has no check, so an index past the array is out of bounds.\<close>

definition env_table_ws_is_entry_empty :: "nat \<Rightarrow> uint32 \<Rightarrow> (kstate, uint32) M" where
  "env_table_ws_is_entry_empty e i =
     seqm (guard (unat i < TWS_MAX_SIZE) OutOfBounds)
       (bnd (get_env e) (\<lambda>env. ret (ucast (ws_empty (ptr_tws env (unat i))))))"

definition env_table_ws_invalidate :: "nat \<Rightarrow> uint32 \<Rightarrow> (kstate, unit) M" where
  "env_table_ws_invalidate e va =
     bnd (get_env e) (\<lambda>env.
       case find (\<lambda>i. table_start (ws_va (ptr_tws env i)) = table_start va) [0..<TWS_MAX_SIZE] of
         None \<Rightarrow> ret ()
       | Some i \<Rightarrow> env_table_ws_clear_entry e (of_nat i))"

definition addTableToTableWorkingSet :: "nat \<Rightarrow> uint32 \<Rightarrow> (kstate, unit) M" where
  "addTableToTableWorkingSet e tableAddress =
     bnd (get_env e) (\<lambda>env. let i = table_last_WS_index env in
       seqm (guard (unat i < TWS_MAX_SIZE) OutOfBounds)
       (seqm (modify (upd_tws e (unat i)
               (\<lambda>_. \<lparr>ws_va = table_start tableAddress, ws_empty = 0, time_stamp = 0\<rparr>)))
         (modify (upd_env e (\<lambda>v. v\<lparr>table_last_WS_index := (i + 1) mod of_nat TWS_MAX_SIZE\<rparr>)))))"

section \<open>Kernel side of malloc, free and realloc\<close>

definition allocateMem :: "nat \<Rightarrow> uint32 \<Rightarrow> uint32 \<Rightarrow> (kstate, unit) M" where
  "allocateMem e virtual_address sz =
     for_n (unat (sz div PAGE_SIZE)) 0 (\<lambda>i.
       bnd (pf_add_empty_env_page e (virtual_address + of_nat i * PAGE_SIZE) 0) (\<lambda>_. ret ()))"

text \<open>Whether the 1024 words of a page table are zero.\<close>

definition table_is_empty :: "uint32 \<Rightarrow> (kstate, bool) M" where
  "table_is_empty pt = (\<lambda>s. if pt < PAGE_SIZE then Inl NullDeref
     else Inr (list_all (\<lambda>k. kmem s (word_at pt (of_nat k)) = 0) [0..<1024], s))"

text \<open>
  The loop shared by \<open>freeMem\<close> and \<open>freeSharedObject\<close>: a table of the range that holds no
  entry is freed and leaves the directory.
\<close>

definition remove_empty_tables :: "nat \<Rightarrow> uint32 \<Rightarrow> nat \<Rightarrow> (kstate, unit) M" where
  "remove_empty_tables e virtual_address n =
     for_n n 0 (\<lambda>i. let tmp = virtual_address + of_nat i * PAGE_SIZE in
       bnd (get_env e) (\<lambda>env.
       bnd (get_page_table (env_page_directory env) tmp) (\<lambda>(_, pt).
         whenM (pt \<noteq> 0)
           (bnd (table_is_empty pt) (\<lambda>found.
            whenM found
              (seqm (kfree pt) (store (word_at (env_page_directory env) (PDX tmp)) 0)))))))"

text \<open>The pages of the range that are in the working set.  \<open>virtual_address + size\<close> may wrap around.\<close>

definition free_resident_page :: "nat \<Rightarrow> uint32 \<Rightarrow> uint32 \<Rightarrow> uint32 \<Rightarrow> (kstate, unit) M" where
  "free_resident_page e virtual_address sz j =
     bnd (env_page_ws_get_virtual_address e j) (\<lambda>a.
       whenM (virtual_address \<le> a \<and> a < virtual_address + sz)
         (bnd (get_env e) (\<lambda>env.
          seqm (unmap_frame (env_page_directory env) a)
          (seqm (env_page_ws_clear_entry e j)
          (bnd (get_env e) (\<lambda>env.
           whenM (j < page_last_WS_index env)
             (modify (upd_env e (\<lambda>v. v\<lparr>page_last_WS_index := j\<rparr>)))))))))"

definition freeMem_with_buffering :: "nat \<Rightarrow> uint32 \<Rightarrow> uint32 \<Rightarrow> (kstate, unit) M" where
  "freeMem_with_buffering e virtual_address sz = raise (Panic ''this function is not required...!!'')"

definition freeMem :: "nat \<Rightarrow> uint32 \<Rightarrow> uint32 \<Rightarrow> (kstate, unit) M" where
  "freeMem e virtual_address sz =
     seqm (for_n (unat (sz div PAGE_SIZE)) 0 (\<lambda>i.
             pf_remove_env_page e (virtual_address + of_nat i * PAGE_SIZE)))
     (bnd (get_env e) (\<lambda>env.
      seqm (for_n (unat (page_WS_max_size env)) 0 (\<lambda>j. free_resident_page e virtual_address sz (of_nat j)))
        (remove_empty_tables e virtual_address (unat (sz div PAGE_SIZE)))))"

text \<open>One page of the last loop of \<open>moveMem\<close>: every entry of the source table is copied to the
  same index of the destination table, and the source table is freed when all were zero.\<close>

definition copy_table :: "uint32 \<Rightarrow> uint32 \<Rightarrow> (kstate, bool) M" where
  "copy_table pt1 pt2 =
     acc_n 1024 0 (\<lambda>k found.
       bnd (load (word_at pt1 (of_nat k))) (\<lambda>v.
       seqm (store (word_at pt2 (of_nat k)) v) (ret (found \<and> v = 0)))) True"

definition move_resident_page :: "nat \<Rightarrow> uint32 \<Rightarrow> uint32 \<Rightarrow> uint32 \<Rightarrow> nat \<Rightarrow> (kstate, unit) M" where
  "move_resident_page e src dst sz j =
     bnd (env_page_ws_get_virtual_address e (of_nat j)) (\<lambda>a.
       whenM (src \<le> a \<and> a < src + sz)
         (bnd (get_env e) (\<lambda>env.
          seqm (unmap_frame (env_page_directory env) a)
            (modify (upd_ws e j (\<lambda>w. w\<lparr>ws_va := dst + (a - src)\<rparr>))))))"

definition move_table :: "nat \<Rightarrow> uint32 \<Rightarrow> uint32 \<Rightarrow> (kstate, unit) M" where
  "move_table e src dst =
     bnd (get_env e) (\<lambda>env.
     bnd (get_page_table (env_page_directory env) src) (\<lambda>(_, pt1).
     bnd (get_page_table (env_page_directory env) dst) (\<lambda>(_, pt2).
       whenM (pt1 \<noteq> 0)
         (bnd (copy_table pt1 pt2) (\<lambda>found.
          whenM found
            (seqm (kfree pt1) (store (word_at (env_page_directory env) (PDX src)) 0)))))))"

definition moveMem :: "nat \<Rightarrow> uint32 \<Rightarrow> uint32 \<Rightarrow> uint32 \<Rightarrow> (kstate, unit) M" where
  "moveMem e src dst sz =
     seqm (for_n (unat (sz div PAGE_SIZE)) 0 (\<lambda>i.
             bnd (pf_add_empty_env_page e (dst + of_nat i * PAGE_SIZE) 0) (\<lambda>_.
               pf_remove_env_page e (src + of_nat i * PAGE_SIZE))))
     (bnd (get_env e) (\<lambda>env.
      seqm (for_n (unat (page_WS_max_size env)) 0 (move_resident_page e src dst sz))
        (for_n (unat (sz div PAGE_SIZE)) 0 (\<lambda>i.
          move_table e (src + of_nat i * PAGE_SIZE) (dst + of_nat i * PAGE_SIZE)))))"

section \<open>Frame counts\<close>

text \<open>
  \<^verbatim>\<open>for (cur = start; cur < stop; cur += step)\<close> with a counter.  The step is a multiple of the
  page size, so a loop that runs for more than 2^20 rounds has wrapped around and never ends.
\<close>

fun count_up :: "nat \<Rightarrow> uint32 \<Rightarrow> uint32 \<Rightarrow> uint32 \<Rightarrow> (uint32 \<Rightarrow> (kstate, bool) M) \<Rightarrow> uint32 \<Rightarrow> (kstate, uint32) M" where
  "count_up 0 step cur stop p n = raise OutOfFuel"
| "count_up (Suc fuel) step cur stop p n =
     (if cur < stop then
        bnd (p cur) (\<lambda>b. count_up fuel step (cur + step) stop p (if b then n + 1 else n))
      else ret n)"

definition calculate_required_frames :: "uint32 \<Rightarrow> uint32 \<Rightarrow> uint32 \<Rightarrow> (kstate, uint32) M" where
  "calculate_required_frames pgdir start sz =
     bnd (count_up (2 ^ 20 + 1) (PAGE_SIZE * 1024) (table_start start) (start + sz)
            (\<lambda>va. bnd (get_page_table pgdir va) (\<lambda>(_, pt). ret (pt = 0))) 0) (\<lambda>number_of_tables.
     bnd (count_up (2 ^ 20 + 1) PAGE_SIZE (ROUNDDOWN start PAGE_SIZE) (start + sz)
            (\<lambda>va. bnd (get_frame_info pgdir va) (\<lambda>(fi, _). ret (fi = None))) 0) (\<lambda>number_of_pages.
       ret (number_of_tables + number_of_pages)))"

record freeFramesCounters =
  freeBuffered :: nat
  freeNotBuffered :: nat
  modified :: nat

definition calculate_available_frames :: "(kstate, freeFramesCounters) M" where
  "calculate_available_frames = gets (\<lambda>s.
     \<lparr>freeBuffered = length (filter (\<lambda>f. isBuffered (frames_info s f)) (free_frame_list s)),
      freeNotBuffered = length (filter (\<lambda>f. \<not> isBuffered (frames_info s f)) (free_frame_list s)),
      modified = length (modified_frame_list s)\<rparr>)"

section \<open>Buffered frames\<close>

text \<open>The list is given by its accessor and its update, as the code gives it by its address.\<close>

definition bufferList_add_page :: "((nat list \<Rightarrow> nat list) \<Rightarrow> kstate \<Rightarrow> kstate) \<Rightarrow> nat \<Rightarrow> (kstate, unit) M" where
  "bufferList_add_page upd fi = modify (upd (\<lambda>l. l @ [fi]))"

definition bufferlist_remove_page ::
  "(kstate \<Rightarrow> nat list) \<Rightarrow> ((nat list \<Rightarrow> nat list) \<Rightarrow> kstate \<Rightarrow> kstate) \<Rightarrow> nat \<Rightarrow> (kstate, unit) M" where
  "bufferlist_remove_page get upd fi = (\<lambda>s. case list_remove fi (get s) of
       Inl err \<Rightarrow> Inl err | Inr l \<Rightarrow> Inr ((), upd (\<lambda>_. l) s))"

section \<open>Placement strategies\<close>

text \<open>The strategies of the user heap are numbers, since a system call may set any (inc/uheap.h).\<close>

definition UHP_PLACE_FIRSTFIT :: uint32 where "UHP_PLACE_FIRSTFIT = 1"
definition UHP_PLACE_BESTFIT :: uint32 where "UHP_PLACE_BESTFIT = 2"
definition UHP_PLACE_NEXTFIT :: uint32 where "UHP_PLACE_NEXTFIT = 3"
definition UHP_PLACE_WORSTFIT :: uint32 where "UHP_PLACE_WORSTFIT = 4"

definition setUHeapPlacementStrategy :: "uint32 \<Rightarrow> (kstate, unit) M" where
  "setUHeapPlacementStrategy p = modify (\<lambda>s. s\<lparr>UHeapPlacementStrategy := p\<rparr>)"

definition isUHeapPlacementStrategy :: "uint32 \<Rightarrow> (kstate, uint32) M" where
  "isUHeapPlacementStrategy p = gets (\<lambda>s. if UHeapPlacementStrategy s = p then 1 else 0)"

definition setKHeapPlacementStrategy :: "placement \<Rightarrow> (kstate, unit) M" where
  "setKHeapPlacementStrategy p = modify (\<lambda>s. s\<lparr>KHeapPlacementStrategy := p\<rparr>)"

definition isKHeapPlacementStrategy :: "placement \<Rightarrow> (kstate, uint32) M" where
  "isKHeapPlacementStrategy p = gets (\<lambda>s. if KHeapPlacementStrategy s = p then 1 else 0)"

end
