(* ===== verification/Environment.thy ===== *)
theory Environment
  imports WorkingSet
begin

text \<open>
  User environments, kern/user_environment.c: the table of programs, the walk over the segments
  of a program image, allocating, initialising, running and freeing an environment.
\<close>

section \<open>The table of user programs\<close>

text \<open>
  Name, description and the file whose embedded image the entry starts.  The images are made by
  the build, so their addresses are not known here.
\<close>

definition userPrograms :: "(string \<times> string \<times> string) list" where
  "userPrograms = [
    (''fos_helloWorld'', ''Created by FOS team, fos@nowhere.com'', ''fos_helloWorld''),
    (''fos_add'', ''Created by FOS team, fos@nowhere.com'', ''fos_add''),
    (''fos_alloc'', ''Created by FOS team, fos@nowhere.com'', ''fos_alloc''),
    (''fos_input'', ''Created by FOS team, fos@nowhere.com'', ''fos_input''),
    (''fos_game'', ''Created by FOS team, fos@nowhere.com'', ''game''),
    (''fos_static_data_section'', ''Created by FOS team, fos@nowhere.com'', ''fos_static_data_section''),
    (''fos_data_on_stack'', ''Created by FOS team, fos@nowhere.com'', ''fos_data_on_stack''),
    (''tpp'', ''Tests the Page placement'', ''tst_placement''),
    (''tia'', ''tests handling of invalid memory access'', ''tst_invalid_access''),
    (''tpr1'', ''Tests page replacement (allocation of Memory and PageFile)'', ''tst_page_replacement_alloc''),
    (''tpr2'', ''tests page replacement (handling new stack and modified pages)'', ''tst_page_replacement_stack''),
    (''tfifo1'', ''Tests page replacement (FIFO algorithm 1)'', ''tst_page_replacement_FIFO_1''),
    (''tfifo2'', ''Tests page replacement (FIFO algorithm 2)'', ''tst_page_replacement_FIFO_2''),
    (''tsem1'', ''Tests the Semaphores only [critical section & dependency]'', ''tst_semaphore_1master''),
    (''sem1Slave'', ''[Slave program] of tst_semaphore_1master'', ''tst_semaphore_1slave''),
    (''tsem2'', ''Tests the Semaphores only [multiprograms enter the same CS]'', ''tst_semaphore_2master''),
    (''sem2Slave'', ''[Slave program] of tst_semaphore_2master'', ''tst_semaphore_2slave''),
    (''tm1'', ''tests malloc (1): start address & allocated frames'', ''tst_malloc_1''),
    (''tm2'', ''tests malloc (2): writing & reading values in allocated spaces'', ''tst_malloc_2''),
    (''tm3'', ''tests malloc (3): check memory allocation and WS after accessing'', ''tst_malloc_3''),
    (''tf1'', ''tests free (1): freeing tables, WS and page file [placement case]'', ''tst_free_1''),
    (''tf2'', ''tests free (2): try accessing values in freed spaces'', ''tst_free_2''),
    (''tff1'', ''tests first fit (1): always find suitable space'', ''tst_first_fit_1''),
    (''tff2'', ''tests first fit (2): no suitable space'', ''tst_first_fit_2''),
    (''tff3'', ''tests first fit (3): malloc, smalloc & sget'', ''tst_first_fit_3''),
    (''tshr1'', ''Tests the shared variables [create]'', ''tst_sharing_1''),
    (''tshr2'', ''Tests the shared variables [create, get and perms]'', ''tst_sharing_2master''),
    (''shr2Slave1'', ''[Slave program1] of tst_sharing_2master'', ''tst_sharing_2slave1''),
    (''shr2Slave2'', ''[Slave program2] of tst_sharing_2master'', ''tst_sharing_2slave2''),
    (''tshr3'', ''Tests the shared variables [Special cases of create]'', ''tst_sharing_3''),
    (''tqsfh'', ''Quicksort with freeHeap'', ''tst_quicksort_freeHeap''),
    (''fact'', ''Factorial Recursive'', ''fos_factorial''),
    (''fib'', ''Fibonacci Recursive'', ''fos_fibonacci''),
    (''tqs'', ''Quicksort that cause memory leakage'', ''quicksort_heap''),
    (''qs'', ''Quicksort with NO memory leakage'', ''quicksort_noleakage''),
    (''ms1'', ''Mergesort with NO memory leakage'', ''mergesort_noleakage''),
    (''ms2'', ''Mergesort that cause memory leakage'', ''mergesort_leakage''),
    (''arrop'', ''Apply set of array operations: scenario program to test shared objects'', ''arrayOperations_Master''),
    (''slave_qs'', ''SlaveOperation: quicksort'', ''arrayOperations_quicksort''),
    (''slave_ms'', ''SlaveOperation: mergesort'', ''arrayOperations_mergesort''),
    (''slave_stats'', ''SlaveOperation: stats'', ''arrayOperations_stats''),
    (''tair'', '''', ''tst_air''),
    (''taircl'', '''', ''tst_air_clerk''),
    (''taircu'', '''', ''tst_air_customer''),
    (''midterm'', ''Midterm 2017: Example on shared resource and dependency'', ''MidTermEx_Master''),
    (''midterm_a'', ''Midterm 2017 Example: Process A'', ''MidTermEx_ProcessA''),
    (''midterm_b'', ''Midterm 2017 Example: Process B'', ''MidTermEx_ProcessB''),
    (''tr1'', ''tests realloc (1): normal cases'', ''tst_realloc_1''),
    (''tr2'', ''tests realloc (2): special cases'', ''tst_realloc_2''),
    (''tfr'', ''tests freeRAM (1): run in specific scenario'', ''tst_freeRAM''),
    (''tfs'', ''Tests freeing the unused stack pages'', ''tst_freeing_stack''),
    (''tshr4'', ''Tests the free of shared variables after createSharedObject only'', ''tst_sharing_4''),
    (''tshr5'', ''Tests the free of shared variables after both createSharedObject and getSharedObject'', ''tst_sharing_5_master''),
    (''tshr5slave'', ''Slave program to be used with tshr5'', ''tst_sharing_5_slave''),
    (''tshr5slaveB1'', ''Slave program to be used with tshr5'', ''tst_sharing_5_slaveB1''),
    (''tshr5slaveB2'', ''Slave program to be used with tshr5'', ''tst_sharing_5_slaveB2''),
    (''tkreallocshares'', ''Test shares array re-allocation if no shares are available'', ''tst_krealloc_shares_realloc'')]"

definition NUM_USER_PROGS :: nat where
  "NUM_USER_PROGS = length userPrograms"

definition get_user_program_info :: "string \<Rightarrow> (string \<times> string \<times> string) option" where
  "get_user_program_info user_program_name = find (\<lambda>p. fst p = user_program_name) userPrograms"

definition get_user_program_info_by_env :: "Env \<Rightarrow> (string \<times> string \<times> string) option" where
  "get_user_program_info_by_env e = find (\<lambda>p. prog_name e = fst p) userPrograms"

section \<open>Program images (inc/elf.h)\<close>

record Proghdr =
  p_type :: uint32
  p_offset :: uint32
  p_va :: uint32
  p_pa :: uint32
  p_filesz :: uint32
  p_memsz :: uint32
  p_flags :: uint32
  p_align :: uint32

text \<open>The header of an image, and its table of program headers, which starts at \<open>e_phoff\<close>.\<close>

record Elf =
  e_magic :: uint32
  e_entry :: uint32
  e_phnum :: uint16
  e_ph :: "nat \<Rightarrow> Proghdr"

definition ELF_MAGIC :: uint32 where "ELF_MAGIC = 0x464C457F"
definition ELF_PROG_LOAD :: uint32 where "ELF_PROG_LOAD = 1"

record ProgramSegment =
  ptr_start :: uint32
  size_in_file :: uint32
  size_in_memory :: uint32
  virtual_address :: uint32
  segment_id :: nat

text \<open>\<open>while (ph[id].p_type != ELF_PROG_LOAD && id < e_phnum) id++\<close>\<close>

function next_load :: "Elf \<Rightarrow> nat \<Rightarrow> nat" where
  "next_load elf i =
     (if p_type (e_ph elf i) \<noteq> ELF_PROG_LOAD \<and> i < unat (e_phnum elf) then next_load elf (i + 1) else i)"
  by pat_completeness auto
termination by (relation "measure (\<lambda>(elf, i). unat (e_phnum elf) - i)") auto

declare next_load.simps [simp del]

definition segment_of :: "Elf \<Rightarrow> uint32 \<Rightarrow> nat \<Rightarrow> ProgramSegment" where
  "segment_of elf prog i = \<lparr>ptr_start = prog + p_offset (e_ph elf i), size_in_file = p_filesz (e_ph elf i),
     size_in_memory = p_memsz (e_ph elf i), virtual_address = p_va (e_ph elf i), segment_id = i\<rparr>"

definition PROGRAM_SEGMENT_FIRST :: "Elf \<Rightarrow> uint32 \<Rightarrow> (kstate, ProgramSegment option) M" where
  "PROGRAM_SEGMENT_FIRST elf prog =
     seqm (guard (e_magic elf = ELF_MAGIC) (Panic ''Matafa2nash 3ala Keda''))
       (let i = next_load elf 0 in
        ret (if i < unat (e_phnum elf) then Some (segment_of elf prog i) else None))"

definition PROGRAM_SEGMENT_NEXT :: "Elf \<Rightarrow> uint32 \<Rightarrow> ProgramSegment \<Rightarrow> (kstate, ProgramSegment option) M" where
  "PROGRAM_SEGMENT_NEXT elf prog seg =
     seqm (guard (e_magic elf = ELF_MAGIC) (Panic ''Matafa2nash 3ala Keda''))
       (let i = next_load elf (segment_id seg + 1) in
        ret (if i < unat (e_phnum elf) then Some (segment_of elf prog i) else None))"

text \<open>The loop \<open>PROGRAM_SEGMENT_FOREACH\<close>; \<open>fuel\<close> bounds its rounds.\<close>

fun segments_from :: "nat \<Rightarrow> Elf \<Rightarrow> uint32 \<Rightarrow> ProgramSegment option \<Rightarrow> (kstate, ProgramSegment list) M" where
  "segments_from fuel elf prog None = ret []"
| "segments_from 0 elf prog (Some seg) = raise OutOfFuel"
| "segments_from (Suc fuel) elf prog (Some seg) =
     bnd (PROGRAM_SEGMENT_NEXT elf prog seg) (\<lambda>nxt.
     bnd (segments_from fuel elf prog nxt) (\<lambda>segs. ret (seg # segs)))"

definition PROGRAM_SEGMENT_FOREACH :: "nat \<Rightarrow> Elf \<Rightarrow> uint32 \<Rightarrow> (kstate, ProgramSegment list) M" where
  "PROGRAM_SEGMENT_FOREACH fuel elf prog =
     bnd (PROGRAM_SEGMENT_FIRST elf prog) (segments_from fuel elf prog)"

definition set_environment_entry_point :: "nat \<Rightarrow> Elf \<Rightarrow> (kstate, unit) M" where
  "set_environment_entry_point e elf =
     seqm (guard (e_magic elf = ELF_MAGIC) (Panic ''Matafa2nash 3ala Keda''))
       (modify (upd_env e (\<lambda>v. v\<lparr>env_tf := (env_tf v)\<lparr>tf_eip := e_entry elf\<rparr>\<rparr>)))"

section \<open>Free environments\<close>

text \<open>\<open>sizeof(struct Env)\<close> on the 32-bit target, and the number of them that fit in one megabyte.\<close>

definition sizeof_Env :: uint32 where "sizeof_Env = 816"
definition NENV :: uint32 where "NENV = (PTSIZE div 4) div sizeof_Env"
definition ENVX :: "uint32 \<Rightarrow> uint32" where "ENVX envid = envid AND (NENV - 1)"

definition env_init :: "(kstate, unit) M" where
  "env_init = modify (\<lambda>s. s\<lparr>
     envs := (\<lambda>i. if i < unat NENV then (envs s i)\<lparr>env_status := ENV_FREE, env_id := 0\<rparr> else envs s i),
     env_free_list := [0..<unat NENV] @ env_free_list s\<rparr>)"

text \<open>The environment stays on the free list until its initialisation is complete.\<close>

definition allocate_environment :: "(kstate, nat option) M" where
  "allocate_environment = (\<lambda>s. case hd_opt (env_free_list s) of
       None \<Rightarrow> Inr (None, s)
     | Some e \<Rightarrow> Inr (Some e, upd_env e (\<lambda>v. v\<lparr>env_status := ENV_UNKNOWN\<rparr>) s))"

definition free_environment :: "nat \<Rightarrow> (kstate, unit) M" where
  "free_environment e = seqm (modify (upd_env e (\<lambda>_. zero_env\<lparr>env_status := ENV_FREE\<rparr>)))
     (modify (\<lambda>s. s\<lparr>env_free_list := e # env_free_list s\<rparr>))"

definition create_user_page_WS :: "uint32 \<Rightarrow> (kstate, uint32) M" where
  "create_user_page_WS numOfElements = kmalloc (numOfElements * sizeof_WorkingSetElement)"

definition create_user_directory :: "(kstate, uint32) M" where
  "create_user_directory = kmalloc PAGE_SIZE"

section \<open>Initialising an environment\<close>

definition ENVGENSHIFT :: nat where "ENVGENSHIFT = 12"

definition next_env_id :: "uint32 \<Rightarrow> nat \<Rightarrow> uint32" where
  "next_env_id old e =
     (let generation = (old + push_bit ENVGENSHIFT 1) AND NOT (NENV - 1);
          generation = (if generation <=s 0 then push_bit ENVGENSHIFT 1 else generation)
      in generation OR of_nat e)"

text \<open>The segment selectors of inc/memlayout.h, with privilege level 3, and the interrupt flag.\<close>

definition user_trapframe :: Trapframe where
  "user_trapframe = zero_trapframe\<lparr>tf_ds := 0x20 OR 3, tf_es := 0x20 OR 3, tf_ss := 0x20 OR 3,
     tf_esp := USTACKTOP, tf_cs := 0x18 OR 3, tf_eflags := 0x200\<rparr>"

definition complete_environment_initialization :: "nat \<Rightarrow> (kstate, unit) M" where
  "complete_environment_initialization e =
     bnd (get_env e) (\<lambda>env.
     seqm (store (word_at (env_page_directory env) (PDX VPT)) (env_cr3 env OR PERM_PRESENT OR PERM_WRITEABLE))
     (seqm (store (word_at (env_page_directory env) (PDX UVPT)) (env_cr3 env OR PERM_PRESENT OR PERM_USER))
     (seqm (modify (upd_env e (\<lambda>v. v\<lparr>disk_env_pgdir := 0, disk_env_pgdir_PA := 0,
              disk_env_tabledir := 0, disk_env_tabledir_PA := 0, env_id := next_env_id (env_id v) e\<rparr>)))
     (bnd (gets (\<lambda>s. case curenv s of None \<Rightarrow> 0 | Some c \<Rightarrow> env_id (envs s c))) (\<lambda>parent.
      seqm (modify (upd_env e (\<lambda>v. v\<lparr>env_parent_id := parent, env_status := ENV_NEW, env_runs := 0,
              env_tf := user_trapframe\<rparr>)))
        (\<lambda>s. case list_remove e (env_free_list s) of
            Inl err \<Rightarrow> Inl err | Inr l \<Rightarrow> Inr ((), s\<lparr>env_free_list := l\<rparr>)))))))"

text \<open>The number of pages, or of tables, a loop over \<open>len\<close> bytes visits.\<close>

definition chunks :: "uint32 \<Rightarrow> uint32 \<Rightarrow> nat" where
  "chunks len step = (unat len + (unat step - 1)) div unat step"

text \<open>
  The directory is cleared below \<open>USER_TOP\<close> and shares the kernel's entries above it; the pages
  of the working set array are mapped read-only for the user.
\<close>

definition copy_kernel_directory :: "uint32 \<Rightarrow> (kstate, unit) M" where
  "copy_kernel_directory pgdir =
     seqm (for_n (unat (PDX USER_TOP)) 0 (\<lambda>i. store (word_at pgdir (of_nat i)) 0))
       (for_n (1024 - unat (PDX USER_TOP)) (unat (PDX USER_TOP)) (\<lambda>i.
          bnd (gets ptr_page_directory) (\<lambda>k.
          bnd (load (word_at k (of_nat i))) (store (word_at pgdir (of_nat i))))))"

definition map_user_page_WS :: "nat \<Rightarrow> (kstate, unit) M" where
  "map_user_page_WS e =
     seqm (modify (upd_env e (\<lambda>v. v\<lparr>uptr_pws := USER_PAGES_WS_START\<rparr>)))
     (bnd (get_env e) (\<lambda>env.
      bnd (create_user_page_WS (page_WS_max_size env)) (\<lambda>p.
      seqm (modify (upd_env e (\<lambda>v. v\<lparr>ptr_pageWorkingSet := p\<rparr>)))
        (for_n (chunks (sizeof_WorkingSetElement * page_WS_max_size env) PAGE_SIZE) 0 (\<lambda>i.
          bnd (kheap_physical_address (p + of_nat i * PAGE_SIZE)) (\<lambda>pa.
          bnd (to_frame_info pa) (\<lambda>fi.
            map_frame kmalloc (env_page_directory env) fi
              (USER_PAGES_WS_START + of_nat i * PAGE_SIZE) PERM_USER)))))))"

definition clear_working_sets :: "nat \<Rightarrow> (kstate, unit) M" where
  "clear_working_sets e =
     bnd (get_env e) (\<lambda>env.
     seqm (guard (page_WS_max_size env = 0 \<or> ptr_pageWorkingSet env \<noteq> 0) NullDeref)
       (modify (upd_env e (\<lambda>v. v\<lparr>
          pageWorkingSet := (\<lambda>i. if i < unat (page_WS_max_size v) then empty_ws else pageWorkingSet v i),
          page_last_WS_index := 0,
          ptr_tws := (\<lambda>i. if i < TWS_MAX_SIZE then empty_ws else ptr_tws v i),
          table_last_WS_index := 0, pageFaultsCounter := 0, tableFaultsCounter := 0,
          nModifiedPages := 0, nNotModifiedPages := 0\<rparr>))))"

definition initialize_environment :: "nat \<Rightarrow> uint32 \<Rightarrow> uint32 \<Rightarrow> (kstate, unit) M" where
  "initialize_environment e pgdir phys =
     seqm (modify (upd_env e (\<lambda>v. v\<lparr>env_page_directory := pgdir, env_cr3 := phys\<rparr>)))
     (seqm (copy_kernel_directory pgdir)
     (seqm (map_user_page_WS e)
     (seqm (clear_working_sets e) (complete_environment_initialization e))))"

section \<open>Running an environment\<close>

text \<open>\<open>env_run\<close> does not return: its last event is the return to user mode.\<close>

definition env_run :: "nat \<Rightarrow> (kstate, unit) M" where
  "env_run e =
     bnd (gets curenv) (\<lambda>c.
     seqm (whenM (c \<noteq> Some e)
             (seqm (modify (\<lambda>s. upd_env e (\<lambda>v. v\<lparr>env_runs := env_runs v + 1\<rparr>) (s\<lparr>curenv := Some e\<rparr>)))
               (\<lambda>s. Inr ((), emit (Load_cr3 (env_cr3 (envs s e))) s))))
     (seqm (modify (emit Kclock_resume)) (modify (emit (Pop_trapframe e)))))"

section \<open>Freeing an environment\<close>

definition remove_pws_user_pages :: "nat \<Rightarrow> (kstate, unit) M" where
  "remove_pws_user_pages e =
     bnd (get_env e) (\<lambda>env.
     let nBytes = sizeof_WorkingSetElement * page_WS_max_size env; pgdir = env_page_directory env in
     seqm (for_n (chunks nBytes PAGE_SIZE) 0 (\<lambda>i. unmap_frame pgdir (uptr_pws env + of_nat i * PAGE_SIZE)))
     (seqm (for_n (chunks nBytes PTSIZE) 0 (\<lambda>i. let tsva = uptr_pws env + of_nat i * PTSIZE in
        bnd (get_page_table pgdir tsva) (\<lambda>(_, uws_table).
        seqm (kfree uws_table) (store (word_at pgdir (PDX tsva)) 0))))
      tlbflush))"

text \<open>Both ways of freeing an environment end in a panic; what follows it is not reached.\<close>

definition env_free :: "nat \<Rightarrow> (kstate, unit) M" where
  "env_free e = seqm (remove_pws_user_pages e) (raise (Panic ''env_free() is not implemented yet...!!''))"

definition env_free_with_buffering :: "nat \<Rightarrow> (kstate, unit) M" where
  "env_free_with_buffering e =
     seqm (remove_pws_user_pages e) (raise (Panic ''this function is not required...!!''))"

definition isBufferingEnabled :: "(kstate, uint32) M" where
  "isBufferingEnabled = gets EnableBuffering"

definition start_env_free :: "nat \<Rightarrow> (kstate, unit) M" where
  "start_env_free e =
     bnd isBufferingEnabled (\<lambda>b. if b \<noteq> 0 then env_free_with_buffering e else env_free e)"

text \<open>Takes the modified frames of an environment off the buffer list and frees them.\<close>

definition cleanup_buffers :: "nat \<Rightarrow> (kstate, unit) M" where
  "cleanup_buffers e =
     bnd (gets modified_frame_list) (\<lambda>l.
     for_each l (\<lambda>fi.
       bnd (gets (\<lambda>s. frames_info s fi)) (\<lambda>f.
         whenM (environment f = Some e)
           (seqm (pt_clear_page_table_entry kmalloc e (fi_va f))
           (seqm (bufferlist_remove_page modified_frame_list modified_frame_list_update fi)
             (free_frame fi))))))"

lemma NENV_eq: "NENV = 1285" "unat NENV = 1285"
proof -
  show N: "NENV = 1285" by (simp add: NENV_def PTSIZE_def sizeof_Env_def NPTENTRIES_def PAGE_SIZE_def)
  show "unat NENV = 1285" unfolding N by simp
qed

section \<open>From an identifier to an environment (kern/helpers.c)\<close>

text \<open>Returns the code and the pointer.\<close>

definition envid2env :: "uint32 \<Rightarrow> bool \<Rightarrow> (kstate, int \<times> nat option) M" where
  "envid2env envid checkperm =
     bnd (gets curenv) (\<lambda>c.
       if envid = 0 then ret (0, c)
       else let e = unat (ENVX envid) in
         bnd (get_env e) (\<lambda>env.
           if env_status env = ENV_FREE \<or> env_id env \<noteq> envid then ret (E_BAD_ENV, None)
           else if checkperm \<and> Some e \<noteq> c then
             bnd (deref c) (\<lambda>c'. bnd (get_env c') (\<lambda>cenv.
               if env_parent_id env \<noteq> env_id cenv then ret (E_BAD_ENV, None) else ret (0, Some e)))
           else ret (0, Some e)))"

end
