(* ===== verification/Environment_Props.thy ===== *)
theory Environment_Props
  imports Environment Paging_Props
begin

text \<open>
  Two properties of kern/user_environment.c and kern/helpers.c: the walk over the segments of a
  program ends and visits the loadable ones, and which environments \<open>envid2env\<close> can find.
\<close>

section \<open>Program segments\<close>

text \<open>The headers to be loaded, by the definition of the format.\<close>

definition loads :: "Elf \<Rightarrow> nat \<Rightarrow> nat list" where
  "loads elf i = filter (\<lambda>i. p_type (e_ph elf i) = ELF_PROG_LOAD) [i..<unat (e_phnum elf)]"

lemma next_load_spec:
  "i \<le> unat (e_phnum elf) \<Longrightarrow>
   loads elf i = (if next_load elf i < unat (e_phnum elf) then next_load elf i # loads elf (Suc (next_load elf i)) else [])
   \<and> i \<le> next_load elf i"
proof (induction elf i rule: next_load.induct)
  case (1 elf i)
  show ?case
  proof (cases "p_type (e_ph elf i) \<noteq> ELF_PROG_LOAD \<and> i < unat (e_phnum elf)")
    case True
    then have n: "next_load elf i = next_load elf (i + 1)" and u: "loads elf i = loads elf (i + 1)"
      by (simp_all add: next_load.simps[of elf i] loads_def upt_conv_Cons)
    from 1(1)[OF True] True have "loads elf (i + 1) = (if next_load elf (i + 1) < unat (e_phnum elf)
        then next_load elf (i + 1) # loads elf (Suc (next_load elf (i + 1))) else []) \<and> i + 1 \<le> next_load elf (i + 1)"
      by simp
    then show ?thesis unfolding n u by simp
  next
    case False
    then have "next_load elf i = i" by (subst next_load.simps) auto
    with False 1(2) show ?thesis by (auto simp: loads_def upt_conv_Cons)
  qed
qed

definition at_load :: "Elf \<Rightarrow> uint32 \<Rightarrow> nat \<Rightarrow> ProgramSegment option" where
  "at_load elf prog i = (let j = next_load elf i in
     if j < unat (e_phnum elf) then Some (segment_of elf prog j) else None)"

lemma segments_from_spec:
  assumes "e_magic elf = ELF_MAGIC"
  shows "i \<le> unat (e_phnum elf) \<Longrightarrow> unat (e_phnum elf) - i \<le> fuel \<Longrightarrow>
    segments_from fuel elf prog (at_load elf prog i) s = Inr (map (segment_of elf prog) (loads elf i), s)"
proof (induction fuel arbitrary: i)
  case 0
  then have "i = unat (e_phnum elf)" by simp
  moreover from this have "loads elf i = []" by (simp add: loads_def)
  moreover from this next_load_spec[of i elf] 0 have "at_load elf prog i = None"
    by (auto simp: at_load_def split: if_splits)
  ultimately show ?case by simp
next
  case (Suc fuel)
  let ?j = "next_load elf i"
  note nl = next_load_spec[OF Suc.prems(1)]
  show ?case
  proof (cases "?j < unat (e_phnum elf)")
    case False
    with nl show ?thesis by (simp add: at_load_def)
  next
    case True
    have nxt: "PROGRAM_SEGMENT_NEXT elf prog (segment_of elf prog ?j) s = Inr (at_load elf prog (Suc ?j), s)"
      using assms by (simp add: PROGRAM_SEGMENT_NEXT_def at_load_def segment_of_def seqm_def bnd_apply Let_def)
    have "segments_from fuel elf prog (at_load elf prog (Suc ?j)) s = Inr (map (segment_of elf prog) (loads elf (Suc ?j)), s)"
      by (rule Suc.IH) (use True nl Suc.prems(2) in auto)
    with nl True nxt show ?thesis by (simp add: at_load_def bnd_apply)
  qed
qed

text \<open>The loop \<open>PROGRAM_SEGMENT_FOREACH\<close> ends on every image with the right magic number, after at most
  as many rounds as there are program headers, and visits exactly the loadable segments, in the
  order of the header table.\<close>

theorem segments_are_the_loads:
  assumes "e_magic elf = ELF_MAGIC" and "unat (e_phnum elf) \<le> fuel"
  shows "PROGRAM_SEGMENT_FOREACH fuel elf prog s = Inr (map (segment_of elf prog)
    (filter (\<lambda>i. p_type (e_ph elf i) = ELF_PROG_LOAD) [0..<unat (e_phnum elf)]), s)"
proof -
  have "PROGRAM_SEGMENT_FIRST elf prog s = Inr (at_load elf prog 0, s)"
    using assms(1) by (simp add: PROGRAM_SEGMENT_FIRST_def at_load_def seqm_def bnd_apply Let_def)
  then show ?thesis
    using segments_from_spec[OF assms(1), of 0 fuel prog s] assms(2)
    by (simp add: PROGRAM_SEGMENT_FOREACH_def loads_def)
qed

definition tiny_image :: Elf where
  "tiny_image = \<lparr>e_magic = ELF_MAGIC, e_entry = 0x800020, e_phnum = 3,
     e_ph = (\<lambda>i. \<lparr>p_type = (if i = 1 then 4 else ELF_PROG_LOAD), p_offset = of_nat (0x1000 * i),
       p_va = of_nat (0x800000 + 0x1000 * i), p_pa = 0, p_filesz = 0x100, p_memsz = 0x200, p_flags = 5, p_align = 0x1000\<rparr>)\<rparr>"

theorem segments_are_the_loads_witness:
  "\<exists>segs. PROGRAM_SEGMENT_FOREACH 3 tiny_image 0xF0200000 zero_kstate = Inr (segs, zero_kstate) \<and>
     map ProgramSegment.virtual_address segs = [0x800000, 0x802000]"
proof -
  have e: "[0..<3] = [0, 1, 2::nat]" by (simp add: upt_rec)
  have "PROGRAM_SEGMENT_FOREACH 3 tiny_image 0xF0200000 zero_kstate = Inr (map (segment_of tiny_image 0xF0200000)
    (filter (\<lambda>i. p_type (e_ph tiny_image i) = ELF_PROG_LOAD) [0..<unat (e_phnum tiny_image)]), zero_kstate)"
    by (rule segments_are_the_loads) (simp_all add: tiny_image_def)
  then show ?thesis by (simp add: tiny_image_def segment_of_def ELF_PROG_LOAD_def e)
qed

section \<open>Identifiers of environments\<close>

lemma next_env_id_0: "next_env_id 0 e = 0x1000 OR of_nat e"
  by (simp add: next_env_id_def NENV_eq ENVGENSHIFT_def Let_def word_sle_eq)

lemma ENVX_id: "ENVX (0x1000 OR of_nat e) = of_nat e AND 0x504"
proof -
  have "(0x1000 OR x) AND 0x504 = x AND 0x504" for x :: uint32
    by (simp add: bit.conj_disj_distrib2)
  then show ?thesis by (simp add: ENVX_def NENV_eq)
qed

lemma low_bits:
  assumes "i < 2 ^ 12"
  shows "(0x1000 OR of_nat i :: uint32) AND mask 12 = of_nat i"
proof -
  have "(of_nat i :: uint32) AND mask 12 = of_nat i"
    using assms by (simp add: take_bit_eq_mask[symmetric] take_bit_of_nat take_bit_nat_eq_self)
  moreover have "(0x1000 :: uint32) AND mask 12 = 0" by (simp add: mask_eq_exp_minus_1)
  ultimately show ?thesis by (simp add: bit.conj_disj_distrib2)
qed

lemma first_id_inj:
  assumes "i < 2 ^ 12" and "j < 2 ^ 12" and "(0x1000 OR of_nat i :: uint32) = 0x1000 OR of_nat j"
  shows "i = j"
proof -
  have "(of_nat i :: uint32) = of_nat j" using low_bits[OF assms(1)] low_bits[OF assms(2)] assms(3) by metis
  then have "unat (of_nat i :: uint32) = unat (of_nat j :: uint32)" by (rule arg_cong)
  moreover have "i < 2 ^ LENGTH(32)" and "j < 2 ^ LENGTH(32)" using assms(1,2) by simp_all
  ultimately show ?thesis by (simp only: unat_of_nat_small)
qed

lemma first_id_nonzero: "(0x1000 OR x :: uint32) \<noteq> 0"
proof
  assume "(0x1000 OR x :: uint32) = 0"
  then have "(0x1000 :: uint32) = 0" by (simp only: or_eq_0_iff)
  then show False by simp
qed

text \<open>C21: The index part of an identifier is taken with the mask \<open>NENV - 1\<close>, which is right for a power of two
  only, and \<open>NENV\<close> is 1285: while every environment has the identifier of its first use, \<open>envid2env\<close>
  finds the environments whose index has no bit outside the mask, and answers \<open>E_BAD_ENV\<close> for all
  others that exist.\<close>

theorem envid2env_finds_iff:
  assumes "\<forall>j<unat NENV. env_status (envs s j) = ENV_FREE \<or> env_id (envs s j) = next_env_id 0 j"
    and "e < unat NENV" and "env_status (envs s e) \<noteq> ENV_FREE"
  shows "envid2env (env_id (envs s e)) False s =
    Inr (if of_nat e AND (0x504 :: uint32) = of_nat e then (0, Some e) else (E_BAD_ENV, None), s)"
proof -
  let ?j = "unat (of_nat e AND 0x504 :: uint32)"
  have e: "e < 2 ^ 12" using assms(2) by (simp add: NENV_eq)
  have ue: "unat (of_nat e :: uint32) = e" by (rule unat_of_nat_small) (use e in simp)
  have "(of_nat e AND 0x504 :: uint32) \<le> of_nat e" by (rule word_and_le2)
  then have je: "?j \<le> e" unfolding word_le_nat_alt ue .
  have id: "env_id (envs s e) = 0x1000 OR of_nat e" using assms by (auto simp: next_env_id_0)
  have run: "envid2env (env_id (envs s e)) False s =
      (if env_status (envs s ?j) = ENV_FREE \<or> env_id (envs s ?j) \<noteq> env_id (envs s e)
       then Inr ((E_BAD_ENV, None), s) else Inr ((0, Some ?j), s))"
    by (simp add: envid2env_def id ENVX_id first_id_nonzero get_env_def bnd_apply Let_def)
  show ?thesis
  proof (cases "of_nat e AND (0x504 :: uint32) = of_nat e")
    case True
    then show ?thesis unfolding run using ue assms(3) by simp
  next
    case False
    then have ne: "?j \<noteq> e" using ue by (metis word_unat_eq_iff)
    have "?j < unat NENV" using je assms(2) by (rule le_less_trans)
    with assms(1) have "env_status (envs s ?j) = ENV_FREE \<or> env_id (envs s ?j) = 0x1000 OR of_nat ?j"
      unfolding next_env_id_0 by blast
    moreover have "(0x1000 OR of_nat ?j :: uint32) \<noteq> 0x1000 OR of_nat e"
      using first_id_inj[of ?j e] je e ne by linarith
    ultimately show ?thesis unfolding run using id False by auto
  qed
qed

text \<open>Environments 4 and 5 exist; the first can be found by its identifier and the second cannot.\<close>

theorem envid2env_finds_iff_witness:
  "\<exists>s. envid2env (env_id (envs s 4)) False s = Inr ((0, Some 4), s) \<and>
     envid2env (env_id (envs s 5)) False s = Inr ((E_BAD_ENV, None), s)"
proof -
  define s where "s = zero_kstate\<lparr>envs := (\<lambda>i. zero_env\<lparr>env_id := next_env_id 0 i, env_status := ENV_READY\<rparr>)\<rparr>"
  have a: "\<forall>j<unat NENV. env_status (envs s j) = ENV_FREE \<or> env_id (envs s j) = next_env_id 0 j" by (simp add: s_def)
  have f: "env_status (envs s j) \<noteq> ENV_FREE" for j by (simp add: s_def)
  have "envid2env (env_id (envs s 4)) False s =
      Inr (if of_nat 4 AND (0x504 :: uint32) = of_nat 4 then (0, Some 4) else (E_BAD_ENV, None), s)"
    by (rule envid2env_finds_iff[OF a _ f]) (simp add: NENV_eq)
  moreover have "envid2env (env_id (envs s 5)) False s =
      Inr (if of_nat 5 AND (0x504 :: uint32) = of_nat 5 then (0, Some 5) else (E_BAD_ENV, None), s)"
    by (rule envid2env_finds_iff[OF a _ f]) (simp add: NENV_eq)
  ultimately show ?thesis by (intro exI[of _ s]) simp
qed

end
