(* ===== verification/Sched.thy ===== *)
theory Sched
  imports Environment
begin

text \<open>
  The scheduler, kern/sched.c: the queues of new, ready and exited environments, the pointer
  \<open>sched_next\<close> that walks around the ready queue, and the operations the system calls, the
  command prompt and the clock interrupt use.
\<close>

section \<open>Leaving the kernel\<close>

text \<open>
  Functions that do not return end, in the model, with the event that gives control away.  What the
  code has after a call that may give control away runs only when it did not.
\<close>

definition gives_control :: "hw_event \<Rightarrow> bool" where
  "gives_control ev = (case ev of Pop_trapframe e \<Rightarrow> True | Resume_kernel a \<Rightarrow> True | Command_prompt \<Rightarrow> True | _ \<Rightarrow> False)"

definition exits :: "kstate \<Rightarrow> nat" where
  "exits s = length (filter gives_control (hw s))"

definition unless_left :: "(kstate, unit) M \<Rightarrow> (kstate, unit) M \<Rightarrow> (kstate, unit) M" where
  "unless_left m1 m2 = (\<lambda>s. case m1 s of Inl err \<Rightarrow> Inl err
     | Inr (_, s') \<Rightarrow> if exits s' = exits s then m2 s' else Inr ((), s'))"

section \<open>The ready queue\<close>

definition sched_init :: "(kstate, unit) M" where
  "sched_init = modify (\<lambda>s. s\<lparr>env_ready_queue := [], env_new_queue := [], env_exit_queue := [],
     sched_next := None, scheduler_started := False\<rparr>)"

text \<open>\<open>LIST_NEXT\<close> of an element of a list; the link of an element on no list is null.\<close>

fun list_next :: "'a \<Rightarrow> 'a list \<Rightarrow> 'a option" where
  "list_next x [] = None"
| "list_next x (y # ys) = (if x = y then hd_opt ys else list_next x ys)"

definition sched_next_circular :: "nat option \<Rightarrow> (kstate, nat option) M" where
  "sched_next_circular env = (case env of None \<Rightarrow> ret None
     | Some e \<Rightarrow> bnd (gets env_ready_queue) (\<lambda>q.
         ret (case list_next e q of None \<Rightarrow> hd_opt q | Some n \<Rightarrow> Some n)))"

definition set_status :: "nat \<Rightarrow> env_status_t \<Rightarrow> (kstate, unit) M" where
  "set_status e st = modify (upd_env e (\<lambda>v. v\<lparr>env_status := st\<rparr>))"

text \<open>\<open>LIST_INSERT_BEFORE\<close>: the element is put in front of one that must be on the list.\<close>

fun insert_before :: "'a \<Rightarrow> 'a \<Rightarrow> 'a list \<Rightarrow> 'a list" where
  "insert_before n x [] = []"
| "insert_before n x (y # ys) = (if n = y then x # y # ys else y # insert_before n x ys)"

definition sched_insert_ready :: "nat option \<Rightarrow> (kstate, unit) M" where
  "sched_insert_ready env = (case env of None \<Rightarrow> ret ()
     | Some e \<Rightarrow> seqm (set_status e ENV_READY)
         (bnd (gets sched_next) (\<lambda>n. case n of
             Some n \<Rightarrow> bnd (gets env_ready_queue) (\<lambda>q.
               seqm (guard (n \<in> set q) CorruptList)
                 (modify (\<lambda>s. s\<lparr>env_ready_queue := insert_before n e q\<rparr>)))
           | None \<Rightarrow> modify (\<lambda>s. s\<lparr>env_ready_queue := env_ready_queue s @ [e], sched_next := Some e\<rparr>))))"

definition sched_remove_ready :: "nat option \<Rightarrow> (kstate, unit) M" where
  "sched_remove_ready env = (case env of None \<Rightarrow> ret ()
     | Some e \<Rightarrow>
         bnd (gets sched_next) (\<lambda>n.
         seqm (whenM (n = Some e)
                 (bnd (sched_next_circular (Some e)) (\<lambda>n'.
                  modify (\<lambda>s. s\<lparr>sched_next := (if n' = Some e then None else n')\<rparr>))))
         (seqm (\<lambda>s. case list_remove e (env_ready_queue s) of
                   Inl err \<Rightarrow> Inl err | Inr l \<Rightarrow> Inr ((), s\<lparr>env_ready_queue := l\<rparr>))
           (set_status e ENV_UNKNOWN))))"

section \<open>The queues of new and of exited environments\<close>

definition sched_insert_new :: "nat option \<Rightarrow> (kstate, unit) M" where
  "sched_insert_new env = (case env of None \<Rightarrow> ret ()
     | Some e \<Rightarrow> seqm (set_status e ENV_NEW) (modify (\<lambda>s. s\<lparr>env_new_queue := env_new_queue s @ [e]\<rparr>)))"

definition sched_remove_new :: "nat option \<Rightarrow> (kstate, unit) M" where
  "sched_remove_new env = (case env of None \<Rightarrow> ret ()
     | Some e \<Rightarrow> seqm (\<lambda>s. case list_remove e (env_new_queue s) of
           Inl err \<Rightarrow> Inl err | Inr l \<Rightarrow> Inr ((), s\<lparr>env_new_queue := l\<rparr>)) (set_status e ENV_UNKNOWN))"

definition sched_insert_exit :: "nat option \<Rightarrow> (kstate, unit) M" where
  "sched_insert_exit env = (case env of None \<Rightarrow> ret ()
     | Some e \<Rightarrow> seqm (set_status e ENV_EXIT) (modify (\<lambda>s. s\<lparr>env_exit_queue := env_exit_queue s @ [e]\<rparr>)))"

definition sched_remove_exit :: "nat option \<Rightarrow> (kstate, unit) M" where
  "sched_remove_exit env = (case env of None \<Rightarrow> ret ()
     | Some e \<Rightarrow> seqm (\<lambda>s. case list_remove e (env_exit_queue s) of
           Inl err \<Rightarrow> Inl err | Inr l \<Rightarrow> Inr ((), s\<lparr>env_exit_queue := l\<rparr>)) (set_status e ENV_UNKNOWN))"

definition sched_new_env :: "nat option \<Rightarrow> (kstate, unit) M" where
  "sched_new_env e = sched_insert_new e"

section \<open>Choosing the next environment\<close>

text \<open>
  \<open>fos_scheduler\<close> does not return: it runs an environment, or goes back to the command prompt
  when there is none.  The model ends where control leaves the kernel.
\<close>

definition fos_scheduler :: "(kstate, unit) M" where
  "fos_scheduler =
     seqm (modify (\<lambda>s. s\<lparr>scheduler_started := True\<rparr>))
     (bnd (gets sched_next) (\<lambda>current_env.
      bnd (sched_next_circular current_env) (\<lambda>n.
      seqm (modify (\<lambda>s. s\<lparr>sched_next := n\<rparr>))
       (case current_env of
          Some e \<Rightarrow> env_run e
        | None \<Rightarrow> seqm (modify (\<lambda>s. emit (Load_cr3 (phys_page_directory s)) (s\<lparr>curenv := None\<rparr>)))
                   (modify (\<lambda>s. emit Command_prompt (s\<lparr>scheduler_started := False\<rparr>)))))))"

definition sched_run_all :: "(kstate, unit) M" where
  "sched_run_all =
     bnd (gets env_new_queue) (\<lambda>q.
     seqm (for_each q (\<lambda>e. seqm (sched_remove_new (Some e)) (sched_insert_ready (Some e))))
       (bnd (gets scheduler_started) (\<lambda>st. whenM (\<not> st) fos_scheduler)))"

definition sched_run_env :: "uint32 \<Rightarrow> (kstate, unit) M" where
  "sched_run_env envId =
     bnd (gets (\<lambda>s. find (\<lambda>e. env_id (envs s e) = envId) (env_new_queue s))) (\<lambda>found.
       case found of None \<Rightarrow> ret ()
       | Some e \<Rightarrow> seqm (sched_remove_new (Some e)) (seqm (sched_insert_ready (Some e))
           (bnd (gets scheduler_started) (\<lambda>st. whenM (\<not> st) fos_scheduler))))"

text \<open>Whether \<open>curenv->env_id == envId\<close>; the pointer is not tested before.\<close>

definition curenv_has_id :: "uint32 \<Rightarrow> (kstate, bool) M" where
  "curenv_has_id envId =
     bnd (gets curenv) (\<lambda>c. bnd (deref c) (\<lambda>c. bnd (get_env c) (\<lambda>env. ret (env_id env = envId))))"

definition exit_cleanup :: "nat \<Rightarrow> (kstate, unit) M" where
  "exit_cleanup e = bnd isBufferingEnabled (\<lambda>b. whenM (b \<noteq> 0) (cleanup_buffers e))"

definition sched_exit_env :: "uint32 \<Rightarrow> (kstate, unit) M" where
  "sched_exit_env envId =
     bnd (gets (\<lambda>s. find (\<lambda>e. env_id (envs s e) = envId) (env_new_queue s))) (\<lambda>found.
       case found of
         Some e \<Rightarrow> seqm (sched_remove_new (Some e)) (seqm (sched_insert_exit (Some e)) (exit_cleanup e))
       | None \<Rightarrow>
         bnd (gets (\<lambda>s. find (\<lambda>e. env_id (envs s e) = envId) (env_ready_queue s))) (\<lambda>found.
           case found of
             Some e \<Rightarrow> seqm (sched_remove_ready (Some e)) (seqm (sched_insert_exit (Some e))
               (seqm (exit_cleanup e)
                 (bnd (curenv_has_id envId) (\<lambda>b. whenM b fos_scheduler))))
           | None \<Rightarrow> ret ()))"

definition sched_kill_env :: "uint32 \<Rightarrow> (kstate, unit) M" where
  "sched_kill_env envId =
     bnd (gets (\<lambda>s. find (\<lambda>e. env_id (envs s e) = envId) (env_new_queue s))) (\<lambda>found.
       case found of
         Some e \<Rightarrow> seqm (sched_remove_new (Some e)) (start_env_free e)
       | None \<Rightarrow>
         bnd (gets (\<lambda>s. find (\<lambda>e. env_id (envs s e) = envId) (env_ready_queue s))) (\<lambda>found.
           case found of
             Some e \<Rightarrow> seqm (sched_remove_ready (Some e)) (seqm (start_env_free e)
               (bnd (curenv_has_id envId) (\<lambda>b. whenM b
                 (seqm (modify (\<lambda>s. emit (Load_cr3 (phys_page_directory s)) s))
                 (seqm (modify (\<lambda>s. s\<lparr>curenv := None\<rparr>)) fos_scheduler)))))
           | None \<Rightarrow>
             bnd (gets (\<lambda>s. find (\<lambda>e. env_id (envs s e) = envId) (env_exit_queue s))) (\<lambda>found.
               case found of
                 Some e \<Rightarrow> seqm (sched_remove_exit (Some e)) (start_env_free e)
               | None \<Rightarrow> ret ())))"

definition sched_kill_all :: "(kstate, unit) M" where
  "sched_kill_all =
     bnd (gets env_new_queue) (\<lambda>q.
     seqm (for_each q (\<lambda>e. seqm (sched_remove_new (Some e)) (start_env_free e)))
     (bnd (gets env_ready_queue) (\<lambda>q.
     seqm (for_each q (\<lambda>e. seqm (sched_remove_ready (Some e)) (start_env_free e)))
     (bnd (gets env_exit_queue) (\<lambda>q.
     seqm (for_each q (\<lambda>e. seqm (sched_remove_exit (Some e)) (start_env_free e)))
       fos_scheduler)))))"

text \<open>\<open>env_exit\<close> of kern/user_environment.c.\<close>

definition env_exit :: "(kstate, unit) M" where
  "env_exit = bnd (gets curenv) (\<lambda>c. bnd (deref c) (\<lambda>c. bnd (get_env c) (\<lambda>env.
     unless_left (sched_exit_env (env_id env)) fos_scheduler)))"

section \<open>The clock\<close>

definition isPageReplacmentAlgorithm :: "page_rep \<Rightarrow> (kstate, uint32) M" where
  "isPageReplacmentAlgorithm p = gets (\<lambda>s. if PageRepAlgoType s = p then 1 else 0)"

definition aged :: "bool \<Rightarrow> uint32 \<Rightarrow> uint32" where
  "aged used old = (if used then drop_bit 2 old OR 0x80000000 else drop_bit 2 old)"

definition age_page :: "nat \<Rightarrow> nat \<Rightarrow> (kstate, unit) M" where
  "age_page e i =
     bnd (get_ws e) (\<lambda>env. let w = pageWorkingSet env i in
       whenM (ws_empty w \<noteq> 1)
         (bnd (pt_get_page_permissions e (ws_va w)) (\<lambda>perm.
          let used = (perm AND PERM_USED \<noteq> 0) in
          seqm (modify (upd_ws e i (\<lambda>v. v\<lparr>time_stamp := aged used (time_stamp w)\<rparr>)))
            (whenM used (pt_set_page_permissions kmalloc e (ws_va w) 0 PERM_USED)))))"

definition age_table :: "nat \<Rightarrow> nat \<Rightarrow> (kstate, unit) M" where
  "age_table e t =
     bnd (get_env e) (\<lambda>env. let w = ptr_tws env t in
       whenM (ws_empty w \<noteq> 1)
         (bnd (pd_is_table_used e (ws_va w)) (\<lambda>used.
          seqm (modify (upd_tws e t (\<lambda>v. v\<lparr>time_stamp := aged used (time_stamp w)\<rparr>)))
            (whenM used (pd_set_table_unused e (ws_va w))))))"

definition update_WS_time_stamps :: "(kstate, unit) M" where
  "update_WS_time_stamps =
     bnd (gets curenv) (\<lambda>c. case c of None \<Rightarrow> ret ()
       | Some e \<Rightarrow> bnd (get_env e) (\<lambda>env.
           seqm (for_n (unat (page_WS_max_size env)) 0 (age_page e))
             (for_n TWS_MAX_SIZE 0 (age_table e))))"

definition clock_interrupt_handler :: "(kstate, unit) M" where
  "clock_interrupt_handler =
     bnd (isPageReplacmentAlgorithm PG_REP_LRU) (\<lambda>lru.
     seqm (whenM (lru \<noteq> 0) update_WS_time_stamps) fos_scheduler)"

end
