(* ===== verification/Semaphore.thy ===== *)
theory Semaphore
  imports Sched
begin

text \<open>
  Semaphores, kern/semaphore_manager.c.  The array is reached through the pointer
  \<open>semaphores_ptr\<close>, which is null before it is created and after a failed \<open>krealloc\<close>.  Names are
  compared with \<open>strcmp\<close>, which theory Cstring shows to decide equality, and copied with
  \<open>strcpy\<close> into 64 bytes without a check.
\<close>

definition sizeof_Semaphore :: uint32 where "sizeof_Semaphore = 92"

definition upd_sem :: "nat \<Rightarrow> (Semaphore \<Rightarrow> Semaphore) \<Rightarrow> kstate \<Rightarrow> kstate" where
  "upd_sem i f s = s\<lparr>semaphores := (semaphores s)(i := f (semaphores s i))\<rparr>"

text \<open>Entering a loop over the array: its first access needs the array.\<close>

definition with_semaphores :: "(kstate, unit) M" where
  "with_semaphores = (\<lambda>s. if semaphores_ptr s = 0 \<and> MAX_SEMAPHORES s \<noteq> 0 then Inl NullDeref else Inr ((), s))"

text \<open>The first index whose entry satisfies a condition.\<close>

definition search_semaphores :: "(Semaphore \<Rightarrow> bool) \<Rightarrow> (kstate, nat option) M" where
  "search_semaphores P = seqm with_semaphores
     (gets (\<lambda>s. find (\<lambda>i. P (semaphores s i)) [0..<unat (MAX_SEMAPHORES s)]))"

definition is_semaphore :: "uint32 \<Rightarrow> string \<Rightarrow> Semaphore \<Rightarrow> bool" where
  "is_semaphore ownerID name x \<longleftrightarrow> \<not> sem_empty x \<and> sem_ownerID x = ownerID \<and> sem_name x = name"

section \<open>The array of semaphores\<close>

definition create_semaphores_array :: "uint32 \<Rightarrow> (kstate, unit) M" where
  "create_semaphores_array numOfSemaphores =
     bnd (kmalloc (numOfSemaphores * sizeof_Semaphore)) (\<lambda>p.
     seqm (modify (\<lambda>s. s\<lparr>semaphores_ptr := p\<rparr>))
     (seqm (guard (p \<noteq> 0) (Panic ''Kernel runs out of memory''))
       (modify (\<lambda>s. s\<lparr>semaphores := (\<lambda>i. if i < unat (MAX_SEMAPHORES s) then zero_semaphore else semaphores s i)\<rparr>))))"

text \<open>Returns the index, or \<open>E_NO_SEMAPHORE\<close>.\<close>

definition allocate_semaphore_object :: "(kstate, int) M" where
  "allocate_semaphore_object =
     bnd (search_semaphores sem_empty) (\<lambda>found. case found of
         Some i \<Rightarrow> seqm (modify (upd_sem i (\<lambda>x. x\<lparr>sem_empty := False\<rparr>))) (ret (int i))
       | None \<Rightarrow>
           bnd (gets (\<lambda>s. (semaphores_ptr s, MAX_SEMAPHORES s))) (\<lambda>(ptr, mx).
           bnd (krealloc ptr (2 * mx)) (\<lambda>p.
           seqm (modify (\<lambda>s. s\<lparr>semaphores_ptr := p\<rparr>))
             (if p = 0 then ret E_NO_SEMAPHORE
              else seqm (modify (\<lambda>s. s\<lparr>MAX_SEMAPHORES := mx * 2\<rparr>))
                (seqm (modify (upd_sem (unat mx) (\<lambda>x. x\<lparr>sem_empty := False\<rparr>))) (ret (sint mx)))))))"

definition get_semaphore_object_ID :: "uint32 \<Rightarrow> string \<Rightarrow> (kstate, int) M" where
  "get_semaphore_object_ID ownerID name =
     bnd (search_semaphores (is_semaphore ownerID name)) (\<lambda>found.
       ret (case found of None \<Rightarrow> E_SEMAPHORE_NOT_EXISTS | Some i \<Rightarrow> int i))"

definition free_semaphore_object :: "uint32 \<Rightarrow> (kstate, int) M" where
  "free_semaphore_object semaphoreObjectID =
     bnd (gets MAX_SEMAPHORES) (\<lambda>mx.
       if mx \<le> semaphoreObjectID then ret E_SEMAPHORE_NOT_EXISTS
       else seqm with_semaphores
         (seqm (modify (upd_sem (unat semaphoreObjectID) (\<lambda>_. zero_semaphore))) (ret 0)))"

section \<open>The operations of the users\<close>

definition createSemaphore :: "uint32 \<Rightarrow> string \<Rightarrow> uint32 \<Rightarrow> (kstate, int) M" where
  "createSemaphore ownerEnvID semaphoreName initialValue =
     bnd (search_semaphores (is_semaphore ownerEnvID semaphoreName)) (\<lambda>found. case found of
         Some _ \<Rightarrow> ret E_SEMAPHORE_EXISTS
       | None \<Rightarrow> bnd allocate_semaphore_object (\<lambda>r.
           seqm (whenM (r \<noteq> E_NO_SEMAPHORE)
             (seqm (guard (length semaphoreName < 64) OutOfBounds)
               (modify (upd_sem (nat r) (\<lambda>x. x\<lparr>sem_empty := False, sem_name := semaphoreName,
                  sem_value := initialValue, sem_ownerID := ownerEnvID\<rparr>)))))
             (ret r)))"

text \<open>The queue of a semaphore: environments enter at its head and leave at its tail.\<close>

definition enqueue :: "nat \<Rightarrow> nat option \<Rightarrow> (kstate, unit) M" where
  "enqueue i env = bnd (deref env) (\<lambda>e. modify (upd_sem i (\<lambda>x. x\<lparr>env_queue := e # env_queue x\<rparr>)))"

definition dequeue :: "nat \<Rightarrow> (kstate, nat) M" where
  "dequeue i =
     bnd (gets (\<lambda>s. last_opt (env_queue (semaphores s i)))) (\<lambda>l.
     bnd (deref l) (\<lambda>e.
     seqm (modify (upd_sem i (\<lambda>x. x\<lparr>env_queue := butlast (env_queue x)\<rparr>))) (ret e)))"

definition waitSemaphore :: "uint32 \<Rightarrow> string \<Rightarrow> (kstate, unit) M" where
  "waitSemaphore ownerEnvID semaphoreName =
     bnd (gets curenv) (\<lambda>myenv.
     bnd (search_semaphores (is_semaphore ownerEnvID semaphoreName)) (\<lambda>found. case found of
         None \<Rightarrow> ret ()
       | Some i \<Rightarrow>
           seqm (modify (upd_sem i (\<lambda>x. x\<lparr>sem_value := sem_value x - 1\<rparr>)))
           (bnd (gets (\<lambda>s. sem_value (semaphores s i))) (\<lambda>val.
            seqm (whenM (val <s 0)
              (seqm (sched_remove_ready myenv)
              (seqm (enqueue i myenv)
                (bnd (deref myenv) (\<lambda>e. set_status e ENV_BLOCKED)))))
              fos_scheduler))))"

definition signalSemaphore :: "uint32 \<Rightarrow> string \<Rightarrow> (kstate, unit) M" where
  "signalSemaphore ownerEnvID semaphoreName =
     bnd (search_semaphores (is_semaphore ownerEnvID semaphoreName)) (\<lambda>found. case found of
         None \<Rightarrow> ret ()
       | Some i \<Rightarrow>
           seqm (modify (upd_sem i (\<lambda>x. x\<lparr>sem_value := sem_value x + 1\<rparr>)))
           (bnd (gets (\<lambda>s. sem_value (semaphores s i))) (\<lambda>val.
            whenM (val \<le>s 0)
              (bnd (dequeue i) (\<lambda>newenv.
               seqm (sched_insert_ready (Some newenv)) (set_status newenv ENV_READY))))))"

end
