(* ===== verification/Sched_Props.thy ===== *)
theory Sched_Props
  imports Sched
begin

text \<open>
  The scheduler is round robin: the ready queue read from \<open>sched_next\<close> on is a queue whose head
  is run next, which a clock interrupt rotates, and to whose end a new environment is added.  The
  interface is the locale \<open>round_robin\<close>; the bound on the wait for the processor is proved in it.
\<close>

section \<open>Round robin queues\<close>

datatype sched_event = Tick | Insert nat | Remove nat

fun order_step :: "nat list \<Rightarrow> sched_event \<Rightarrow> nat list" where
  "order_step q Tick = rotate1 q"
| "order_step q (Insert e) = q @ [e]"
| "order_step q (Remove e) = remove1 e q"

fun dispatched :: "nat list \<Rightarrow> sched_event list \<Rightarrow> nat list" where
  "dispatched q [] = []"
| "dispatched q (Tick # evs) = take 1 q @ dispatched (rotate1 q) evs"
| "dispatched q (ev # evs) = dispatched (order_step q ev) evs"

text \<open>Only an environment that is not ready is inserted, and only a ready one removed.\<close>

fun valid_events :: "nat list \<Rightarrow> sched_event list \<Rightarrow> bool" where
  "valid_events q [] \<longleftrightarrow> True"
| "valid_events q (ev # evs) \<longleftrightarrow>
     (case ev of Tick \<Rightarrow> True | Insert e \<Rightarrow> e \<notin> set q | Remove e \<Rightarrow> e \<in> set q) \<and>
     valid_events (order_step q ev) evs"

definition ticks :: "sched_event list \<Rightarrow> nat" where
  "ticks evs = length (filter (\<lambda>ev. ev = Tick) evs)"

lemma ticks_simps [simp]:
  "ticks [] = 0" "ticks (Tick # evs) = Suc (ticks evs)" "ticks (Insert e # evs) = ticks evs"
  "ticks (Remove e # evs) = ticks evs"
  by (simp_all add: ticks_def)

text \<open>
  The place of an environment in the queue only gets smaller, and every tick before its turn
  makes it smaller.
\<close>

lemma dispatched_in_turn:
  assumes "valid_events q evs" and "q = as @ e # bs" and "e \<notin> set as" and "distinct q"
    and "Remove e \<notin> set evs" and "length as < ticks evs"
  shows "e \<in> set (dispatched q evs)"
  using assms
proof (induction evs arbitrary: q as bs)
  case Nil
  then show ?case by simp
next
  case (Cons ev evs)
  show ?case
  proof (cases ev)
    case Tick
    show ?thesis
    proof (cases as)
      case Nil
      then show ?thesis using Cons.prems(2) Tick by simp
    next
      case (Cons a as')
      then have r: "rotate1 q = as' @ e # (bs @ [a])" using Cons.prems(2) by simp
      have "e \<in> set (dispatched (rotate1 q) evs)"
        by (rule Cons.IH[OF _ r]) (use Cons.prems Cons Tick in auto)
      then show ?thesis using Tick by simp
    qed
  next
    case (Insert x)
    have "e \<in> set (dispatched (q @ [x]) evs)"
      by (rule Cons.IH[of _ as "bs @ [x]"]) (use Cons.prems Insert in auto)
    then show ?thesis using Insert by simp
  next
    case (Remove x)
    then have ne: "x \<noteq> e" using Cons.prems(5) by auto
    show ?thesis
    proof (cases "x \<in> set as")
      case True
      then have r: "remove1 x q = remove1 x as @ e # bs" using Cons.prems(2) by (simp add: remove1_append)
      have "length (remove1 x as) \<le> length as" by (simp add: length_remove1)
      then have "e \<in> set (dispatched (remove1 x q) evs)"
        by (intro Cons.IH[OF _ r]) (use Cons.prems Remove in \<open>auto dest: notin_set_remove1 simp: length_remove1\<close>)
      then show ?thesis using Remove by simp
    next
      case False
      then have r: "remove1 x q = as @ e # remove1 x bs" using Cons.prems(2) ne by (simp add: remove1_append)
      have "e \<in> set (dispatched (remove1 x q) evs)"
        by (rule Cons.IH[OF _ r]) (use Cons.prems Remove in auto)
      then show ?thesis using Remove by simp
    qed
  qed
qed

primrec perform :: "('s, unit) M \<Rightarrow> (nat \<Rightarrow> ('s, unit) M) \<Rightarrow> (nat \<Rightarrow> ('s, unit) M) \<Rightarrow> sched_event list \<Rightarrow> ('s, unit) M" where
  "perform tick ins del [] = ret ()"
| "perform tick ins del (ev # evs) =
     seqm (case ev of Tick \<Rightarrow> tick | Insert e \<Rightarrow> ins e | Remove e \<Rightarrow> del e) (perform tick ins del evs)"

locale round_robin =
  fixes inv :: "'s \<Rightarrow> bool" and order :: "'s \<Rightarrow> nat list" and ran :: "'s \<Rightarrow> nat list"
    and tick :: "('s, unit) M" and ins del :: "nat \<Rightarrow> ('s, unit) M"
  assumes order_distinct: "inv s \<Longrightarrow> distinct (order s)"
    and tick_spec: "inv s \<Longrightarrow> \<exists>s'. tick s = Inr ((), s') \<and> inv s' \<and> order s' = rotate1 (order s) \<and>
      ran s' = ran s @ take 1 (order s)"
    and ins_spec: "inv s \<Longrightarrow> e \<notin> set (order s) \<Longrightarrow>
      \<exists>s'. ins e s = Inr ((), s') \<and> inv s' \<and> order s' = order s @ [e] \<and> ran s' = ran s"
    and del_spec: "inv s \<Longrightarrow> e \<in> set (order s) \<Longrightarrow>
      \<exists>s'. del e s = Inr ((), s') \<and> inv s' \<and> order s' = remove1 e (order s) \<and> ran s' = ran s"
begin

lemma step_spec:
  assumes "inv s" and "valid_events (order s) (ev # evs)"
  shows "\<exists>s1. (case ev of Tick \<Rightarrow> tick | Insert e \<Rightarrow> ins e | Remove e \<Rightarrow> del e) s = Inr ((), s1) \<and> inv s1 \<and>
    order s1 = order_step (order s) ev \<and> ran s1 = ran s @ (if ev = Tick then take 1 (order s) else [])"
  using assms tick_spec[OF assms(1)] ins_spec[OF assms(1)] del_spec[OF assms(1)] by (cases ev) simp_all

lemma perform_spec:
  assumes "inv s" and "valid_events (order s) evs"
  shows "\<exists>s'. perform tick ins del evs s = Inr ((), s') \<and> inv s' \<and>
    order s' = foldl order_step (order s) evs \<and> ran s' = ran s @ dispatched (order s) evs"
  using assms
proof (induction evs arbitrary: s)
  case Nil
  then show ?case by simp
next
  case (Cons ev evs)
  from step_spec[OF Cons.prems] obtain s1 where s1:
    "(case ev of Tick \<Rightarrow> tick | Insert e \<Rightarrow> ins e | Remove e \<Rightarrow> del e) s = Inr ((), s1)" "inv s1"
    "order s1 = order_step (order s) ev" "ran s1 = ran s @ (if ev = Tick then take 1 (order s) else [])"
    by blast
  have "valid_events (order s1) evs" using Cons.prems(2) s1(3) by simp
  from Cons.IH[OF s1(2) this] s1 show ?case by (cases ev) auto
qed

lemma runs_in_turn:
  assumes "inv s" and "valid_events (order s) evs" and "order s = as @ e # bs"
    and "Remove e \<notin> set evs" and "length as < ticks evs"
  shows "\<exists>s' es. perform tick ins del evs s = Inr ((), s') \<and> ran s' = ran s @ es \<and> e \<in> set es"
proof -
  have d: "distinct (order s)" by (rule order_distinct[OF assms(1)])
  then have "e \<notin> set as" using assms(3) by auto
  with dispatched_in_turn[OF assms(2,3) _ d assms(4,5)] perform_spec[OF assms(1,2)] show ?thesis by blast
qed

end

section \<open>The ready queue as a round robin queue\<close>

definition ready_inv :: "kstate \<Rightarrow> bool" where
  "ready_inv s \<longleftrightarrow> distinct (env_ready_queue s) \<and> PageRepAlgoType s \<noteq> PG_REP_LRU \<and>
     (case sched_next s of None \<Rightarrow> env_ready_queue s = [] | Some n \<Rightarrow> n \<in> set (env_ready_queue s))"

text \<open>The ready queue in the order it is going to be served.\<close>

definition run_order :: "kstate \<Rightarrow> nat list" where
  "run_order s = (case sched_next s of None \<Rightarrow> []
     | Some n \<Rightarrow> dropWhile (\<lambda>e. e \<noteq> n) (env_ready_queue s) @ takeWhile (\<lambda>e. e \<noteq> n) (env_ready_queue s))"

text \<open>The environments that were given the processor, in order.\<close>

definition runs :: "kstate \<Rightarrow> nat list" where
  "runs s = concat (map (\<lambda>ev. case ev of Pop_trapframe e \<Rightarrow> [e] | _ \<Rightarrow> []) (hw s))"

lemma drop_take_while [simp]:
  assumes "n \<notin> set as"
  shows "dropWhile (\<lambda>e. e \<noteq> n) (as @ n # bs) = n # bs" "takeWhile (\<lambda>e. e \<noteq> n) (as @ n # bs) = as"
proof -
  have "\<forall>x\<in>set as. x \<noteq> n" using assms by auto
  then show "dropWhile (\<lambda>e. e \<noteq> n) (as @ n # bs) = n # bs" "takeWhile (\<lambda>e. e \<noteq> n) (as @ n # bs) = as"
    by (simp_all add: dropWhile_append2 takeWhile_append2)
qed

lemma list_next_split: "n \<notin> set as \<Longrightarrow> list_next n (as @ n # bs) = hd_opt bs"
  by (induction as) auto

lemma insert_before_split: "n \<notin> set as \<Longrightarrow> insert_before n e (as @ n # bs) = as @ e # n # bs"
  by (induction as) auto

text \<open>The two shapes of the ready queue.\<close>

lemma ready_cases:
  assumes "ready_inv s"
  obtains "sched_next s = None" "env_ready_queue s = []" "run_order s = []"
  | n as bs where "sched_next s = Some n" "env_ready_queue s = as @ n # bs" "n \<notin> set as" "n \<notin> set bs"
      "run_order s = n # bs @ as" "distinct (as @ bs)"
proof (cases "sched_next s")
  case None
  then show ?thesis using assms that(1) by (simp add: ready_inv_def run_order_def)
next
  case (Some n)
  then have "n \<in> set (env_ready_queue s)" and d: "distinct (env_ready_queue s)" using assms by (simp_all add: ready_inv_def)
  then obtain as bs where q: "env_ready_queue s = as @ n # bs" "n \<notin> set as" by (meson split_list_first)
  with d Some show ?thesis by (intro that(2)[of n as bs]) (simp_all add: run_order_def)
qed

lemma ready_invI:
  assumes "sched_next s = Some n" and "env_ready_queue s = as @ n # bs" and "distinct (as @ n # bs)"
    and "PageRepAlgoType s \<noteq> PG_REP_LRU"
  shows "ready_inv s \<and> run_order s = n # bs @ as"
  using assms by (auto simp: ready_inv_def run_order_def)

lemma ready_inv_empty:
  assumes "sched_next s = None" and "env_ready_queue s = []" and "PageRepAlgoType s \<noteq> PG_REP_LRU"
  shows "ready_inv s \<and> run_order s = []"
  using assms by (auto simp: ready_inv_def run_order_def)

text \<open>The fields that the scheduler leaves alone and other components rely on.\<close>

definition sched_frame :: "kstate \<Rightarrow> kstate \<Rightarrow> bool" where
  "sched_frame s s' \<longleftrightarrow> semaphores s' = semaphores s \<and> semaphores_ptr s' = semaphores_ptr s \<and>
     MAX_SEMAPHORES s' = MAX_SEMAPHORES s"

lemma sched_frame_trans: "sched_frame s t \<Longrightarrow> sched_frame t u \<Longrightarrow> sched_frame s u"
  by (simp add: sched_frame_def)

lemma env_run_spec:
  "\<exists>s'. env_run e s = Inr ((), s') \<and> sched_next s' = sched_next s \<and> env_ready_queue s' = env_ready_queue s \<and>
     PageRepAlgoType s' = PageRepAlgoType s \<and> runs s' = runs s @ [e] \<and> curenv s' = Some e \<and>
     sched_frame s s' \<and> (\<forall>x. env_status (envs s' x) = env_status (envs s x))"
  by (cases "curenv s = Some e")
    (simp_all add: env_run_def seqm_def bnd_apply emit_def upd_env_def runs_def sched_frame_def)

lemma fos_scheduler_spec:
  assumes "ready_inv s"
  shows "\<exists>s'. fos_scheduler s = Inr ((), s') \<and> ready_inv s' \<and> run_order s' = rotate1 (run_order s) \<and>
    runs s' = runs s @ take 1 (run_order s) \<and> curenv s' = hd_opt (run_order s) \<and>
    sched_frame s s' \<and> (\<forall>x. env_status (envs s' x) = env_status (envs s x))"
proof -
  have lru: "PageRepAlgoType s \<noteq> PG_REP_LRU" using assms by (simp add: ready_inv_def)
  show ?thesis
  proof (rule ready_cases[OF assms])
    assume n: "sched_next s = None" "env_ready_queue s = []" "run_order s = []"
    let ?s' = "emit Command_prompt ((emit (Load_cr3 (phys_page_directory s))
        (s\<lparr>scheduler_started := True, sched_next := None, curenv := None\<rparr>))\<lparr>scheduler_started := False\<rparr>)"
    have "fos_scheduler s = Inr ((), ?s')"
      using n by (simp add: fos_scheduler_def sched_next_circular_def seqm_def bnd_apply emit_def)
    moreover have "ready_inv ?s' \<and> run_order ?s' = []"
      by (rule ready_inv_empty) (use n lru in \<open>simp_all add: emit_def\<close>)
    moreover have "runs ?s' = runs s" "curenv ?s' = None" "sched_frame s ?s'" "\<forall>x. env_status (envs ?s' x) = env_status (envs s x)"
      by (simp_all add: runs_def emit_def sched_frame_def)
    ultimately show ?thesis using n(3) by auto
  next
    fix n as bs
    assume n: "sched_next s = Some n" "env_ready_queue s = as @ n # bs" "n \<notin> set as" "n \<notin> set bs"
      "run_order s = n # bs @ as" "distinct (as @ bs)"
    let ?nx = "case hd_opt bs of None \<Rightarrow> hd_opt (as @ n # bs) | Some x \<Rightarrow> Some x"
    let ?s1 = "s\<lparr>scheduler_started := True, sched_next := ?nx\<rparr>"
    from env_run_spec[of n ?s1] obtain s' where s': "env_run n ?s1 = Inr ((), s')"
      "sched_next s' = ?nx" "env_ready_queue s' = as @ n # bs" "PageRepAlgoType s' = PageRepAlgoType s"
      "runs s' = runs ?s1 @ [n]" "curenv s' = Some n" "sched_frame ?s1 s'"
      "\<forall>x. env_status (envs s' x) = env_status (envs s x)" using n(2) by auto
    have "fos_scheduler s = Inr ((), s')"
      using n s'(1) list_next_split[OF n(3), of bs]
      by (simp add: fos_scheduler_def sched_next_circular_def seqm_def bnd_apply)
    moreover have "ready_inv s' \<and> run_order s' = bs @ as @ [n]"
    proof (cases bs)
      case (Cons b bs')
      have "ready_inv s' \<and> run_order s' = b # bs' @ (as @ [n])"
        by (rule ready_invI) (use n s' Cons lru in auto)
      then show ?thesis using Cons by simp
    next
      case Nil
      show ?thesis
      proof (cases as)
        case (Cons a as')
        have "ready_inv s' \<and> run_order s' = a # (as' @ [n]) @ []"
          by (rule ready_invI) (use n s' Cons Nil lru in auto)
        then show ?thesis using Cons Nil by simp
      next
        case as: Nil
        have "ready_inv s' \<and> run_order s' = n # [] @ []"
          by (rule ready_invI) (use n s' as Nil lru in auto)
        then show ?thesis using as Nil by simp
      qed
    qed
    moreover have "runs s' = runs s @ [n]" "sched_frame s s'" using s'(5,7) by (simp_all add: runs_def sched_frame_def)
    ultimately show ?thesis using n(5) s'(6,8) by auto
  qed
qed

lemma clock_spec:
  assumes "ready_inv s"
  shows "\<exists>s'. clock_interrupt_handler s = Inr ((), s') \<and> ready_inv s' \<and> run_order s' = rotate1 (run_order s) \<and>
    runs s' = runs s @ take 1 (run_order s)"
proof -
  have "PageRepAlgoType s \<noteq> PG_REP_LRU" using assms by (simp add: ready_inv_def)
  then have "clock_interrupt_handler s = fos_scheduler s"
    by (simp add: clock_interrupt_handler_def isPageReplacmentAlgorithm_def seqm_def bnd_apply)
  with fos_scheduler_spec[OF assms] show ?thesis by auto
qed

text \<open>What changing the status of one environment leaves alone.\<close>

definition status_frame :: "nat \<Rightarrow> env_status_t \<Rightarrow> kstate \<Rightarrow> kstate \<Rightarrow> bool" where
  "status_frame e st s s' \<longleftrightarrow> sched_frame s s' \<and> curenv s' = curenv s \<and>
     (\<forall>x. env_status (envs s' x) = (if x = e then st else env_status (envs s x)))"

lemmas frame_defs = status_frame_def sched_frame_def

lemma insert_ready_frame:
  assumes "ready_inv s" and "e \<notin> set (run_order s)"
  shows "\<exists>s'. sched_insert_ready (Some e) s = Inr ((), s') \<and> ready_inv s' \<and> run_order s' = run_order s @ [e] \<and>
    runs s' = runs s \<and> status_frame e ENV_READY s s'"
proof (rule ready_cases[OF assms(1)])
  assume n: "sched_next s = None" "env_ready_queue s = []" "run_order s = []"
  let ?s' = "(upd_env e (\<lambda>v. v\<lparr>env_status := ENV_READY\<rparr>) s)\<lparr>env_ready_queue := [e], sched_next := Some e\<rparr>"
  have "ready_inv ?s' \<and> run_order ?s' = e # [] @ []"
    by (rule ready_invI) (use assms(1) in \<open>simp_all add: ready_inv_def upd_env_def\<close>)
  then show ?thesis
    using n by (simp add: sched_insert_ready_def set_status_def seqm_def bnd_apply upd_env_def runs_def frame_defs)
next
  fix n as bs
  assume n: "sched_next s = Some n" "env_ready_queue s = as @ n # bs" "n \<notin> set as" "n \<notin> set bs"
    "run_order s = n # bs @ as" "distinct (as @ bs)"
  let ?s' = "(upd_env e (\<lambda>v. v\<lparr>env_status := ENV_READY\<rparr>) s)\<lparr>env_ready_queue := as @ e # n # bs\<rparr>"
  have "ready_inv ?s' \<and> run_order ?s' = n # bs @ (as @ [e])"
    by (rule ready_invI) (use n assms in \<open>auto simp: ready_inv_def upd_env_def\<close>)
  then show ?thesis
    using n insert_before_split[OF n(3), of e bs]
    by (simp add: sched_insert_ready_def set_status_def seqm_def bnd_apply upd_env_def runs_def frame_defs)
qed

lemma insert_ready_spec:
  assumes "ready_inv s" and "e \<notin> set (run_order s)"
  shows "\<exists>s'. sched_insert_ready (Some e) s = Inr ((), s') \<and> ready_inv s' \<and> run_order s' = run_order s @ [e] \<and> runs s' = runs s"
  using insert_ready_frame[OF assms] by blast

lemma remove_ready_frame:
  assumes "ready_inv s" and "e \<in> set (run_order s)"
  shows "\<exists>s'. sched_remove_ready (Some e) s = Inr ((), s') \<and> ready_inv s' \<and>
    run_order s' = remove1 e (run_order s) \<and> runs s' = runs s \<and> status_frame e ENV_UNKNOWN s s'"
proof (rule ready_cases[OF assms(1)])
  assume "run_order s = []"
  with assms(2) show ?thesis by simp
next
  fix n as bs
  assume n: "sched_next s = Some n" "env_ready_queue s = as @ n # bs" "n \<notin> set as" "n \<notin> set bs"
    "run_order s = n # bs @ as" "distinct (as @ bs)"
  have lru: "PageRepAlgoType s \<noteq> PG_REP_LRU" using assms(1) by (simp add: ready_inv_def)
  define y where "y = (case hd_opt bs of None \<Rightarrow> hd_opt (as @ n # bs) | Some x \<Rightarrow> Some x)"
  define nx where "nx = (if n = e then (if y = Some e then None else y) else Some n)"
  define s' where "s' = upd_env e (\<lambda>v. v\<lparr>env_status := ENV_UNKNOWN\<rparr>)
      (s\<lparr>sched_next := nx, env_ready_queue := remove1 e (as @ n # bs)\<rparr>)"
  have q: "e \<in> set (as @ n # bs)" using assms(2) n(5) by auto
  have rest: "(\<lambda>s. case list_remove e (env_ready_queue s) of Inl err \<Rightarrow> Inl err
        | Inr l \<Rightarrow> Inr ((), s\<lparr>env_ready_queue := l\<rparr>)) (s\<lparr>sched_next := nx\<rparr>) =
      Inr ((), s\<lparr>sched_next := nx, env_ready_queue := remove1 e (as @ n # bs)\<rparr>)"
    using q n(2) by (simp add: list_remove_def)
  have first: "whenM (sched_next s = Some e) (bnd (sched_next_circular (Some e)) (\<lambda>n'.
        modify (\<lambda>s. s\<lparr>sched_next := (if n' = Some e then None else n')\<rparr>))) s = Inr ((), s\<lparr>sched_next := nx\<rparr>)"
  proof (cases "n = e")
    case True
    have "sched_next_circular (Some e) s = Inr (y, s)"
      using list_next_split[OF n(3), of bs] n(2) True by (simp only: sched_next_circular_def y_def) simp
    then show ?thesis using n(1) True by (simp add: nx_def)
  next
    case False
    then show ?thesis using n(1) by (simp add: nx_def)
  qed
  have "sched_remove_ready (Some e) s = Inr ((), s')"
    using first rest by (simp add: sched_remove_ready_def set_status_def seqm_def bnd_apply s'_def)
  moreover have "runs s' = runs s" "status_frame e ENV_UNKNOWN s s'"
    by (simp_all add: s'_def upd_env_def runs_def frame_defs)
  moreover have f: "sched_next s' = nx" "env_ready_queue s' = remove1 e (as @ n # bs)" "PageRepAlgoType s' \<noteq> PG_REP_LRU"
    using lru by (simp_all add: s'_def upd_env_def)
  have "ready_inv s' \<and> run_order s' = remove1 e (n # bs @ as)"
  proof (cases "n = e")
    case False
    have d: "e \<notin> set bs \<or> e \<notin> set as" using n(6) by auto
    have rq: "remove1 e (as @ n # bs) = remove1 e as @ n # remove1 e bs"
      and ro: "remove1 e bs @ remove1 e as = remove1 e (bs @ as)"
      using d q False by (auto simp: remove1_append remove1_idem)
    have "distinct (remove1 e as @ n # remove1 e bs)"
      using n by (auto dest: notin_set_remove1 in_set_remove1)
    with f rq False have "ready_inv s' \<and> run_order s' = n # remove1 e bs @ remove1 e as"
      by (intro ready_invI) (simp_all add: nx_def)
    moreover note ro
    ultimately show ?thesis using False by simp
  next
    case True
    then have q': "env_ready_queue s' = as @ bs" using f n by simp
    consider b bs' where "bs = b # bs'" | a as' where "bs = []" "as = a # as'" | "bs = []" "as = []"
      by (cases bs; cases as) auto
    then show ?thesis
    proof cases
      case 1
      have "ready_inv s' \<and> run_order s' = b # bs' @ as"
        by (rule ready_invI) (use n f q' True 1 in \<open>auto simp: nx_def y_def\<close>)
      then show ?thesis using True 1 by simp
    next
      case 2
      have "ready_inv s' \<and> run_order s' = a # as' @ []"
        by (rule ready_invI) (use n f q' True 2 in \<open>auto simp: nx_def y_def\<close>)
      then show ?thesis using True 2 by simp
    next
      case 3
      have "ready_inv s' \<and> run_order s' = []"
        by (rule ready_inv_empty) (use n f q' True 3 in \<open>auto simp: nx_def y_def\<close>)
      then show ?thesis using True 3 by simp
    qed
  qed
  ultimately show ?thesis using n(5) by auto
qed

lemma remove_ready_spec:
  assumes "ready_inv s" and "e \<in> set (run_order s)"
  shows "\<exists>s'. sched_remove_ready (Some e) s = Inr ((), s') \<and> ready_inv s' \<and>
    run_order s' = remove1 e (run_order s) \<and> runs s' = runs s"
  using remove_ready_frame[OF assms] by blast

interpretation ready: round_robin ready_inv run_order runs clock_interrupt_handler
  "\<lambda>e. sched_insert_ready (Some e)" "\<lambda>e. sched_remove_ready (Some e)"
proof
  fix s assume "ready_inv s"
  then show "distinct (run_order s)" by (rule ready_cases) auto
qed (fact clock_spec insert_ready_spec remove_ready_spec)+

section \<open>Properties\<close>

text \<open>What the kernel does on a sequence of clock interrupts, insertions and removals.\<close>

definition sched_perform :: "sched_event list \<Rightarrow> (kstate, unit) M" where
  "sched_perform = perform clock_interrupt_handler (\<lambda>e. sched_insert_ready (Some e)) (\<lambda>e. sched_remove_ready (Some e))"

definition three_ready :: kstate where
  "three_ready = zero_kstate\<lparr>env_ready_queue := [1, 2, 3], sched_next := Some 2\<rparr>"

lemma three_ready_facts:
  "ready_inv three_ready" "run_order three_ready = [2, 3, 1]" "runs three_ready = []"
  by (simp_all add: three_ready_def ready_inv_def run_order_def runs_def zero_kstate_def)

text \<open>C4: The scheduler implements a round robin queue: on any sequence of clock interrupts, insertions
  of environments that are not ready and removals of ready ones, it returns, serves the head of
  the queue at every interrupt and moves it to the end, appends what is inserted and drops what
  is removed, whatever the pointer \<open>sched_next\<close> and the links of the ready queue look like.\<close>

theorem scheduler_is_round_robin:
  assumes "ready_inv s" and "valid_events (run_order s) evs"
  shows "\<exists>s'. sched_perform evs s = Inr ((), s') \<and> ready_inv s' \<and>
    run_order s' = foldl order_step (run_order s) evs \<and> runs s' = runs s @ dispatched (run_order s) evs"
  unfolding sched_perform_def by (rule ready.perform_spec[OF assms])

theorem scheduler_is_round_robin_witness:
  "\<exists>s'. sched_perform [Tick, Insert 7, Remove 3, Tick, Tick, Tick] three_ready = Inr ((), s') \<and>
     runs s' = [2, 1, 2, 7] \<and> run_order s' = [1, 2, 7]"
  using scheduler_is_round_robin[OF three_ready_facts(1), of "[Tick, Insert 7, Remove 3, Tick, Tick, Tick]"]
  by (auto simp: three_ready_facts)

text \<open>C15: No environment waits for ever: one that has \<open>n\<close> others before it in the order of service is
  given the processor before the clock has ticked more than \<open>n + 1\<close> times, whatever else becomes
  ready or stops being ready in the meantime.\<close>

theorem ready_environment_runs:
  assumes "ready_inv s" and "valid_events (run_order s) evs" and "run_order s = as @ e # bs"
    and "Remove e \<notin> set evs" and "length as < ticks evs"
  shows "\<exists>s' es. sched_perform evs s = Inr ((), s') \<and> runs s' = runs s @ es \<and> e \<in> set es"
  unfolding sched_perform_def by (rule ready.runs_in_turn[OF assms])

theorem ready_environment_runs_witness:
  "\<exists>s' es. sched_perform [Tick, Insert 7, Insert 8, Tick, Remove 2, Tick] three_ready = Inr ((), s') \<and>
     runs s' = runs three_ready @ es \<and> 1 \<in> set es"
  by (rule ready_environment_runs[OF three_ready_facts(1), of _ "[2, 3]" 1 "[]"]) (simp_all add: three_ready_facts)

end
