(* ===== verification/Shares.thy ===== *)
theory Shares
  imports WorkingSet
begin

text \<open>
  Shared memory objects, kern/shared_memory_manager.c.  The array is reached through the pointer
  \<open>shares_ptr\<close>, which is null before it is created and after a failed \<open>krealloc\<close>.  Names are
  compared with \<open>strcmp\<close> and copied with \<open>strcpy\<close> into 64 bytes without a check.
\<close>

definition sizeof_Share :: uint32 where "sizeof_Share = 84"

definition upd_share :: "nat \<Rightarrow> (Share \<Rightarrow> Share) \<Rightarrow> kstate \<Rightarrow> kstate" where
  "upd_share i f s = s\<lparr>shares := (shares s)(i := f (shares s i))\<rparr>"

definition with_shares :: "(kstate, unit) M" where
  "with_shares = (\<lambda>s. if shares_ptr s = 0 \<and> MAX_SHARES s \<noteq> 0 then Inl NullDeref else Inr ((), s))"

definition search_shares :: "(Share \<Rightarrow> bool) \<Rightarrow> (kstate, nat option) M" where
  "search_shares P = seqm with_shares (gets (\<lambda>s. find (\<lambda>i. P (shares s i)) [0..<unat (MAX_SHARES s)]))"

definition is_share :: "uint32 \<Rightarrow> string \<Rightarrow> Share \<Rightarrow> bool" where
  "is_share ownerID name x \<longleftrightarrow> \<not> share_empty x \<and> share_ownerID x = ownerID \<and> share_name x = name"

text \<open>\<open>size / PAGE_SIZE\<close> on the signed field of the object, as the bound of a loop from 0.\<close>

definition share_pages :: "Share \<Rightarrow> nat" where
  "share_pages x = nat (sint (share_size x)) div unat PAGE_SIZE"

section \<open>The array of shared objects\<close>

definition create_shares_array :: "uint32 \<Rightarrow> (kstate, unit) M" where
  "create_shares_array numOfElements =
     bnd (kmalloc (numOfElements * sizeof_Share)) (\<lambda>p.
     seqm (modify (\<lambda>s. s\<lparr>shares_ptr := p\<rparr>))
     (seqm (guard (p \<noteq> 0) (Panic ''Kernel runs out of memory''))
       (modify (\<lambda>s. s\<lparr>shares := (\<lambda>i. if i < unat (MAX_SHARES s) then zero_share else shares s i)\<rparr>))))"

text \<open>The last statements of \<open>allocate_share_object\<close>: the object is taken and gets its storage.\<close>

definition take_share :: "nat \<Rightarrow> (kstate, unit) M" where
  "take_share i =
     seqm (modify (upd_share i (\<lambda>x. x\<lparr>share_empty := False\<rparr>)))
     (bnd (kmalloc PAGE_SIZE) (\<lambda>p.
      seqm (modify (upd_share i (\<lambda>x. x\<lparr>framesStorage := p\<rparr>)))
      (seqm (guard (p \<noteq> 0) (Panic ''Kernel runs out of memory'')) (memset_page p))))"

text \<open>Returns the index, or \<open>E_NO_SHARE\<close>.\<close>

definition allocate_share_object :: "(kstate, int) M" where
  "allocate_share_object =
     bnd (search_shares share_empty) (\<lambda>found. case found of
         Some i \<Rightarrow> seqm (take_share i) (ret (int i))
       | None \<Rightarrow>
           bnd (gets (\<lambda>s. (shares_ptr s, MAX_SHARES s))) (\<lambda>(ptr, mx).
           bnd (krealloc ptr (2 * mx)) (\<lambda>p.
           seqm (modify (\<lambda>s. s\<lparr>shares_ptr := p\<rparr>))
             (if p = 0 then ret E_NO_SHARE
              else seqm (modify (\<lambda>s. s\<lparr>MAX_SHARES := mx * 2\<rparr>))
                (seqm (take_share (unat mx)) (ret (sint mx)))))))"

definition get_share_object_ID :: "uint32 \<Rightarrow> string \<Rightarrow> (kstate, int) M" where
  "get_share_object_ID ownerID name =
     bnd (search_shares (is_share ownerID name)) (\<lambda>found.
       ret (case found of None \<Rightarrow> E_SHARED_MEM_NOT_EXISTS | Some i \<Rightarrow> int i))"

definition free_share_object :: "uint32 \<Rightarrow> (kstate, int) M" where
  "free_share_object sharedObjectID =
     bnd (gets MAX_SHARES) (\<lambda>mx.
       if mx \<le> sharedObjectID then ret E_SHARED_MEM_NOT_EXISTS
       else seqm with_shares (let i = unat sharedObjectID in
         bnd (gets (\<lambda>s. framesStorage (shares s i))) (\<lambda>p.
         seqm (clear_frames_storage p)
         (seqm (kfree p)
         (seqm (modify (upd_share i (\<lambda>_. zero_share))) (ret 0))))))"

section \<open>The operations of the users\<close>

text \<open>The page directory of the running environment.\<close>

definition current_directory :: "(kstate, uint32) M" where
  "current_directory = bnd (gets curenv) (\<lambda>c. bnd (deref c) (\<lambda>e. bnd (get_env e) (\<lambda>env. ret (env_page_directory env))))"

definition create_page :: "nat \<Rightarrow> uint32 \<Rightarrow> nat \<Rightarrow> (kstate, unit) M" where
  "create_page i va k =
     bnd (allocate_frame kmalloc) (\<lambda>fi.
     bnd current_directory (\<lambda>pgdir.
     seqm (map_frame kmalloc pgdir fi (va + of_nat k * PAGE_SIZE) (PERM_WRITEABLE OR PERM_USER))
     (bnd (gets (\<lambda>s. framesStorage (shares s i))) (\<lambda>st.
       add_frame_to_storage st fi (of_nat k)))))"

definition createSharedObject :: "uint32 \<Rightarrow> string \<Rightarrow> uint32 \<Rightarrow> uint8 \<Rightarrow> uint32 \<Rightarrow> (kstate, int) M" where
  "createSharedObject ownerID shareName sz writable virtual_address =
     bnd (get_share_object_ID ownerID shareName) (\<lambda>ret2.
       if 0 \<le> ret2 then ret E_SHARED_MEM_EXISTS
       else bnd allocate_share_object (\<lambda>r.
         if r = E_NO_SHARE then ret r
         else let size = ROUNDUP sz PAGE_SIZE in
           seqm (for_n (unat (size div PAGE_SIZE)) 0 (create_page (nat r) virtual_address))
           (seqm (guard (length shareName < 64) OutOfBounds)
           (seqm (modify (upd_share (nat r) (\<lambda>x. x\<lparr>share_name := shareName, share_ownerID := ownerID,
               share_size := size, isWritable := writable, share_references := 1\<rparr>)))
             (ret r)))))"

definition getSizeOfSharedObject :: "uint32 \<Rightarrow> string \<Rightarrow> (kstate, int) M" where
  "getSizeOfSharedObject ownerID shareName =
     bnd (get_share_object_ID ownerID shareName) (\<lambda>i.
       if i \<noteq> E_SHARED_MEM_NOT_EXISTS then gets (\<lambda>s. sint (share_size (shares s (nat i)))) else ret i)"

text \<open>The permissions a user gets: read-only unless the object is writable.\<close>

definition share_perm :: "Share \<Rightarrow> uint32" where
  "share_perm x = (if isWritable x \<noteq> 0 then PERM_WRITEABLE OR PERM_USER else PERM_USER)"

definition get_page :: "nat \<Rightarrow> uint32 \<Rightarrow> nat \<Rightarrow> (kstate, unit) M" where
  "get_page i va k =
     bnd (gets (\<lambda>s. shares s i)) (\<lambda>x.
     bnd (get_frame_from_storage (framesStorage x) (of_nat k)) (\<lambda>fi.
     bnd current_directory (\<lambda>pgdir.
     bnd (deref fi) (\<lambda>fi. map_frame kmalloc pgdir fi (va + of_nat k * PAGE_SIZE) (share_perm x)))))"

definition getSharedObject :: "uint32 \<Rightarrow> string \<Rightarrow> uint32 \<Rightarrow> (kstate, int) M" where
  "getSharedObject ownerID shareName virtual_address =
     bnd (get_share_object_ID ownerID shareName) (\<lambda>r.
       if r = E_SHARED_MEM_NOT_EXISTS then ret r
       else bnd (gets (\<lambda>s. share_pages (shares s (nat r)))) (\<lambda>n.
         seqm (for_n n 0 (get_page (nat r) virtual_address))
         (seqm (modify (upd_share (nat r) (\<lambda>x. x\<lparr>share_references := share_references x + 1\<rparr>)))
           (ret r))))"

text \<open>
  The object is looked up by the frame of its first page; two null pointers count as equal.
\<close>

fun find_share_at :: "uint32 \<Rightarrow> nat list \<Rightarrow> (kstate, nat option) M" where
  "find_share_at va [] = ret None"
| "find_share_at va (i # is) =
     bnd (gets (\<lambda>s. shares s i)) (\<lambda>x.
       if share_empty x then find_share_at va is
       else bnd (get_frame_from_storage (framesStorage x) 0) (\<lambda>fi.
         bnd current_directory (\<lambda>pgdir.
         bnd (get_frame_info pgdir va) (\<lambda>(fi1, _).
           if fi = fi1 then ret (Some i) else find_share_at va is))))"

definition freeSharedObject :: "uint32 \<Rightarrow> uint32 \<Rightarrow> (kstate, int) M" where
  "freeSharedObject sharedObjectID startVA =
     seqm with_shares
     (bnd (gets MAX_SHARES) (\<lambda>mx.
      bnd (find_share_at startVA [0..<unat mx]) (\<lambda>found. case found of
          None \<Rightarrow> ret E_SHARED_MEM_NOT_EXISTS
        | Some i \<Rightarrow>
          bnd (gets (\<lambda>s. share_pages (shares s i))) (\<lambda>n.
          bnd (gets curenv) (\<lambda>c. bnd (deref c) (\<lambda>e.
          seqm (for_n n 0 (\<lambda>k. bnd current_directory (\<lambda>pgdir. unmap_frame pgdir (startVA + of_nat k * PAGE_SIZE))))
          (seqm (remove_empty_tables e startVA n)
          (seqm (modify (upd_share i (\<lambda>x. x\<lparr>share_references := share_references x - 1\<rparr>)))
          (bnd (gets (\<lambda>s. share_references (shares s i))) (\<lambda>refs.
           seqm (if refs = 0 then bnd (free_share_object (of_nat i)) (\<lambda>_. ret ()) else ret ())
           (seqm tlbflush (ret 0))))))))))))"

end
