(* ===== verification/Semaphore_Props.thy ===== *)
theory Semaphore_Props
  imports Semaphore Sched_Props Shares
begin

text \<open>
  The semaphores of the kernel are counting semaphores with a first-come first-served queue: the
  invariant ties the value of each semaphore to the length of its queue and keeps the queues and
  the ready queue disjoint; \<open>waitSemaphore\<close> and \<open>signalSemaphore\<close> return and keep it.
\<close>

section \<open>Signed values\<close>

lemma sint_dec: "- (2 ^ 31) < sint v \<Longrightarrow> sint (v - 1) = sint v - 1" for v :: uint32
  using sint_range_size[of v] by (simp add: word_size sint_word_ariths signed_take_bit_int_eq_self_iff)

lemma sint_inc: "sint v < 2 ^ 31 - 1 \<Longrightarrow> sint (v + 1) = sint v + 1" for v :: uint32
  using sint_range_size[of v] by (simp add: word_size sint_word_ariths signed_take_bit_int_eq_self_iff)

section \<open>The invariant\<close>

definition sem_ok :: "Semaphore \<Rightarrow> bool" where
  "sem_ok x \<longleftrightarrow> (if sint (sem_value x) < 0 then int (length (env_queue x)) = - sint (sem_value x)
     else env_queue x = [])"

definition sem_index :: "kstate \<Rightarrow> nat set" where
  "sem_index s = {i. i < unat (MAX_SEMAPHORES s)}"

definition queues_ok :: "kstate \<Rightarrow> bool" where
  "queues_ok s \<longleftrightarrow> (\<forall>i\<in>sem_index s. sem_ok (semaphores s i) \<and> distinct (env_queue (semaphores s i)) \<and>
     set (env_queue (semaphores s i)) \<inter> set (run_order s) = {} \<and>
     (\<forall>e\<in>set (env_queue (semaphores s i)). e < unat NENV \<and> env_status (envs s e) = ENV_BLOCKED) \<and>
     (\<forall>j\<in>sem_index s. j \<noteq> i \<longrightarrow> set (env_queue (semaphores s i)) \<inter> set (env_queue (semaphores s j)) = {}))"

definition sem_inv :: "kstate \<Rightarrow> bool" where
  "sem_inv s \<longleftrightarrow> ready_inv s \<and> semaphores_ptr s \<noteq> 0 \<and> queues_ok s \<and>
     (\<forall>e\<in>set (run_order s). e < unat NENV \<and> env_status (envs s e) = ENV_READY) \<and>
     (\<forall>c. curenv s = Some c \<longrightarrow> c \<in> set (run_order s))"

text \<open>The value never gets near the bounds of a machine integer from below.\<close>

lemma value_bound:
  assumes "queues_ok s" and "i \<in> sem_index s"
  shows "- 1285 \<le> sint (sem_value (semaphores s i))"
proof -
  let ?q = "env_queue (semaphores s i)"
  have "set ?q \<subseteq> {..<1285}" and d: "distinct ?q" and ok: "sem_ok (semaphores s i)"
    using assms by (auto simp: queues_ok_def NENV_eq)
  then have "card (set ?q) \<le> 1285" using card_mono[of "{..<1285}"] by fastforce
  then have "length ?q \<le> 1285" using d by (simp add: distinct_card)
  with ok show ?thesis by (auto simp: sem_ok_def split: if_splits)
qed

definition sem_at :: "uint32 \<Rightarrow> string \<Rightarrow> nat \<Rightarrow> kstate \<Rightarrow> bool" where
  "sem_at owner name i s \<longleftrightarrow>
     find (\<lambda>i. is_semaphore owner name (semaphores s i)) [0..<unat (MAX_SEMAPHORES s)] = Some i"

lemma sem_at_index: "sem_at owner name i s \<Longrightarrow> i \<in> sem_index s"
  by (auto simp: sem_at_def sem_index_def find_Some_iff)

lemma search_apply: "semaphores_ptr s \<noteq> 0 \<Longrightarrow>
    search_semaphores P s = Inr (find (\<lambda>i. P (semaphores s i)) [0..<unat (MAX_SEMAPHORES s)], s)"
  by (simp add: search_semaphores_def with_semaphores_def)

text \<open>Changing value and queue of semaphores keeps names, owners and the answers of the search.\<close>

definition same_names :: "kstate \<Rightarrow> kstate \<Rightarrow> bool" where
  "same_names s s' \<longleftrightarrow> MAX_SEMAPHORES s' = MAX_SEMAPHORES s \<and>
     (\<forall>i. sem_empty (semaphores s' i) = sem_empty (semaphores s i) \<and>
        sem_ownerID (semaphores s' i) = sem_ownerID (semaphores s i) \<and> sem_name (semaphores s' i) = sem_name (semaphores s i))"

lemma same_names_at: "same_names s s' \<Longrightarrow> sem_at owner name i s' = sem_at owner name i s"
  by (simp add: same_names_def sem_at_def is_semaphore_def)

section \<open>Abstract semaphores\<close>

text \<open>A counting semaphore: how many may pass, and who waits, first come first.\<close>

record asem =
  acount :: int
  awaiters :: "nat list"

definition abs_sem :: "Semaphore \<Rightarrow> asem" where
  "abs_sem x = \<lparr>acount = max 0 (sint (sem_value x)), awaiters = rev (env_queue x)\<rparr>"

definition a_wait :: "nat \<Rightarrow> asem \<Rightarrow> asem" where
  "a_wait c a = (if 0 < acount a then a\<lparr>acount := acount a - 1\<rparr> else a\<lparr>awaiters := awaiters a @ [c]\<rparr>)"

definition a_signal :: "asem \<Rightarrow> asem" where
  "a_signal a = (case awaiters a of [] \<Rightarrow> a\<lparr>acount := acount a + 1\<rparr> | c # cs \<Rightarrow> a\<lparr>awaiters := cs\<rparr>)"

definition blocks :: "asem \<Rightarrow> bool" where
  "blocks a \<longleftrightarrow> acount a = 0"

definition wait_sem :: "nat \<Rightarrow> Semaphore \<Rightarrow> Semaphore" where
  "wait_sem c x = (if sint (sem_value x) \<le> 0
     then x\<lparr>sem_value := sem_value x - 1, env_queue := c # env_queue x\<rparr> else x\<lparr>sem_value := sem_value x - 1\<rparr>)"

definition signal_sem :: "Semaphore \<Rightarrow> Semaphore" where
  "signal_sem x = (if sint (sem_value x) < 0
     then x\<lparr>sem_value := sem_value x + 1, env_queue := butlast (env_queue x)\<rparr> else x\<lparr>sem_value := sem_value x + 1\<rparr>)"

lemma wait_sem_ok:
  assumes "sem_ok x" and "- 1285 \<le> sint (sem_value x)"
  shows "sem_ok (wait_sem c x)" "abs_sem (wait_sem c x) = a_wait c (abs_sem x)"
  using assms sint_dec[of "sem_value x"] by (auto simp: sem_ok_def wait_sem_def abs_sem_def a_wait_def split: if_splits)

lemma signal_sem_ok:
  assumes "sem_ok x" and "sint (sem_value x) < 2 ^ 31 - 1"
  shows "sem_ok (signal_sem x)" "abs_sem (signal_sem x) = a_signal (abs_sem x)"
proof -
  have inc: "sint (sem_value x + 1) = sint (sem_value x) + 1" by (rule sint_inc[OF assms(2)])
  have "sem_ok (signal_sem x) \<and> abs_sem (signal_sem x) = a_signal (abs_sem x)"
  proof (cases "sint (sem_value x) < 0")
    case False
    then show ?thesis using assms inc by (simp add: sem_ok_def signal_sem_def abs_sem_def a_signal_def)
  next
    case True
    then have "env_queue x \<noteq> []" using assms(1) by (auto simp: sem_ok_def)
    then obtain q e where q: "env_queue x = q @ [e]" by (metis rev_exhaust)
    have len: "int (length q) + 1 = - sint (sem_value x)" using True assms(1) q by (simp add: sem_ok_def)
    have "q = []" if "\<not> sint (sem_value x) + 1 < 0"
    proof -
      have "length q = 0" using len that by linarith
      then show ?thesis by simp
    qed
    then show ?thesis using True len inc q by (auto simp: sem_ok_def signal_sem_def abs_sem_def a_signal_def)
  qed
  then show "sem_ok (signal_sem x)" "abs_sem (signal_sem x) = a_signal (abs_sem x)" by simp_all
qed

section \<open>Waiting\<close>

lemma deref_Some: "bnd (deref (Some x)) f = f x"
  by (simp add: deref_def)

lemma upd_sem_simps [simp]:
  "semaphores (upd_sem i f s) = (semaphores s)(i := f (semaphores s i))"
  "semaphores_ptr (upd_sem i f s) = semaphores_ptr s" "MAX_SEMAPHORES (upd_sem i f s) = MAX_SEMAPHORES s"
  "curenv (upd_sem i f s) = curenv s" "envs (upd_sem i f s) = envs s" "runs (upd_sem i f s) = runs s"
  "ready_inv (upd_sem i f s) = ready_inv s" "run_order (upd_sem i f s) = run_order s"
  by (simp_all add: upd_sem_def runs_def ready_inv_def run_order_def cong: option.case_cong)

lemma run_order_set: "hd_opt xs = Some c \<Longrightarrow> c \<in> set (rotate1 xs)"
  by (auto dest: hd_opt_in)

text \<open>
  The invariant after a step that changes one semaphore: its queue and the ready environments are
  exchanged among each other, and the statuses follow.
\<close>

lemma sem_inv_step:
  assumes inv: "sem_inv s" and i: "i \<in> sem_index s"
    and s': "semaphores s' = (semaphores s)(i := x)" "semaphores_ptr s' = semaphores_ptr s" "MAX_SEMAPHORES s' = MAX_SEMAPHORES s"
    and r: "ready_inv s'" and x: "sem_ok x" "distinct (env_queue x)"
    and sub: "set (env_queue x) \<union> set (run_order s') \<subseteq> set (env_queue (semaphores s i)) \<union> set (run_order s)"
    and dis: "set (env_queue x) \<inter> set (run_order s') = {}"
    and blk: "\<forall>e\<in>set (env_queue x). env_status (envs s' e) = ENV_BLOCKED"
    and rdy: "\<forall>e\<in>set (run_order s'). env_status (envs s' e) = ENV_READY"
    and rest: "\<forall>e. e \<notin> set (env_queue (semaphores s i)) \<union> set (run_order s) \<longrightarrow> env_status (envs s' e) = env_status (envs s e)"
    and cur: "\<forall>c. curenv s' = Some c \<longrightarrow> c \<in> set (run_order s')"
  shows "sem_inv s'"
proof -
  have q: "queues_ok s" and ro: "\<forall>e\<in>set (run_order s). e < unat NENV" using inv by (auto simp: sem_inv_def)
  have idx: "sem_index s' = sem_index s" using s'(3) by (simp add: sem_index_def)
  have lt: "\<forall>e\<in>set (env_queue (semaphores s i)) \<union> set (run_order s). e < unat NENV"
    using q i ro by (auto simp: queues_ok_def)
  have other: "set (env_queue (semaphores s j)) \<inter> (set (env_queue (semaphores s i)) \<union> set (run_order s)) = {}"
    if "j \<in> sem_index s" "j \<noteq> i" for j using q i that unfolding queues_ok_def by blast
  have "queues_ok s'" unfolding queues_ok_def idx
  proof
    fix j assume j: "j \<in> sem_index s"
    show "sem_ok (semaphores s' j) \<and> distinct (env_queue (semaphores s' j)) \<and>
     set (env_queue (semaphores s' j)) \<inter> set (run_order s') = {} \<and>
     (\<forall>e\<in>set (env_queue (semaphores s' j)). e < unat NENV \<and> env_status (envs s' e) = ENV_BLOCKED) \<and>
     (\<forall>k\<in>sem_index s. k \<noteq> j \<longrightarrow> set (env_queue (semaphores s' j)) \<inter> set (env_queue (semaphores s' k)) = {})"
    proof (cases "j = i")
      case True
      have "set (env_queue x) \<inter> set (env_queue (semaphores s k)) = {}" if "k \<in> sem_index s" "k \<noteq> i" for k
        using other[OF that] sub by blast
      then show ?thesis using True s'(1) x dis blk sub lt by auto
    next
      case False
      have oj: "sem_ok (semaphores s j)" "distinct (env_queue (semaphores s j))"
        "\<forall>e\<in>set (env_queue (semaphores s j)). e < unat NENV \<and> env_status (envs s e) = ENV_BLOCKED"
        using q j by (auto simp: queues_ok_def)
      have st: "\<forall>e\<in>set (env_queue (semaphores s j)). env_status (envs s' e) = ENV_BLOCKED"
        using oj(3) other[OF j False] rest by fastforce
      have "set (env_queue (semaphores s j)) \<inter> set (env_queue (if k = i then x else semaphores s k)) = {}"
        if "k \<in> sem_index s" "k \<noteq> j" for k
        using q j that other[OF j False] sub unfolding queues_ok_def by (cases "k = i") auto
      then show ?thesis using False s'(1) oj st other[OF j False] sub by auto
    qed
  qed
  with inv s'(2) r rdy cur lt sub show ?thesis unfolding sem_inv_def by auto
qed

lemma wait_spec:
  assumes inv: "sem_inv s" and i: "sem_at owner name i s" and c: "curenv s = Some c"
  shows "\<exists>s'. waitSemaphore owner name s = Inr ((), s') \<and> sem_inv s' \<and>
    semaphores s' = (semaphores s)(i := wait_sem c (semaphores s i)) \<and> MAX_SEMAPHORES s' = MAX_SEMAPHORES s \<and>
    run_order s' = rotate1 (if blocks (abs_sem (semaphores s i)) then remove1 c (run_order s) else run_order s) \<and>
    curenv s' = hd_opt (if blocks (abs_sem (semaphores s i)) then remove1 c (run_order s) else run_order s)"
proof -
  let ?x = "semaphores s i" and ?v = "sem_value (semaphores s i)"
  note idx = sem_at_index[OF i]
  have q: "queues_ok s" and r: "ready_inv s" and p: "semaphores_ptr s \<noteq> 0" and cr: "c \<in> set (run_order s)"
    and rdy: "\<forall>e\<in>set (run_order s). env_status (envs s e) = ENV_READY"
    using inv c by (auto simp: sem_inv_def)
  have x: "sem_ok ?x" "distinct (env_queue ?x)" "set (env_queue ?x) \<inter> set (run_order s) = {}"
    "\<forall>e\<in>set (env_queue ?x). env_status (envs s e) = ENV_BLOCKED" using q idx by (auto simp: queues_ok_def)
  note b = value_bound[OF q idx]
  then have dec: "sint (?v - 1) = sint ?v - 1" by (intro sint_dec) simp
  have found: "search_semaphores (is_semaphore owner name) s = Inr (Some i, s)"
    using i p by (simp add: search_apply sem_at_def)
  have dr: "distinct (run_order s)" by (rule ready.order_distinct[OF r])
  let ?s1 = "upd_sem i (\<lambda>x. x\<lparr>sem_value := sem_value x - 1\<rparr>) s"
  have run: "waitSemaphore owner name s = seqm (whenM (?v - 1 <s 0)
      (seqm (sched_remove_ready (Some c)) (seqm (enqueue i (Some c)) (set_status c ENV_BLOCKED)))) fos_scheduler ?s1"
    using found c by (simp add: waitSemaphore_def seqm_def bnd_apply deref_Some)
  show ?thesis
  proof (cases "0 < sint ?v")
    case True
    then have nb: "\<not> blocks (abs_sem ?x)" "\<not> ?v - 1 <s 0" using dec by (simp_all add: blocks_def abs_sem_def word_sless_alt)
    from fos_scheduler_spec[of ?s1] r obtain s' where s': "fos_scheduler ?s1 = Inr ((), s')" "ready_inv s'"
      "run_order s' = rotate1 (run_order s)" "curenv s' = hd_opt (run_order s)" "sched_frame ?s1 s'"
      "\<forall>x. env_status (envs s' x) = env_status (envs s x)" by auto
    have sem: "semaphores s' = (semaphores s)(i := wait_sem c ?x)" "semaphores_ptr s' = semaphores_ptr s" "MAX_SEMAPHORES s' = MAX_SEMAPHORES s"
      using s'(5) True by (simp_all add: sched_frame_def wait_sem_def)
    have "sem_inv s'"
      by (rule sem_inv_step[OF inv idx sem s'(2) wait_sem_ok(1)[OF x(1) b]])
        (use True x rdy s' run_order_set in \<open>auto simp: wait_sem_def\<close>)
    then show ?thesis using run nb s' sem by simp
  next
    case False
    then have bl: "blocks (abs_sem ?x)" "?v - 1 <s 0" using dec by (simp_all add: blocks_def abs_sem_def word_sless_alt)
    from remove_ready_frame[of ?s1 c] r cr obtain s2 where s2: "sched_remove_ready (Some c) ?s1 = Inr ((), s2)" "ready_inv s2"
      "run_order s2 = remove1 c (run_order s)" "status_frame c ENV_UNKNOWN ?s1 s2" by auto
    let ?s4 = "upd_env c (\<lambda>v. v\<lparr>env_status := ENV_BLOCKED\<rparr>) (upd_sem i (\<lambda>x. x\<lparr>env_queue := c # env_queue x\<rparr>) s2)"
    have s4: "ready_inv ?s4 = ready_inv s2" "run_order ?s4 = run_order s2"
      by (simp_all add: upd_env_def upd_sem_def ready_inv_def run_order_def cong: option.case_cong)
    from fos_scheduler_spec[of ?s4] s4 s2(2,3) obtain s' where s': "fos_scheduler ?s4 = Inr ((), s')" "ready_inv s'"
      "run_order s' = rotate1 (remove1 c (run_order s))" "curenv s' = hd_opt (remove1 c (run_order s))" "sched_frame ?s4 s'"
      "\<forall>x. env_status (envs s' x) = env_status (envs ?s4 x)" by auto
    have sem: "semaphores s' = (semaphores s)(i := wait_sem c ?x)" "semaphores_ptr s' = semaphores_ptr s" "MAX_SEMAPHORES s' = MAX_SEMAPHORES s"
      using s'(5) s2(4) False by (simp_all add: frame_defs wait_sem_def upd_env_def upd_sem_def)
    have st: "env_status (envs s' e) = (if e = c then ENV_BLOCKED else env_status (envs s e))" for e
      using s'(6) s2(4) by (simp add: frame_defs upd_env_def upd_sem_def)
    have "waitSemaphore owner name s = Inr ((), s')"
      using run bl s2(1) s'(1) by (simp add: seqm_def bnd_apply enqueue_def set_status_def)
    moreover have "set (run_order s') = set (run_order s) - {c}" using s'(3) dr by simp
    moreover have "\<forall>d. curenv s' = Some d \<longrightarrow> d \<in> set (run_order s')"
      unfolding s'(3,4) set_rotate1 by (auto dest: hd_opt_in)
    ultimately have "sem_inv s' \<and> waitSemaphore owner name s = Inr ((), s')"
      by (intro conjI sem_inv_step[OF inv idx sem s'(2) wait_sem_ok(1)[OF x(1) b]])
        (use False x rdy cr st in \<open>auto simp: wait_sem_def\<close>)
    then show ?thesis using bl s'(3,4) sem by simp
  qed
qed

lemma signal_spec:
  assumes inv: "sem_inv s" and i: "sem_at owner name i s" and v: "sint (sem_value (semaphores s i)) < 2 ^ 31 - 1"
  shows "\<exists>s'. signalSemaphore owner name s = Inr ((), s') \<and> sem_inv s' \<and>
    semaphores s' = (semaphores s)(i := signal_sem (semaphores s i)) \<and> MAX_SEMAPHORES s' = MAX_SEMAPHORES s \<and>
    run_order s' = run_order s @ take 1 (awaiters (abs_sem (semaphores s i))) \<and> curenv s' = curenv s"
proof -
  let ?x = "semaphores s i" and ?v = "sem_value (semaphores s i)"
  note idx = sem_at_index[OF i]
  have q: "queues_ok s" and r: "ready_inv s" and p: "semaphores_ptr s \<noteq> 0"
    and cur: "\<forall>c. curenv s = Some c \<longrightarrow> c \<in> set (run_order s)"
    and rdy: "\<forall>e\<in>set (run_order s). env_status (envs s e) = ENV_READY"
    using inv by (auto simp: sem_inv_def)
  have x: "sem_ok ?x" "distinct (env_queue ?x)" "set (env_queue ?x) \<inter> set (run_order s) = {}"
    "\<forall>e\<in>set (env_queue ?x). env_status (envs s e) = ENV_BLOCKED" using q idx by (auto simp: queues_ok_def)
  have inc: "sint (?v + 1) = sint ?v + 1" by (rule sint_inc[OF v])
  have found: "search_semaphores (is_semaphore owner name) s = Inr (Some i, s)"
    using i p by (simp add: search_apply sem_at_def)
  let ?s1 = "upd_sem i (\<lambda>x. x\<lparr>sem_value := sem_value x + 1\<rparr>) s"
  have run: "signalSemaphore owner name s = whenM (?v + 1 \<le>s 0)
      (bnd (dequeue i) (\<lambda>newenv. seqm (sched_insert_ready (Some newenv)) (set_status newenv ENV_READY))) ?s1"
    using found by (simp add: signalSemaphore_def seqm_def bnd_apply)
  show ?thesis
  proof (cases "sint ?v < 0")
    case False
    then have nw: "\<not> ?v + 1 \<le>s 0" "env_queue ?x = []" using inc x(1) by (simp_all add: word_sle_eq sem_ok_def)
    have sem: "semaphores ?s1 = (semaphores s)(i := signal_sem ?x)" "semaphores_ptr ?s1 = semaphores_ptr s"
      "MAX_SEMAPHORES ?s1 = MAX_SEMAPHORES s" using False by (simp_all add: signal_sem_def)
    have "sem_inv ?s1"
      by (rule sem_inv_step[OF inv idx sem _ signal_sem_ok(1)[OF x(1) v]])
        (use False r x rdy cur in \<open>auto simp: signal_sem_def\<close>)
    then show ?thesis using run nw sem by (simp add: abs_sem_def)
  next
    case True
    then have "env_queue ?x \<noteq> []" using x(1) by (auto simp: sem_ok_def)
    then obtain l e where l: "env_queue ?x = l @ [e]" by (metis rev_exhaust)
    let ?s2 = "upd_sem i (\<lambda>x. x\<lparr>env_queue := butlast (env_queue x)\<rparr>) ?s1"
    have le: "?v + 1 \<le>s 0" using True inc by (simp add: word_sle_eq)
    have new: "e \<notin> set (run_order s)" using x(3) l by auto
    from insert_ready_frame[of ?s2 e] r new obtain s3 where s3: "sched_insert_ready (Some e) ?s2 = Inr ((), s3)" "ready_inv s3"
      "run_order s3 = run_order s @ [e]" "status_frame e ENV_READY ?s2 s3" by auto
    define t where "t = upd_env e (\<lambda>v. v\<lparr>env_status := ENV_READY\<rparr>) s3"
    have s': "ready_inv t" "run_order t = run_order s @ [e]"
      using s3(2,3) by (simp_all add: t_def upd_env_def ready_inv_def run_order_def cong: option.case_cong)
    have "dequeue i ?s1 = Inr (e, ?s2)" using l by (simp add: dequeue_def)
    then have "signalSemaphore owner name s = Inr ((), t)"
      using run le s3(1) by (simp add: seqm_def bnd_apply set_status_def t_def)
    moreover have sem: "semaphores t = (semaphores s)(i := signal_sem ?x)" "semaphores_ptr t = semaphores_ptr s"
      "MAX_SEMAPHORES t = MAX_SEMAPHORES s"
      using s3(4) True by (simp_all add: frame_defs signal_sem_def upd_env_def t_def)
    moreover have st: "env_status (envs t y) = (if y = e then ENV_READY else env_status (envs s y))" for y
      using s3(4) by (simp add: frame_defs upd_env_def t_def)
    moreover have "curenv t = curenv s" using s3(4) by (simp add: frame_defs upd_env_def t_def)
    moreover note c4 = this
    ultimately have "sem_inv t \<and> signalSemaphore owner name s = Inr ((), t)"
      by (intro conjI sem_inv_step[OF inv idx sem s'(1) signal_sem_ok(1)[OF x(1) v]])
        (use True x rdy cur l s'(2) new in \<open>auto simp: signal_sem_def\<close>)
    then show ?thesis using sem s'(2) l c4 by (auto simp: abs_sem_def)
  qed
qed

section \<open>Histories\<close>

text \<open>
  What can happen to the semaphores of a running system: the running environment waits on or
  signals some semaphore, or the clock passes the processor on.
\<close>

datatype sem_event = Waited nat nat | Signalled nat | Clock

inductive sem_step :: "kstate \<Rightarrow> sem_event \<Rightarrow> kstate \<Rightarrow> bool" where
  wait: "curenv s = Some c \<Longrightarrow> sem_at owner name i s \<Longrightarrow> waitSemaphore owner name s = Inr ((), s') \<Longrightarrow>
    sem_step s (Waited c i) s'"
| signal: "curenv s = Some c \<Longrightarrow> sem_at owner name i s \<Longrightarrow> signalSemaphore owner name s = Inr ((), s') \<Longrightarrow>
    sem_step s (Signalled i) s'"
| clock: "clock_interrupt_handler s = Inr ((), s') \<Longrightarrow> sem_step s Clock s'"

inductive sem_run :: "kstate \<Rightarrow> sem_event list \<Rightarrow> kstate \<Rightarrow> bool" where
  start: "sem_run s [] s"
| step: "sem_run s h t \<Longrightarrow> sem_step t ev u \<Longrightarrow> sem_run s (h @ [ev]) u"

inductive_cases sem_waitE: "sem_step s (Waited c i) s'"
inductive_cases sem_signalE: "sem_step s (Signalled i) s'"
inductive_cases sem_clockE: "sem_step s Clock s'"

text \<open>Who waited on a semaphore, in order, and how often it was signalled.\<close>

definition arrivals :: "nat \<Rightarrow> sem_event list \<Rightarrow> nat list" where
  "arrivals i h = concat (map (\<lambda>ev. case ev of Waited c j \<Rightarrow> if j = i then [c] else [] | _ \<Rightarrow> []) h)"

definition signals :: "nat \<Rightarrow> sem_event list \<Rightarrow> nat" where
  "signals i h = length (filter (\<lambda>ev. ev = Signalled i) h)"

lemma history_simps [simp]:
  "arrivals i [] = []" "signals i [] = 0"
  "arrivals i (h @ [Waited c j]) = arrivals i h @ (if j = i then [c] else [])"
  "signals i (h @ [Waited c j]) = signals i h"
  "arrivals i (h @ [Signalled j]) = arrivals i h" "arrivals i (h @ [Clock]) = arrivals i h"
  "signals i (h @ [Signalled j]) = signals i h + (if j = i then 1 else 0)" "signals i (h @ [Clock]) = signals i h"
  by (simp_all add: arrivals_def signals_def)

lemma signals_le: "signals i h \<le> length h"
  by (simp add: signals_def)

lemma clock_sem:
  assumes "sem_inv s" and "clock_interrupt_handler s = Inr ((), s')"
  shows "sem_inv s' \<and> semaphores s' = semaphores s \<and> MAX_SEMAPHORES s' = MAX_SEMAPHORES s"
proof -
  have r: "ready_inv s" using assms(1) by (simp add: sem_inv_def)
  then have "PageRepAlgoType s \<noteq> PG_REP_LRU" by (simp add: ready_inv_def)
  then have "fos_scheduler s = Inr ((), s')" using assms(2)
    by (simp add: clock_interrupt_handler_def isPageReplacmentAlgorithm_def seqm_def bnd_apply)
  with fos_scheduler_spec[OF r] have s': "ready_inv s'" "run_order s' = rotate1 (run_order s)"
    "curenv s' = hd_opt (run_order s)" "sched_frame s s'" "\<forall>x. env_status (envs s' x) = env_status (envs s x)" by auto
  then show ?thesis
    using assms(1) by (auto simp: sem_inv_def queues_ok_def sem_index_def sched_frame_def dest: hd_opt_in)
qed

text \<open>The state of a semaphore that began with value \<open>v\<close> after a history.\<close>

definition sem_after :: "int \<Rightarrow> nat \<Rightarrow> sem_event list \<Rightarrow> Semaphore \<Rightarrow> bool" where
  "sem_after v i h x \<longleftrightarrow> sint (sem_value x) = v + int (signals i h) - int (length (arrivals i h)) \<and>
     rev (env_queue x) = drop (nat v + signals i h) (arrivals i h)"

lemma sem_after_wait:
  assumes "sem_after v i h x" and "0 \<le> v" and "- 1285 \<le> sint (sem_value x)"
  shows "sem_after v i (h @ [Waited c i]) (wait_sem c x)"
proof -
  have dec: "sint (sem_value x - 1) = sint (sem_value x) - 1" using assms(3) by (intro sint_dec) simp
  have "nat v + signals i h \<le> length (arrivals i h) \<longleftrightarrow> sint (sem_value x) \<le> 0"
    using assms(1,2) by (auto simp: sem_after_def)
  with assms(1) dec show ?thesis by (auto simp: sem_after_def wait_sem_def)
qed

lemma sem_after_signal:
  assumes "sem_after v i h x" and "0 \<le> v" and "sint (sem_value x) < 2 ^ 31 - 1" and "sem_ok x"
  shows "sem_after v i (h @ [Signalled i]) (signal_sem x)"
proof -
  have inc: "sint (sem_value x + 1) = sint (sem_value x) + 1" by (rule sint_inc[OF assms(3)])
  have "rev (butlast (env_queue x)) = tl (rev (env_queue x))" by (cases "env_queue x" rule: rev_cases) simp_all
  also have "\<dots> = drop (nat v + Suc (signals i h)) (arrivals i h)"
    using assms(1) by (simp add: sem_after_def drop_Suc tl_drop)
  finally have "rev (butlast (env_queue x)) = drop (nat v + Suc (signals i h)) (arrivals i h)" .
  moreover have "drop (nat v + Suc (signals i h)) (arrivals i h) = []" if "\<not> sint (sem_value x) < 0"
    using that assms(1,2) by (auto simp: sem_after_def)
  ultimately show ?thesis using assms(1,4) inc by (auto simp: sem_after_def signal_sem_def sem_ok_def)
qed

lemma sem_after_other:
  "sem_after v i h x \<Longrightarrow> j \<noteq> i \<Longrightarrow> sem_after v i (h @ [Waited c j]) x \<and> sem_after v i (h @ [Signalled j]) x"
  by (simp add: sem_after_def)

lemma history:
  assumes "sem_run s h t" and "sem_inv s" and "\<forall>i\<in>sem_index s. env_queue (semaphores s i) = [] \<and>
      0 \<le> sint (sem_value (semaphores s i)) \<and> sint (sem_value (semaphores s i)) + int (length h) < 2 ^ 31"
  shows "sem_inv t \<and> MAX_SEMAPHORES t = MAX_SEMAPHORES s \<and>
    (\<forall>i\<in>sem_index s. sem_after (sint (sem_value (semaphores s i))) i h (semaphores t i))"
  using assms
proof (induction rule: sem_run.induct)
  case (start s)
  then show ?case by (auto simp: sem_after_def)
next
  case (step s h t ev u)
  let ?v = "\<lambda>i. sint (sem_value (semaphores s i))"
  have IH: "sem_inv t" "MAX_SEMAPHORES t = MAX_SEMAPHORES s" "\<forall>i\<in>sem_index s. sem_after (?v i) i h (semaphores t i)"
  proof -
    have "\<forall>i\<in>sem_index s. env_queue (semaphores s i) = [] \<and> 0 \<le> ?v i \<and> ?v i + int (length h) < 2 ^ 31"
      using step.prems(2) by force
    with step.IH step.prems(1) show "sem_inv t" "MAX_SEMAPHORES t = MAX_SEMAPHORES s"
      "\<forall>i\<in>sem_index s. sem_after (?v i) i h (semaphores t i)" by blast+
  qed
  have idx: "sem_index t = sem_index s" using IH(2) by (simp add: sem_index_def)
  have q: "queues_ok t" using IH(1) by (simp add: sem_inv_def)
  show ?case
  proof (cases ev)
    case (Waited c i)
    with step.hyps(2) obtain owner name where w: "curenv t = Some c" "sem_at owner name i t"
      "waitSemaphore owner name t = Inr ((), u)" by (auto elim: sem_waitE)
    have i: "i \<in> sem_index s" using sem_at_index[OF w(2)] idx by simp
    from wait_spec[OF IH(1) w(2,1)] w(3) have u: "sem_inv u" "semaphores u = (semaphores t)(i := wait_sem c (semaphores t i))"
      "MAX_SEMAPHORES u = MAX_SEMAPHORES t" by auto
    have "sem_after (?v i) i (h @ [Waited c i]) (wait_sem c (semaphores t i))"
      by (rule sem_after_wait) (use IH(3) i step.prems(2) value_bound[OF q] idx in auto)
    then show ?thesis using u IH Waited sem_after_other by auto
  next
    case (Signalled i)
    with step.hyps(2) obtain owner name where w: "sem_at owner name i t" "signalSemaphore owner name t = Inr ((), u)"
      by (auto elim: sem_signalE)
    have i: "i \<in> sem_index s" using sem_at_index[OF w(1)] idx by simp
    have a: "sem_after (?v i) i h (semaphores t i)" and v: "0 \<le> ?v i" "?v i + int (length (h @ [ev])) < 2 ^ 31"
      using IH(3) i step.prems(2) by auto
    have lt: "sint (sem_value (semaphores t i)) < 2 ^ 31 - 1"
      using a v signals_le[of i h] by (simp add: sem_after_def)
    from signal_spec[OF IH(1) w(1) lt] w(2) have u: "sem_inv u" "semaphores u = (semaphores t)(i := signal_sem (semaphores t i))"
      "MAX_SEMAPHORES u = MAX_SEMAPHORES t" by auto
    have "sem_ok (semaphores t i)" using q i idx by (simp add: queues_ok_def)
    from sem_after_signal[OF a v(1) lt this] show ?thesis using u IH Signalled sem_after_other by auto
  next
    case Clock
    with step.hyps(2) have "clock_interrupt_handler t = Inr ((), u)" by (auto elim: sem_clockE)
    from clock_sem[OF IH(1) this] IH(2,3) Clock show ?thesis by (simp add: sem_after_def)
  qed
qed

section \<open>Properties\<close>

text \<open>Two ready environments, the first of them running, and a semaphore of value 1.\<close>

definition two_ready :: kstate where
  "two_ready = zero_kstate\<lparr>env_ready_queue := [1, 2], sched_next := Some 1, curenv := Some 1,
     envs := (\<lambda>_. zero_env\<lparr>env_status := ENV_READY\<rparr>), semaphores_ptr := 0xF6002000, MAX_SEMAPHORES := 1,
     semaphores := (\<lambda>_. \<lparr>sem_ownerID = 4097, sem_name = ''cs'', env_queue = [], sem_value = 1, sem_empty = False\<rparr>)\<rparr>"

lemma two_ready_facts:
  "sem_inv two_ready" "sem_at 4097 ''cs'' 0 two_ready" "run_order two_ready = [1, 2]" "curenv two_ready = Some 1"
  "sem_index two_ready = {0}" "sem_value (semaphores two_ready 0) = 1" "env_queue (semaphores two_ready 0) = []"
  "zero_env\<lparr>env_status := ENV_READY\<rparr> = envs two_ready 1"
  by (auto simp: two_ready_def sem_inv_def ready_inv_def queues_ok_def sem_ok_def run_order_def zero_kstate_def
      sem_at_def is_semaphore_def sem_index_def NENV_eq)

text \<open>C14: \<open>waitSemaphore\<close> and \<open>signalSemaphore\<close> return and implement a counting semaphore with a
  first-come first-served queue: waiting takes a unit or joins the queue and leaves the ready
  queue, signalling gives the unit to the first in the queue, who becomes ready, or keeps it; the
  other semaphores are untouched, and the invariant holds again.\<close>

theorem semaphore_operations_refine:
  assumes "sem_inv s" and "sem_at owner name i s" and "curenv s = Some c"
    and "sint (sem_value (semaphores s i)) < 2 ^ 31 - 1"
  shows "(\<exists>s'. waitSemaphore owner name s = Inr ((), s') \<and> sem_inv s' \<and>
      abs_sem (semaphores s' i) = a_wait c (abs_sem (semaphores s i)) \<and> (\<forall>j. j = i \<or> semaphores s' j = semaphores s j) \<and>
      run_order s' = rotate1 (if blocks (abs_sem (semaphores s i)) then remove1 c (run_order s) else run_order s)) \<and>
    (\<exists>s'. signalSemaphore owner name s = Inr ((), s') \<and> sem_inv s' \<and>
      abs_sem (semaphores s' i) = a_signal (abs_sem (semaphores s i)) \<and> (\<forall>j. j = i \<or> semaphores s' j = semaphores s j) \<and>
      run_order s' = run_order s @ take 1 (awaiters (abs_sem (semaphores s i))))"
proof -
  have q: "queues_ok s" using assms(1) by (simp add: sem_inv_def)
  note i = sem_at_index[OF assms(2)]
  then have ok: "sem_ok (semaphores s i)" using q by (simp add: queues_ok_def)
  from wait_spec[OF assms(1-3)] signal_spec[OF assms(1,2,4)]
    wait_sem_ok(2)[OF ok value_bound[OF q i]] signal_sem_ok(2)[OF ok assms(4)]
  show ?thesis by fastforce
qed

theorem semaphore_operations_refine_witness:
  "\<exists>s'. waitSemaphore 4097 ''cs'' two_ready = Inr ((), s') \<and> abs_sem (semaphores s' 0) = \<lparr>acount = 0, awaiters = []\<rparr> \<and>
     run_order s' = [2, 1]"
  using semaphore_operations_refine[OF two_ready_facts(1,2,4)] two_ready_facts
  by (auto simp: a_wait_def abs_sem_def blocks_def)

text \<open>C3: First come, first served, and never more than were let in: in any history of waits, signals and
  clock interrupts, those who have passed a semaphore that began with value \<open>v\<close> are a prefix of
  those who waited on it, as many as \<open>v\<close> plus the number of signals allows, and the others stand in
  its queue in the order they came.  With \<open>v = 1\<close> and a signal only after a wait this is mutual
  exclusion.  The replacement strategy is not LRU, under which a clock interrupt also updates time stamps.\<close>

theorem semaphore_first_come_first_served:
  assumes "sem_run s h t" and "sem_inv s" and "i \<in> sem_index s"
    and "\<forall>j\<in>sem_index s. env_queue (semaphores s j) = [] \<and> 0 \<le> sint (sem_value (semaphores s j)) \<and>
      sint (sem_value (semaphores s j)) + int (length h) < 2 ^ 31"
  shows "sem_inv t \<and> (\<exists>passed. arrivals i h = passed @ rev (env_queue (semaphores t i)) \<and>
    length passed = min (length (arrivals i h)) (nat (sint (sem_value (semaphores s i))) + signals i h))"
proof -
  let ?n = "nat (sint (sem_value (semaphores s i))) + signals i h"
  from history[OF assms(1,2,4)] assms(3) have "sem_inv t" and "rev (env_queue (semaphores t i)) = drop ?n (arrivals i h)"
    by (auto simp: sem_after_def)
  then show ?thesis by (intro conjI exI[of _ "take ?n (arrivals i h)"]) (simp_all add: min.commute)
qed

theorem semaphore_first_come_first_served_witness:
  "\<exists>t. sem_run two_ready [Waited 1 0, Waited 1 0] t \<and> env_queue (semaphores t 0) = [1] \<and> run_order t = [2]"
proof -
  let ?x = "semaphores two_ready 0"
  from wait_spec[OF two_ready_facts(1,2,4)] two_ready_facts obtain t1 where t1:
    "waitSemaphore 4097 ''cs'' two_ready = Inr ((), t1)" "sem_inv t1" "semaphores t1 = (semaphores two_ready)(0 := wait_sem 1 ?x)"
    "MAX_SEMAPHORES t1 = MAX_SEMAPHORES two_ready" "run_order t1 = [2, 1]" "curenv t1 = Some 1"
    by (auto simp: abs_sem_def blocks_def)
  have x1: "wait_sem 1 ?x = ?x\<lparr>sem_value := 0\<rparr>" by (simp add: wait_sem_def two_ready_facts)
  then have "same_names two_ready t1" using t1(3,4) by (simp add: same_names_def)
  then have at1: "sem_at 4097 ''cs'' 0 t1" using two_ready_facts(2) by (simp add: same_names_at)
  from wait_spec[OF t1(2) at1 t1(6)] t1(3,5) x1 obtain t2 where t2: "waitSemaphore 4097 ''cs'' t1 = Inr ((), t2)"
    "run_order t2 = [2]" by (auto simp: abs_sem_def blocks_def)
  have "sem_run two_ready ([] @ [Waited 1 0] @ [Waited 1 0]) t2"
    using sem_run.step[OF sem_run.step[OF sem_run.start sem_step.wait[OF two_ready_facts(4,2) t1(1)]]
        sem_step.wait[OF t1(6) at1 t2(1)]] by simp
  then have run: "sem_run two_ready [Waited 1 0, Waited 1 0] t2" by simp
  have "sem_inv t2 \<and> (\<exists>passed. arrivals 0 [Waited 1 0, Waited 1 0] = passed @ rev (env_queue (semaphores t2 0)) \<and>
    length passed = min (length (arrivals 0 [Waited 1 0, Waited 1 0])) (nat (sint (sem_value (semaphores two_ready 0))) + signals 0 [Waited 1 0, Waited 1 0]))"
    by (rule semaphore_first_come_first_served[OF run two_ready_facts(1)]) (simp_all add: two_ready_facts)
  then have "rev (env_queue (semaphores t2 0)) = [1]"
    by (auto simp: arrivals_def signals_def two_ready_facts Cons_eq_append_conv)
  then have "env_queue (semaphores t2 0) = [1]" by simp
  with run t2(2) show ?thesis by blast
qed

end
