(* ===== verification/Fault.thy ===== *)
theory Fault
  imports Sched
begin

text \<open>
  Page faults, kern/trap.c: the choice of replacement algorithm and buffering, the fault handler,
  and the placement and first-in first-out replacement of pages.
\<close>

section \<open>Settings\<close>

definition setPageReplacmentAlgorithm :: "page_rep \<Rightarrow> (kstate, unit) M" where
  "setPageReplacmentAlgorithm p = modify (\<lambda>s. s\<lparr>PageRepAlgoType := p\<rparr>)"

definition enableModifiedBuffer :: "uint32 \<Rightarrow> (kstate, unit) M" where
  "enableModifiedBuffer enableIt = modify (\<lambda>s. s\<lparr>EnableModifiedBuffer := enableIt\<rparr>)"

definition isModifiedBufferEnabled :: "(kstate, uint32) M" where
  "isModifiedBufferEnabled = gets EnableModifiedBuffer"

definition enableBuffering :: "uint32 \<Rightarrow> (kstate, unit) M" where
  "enableBuffering enableIt = modify (\<lambda>s. s\<lparr>EnableBuffering := enableIt\<rparr>)"

definition setModifiedBufferLength :: "uint32 \<Rightarrow> (kstate, unit) M" where
  "setModifiedBufferLength len = modify (\<lambda>s. s\<lparr>ModifiedBufferLength := len\<rparr>)"

definition getModifiedBufferLength :: "(kstate, uint32) M" where
  "getModifiedBufferLength = gets ModifiedBufferLength"

section \<open>Bringing a page in\<close>

text \<open>
  Both branches of \<open>page_fault_handler\<close> end alike: the frame is mapped, the page is read from the
  page file or is a new page of the stack, and the entry at the last index is filled.
\<close>

definition bring_in :: "nat \<Rightarrow> uint32 \<Rightarrow> nat \<Rightarrow> uint8 \<Rightarrow> string \<Rightarrow> (kstate, unit) M" where
  "bring_in e fault_va fi zeroed msg =
     bnd (get_env e) (\<lambda>env.
     seqm (map_frame kmalloc (env_page_directory env) fi fault_va (PERM_USER OR PERM_WRITEABLE))
     (bnd (pf_read_env_page e fault_va) (\<lambda>r.
      whenM (r \<noteq> 0)
        (if fault_va < USTACKTOP \<and> USTACKBOTTOM \<le> fault_va
         then bnd (pf_add_empty_env_page e fault_va zeroed) (\<lambda>_. ret ())
         else raise (Panic msg)))))"

definition advance_WS :: "nat \<Rightarrow> uint32 \<Rightarrow> (kstate, unit) M" where
  "advance_WS e fault_va =
     bnd (get_env e) (\<lambda>env.
     seqm (env_page_ws_set_entry e (page_last_WS_index env) fault_va)
       (modify (upd_env e (\<lambda>v. v\<lparr>page_last_WS_index := (page_last_WS_index v + 1) mod page_WS_max_size v\<rparr>))))"

text \<open>The page at the last index leaves the memory; a modified page is written back first.\<close>

definition evict :: "nat \<Rightarrow> (kstate, unit) M" where
  "evict e =
     bnd (get_ws e) (\<lambda>env.
     let victim_va = ws_va (pageWorkingSet env (unat (page_last_WS_index env))); pgdir = env_page_directory env in
     bnd (get_frame_info pgdir victim_va) (\<lambda>(fi, _).
     bnd (pt_get_page_permissions e victim_va) (\<lambda>perm.
     seqm (whenM (perm AND PERM_MODIFIED \<noteq> 0)
             (bnd (deref fi) (\<lambda>fi. bnd (pf_update_env_page e victim_va fi) (\<lambda>_. ret ()))))
     (seqm (unmap_frame pgdir victim_va)
       (env_page_ws_clear_entry e (page_last_WS_index env))))))"

definition page_fault_handler :: "nat \<Rightarrow> uint32 \<Rightarrow> (kstate, unit) M" where
  "page_fault_handler e fault_va =
     bnd (env_page_ws_get_size e) (\<lambda>sz.
     bnd (get_env e) (\<lambda>env.
       if sz < page_WS_max_size env then
         bnd (allocate_frame kmalloc) (\<lambda>fi.
         seqm (bring_in e fault_va fi 0 ''invalid access in page file'') (advance_WS e fault_va))
       else
         seqm (evict e)
         (bnd (allocate_frame kmalloc) (\<lambda>fi.
          seqm (bring_in e fault_va fi 1 ''invalid access !!!..'') (advance_WS e fault_va)))))"

section \<open>The fault handler\<close>

definition table_fault_handler :: "nat \<Rightarrow> uint32 \<Rightarrow> (kstate, unit) M" where
  "table_fault_handler e fault_va =
     bnd (get_env e) (\<lambda>env. bnd (create_page_table kmalloc (env_page_directory env) fault_va) (\<lambda>_. ret ()))"

text \<open>The argument is the code segment selector of the trap frame, which tells user from kernel.\<close>

definition fault_handler :: "uint16 \<Rightarrow> (kstate, unit) M" where
  "fault_handler cs =
     bnd (gets cr2) (\<lambda>fault_va.
     seqm (if cs AND 3 \<noteq> 3
           then guard (\<not> (fault_va < KERNEL_STACK_TOP - KERNEL_STACK_SIZE \<and> USER_LIMIT \<le> fault_va))
                  (Panic ''Kernel: stack overflow exception!'')
           else guard (fault_va < USTACKTOP) (Panic ''User: stack underflow exception!''))
     (bnd (gets curenv) (\<lambda>c. bnd (deref c) (\<lambda>e. bnd (get_env e) (\<lambda>env.
      bnd (load (word_at (env_page_directory env) (PDX fault_va))) (\<lambda>pde.
      seqm
       (if pde AND PERM_PRESENT \<noteq> PERM_PRESENT then
          seqm (modify (upd_env e (\<lambda>v. v\<lparr>tableFaultsCounter := tableFaultsCounter v + 1\<rparr>)))
            (table_fault_handler e fault_va)
        else
          seqm (modify (upd_env e (\<lambda>v. v\<lparr>pageFaultsCounter := pageFaultsCounter v + 1\<rparr>)))
          (bnd isBufferingEnabled (\<lambda>b.
             if b \<noteq> 0 then raise (Panic ''this function is not required...!!'')
             else page_fault_handler e fault_va)))
       tlbflush))))))"

end
