(* ===== verification/Fault_Props.thy ===== *)
theory Fault_Props
  imports Fault
begin

text \<open>
  A fault on a page of the page file with a full working set: the handler returns, the page at the
  last index leaves the memory, the wanted page takes its place, and the index moves on.  Which page
  that is in the order of arrival is shown in Fault_Order.
\<close>

section \<open>Slots of the disk tables\<close>

lemma disk_slot_stable:
  assumes "disk_slot e va s = Some w" and "disk_env_pgdir (envs s' e) = disk_env_pgdir (envs s e)"
    and "kmem s' (word_at (disk_env_pgdir (envs s e)) (PDX va)) = kmem s (word_at (disk_env_pgdir (envs s e)) (PDX va))"
    and "number_of_frames s' = number_of_frames s"
    and "fi_va (frames_info s' (frame_of (kmem s (word_at (disk_env_pgdir (envs s e)) (PDX va))))) =
      fi_va (frames_info s (frame_of (kmem s (word_at (disk_env_pgdir (envs s e)) (PDX va)))))"
  shows "disk_slot e va s' = Some w"
proof -
  have "disk_table_of e va s' = disk_table_of e va s"
    using assms(2-5)
    by (auto simp: disk_table_of_def Let_def table_address_def kheap_virtual_address_def frame_of_def
        STATIC_KERNEL_VIRTUAL_ADDRESS_def split: sum.splits)
  with assms(1) show ?thesis by (simp add: disk_slot_def)
qed

section \<open>Rounded addresses\<close>

lemma PPN_ROUNDDOWN: "PPN (ROUNDDOWN va PAGE_SIZE) = PPN va"
proof -
  have "(unat va - unat va mod 4096) div 4096 = unat va div 4096"
    by (metis minus_mod_eq_mult_div nonzero_mult_div_cancel_left zero_neq_numeral)
  then show ?thesis
    by (intro word_unat_eq_iff[THEN iffD2]) (simp add: unat_PPN unat_ROUNDDOWN PAGE_SIZE_def)
qed

lemma PTX_ROUNDDOWN: "PTX (ROUNDDOWN va PAGE_SIZE) = PTX va"
  using PPN_ROUNDDOWN[of va] unfolding PTX_def PPN_def by simp

lemma PDX_ROUNDDOWN: "PDX (ROUNDDOWN va PAGE_SIZE) = PDX va"
proof -
  have "drop_bit 22 a = drop_bit 10 (PPN a)" for a :: uint32 by (simp add: PPN_def drop_bit_drop_bit)
  then show ?thesis unfolding PDX_def PPN_ROUNDDOWN by (metis PPN_ROUNDDOWN)
qed

lemma slot_ROUNDDOWN:
  assumes "va < USER_TOP"
  shows "slot pgdir va s = slot pgdir (ROUNDDOWN va PAGE_SIZE) s"
proof -
  have "unat (ROUNDDOWN va PAGE_SIZE) \<le> unat va" by (simp add: unat_ROUNDDOWN)
  then have "ROUNDDOWN va PAGE_SIZE < USER_TOP" using assms by (simp add: word_less_nat_alt)
  with assms have c: "\<not> CHECK_IF_KERNEL_ADDRESS va" "\<not> CHECK_IF_KERNEL_ADDRESS (ROUNDDOWN va PAGE_SIZE)"
    by (auto simp: CHECK_IF_KERNEL_ADDRESS_def)
  show ?thesis
    unfolding slot_def table_of_def Let_def table_address_def PTX_ROUNDDOWN PDX_ROUNDDOWN using c by simp
qed

section \<open>Entries\<close>

definition user_entry :: "nat \<Rightarrow> uint32" where
  "user_entry fi = CONSTRUCT_ENTRY (to_physical_address fi) ((PERM_USER OR PERM_WRITEABLE) OR PERM_PRESENT)"

lemma user_perms: "perm_bits (PERM_USER OR PERM_WRITEABLE)"
  by (simp add: perm_bits_def perm_defs)

lemma user_entry_facts:
  "user_entry fi AND NOT PERM_MODIFIED = user_entry fi" "user_entry fi \<noteq> 0"
  "fi < 2 ^ 20 \<Longrightarrow> frame_of (user_entry fi) = fi"
proof -
  let ?pa = "to_physical_address fi"
  have "?pa AND NOT 0xFFF = ?pa"
  proof -
    have "a = (a AND m) OR (a AND NOT m)" for a m :: uint32
      by (rule bit_word_eqI) (auto simp: bit_and_iff bit_or_iff bit_not_iff)
    from this[of ?pa "0xFFF"] show ?thesis using to_physical_address_aligned[of fi] by simp
  qed
  then have "?pa AND NOT 0x40 = (?pa AND NOT 0xFFF) AND NOT 0x40" by simp
  also have "\<dots> = ?pa AND (NOT 0xFFF AND NOT 0x40)" by (simp add: and.assoc)
  also have "\<dots> = ?pa AND NOT 0xFFF" by simp
  finally have "?pa AND NOT 0x40 = ?pa" using \<open>?pa AND NOT 0xFFF = ?pa\<close> by simp
  then show "user_entry fi AND NOT PERM_MODIFIED = user_entry fi"
    by (simp add: user_entry_def CONSTRUCT_ENTRY_def bit.conj_disj_distrib2 perm_defs PERM_MODIFIED_def)
  show "user_entry fi \<noteq> 0" unfolding user_entry_def by (rule entry_nonzero[OF entry_present])
  show "fi < 2 ^ 20 \<Longrightarrow> frame_of (user_entry fi) = fi"
    unfolding user_entry_def by (rule frame_of_entry[OF perm_bits_present[OF user_perms]])
qed

section \<open>Loading a page\<close>

text \<open>
  A page that is in the page file and not in memory: its page table exists and holds a zero word
  at \<open>u\<close>, its disk table holds a disk frame at \<open>w\<close>.
\<close>

definition page_out :: "nat \<Rightarrow> uint32 \<Rightarrow> uint32 \<Rightarrow> uint32 \<Rightarrow> kstate \<Rightarrow> bool" where
  "page_out e va u w s \<longleftrightarrow>
     (let pgdir = env_page_directory (envs s e); dir = disk_env_pgdir (envs s e); A = ROUNDDOWN va PAGE_SIZE in
      va < USER_TOP \<and> slot pgdir A s = Some u \<and> kmem s u = 0 \<and> disk_slot e A s = Some w \<and> kmem s w \<noteq> 0 \<and>
      u \<noteq> w \<and> u \<noteq> word_at pgdir (PDX A) \<and> u \<noteq> word_at dir (PDX A) \<and> disk_error s (disk_sector (kmem s w)) = 0)"

text \<open>The frames of its page table and of its disk table.\<close>

definition table_frames :: "nat \<Rightarrow> uint32 \<Rightarrow> kstate \<Rightarrow> nat set" where
  "table_frames e va s = {frame_of (kmem s (word_at (env_page_directory (envs s e)) (PDX va))),
     frame_of (kmem s (word_at (disk_env_pgdir (envs s e)) (PDX va)))}"

lemma bring_in_spec:
  assumes out: "page_out e va u w s" and cur: "curenv s = Some e"
    and fi: "fi < unat (number_of_frames s)" "fi < 2 ^ 20" "fi \<notin> table_frames e va s"
  shows "\<exists>s'. bring_in e va fi z msg s = Inr ((), s') \<and> kmem s' = (kmem s)(u := user_entry fi) \<and>
    frame_data s' = (frame_data s)(fi := disk_data s (unat (kmem s w))) \<and> envs s' = envs s \<and>
    free_frame_list s' = free_frame_list s \<and> time s' = time s \<and> disk_data s' = disk_data s"
proof -
  let ?P = "env_page_directory (envs s e)" and ?D = "disk_env_pgdir (envs s e)" and ?A = "ROUNDDOWN va PAGE_SIZE"
  from out have o: "va < USER_TOP" "slot ?P ?A s = Some u" "kmem s u = 0" "disk_slot e ?A s = Some w" "kmem s w \<noteq> 0"
    "u \<noteq> w" "u \<noteq> word_at ?P (PDX ?A)" "u \<noteq> word_at ?D (PDX ?A)" "disk_error s (disk_sector (kmem s w)) = 0"
    by (simp_all add: page_out_def Let_def)
  have AK: "?A < KERNEL_BASE"
  proof -
    have "unat ?A \<le> unat va" by (simp add: unat_ROUNDDOWN)
    then show ?thesis using o(1) by (simp add: word_less_nat_alt layout_defs)
  qed
  let ?s1 = "(inc_ref fi va s)\<lparr>kmem := (kmem s)(u := user_entry fi)\<rparr>"
  have np: "\<not> kmem s u AND PERM_PRESENT = PERM_PRESENT" using o(3) by (auto simp: PERM_PRESENT_def)
  have run1: "map_frame kmalloc ?P fi va (PERM_USER OR PERM_WRITEABLE) s = Inr ((), ?s1)"
    using map_frame_slot[OF o(2)[folded slot_ROUNDDOWN[OF o(1)]] fi(2), of kmalloc "PERM_USER OR PERM_WRITEABLE"] np
    by (simp add: user_entry_def)
  have e1: "envs ?s1 = envs s" by (simp add: inc_ref_def)
  have f1: "fi_va (frames_info ?s1 f) = fi_va (frames_info s f)" if "f \<in> table_frames e va s" for f
    using that fi(3) by (auto simp: inc_ref_def)
  have sl: "slot ?P ?A ?s1 = Some u"
    by (rule slot_stable[OF o(2)]) (use o(7) f1 in \<open>simp_all add: table_frames_def PDX_ROUNDDOWN\<close>)
  have ds: "disk_slot e ?A ?s1 = Some w"
    by (rule disk_slot_stable[OF o(4)]) (use o(8) f1 e1 in \<open>simp_all add: table_frames_def PDX_ROUNDDOWN\<close>)
  have w1: "kmem ?s1 w = kmem s w" and d1: "disk_data ?s1 = disk_data s" "disk_error ?s1 = disk_error s" "curenv ?s1 = curenv s"
      "frame_data ?s1 = frame_data s" "time ?s1 = time s"
    using o(6) by (simp_all add: inc_ref_def upd_frame_def)
  have "\<exists>s'. pf_read_env_page e va ?s1 = Inr (0, s') \<and>
    frame_data s' = (frame_data ?s1)(frame_of (kmem ?s1 u) := disk_data ?s1 (unat (kmem ?s1 w))) \<and>
    kmem s' = (kmem ?s1)(u := kmem ?s1 u AND NOT PERM_MODIFIED) \<and> disk_data s' = disk_data ?s1 \<and>
    envs s' = envs ?s1 \<and> free_frame_list s' = free_frame_list ?s1 \<and> time s' = time ?s1 \<and> frames_info s' = frames_info ?s1"
    by (rule pf_read_env_page_spec[OF refl AK ds])
      (use cur o w1 d1 e1 sl fi user_entry_facts in simp_all)
  then obtain s' where s': "pf_read_env_page e va ?s1 = Inr (0, s')"
    "frame_data s' = (frame_data s)(fi := disk_data s (unat (kmem s w)))" "kmem s' = (kmem s)(u := user_entry fi)"
    "envs s' = envs s" "free_frame_list s' = free_frame_list s" "time s' = time s" "disk_data s' = disk_data s"
    using w1 d1 e1 fi user_entry_facts by auto
  then show ?thesis using run1 by (simp add: bring_in_def get_env_def bnd_apply seqm_def)
qed

section \<open>Evicting a page\<close>

lemma pt_get_page_permissions_present:
  assumes "slot (env_page_directory (envs s e)) va s = Some u"
  shows "pt_get_page_permissions e va s = Inr (kmem s u AND 0xFFF, s)"
proof -
  let ?pd = "env_page_directory (envs s e)"
  from slotE[OF assms] obtain pt where pt: "table_of ?pd va s = Some pt" "u = word_at pt (PTX va)" "PAGE_SIZE \<le> u" by metis
  then obtain s' where d: "\<not> word_at ?pd (PDX va) < PAGE_SIZE"
    "kmem s (word_at ?pd (PDX va)) AND PERM_PRESENT = PERM_PRESENT"
    "table_address va (kmem s (word_at ?pd (PDX va))) s = Inr (pt, s')"
    by (auto simp: table_of_def Let_def split: if_splits sum.splits)
  moreover from this table_address_state have "s' = s" by blast
  ultimately show ?thesis
    using pt(2,3) by (simp add: pt_get_page_permissions_def get_env_def bnd_apply load_def not_less)
qed

text \<open>The page at the last index of the working set, its entry at \<open>v\<close> and whether it is modified.\<close>

definition victim :: "nat \<Rightarrow> kstate \<Rightarrow> uint32" where
  "victim e s = ws_va (pageWorkingSet (envs s e) (unat (page_last_WS_index (envs s e))))"

definition dirty :: "uint32 \<Rightarrow> kstate \<Rightarrow> bool" where
  "dirty v s \<longleftrightarrow> kmem s v AND PERM_MODIFIED \<noteq> 0"

text \<open>
  The working set has a last index, its page is mapped at \<open>v\<close> to a frame that no other page uses,
  and when it is modified it can be written back: it has a disk frame at \<open>wv\<close>, and the temporary
  page at \<open>USER_LIMIT\<close> is free.
\<close>

definition evictable :: "nat \<Rightarrow> uint32 \<Rightarrow> uint32 \<Rightarrow> uint32 \<Rightarrow> kstate \<Rightarrow> bool" where
  "evictable e v wv t s \<longleftrightarrow>
     (let env = envs s e; pgdir = env_page_directory env; V = victim e s; f = frame_of (kmem s v) in
      ptr_pageWorkingSet env \<noteq> 0 \<and> page_last_WS_index env < page_WS_max_size env \<and>
      slot pgdir V s = Some v \<and> kmem s v \<noteq> 0 \<and> f < unat (number_of_frames s) \<and> references (frames_info s f) = 1 \<and>
      (dirty v s \<longrightarrow> V < KERNEL_BASE \<and> disk_slot e V s = Some wv \<and> kmem s wv \<noteq> 0 \<and>
        slot pgdir USER_LIMIT s = Some t \<and> kmem s t = 0 \<and> t \<noteq> word_at pgdir (PDX USER_LIMIT) \<and>
        disk_error s (disk_sector (kmem s wv)) = 0 \<and>
        f \<noteq> frame_of (kmem s (word_at pgdir (PDX V)))))"

definition clear_last :: "nat \<Rightarrow> Env \<Rightarrow> Env" where
  "clear_last i v = v\<lparr>pageWorkingSet := (pageWorkingSet v)(i := empty_ws)\<rparr>"

lemma evict_spec:
  assumes ev: "evictable e v wv t s" and cur: "curenv s = Some e"
  shows "\<exists>s'. evict e s = Inr ((), s') \<and> kmem s' = (kmem s)(v := 0) \<and> frame_data s' = frame_data s \<and>
    free_frame_list s' = frame_of (kmem s v) # free_frame_list s \<and>
    frames_info s' (frame_of (kmem s v)) = zero_frame_info \<and>
    (\<forall>g. g \<noteq> frame_of (kmem s v) \<longrightarrow> frames_info s' g = frames_info s g) \<and>
    disk_data s' = (if dirty v s then (disk_data s)(unat (kmem s wv) := frame_data s (frame_of (kmem s v))) else disk_data s) \<and>
    envs s' = (envs s)(e := clear_last (unat (page_last_WS_index (envs s e))) (envs s e)) \<and>
    curenv s' = Some e \<and> number_of_frames s' = number_of_frames s \<and> disk_error s' = disk_error s \<and> time s' = time s"
proof -
  let ?env = "envs s e" and ?f = "frame_of (kmem s v)" and ?V = "victim e s" and ?i = "page_last_WS_index (envs s e)"
  let ?P = "env_page_directory ?env"
  from ev have h: "ptr_pageWorkingSet ?env \<noteq> 0" "?i < page_WS_max_size ?env" "slot ?P ?V s = Some v" "kmem s v \<noteq> 0"
    "?f < unat (number_of_frames s)" "references (frames_info s ?f) = 1"
    and d: "dirty v s \<Longrightarrow> ?V < KERNEL_BASE \<and> disk_slot e ?V s = Some wv \<and> kmem s wv \<noteq> 0 \<and>
        slot ?P USER_LIMIT s = Some t \<and> kmem s t = 0 \<and> t \<noteq> word_at ?P (PDX USER_LIMIT) \<and>
        disk_error s (disk_sector (kmem s wv)) = 0 \<and> ?f \<noteq> frame_of (kmem s (word_at ?P (PDX ?V)))"
    by (simp_all add: evictable_def Let_def)
  obtain pt where gfi: "get_frame_info ?P ?V s = Inr ((Some ?f, pt), s)"
    by (rule get_frame_info_slot[OF h(3)]) (use h(4,5) in simp_all)
  note perm = pt_get_page_permissions_present[OF h(3)]
  have pd: "((kmem s v AND 0xFFF) AND PERM_MODIFIED \<noteq> 0) = dirty v s"
  proof -
    have "(kmem s v AND 0xFFF) AND PERM_MODIFIED = kmem s v AND (0xFFF AND PERM_MODIFIED)" by (simp add: and.assoc)
    then show ?thesis by (simp add: dirty_def PERM_MODIFIED_def)
  qed
  define wb where "wb = whenM (dirty v s) (bnd (deref (Some ?f)) (\<lambda>fi. bnd (pf_update_env_page e ?V fi) (\<lambda>_. ret ())))"
  have run: "evict e s = seqm wb (seqm (unmap_frame ?P ?V) (env_page_ws_clear_entry e ?i)) s"
    using h(1) gfi perm pd
    by (simp add: evict_def get_ws_def get_env_def seqm_def bnd_apply victim_def[symmetric] Let_def wb_def)
  have "\<exists>s1. wb s = Inr ((), s1) \<and> kmem s1 = kmem s \<and> frame_data s1 = frame_data s \<and> free_frame_list s1 = free_frame_list s \<and>
    references (frames_info s1 ?f) = 1 \<and> (\<forall>g. g \<noteq> ?f \<longrightarrow> frames_info s1 g = frames_info s g) \<and>
    disk_data s1 = (if dirty v s then (disk_data s)(unat (kmem s wv) := frame_data s ?f) else disk_data s) \<and>
    envs s1 = envs s \<and> curenv s1 = Some e \<and> number_of_frames s1 = number_of_frames s \<and> disk_error s1 = disk_error s \<and> time s1 = time s
    \<and> slot ?P ?V s1 = Some v"
  proof (cases "dirty v s")
    case False
    then show ?thesis using h cur by (simp add: wb_def)
  next
    case True
    from d[OF True] have w: "?V < KERNEL_BASE" "disk_slot e ?V s = Some wv" "kmem s wv \<noteq> 0" "slot ?P USER_LIMIT s = Some t"
      "kmem s t = 0" "t \<noteq> word_at ?P (PDX USER_LIMIT)" "disk_error s (disk_sector (kmem s wv)) = 0"
      "?f \<noteq> frame_of (kmem s (word_at ?P (PDX ?V)))" by simp_all
    have r: "references (frames_info s ?f) \<noteq> 65535" using h(6) by simp
    from write_back_full[OF cur refl w(4-6) h(5) frame_of_less r w(7)] obtain s1 where s1:
      "write_back e (kmem s wv) ?f s = Inr (0, s1)" "disk_data s1 = (disk_data s)(unat (kmem s wv) := frame_data s ?f)"
      "kmem s1 = kmem s" "frame_data s1 = frame_data s" "free_frame_list s1 = free_frame_list s"
      "references (frames_info s1 ?f) = references (frames_info s ?f)" "envs s1 = envs s" "time s1 = time s"
      "number_of_frames s1 = number_of_frames s" "curenv s1 = curenv s" "disk_error s1 = disk_error s"
      "\<forall>g. g \<noteq> ?f \<longrightarrow> frames_info s1 g = frames_info s g" by blast
    have "slot ?P ?V s1 = Some v" by (rule slot_stable[OF h(3)]) (use s1 w(8) in auto)
    moreover have "wb s = Inr ((), s1)"
      using True s1(1) by (simp add: wb_def pf_update_env_page_spec[OF w(1-3)] bnd_apply)
    ultimately show ?thesis using s1 True cur h(6) by auto
  qed
  then obtain s1 where s1: "wb s = Inr ((), s1)" "kmem s1 = kmem s" "frame_data s1 = frame_data s" "free_frame_list s1 = free_frame_list s"
    "references (frames_info s1 ?f) = 1" "\<forall>g. g \<noteq> ?f \<longrightarrow> frames_info s1 g = frames_info s g"
    "disk_data s1 = (if dirty v s then (disk_data s)(unat (kmem s wv) := frame_data s ?f) else disk_data s)"
    "envs s1 = envs s" "curenv s1 = Some e" "number_of_frames s1 = number_of_frames s" "disk_error s1 = disk_error s" "time s1 = time s"
    "slot ?P ?V s1 = Some v" by blast
  define s2 where "s2 = emit (Tlb_invalidate ?V) ((dec_ref ?f s1)\<lparr>kmem := (kmem s)(v := 0)\<rparr>)"
  have "unmap_frame ?P ?V s1 = Inr ((), s2)"
    using unmap_frame_slot[OF s1(13)] s1(2,10) h(4,5) by (simp add: s2_def)
  moreover have e2: "envs s2 e = ?env" using s1(5,8) by (simp add: s2_def dec_ref_def)
  have "env_page_ws_clear_entry e ?i s2 = Inr ((), upd_ws e (unat ?i) (\<lambda>_. empty_ws) s2)"
    using h(1,2) by (simp add: env_page_ws_clear_entry_def get_env_def get_ws_def seqm_def bnd_apply e2)
  ultimately have "evict e s = Inr ((), upd_ws e (unat ?i) (\<lambda>_. empty_ws) s2)"
    using run s1(1) by (simp add: seqm_def bnd_apply)
  then show ?thesis
    using s1 by (auto simp: s2_def dec_ref_def upd_ws_def upd_env_def emit_def clear_last_def)
qed

section \<open>The ring\<close>

definition ws_full :: "nat \<Rightarrow> kstate \<Rightarrow> bool" where
  "ws_full e s \<longleftrightarrow> (\<forall>i<unat (page_WS_max_size (envs s e)). ws_empty (pageWorkingSet (envs s e) i) = 0)"

text \<open>The pages of a full working set in the order of the array, from the last index on and around its end.\<close>

definition ring :: "nat \<Rightarrow> kstate \<Rightarrow> uint32 list" where
  "ring e s = (let env = envs s e; n = unat (page_WS_max_size env) in
     map (\<lambda>k. ws_va (pageWorkingSet env ((unat (page_last_WS_index env) + k) mod n))) [0..<n])"

lemma ws_full_size:
  assumes "ws_full e s" and "ptr_pageWorkingSet (envs s e) \<noteq> 0"
  shows "env_page_ws_get_size e s = Inr (page_WS_max_size (envs s e), s)"
proof -
  have "used_entries (pageWorkingSet (envs s e)) (unat (page_WS_max_size (envs s e))) = [0..<unat (page_WS_max_size (envs s e))]"
    using assms(1) by (simp add: used_entries_def ws_full_def)
  then show ?thesis
    using assms(2) by (simp add: env_page_ws_get_size_def get_env_def get_ws_def bnd_apply seqm_def)
qed

text \<open>Replacing the entry at the last index and moving the index on rotates the list.\<close>

lemma rotate_ring:
  fixes g :: "nat \<Rightarrow> uint32"
  assumes "i < n"
  shows "map (\<lambda>k. (g(i := x)) (((i + 1) mod n + k) mod n)) [0..<n] = List.tl (map (\<lambda>k. g ((i + k) mod n)) [0..<n]) @ [x]"
proof (rule nth_equalityI)
  fix k assume "k < length (map (\<lambda>k. (g(i := x)) (((i + 1) mod n + k) mod n)) [0..<n])"
  then have k: "k < n" by simp
  have e: "((i + 1) mod n + k) mod n = (i + Suc k) mod n" by (simp add: mod_add_left_eq)
  show "map (\<lambda>k. (g(i := x)) (((i + 1) mod n + k) mod n)) [0..<n] ! k = (List.tl (map (\<lambda>k. g ((i + k) mod n)) [0..<n]) @ [x]) ! k"
  proof (cases "Suc k = n")
    case True
    then have "(i + Suc k) mod n = i" using assms by simp
    moreover have "\<not> k < n - Suc 0" using True by simp
    ultimately show ?thesis using k e by (simp add: nth_append)
  next
    case False
    with k have s: "Suc k < n" by simp
    have "(i + Suc k) mod n \<noteq> i"
    proof (cases "i + Suc k < n")
      case False
      then have "(i + Suc k) mod n = i + Suc k - n" using assms s by (simp add: le_mod_geq)
      then show ?thesis using False s by simp
    qed simp
    moreover have "k < n - Suc 0" using s by simp
    ultimately show ?thesis using k e s by (simp add: nth_append nth_tl)
  qed
qed (use assms in simp)

lemma advance_WS_spec:
  assumes "page_last_WS_index (envs s e) < page_WS_max_size (envs s e)" and "va < USER_TOP"
    and "ptr_pageWorkingSet (envs s e) \<noteq> 0"
  shows "\<exists>s'. advance_WS e va s = Inr ((), s') \<and> kmem s' = kmem s \<and> frame_data s' = frame_data s \<and>
    free_frame_list s' = free_frame_list s \<and> disk_data s' = disk_data s \<and>
    page_last_WS_index (envs s' e) = (page_last_WS_index (envs s e) + 1) mod page_WS_max_size (envs s e) \<and>
    page_WS_max_size (envs s' e) = page_WS_max_size (envs s e) \<and>
    pageWorkingSet (envs s' e) = (pageWorkingSet (envs s e))(unat (page_last_WS_index (envs s e)) :=
      \<lparr>ws_va = ROUNDDOWN va PAGE_SIZE, ws_empty = 0, time_stamp = time s\<rparr>)"
  using assms
  by (simp add: advance_WS_def env_page_ws_set_entry_def get_env_def get_ws_def bnd_apply seqm_def upd_ws_def upd_env_def)

lemma ring_advanced:
  assumes lt: "page_last_WS_index (envs s e) < page_WS_max_size (envs s e)"
    and i: "page_last_WS_index (envs s' e) = (page_last_WS_index (envs s e) + 1) mod page_WS_max_size (envs s e)"
    and m: "page_WS_max_size (envs s' e) = page_WS_max_size (envs s e)"
    and ws: "\<forall>j. ws_va (pageWorkingSet (envs s' e) j) =
      (if j = unat (page_last_WS_index (envs s e)) then x else ws_va (pageWorkingSet (envs s e) j))"
  shows "ring e s' = List.tl (ring e s) @ [x]"
proof -
  let ?i = "page_last_WS_index (envs s e)" and ?m = "page_WS_max_size (envs s e)"
  have "unat (?i + 1) = unat ?i + 1"
    using lt unsigned_less[of ?m, where 'a = nat] by (simp add: unat_word_ariths(1) word_less_nat_alt)
  then have ui: "unat ((?i + 1) mod ?m) = (unat ?i + 1) mod unat ?m" by (simp add: unat_mod_distrib)
  have "unat ?i < unat ?m" using lt by (simp add: word_less_nat_alt)
  from rotate_ring[OF this, of "\<lambda>j. ws_va (pageWorkingSet (envs s e) j)" x] show ?thesis
    by (simp add: ring_def Let_def i m ui ws fun_upd_apply)
qed

text \<open>A fault on a page of the page file, with a full working set: the page at the last index leaves the
  working set and the faulted page becomes the last of the ring; the victim's entry is cleared, its contents
  are in its disk frame when it was modified, and its frame now holds the wanted page, mapped for the user.
  The free frames are as before.\<close>

theorem page_fault_replaces:
  assumes "curenv s = Some e" and "ws_full e s" and "evictable e v wv t s" and "page_out e va u w s"
    and "v \<noteq> u" and "v \<noteq> w" and "v \<noteq> word_at (env_page_directory (envs s e)) (PDX va)"
    and "v \<noteq> word_at (disk_env_pgdir (envs s e)) (PDX va)"
    and "frame_of (kmem s v) \<notin> table_frames e va s" and "kmem s wv \<noteq> kmem s w"
  shows "\<exists>s'. page_fault_handler e va s = Inr ((), s') \<and>
    ring e s' = List.tl (ring e s) @ [ROUNDDOWN va PAGE_SIZE] \<and>
    kmem s' = (kmem s)(v := 0, u := user_entry (frame_of (kmem s v))) \<and>
    frame_data s' = (frame_data s)(frame_of (kmem s v) := disk_data s (unat (kmem s w))) \<and>
    disk_data s' = (if dirty v s then (disk_data s)(unat (kmem s wv) := frame_data s (frame_of (kmem s v)))
      else disk_data s) \<and>
    free_frame_list s' = free_frame_list s"
proof -
  let ?env = "envs s e" and ?f = "frame_of (kmem s v)" and ?i = "page_last_WS_index (envs s e)" and ?A = "ROUNDDOWN va PAGE_SIZE"
  let ?P = "env_page_directory ?env" and ?D = "disk_env_pgdir ?env"
  from assms(3) have h: "ptr_pageWorkingSet ?env \<noteq> 0" "?i < page_WS_max_size ?env" "?f < unat (number_of_frames s)"
    by (simp_all add: evictable_def Let_def)
  from assms(4) have o: "va < USER_TOP" "slot ?P ?A s = Some u" "kmem s u = 0" "disk_slot e ?A s = Some w" "kmem s w \<noteq> 0"
    "u \<noteq> w" "u \<noteq> word_at ?P (PDX ?A)" "u \<noteq> word_at ?D (PDX ?A)" "disk_error s (disk_sector (kmem s w)) = 0"
    by (simp_all add: page_out_def Let_def)
  from evict_spec[OF assms(3,1)] obtain s1 where s1: "evict e s = Inr ((), s1)" "kmem s1 = (kmem s)(v := 0)"
    "frame_data s1 = frame_data s" "free_frame_list s1 = ?f # free_frame_list s" "frames_info s1 ?f = zero_frame_info"
    "\<forall>g. g \<noteq> ?f \<longrightarrow> frames_info s1 g = frames_info s g"
    "disk_data s1 = (if dirty v s then (disk_data s)(unat (kmem s wv) := frame_data s ?f) else disk_data s)"
    "envs s1 = (envs s)(e := clear_last (unat ?i) ?env)" "curenv s1 = Some e" "number_of_frames s1 = number_of_frames s"
    "disk_error s1 = disk_error s" "time s1 = time s" by blast
  define s2 where "s2 = (upd_frame ?f (\<lambda>_. zero_frame_info) s1)\<lparr>free_frame_list := free_frame_list s\<rparr>"
  have al: "allocate_frame kmalloc s1 = Inr (?f, s2)"
    using s1(4,5) by (simp add: allocate_frame_def bnd_apply seqm_def initialize_frame_info_def upd_frame_def s2_def zero_frame_info_def)
  have e2: "env_page_directory (envs s2 e) = ?P" "disk_env_pgdir (envs s2 e) = ?D" "ptr_pageWorkingSet (envs s2 e) = ptr_pageWorkingSet ?env"
    "page_last_WS_index (envs s2 e) = ?i" "page_WS_max_size (envs s2 e) = page_WS_max_size ?env"
    "pageWorkingSet (envs s2 e) = (pageWorkingSet ?env)(unat ?i := empty_ws)"
    by (simp_all add: s2_def upd_frame_def s1(8) clear_last_def)
  have s2f: "kmem s2 = (kmem s)(v := 0)" "frame_data s2 = frame_data s" "free_frame_list s2 = free_frame_list s"
    "disk_data s2 = disk_data s1" "curenv s2 = Some e" "number_of_frames s2 = number_of_frames s" "disk_error s2 = disk_error s"
    using s1 by (simp_all add: s2_def upd_frame_def)
  have va2: "fi_va (frames_info s2 g) = fi_va (frames_info s g)" if "g \<in> table_frames e va s" for g
    using that assms(9) s1(6) by (auto simp: s2_def upd_frame_def)
  have sl: "slot ?P ?A s2 = Some u"
    by (rule slot_stable[OF o(2)]) (use assms(7) va2 s2f in \<open>simp_all add: table_frames_def PDX_ROUNDDOWN\<close>)
  have ds: "disk_slot e ?A s2 = Some w"
    by (rule disk_slot_stable[OF o(4)]) (use assms(8) va2 s2f e2 in \<open>simp_all add: table_frames_def PDX_ROUNDDOWN\<close>)
  have out: "page_out e va u w s2"
    using o sl ds assms(5,6) by (simp add: page_out_def Let_def e2 s2f)
  have tf: "?f \<notin> table_frames e va s2"
    using assms(7-9) by (simp add: table_frames_def e2 s2f)
  from bring_in_spec[OF out s2f(5) _ frame_of_less tf, of 1 "''invalid access !!!..''"] h(3) s2f(6) obtain s3 where s3:
    "bring_in e va ?f 1 ''invalid access !!!..'' s2 = Inr ((), s3)" "kmem s3 = (kmem s2)(u := user_entry ?f)"
    "frame_data s3 = (frame_data s2)(?f := disk_data s2 (unat (kmem s2 w)))" "envs s3 = envs s2"
    "free_frame_list s3 = free_frame_list s2" "time s3 = time s2" "disk_data s3 = disk_data s2" by auto
  from advance_WS_spec[of s3 e va] h(1,2) o(1) s3(4) e2 obtain s4 where s4:
    "advance_WS e va s3 = Inr ((), s4)" "kmem s4 = kmem s3" "frame_data s4 = frame_data s3"
    "free_frame_list s4 = free_frame_list s3" "disk_data s4 = disk_data s3"
    "page_last_WS_index (envs s4 e) = (?i + 1) mod page_WS_max_size ?env" "page_WS_max_size (envs s4 e) = page_WS_max_size ?env"
    "pageWorkingSet (envs s4 e) = (pageWorkingSet ?env)(unat ?i := empty_ws,
      unat ?i := \<lparr>ws_va = ROUNDDOWN va PAGE_SIZE, ws_empty = 0, time_stamp = time s3\<rparr>)" by auto
  have "page_fault_handler e va s = Inr ((), s4)"
    using ws_full_size[OF assms(2) h(1)] s1(1) al s3(1) s4(1)
    by (simp add: page_fault_handler_def bnd_apply seqm_def get_env_def)
  moreover have "ring e s4 = List.tl (ring e s) @ [?A]"
    by (rule ring_advanced[OF h(2) s4(6,7)]) (simp add: s4(8))
  moreover have "unat (kmem s wv) \<noteq> unat (kmem s w)" using assms(10) unfolding word_unat_eq_iff .
  ultimately show ?thesis
    using s4(2-5) s3(2,3,5,7) s2f s1(7) assms(6) by auto
qed

text \<open>The swap machine with a working set of one page, the modified page 0x800000, and page
  0x801000 in disk frame 6.\<close>

definition full_machine :: kstate where
  "full_machine = swap_machine\<lparr>envs := (\<lambda>_. swap_env\<lparr>page_WS_max_size := 1, ptr_pageWorkingSet := 0xF6003000,
       pageWorkingSet := (\<lambda>_. \<lparr>ws_va = 0x800000, ws_empty = 0, time_stamp = 0\<rparr>)\<rparr>),
     kmem := (kmem swap_machine)(0xF6002004 := 6)\<rparr>"

lemma full_machine_faults:
  "curenv full_machine = Some 0" "ws_full 0 full_machine" "ROUNDDOWN 0x801123 PAGE_SIZE = (0x801000 :: uint32)"
  "ring 0 full_machine = [0x800000]" "dirty 0xF6000000 full_machine"
  "evictable 0 0xF6000000 0xF6002000 0xF0301000 full_machine" "page_out 0 0x801123 0xF6000004 0xF6002004 full_machine"
  "(0xF6000000 :: uint32) \<noteq> word_at (env_page_directory (envs full_machine 0)) (PDX 0x801123)"
  "(0xF6000000 :: uint32) \<noteq> word_at (disk_env_pgdir (envs full_machine 0)) (PDX 0x801123)"
  "frame_of (kmem full_machine 0xF6000000) \<notin> table_frames 0 0x801123 full_machine"
  "kmem full_machine 0xF6002000 \<noteq> kmem full_machine 0xF6002004"
proof -
  show r: "ROUNDDOWN 0x801123 PAGE_SIZE = (0x801000 :: uint32)" by (simp add: ROUNDDOWN_def PAGE_SIZE_def)
  show "ring 0 full_machine = [0x800000]" by (simp add: ring_def full_machine_def Let_def)
  show "dirty 0xF6000000 full_machine" by (simp add: dirty_def full_machine_def swap_machine_def PERM_MODIFIED_def)
  have V: "victim 0 full_machine = 0x800000" by (simp add: victim_def full_machine_def)
  note ev = full_machine_def swap_eval frame_of_def
  show "evictable 0 0xF6000000 0xF6002000 0xF0301000 full_machine"
    unfolding evictable_def Let_def V by (simp add: ev zero_env_def zero_kstate_def)
  show "page_out 0 0x801123 0xF6000004 0xF6002004 full_machine"
    unfolding page_out_def Let_def r by (simp add: ev zero_env_def zero_kstate_def)
qed (simp_all add: full_machine_def swap_eval frame_of_def zero_env_def zero_kstate_def ws_full_def table_frames_def)

end
