(* ===== verification/Loader.thy ===== *)
theory Loader
  imports Sched
begin

text \<open>
  Loading a program, \<open>env_create\<close> of kern/user_environment.c.  The images of the programs are
  made by the build: where each starts and what its header says is a parameter, its bytes are in
  the memory of the kernel.  While it loads, the kernel runs on the page directory of the new
  environment, so user addresses are translated there.
\<close>

section \<open>Bytes\<close>

definition get_byte :: "uint32 \<Rightarrow> nat \<Rightarrow> uint8" where
  "get_byte w k = ucast (drop_bit (8 * k) w)"

definition put_byte :: "uint32 \<Rightarrow> nat \<Rightarrow> uint8 \<Rightarrow> uint32" where
  "put_byte w k b = (w AND NOT (push_bit (8 * k) 0xFF)) OR push_bit (8 * k) (ucast b)"

definition load_byte :: "uint32 \<Rightarrow> (kstate, uint8) M" where
  "load_byte a = bnd (load (a AND NOT 3)) (\<lambda>w. ret (get_byte w (unat (a AND 3))))"

definition store_byte :: "uint32 \<Rightarrow> uint8 \<Rightarrow> (kstate, unit) M" where
  "store_byte a b = bnd (load (a AND NOT 3)) (\<lambda>w. store (a AND NOT 3) (put_byte w (unat (a AND 3)) b))"

text \<open>The frame a user address is mapped to in a page directory.\<close>

definition frame_at :: "uint32 \<Rightarrow> uint32 \<Rightarrow> (kstate, nat) M" where
  "frame_at pgdir va =
     bnd (get_frame_info pgdir va) (\<lambda>(fi, _). case fi of None \<Rightarrow> raise BadAddress | Some f \<Rightarrow> ret f)"

definition store_user_byte :: "uint32 \<Rightarrow> uint32 \<Rightarrow> uint8 \<Rightarrow> (kstate, unit) M" where
  "store_user_byte pgdir va b =
     bnd (frame_at pgdir va) (\<lambda>f. let i = unat (PGOFF va) div 4; k = unat (va AND 3) in
       modify (\<lambda>s. s\<lparr>frame_data := (frame_data s)(f := (frame_data s f)(i := put_byte (frame_data s f i) k b))\<rparr>))"

section \<open>The pages of a segment in memory\<close>

definition load_page :: "nat \<Rightarrow> uint32 \<Rightarrow> uint32 \<Rightarrow> (kstate, uint32) M" where
  "load_page e iVA lastTableNumber =
     bnd (allocate_frame kmalloc) (\<lambda>p.
     bnd (get_env e) (\<lambda>env.
     seqm (loadtime_map_frame kmalloc (env_page_directory env) p iVA (PERM_USER OR PERM_WRITEABLE))
     (bnd (get_ws e) (\<lambda>env. let i = page_last_WS_index env in
      seqm (guard (i < page_WS_max_size env) OutOfBounds)
      (seqm (modify (upd_ws e (unat i) (\<lambda>_. \<lparr>ws_va = iVA, ws_empty = 0, time_stamp = 0\<rparr>)))
      (seqm (modify (upd_env e (\<lambda>v. v\<lparr>page_last_WS_index := (i + 1) mod page_WS_max_size v\<rparr>)))
        (if PDX iVA \<noteq> lastTableNumber then
           seqm (addTableToTableWorkingSet e (table_start iVA))
           (bnd (get_env e) (\<lambda>env.
            seqm (guard (table_last_WS_index env \<noteq> 0) (Panic ''env_create: Table working set become FULL''))
              (ret (PDX iVA))))
         else ret lastTableNumber)))))))"

text \<open>Returns the number of pages and the number of the last table.\<close>

definition program_segment_alloc_map_copy_workingset ::
  "nat \<Rightarrow> ProgramSegment \<Rightarrow> uint32 \<Rightarrow> uint32 \<Rightarrow> (kstate, uint32 \<times> uint32) M" where
  "program_segment_alloc_map_copy_workingset e seg remaining lastTableNumber =
     bnd (get_env e) (\<lambda>env.
     let vaddr = virtual_address seg; pgdir = env_page_directory env;
         start = ROUNDDOWN vaddr PAGE_SIZE; end_vaddr = ROUNDUP (vaddr + size_in_memory seg) PAGE_SIZE;
         remaining = (if start = 0x200000 \<and> prog_name env \<noteq> ''tpp'' then min remaining 6 else remaining);
         n = min ((unat end_vaddr - unat start) div unat PAGE_SIZE) (unat remaining);
         limit = start + of_nat n * PAGE_SIZE;
         copied = unat (min limit (vaddr + size_in_file seg)) - unat vaddr
     in bnd (acc_n n 0 (\<lambda>i lt. load_page e (start + of_nat i * PAGE_SIZE) lt) lastTableNumber) (\<lambda>lastTableNumber.
        seqm (for_n copied 0 (\<lambda>k. bnd (load_byte (ptr_start seg + of_nat k)) (store_user_byte pgdir (vaddr + of_nat k))))
        (seqm (for_n (unat limit - (unat vaddr + copied)) 0 (\<lambda>k.
                 store_user_byte pgdir (vaddr + of_nat (copied + k)) 0))
          (ret (of_nat n, lastTableNumber)))))"

section \<open>The pages of a segment in the page file\<close>

definition add_page :: "nat \<Rightarrow> uint32 \<Rightarrow> uint32 \<Rightarrow> (kstate, unit) M" where
  "add_page e va src = bnd (pf_add_env_page e va src) (\<lambda>r.
     guard (r \<noteq> E_NO_PAGE_FILE_SPACE) (Panic ''ERROR: Page File OUT OF SPACE.''))"

text \<open>A page with \<open>n\<close> bytes from \<open>src\<close> on at \<open>offset\<close>, and zeros, is put together in the temporary page.\<close>

definition fill_temp_page :: "uint32 \<Rightarrow> uint32 \<Rightarrow> nat \<Rightarrow> (kstate, unit) M" where
  "fill_temp_page offset src n =
     bnd (gets ptr_temp_page) (\<lambda>tmp.
     seqm (memset_page tmp)
       (for_n n 0 (\<lambda>k. bnd (load_byte (src + of_nat k)) (store_byte (tmp + offset + of_nat k)))))"

text \<open>
  First page, whole pages, last page, zeros.  The source pointer runs on through the three steps.
\<close>

definition write_segment :: "nat \<Rightarrow> ProgramSegment \<Rightarrow> (kstate, unit) M" where
  "write_segment e seg =
     (let seg_va = virtual_address seg; start_first = ROUNDDOWN seg_va PAGE_SIZE; end_first = ROUNDUP seg_va PAGE_SIZE;
          n1 = unat end_first - unat seg_va; src1 = ptr_start seg + of_nat n1;
          start_last = ROUNDDOWN (seg_va + size_in_file seg) PAGE_SIZE; end_last = seg_va + size_in_file seg;
          n2 = chunks (of_nat (unat start_last - unat end_first)) PAGE_SIZE; src2 = src1 + of_nat n2 * PAGE_SIZE;
          start_rem = ROUNDUP end_last PAGE_SIZE; rem = seg_va + size_in_memory seg - start_rem
      in bnd (gets ptr_temp_page) (\<lambda>tmp.
         seqm (fill_temp_page (seg_va - start_first) (ptr_start seg) n1)
         (seqm (add_page e start_first tmp)
         (seqm (for_n n2 0 (\<lambda>k. add_page e (end_first + of_nat k * PAGE_SIZE) (src1 + of_nat k * PAGE_SIZE)))
         (seqm (fill_temp_page 0 src2 (unat end_last - unat start_last))
         (seqm (add_page e start_last tmp)
           (for_n (chunks (ROUNDUP rem PAGE_SIZE) PAGE_SIZE) 0 (\<lambda>k.
              bnd (pf_add_empty_env_page e (start_rem + of_nat k * PAGE_SIZE) 1) (\<lambda>r.
                guard (r \<noteq> E_NO_PAGE_FILE_SPACE) (Panic ''ERROR: Page File OUT OF SPACE.''))))))))))"

fun load_segments :: "nat \<Rightarrow> ProgramSegment list \<Rightarrow> uint32 \<Rightarrow> uint32 \<Rightarrow> (kstate, unit) M" where
  "load_segments e [] remaining lastTable = ret ()"
| "load_segments e (seg # segs) remaining lastTable =
     bnd (program_segment_alloc_map_copy_workingset e seg remaining lastTable) (\<lambda>(allocated, lastTable).
     seqm (write_segment e seg) (load_segments e segs (remaining - allocated) lastTable))"

section \<open>Creating an environment\<close>

definition clear_modified :: "nat \<Rightarrow> nat \<Rightarrow> (kstate, unit) M" where
  "clear_modified e i =
     bnd (get_ws e) (\<lambda>env. let w = pageWorkingSet env i in
       whenM (ws_empty w = 0)
         (bnd (get_page_table (env_page_directory env) (ws_va w)) (\<lambda>(_, pt).
          bnd (load (word_at pt (PTX (ws_va w)))) (\<lambda>pte.
            store (word_at pt (PTX (ws_va w))) (pte AND NOT PERM_MODIFIED)))))"

definition map_stack_page :: "nat \<Rightarrow> (kstate, unit) M" where
  "map_stack_page e =
     (let stackVa = USTACKTOP - PAGE_SIZE in
      bnd (allocate_frame kmalloc) (\<lambda>pp.
      bnd (get_env e) (\<lambda>env.
      seqm (loadtime_map_frame kmalloc (env_page_directory env) pp stackVa (PERM_USER OR PERM_WRITEABLE))
      (bnd (frame_at (env_page_directory env) stackVa) (\<lambda>f.
       seqm (modify (\<lambda>s. s\<lparr>frame_data := (frame_data s)(f := (\<lambda>_. 0))\<rparr>))
       (bnd (get_env e) (\<lambda>env.
        seqm (env_page_ws_set_entry e (page_last_WS_index env) stackVa)
        (seqm (modify (upd_env e (\<lambda>v. v\<lparr>page_last_WS_index := (page_last_WS_index v + 1) mod page_WS_max_size v\<rparr>)))
          (bnd (pf_add_empty_env_page e stackVa 1) (\<lambda>_. ret ()))))))))))"

text \<open>The value of CR3, from the trace of the instructions that loaded it.\<close>

definition current_cr3 :: "kstate \<Rightarrow> uint32" where
  "current_cr3 s = fold (\<lambda>ev a. case ev of Load_cr3 p \<Rightarrow> p | _ \<Rightarrow> a) (hw s) 0"

text \<open>
  Every name of the program table is shorter than the 64 bytes of \<open>prog_name\<close>; a longer one
  would be cut to 63.  The table gives the file whose image is loaded.
\<close>

definition env_create :: "(string \<Rightarrow> uint32 \<times> Elf) \<Rightarrow> string \<Rightarrow> uint32 \<Rightarrow> (kstate, nat option) M" where
  "env_create images user_program_name page_WS_size =
     (case get_user_program_info user_program_name of None \<Rightarrow> ret None
      | Some (name, desc, file) \<Rightarrow>
        let (prog, elf) = images file in
        bnd allocate_environment (\<lambda>e. case e of None \<Rightarrow> ret None | Some e \<Rightarrow>
        seqm (modify (upd_env e (\<lambda>v. v\<lparr>prog_name := List.take 63 name\<rparr>)))
        (bnd create_user_directory (\<lambda>pgdir.
         bnd (kheap_physical_address pgdir) (\<lambda>phys.
         seqm (modify (upd_env e (\<lambda>v. v\<lparr>page_WS_max_size := page_WS_size\<rparr>)))
         (seqm (initialize_environment e pgdir phys)
         (bnd (gets current_cr3) (\<lambda>kern_cr3.
         seqm (\<lambda>s. Inr ((), emit (Load_cr3 (env_cr3 (envs s e))) s))
         (bnd (PROGRAM_SEGMENT_FOREACH (unat (e_phnum elf)) elf prog) (\<lambda>segs.
         seqm (load_segments e segs (page_WS_size - 1) 0xFFFFFFFF)
         (seqm (for_n (unat page_WS_size) 0 (clear_modified e))
         (seqm (set_environment_entry_point e elf)
         (seqm (map_stack_page e)
         (seqm (modify (emit (Load_cr3 kern_cr3))) (ret (Some e))))))))))))))))"

end
