(* ===== verification/Syscall.thy ===== *)
theory Syscall
  imports Semaphore Shares Fault Loader
begin

text \<open>
  System calls and traps, kern/syscall.c and kern/trap.c.  Three things come from outside: the
  character the console has, the time stamp counter, and the images of the programs.  Output to
  the console has no effect on the state.
\<close>

record devices =
  console_char :: uint32
  time_stamp_counter :: "uint32 \<times> uint32"
  program_images :: "string \<Rightarrow> uint32 \<times> Elf"

section \<open>Memory of the caller\<close>

text \<open>The kernel runs on the page directory of the caller and uses its pointers without a check.\<close>

definition load_user_byte :: "uint32 \<Rightarrow> uint32 \<Rightarrow> (kstate, uint8) M" where
  "load_user_byte pgdir a =
     (if KERNEL_BASE \<le> a then load_byte a
      else bnd (frame_at pgdir a) (\<lambda>f.
        gets (\<lambda>s. get_byte (frame_data s f (unat (PGOFF a) div 4)) (unat (a AND 3)))))"

definition put_user_byte :: "uint32 \<Rightarrow> uint32 \<Rightarrow> uint8 \<Rightarrow> (kstate, unit) M" where
  "put_user_byte pgdir a b = (if KERNEL_BASE \<le> a then store_byte a b else store_user_byte pgdir a b)"

definition put_user_word :: "uint32 \<Rightarrow> uint32 \<Rightarrow> uint32 \<Rightarrow> (kstate, unit) M" where
  "put_user_word pgdir a w = for_n 4 0 (\<lambda>k. put_user_byte pgdir (a + of_nat k) (get_byte w k))"

text \<open>A string at an address of the caller; more than a page of it is cut off by the model.\<close>

fun read_string :: "nat \<Rightarrow> uint32 \<Rightarrow> uint32 \<Rightarrow> (kstate, string) M" where
  "read_string 0 pgdir a = raise OutOfFuel"
| "read_string (Suc fuel) pgdir a =
     bnd (load_user_byte pgdir a) (\<lambda>b.
       if b = 0 then ret []
       else bnd (read_string fuel pgdir (a + 1)) (\<lambda>cs. ret (char_of (unat b) # cs)))"

definition user_string :: "uint32 \<Rightarrow> (kstate, string) M" where
  "user_string a = bnd current_directory (\<lambda>pgdir. read_string 4096 pgdir a)"

section \<open>The system calls\<close>

text \<open>The running environment and its index.\<close>

definition myself :: "(kstate, nat \<times> Env) M" where
  "myself = bnd (gets curenv) (\<lambda>c. bnd (deref c) (\<lambda>e. bnd (get_env e) (\<lambda>env. ret (e, env))))"

definition sys_cputs :: "uint8 \<Rightarrow> (kstate, unit) M" where
  "sys_cputs printProgName = whenM (printProgName \<noteq> 0) (bnd myself (\<lambda>_. ret ()))"

definition sys_getenvid :: "(kstate, uint32) M" where
  "sys_getenvid = bnd myself (\<lambda>(e, env). ret (env_id env))"

text \<open>The difference of the pointer to the array; a null pointer gives a meaningless number.\<close>

definition sys_getenvindex :: "(kstate, uint32) M" where
  "sys_getenvindex = bnd myself (\<lambda>(e, env). ret (of_nat e))"

definition sys_getparentenvid :: "(kstate, uint32) M" where
  "sys_getparentenvid = bnd myself (\<lambda>(e, env). ret (env_parent_id env))"

definition sys_env_destroy :: "uint32 \<Rightarrow> (kstate, int) M" where
  "sys_env_destroy envid =
     bnd (envid2env envid False) (\<lambda>(r, e).
       if r < 0 then ret r
       else bnd myself (\<lambda>_. bnd (deref e) (\<lambda>e. bnd (get_env e) (\<lambda>env.
         seqm (sched_kill_env (env_id env)) (ret 0)))))"

definition PERM_AVAILABLE :: uint32 where "PERM_AVAILABLE = 0xE00"

text \<open>The frame is allocated before the arguments are looked at, and stays allocated when they are bad.\<close>

definition sys_allocate_page :: "uint32 \<Rightarrow> uint32 \<Rightarrow> (kstate, int) M" where
  "sys_allocate_page va perm =
     bnd (allocate_frame kmalloc) (\<lambda>fi.
       if USER_TOP \<le> va \<or> va mod PAGE_SIZE \<noteq> 0 then ret E_INVAL
       else if perm AND (NOT PERM_AVAILABLE AND NOT PERM_WRITEABLE) \<noteq> PERM_USER then ret E_INVAL
       else bnd current_directory (\<lambda>pgdir.
         seqm (map_frame kmalloc pgdir fi USER_LIMIT PERM_WRITEABLE)
         (seqm (set_page_contents USER_LIMIT (\<lambda>_. 0))
         (seqm (modify (upd_frame fi (\<lambda>f. f\<lparr>references := references f + 1\<rparr>)))
         (seqm (unmap_frame pgdir USER_LIMIT)
         (seqm (modify (upd_frame fi (\<lambda>f. f\<lparr>references := references f - 1\<rparr>)))
         (seqm (map_frame kmalloc pgdir fi va perm) (ret 0))))))))"

definition sys_calculate_required_frames :: "uint32 \<Rightarrow> uint32 \<Rightarrow> (kstate, uint32) M" where
  "sys_calculate_required_frames start sz =
     bnd current_directory (\<lambda>pgdir. calculate_required_frames pgdir start sz)"

definition sys_calculate_free_frames :: "(kstate, uint32) M" where
  "sys_calculate_free_frames = bnd calculate_available_frames (\<lambda>c. ret (of_nat (freeBuffered c + freeNotBuffered c)))"

definition sys_calculate_modified_frames :: "(kstate, uint32) M" where
  "sys_calculate_modified_frames = bnd calculate_available_frames (\<lambda>c. ret (of_nat (modified c)))"

definition sys_calculate_notmod_frames :: "(kstate, uint32) M" where
  "sys_calculate_notmod_frames = bnd calculate_available_frames (\<lambda>c. ret (of_nat (freeBuffered c)))"

definition sys_pf_calculate_allocated_pages :: "(kstate, uint32) M" where
  "sys_pf_calculate_allocated_pages = bnd myself (\<lambda>(e, _). pf_calculate_allocated_pages e)"

definition sys_freeMem :: "uint32 \<Rightarrow> uint32 \<Rightarrow> (kstate, unit) M" where
  "sys_freeMem va sz =
     bnd isBufferingEnabled (\<lambda>b. bnd myself (\<lambda>(e, _).
       if b \<noteq> 0 then freeMem_with_buffering e va sz else freeMem e va sz))"

definition sys_allocateMem :: "uint32 \<Rightarrow> uint32 \<Rightarrow> (kstate, unit) M" where
  "sys_allocateMem va sz = bnd myself (\<lambda>(e, _). allocateMem e va sz)"

definition sys_moveMem :: "uint32 \<Rightarrow> uint32 \<Rightarrow> uint32 \<Rightarrow> (kstate, unit) M" where
  "sys_moveMem src dst sz = bnd myself (\<lambda>(e, _). moveMem e src dst sz)"

definition FL_IF :: uint32 where "FL_IF = 0x200"

definition set_eflags :: "(uint32 \<Rightarrow> uint32) \<Rightarrow> (kstate, unit) M" where
  "set_eflags f = bnd myself (\<lambda>(e, _).
     modify (upd_env e (\<lambda>v. v\<lparr>env_tf := (env_tf v)\<lparr>tf_eflags := f (tf_eflags (env_tf v))\<rparr>\<rparr>)))"

definition sys_disable_interrupt :: "(kstate, unit) M" where
  "sys_disable_interrupt = set_eflags (\<lambda>w. w AND NOT FL_IF)"

definition sys_enable_interrupt :: "(kstate, unit) M" where
  "sys_enable_interrupt = set_eflags (\<lambda>w. w OR FL_IF)"

definition sys_clearFFL :: "(kstate, unit) M" where
  "sys_clearFFL = bnd (gets (\<lambda>s. length (free_frame_list s))) (\<lambda>n.
     for_n n 0 (\<lambda>i. bnd (allocate_frame kmalloc) (\<lambda>_. ret ())))"

definition sys_createSemaphore :: "uint32 \<Rightarrow> uint32 \<Rightarrow> (kstate, int) M" where
  "sys_createSemaphore name initialValue =
     bnd myself (\<lambda>(e, env). bnd (user_string name) (\<lambda>n. createSemaphore (env_id env) n initialValue))"

definition sys_getSemaphoreValue :: "uint32 \<Rightarrow> uint32 \<Rightarrow> (kstate, uint32) M" where
  "sys_getSemaphoreValue ownerEnvID name =
     bnd (user_string name) (\<lambda>n.
     bnd (get_semaphore_object_ID ownerEnvID n) (\<lambda>semID.
     bnd (gets MAX_SEMAPHORES) (\<lambda>mx.
     seqm (guard (0 \<le> semID \<and> nat semID < unat mx) AssertFailed)
       (gets (\<lambda>s. sem_value (semaphores s (nat semID)))))))"

definition sys_createSharedObject :: "uint32 \<Rightarrow> uint32 \<Rightarrow> uint8 \<Rightarrow> uint32 \<Rightarrow> (kstate, int) M" where
  "sys_createSharedObject name sz writable va =
     bnd myself (\<lambda>(e, env). bnd (user_string name) (\<lambda>n.
       createSharedObject (env_id env) n sz writable va))"

definition sys_create_env :: "devices \<Rightarrow> uint32 \<Rightarrow> uint32 \<Rightarrow> (kstate, uint32) M" where
  "sys_create_env d programName page_WS_size =
     bnd (user_string programName) (\<lambda>n.
     bnd (env_create (program_images d) n page_WS_size) (\<lambda>e. case e of
         None \<Rightarrow> ret (of_int E_ENV_CREATION_ERROR)
       | Some e \<Rightarrow> seqm (sched_new_env (Some e)) (bnd (get_env e) (\<lambda>env. ret (env_id env)))))"

definition sys_get_virtual_time :: "devices \<Rightarrow> uint32 \<Rightarrow> uint32 \<Rightarrow> (kstate, unit) M" where
  "sys_get_virtual_time d ptrlow ptrhi =
     bnd current_directory (\<lambda>pgdir.
     seqm (put_user_word pgdir ptrlow (fst (time_stamp_counter d)))
       (put_user_word pgdir ptrhi (snd (time_stamp_counter d))))"

section \<open>The counter of the user tests\<close>

definition rsttst :: "(kstate, unit) M" where "rsttst = modify (\<lambda>s. s\<lparr>tstcnt := 0\<rparr>)"
definition inctst :: "(kstate, unit) M" where "inctst = modify (\<lambda>s. s\<lparr>tstcnt := tstcnt s + 1\<rparr>)"
definition gettst :: "(kstate, uint32) M" where "gettst = gets tstcnt"

definition tst :: "uint32 \<Rightarrow> uint32 \<Rightarrow> uint32 \<Rightarrow> char \<Rightarrow> uint32 \<Rightarrow> (kstate, unit) M" where
  "tst n v1 v2 c invalid =
     (let chk = (if c = CHR ''l'' then n < v1 \<or> invalid \<noteq> 0
                 else if c = CHR ''g'' then v1 < n \<or> invalid \<noteq> 0
                 else if c = CHR ''e'' then n = v1 \<or> invalid \<noteq> 0
                 else if c = CHR ''b'' then v1 \<le> n \<and> n \<le> v1
                 else False)
      in seqm (guard chk (Panic ''Error!! test fails'')) inctst)"

definition chktst :: "uint32 \<Rightarrow> (kstate, unit) M" where
  "chktst n = bnd gettst (\<lambda>t. guard (t = n) (Panic ''Error!! test fails at final''))"

section \<open>Dispatch\<close>

text \<open>The numbers of inc/syscall.h, in their order.\<close>

datatype syscall_no =
    SYS_cputs | SYS_cgetc | SYS_getenvid | SYS_getenvindex | SYS_getparentenvid | SYS_env_destroy
  | SYS_env_exit | SYS_allocate_page | SYS_map_frame | SYS_unmap_frame | SYS_calc_req_frames
  | SYS_calc_free_frames | SYS_calc_modified_frames | SYS_calc_notmod_frames
  | SYS_pf_calc_allocated_pages | SYS_freeMem | SYS_allocateMem | SYS_moveMem | SYS_disableINTR
  | SYS_enableINTR | SYS_cputc | SYS_clearFFL | SYS_create_semaphore | SYS_wait_semaphore
  | SYS_signal_semaphore | SYS_get_semaphore_value | SYS_create_shared_object
  | SYS_get_size_of_shared_object | SYS_get_shared_object | SYS_free_shared_object
  | SYS_get_max_shares | SYS_create_env | SYS_run_env | SYS_free_env | SYS_get_virtual_time
  | SYS_rcr2 | SYS_bypassPageFault | SYS_testNum | SYS_rsttst | SYS_chktst | SYS_inctst
  | SYS_gettst | SYS_get_heap_strategy | SYS_set_heap_strategy

definition syscall_numbers :: "syscall_no list" where
  "syscall_numbers = [SYS_cputs, SYS_cgetc, SYS_getenvid, SYS_getenvindex, SYS_getparentenvid,
     SYS_env_destroy, SYS_env_exit, SYS_allocate_page, SYS_map_frame, SYS_unmap_frame,
     SYS_calc_req_frames, SYS_calc_free_frames, SYS_calc_modified_frames, SYS_calc_notmod_frames,
     SYS_pf_calc_allocated_pages, SYS_freeMem, SYS_allocateMem, SYS_moveMem, SYS_disableINTR,
     SYS_enableINTR, SYS_cputc, SYS_clearFFL, SYS_create_semaphore, SYS_wait_semaphore,
     SYS_signal_semaphore, SYS_get_semaphore_value, SYS_create_shared_object,
     SYS_get_size_of_shared_object, SYS_get_shared_object, SYS_free_shared_object,
     SYS_get_max_shares, SYS_create_env, SYS_run_env, SYS_free_env, SYS_get_virtual_time,
     SYS_rcr2, SYS_bypassPageFault, SYS_testNum, SYS_rsttst, SYS_chktst, SYS_inctst,
     SYS_gettst, SYS_get_heap_strategy, SYS_set_heap_strategy]"

definition syscall_of :: "uint32 \<Rightarrow> syscall_no option" where
  "syscall_of n = (if unat n < length syscall_numbers then Some (syscall_numbers ! unat n) else None)"

definition int_result :: "(kstate, int) M \<Rightarrow> (kstate, uint32) M" where
  "int_result m = bnd m (\<lambda>r. ret (of_int r))"

definition no_result :: "(kstate, unit) M \<Rightarrow> (kstate, uint32) M" where
  "no_result m = seqm m (ret 0)"

definition syscall ::
  "devices \<Rightarrow> uint32 \<Rightarrow> uint32 \<Rightarrow> uint32 \<Rightarrow> uint32 \<Rightarrow> uint32 \<Rightarrow> uint32 \<Rightarrow> (kstate, uint32) M" where
  "syscall d syscallno a1 a2 a3 a4 a5 = (case syscall_of syscallno of
       None \<Rightarrow> ret (of_int (- E_INVAL))
     | Some n \<Rightarrow> (case n of
         SYS_cputs \<Rightarrow> no_result (sys_cputs (ucast a3))
       | SYS_cgetc \<Rightarrow> ret (console_char d)
       | SYS_getenvindex \<Rightarrow> sys_getenvindex
       | SYS_getenvid \<Rightarrow> sys_getenvid
       | SYS_getparentenvid \<Rightarrow> sys_getparentenvid
       | SYS_env_destroy \<Rightarrow> int_result (sys_env_destroy a1)
       | SYS_env_exit \<Rightarrow> no_result env_exit
       | SYS_calc_req_frames \<Rightarrow> sys_calculate_required_frames a1 a2
       | SYS_calc_free_frames \<Rightarrow> sys_calculate_free_frames
       | SYS_calc_modified_frames \<Rightarrow> sys_calculate_modified_frames
       | SYS_calc_notmod_frames \<Rightarrow> sys_calculate_notmod_frames
       | SYS_pf_calc_allocated_pages \<Rightarrow> sys_pf_calculate_allocated_pages
       | SYS_freeMem \<Rightarrow> no_result (sys_freeMem a1 a2)
       | SYS_allocate_page \<Rightarrow> bnd (sys_allocate_page a1 a2) (\<lambda>_. ret 0)
       | SYS_map_frame \<Rightarrow> raise (Panic ''sys_map_frame not implemented'')
       | SYS_unmap_frame \<Rightarrow> raise (Panic ''sys_page_unmap not implemented'')
       | SYS_allocateMem \<Rightarrow> no_result (sys_allocateMem a1 a2)
       | SYS_disableINTR \<Rightarrow> no_result sys_disable_interrupt
       | SYS_enableINTR \<Rightarrow> no_result sys_enable_interrupt
       | SYS_cputc \<Rightarrow> ret 0
       | SYS_clearFFL \<Rightarrow> no_result sys_clearFFL
       | SYS_create_semaphore \<Rightarrow> int_result (sys_createSemaphore a1 a2)
       | SYS_wait_semaphore \<Rightarrow> no_result (bnd (user_string a2) (waitSemaphore a1))
       | SYS_signal_semaphore \<Rightarrow> no_result (bnd (user_string a2) (signalSemaphore a1))
       | SYS_get_semaphore_value \<Rightarrow> sys_getSemaphoreValue a1 a2
       | SYS_create_shared_object \<Rightarrow> int_result (sys_createSharedObject a1 a2 (ucast a3) a4)
       | SYS_get_shared_object \<Rightarrow> int_result (bnd (user_string a2) (\<lambda>n. getSharedObject a1 n a3))
       | SYS_free_shared_object \<Rightarrow> int_result (freeSharedObject a1 a2)
       | SYS_get_size_of_shared_object \<Rightarrow> int_result (bnd (user_string a2) (getSizeOfSharedObject a1))
       | SYS_get_max_shares \<Rightarrow> gets MAX_SHARES
       | SYS_create_env \<Rightarrow> sys_create_env d a1 a2
       | SYS_free_env \<Rightarrow> no_result (sched_kill_env a1)
       | SYS_run_env \<Rightarrow> no_result (sched_run_env a1)
       | SYS_get_virtual_time \<Rightarrow> no_result (sys_get_virtual_time d a1 a2)
       | SYS_moveMem \<Rightarrow> no_result (sys_moveMem a1 a2 a3)
       | SYS_rcr2 \<Rightarrow> gets cr2
       | SYS_bypassPageFault \<Rightarrow> no_result (modify (\<lambda>s. s\<lparr>bypassInstrLength := ucast a1\<rparr>))
       | SYS_rsttst \<Rightarrow> no_result rsttst
       | SYS_inctst \<Rightarrow> no_result inctst
       | SYS_chktst \<Rightarrow> no_result (chktst a1)
       | SYS_gettst \<Rightarrow> gettst
       | SYS_testNum \<Rightarrow> no_result (tst a1 a2 a3 (char_of (unat a4 mod 256)) a5)
       | SYS_get_heap_strategy \<Rightarrow> gets UHeapPlacementStrategy
       | SYS_set_heap_strategy \<Rightarrow> no_result (setUHeapPlacementStrategy a1)))"

section \<open>Traps\<close>

definition T_DBLFLT :: uint32 where "T_DBLFLT = 8"
definition T_PGFLT :: uint32 where "T_PGFLT = 14"
definition IRQ0_Clock :: uint32 where "IRQ0_Clock = 32"
definition T_SYSCALL :: uint32 where "T_SYSCALL = 48"
definition GD_KT :: uint16 where "GD_KT = 0x08"

text \<open>
  The trap frame of a user trap is the one saved in the environment, \<open>Some e\<close>; that of a kernel
  trap lies on the stack of the kernel, and what is written to it is not read again.
\<close>

definition set_eax :: "nat option \<Rightarrow> uint32 \<Rightarrow> kstate \<Rightarrow> kstate" where
  "set_eax u r s = (case u of None \<Rightarrow> s
     | Some e \<Rightarrow> upd_env e (\<lambda>v. v\<lparr>env_tf := (env_tf v)\<lparr>tf_eax := r\<rparr>\<rparr>) s)"

definition trap_syscall :: "devices \<Rightarrow> nat option \<Rightarrow> Trapframe \<Rightarrow> (kstate, unit) M" where
  "trap_syscall d u tf = (\<lambda>s. case syscall d (tf_eax tf) (tf_edx tf) (tf_ecx tf) (tf_ebx tf) (tf_edi tf) (tf_esi tf) s of
       Inl err \<Rightarrow> Inl err
     | Inr (r, s') \<Rightarrow> Inr ((), if exits s' = exits s then set_eax u r s' else s'))"

definition trap_dispatch :: "devices \<Rightarrow> nat option \<Rightarrow> Trapframe \<Rightarrow> (kstate, unit) M" where
  "trap_dispatch d u tf =
     (if tf_trapno tf = T_PGFLT then
        bnd (isPageReplacmentAlgorithm PG_REP_LRU) (\<lambda>lru.
        seqm (whenM (lru \<noteq> 0) update_WS_time_stamps) (fault_handler (tf_cs tf)))
      else if tf_trapno tf = T_SYSCALL then trap_syscall d u tf
      else if tf_trapno tf = T_DBLFLT then raise (Panic ''double fault!!'')
      else if tf_trapno tf = IRQ0_Clock then clock_interrupt_handler
      else if tf_cs tf = GD_KT then raise (Panic ''unhandled trap in kernel'')
      else ret ())"

text \<open>An instruction of a test program may be skipped instead of handling its page fault.\<close>

definition bypass_fault :: "nat option \<Rightarrow> Trapframe \<Rightarrow> (kstate, unit) M" where
  "bypass_fault u tf =
     bnd (gets bypassInstrLength) (\<lambda>len. whenM (len \<noteq> 0) (case u of
         Some e \<Rightarrow> seqm (modify (upd_env e (\<lambda>v. v\<lparr>env_tf := (env_tf v)\<lparr>tf_eip := tf_eip (env_tf v) + ucast len\<rparr>\<rparr>)))
           (env_run e)
       | None \<Rightarrow> seqm (modify (emit Kclock_resume)) (modify (emit (Resume_kernel (tf_eip tf + ucast len))))))"

definition trap :: "devices \<Rightarrow> Trapframe \<Rightarrow> (kstate, unit) M" where
  "trap d tf =
     seqm (modify (emit Kclock_stop))
     (bnd (if tf_cs tf AND 3 = 3
           then bnd (gets curenv) (\<lambda>c. case c of None \<Rightarrow> raise AssertFailed
             | Some e \<Rightarrow> seqm (modify (upd_env e (\<lambda>v. v\<lparr>env_tf := tf\<rparr>))) (ret (Some e)))
           else ret None) (\<lambda>u.
      unless_left
        (if tf_trapno tf = IRQ0_Clock then modify (emit Kclock_reset)
         else whenM (tf_trapno tf = T_PGFLT) (bypass_fault u tf))
        (unless_left (trap_dispatch d u tf)
          (bnd (gets curenv) (\<lambda>c. case c of None \<Rightarrow> raise AssertFailed
             | Some e \<Rightarrow> bnd (get_env e) (\<lambda>env.
                 seqm (guard (env_status env = ENV_READY) AssertFailed) (env_run e)))))))"

end
