(* ===== verification/WS_Types.thy ===== *)
theory WS_Types
  imports Syscall Kheap_Props
begin

text \<open>
  The kernel keeps the working sets well formed.  The locale collects, once, what keeps any
  invariant that reads nothing but the working sets: every operation of the heap, the page tables,
  the page file, the queues and the semaphores.
\<close>

section \<open>Invariants of the working sets\<close>

definition ws_same :: "kstate \<Rightarrow> kstate \<Rightarrow> bool" where
  "ws_same s s' \<longleftrightarrow> (\<forall>e. pageWorkingSet (envs s' e) = pageWorkingSet (envs s e) \<and>
     page_last_WS_index (envs s' e) = page_last_WS_index (envs s e) \<and>
     page_WS_max_size (envs s' e) = page_WS_max_size (envs s e))"

locale ws_invariant =
  fixes I :: "kstate \<Rightarrow> bool"
  assumes ws_only: "ws_same s s' \<Longrightarrow> I s \<Longrightarrow> I s'"
begin

lemma keep: "(\<And>s. ws_same s (f s)) \<Longrightarrow> preserves I (modify f)"
  by (rule preserves_modify) (rule ws_only)

lemma keepL: "(\<And>s x s'. m s = Inr (x, s') \<Longrightarrow> ws_same s s') \<Longrightarrow> preserves I m"
  by (rule preservesI) (rule ws_only)

lemma memory_ops [preserves_intros]:
  "preserves I (store a v)" "preserves I (memset_page p)" "preserves I (get_env e)"
  "preserves I (modify (emit ev))" "preserves I (modify (upd_frame fi g))" "preserves I tlbflush"
  "preserves I (tlb_invalidate va)" "preserves I (initialize_frame_info fi)"
  unfolding tlbflush_def tlb_invalidate_def get_env_def initialize_frame_info_def
  by (auto intro!: keepL preserves_intros simp: ws_same_def memset_page_def split: if_splits)

lemma table_ops [preserves_intros]:
  "preserves I (STATIC_KERNEL_VIRTUAL_ADDRESS pa)" "preserves I (STATIC_KERNEL_PHYSICAL_ADDRESS pa)"
  "preserves I (kheap_virtual_address pa)"
  by (auto intro!: keepL simp: ws_same_def STATIC_KERNEL_VIRTUAL_ADDRESS_def STATIC_KERNEL_PHYSICAL_ADDRESS_def
      kheap_virtual_address_def split: if_splits)

lemma lookups [preserves_intros]:
  "preserves I (get_page_table pgdir va)" "preserves I (get_frame_info pgdir va)" "preserves I (kheap_physical_address va)"
proof -
  show g: "preserves I (get_page_table pgdir va)" for pgdir va
    unfolding get_page_table_def by (intro preserves_intros keep) (simp_all add: ws_same_def)
  show "preserves I (get_frame_info pgdir va)" unfolding get_frame_info_def by (intro preserves_intros g)
  show "preserves I (kheap_physical_address va)" unfolding kheap_physical_address_def by (intro preserves_intros g)
qed

lemma frame_ops [preserves_intros]: "preserves I (free_frame f)" "preserves I (decrement_references f)"
proof -
  show g: "preserves I (free_frame f)" for f
    unfolding free_frame_def by (intro preserves_intros keep) (simp_all add: ws_same_def)
  have "preserves I (\<lambda>s. if references (frames_info s f) = 0 then free_frame f s else Inr ((), s))"
    using preservesD[OF g] by (auto simp: preserves_def split: if_splits)
  then show "preserves I (decrement_references f)" unfolding decrement_references_def by (intro preserves_intros)
qed

lemma unmap [preserves_intros]: "preserves I (unmap_frame pgdir va)"
  unfolding unmap_frame_def by (intro preserves_intros)

lemma disk_ops [preserves_intros]:
  "preserves I (set_page_contents va pg)" "preserves I (page_contents va)" "preserves I allocate_disk_frame"
  "preserves I (free_disk_frame d)" "preserves I (read_disk_page dfn va)" "preserves I (write_disk_page dfn va)"
proof -
  show g: "preserves I (set_page_contents va pg)" "preserves I (page_contents va)" for pg
    by (auto intro!: keepL simp: ws_same_def set_page_contents_def page_contents_def split: if_splits option.splits)
  show "preserves I allocate_disk_frame"
    by (auto intro!: keepL simp: ws_same_def allocate_disk_frame_def split: list.splits)
  show "preserves I (free_disk_frame d)"
    unfolding free_disk_frame_def by (intro preserves_intros keep) (simp add: ws_same_def)
  show "preserves I (read_disk_page dfn va)" "preserves I (write_disk_page dfn va)"
    unfolding read_disk_page_def write_disk_page_def by (intro preserves_intros g keep; simp add: ws_same_def)+
qed

lemma env_fields [preserves_intros]:
  "(\<And>v. pageWorkingSet (g v) = pageWorkingSet v \<and> page_last_WS_index (g v) = page_last_WS_index v \<and>
     page_WS_max_size (g v) = page_WS_max_size v) \<Longrightarrow> preserves I (modify (upd_env e g))"
  by (rule keep) (simp add: ws_same_def upd_env_def)

lemma table_file_ops:
  assumes km [preserves_intros]: "\<And>n. preserves I (km n)"
  shows "preserves I (pf_write_env_table km e va k)" "preserves I (pf_read_env_table e va k)"
    "preserves I (pf_remove_env_all_tables e)" "preserves I (pf_remove_env_table e va)"
proof -
  have d: "preserves I (get_disk_table_directory km e)"
    unfolding get_disk_table_directory_def by (intro preserves_intros km) simp_all
  show "preserves I (pf_write_env_table km e va k)" unfolding pf_write_env_table_def by (intro preserves_intros d)
  show "preserves I (pf_read_env_table e va k)" "preserves I (pf_remove_env_all_tables e)" "preserves I (pf_remove_env_table e va)"
    unfolding pf_read_env_table_def pf_remove_env_all_tables_def pf_remove_env_table_def by (intro preserves_intros)+
qed

section \<open>Flags, frames and the kernel heap\<close>

lemma flag_ops:
  assumes km [preserves_intros]: "\<And>n. preserves I (km n)"
  shows "preserves I (pt_set_page_permissions km e va ps pc)" "preserves I (pt_clear_page_table_entry km e va)"
    "preserves I (pt_get_page_permissions e va)"
proof -
  have w: "preserves I (update_word a f)" for a f unfolding update_word_def by (intro preserves_intros)
  have u: "preserves I (pt_update_entry km f m1 m2 e va)" for f m1 m2
    unfolding pt_update_entry_def by (intro preserves_intros w table_file_ops[OF km])
  show "preserves I (pt_set_page_permissions km e va ps pc)" "preserves I (pt_clear_page_table_entry km e va)"
    unfolding pt_set_page_permissions_def pt_clear_page_table_entry_def by (rule u)+
  show "preserves I (pt_get_page_permissions e va)"
    unfolding pt_get_page_permissions_def by (intro preserves_intros table_file_ops[OF km])
qed

lemma directory_flag_ops [preserves_intros]:
  "preserves I (pd_is_table_used e va)" "preserves I (pd_set_table_unused e va)" "preserves I (pd_clear_page_dir_entry e va)"
  unfolding pd_is_table_used_def pd_set_table_unused_def pd_clear_page_dir_entry_def by (intro preserves_intros)+

lemma mapping_ops:
  assumes km [preserves_intros]: "\<And>n. preserves I (km n)"
  shows "preserves I (allocate_frame km)" "preserves I (create_page_table km pgdir va)"
    "preserves I (map_frame km pgdir fi va perm)" "preserves I (loadtime_map_frame km pgdir fi va perm)"
proof -
  show "preserves I (allocate_frame km)"
    unfolding allocate_frame_def by (intro preserves_intros flag_ops[OF km] keep) (simp add: ws_same_def)
  show c: "preserves I (create_page_table km pgdir va)" for pgdir va
    unfolding create_page_table_def by (intro preserves_intros km)
  show "preserves I (map_frame km pgdir fi va perm)" "preserves I (loadtime_map_frame km pgdir fi va perm)"
    unfolding map_frame_def loadtime_map_frame_def Let_def by (intro preserves_intros c)+
qed

lemma block_ops:
  "preserves I k_allocate_block" "preserves I (insert_taken_sorted p)" "preserves I (insert_free_sorted p)"
  by (auto intro!: keepL simp: ws_same_def k_allocate_block_def insert_taken_sorted_def insert_free_sorted_def
      split: list.splits sum.splits)

lemma strategy_ops:
  assumes km [preserves_intros]: "\<And>n. preserves I (km n)"
  shows "preserves I (kmalloc_body km sz)"
proof -
  have b: "preserves I (back_pages km st sz)" for st sz
    unfolding back_pages_def by (intro preserves_intros mapping_ops[OF km])
  have k: "ws_same s (cut_block b sz s)" for b sz s
    by (simp add: cut_block_def Let_def set_block_def recycle_def ws_same_def)
  have "preserves I (cont_allocation km sz)" "preserves I (first_fit_allocation km sz)" "preserves I (next_fit_allocation km sz)"
    unfolding cont_allocation_def first_fit_allocation_def next_fit_allocation_def Let_def
    by (intro preserves_intros b block_ops keep k; simp add: ws_same_def set_block_def)+
  then show ?thesis
    unfolding kmalloc_body_def by (intro preserves_intros) (auto split: placement.splits intro: preserves_intros)
qed

lemma kmalloc [preserves_intros]: "preserves I (kmalloc sz)"
proof -
  have "preserves I (kmalloc_depth n sz)" for n sz
    by (induction n arbitrary: sz) (auto intro: preserves_intros strategy_ops)
  then show ?thesis by (simp add: kmalloc_def)
qed

lemmas kmalloc_ops [preserves_intros] =
  table_file_ops[OF kmalloc] flag_ops[OF kmalloc] mapping_ops[OF kmalloc]

lemma kfree [preserves_intros]: "preserves I (kfree va)"
proof -
  have f: "preserves I (insert_free_sorted p)" for p by (rule block_ops)
  have "preserves I (Coalescing_heap tk)" for tk
  proof (rule keepL)
    fix s x s' assume "Coalescing_heap tk s = Inr (x, s')"
    then show "ws_same s s'"
      by (auto simp: Coalescing_heap_def Let_def ws_same_def set_block_def recycle_def insert_free_sorted_def
          split: prod.splits option.splits sum.splits if_splits)
  qed
  then show ?thesis
    unfolding kfree_def by (intro preserves_intros keep) (simp_all add: ws_same_def)
qed

section \<open>The page file, queues, semaphores and shared objects\<close>

lemma page_file_ops [preserves_intros]:
  "preserves I (pf_add_env_page e va src)" "preserves I (pf_add_empty_env_page e va z)" "preserves I (pf_update_env_page e va fi)"
  "preserves I (pf_read_env_page e va)" "preserves I (pf_remove_env_page e va)"
proof -
  have d: "preserves I (get_disk_page_directory e)" for e
    unfolding get_disk_page_directory_def by (intro preserves_intros) simp_all
  have t: "preserves I (get_disk_page_table dir va c)" for dir va c
    unfolding get_disk_page_table_def by (intro preserves_intros)
  have f: "preserves I (page_disk_frame e va)" unfolding page_disk_frame_def by (intro preserves_intros d t)
  show a: "preserves I (pf_add_env_page e va src)" for src unfolding pf_add_env_page_def by (intro preserves_intros f)
  show "preserves I (pf_add_empty_env_page e va z)" unfolding pf_add_empty_env_page_def by (intro preserves_intros f a)
  have "preserves I (write_back e dfn fi)" for dfn unfolding write_back_def by (intro preserves_intros)
  then show "preserves I (pf_update_env_page e va fi)" unfolding pf_update_env_page_def by (intro preserves_intros d t)
  show "preserves I (pf_read_env_page e va)" unfolding pf_read_env_page_def Let_def by (intro preserves_intros t)
  show "preserves I (pf_remove_env_page e va)" unfolding pf_remove_env_page_def by (intro preserves_intros t)
qed

lemma remove_from_queue:
  "preserves I (\<lambda>s. case list_remove e (env_ready_queue s) of Inl err \<Rightarrow> Inl err | Inr l \<Rightarrow> Inr ((), s\<lparr>env_ready_queue := l\<rparr>))"
  by (rule keepL) (auto simp: ws_same_def split: sum.splits)

lemma scheduler_ops [preserves_intros]:
  "preserves I (set_status e st)" "preserves I fos_scheduler" "preserves I (sched_insert_ready z)" "preserves I (sched_remove_ready z)"
proof -
  show s [preserves_intros]: "preserves I (set_status e st)" for e st
    unfolding set_status_def by (intro preserves_intros) simp
  have c: "preserves I (sched_next_circular z)" for z
    unfolding sched_next_circular_def by (intro preserves_intros)
  have m: "preserves I (modify (\<lambda>s. upd_env e (\<lambda>v. v\<lparr>env_runs := env_runs v + 1\<rparr>) (s\<lparr>curenv := Some e\<rparr>)))" for e
    by (rule keep) (simp add: ws_same_def upd_env_def)
  have l: "preserves I (\<lambda>s. Inr ((), emit (Load_cr3 (env_cr3 (envs s e))) s))" for e
    by (rule keepL) (auto simp: ws_same_def)
  have r: "preserves I (env_run e)" for e unfolding env_run_def by (intro preserves_intros m l)
  show "preserves I fos_scheduler"
    unfolding fos_scheduler_def by (intro preserves_intros c r keep) (simp_all add: ws_same_def emit_def)
  show "preserves I (sched_insert_ready z)"
    unfolding sched_insert_ready_def by (intro preserves_intros keep) (simp_all add: ws_same_def)
  show "preserves I (sched_remove_ready z)"
    unfolding sched_remove_ready_def by (intro preserves_intros c remove_from_queue keep) (simp_all add: ws_same_def)
qed

lemma semaphore_ops:
  "preserves I (waitSemaphore owner name)" "preserves I (signalSemaphore owner name)"
proof -
  have w: "preserves I (search_semaphores P)" for P
  proof -
    have "preserves I with_semaphores" by (rule keepL) (auto simp: ws_same_def with_semaphores_def split: if_splits)
    then show ?thesis unfolding search_semaphores_def by (intro preserves_intros)
  qed
  have u: "preserves I (modify (upd_sem i f))" for i f by (rule keep) (simp add: ws_same_def upd_sem_def)
  have q: "preserves I (enqueue i z)" "preserves I (dequeue i)" for i z
    unfolding enqueue_def dequeue_def by (intro preserves_intros u)+
  show "preserves I (waitSemaphore owner name)" "preserves I (signalSemaphore owner name)"
    unfolding waitSemaphore_def signalSemaphore_def by (intro preserves_intros w u q)+
qed

lemma empty_tables: "preserves I (remove_empty_tables e va n)"
proof -
  have "preserves I (table_is_empty pt)" for pt
    by (rule keepL) (auto simp: ws_same_def table_is_empty_def split: if_splits)
  then show ?thesis unfolding remove_empty_tables_def Let_def by (intro preserves_intros)
qed

lemma share_ops:
  "preserves I (createSharedObject owner name sz writable va)" "preserves I (getSharedObject owner name va)"
  "preserves I (freeSharedObject n va)"
proof -
  have ws: "preserves I with_shares" by (rule keepL) (auto simp: ws_same_def with_shares_def split: if_splits)
  have s: "preserves I (search_shares P)" for P unfolding search_shares_def by (intro preserves_intros ws)
  have u: "preserves I (modify (upd_share i f))" for i f by (rule keep) (simp add: ws_same_def upd_share_def)
  have d: "preserves I current_directory" unfolding current_directory_def by (intro preserves_intros)
  have g: "preserves I (get_share_object_ID owner name)" for owner name
    unfolding get_share_object_ID_def by (intro preserves_intros s)
  have t: "preserves I (take_share i)" for i unfolding take_share_def by (intro preserves_intros u)
  have al: "preserves I allocate_share_object"
    unfolding allocate_share_object_def krealloc_def by (intro preserves_intros s t keep) (simp_all add: ws_same_def)
  have ad: "preserves I (add_frame_to_storage st fi k)" for st fi k
    unfolding add_frame_to_storage_def Let_def by (intro preserves_intros)
  have ge: "preserves I (get_frame_from_storage st k)" for st k
    unfolding get_frame_from_storage_def by (intro preserves_intros)
  have cl: "preserves I (clear_frames_storage st)" for st
    unfolding clear_frames_storage_def by (intro preserves_intros)
  have fr: "preserves I (free_share_object i)" for i
    unfolding free_share_object_def Let_def by (intro preserves_intros ws cl u)
  have fi: "preserves I (find_share_at va is)" for va "is"
    by (induction "is"; simp only: find_share_at.simps; intro preserves_intros ge d; assumption)
  show "preserves I (createSharedObject owner name sz writable va)"
    unfolding createSharedObject_def create_page_def Let_def by (intro preserves_intros g al d ad u)
  show "preserves I (getSharedObject owner name va)"
    unfolding getSharedObject_def get_page_def by (intro preserves_intros g ge d u)
  show "preserves I (freeSharedObject n va)"
    unfolding freeSharedObject_def by (intro preserves_intros ws fi d u fr empty_tables)
qed

lemma fault_ops:
  "preserves I (allocateMem e va sz)" "preserves I (bring_in e va fi z msg)" "preserves I (table_fault_handler e va)"
  unfolding allocateMem_def bring_in_def table_fault_handler_def by (intro preserves_intros)+

end

section \<open>Well-formed working sets\<close>

text \<open>
  Every entry holds the address of a user page, the flag is 0 or 1, and the last index is an
  index of the array.
\<close>

definition entry_ok :: "WorkingSetElement \<Rightarrow> bool" where
  "entry_ok w \<longleftrightarrow> ws_va w < USER_TOP \<and> ws_va w AND 0xFFF = 0 \<and> ws_empty w \<le> 1"

definition ws_types :: "kstate \<Rightarrow> bool" where
  "ws_types s \<longleftrightarrow> (\<forall>e. (\<forall>i. entry_ok (pageWorkingSet (envs s e) i)) \<and>
     (page_last_WS_index (envs s e) = 0 \<or> page_last_WS_index (envs s e) < page_WS_max_size (envs s e)))"

interpretation wst: ws_invariant ws_types
  by unfold_locales (simp add: ws_same_def ws_types_def)

lemma entry_ok_empty: "entry_ok empty_ws"
  by (simp add: entry_ok_def empty_ws_def layout_defs)

lemma entry_ok_set: "va < USER_TOP \<Longrightarrow> entry_ok \<lparr>ws_va = ROUNDDOWN va PAGE_SIZE, ws_empty = 0, time_stamp = t\<rparr>"
proof -
  assume va: "va < USER_TOP"
  have "unat (ROUNDDOWN va PAGE_SIZE) \<le> unat va" by (simp add: unat_ROUNDDOWN)
  then have "ROUNDDOWN va PAGE_SIZE < USER_TOP" using va by (simp add: word_less_nat_alt)
  moreover have "ROUNDDOWN va PAGE_SIZE AND 0xFFF = 0"
    unfolding unat_mod_page by (simp add: unat_ROUNDDOWN PAGE_SIZE_def minus_mod_eq_mult_div)
  ultimately show ?thesis by (simp add: entry_ok_def)
qed

lemma upd_ws_types: "ws_types s \<Longrightarrow> entry_ok (f (pageWorkingSet (envs s e) i)) \<Longrightarrow> ws_types (upd_ws e i f s)"
  by (auto simp: ws_types_def upd_ws_def upd_env_def)

lemma clear_entry_types: "preserves ws_types (env_page_ws_clear_entry e i)"
  unfolding env_page_ws_clear_entry_def get_ws_def
  by (intro preserves_intros preserves_modify upd_ws_types entry_ok_empty)

lemma set_entry_types: "preserves ws_types (env_page_ws_set_entry e i va)"
proof (rule preservesI)
  fix s x s' assume t: "ws_types s" and "env_page_ws_set_entry e i va s = Inr (x, s')"
  then have va: "va < USER_TOP" and s': "s' = (upd_ws e (unat i)
      (\<lambda>_. \<lparr>ws_va = ROUNDDOWN va PAGE_SIZE, ws_empty = 0, time_stamp = time s\<rparr>) s)\<lparr>time := time s + 1\<rparr>"
    by (auto simp: env_page_ws_set_entry_def get_env_def get_ws_def bnd_apply seqm_def upd_ws_def upd_env_def split: if_splits)
  have "ws_types (upd_ws e (unat i) (\<lambda>_. \<lparr>ws_va = ROUNDDOWN va PAGE_SIZE, ws_empty = 0, time_stamp = time s\<rparr>) s)"
    by (rule upd_ws_types[OF t entry_ok_set[OF va]])
  then show "ws_types s'" unfolding s' by (rule wst.ws_only[rotated]) (simp add: ws_same_def)
qed

lemma last_index_types:
  "ws_types s \<Longrightarrow> j < page_WS_max_size (envs s e) \<Longrightarrow> ws_types (upd_env e (\<lambda>v. v\<lparr>page_last_WS_index := j\<rparr>) s)"
  by (auto simp: ws_types_def upd_env_def)

lemma advance_types: "preserves ws_types (advance_WS e va)"
proof (rule preservesI)
  fix s x s' assume t: "ws_types s" and a: "advance_WS e va s = Inr (x, s')"
  let ?i = "page_last_WS_index (envs s e)"
  from a obtain s1 where s1: "env_page_ws_set_entry e ?i va s = Inr ((), s1)"
    and s': "s' = upd_env e (\<lambda>v. v\<lparr>page_last_WS_index := (page_last_WS_index v + 1) mod page_WS_max_size v\<rparr>) s1"
    by (auto simp: advance_WS_def get_env_def bnd_apply seqm_def split: sum.splits)
  have t1: "ws_types s1" by (rule preservesD[OF set_entry_types s1 t])
  from s1 have lt: "?i < page_WS_max_size (envs s1 e)"
    by (auto simp: env_page_ws_set_entry_def get_env_def get_ws_def bnd_apply seqm_def upd_ws_def upd_env_def split: if_splits)
  let ?j = "(page_last_WS_index (envs s1 e) + 1) mod page_WS_max_size (envs s1 e)"
  have "0 < page_WS_max_size (envs s1 e)" using lt word_gt_0 by fastforce
  then have "?j < page_WS_max_size (envs s1 e)" by (rule word_mod_less_divisor)
  from last_index_types[OF t1 this] show "ws_types s'" by (simp add: s' upd_env_def)
qed

lemma get_ws_types [preserves_intros]: "preserves ws_types (get_ws e)" "preserves ws_types (env_page_ws_get_size e)"
    "preserves ws_types (env_page_ws_get_virtual_address e j)"
  unfolding env_page_ws_get_size_def env_page_ws_get_virtual_address_def get_ws_def by (intro preserves_intros)+

lemma page_fault_types: "preserves ws_types (page_fault_handler e va)"
proof -
  have "preserves ws_types (evict e)"
    unfolding evict_def Let_def by (intro preserves_intros clear_entry_types)
  then show ?thesis
    unfolding page_fault_handler_def by (intro preserves_intros wst.fault_ops advance_types)
qed

lemma fault_types: "preserves ws_types (fault_handler cs)"
  unfolding fault_handler_def isBufferingEnabled_def
  by (intro preserves_intros page_fault_types wst.fault_ops) simp_all

lemma free_types: "preserves ws_types (freeMem e va sz)"
proof -
  have idx: "preserves ws_types (bnd (get_env e) (\<lambda>env. whenM (j < page_last_WS_index env)
      (modify (upd_env e (\<lambda>v. v\<lparr>page_last_WS_index := j\<rparr>)))))" for j
  proof (rule preservesI)
    fix s x s' assume t: "ws_types s" and a: "bnd (get_env e) (\<lambda>env. whenM (j < page_last_WS_index env)
      (modify (upd_env e (\<lambda>v. v\<lparr>page_last_WS_index := j\<rparr>)))) s = Inr (x, s')"
    show "ws_types s'"
    proof (cases "j < page_last_WS_index (envs s e)")
      case False
      then show ?thesis using t a by (simp add: get_env_def)
    next
      case True
      then have "page_last_WS_index (envs s e) \<noteq> 0" by auto
      with t have "page_last_WS_index (envs s e) < page_WS_max_size (envs s e)" by (auto simp: ws_types_def)
      with True have "j < page_WS_max_size (envs s e)" by (rule less_trans)
      from last_index_types[OF t this] show ?thesis using a True by (auto simp: get_env_def)
    qed
  qed
  have "preserves ws_types (free_resident_page e va sz j)" for j
    unfolding free_resident_page_def by (rule idx clear_entry_types preserves_intros)+
  then show ?thesis unfolding freeMem_def by (intro preserves_intros wst.empty_tables)
qed

lemma clock_types: "preserves ws_types clock_interrupt_handler"
proof -
  have p: "preserves ws_types (age_page e i)" for e i
  proof -
    have "preserves ws_types (modify (upd_ws e i (\<lambda>v. v\<lparr>time_stamp := t\<rparr>)))" for t
      by (rule preserves_modify, rule upd_ws_types) (auto simp: ws_types_def entry_ok_def)
    then show ?thesis unfolding age_page_def Let_def by (intro preserves_intros)
  qed
  have "preserves ws_types (age_table e i)" for e i
  proof -
    have "preserves ws_types (modify (upd_tws e i g))" for g
      unfolding upd_tws_def by (intro wst.env_fields) simp
    then show ?thesis unfolding age_table_def Let_def by (intro preserves_intros)
  qed
  with p show ?thesis
    unfolding clock_interrupt_handler_def isPageReplacmentAlgorithm_def update_WS_time_stamps_def by (intro preserves_intros)
qed

text \<open>C16: Working sets stay well formed through everything a running system does: page faults, clock
  interrupts, the kernel side of malloc and free, waiting and signalling, creating, getting and
  freeing shared objects.  Every entry holds the page-aligned address of a user page and a flag
  of 0 or 1, and the index of the next victim is an index of the array.\<close>

theorem working_sets_well_formed:
  "preserves ws_types (fault_handler cs) \<and> preserves ws_types clock_interrupt_handler \<and>
   preserves ws_types (allocateMem e va sz) \<and> preserves ws_types (freeMem e va sz) \<and>
   preserves ws_types (waitSemaphore owner name) \<and> preserves ws_types (signalSemaphore owner name) \<and>
   preserves ws_types (createSharedObject owner name sz writable va) \<and>
   preserves ws_types (getSharedObject owner name va) \<and> preserves ws_types (freeSharedObject n va)"
  by (intro conjI fault_types clock_types free_types wst.fault_ops wst.semaphore_ops wst.share_ops)

end
