(* ===== verification/Fault_Order.thy ===== *)
theory Fault_Order
  imports Fault_Props WS_Types
begin

text \<open>
  The order in which pages leave a working set.  The kernel keeps no ages, so the order of arrival is
  that of a history: the pages that the handler of page faults has brought in, one after the other.  The
  page that a fault evicts is the oldest of those that are left, as long as only faults touch the working
  set.  \<open>freeMem\<close> moves the index, and then it may be a younger one.
\<close>

section \<open>What a fault does to a working set\<close>

text \<open>The working set of \<open>e\<close> is left alone, or its entries except that at \<open>i\<close>.  Time stamps do not count.\<close>

definition same_pages :: "nat \<Rightarrow> kstate \<Rightarrow> kstate \<Rightarrow> bool" where
  "same_pages e s t \<longleftrightarrow>
     (\<forall>j. ws_va (pageWorkingSet (envs t e) j) = ws_va (pageWorkingSet (envs s e) j) \<and>
          ws_empty (pageWorkingSet (envs t e) j) = ws_empty (pageWorkingSet (envs s e) j)) \<and>
     page_last_WS_index (envs t e) = page_last_WS_index (envs s e) \<and>
     page_WS_max_size (envs t e) = page_WS_max_size (envs s e)"

definition same_but :: "nat \<Rightarrow> nat \<Rightarrow> kstate \<Rightarrow> kstate \<Rightarrow> bool" where
  "same_but e i s t \<longleftrightarrow>
     (\<forall>j. j \<noteq> i \<longrightarrow> ws_va (pageWorkingSet (envs t e) j) = ws_va (pageWorkingSet (envs s e) j) \<and>
          ws_empty (pageWorkingSet (envs t e) j) = ws_empty (pageWorkingSet (envs s e) j)) \<and>
     page_last_WS_index (envs t e) = page_last_WS_index (envs s e) \<and>
     page_WS_max_size (envs t e) = page_WS_max_size (envs s e)"

lemma same_refl [simp]: "same_pages e s s" "same_but e i s s"
  by (simp_all add: same_pages_def same_but_def)

interpretation pages: ws_invariant "same_pages e s0" for e s0
  by unfold_locales (simp add: ws_same_def same_pages_def)

interpretation others: ws_invariant "same_but e i s0" for e i s0
  by unfold_locales (simp add: ws_same_def same_but_def)

lemma clear_entry_same_but:
  "preserves (same_but e i s0) (env_page_ws_clear_entry e w)" if "unat w = i"
  using that
  by (auto simp: preserves_def env_page_ws_clear_entry_def get_env_def get_ws_def seqm_eq_Inr bnd_eq_Inr
      same_but_def upd_ws_def upd_env_def split: if_splits)

lemma evict_same_but:
  assumes "evict e s = Inr ((), s')"
  shows "same_but e (unat (page_last_WS_index (envs s e))) s s'"
proof -
  let ?i = "page_last_WS_index (envs s e)" and ?P = "env_page_directory (envs s e)"
  let ?V = "ws_va (pageWorkingSet (envs s e) (unat ?i))"
  have "preserves (same_but e (unat ?i) s) (bnd (get_frame_info ?P ?V) (\<lambda>(fi, _).
     bnd (pt_get_page_permissions e ?V) (\<lambda>perm.
     seqm (whenM (perm AND PERM_MODIFIED \<noteq> 0)
             (bnd (deref fi) (\<lambda>fi. bnd (pf_update_env_page e ?V fi) (\<lambda>_. ret ()))))
     (seqm (unmap_frame ?P ?V) (env_page_ws_clear_entry e ?i)))))"
    by (intro preserves_intros clear_entry_same_but) simp_all
  from preservesD[OF this] assms show ?thesis
    by (auto simp: evict_def get_ws_def get_env_def Let_def seqm_def bnd_apply split: if_splits)
qed

text \<open>The effect of a fault: the page goes into the entry at the last index, and the index moves on.\<close>

definition page_placed :: "nat \<Rightarrow> uint32 \<Rightarrow> kstate \<Rightarrow> kstate \<Rightarrow> bool" where
  "page_placed e p s t \<longleftrightarrow> (let i = page_last_WS_index (envs s e); m = page_WS_max_size (envs s e) in
     i < m \<and> page_last_WS_index (envs t e) = (i + 1) mod m \<and> page_WS_max_size (envs t e) = m \<and>
     (\<forall>j. ws_va (pageWorkingSet (envs t e) j) = (if j = unat i then p else ws_va (pageWorkingSet (envs s e) j)) \<and>
          ws_empty (pageWorkingSet (envs t e) j) = (if j = unat i then 0 else ws_empty (pageWorkingSet (envs s e) j))))"

lemma advance_WS_placed:
  assumes "advance_WS e va s1 = Inr ((), t)" and "same_but e (unat (page_last_WS_index (envs s e))) s s1"
  shows "page_placed e (ROUNDDOWN va PAGE_SIZE) s t"
  using assms
  by (auto simp: page_placed_def same_but_def advance_WS_def env_page_ws_set_entry_def get_env_def get_ws_def
      bnd_apply seqm_def upd_ws_def upd_env_def split: if_splits)

lemma page_fault_placed:
  assumes "page_fault_handler e va s = Inr ((), t)"
  shows "page_placed e (ROUNDDOWN va PAGE_SIZE) s t"
proof -
  let ?I = "same_but e (unat (page_last_WS_index (envs s e))) s"
  let ?place = "\<lambda>z m. bnd (allocate_frame kmalloc) (\<lambda>fi. seqm (bring_in e va fi z m) (advance_WS e va))"
  have place: "page_placed e (ROUNDDOWN va PAGE_SIZE) s t" if "?place z m s0 = Inr ((), t)" "?I s0" for z m s0
  proof -
    from that(1) obtain fi s1 s2 where r: "allocate_frame kmalloc s0 = Inr (fi, s1)"
      "bring_in e va fi z m s1 = Inr ((), s2)" "advance_WS e va s2 = Inr ((), t)"
      by (auto simp: bnd_eq_Inr seqm_eq_Inr)
    have "preserves ?I (allocate_frame kmalloc)" by (intro preserves_intros)
    then have "?I s1" using r(1) that(2) by (rule preservesD)
    have "preserves ?I (bring_in e va fi z m)" by (rule others.fault_ops)
    then have "?I s2" using r(2) \<open>?I s1\<close> by (rule preservesD)
    from advance_WS_placed[OF r(3) this] show ?thesis .
  qed
  have "env_page_ws_get_size e s = Inr (x, s1) \<Longrightarrow> s1 = s" for x s1
    by (auto simp: env_page_ws_get_size_def get_env_def get_ws_def bnd_eq_Inr seqm_eq_Inr split: if_splits)
  with assms consider "?place 0 ''invalid access in page file'' s = Inr ((), t)"
    | s1 where "evict e s = Inr ((), s1)" "?place 1 ''invalid access !!!..'' s1 = Inr ((), t)"
    by (auto simp: page_fault_handler_def bnd_eq_Inr[of "env_page_ws_get_size e"] bnd_eq_Inr[of "get_env e"] seqm_eq_Inr[of "evict e"]
        get_env_def split: if_splits)
  then show ?thesis
  proof cases
    case 1
    then show ?thesis by (rule place) simp
  next
    case 2
    then show ?thesis by (intro place) (auto intro: evict_same_but)
  qed
qed

section \<open>Histories\<close>

text \<open>
  A history of the working set of \<open>e\<close>: page faults of \<open>e\<close> that the handler has answered, and between them
  whatever leaves its working set alone; the list has the pages brought in, in the order of their arrival.
\<close>

inductive fault_history :: "nat \<Rightarrow> kstate \<Rightarrow> uint32 list \<Rightarrow> kstate \<Rightarrow> bool" for e s where
  start: "fault_history e s [] s"
| fault: "fault_history e s ps t \<Longrightarrow> page_fault_handler e va t = Inr ((), u)
    \<Longrightarrow> fault_history e s (ps @ [ROUNDDOWN va PAGE_SIZE]) u"
| other: "fault_history e s ps t \<Longrightarrow> same_pages e t u \<Longrightarrow> fault_history e s ps u"

text \<open>What leaves it alone: the other work of the kernel, the faults of other environments included.\<close>

lemma other_fault:
  assumes "page_fault_handler e' va t = Inr ((), u)" and "e' \<noteq> e"
  shows "same_pages e t u"
proof -
  have c: "preserves (same_pages e t) (env_page_ws_clear_entry e' w)" for w
    using assms(2)
    by (auto simp: preserves_def env_page_ws_clear_entry_def get_env_def get_ws_def seqm_eq_Inr bnd_eq_Inr
        same_pages_def upd_ws_def upd_env_def split: if_splits)
  have a: "preserves (same_pages e t) (advance_WS e' va)"
    using assms(2)
    by (auto simp: preserves_def advance_WS_def env_page_ws_set_entry_def get_env_def get_ws_def bnd_apply seqm_def
        same_pages_def upd_ws_def upd_env_def split: if_splits)
  have g: "preserves (same_pages e t) (get_ws e')" unfolding get_ws_def by (intro preserves_intros)
  have z: "preserves (same_pages e t) (env_page_ws_get_size e')"
    unfolding env_page_ws_get_size_def by (intro preserves_intros g)
  have "preserves (same_pages e t) (evict e')" unfolding evict_def Let_def by (intro preserves_intros c g)
  then have "preserves (same_pages e t) (page_fault_handler e' va)"
    unfolding page_fault_handler_def by (intro preserves_intros pages.fault_ops a z)
  from preservesD[OF this assms(1)] show ?thesis by simp
qed

lemma other_work:
  "preserves (same_pages e t) (allocateMem e' va sz)" "preserves (same_pages e t) (table_fault_handler e' va)"
  "preserves (same_pages e t) (waitSemaphore owner name)" "preserves (same_pages e t) (signalSemaphore owner name)"
  "preserves (same_pages e t) (createSharedObject owner name sz writable va)"
  "preserves (same_pages e t) (getSharedObject owner name va)" "preserves (same_pages e t) (freeSharedObject n va)"
  "preserves (same_pages e t) (kmalloc n)" "preserves (same_pages e t) (kfree va)" "preserves (same_pages e t) fos_scheduler"
  by (rule pages.fault_ops pages.semaphore_ops pages.share_ops pages.kmalloc pages.kfree pages.scheduler_ops)+

text \<open>A working set that holds the pages \<open>ps\<close>, in the order they were put there, and no others: an environment
  that was just created, or (\<open>ps\<close> empty) a fresh one.\<close>

definition loaded :: "nat \<Rightarrow> uint32 list \<Rightarrow> kstate \<Rightarrow> bool" where
  "loaded e ps s \<longleftrightarrow> (let env = envs s e; n = unat (page_WS_max_size env); ws = pageWorkingSet env in
     0 < n \<and> length ps \<le> n \<and> unat (page_last_WS_index env) = length ps mod n \<and>
     (\<forall>j<n. if j < length ps then ws_va (ws j) = ps ! j \<and> ws_empty (ws j) = 0 else ws_empty (ws j) \<noteq> 0))"

text \<open>The arrivals so far: the last of them, as many as there is room for, are in the array, each at its place modulo
  the size.\<close>

definition arrivals :: "nat \<Rightarrow> uint32 list \<Rightarrow> kstate \<Rightarrow> bool" where
  "arrivals e ps s \<longleftrightarrow> (let env = envs s e; n = unat (page_WS_max_size env); ws = pageWorkingSet env in
     0 < n \<and> unat (page_last_WS_index env) = length ps mod n \<and>
     (\<forall>k<length ps. length ps \<le> k + n \<longrightarrow> ws_va (ws (k mod n)) = ps ! k \<and> ws_empty (ws (k mod n)) = 0) \<and>
     (\<forall>j<n. length ps \<le> j \<longrightarrow> ws_empty (ws j) \<noteq> 0))"

lemma loaded_arrivals: "loaded e ps s \<Longrightarrow> arrivals e ps s"
  unfolding loaded_def arrivals_def Let_def by (auto split: if_splits)

lemma arrivals_same: "arrivals e ps s \<Longrightarrow> same_pages e s t \<Longrightarrow> arrivals e ps t"
  by (simp add: arrivals_def same_pages_def Let_def)

lemma mod_apart:
  fixes k l n :: nat
  assumes "k < l" and "l < k + n"
  shows "k mod n \<noteq> l mod n"
proof
  assume "k mod n = l mod n"
  then have "n dvd l - k" using assms(1) by (metis mod_eq_dvd_iff_nat less_imp_le)
  with assms show False by (auto dest: dvd_imp_le)
qed

lemma arrivals_placed:
  assumes "arrivals e ps s" and "page_placed e p s t"
  shows "arrivals e (ps @ [p]) t"
proof -
  let ?n = "unat (page_WS_max_size (envs s e))" and ?L = "length ps" and ?i = "page_last_WS_index (envs s e)"
  from assms(1) have a: "0 < ?n" "unat ?i = ?L mod ?n"
    "\<And>k. k < ?L \<Longrightarrow> ?L \<le> k + ?n \<Longrightarrow> ws_va (pageWorkingSet (envs s e) (k mod ?n)) = ps ! k \<and>
        ws_empty (pageWorkingSet (envs s e) (k mod ?n)) = 0"
    "\<And>j. j < ?n \<Longrightarrow> ?L \<le> j \<Longrightarrow> ws_empty (pageWorkingSet (envs s e) j) \<noteq> 0"
    by (simp_all add: arrivals_def Let_def)
  from assms(2) have p: "?i < page_WS_max_size (envs s e)" "page_WS_max_size (envs t e) = page_WS_max_size (envs s e)"
    "page_last_WS_index (envs t e) = (?i + 1) mod page_WS_max_size (envs s e)"
    "\<And>j. ws_va (pageWorkingSet (envs t e) j) = (if j = unat ?i then p else ws_va (pageWorkingSet (envs s e) j)) \<and>
         ws_empty (pageWorkingSet (envs t e) j) = (if j = unat ?i then 0 else ws_empty (pageWorkingSet (envs s e) j))"
    by (simp_all add: page_placed_def Let_def)
  have "unat (?i + 1) = unat ?i + 1"
    using p(1) unsigned_less[of "page_WS_max_size (envs s e)", where 'a = nat] by (simp add: unat_word_ariths(1) word_less_nat_alt)
  then have "unat (page_last_WS_index (envs t e)) = Suc ?L mod ?n"
    by (simp add: p(3) unat_mod_distrib a(2) mod_Suc_eq)
  moreover have "ws_va (pageWorkingSet (envs t e) (k mod ?n)) = (ps @ [p]) ! k \<and> ws_empty (pageWorkingSet (envs t e) (k mod ?n)) = 0"
    if "k < Suc ?L" "Suc ?L \<le> k + ?n" for k
  proof (cases "k = ?L")
    case False
    then have "k < ?L" "k mod ?n \<noteq> ?L mod ?n" using that mod_apart[of k ?L ?n] by auto
    then show ?thesis using p(4)[of "k mod ?n"] a(2) a(3)[of k] that by (simp add: nth_append)
  qed (use p(4)[of "?L mod ?n"] a(2) in simp)
  moreover have "ws_empty (pageWorkingSet (envs t e) j) \<noteq> 0" if "j < ?n" "Suc ?L \<le> j" for j
    using p(4)[of j] a(2) a(4)[of j] that by auto
  ultimately show ?thesis using a(1) by (simp add: arrivals_def Let_def p(2))
qed

lemma history_arrivals:
  assumes "fault_history e s qs t" and "arrivals e ps s"
  shows "arrivals e (ps @ qs) t"
  using assms(1)
proof induction
  case start
  then show ?case using assms(2) by simp
next
  case (fault qs t va u)
  from arrivals_placed[OF fault.IH page_fault_placed[OF fault.hyps(2)]] show ?case by simp
next
  case (other qs t u)
  then show ?case by (rule_tac arrivals_same)
qed

text \<open>A full working set: the ring is the youngest arrivals, oldest first.\<close>

lemma arrivals_full:
  assumes "arrivals e ps s" and "unat (page_WS_max_size (envs s e)) \<le> length ps"
  shows "ws_full e s" and "ring e s = drop (length ps - unat (page_WS_max_size (envs s e))) ps"
proof -
  let ?n = "unat (page_WS_max_size (envs s e))" and ?L = "length ps"
  from assms(1) have a: "0 < ?n" "unat (page_last_WS_index (envs s e)) = ?L mod ?n"
    "\<And>k. k < ?L \<Longrightarrow> ?L \<le> k + ?n \<Longrightarrow> ws_va (pageWorkingSet (envs s e) (k mod ?n)) = ps ! k \<and>
        ws_empty (pageWorkingSet (envs s e) (k mod ?n)) = 0"
    by (simp_all add: arrivals_def Let_def)
  have place: "(?L mod ?n + j) mod ?n = (?L - ?n + j) mod ?n" for j
  proof -
    have "(?L mod ?n + j) mod ?n = (?L - ?n + ?n + j) mod ?n" using assms(2) by (simp add: mod_add_left_eq)
    also have "\<dots> = (?L - ?n + j + ?n) mod ?n" by (simp add: ac_simps)
    finally show ?thesis by simp
  qed
  show "ring e s = drop (?L - ?n) ps"
  proof (rule nth_equalityI)
    fix j assume "j < length (ring e s)"
    then have j: "j < ?n" by (simp add: ring_def Let_def)
    then show "ring e s ! j = drop (?L - ?n) ps ! j"
      using a(3)[of "?L - ?n + j"] assms(2) by (simp add: ring_def Let_def a(2) place)
  qed (use assms(2) in \<open>simp add: ring_def Let_def\<close>)
  show "ws_full e s"
    unfolding ws_full_def
  proof (intro allI impI)
    fix i assume i: "i < ?n"
    define j where "j = (i + ?n - ?L mod ?n) mod ?n"
    have "?L mod ?n < ?n" using a(1) by simp
    then have "?L mod ?n + (i + ?n - ?L mod ?n) = i + ?n" by simp
    then have "(?L mod ?n + j) mod ?n = i"
      unfolding j_def mod_add_right_eq using i by simp
    then have "(?L - ?n + j) mod ?n = i" by (simp add: place)
    moreover have "j < ?n" using a(1) by (simp add: j_def)
    ultimately show "ws_empty (pageWorkingSet (envs s e) i) = 0"
      using a(3)[of "?L - ?n + j"] assms(2) by simp
  qed
qed

section \<open>First in, first out\<close>

lemma window_moves:
  assumes "n \<le> length xs" and "0 < n"
  shows "List.tl (drop (length xs - n) xs) @ [x] = drop (Suc (length xs) - n) (xs @ [x])"
proof -
  have "Suc (length xs) - n = Suc (length xs - n)" and "Suc (length xs - n) \<le> length xs" using assms by simp_all
  then show ?thesis by (simp add: tl_drop drop_Suc)
qed

text \<open>C2: A working set was loaded with the pages \<open>ps\<close> in this order, and since then only page faults have changed it
  (\<open>freeMem\<close> has not); they brought in the pages \<open>qs\<close>.  A further fault, on a page of the page file and with the working set
  full, evicts the page that came first of those that are still resident: of all arrivals the last \<open>n\<close> were resident, and afterwards
  the last \<open>n\<close> are again, the faulted page included.  The victim's entry is cleared, its contents are in its disk frame when
  it was modified, and its frame now holds the wanted page, mapped for the user.  The free frames are as before.\<close>

theorem page_replacement_is_fifo:
  assumes "loaded e ps s0" and "fault_history e s0 qs s" and "unat (page_WS_max_size (envs s e)) \<le> length (ps @ qs)"
    and "curenv s = Some e" and "evictable e v wv t s" and "page_out e va u w s"
    and "v \<noteq> u" and "v \<noteq> w" and "v \<noteq> word_at (env_page_directory (envs s e)) (PDX va)"
    and "v \<noteq> word_at (disk_env_pgdir (envs s e)) (PDX va)"
    and "frame_of (kmem s v) \<notin> table_frames e va s" and "kmem s wv \<noteq> kmem s w"
  shows "let arrived = ps @ qs; n = unat (page_WS_max_size (envs s e)) in
    ring e s = drop (length arrived - n) arrived \<and> victim e s = arrived ! (length arrived - n) \<and>
    (\<exists>s'. page_fault_handler e va s = Inr ((), s') \<and>
      ring e s' = drop (Suc (length arrived) - n) (arrived @ [ROUNDDOWN va PAGE_SIZE]) \<and>
      kmem s' = (kmem s)(v := 0, u := user_entry (frame_of (kmem s v))) \<and>
      frame_data s' = (frame_data s)(frame_of (kmem s v) := disk_data s (unat (kmem s w))) \<and>
      disk_data s' = (if dirty v s then (disk_data s)(unat (kmem s wv) := frame_data s (frame_of (kmem s v)))
        else disk_data s) \<and>
      free_frame_list s' = free_frame_list s)"
proof -
  let ?a = "ps @ qs" and ?n = "unat (page_WS_max_size (envs s e))"
  have arr: "arrivals e ?a s" by (rule history_arrivals[OF assms(2) loaded_arrivals[OF assms(1)]])
  note full = arrivals_full[OF arr assms(3)]
  have n: "0 < ?n" using arr by (simp add: arrivals_def Let_def)
  obtain s' where s': "page_fault_handler e va s = Inr ((), s')" "ring e s' = List.tl (ring e s) @ [ROUNDDOWN va PAGE_SIZE]"
    "kmem s' = (kmem s)(v := 0, u := user_entry (frame_of (kmem s v)))"
    "frame_data s' = (frame_data s)(frame_of (kmem s v) := disk_data s (unat (kmem s w)))"
    "disk_data s' = (if dirty v s then (disk_data s)(unat (kmem s wv) := frame_data s (frame_of (kmem s v))) else disk_data s)"
    "free_frame_list s' = free_frame_list s"
    using page_fault_replaces[OF assms(4) full(1) assms(5-12)] by blast
  have "victim e s = ring e s ! 0" using n arr by (simp add: victim_def ring_def arrivals_def Let_def)
  also have "\<dots> = ?a ! (length ?a - ?n)" unfolding full(2) by (subst nth_drop) simp_all
  finally have "victim e s = ?a ! (length ?a - ?n)" .
  moreover have "ring e s' = drop (Suc (length ?a) - ?n) (?a @ [ROUNDDOWN va PAGE_SIZE])"
    unfolding s'(2) full(2) by (rule window_moves[OF assms(3) n])
  ultimately show ?thesis using full(2) s' unfolding Let_def by blast
qed

text \<open>The swap machine with a working set of one page.\<close>

theorem page_replacement_is_fifo_witness:
  "\<exists>s'. page_fault_handler 0 0x801123 full_machine = Inr ((), s') \<and> victim 0 full_machine = 0x800000 \<and>
    ring 0 s' = [0x801000] \<and> kmem s' 0xF6000000 = 0 \<and> disk_data s' 5 7 = 7 \<and> frame_data s' 0x400 7 = 0"
proof -
  note f = full_machine_faults
  have n: "unat (page_WS_max_size (envs full_machine 0)) = 1" by (simp add: full_machine_def)
  have "loaded 0 [0x800000] full_machine" by (simp add: loaded_def full_machine_def Let_def zero_env_def swap_eval)
  from page_replacement_is_fifo[OF this fault_history.start _ f(1,6,7) _ _ f(8-11)]
  show ?thesis
    using f(3,5) by (auto simp: n Let_def) (auto simp: full_machine_def swap_machine_def frame_of_def PPN_def zero_kstate_def)
qed

section \<open>Freed pages\<close>

text \<open>
  \<open>freeMem\<close> moves the last index down to the entry it clears.  When this entry is not the last one filled, the fault
  that follows fills it, and then the index is at a page that arrived later than the oldest one.
\<close>

lemma free_resident_placed:
  assumes "free_resident_page e va sz w s = Inr ((), t)"
    and "va \<le> ROUNDDOWN (ws_va (pageWorkingSet (envs s e) (unat w))) PAGE_SIZE"
    and "ROUNDDOWN (ws_va (pageWorkingSet (envs s e) (unat w))) PAGE_SIZE < va + sz"
    and "w < page_last_WS_index (envs s e)"
  shows "page_last_WS_index (envs t e) = w" "page_WS_max_size (envs t e) = page_WS_max_size (envs s e)"
    "\<forall>j. j \<noteq> unat w \<longrightarrow> ws_va (pageWorkingSet (envs t e) j) = ws_va (pageWorkingSet (envs s e) j) \<and>
       ws_empty (pageWorkingSet (envs t e) j) = ws_empty (pageWorkingSet (envs s e) j)"
proof -
  let ?a = "ROUNDDOWN (ws_va (pageWorkingSet (envs s e) (unat w))) PAGE_SIZE" and ?P = "env_page_directory (envs s e)"
  from assms(1-3) obtain s1 s2 where r: "unmap_frame ?P ?a s = Inr ((), s1)" "env_page_ws_clear_entry e w s1 = Inr ((), s2)"
    "t = (if w < page_last_WS_index (envs s2 e) then upd_env e (\<lambda>v. v\<lparr>page_last_WS_index := w\<rparr>) s2 else s2)"
    by (auto simp: free_resident_page_def env_page_ws_get_virtual_address_def get_env_def get_ws_def bnd_apply seqm_def
        split: if_splits sum.splits)
  have "preserves (same_but e (unat w) s) (unmap_frame ?P ?a)" by (intro preserves_intros)
  then have "same_but e (unat w) s s1" using r(1) same_refl(2) by (rule preservesD)
  then have "same_but e (unat w) s s2" by (rule preservesD[OF clear_entry_same_but[OF refl] r(2)])
  then show "page_last_WS_index (envs t e) = w" "page_WS_max_size (envs t e) = page_WS_max_size (envs s e)"
    "\<forall>j. j \<noteq> unat w \<longrightarrow> ws_va (pageWorkingSet (envs t e) j) = ws_va (pageWorkingSet (envs s e) j) \<and>
       ws_empty (pageWorkingSet (envs t e) j) = ws_empty (pageWorkingSet (envs s e) j)"
    using assms(4) by (auto simp: same_but_def r(3) upd_env_def)
qed

theorem freed_page_breaks_fifo:
  assumes "arrivals e ps s" and "unat (page_WS_max_size (envs s e)) \<le> length ps"
    and "unat w + 1 < unat (page_last_WS_index (envs s e))"
    and "va \<le> ROUNDDOWN (ws_va (pageWorkingSet (envs s e) (unat w))) PAGE_SIZE"
    and "ROUNDDOWN (ws_va (pageWorkingSet (envs s e) (unat w))) PAGE_SIZE < va + sz"
    and "free_resident_page e va sz w s = Inr ((), t)" and "page_fault_handler e a t = Inr ((), u)"
  shows "let oldest = length ps - unat (page_WS_max_size (envs s e)) in
    (\<exists>k. oldest < k \<and> k < length ps \<and> victim e u = ps ! k) \<and>
    (\<exists>j. ws_va (pageWorkingSet (envs u e) j) = ps ! oldest \<and> ws_empty (pageWorkingSet (envs u e) j) = 0)"
proof -
  let ?n = "unat (page_WS_max_size (envs s e))" and ?L = "length ps" and ?i = "unat (page_last_WS_index (envs s e))"
  from assms(1) have ar: "0 < ?n" "?i = ?L mod ?n"
    "\<And>k. k < ?L \<Longrightarrow> ?L \<le> k + ?n \<Longrightarrow> ws_va (pageWorkingSet (envs s e) (k mod ?n)) = ps ! k \<and>
        ws_empty (pageWorkingSet (envs s e) (k mod ?n)) = 0"
    by (simp_all add: arrivals_def Let_def)
  have i: "?i < ?n" "?i \<le> ?L" using ar(1,2) by simp_all
  have w: "w < page_last_WS_index (envs s e)" using assms(3) by (simp add: word_less_nat_alt)
  note f = free_resident_placed[OF assms(6,4,5) w]
  from page_fault_placed[OF assms(7)] have p: "page_last_WS_index (envs u e) = (w + 1) mod page_WS_max_size (envs s e)"
    "\<And>j. j \<noteq> unat w \<Longrightarrow> ws_va (pageWorkingSet (envs u e) j) = ws_va (pageWorkingSet (envs s e) j) \<and>
       ws_empty (pageWorkingSet (envs u e) j) = ws_empty (pageWorkingSet (envs s e) j)"
    using f by (simp_all add: page_placed_def Let_def)
  have "unat (w + 1) = unat w + 1"
    using assms(3) unsigned_less[of "page_last_WS_index (envs s e)", where 'a = nat] by (simp add: unat_word_ariths(1))
  then have ui: "unat (page_last_WS_index (envs u e)) = unat w + 1"
    using assms(3) i(1) by (simp add: p(1) unat_mod_distrib)
  let ?k = "?L - ?i + (unat w + 1)"
  have "?L - ?i = ?L div ?n * ?n" using ar(2) by (simp add: minus_mod_eq_div_mult)
  then have "?k mod ?n = unat w + 1" using assms(3) i(1) by simp
  moreover have k: "?L - ?n < ?k" "?k < ?L" "?L \<le> ?k + ?n" using assms(2,3) i by linarith+
  ultimately have "victim e u = ps ! ?k" using ar(3)[OF k(2,3)] p(2)[of "unat w + 1"] by (simp add: victim_def ui)
  moreover have "(?L - ?n) mod ?n = ?i" using assms(2) ar(2) by (simp add: mod_if[of ?L] le_mod_geq)
  then have "ws_va (pageWorkingSet (envs u e) ?i) = ps ! (?L - ?n) \<and> ws_empty (pageWorkingSet (envs u e) ?i) = 0"
    using ar(1) ar(3)[of "?L - ?n"] p(2)[of ?i] assms(2,3) by simp
  ultimately show ?thesis using k unfolding Let_def by blast
qed

end
