(* ===== verification/Shares_Props.thy ===== *)
theory Shares_Props
  imports Shares
begin

text \<open>
  Getting a shared object: the pages of the caller lead to the frames of the object, without write
  permission when the object is read-only.
\<close>

section \<open>Sharing the pages\<close>

definition page_of :: "uint32 \<Rightarrow> nat \<Rightarrow> uint32" where
  "page_of va k = va + of_nat k * PAGE_SIZE"

text \<open>
  The pages \<open>lo..<n\<close> of an object with storage \<open>st\<close> can be mapped at \<open>va\<close> under \<open>pgdir\<close>: page
  \<open>k\<close> has a free word at \<open>u k\<close>, the storage holds its frame at \<open>w k\<close>, and the words of the pages
  are apart from the storage and from the two directories, and their tables from the frames shared.
\<close>

definition stored_frame :: "(nat \<Rightarrow> uint32) \<Rightarrow> kstate \<Rightarrow> nat \<Rightarrow> nat" where
  "stored_frame w s k = frame_of (kmem s (w k))"

definition page_ready :: "uint32 \<Rightarrow> uint32 \<Rightarrow> uint32 \<Rightarrow> (nat \<Rightarrow> uint32) \<Rightarrow> (nat \<Rightarrow> uint32) \<Rightarrow> kstate \<Rightarrow> nat \<Rightarrow> bool" where
  "page_ready pgdir st va u w s k \<longleftrightarrow>
     slot pgdir (page_of va k) s = Some (u k) \<and> kmem s (u k) = 0 \<and>
     slot st (page_of 0 k) s = Some (w k) \<and> kmem s (w k) \<noteq> 0 \<and> stored_frame w s k < unat (number_of_frames s)"

definition page_apart :: "uint32 \<Rightarrow> uint32 \<Rightarrow> uint32 \<Rightarrow> (nat \<Rightarrow> uint32) \<Rightarrow> (nat \<Rightarrow> uint32) \<Rightarrow> kstate \<Rightarrow> nat \<Rightarrow> nat \<Rightarrow> bool" where
  "page_apart pgdir st va u w s k j \<longleftrightarrow>
     u k \<noteq> w j \<and> u k \<noteq> word_at pgdir (PDX (page_of va j)) \<and> u k \<noteq> word_at st (PDX (page_of 0 j)) \<and>
     stored_frame w s k \<noteq> frame_of (kmem s (word_at pgdir (PDX (page_of va j)))) \<and>
     stored_frame w s k \<noteq> frame_of (kmem s (word_at st (PDX (page_of 0 j)))) \<and> (k = j \<or> u k \<noteq> u j)"

definition pages_ready :: "uint32 \<Rightarrow> uint32 \<Rightarrow> uint32 \<Rightarrow> (nat \<Rightarrow> uint32) \<Rightarrow> (nat \<Rightarrow> uint32) \<Rightarrow> nat \<Rightarrow> nat \<Rightarrow> kstate \<Rightarrow> bool" where
  "pages_ready pgdir st va u w lo n s \<longleftrightarrow>
     (\<forall>k\<in>{lo..<n}. page_ready pgdir st va u w s k \<and> (\<forall>j\<in>{lo..<n}. page_apart pgdir st va u w s k j))"

definition share_entry :: "Share \<Rightarrow> nat \<Rightarrow> uint32" where
  "share_entry x fi = CONSTRUCT_ENTRY (to_physical_address fi) (share_perm x OR PERM_PRESENT)"

definition shared_page :: "Share \<Rightarrow> uint32 \<Rightarrow> (nat \<Rightarrow> uint32) \<Rightarrow> (nat \<Rightarrow> uint32) \<Rightarrow> nat \<Rightarrow> kstate \<Rightarrow> kstate" where
  "shared_page x va u w k s = (inc_ref (stored_frame w s k) (page_of va k) s)
     \<lparr>kmem := (kmem s)(u k := share_entry x (stored_frame w s k))\<rparr>"

lemma get_page_step:
  assumes rdy: "page_ready pgdir (framesStorage x) va u w s k" and cur: "curenv s = Some e"
    and pd: "pgdir = env_page_directory (envs s e)" and x: "shares s i = x"
  shows "get_page i va k s = Inr ((), shared_page x va u w k s)"
proof -
  let ?f = "stored_frame w s k"
  from rdy have r: "slot pgdir (page_of va k) s = Some (u k)" "kmem s (u k) = 0"
    "slot (framesStorage x) (page_of 0 k) s = Some (w k)" "kmem s (w k) \<noteq> 0" "?f < unat (number_of_frames s)"
    by (simp_all add: page_ready_def)
  obtain pt where g: "get_frame_info (framesStorage x) (page_of 0 k) s = Inr ((Some ?f, pt), s)"
    by (rule get_frame_info_slot[OF r(3)]) (use r(4,5) in \<open>simp_all add: stored_frame_def\<close>)
  have np: "\<not> kmem s (u k) AND PERM_PRESENT = PERM_PRESENT" using r(2) by (auto simp: PERM_PRESENT_def)
  have "?f < 2 ^ 20" unfolding stored_frame_def by (rule frame_of_less)
  from map_frame_slot[OF r(1) this, of kmalloc "share_perm x"] np
  have "map_frame kmalloc pgdir ?f (page_of va k) (share_perm x) s = Inr ((), shared_page x va u w k s)"
    by (simp add: shared_page_def share_entry_def)
  then show ?thesis
    using g cur pd x
    by (simp add: get_page_def get_frame_from_storage_def current_directory_def get_env_def bnd_apply page_of_def)
qed

text \<open>Sharing one page leaves the others as they were.\<close>

lemma shared_page_frame:
  "kmem (shared_page x va u w k s) = (kmem s)(u k := share_entry x (stored_frame w s k))"
  "number_of_frames (shared_page x va u w k s) = number_of_frames s" "envs (shared_page x va u w k s) = envs s"
  "curenv (shared_page x va u w k s) = curenv s" "shares (shared_page x va u w k s) = shares s"
  "f \<noteq> stored_frame w s k \<Longrightarrow> frames_info (shared_page x va u w k s) f = frames_info s f"
  by (simp_all add: shared_page_def inc_ref_def upd_frame_def)

lemma pages_ready_step:
  assumes rdy: "pages_ready pgdir st va u w lo n s" and lo: "lo < n"
  shows "pages_ready pgdir st va u w (Suc lo) n (shared_page x va u w lo s)"
    and "\<forall>k\<in>{Suc lo..<n}. stored_frame w (shared_page x va u w lo s) k = stored_frame w s k"
proof -
  let ?s = "shared_page x va u w lo s"
  have ap: "page_apart pgdir st va u w s k j" if "k \<in> {lo..<n}" "j \<in> {lo..<n}" for k j
    using rdy that by (simp add: pages_ready_def)
  have l: "lo \<in> {lo..<n}" using lo by simp
  have km: "kmem ?s a = kmem s a" if "a \<noteq> u lo" for a using that by (simp add: shared_page_frame)
  have sf: "stored_frame w ?s k = stored_frame w s k" if "k \<in> {Suc lo..<n}" for k
  proof -
    have "u lo \<noteq> w k" using ap[OF l, of k] that by (simp add: page_apart_def)
    then have "w k \<noteq> u lo" by simp
    then show ?thesis by (simp add: stored_frame_def km)
  qed
  then show "\<forall>k\<in>{Suc lo..<n}. stored_frame w ?s k = stored_frame w s k" by blast
  have dirs: "kmem ?s (word_at pgdir (PDX (page_of va j))) = kmem s (word_at pgdir (PDX (page_of va j)))"
    "kmem ?s (word_at st (PDX (page_of 0 j))) = kmem s (word_at st (PDX (page_of 0 j)))"
    "frames_info ?s (frame_of (kmem s (word_at pgdir (PDX (page_of va j))))) = frames_info s (frame_of (kmem s (word_at pgdir (PDX (page_of va j)))))"
    "frames_info ?s (frame_of (kmem s (word_at st (PDX (page_of 0 j))))) = frames_info s (frame_of (kmem s (word_at st (PDX (page_of 0 j)))))"
    if "j \<in> {Suc lo..<n}" for j
  proof -
    from ap[OF l, of j] that have h: "word_at pgdir (PDX (page_of va j)) \<noteq> u lo" "word_at st (PDX (page_of 0 j)) \<noteq> u lo"
      "frame_of (kmem s (word_at pgdir (PDX (page_of va j)))) \<noteq> stored_frame w s lo"
      "frame_of (kmem s (word_at st (PDX (page_of 0 j)))) \<noteq> stored_frame w s lo" by (auto simp: page_apart_def)
    show "kmem ?s (word_at pgdir (PDX (page_of va j))) = kmem s (word_at pgdir (PDX (page_of va j)))"
      "kmem ?s (word_at st (PDX (page_of 0 j))) = kmem s (word_at st (PDX (page_of 0 j)))" using h(1,2) by (simp_all add: km)
    show "frames_info ?s (frame_of (kmem s (word_at pgdir (PDX (page_of va j))))) = frames_info s (frame_of (kmem s (word_at pgdir (PDX (page_of va j)))))"
      "frames_info ?s (frame_of (kmem s (word_at st (PDX (page_of 0 j))))) = frames_info s (frame_of (kmem s (word_at st (PDX (page_of 0 j)))))"
      using h(3,4) by (simp_all add: shared_page_frame(6))
  qed
  have rd: "page_ready pgdir st va u w ?s k" if k: "k \<in> {Suc lo..<n}" for k
  proof -
    from rdy k have r: "slot pgdir (page_of va k) s = Some (u k)" "kmem s (u k) = 0"
      "slot st (page_of 0 k) s = Some (w k)" "kmem s (w k) \<noteq> 0" "stored_frame w s k < unat (number_of_frames s)"
      by (simp_all add: pages_ready_def page_ready_def)
    have "slot pgdir (page_of va k) ?s = Some (u k)" "slot st (page_of 0 k) ?s = Some (w k)"
      by (rule slot_stable[OF r(1)] slot_stable[OF r(3)]; use dirs[OF k] in \<open>simp add: shared_page_frame\<close>)+
    moreover have "kmem ?s (u k) = 0" "kmem ?s (w k) \<noteq> 0"
      using ap[OF l, of k] k km r(2,4) by (auto simp: page_apart_def)
    ultimately show ?thesis using r(5) sf[OF k] by (simp add: page_ready_def shared_page_frame)
  qed
  have "page_apart pgdir st va u w ?s k j" if "k \<in> {Suc lo..<n}" "j \<in> {Suc lo..<n}" for k j
    using ap[of k j] that dirs[OF that(2)] sf[OF that(1)] by (simp add: page_apart_def)
  with rd show "pages_ready pgdir st va u w (Suc lo) n ?s" by (simp add: pages_ready_def)
qed

text \<open>How often a frame is among those of the pages \<open>lo..<n\<close>.\<close>

definition times_shared :: "(nat \<Rightarrow> nat) \<Rightarrow> nat \<Rightarrow> nat \<Rightarrow> nat \<Rightarrow> nat" where
  "times_shared f lo n g = length (filter (\<lambda>k. f k = g) [lo..<n])"

lemma get_pages:
  assumes "pages_ready pgdir (framesStorage x) va u w lo n s" and "curenv s = Some e"
    and "pgdir = env_page_directory (envs s e)" and "shares s i = x" and "lo \<le> n"
  shows "\<exists>s'. for_n (n - lo) lo (get_page i va) s = Inr ((), s') \<and>
    (\<forall>k\<in>{lo..<n}. kmem s' (u k) = share_entry x (stored_frame w s k)) \<and>
    (\<forall>a. a \<notin> u ` {lo..<n} \<longrightarrow> kmem s' a = kmem s a) \<and>
    (\<forall>g. references (frames_info s' g) = references (frames_info s g) + of_nat (times_shared (stored_frame w s) lo n g)) \<and>
    shares s' = shares s \<and> free_frame_list s' = free_frame_list s"
  using assms
proof (induction "n - lo" arbitrary: lo s)
  case 0
  then show ?case by (simp add: times_shared_def)
next
  case (Suc m)
  then have lo: "lo < n" "m = n - Suc lo" by linarith+
  let ?s = "shared_page x va u w lo s"
  have "page_ready pgdir (framesStorage x) va u w s lo" using Suc.prems(1) lo(1) by (simp add: pages_ready_def)
  note step = get_page_step[OF this Suc.prems(2,3,4)]
  note rdy = pages_ready_step[OF Suc.prems(1) lo(1), of x]
  have "\<exists>s'. for_n (n - Suc lo) (Suc lo) (get_page i va) ?s = Inr ((), s') \<and>
    (\<forall>k\<in>{Suc lo..<n}. kmem s' (u k) = share_entry x (stored_frame w ?s k)) \<and>
    (\<forall>a. a \<notin> u ` {Suc lo..<n} \<longrightarrow> kmem s' a = kmem ?s a) \<and>
    (\<forall>g. references (frames_info s' g) = references (frames_info ?s g) + of_nat (times_shared (stored_frame w ?s) (Suc lo) n g)) \<and>
    shares s' = shares ?s \<and> free_frame_list s' = free_frame_list ?s"
    by (rule Suc.hyps(1)[OF lo(2) rdy(1)]) (use Suc.prems lo(1) in \<open>simp_all add: shared_page_frame\<close>)
  then obtain s' where s': "for_n (n - Suc lo) (Suc lo) (get_page i va) ?s = Inr ((), s')"
    "\<forall>k\<in>{Suc lo..<n}. kmem s' (u k) = share_entry x (stored_frame w ?s k)"
    "\<forall>a. a \<notin> u ` {Suc lo..<n} \<longrightarrow> kmem s' a = kmem ?s a"
    "\<forall>g. references (frames_info s' g) = references (frames_info ?s g) + of_nat (times_shared (stored_frame w ?s) (Suc lo) n g)"
    "shares s' = shares ?s" "free_frame_list s' = free_frame_list ?s" by blast
  have ran: "n - lo = Suc (n - Suc lo)" using lo(1) by simp
  have run: "for_n (n - lo) lo (get_page i va) s = Inr ((), s')"
    unfolding ran using step s'(1) by simp
  have ul: "u lo \<notin> u ` {Suc lo..<n}"
  proof
    assume "u lo \<in> u ` {Suc lo..<n}"
    then obtain k where k: "k \<in> {Suc lo..<n}" "u lo = u k" by blast
    have "page_apart pgdir (framesStorage x) va u w s lo k"
      using Suc.prems(1) lo(1) k(1) by (simp add: pages_ready_def)
    with k show False by (simp add: page_apart_def)
  qed
  have ks: "kmem s' (u k) = share_entry x (stored_frame w s k)" if "k \<in> {lo..<n}" for k
  proof (cases "k = lo")
    case True
    then show ?thesis using s'(3) ul by (simp add: shared_page_frame)
  next
    case False
    then show ?thesis using s'(2) rdy(2) that by simp
  qed
  have ka: "kmem s' a = kmem s a" if "a \<notin> u ` {lo..<n}" for a
  proof -
    have "a \<noteq> u lo" "a \<notin> u ` {Suc lo..<n}" using that lo(1) by auto
    then show ?thesis using s'(3) by (simp add: shared_page_frame)
  qed
  have rf: "references (frames_info s' g) = references (frames_info s g) + of_nat (times_shared (stored_frame w s) lo n g)" for g
  proof -
    have "filter (\<lambda>k. stored_frame w ?s k = g) [Suc lo..<n] = filter (\<lambda>k. stored_frame w s k = g) [Suc lo..<n]"
      by (rule filter_cong) (use rdy(2) in auto)
    then have "times_shared (stored_frame w s) lo n g =
        (if stored_frame w s lo = g then 1 else 0) + times_shared (stored_frame w ?s) (Suc lo) n g"
      using lo(1) by (simp add: times_shared_def upt_conv_Cons)
    moreover have "references (frames_info ?s g) = references (frames_info s g) + (if stored_frame w s lo = g then 1 else 0)"
      by (auto simp: shared_page_def inc_ref_def upd_frame_def)
    ultimately show ?thesis using s'(4) by simp
  qed
  have "shares s' = shares s" "free_frame_list s' = free_frame_list s"
    using s'(5,6) by (simp_all add: shared_page_frame shared_page_def inc_ref_def upd_frame_def)
  with run ks ka rf show ?case by blast
qed

section \<open>Getting a shared object\<close>

definition share_at :: "uint32 \<Rightarrow> string \<Rightarrow> nat \<Rightarrow> kstate \<Rightarrow> bool" where
  "share_at owner name i s \<longleftrightarrow>
     find (\<lambda>i. is_share owner name (shares s i)) [0..<unat (MAX_SHARES s)] = Some i"

lemma share_entry_read_only: "isWritable x = 0 \<Longrightarrow> share_entry x fi AND PERM_WRITEABLE = 0"
proof -
  assume r: "isWritable x = 0"
  have "to_physical_address fi AND 2 = (to_physical_address fi AND 0xFFF) AND 2" by (simp add: and.assoc)
  then have "to_physical_address fi AND 2 = 0" using to_physical_address_aligned[of fi] by simp
  with r show ?thesis
    by (simp add: share_entry_def share_perm_def CONSTRUCT_ENTRY_def perm_defs bit.conj_disj_distrib2)
qed

text \<open>C17: A process that gets a shared object sees exactly its frames: page \<open>k\<close> of the range leads to
  frame \<open>k\<close> of the object, without write permission when the object is read-only, each frame
  counts one more reference for every page that shows it, no other page table word changes, and
  the object counts one more user.\<close>

theorem shared_object_frames:
  assumes "shares_ptr s \<noteq> 0" and "share_at owner name i s" and "curenv s = Some e"
    and "pages_ready (env_page_directory (envs s e)) (framesStorage (shares s i)) va u w 0 (share_pages (shares s i)) s"
  shows "\<exists>s'. getSharedObject owner name va s = Inr (int i, s') \<and>
    map (\<lambda>k. kmem s' (u k)) [0..<share_pages (shares s i)] =
      map (\<lambda>k. share_entry (shares s i) (stored_frame w s k)) [0..<share_pages (shares s i)] \<and>
    (isWritable (shares s i) \<noteq> 0 \<or>
      list_all (\<lambda>k. kmem s' (u k) AND PERM_WRITEABLE = 0) [0..<share_pages (shares s i)]) \<and>
    (\<forall>a. a \<in> u ` {0..<share_pages (shares s i)} \<or> kmem s' a = kmem s a) \<and>
    (\<forall>g. references (frames_info s' g) =
      references (frames_info s g) + of_nat (times_shared (stored_frame w s) 0 (share_pages (shares s i)) g)) \<and>
    share_references (shares s' i) = share_references (shares s i) + 1 \<and> free_frame_list s' = free_frame_list s"
proof -
  let ?x = "shares s i" and ?n = "share_pages (shares s i)"
  have id: "get_share_object_ID owner name s = Inr (int i, s)"
    using assms(1,2) by (simp add: get_share_object_ID_def search_shares_def with_shares_def share_at_def bnd_apply)
  have ne: "int i \<noteq> E_SHARED_MEM_NOT_EXISTS" by (simp add: E_SHARED_MEM_NOT_EXISTS_def)
  from get_pages[OF assms(4,3) refl refl] obtain s1 where s1: "for_n ?n 0 (get_page i va) s = Inr ((), s1)"
    "\<forall>k\<in>{0..<?n}. kmem s1 (u k) = share_entry ?x (stored_frame w s k)" "\<forall>a. a \<notin> u ` {0..<?n} \<longrightarrow> kmem s1 a = kmem s a"
    "\<forall>g. references (frames_info s1 g) = references (frames_info s g) + of_nat (times_shared (stored_frame w s) 0 ?n g)"
    "shares s1 = shares s" "free_frame_list s1 = free_frame_list s" by auto
  let ?s2 = "upd_share i (\<lambda>x. x\<lparr>share_references := share_references x + 1\<rparr>) s1"
  have run: "getSharedObject owner name va s = Inr (int i, ?s2)"
    using id ne s1(1) by (simp add: getSharedObject_def bnd_apply seqm_def)
  have f: "kmem ?s2 = kmem s1" "frames_info ?s2 = frames_info s1" "free_frame_list ?s2 = free_frame_list s1"
    "share_references (shares ?s2 i) = share_references (shares s i) + 1"
    using s1(5) by (simp_all add: upd_share_def)
  have m: "map (\<lambda>k. kmem ?s2 (u k)) [0..<?n] = map (\<lambda>k. share_entry ?x (stored_frame w s k)) [0..<?n]"
    using s1(2) by (simp add: f(1))
  have "isWritable ?x \<noteq> 0 \<or> list_all (\<lambda>k. kmem ?s2 (u k) AND PERM_WRITEABLE = 0) [0..<?n]"
    using s1(2) share_entry_read_only by (auto simp: f(1) list_all_iff)
  with run m f s1(3,4,6) show ?thesis by (intro exI[of _ ?s2]) auto
qed

text \<open>A read-only object of one page, in frame 0x400, got by environment 0 at 0x801000.\<close>

definition shared_machine :: kstate where
  "shared_machine = zero_kstate\<lparr>number_of_frames := 0x404, curenv := Some 0,
     envs := (\<lambda>_. zero_env\<lparr>env_page_directory := 0xF0300000\<rparr>), shares_ptr := 0xF6007000, MAX_SHARES := 2,
     shares := (\<lambda>_. zero_share)(1 := \<lparr>share_ownerID = 7, share_name = ''x'', share_size = 4096, share_references = 1,
        isWritable = 0, share_empty = False, framesStorage = 0xF6005000\<rparr>),
     frames_info := (\<lambda>_. zero_frame_info)(0x302 := zero_frame_info\<lparr>fi_va := 0xF6000000\<rparr>,
        0x304 := zero_frame_info\<lparr>fi_va := 0xF6006000\<rparr>, 0x400 := zero_frame_info\<lparr>references := 1\<rparr>),
     kmem := (\<lambda>_. 0)(0xF0300008 := 0x302007, 0xF6005000 := 0x304007, 0xF6006000 := 0x400001)\<rparr>"

theorem shared_object_frames_witness:
  "\<exists>s'. getSharedObject 7 ''x'' 0x801000 shared_machine = Inr (1, s') \<and> kmem s' 0xF6000004 = 0x400005 \<and>
     references (frames_info s' 0x400) = 2 \<and> share_references (shares s' 1) = 2"
proof -
  note ev = shared_machine_def slot_def table_of_def Let_def word_at_def PDX_def PTX_def PAGE_SIZE_def
    PERM_PRESENT_def table_address_def CHECK_IF_KERNEL_ADDRESS_def layout_defs EXTRACT_ADDRESS_def PPN_def
    kheap_virtual_address_def zero_frame_info_def page_of_def
  let ?u = "\<lambda>_::nat. 0xF6000004 :: uint32" and ?w = "\<lambda>_::nat. 0xF6006000 :: uint32"
  have n: "share_pages (shares shared_machine 1) = 1" by (simp add: shared_machine_def share_pages_def PAGE_SIZE_def)
  have sf: "stored_frame ?w shared_machine 0 = 0x400"
    by (simp add: stored_frame_def shared_machine_def frame_of_def PPN_def)
  have "page_ready 0xF0300000 0xF6005000 0x801000 ?u ?w shared_machine 0"
    unfolding page_ready_def sf by (simp add: ev)
  moreover have "page_apart 0xF0300000 0xF6005000 0x801000 ?u ?w shared_machine 0 0"
    unfolding page_apart_def sf by (simp add: ev frame_of_def)
  ultimately have rdy: "pages_ready (env_page_directory (envs shared_machine 0)) (framesStorage (shares shared_machine 1))
      0x801000 ?u ?w 0 (share_pages (shares shared_machine 1)) shared_machine"
    unfolding n by (simp add: pages_ready_def shared_machine_def zero_env_def)
  have at: "share_at 7 ''x'' 1 shared_machine"
    by (simp add: share_at_def shared_machine_def is_share_def zero_share_def upt_rec)
  have "curenv shared_machine = Some 0" "shares_ptr shared_machine \<noteq> 0" by (simp_all add: shared_machine_def)
  from shared_object_frames[OF this(2) at this(1) rdy] obtain s' where
    "getSharedObject 7 ''x'' 0x801000 shared_machine = Inr (1, s')"
    "map (\<lambda>k. kmem s' (?u k)) [0..<1] = map (\<lambda>k. share_entry (shares shared_machine 1) (stored_frame ?w shared_machine k)) [0..<1]"
    "references (frames_info s' 0x400) = references (frames_info shared_machine 0x400) +
       of_nat (times_shared (stored_frame ?w shared_machine) 0 1 0x400)"
    "share_references (shares s' 1) = share_references (shares shared_machine 1) + 1"
    unfolding n by auto
  moreover have "references (frames_info shared_machine 0x400) = 1" "share_references (shares shared_machine 1) = 1"
    "share_perm (shares shared_machine 1) = PERM_USER"
    by (simp_all add: shared_machine_def zero_frame_info_def share_perm_def)
  ultimately show ?thesis
    by (auto simp: sf times_shared_def share_entry_def CONSTRUCT_ENTRY_def to_physical_address_def perm_defs)
qed

end
