(* ===== verification/Frames_Props.thy ===== *)
theory Frames_Props
  imports WorkingSet
begin

text \<open>
  \<open>calculate_required_frames\<close> counts what it promises: the page tables and the pages of a range
  that have no frame yet.
\<close>

section \<open>The counting loop\<close>

lemma count_up_counts:
  assumes "\<forall>k<n. cur + of_nat k * step < stop \<and> p (cur + of_nat k * step) s = Inr (b k, s)"
    and "\<not> cur + of_nat n * step < stop" and "n < fuel"
  shows "count_up fuel step cur stop p c s = Inr (c + of_nat (card {k. k < n \<and> b k}), s)"
  using assms
proof (induction n arbitrary: fuel cur c b)
  case 0
  then obtain f where "fuel = Suc f" by (cases fuel) auto
  with 0 show ?case by simp
next
  case (Suc n)
  then obtain f where f: "fuel = Suc f" "n < f" by (cases fuel) auto
  have k0: "cur < stop" "p cur s = Inr (b 0, s)" using Suc.prems(1) by (force dest: spec[of _ 0])+
  have sh: "cur + step + of_nat k * step = cur + of_nat (Suc k) * step" for k by (simp add: algebra_simps)
  have "count_up f step (cur + step) stop p (if b 0 then c + 1 else c) s =
      Inr ((if b 0 then c + 1 else c) + of_nat (card {k. k < n \<and> b (Suc k)}), s)"
  proof (rule Suc.IH)
    show "\<forall>k<n. cur + step + of_nat k * step < stop \<and> p (cur + step + of_nat k * step) s = Inr (b (Suc k), s)"
      unfolding sh using Suc.prems(1) by blast
    show "\<not> cur + step + of_nat n * step < stop" unfolding sh using Suc.prems(2) .
  qed (rule f(2))
  moreover have "card {k. k < Suc n \<and> b k} = (if b 0 then 1 else 0) + card {k. k < n \<and> b (Suc k)}"
  proof -
    have "{k. k < Suc n \<and> b k} = {k. k = 0 \<and> b 0} \<union> Suc ` {k. k < n \<and> b (Suc k)}"
      by (auto simp: image_iff less_Suc_eq_0_disj)
    moreover have "{k. k = 0 \<and> b 0} \<inter> Suc ` {k. k < n \<and> b (Suc k)} = {}" by auto
    moreover have "finite {k. k < n \<and> b (Suc k)}" "finite {k::nat. k = 0 \<and> b 0}" by auto
    ultimately show ?thesis by (simp add: card_Un_disjoint card_image)
  qed
  ultimately show ?case using f(1) k0 by simp
qed

section \<open>Units of a range\<close>

text \<open>The numbers of the aligned units of \<open>c\<close> bytes that a range of addresses touches.\<close>

definition units :: "nat \<Rightarrow> uint32 \<Rightarrow> uint32 \<Rightarrow> nat set" where
  "units c start sz = {k. unat start div c \<le> k \<and> k * c < unat start + unat sz}"

lemma count_units:
  fixes step :: uint32
  assumes step: "0 < unat step" "cur = ROUNDDOWN start step" and fit: "unat start + unat sz + unat step \<le> 2 ^ 32"
    and p: "\<forall>k\<in>units (unat step) start sz. p (of_nat (k * unat step)) s = Inr (b k, s)"
    and fuel: "2 ^ 32 div unat step < fuel"
  shows "count_up fuel step cur (start + sz) p c s = Inr (c + of_nat (card {k \<in> units (unat step) start sz. b k}), s)"
proof -
  let ?w = "unat step" and ?e = "unat start + unat sz"
  let ?q = "unat start div ?w"
  define n where "n = (?e - ?q * ?w + (?w - 1)) div ?w"
  have cur: "unat cur = ?q * ?w" unfolding step(2) unat_ROUNDDOWN by (simp add: minus_mod_eq_div_mult)
  have le: "?q * ?w \<le> unat start" by simp
  have ue: "unat (start + sz) = ?e" using fit step(1) by (intro word_add_le_unat) simp
  have addr: "unat (cur + of_nat k * step) = (?q + k) * ?w" "cur + of_nat k * step = of_nat ((?q + k) * ?w)"
    if "(?q + k) * ?w < 2 ^ 32" for k
  proof -
    show eq: "cur + of_nat k * step = of_nat ((?q + k) * ?w)"
    proof -
      have "of_nat ((?q + k) * ?w) = (of_nat (?q * ?w) + of_nat k * of_nat ?w :: uint32)"
        by (simp only: add_mult_distrib of_nat_add of_nat_mult)
      then show ?thesis unfolding cur[symmetric] by simp
    qed

    show "unat (cur + of_nat k * step) = (?q + k) * ?w"
      unfolding eq by (rule unat_of_nat_small) (use that in simp)
  qed
  have lt: "k < n \<longleftrightarrow> (?q + k) * ?w < ?e" for k
  proof -
    have "k < n \<longleftrightarrow> k * ?w + ?w \<le> ?e - ?q * ?w + (?w - 1)"
      unfolding n_def by (metis Suc_le_eq add.commute less_eq_div_iff_mult_less_eq mult_Suc step(1))
    also have "\<dots> \<longleftrightarrow> (?q + k) * ?w < ?e" using step(1) le by (auto simp: add_mult_distrib)
    finally show ?thesis .
  qed
  have small: "(?q + k) * ?w < 2 ^ 32" if "k \<le> n" for k
  proof (cases k)
    case 0
    show ?thesis unfolding 0 add_0_right by (rule le_less_trans[OF le]) (use fit step(1) in simp)
  next
    case (Suc j)
    then have "(?q + j) * ?w < ?e" using lt[of j] that by simp
    then show ?thesis using fit Suc by (simp add: add_mult_distrib)
  qed
  have in_u: "?q + k \<in> units ?w start sz" if "k < n" for k
    using that lt by (simp add: units_def)
  have "count_up fuel step cur (start + sz) p c s = Inr (c + of_nat (card {k. k < n \<and> b (?q + k)}), s)"
  proof (rule count_up_counts)
    show "\<forall>k<n. cur + of_nat k * step < start + sz \<and> p (cur + of_nat k * step) s = Inr (b (?q + k), s)"
    proof (intro allI impI conjI)
      fix k assume k: "k < n"
      note a = addr[OF small[OF less_imp_le[OF k]]]
      show "cur + of_nat k * step < start + sz" using k lt by (simp add: word_less_nat_alt a(1) ue)
      show "p (cur + of_nat k * step) s = Inr (b (?q + k), s)" unfolding a(2) using p in_u[OF k] by blast
    qed
    have "\<not> (?q + n) * ?w < ?e" using lt[of n] by simp
    then show "\<not> cur + of_nat n * step < start + sz" by (simp add: word_less_nat_alt addr(1)[OF small] ue)
    have "n * ?w \<le> 2 ^ 32" using small[of n] by (simp add: add_mult_distrib)
    then have "n \<le> 2 ^ 32 div ?w" using step(1) by (metis less_eq_div_iff_mult_less_eq)
    then show "n < fuel" using fuel by simp
  qed
  moreover have "card {k. k < n \<and> b (?q + k)} = card {k \<in> units ?w start sz. b k}"
  proof -
    have "{k \<in> units ?w start sz. b k} = (\<lambda>k. ?q + k) ` {k. k < n \<and> b (?q + k)}"
    proof (intro set_eqI iffI)
      fix x assume "x \<in> {k \<in> units ?w start sz. b k}"
      then have x: "?q \<le> x" "x * ?w < ?e" "b x" by (auto simp: units_def)
      then have "x - ?q < n" using lt[of "x - ?q"] by simp
      with x show "x \<in> (\<lambda>k. ?q + k) ` {k. k < n \<and> b (?q + k)}" by (intro image_eqI[of _ _ "x - ?q"]) auto
    qed (use in_u in auto)
    then show ?thesis by (simp add: card_image)
  qed
  ultimately show ?thesis by simp
qed

section \<open>Required frames\<close>

text \<open>What the lookups of a page table and of a frame answer, where they answer.\<close>

definition table_at :: "uint32 \<Rightarrow> kstate \<Rightarrow> nat \<Rightarrow> uint32 option" where
  "table_at pgdir s t = (case get_page_table pgdir (of_nat (t * 4194304)) s of
     Inr ((st, pt), s') \<Rightarrow> if pt = 0 then None else Some pt | Inl err \<Rightarrow> None)"

definition frame_of_page :: "uint32 \<Rightarrow> kstate \<Rightarrow> nat \<Rightarrow> nat option" where
  "frame_of_page pgdir s k = (case get_frame_info pgdir (of_nat (k * 4096)) s of
     Inr ((fi, pt), s') \<Rightarrow> fi | Inl err \<Rightarrow> None)"

text \<open>A lookup that succeeds and changes nothing.\<close>

definition reads :: "(kstate, 'a) M \<Rightarrow> kstate \<Rightarrow> bool" where
  "reads m s \<longleftrightarrow> (\<exists>x. m s = Inr (x, s))"

text \<open>C22: \<open>calculate_required_frames\<close> is the number of page tables of the range that do not exist plus
  the number of its pages that have no frame, when the lookups succeed and the range stays below
  the last table of the address space; both counting loops end within their fuel.\<close>

theorem required_frames_counted:
  assumes "unat start + unat sz + 4194304 \<le> 2 ^ 32"
    and "\<forall>t\<in>units 4194304 start sz. reads (get_page_table pgdir (of_nat (t * 4194304))) s"
    and "\<forall>k\<in>units 4096 start sz. reads (get_frame_info pgdir (of_nat (k * 4096))) s"
  shows "calculate_required_frames pgdir start sz s =
    Inr (of_nat (card {t \<in> units 4194304 start sz. table_at pgdir s t = None}) +
         of_nat (card {k \<in> units 4096 start sz. frame_of_page pgdir s k = None}), s)"
proof -
  have w: "unat (PAGE_SIZE * 1024) = 4194304" "unat PAGE_SIZE = 4096" by (simp_all add: PAGE_SIZE_def)
  have "count_up (2 ^ 20 + 1) (PAGE_SIZE * 1024) (table_start start) (start + sz)
      (\<lambda>va. bnd (get_page_table pgdir va) (\<lambda>(_, pt). ret (pt = 0))) 0 s =
      Inr (0 + of_nat (card {t \<in> units (unat (PAGE_SIZE * 1024)) start sz. table_at pgdir s t = None}), s)"
    by (rule count_units) (use assms in \<open>auto simp: w table_start_def reads_def table_at_def bnd_apply split: prod.splits\<close>)
  moreover have "count_up (2 ^ 20 + 1) PAGE_SIZE (ROUNDDOWN start PAGE_SIZE) (start + sz)
      (\<lambda>va. bnd (get_frame_info pgdir va) (\<lambda>(fi, _). ret (fi = None))) 0 s =
      Inr (0 + of_nat (card {k \<in> units (unat PAGE_SIZE) start sz. frame_of_page pgdir s k = None}), s)"
    by (rule count_units) (use assms in \<open>auto simp: w reads_def frame_of_page_def bnd_apply split: prod.splits\<close>)
  ultimately show ?thesis by (simp add: calculate_required_frames_def bnd_apply w)
qed

theorem required_frames_counted_witness:
  "calculate_required_frames 0xF0300000 0x7FF000 0x3000 swap_machine = Inr (3, swap_machine)"
proof -
  note ev = swap_eval get_page_table_def get_frame_info_def bnd_apply load_def zero_kstate_def
  have u: "units 4194304 0x7FF000 0x3000 = {1, 2}" "units 4096 0x7FF000 0x3000 = {0x7FF, 0x800, 0x801}"
    by (auto simp: units_def)
  have t: "get_page_table 0xF0300000 0x400000 swap_machine = Inr ((TABLE_NOT_EXIST, 0), swap_machine)"
    "get_page_table 0xF0300000 0x800000 swap_machine = Inr ((TABLE_IN_MEMORY, 0xF6000000), swap_machine)"
    by (simp_all add: ev)
  have f: "get_frame_info 0xF0300000 0x7FF000 swap_machine = Inr ((None, 0), swap_machine)"
    "get_frame_info 0xF0300000 0x800000 swap_machine = Inr ((Some 0x400, 0xF6000000), swap_machine)"
    "get_frame_info 0xF0300000 0x801000 swap_machine = Inr ((None, 0xF6000000), swap_machine)"
    by (simp_all add: ev to_frame_info_def)
  have c: "{x \<in> {1, 2}. table_at 0xF0300000 swap_machine x = None} = {1}"
    "{x \<in> {0x7FF, 0x800, 0x801}. frame_of_page 0xF0300000 swap_machine x = None} = {0x7FF, 0x801}"
    using t f by (auto simp: table_at_def frame_of_page_def)
  have "calculate_required_frames 0xF0300000 0x7FF000 0x3000 swap_machine =
    Inr (of_nat (card {x \<in> units 4194304 0x7FF000 0x3000. table_at 0xF0300000 swap_machine x = None}) +
         of_nat (card {x \<in> units 4096 0x7FF000 0x3000. frame_of_page 0xF0300000 swap_machine x = None}), swap_machine)"
    by (rule required_frames_counted) (use t f in \<open>simp_all add: u reads_def\<close>)
  then show ?thesis unfolding u c by simp
qed

end
