(* ===== verification/Boot.thy ===== *)
theory Boot
  imports Syscall
begin

text \<open>
  Starting the kernel: the size of the memory (kern/helpers.c), the boot-time allocator and the
  page tables of the kernel, the free frames (kern/memory_manager.c), and the order of the
  initialisations (kern/init.c).  The bytes of the clock chip that tell the size of the memory
  and the two linker symbols \<open>end_of_kernel\<close> and \<open>ptr_stack_bottom\<close> are parameters.
\<close>

section \<open>The size of the memory\<close>

definition NVRAM_BASELO :: uint32 where "NVRAM_BASELO = 0xE + 7"
definition NVRAM_EXTLO :: uint32 where "NVRAM_EXTLO = 0xE + 9"

definition nvram_read :: "(uint32 \<Rightarrow> uint8) \<Rightarrow> uint32 \<Rightarrow> uint32" where
  "nvram_read mc146818_read r = ucast (mc146818_read r) OR push_bit 8 (ucast (mc146818_read (r + 1)))"

definition detect_memory :: "(uint32 \<Rightarrow> uint8) \<Rightarrow> (kstate, unit) M" where
  "detect_memory mc146818_read =
     (let size_of_extended_mem = ROUNDDOWN (nvram_read mc146818_read NVRAM_EXTLO * 1024) PAGE_SIZE;
          size_of_other_mem = ROUNDDOWN (nvram_read mc146818_read 0x34 * 1024 * 64) PAGE_SIZE;
          maxpa = (if 0 < size_of_other_mem then size_of_other_mem + 16 * 1024 * 1024
                   else if size_of_extended_mem \<noteq> 0 then PHYS_EXTENDED_MEM + size_of_extended_mem
                   else size_of_extended_mem)
      in modify (\<lambda>s. s\<lparr>number_of_frames := maxpa div PAGE_SIZE\<rparr>))"

section \<open>The boot-time allocator and page tables\<close>

definition boot_allocate_space :: "uint32 \<Rightarrow> uint32 \<Rightarrow> uint32 \<Rightarrow> (kstate, uint32) M" where
  "boot_allocate_space end_of_kernel sz align =
     seqm (modify (\<lambda>s. if ptr_free_mem s = 0 then s\<lparr>ptr_free_mem := end_of_kernel\<rparr> else s))
     (seqm (modify (\<lambda>s. s\<lparr>ptr_free_mem := ROUNDUP (ptr_free_mem s) align\<rparr>))
     (bnd (gets ptr_free_mem) (\<lambda>ptr_allocated_mem.
      seqm (modify (\<lambda>s. s\<lparr>ptr_free_mem := ptr_free_mem s + sz\<rparr>)) (ret ptr_allocated_mem))))"

text \<open>The new table is not cleared.\<close>

definition boot_get_page_table :: "uint32 \<Rightarrow> uint32 \<Rightarrow> uint32 \<Rightarrow> bool \<Rightarrow> (kstate, uint32) M" where
  "boot_get_page_table end_of_kernel pgdir va create =
     bnd (load (word_at pgdir (PDX va))) (\<lambda>entry.
     bnd (STATIC_KERNEL_VIRTUAL_ADDRESS (EXTRACT_ADDRESS entry)) (\<lambda>pt.
       if EXTRACT_ADDRESS entry = 0 then
         if create then
           bnd (boot_allocate_space end_of_kernel PAGE_SIZE PAGE_SIZE) (\<lambda>pt.
           bnd (STATIC_KERNEL_PHYSICAL_ADDRESS pt) (\<lambda>pa.
           seqm (store (word_at pgdir (PDX va)) (CONSTRUCT_ENTRY pa (PERM_PRESENT OR PERM_WRITEABLE)))
             (ret pt)))
         else ret 0
       else ret pt))"

text \<open>A size in the last page of the address space makes the counter of the loop wrap around for ever.\<close>

definition boot_map_range :: "uint32 \<Rightarrow> uint32 \<Rightarrow> uint32 \<Rightarrow> uint32 \<Rightarrow> uint32 \<Rightarrow> uint32 \<Rightarrow> (kstate, unit) M" where
  "boot_map_range end_of_kernel pgdir va sz pa perm =
     (if 0xFFFFF000 < sz then raise OutOfFuel
      else for_n (chunks sz PAGE_SIZE) 0 (\<lambda>i. let a = va + of_nat i * PAGE_SIZE in
        bnd (boot_get_page_table end_of_kernel pgdir a True) (\<lambda>pt.
          store (word_at pt (PTX a)) (CONSTRUCT_ENTRY (pa + of_nat i * PAGE_SIZE) (perm OR PERM_PRESENT)))))"

definition setup_listing_to_all_page_tables_entries :: "(kstate, unit) M" where
  "setup_listing_to_all_page_tables_entries =
     bnd (gets ptr_page_directory) (\<lambda>pgdir.
     bnd (STATIC_KERNEL_PHYSICAL_ADDRESS pgdir) (\<lambda>pa.
     seqm (store (word_at pgdir (PDX VPT)) (CONSTRUCT_ENTRY pa (PERM_PRESENT OR PERM_WRITEABLE)))
       (store (word_at pgdir (PDX UVPT)) (pa OR PERM_USER OR PERM_PRESENT))))"

definition check_va2pa :: "uint32 \<Rightarrow> uint32 \<Rightarrow> (kstate, uint32) M" where
  "check_va2pa pgdir va =
     bnd (load (word_at pgdir (PDX va))) (\<lambda>pde.
       if pde AND PERM_PRESENT = 0 then ret (NOT 0)
       else bnd (STATIC_KERNEL_VIRTUAL_ADDRESS (EXTRACT_ADDRESS pde)) (\<lambda>p.
         bnd (load (word_at p (PTX va))) (\<lambda>pte.
           ret (if pte AND PERM_PRESENT = 0 then NOT 0 else EXTRACT_ADDRESS pte))))"

definition check_boot_pgdir :: "uint32 \<Rightarrow> (kstate, unit) M" where
  "check_boot_pgdir ptr_stack_bottom =
     bnd (gets ptr_page_directory) (\<lambda>pgdir.
     bnd (gets ptr_free_mem) (\<lambda>fm.
     seqm (for_n (chunks (fm - KERNEL_BASE) PAGE_SIZE) 0 (\<lambda>i. let o' = of_nat i * PAGE_SIZE in
             bnd (check_va2pa pgdir (KERNEL_BASE + o')) (\<lambda>pa. guard (pa = o') AssertFailed)))
     (seqm (for_n (chunks KERNEL_STACK_SIZE PAGE_SIZE) 0 (\<lambda>i. let o' = of_nat i * PAGE_SIZE in
             bnd (check_va2pa pgdir (KERNEL_STACK_TOP - KERNEL_STACK_SIZE + o')) (\<lambda>pa.
             bnd (STATIC_KERNEL_PHYSICAL_ADDRESS ptr_stack_bottom) (\<lambda>st. guard (pa = st + o') AssertFailed))))
       (for_n 1024 0 (\<lambda>i.
          bnd (load (word_at pgdir (of_nat i))) (\<lambda>pde.
            guard ((pde \<noteq> 0) = (of_nat i \<in> {PDX VPT, PDX UVPT, PDX (KERNEL_STACK_TOP - 1), PDX UENVS} \<or>
                PDX KERNEL_BASE \<le> of_nat i)) AssertFailed))))))"

text \<open>The low addresses are mapped like the kernel while the segment registers are reloaded.\<close>

definition turn_on_paging :: "(kstate, unit) M" where
  "turn_on_paging =
     bnd (gets ptr_page_directory) (\<lambda>pgdir.
     bnd (gets ptr_free_mem) (\<lambda>fm.
     let n = unat (PDX fm) - unat (PDX KERNEL_BASE) in
     seqm (for_n n 0 (\<lambda>j. bnd (load (word_at pgdir (PDX KERNEL_BASE + of_nat j))) (store (word_at pgdir (of_nat j)))))
     (seqm (modify (\<lambda>s. emit (Load_cr3 (phys_page_directory s)) s))
     (seqm (for_n n 0 (\<lambda>j. store (word_at pgdir (of_nat j)) 0))
       (modify (\<lambda>s. emit (Load_cr3 (phys_page_directory s)) s))))))"

text \<open>\<open>struct Frame_Info\<close> is two links, a counter, an address, a pointer and a flag, padded.\<close>

definition sizeof_Frame_Info :: uint32 where "sizeof_Frame_Info = 24"

definition initialize_kernel_VM :: "uint32 \<Rightarrow> uint32 \<Rightarrow> (kstate, unit) M" where
  "initialize_kernel_VM end_of_kernel ptr_stack_bottom =
     bnd (boot_allocate_space end_of_kernel PAGE_SIZE PAGE_SIZE) (\<lambda>pgdir.
     seqm (modify (\<lambda>s. s\<lparr>ptr_page_directory := pgdir\<rparr>))
     (seqm (memset_page pgdir)
     (bnd (STATIC_KERNEL_PHYSICAL_ADDRESS pgdir) (\<lambda>phys.
      seqm (modify (\<lambda>s. s\<lparr>phys_page_directory := phys\<rparr>))
     (bnd (STATIC_KERNEL_PHYSICAL_ADDRESS ptr_stack_bottom) (\<lambda>stack.
      seqm (boot_map_range end_of_kernel pgdir (KERNEL_STACK_TOP - KERNEL_STACK_SIZE) KERNEL_STACK_SIZE stack PERM_WRITEABLE)
      (seqm (for_n 64 0 (\<lambda>i. bnd (boot_get_page_table end_of_kernel pgdir (KERNEL_BASE + of_nat i * PTSIZE) True) (\<lambda>_. ret ())))
      (bnd (gets number_of_frames) (\<lambda>n.
      bnd (boot_allocate_space end_of_kernel (n * sizeof_Frame_Info) PAGE_SIZE) (\<lambda>_.
      seqm (modify (\<lambda>s. s\<lparr>frames_info := (\<lambda>i. if i < unat n then zero_frame_info else frames_info s i)\<rparr>))
      (bnd (boot_allocate_space end_of_kernel (of_nat PAGES_PER_FILE * sizeof_Frame_Info) PAGE_SIZE) (\<lambda>_.
      seqm setup_listing_to_all_page_tables_entries
      (bnd (boot_allocate_space end_of_kernel (NENV * sizeof_Env) PAGE_SIZE) (\<lambda>e.
      seqm (modify (\<lambda>s. s\<lparr>envs := (\<lambda>i. if i < unat NENV then zero_env else envs s i)\<rparr>))
      (bnd (STATIC_KERNEL_PHYSICAL_ADDRESS e) (\<lambda>pe.
      seqm (boot_map_range end_of_kernel pgdir UENVS (NENV * sizeof_Env) pe PERM_USER)
      (bnd (load (word_at pgdir (PDX UENVS))) (\<lambda>pde.
      seqm (store (word_at pgdir (PDX UENVS)) (pde OR (PERM_USER OR (PERM_PRESENT AND NOT PERM_WRITEABLE))))
      (bnd (gets ptr_free_mem) (\<lambda>fm.
      seqm (boot_map_range end_of_kernel pgdir KERNEL_BASE (fm - KERNEL_BASE) 0 PERM_WRITEABLE)
      (seqm (check_boot_pgdir ptr_stack_bottom) turn_on_paging)))))))))))))))))))))"

section \<open>Free frames\<close>

text \<open>The loops index the array without a check.\<close>

definition check_frame :: "nat \<Rightarrow> (kstate, unit) M" where
  "check_frame i = (\<lambda>s. if i < unat (number_of_frames s) then Inr ((), s) else Inl OutOfBounds)"

definition reserve_frame :: "nat \<Rightarrow> (kstate, unit) M" where
  "reserve_frame i = seqm (check_frame i) (modify (upd_frame i (\<lambda>f. f\<lparr>references := 1\<rparr>)))"

definition add_free_frame :: "nat \<Rightarrow> (kstate, unit) M" where
  "add_free_frame i = seqm (check_frame i) (seqm (initialize_frame_info i)
     (modify (\<lambda>s. s\<lparr>free_frame_list := i # free_frame_list s\<rparr>)))"

text \<open>The loop \<open>for (i = lo; i < hi; i++)\<close>.\<close>

definition for_to :: "nat \<Rightarrow> nat \<Rightarrow> (nat \<Rightarrow> (kstate, unit) M) \<Rightarrow> (kstate, unit) M" where
  "for_to lo hi body = for_n (hi - lo) lo body"

text \<open>The first kibibyte of the zero page and of the temporary page.\<close>

definition clear_kibibyte :: "uint32 \<Rightarrow> (kstate, unit) M" where
  "clear_kibibyte p = for_n 256 0 (\<lambda>i. store (word_at p (of_nat i)) 0)"

definition initialize_kheap_blocks :: "(kstate, unit) M" where
  "initialize_kheap_blocks =
     seqm (modify (\<lambda>s. s\<lparr>Block_info_free_list := [], Block_info_taken_list := [],
             free_blocks := rev [0..<Max_number_of_blocks]\<rparr>))
     (bnd k_allocate_block (\<lambda>p.
      seqm (modify (set_block p \<lparr>start_va = KERNEL_HEAP_START + 0x4000,
              blk_size = KERNEL_HEAP_MAX - (KERNEL_HEAP_START + 0x4000)\<rparr>))
        (modify (\<lambda>s. s\<lparr>Block_info_free_list := p # Block_info_free_list s\<rparr>))))"

definition initialize_paging :: "(kstate, unit) M" where
  "initialize_paging =
     seqm initialize_kheap_blocks
     (seqm (modify (\<lambda>s. s\<lparr>free_frame_list := [], modified_frame_list := []\<rparr>))
     (seqm (for_to 0 3 reserve_frame)
     (seqm (modify (\<lambda>s. s\<lparr>ptr_zero_page := KERNEL_BASE + PAGE_SIZE, ptr_temp_page := KERNEL_BASE + 2 * PAGE_SIZE\<rparr>))
     (seqm (clear_kibibyte (KERNEL_BASE + PAGE_SIZE))
     (seqm (clear_kibibyte (KERNEL_BASE + 2 * PAGE_SIZE))
     (seqm (for_to 3 (unat (ROUNDUP PHYS_IO_MEM PAGE_SIZE div PAGE_SIZE)) add_free_frame)
     (seqm (for_to (unat (PHYS_IO_MEM div PAGE_SIZE)) (unat (PHYS_EXTENDED_MEM div PAGE_SIZE)) reserve_frame)
     (bnd (gets ptr_free_mem) (\<lambda>fm.
      bnd (STATIC_KERNEL_PHYSICAL_ADDRESS fm) (\<lambda>pa. let range_end = unat (ROUNDUP pa PAGE_SIZE div PAGE_SIZE) in
      seqm (for_to (unat (PHYS_EXTENDED_MEM div PAGE_SIZE)) range_end reserve_frame)
      (bnd (gets number_of_frames) (\<lambda>n.
      seqm (for_to range_end (unat n) add_free_frame) initialize_disk_page_file))))))))))))"

section \<open>The order of the initialisations (kern/init.c)\<close>

text \<open>Up to the command prompt; consoles, interrupt controllers and descriptor tables are left out.\<close>

definition initialize_services :: "(kstate, unit) M" where
  "initialize_services =
     seqm initialize_paging
     (seqm env_init
     (seqm (setPageReplacmentAlgorithm PG_REP_FIFO)
     (seqm (setUHeapPlacementStrategy UHP_PLACE_FIRSTFIT)
     (seqm (setKHeapPlacementStrategy PLACE_CONTALLOC)
     (seqm (enableBuffering 0)
     (seqm (enableModifiedBuffer 0)
     (seqm sched_init
     (seqm (modify (\<lambda>s. s\<lparr>MAX_SHARES := KERNEL_SHARES_ARR_INIT_SIZE div sizeof_Share\<rparr>))
     (seqm (bnd (gets MAX_SHARES) create_shares_array)
     (seqm (modify (\<lambda>s. s\<lparr>MAX_SEMAPHORES := KERNEL_SEMAPHORES_ARR_INIT_SIZE div sizeof_Semaphore\<rparr>))
       (bnd (gets MAX_SEMAPHORES) create_semaphores_array)))))))))))"

definition FOS_initialize :: "(uint32 \<Rightarrow> uint8) \<Rightarrow> uint32 \<Rightarrow> uint32 \<Rightarrow> (kstate, unit) M" where
  "FOS_initialize mc146818_read end_of_kernel ptr_stack_bottom =
     seqm (detect_memory mc146818_read)
     (seqm (initialize_kernel_VM end_of_kernel ptr_stack_bottom) initialize_services)"

end
