(* ===== verification/Boot_Props.thy ===== *)
theory Boot_Props
  imports Boot
begin

text \<open>
  What \<open>initialize_paging\<close> leaves behind: the frames that may be handed out are exactly those
  that neither the machine nor the kernel image occupies.
\<close>

section \<open>The loops\<close>

lemma none_in_range: "(\<lambda>i::nat. if lo \<le> i \<and> i < lo then x i else f i) = f"
  by (rule ext) auto

lemma reserve_frames:
  "lo + n \<le> unat (number_of_frames s) \<Longrightarrow> for_n n lo reserve_frame s =
     Inr ((), s\<lparr>frames_info := (\<lambda>i. if lo \<le> i \<and> i < lo + n then (frames_info s i)\<lparr>references := 1\<rparr> else frames_info s i)\<rparr>)"
proof (induction n arbitrary: lo s)
  case 0
  show ?case by (simp add: none_in_range)
next
  case (Suc n)
  let ?s = "upd_frame lo (\<lambda>f. f\<lparr>references := 1\<rparr>) s"
  have "reserve_frame lo s = Inr ((), ?s)"
    using Suc.prems by (simp add: reserve_frame_def check_frame_def seqm_def bnd_apply)
  moreover have "for_n n (Suc lo) reserve_frame ?s = Inr ((), ?s\<lparr>frames_info := (\<lambda>i. if Suc lo \<le> i \<and> i < Suc lo + n
      then (frames_info ?s i)\<lparr>references := 1\<rparr> else frames_info ?s i)\<rparr>)"
    using Suc.prems by (intro Suc.IH) simp
  moreover have "(\<lambda>i. if Suc lo \<le> i \<and> i < Suc lo + n then (frames_info ?s i)\<lparr>references := 1\<rparr> else frames_info ?s i) =
      (\<lambda>i. if lo \<le> i \<and> i < lo + Suc n then (frames_info s i)\<lparr>references := 1\<rparr> else frames_info s i)"
    by (rule ext, rename_tac i, case_tac "i = lo") auto
  ultimately show ?case by (simp add: seqm_def bnd_apply upd_frame_def)
qed

lemma add_free_frames:
  "lo + n \<le> unat (number_of_frames s) \<Longrightarrow> for_n n lo add_free_frame s =
     Inr ((), s\<lparr>frames_info := (\<lambda>i. if lo \<le> i \<and> i < lo + n then zero_frame_info else frames_info s i),
       free_frame_list := rev [lo..<lo + n] @ free_frame_list s\<rparr>)"
proof (induction n arbitrary: lo s)
  case 0
  show ?case by (simp add: none_in_range)
next
  case (Suc n)
  let ?s = "(upd_frame lo (\<lambda>_. zero_frame_info) s)\<lparr>free_frame_list := lo # free_frame_list s\<rparr>"
  have "add_free_frame lo s = Inr ((), ?s)"
    using Suc.prems by (simp add: add_free_frame_def check_frame_def initialize_frame_info_def seqm_def bnd_apply)
  moreover have "for_n n (Suc lo) add_free_frame ?s = Inr ((), ?s\<lparr>frames_info := (\<lambda>i. if Suc lo \<le> i \<and> i < Suc lo + n
      then zero_frame_info else frames_info ?s i), free_frame_list := rev [Suc lo..<Suc lo + n] @ free_frame_list ?s\<rparr>)"
    using Suc.prems by (intro Suc.IH) simp
  moreover have "(\<lambda>i. if Suc lo \<le> i \<and> i < Suc lo + n then zero_frame_info else frames_info ?s i) =
      (\<lambda>i. if lo \<le> i \<and> i < lo + Suc n then zero_frame_info else frames_info s i)"
    by (rule ext, rename_tac i, case_tac "i = lo") auto
  moreover have "rev [lo..<lo + Suc n] = rev [Suc lo..<Suc lo + n] @ [lo]" by (simp add: upt_conv_Cons del: upt_Suc)
  ultimately show ?case by (simp add: seqm_def bnd_apply upd_frame_def del: upt_Suc)
qed

lemma store_zeros:
  "\<forall>i. lo \<le> i \<and> i < lo + n \<longrightarrow> PAGE_SIZE \<le> word_at p (of_nat i) \<Longrightarrow>
     \<exists>m. for_n n lo (\<lambda>i. store (word_at p (of_nat i)) 0) s = Inr ((), s\<lparr>kmem := m\<rparr>) \<and>
       (\<forall>a. m a = kmem s a \<or> m a = 0 \<and> (\<exists>i<lo + n. a = word_at p (of_nat i)))"
proof (induction n arbitrary: lo s)
  case 0
  have "for_n 0 lo (\<lambda>i. store (word_at p (of_nat i)) 0) s = Inr ((), s\<lparr>kmem := kmem s\<rparr>)" by simp
  then show ?case by blast
next
  case (Suc n)
  let ?t = "s\<lparr>kmem := (kmem s)(word_at p (of_nat lo) := 0)\<rparr>"
  have "\<exists>m. for_n n (Suc lo) (\<lambda>i. store (word_at p (of_nat i)) 0) ?t = Inr ((), ?t\<lparr>kmem := m\<rparr>) \<and>
      (\<forall>a. m a = kmem ?t a \<or> m a = 0 \<and> (\<exists>i<Suc lo + n. a = word_at p (of_nat i)))"
    by (rule Suc.IH) (use Suc.prems in auto)
  then obtain m where m: "for_n n (Suc lo) (\<lambda>i. store (word_at p (of_nat i)) 0) ?t = Inr ((), ?t\<lparr>kmem := m\<rparr>)"
    "\<And>a. m a = kmem ?t a \<or> m a = 0 \<and> (\<exists>i<Suc lo + n. a = word_at p (of_nat i))" by blast
  have "PAGE_SIZE \<le> word_at p (of_nat lo)" using Suc.prems by simp
  moreover have "m a = kmem s a \<or> m a = 0 \<and> (\<exists>i<lo + Suc n. a = word_at p (of_nat i))" for a
  proof (cases "a = word_at p (of_nat lo)")
    case True
    then have "m a = 0" using m(2)[of a] by auto
    moreover have "lo < lo + Suc n" by simp
    ultimately show ?thesis using True by blast
  next
    case False
    then show ?thesis using m(2)[of a] by (auto intro: less_SucI)
  qed
  ultimately show ?case using m(1) by (auto simp: seqm_def bnd_apply store_ok intro!: exI[of _ m])
qed

text \<open>The two pages that are cleared in part.\<close>

definition boot_page_words :: "uint32 set" where
  "boot_page_words = {a. 0xF0001000 \<le> unat a \<and> unat a < 0xF0003000}"

lemma clear_kibibyte_spec:
  assumes "p \<in> {KERNEL_BASE + PAGE_SIZE, KERNEL_BASE + 2 * PAGE_SIZE}"
  shows "\<exists>m. clear_kibibyte p s = Inr ((), s\<lparr>kmem := m\<rparr>) \<and>
    (\<forall>a. m a = kmem s a \<or> m a = 0 \<and> a \<in> boot_page_words)"
proof -
  have p: "0xF0001000 \<le> unat p" "unat p \<le> 0xF0002000"
    using assms by (auto simp: KERNEL_BASE_def PAGE_SIZE_def)
  have w: "unat (word_at p (of_nat i)) = unat p + 4 * i" if i: "i < 256" for i
  proof -
    have "unat (4 * of_nat i :: uint32) = 4 * i" using i by (simp add: unat_word_ariths unat_of_nat)
    then show ?thesis using i p by (simp add: word_at_def unat_word_ariths)
  qed
  have "\<forall>i. 0 \<le> i \<and> i < 0 + 256 \<longrightarrow> PAGE_SIZE \<le> word_at p (of_nat i)"
    using p w by (simp add: word_le_nat_alt PAGE_SIZE_def)
  from store_zeros[OF this, of s] obtain m where m: "clear_kibibyte p s = Inr ((), s\<lparr>kmem := m\<rparr>)"
    "\<And>a. m a = kmem s a \<or> m a = 0 \<and> (\<exists>i<256. a = word_at p (of_nat i))"
    unfolding clear_kibibyte_def by auto
  have "word_at p (of_nat i) \<in> boot_page_words" if "i < 256" for i
    using w[OF that] p that by (simp add: boot_page_words_def)
  then have "m a = kmem s a \<or> m a = 0 \<and> a \<in> boot_page_words" for a using m(2)[of a] by blast
  with m(1) show ?thesis by blast
qed

section \<open>The free frames\<close>

lemma constant_map: "xs \<noteq> [] \<Longrightarrow> (\<And>x. x \<in> set xs \<Longrightarrow> f x = c) \<Longrightarrow> set (map f xs) = {c}"
  by (cases xs) auto

text \<open>The first frame after the kernel image and the boot-time allocations.\<close>

definition first_frame_after_kernel :: "kstate \<Rightarrow> nat" where
  "first_frame_after_kernel s = unat (ROUNDUP (ptr_free_mem s - KERNEL_BASE) PAGE_SIZE div PAGE_SIZE)"

definition heap_block :: Block_Info where
  "heap_block = \<lparr>start_va = KERNEL_HEAP_START + 0x4000, blk_size = KERNEL_HEAP_MAX - (KERNEL_HEAP_START + 0x4000)\<rparr>"

lemma initialize_kheap_blocks_spec:
  "\<exists>s'. initialize_kheap_blocks s = Inr ((), s') \<and> map (blocks_info s') (Block_info_free_list s') = [heap_block] \<and>
     Block_info_taken_list s' = [] \<and> number_of_frames s' = number_of_frames s \<and> frames_info s' = frames_info s \<and>
     ptr_free_mem s' = ptr_free_mem s \<and> kmem s' = kmem s \<and> ptr_page_directory s' = ptr_page_directory s \<and>
     last_va_in_kheap s' = last_va_in_kheap s \<and> rev (Block_info_free_list s' @ free_blocks s') = [0..<Max_number_of_blocks]"
proof -
  obtain n where n: "Max_number_of_blocks = Suc n" by (metis Max_number_of_blocks_def Suc_numeral not0_implies_Suc zero_neq_numeral)
  have "rev [0..<Max_number_of_blocks] = n # rev [0..<n]" "[0..<Max_number_of_blocks] = [0..<n] @ [n]" by (simp_all add: n)
  then show ?thesis
    by (simp add: initialize_kheap_blocks_def seqm_def bnd_apply k_allocate_block_def set_block_def heap_block_def)
qed

text \<open>The run of \<open>initialize_paging\<close>, field by field.\<close>

lemma initialize_paging_run:
  assumes "KERNEL_BASE \<le> ptr_free_mem s" and "0x100 \<le> first_frame_after_kernel s"
    and "first_frame_after_kernel s \<le> unat (number_of_frames s)"
  obtains s' where "initialize_paging s = Inr ((), s')"
    and "free_frame_list s' = rev [first_frame_after_kernel s..<unat (number_of_frames s)] @ rev [3..<0xA0]"
    and "\<And>k. k \<in> {3..<0xA0} \<union> {first_frame_after_kernel s..<unat (number_of_frames s)} \<Longrightarrow> frames_info s' k = zero_frame_info"
    and "\<And>k. k \<in> {..<3} \<union> {0xA0..<first_frame_after_kernel s} \<Longrightarrow> references (frames_info s' k) = 1"
    and "\<And>a. kmem s' a = kmem s a \<or> kmem s' a = 0 \<and> a \<in> boot_page_words"
    and "map (blocks_info s') (Block_info_free_list s') = [heap_block]" and "Block_info_taken_list s' = []"
    and "rev (Block_info_free_list s' @ free_blocks s') = [0..<Max_number_of_blocks]"
    and "number_of_frames s' = number_of_frames s" and "ptr_page_directory s' = ptr_page_directory s"
    and "last_va_in_kheap s' = last_va_in_kheap s"
proof -
  let ?re = "first_frame_after_kernel s" and ?n = "unat (number_of_frames s)"
  obtain a where a: "initialize_kheap_blocks s = Inr ((), a)" "map (blocks_info a) (Block_info_free_list a) = [heap_block]"
    "Block_info_taken_list a = []" "number_of_frames a = number_of_frames s" "ptr_free_mem a = ptr_free_mem s"
    "kmem a = kmem s" "ptr_page_directory a = ptr_page_directory s" "last_va_in_kheap a = last_va_in_kheap s"
    "rev (Block_info_free_list a @ free_blocks a) = [0..<Max_number_of_blocks]"
    using initialize_kheap_blocks_spec[of s] by (elim exE conjE) (rule that; assumption)
  define b where "b = a\<lparr>free_frame_list := [], modified_frame_list := []\<rparr>"
  define F1 where "F1 = (\<lambda>i. if 0 \<le> i \<and> i < 0 + 3 then (frames_info b i)\<lparr>references := 1\<rparr> else frames_info b i)"
  define c where "c = b\<lparr>frames_info := F1\<rparr>"
  define d where "d = c\<lparr>ptr_zero_page := KERNEL_BASE + PAGE_SIZE, ptr_temp_page := KERNEL_BASE + 2 * PAGE_SIZE\<rparr>"
  have r1: "for_to 0 3 reserve_frame b = Inr ((), c)"
    using reserve_frames[of 0 3 b] assms a by (simp add: for_to_def b_def c_def F1_def)
  obtain m1 where m1: "clear_kibibyte (KERNEL_BASE + PAGE_SIZE) d = Inr ((), d\<lparr>kmem := m1\<rparr>)"
    "\<And>x. m1 x = kmem d x \<or> m1 x = 0 \<and> x \<in> boot_page_words"
    using clear_kibibyte_spec[of "KERNEL_BASE + PAGE_SIZE" d] by auto
  obtain m2 where m2: "clear_kibibyte (KERNEL_BASE + 2 * PAGE_SIZE) (d\<lparr>kmem := m1\<rparr>) = Inr ((), d\<lparr>kmem := m2\<rparr>)"
    "\<And>x. m2 x = m1 x \<or> m2 x = 0 \<and> x \<in> boot_page_words"
    using clear_kibibyte_spec[of "KERNEL_BASE + 2 * PAGE_SIZE" "d\<lparr>kmem := m1\<rparr>"] by auto
  define e where "e = d\<lparr>kmem := m2\<rparr>"
  have re: "unat (ROUNDUP PHYS_IO_MEM PAGE_SIZE div PAGE_SIZE) = 160" "unat (PHYS_IO_MEM div PAGE_SIZE) = 160"
    "unat (PHYS_EXTENDED_MEM div PAGE_SIZE) = 256"
    by (simp_all add: ROUNDUP_def ROUNDDOWN_def PHYS_IO_MEM_def PHYS_EXTENDED_MEM_def PAGE_SIZE_def)
  have ne: "unat (number_of_frames e) = ?n" by (simp add: e_def d_def c_def b_def a)
  define F2 where "F2 = (\<lambda>i. if 3 \<le> i \<and> i < 3 + 157 then zero_frame_info else frames_info e i)"
  define f where "f = e\<lparr>frames_info := F2, free_frame_list := rev [3..<3+157] @ free_frame_list e\<rparr>"
  have r2: "for_to 3 160 add_free_frame e = Inr ((), f)"
    using add_free_frames[of 3 157 e] assms ne by (simp add: for_to_def f_def F2_def)
  define F3 where "F3 = (\<lambda>i. if 160 \<le> i \<and> i < 160 + 96 then (frames_info f i)\<lparr>references := 1\<rparr> else frames_info f i)"
  define g where "g = f\<lparr>frames_info := F3\<rparr>"
  have r3: "for_to 160 256 reserve_frame f = Inr ((), g)"
    using reserve_frames[of 160 96 f] assms ne by (simp add: for_to_def f_def g_def F3_def)
  have fm: "ptr_free_mem g = ptr_free_mem s" by (simp add: g_def f_def e_def d_def c_def b_def a)
  have pa: "STATIC_KERNEL_PHYSICAL_ADDRESS (ptr_free_mem g) g = Inr (ptr_free_mem s - KERNEL_BASE, g)"
    using assms(1) fm by (simp add: STATIC_KERNEL_PHYSICAL_ADDRESS_def not_less)
  define F4 where "F4 = (\<lambda>i. if 256 \<le> i \<and> i < 256 + (?re - 256) then (frames_info g i)\<lparr>references := 1\<rparr> else frames_info g i)"
  define h where "h = g\<lparr>frames_info := F4\<rparr>"
  have r4: "for_to 256 ?re reserve_frame g = Inr ((), h)"
    using reserve_frames[of 256 "?re - 256" g] assms ne by (simp add: for_to_def f_def g_def h_def F4_def)
  define F5 where "F5 = (\<lambda>i. if ?re \<le> i \<and> i < ?re + (?n - ?re) then zero_frame_info else frames_info h i)"
  define i where "i = h\<lparr>frames_info := F5, free_frame_list := rev [?re..<?re + (?n - ?re)] @ free_frame_list h\<rparr>"
  have nh: "number_of_frames h = number_of_frames s" by (simp add: h_def g_def f_def e_def d_def c_def b_def a)
  have r5: "for_to ?re ?n add_free_frame h = Inr ((), i)"
    using add_free_frames[of ?re "?n - ?re" h] assms nh by (simp add: for_to_def i_def F5_def)
  define j where "j = i\<lparr>disk_free_frame_list := fold (\<lambda>i l. i # l) [1..<PAGES_PER_FILE] []\<rparr>"
  have r6: "initialize_disk_page_file i = Inr ((), j)" by (simp add: initialize_disk_page_file_def j_def)
  note states = j_def i_def h_def g_def f_def e_def d_def c_def b_def
  have fr: "frames_info j = F5" "frames_info h = F4" "frames_info g = F3" "frames_info f = F2" "frames_info e = F1"
    by (simp_all add: states)
  show ?thesis
  proof
    show "initialize_paging s = Inr ((), j)"
      using a(1) r1 m1(1) m2(1) r2 r3 pa r4 r5 r6 fm nh
      by (simp add: initialize_paging_def seqm_def bnd_apply Let_def re b_def[symmetric] d_def[symmetric] e_def[symmetric]
          first_frame_after_kernel_def[symmetric])
    show "free_frame_list j = rev [?re..<?n] @ rev [3..<0xA0]" using assms(3) by (simp add: states)
    show "frames_info j k = zero_frame_info" if "k \<in> {3..<0xA0} \<union> {?re..<?n}" for k
      using that assms(2) by (auto simp: fr F5_def F4_def F3_def F2_def)
    show "references (frames_info j k) = 1" if "k \<in> {..<3} \<union> {0xA0..<?re}" for k
      using that assms(2) by (cases "k < 256") (auto simp: fr F5_def F4_def F3_def F2_def F1_def)
    show "kmem j x = kmem s x \<or> kmem j x = 0 \<and> x \<in> boot_page_words" for x
      using m1(2)[of x] m2(2)[of x] by (auto simp: states a(6))
  qed (use a in \<open>simp_all add: states\<close>)
qed

text \<open>C19: After \<open>initialize_paging\<close> the free frames are, each once and cleared, those below the hole of
  the devices except the first three, and those behind the kernel image and its boot-time data;
  every other frame of the machine is counted as in use.  The kernel heap is one block that starts
  16 KB above the bottom.\<close>

theorem initialize_paging_frees:
  assumes "KERNEL_BASE \<le> ptr_free_mem s" and "0x100 \<le> first_frame_after_kernel s"
    and "first_frame_after_kernel s \<le> unat (number_of_frames s)"
  shows "\<exists>s'. initialize_paging s = Inr ((), s') \<and> distinct (free_frame_list s') \<and>
    set (free_frame_list s') = {3..<0xA0} \<union> {first_frame_after_kernel s..<unat (number_of_frames s)} \<and>
    set (map (frames_info s') (free_frame_list s')) \<subseteq> {zero_frame_info} \<and>
    set (map (\<lambda>f. references (frames_info s' f)) ([0..<3] @ [0xA0..<first_frame_after_kernel s])) = {1} \<and>
    map (blocks_info s') (Block_info_free_list s') = [heap_block] \<and> Block_info_taken_list s' = []"
proof -
  let ?re = "first_frame_after_kernel s" and ?n = "unat (number_of_frames s)"
  from initialize_paging_run[OF assms] obtain j where j: "initialize_paging s = Inr ((), j)"
    "free_frame_list j = rev [?re..<?n] @ rev [3..<0xA0]"
    "\<And>k. k \<in> {3..<0xA0} \<union> {?re..<?n} \<Longrightarrow> frames_info j k = zero_frame_info"
    "\<And>k. k \<in> {..<3} \<union> {0xA0..<?re} \<Longrightarrow> references (frames_info j k) = 1"
    "map (blocks_info j) (Block_info_free_list j) = [heap_block]" "Block_info_taken_list j = []" by metis
  have "set (map (\<lambda>f. references (frames_info j f)) ([0..<3] @ [0xA0..<?re])) = {1}"
    by (rule constant_map) (use j(4) in \<open>auto simp del: upt_rec_numeral\<close>)
  moreover have "set (map (frames_info j) (free_frame_list j)) \<subseteq> {zero_frame_info}"
    unfolding j(2) using j(3) by (auto simp del: upt_rec_numeral)
  moreover have "distinct (free_frame_list j)" "set (free_frame_list j) = {3..<0xA0} \<union> {?re..<?n}"
    using assms(2) by (auto simp: j(2) simp del: upt_rec_numeral)
  ultimately show ?thesis using j(1,5,6) by (intro exI[of _ j] conjI)
qed

text \<open>A machine of 4 MB and 16 KB whose kernel ends at frame 0x303.\<close>

definition booting :: kstate where
  "booting = zero_kstate\<lparr>number_of_frames := 0x404, ptr_free_mem := 0xF0302010\<rparr>"

theorem initialize_paging_frees_witness:
  "\<exists>s'. initialize_paging booting = Inr ((), s') \<and> set (free_frame_list s') = {3..<0xA0} \<union> {0x303..<0x404} \<and>
     map (blocks_info s') (Block_info_free_list s') = [heap_block]"
proof -
  have f: "first_frame_after_kernel booting = 0x303" "unat (number_of_frames booting) = 0x404"
    by (simp_all add: first_frame_after_kernel_def booting_def ROUNDUP_def ROUNDDOWN_def KERNEL_BASE_def PAGE_SIZE_def)
  have "KERNEL_BASE \<le> ptr_free_mem booting" by (simp add: booting_def KERNEL_BASE_def)
  then have "\<exists>s'. initialize_paging booting = Inr ((), s') \<and> distinct (free_frame_list s') \<and>
    set (free_frame_list s') = {3..<0xA0} \<union> {first_frame_after_kernel booting..<unat (number_of_frames booting)} \<and>
    set (map (frames_info s') (free_frame_list s')) \<subseteq> {zero_frame_info} \<and>
    set (map (\<lambda>f. references (frames_info s' f)) ([0..<3] @ [0xA0..<first_frame_after_kernel booting])) = {1} \<and>
    map (blocks_info s') (Block_info_free_list s') = [heap_block] \<and> Block_info_taken_list s' = []"
    by (rule initialize_paging_frees) (simp_all add: f)
  then obtain s' where "initialize_paging booting = Inr ((), s')"
    "set (free_frame_list s') = {3..<0xA0} \<union> {0x303..<0x404}" "map (blocks_info s') (Block_info_free_list s') = [heap_block]"
    unfolding f by (elim exE conjE) (rule that; assumption)
  then show ?thesis by (intro exI[of _ s'] conjI)
qed

end
