(* ===== verification/Boot_Heap.thy ===== *)
theory Boot_Heap
  imports Boot_Props Kheap_Props
begin

text \<open>
  The kernel heap that the boot leaves behind: the initialisations from \<open>initialize_paging\<close> to the
  two arrays of shared objects and semaphores establish the invariant on which the properties of
  \<open>kmalloc\<close> and \<open>kfree\<close> rest.
\<close>

section \<open>The free frames and the page tables of the heap\<close>

text \<open>The frames that are in use when the heap starts.\<close>

definition boot_frames :: "kstate \<Rightarrow> nat set" where
  "boot_frames s = {..<3} \<union> {0xA0..<first_frame_after_kernel s}"

text \<open>
  What the page tables built by \<open>initialize_kernel_VM\<close> promise: every page of the heap has its own slot, all
  slots are empty, and the page directory is behind the pages that \<open>initialize_paging\<close> clears.
\<close>

definition boot_tables :: "(uint32 \<Rightarrow> uint32) \<Rightarrow> uint32 set \<Rightarrow> kstate \<Rightarrow> bool" where
  "boot_tables K T s \<longleftrightarrow> KERNEL_BASE \<le> ptr_free_mem s \<and> 0x100 \<le> first_frame_after_kernel s \<and>
     first_frame_after_kernel s \<le> unat (number_of_frames s) \<and> unat (number_of_frames s) \<le> 2 ^ 20 \<and>
     last_va_in_kheap s = KERNEL_HEAP_START \<and> kslots K s \<and> finite T \<and> (\<forall>v. heap_page v \<longrightarrow> K v \<in> T) \<and>
     (\<forall>a\<in>T. kmem s a = 0) \<and> (\<forall>w. word_at (ptr_page_directory s) (PDX w) \<notin> boot_page_words)"

lemma refs_inv_fresh:
  assumes "finite T" and "unat (number_of_frames s) \<le> 2 ^ 20" and "\<And>a. a \<in> T \<Longrightarrow> kmem s a = 0"
    and "distinct (free_frame_list s)" and "set (free_frame_list s) = {f. frame_ok R s f}"
    and "\<And>f. f \<in> set (free_frame_list s) \<Longrightarrow> frames_info s f = zero_frame_info"
  shows "refs_inv T R {} s"
proof -
  have "mapped T (kmem s) f = {}" for f using assms(3) by (auto simp: mapped_def)
  with assms show ?thesis by (simp add: refs_inv_def) (simp add: zero_frame_info_def)
qed

lemma kslots_memory:
  assumes "kslots K s" and "ptr_page_directory s' = ptr_page_directory s" and "number_of_frames s' = number_of_frames s"
    and "\<And>w. kmem s' (word_at (ptr_page_directory s) (PDX w)) = kmem s (word_at (ptr_page_directory s) (PDX w))"
  shows "kslots K s'"
proof -
  have "slot (ptr_page_directory s') v s' = Some (K v)" if v: "heap_page v" for v
    unfolding assms(2)
    by (rule slot_kernel_stable[OF kslotsD[OF assms(1) v] heap_page_kernel[OF v] assms(4,3)])
  then show ?thesis using assms(1,2) unfolding kslots_def by metis
qed

text \<open>After \<open>initialize_paging\<close> the frames and the tables agree.\<close>

lemma initialize_paging_tables:
  assumes "boot_tables K T s"
  obtains t where "initialize_paging s = Inr ((), t)" and "heap_tables_ok K T (boot_frames s) t"
    and "kfrees t = [(0xF6004000, 0x09FFB000)]" and "ktakens t = []" and "mset (kdescriptors t) = mset [0..<Max_number_of_blocks]"
    and "4 \<le> length (free_frame_list t)" and "last_va_in_kheap t = KERNEL_HEAP_START"
    and "\<And>a. a \<in> T \<Longrightarrow> kmem t a = 0" and "length (Block_info_free_list t) = 1"
proof -
  let ?re = "first_frame_after_kernel s" and ?n = "unat (number_of_frames s)"
  from assms have p: "KERNEL_BASE \<le> ptr_free_mem s" "0x100 \<le> ?re" "?re \<le> ?n" "?n \<le> 2 ^ 20"
    "last_va_in_kheap s = KERNEL_HEAP_START" "kslots K s" "finite T" "\<forall>v. heap_page v \<longrightarrow> K v \<in> T"
    "\<forall>a\<in>T. kmem s a = 0" "\<And>w. word_at (ptr_page_directory s) (PDX w) \<notin> boot_page_words"
    by (simp_all add: boot_tables_def)
  from initialize_paging_run[OF p(1-3)] obtain t where t: "initialize_paging s = Inr ((), t)"
    "free_frame_list t = rev [?re..<?n] @ rev [3..<0xA0]"
    "\<And>k. k \<in> {3..<0xA0} \<union> {?re..<?n} \<Longrightarrow> frames_info t k = zero_frame_info"
    "\<And>a. kmem t a = kmem s a \<or> kmem t a = 0 \<and> a \<in> boot_page_words"
    "map (blocks_info t) (Block_info_free_list t) = [heap_block]" "Block_info_taken_list t = []"
    "rev (Block_info_free_list t @ free_blocks t) = [0..<Max_number_of_blocks]"
    "number_of_frames t = number_of_frames s" "ptr_page_directory t = ptr_page_directory s"
    "last_va_in_kheap t = last_va_in_kheap s" by metis
  have zero: "kmem t a = 0" if "a \<in> T" for a using t(4)[of a] p(9) that by auto
  have fl: "set (free_frame_list t) = {3..<0xA0} \<union> {?re..<?n}" by (auto simp: t(2) simp del: upt_rec_numeral)
  have "refs_inv T (boot_frames s) {} t"
  proof (rule refs_inv_fresh[OF p(7) _ zero])
    show "distinct (free_frame_list t)" using p(2) by (auto simp: t(2) simp del: upt_rec_numeral)
    show "set (free_frame_list t) = {f. frame_ok (boot_frames s) t f}"
      using p(2,3) by (auto simp: fl frame_ok_def boot_frames_def t(8))
    show "frames_info t f = zero_frame_info" if "f \<in> set (free_frame_list t)" for f using t(3) that fl by blast
  qed (use p(4) t(8) in simp)
  moreover have "kslots K t" by (rule kslots_memory[OF p(6) t(9,8)]) (use t(4) p(10) in metis)
  moreover have md: "mset (kdescriptors t) = mset [0..<Max_number_of_blocks]"
    unfolding kdescriptors_def t(6) t(7)[symmetric] by simp
  moreover have "distinct (kdescriptors t)" using md by (metis distinct_upt mset_eq_imp_distinct_iff)
  ultimately have ok: "heap_tables_ok K T (boot_frames s) t" using p(8) by (simp add: heap_tables_ok_def)
  have "kfrees t = map region_of [heap_block]" by (simp add: kfrees_def regions_def flip: t(5))
  then have fr: "kfrees t = [(0xF6004000, 0x09FFB000)]" by (simp add: heap_block_def region_of_def layout_defs)
  show ?thesis
  proof (rule that[OF t(1) ok fr _ md _ _ zero])
    show "4 \<le> length (free_frame_list t)" by (simp add: t(2) del: upt_rec_numeral)
    show "length (Block_info_free_list t) = 1" using arg_cong[OF t(5), of length] by simp
  qed (use t(6,10) p(5) in \<open>simp_all add: ktakens_def regions_def\<close>)
qed

section \<open>The arrays of shared objects and semaphores\<close>

lemma heap_tables_ok_cong:
  assumes "kmem s' = kmem s" and "frames_info s' = frames_info s" and "free_frame_list s' = free_frame_list s"
    and "number_of_frames s' = number_of_frames s" and "ptr_page_directory s' = ptr_page_directory s"
    and "kdescriptors s' = kdescriptors s" and "heap_tables_ok K T R s"
  shows "heap_tables_ok K T R s'"
  using assms(6,7) refs_inv_cong[OF assms(1-4), of T R "{}"] kslots_cong[OF assms(1,5,4)]
  by (simp add: heap_tables_ok_def)

lemma array_sizes:
  "KERNEL_SHARES_ARR_INIT_SIZE div sizeof_Share = 97" "KERNEL_SEMAPHORES_ARR_INIT_SIZE div sizeof_Semaphore = 89"
  "ROUNDUP (97 * sizeof_Share) PAGE_SIZE = 0x2000" "ROUNDUP (89 * sizeof_Semaphore) PAGE_SIZE = 0x2000"
  by (simp_all add: layout_defs sizeof_Share_def sizeof_Semaphore_def KERNEL_SHARES_ARR_INIT_SIZE_def
      KERNEL_SEMAPHORES_ARR_INIT_SIZE_def ROUNDUP_def ROUNDDOWN_def)

text \<open>The state of the heap after \<open>k\<close> pages have been handed out from its bottom.\<close>

definition boot_heap :: "(uint32 \<Rightarrow> uint32) \<Rightarrow> uint32 set \<Rightarrow> nat set \<Rightarrow> nat \<Rightarrow> region list \<Rightarrow> kstate \<Rightarrow> bool" where
  "boot_heap K T R k tk s \<longleftrightarrow> heap_tables_ok K T R s \<and> kfrees s = [(0xF6004000, 0x09FFB000)] \<and> mset (ktakens s) = mset tk \<and>
     mset (kdescriptors s) = mset [0..<Max_number_of_blocks] \<and> KHeapPlacementStrategy s = PLACE_CONTALLOC \<and>
     unat (last_va_in_kheap s) = 0xF6000000 + 4096 * k \<and>
     (\<forall>v. heap_page v \<longrightarrow> (kmem s (K v) = 0 \<longleftrightarrow> 0xF6000000 + 4096 * k \<le> unat v))"

lemma boot_heap_two_pages:
  assumes h: "boot_heap K T R k tk s" and k: "k \<le> 2" and len: "length tk < 10" and n: "ROUNDUP sz PAGE_SIZE = 0x2000"
    and ff: "2 \<le> length (free_frame_list s)"
  obtains t where "kmalloc sz s = Inr (last_va_in_kheap s, t)"
    and "boot_heap K T R (k + 2) ((0xF6000000 + 4096 * k, 0x2000) # tk) t"
    and "free_frame_list t = drop 2 (free_frame_list s)"
    and "shares t = shares s" and "shares_ptr t = shares_ptr s" and "MAX_SHARES t = MAX_SHARES s"
    and "MAX_SEMAPHORES t = MAX_SEMAPHORES s"
proof -
  let ?l = "last_va_in_kheap s"
  from h have d: "heap_tables_ok K T R s" "kfrees s = [(0xF6004000, 0x09FFB000)]" "mset (ktakens s) = mset tk"
    "mset (kdescriptors s) = mset [0..<Max_number_of_blocks]" "KHeapPlacementStrategy s = PLACE_CONTALLOC"
    "unat ?l = 0xF6000000 + 4096 * k"
    "\<And>v. heap_page v \<Longrightarrow> kmem s (K v) = 0 \<longleftrightarrow> 0xF6000000 + 4096 * k \<le> unat v"
    by (simp_all add: boot_heap_def)
  have l: "?l \<le> 0xF6002000" using d(6) k by (simp add: word_le_nat_alt)
  have le: "(0x2000 :: uint32) \<le> KERNEL_HEAP_MAX - ?l"
    using d(6) k by (simp add: word_le_nat_alt layout_defs unat_sub)
  have al: "4096 dvd unat ?l" unfolding d(6) by simp
  have sub: "cells (unat ?l, unat (0x2000 :: uint32)) \<subseteq> kernel_heap_cells"
    unfolding d(6) using k by (auto simp: cells_def kernel_heap_cells_eq)
  have zero: "\<forall>v. heap_page v \<longrightarrow> unat v \<in> cells (unat ?l, unat (0x2000 :: uint32)) \<longrightarrow> kmem s (K v) = 0"
    using d(6,7) by (auto simp: cells_def)
  have "size (mset (kdescriptors s)) = Max_number_of_blocks" by (simp add: d(4))
  moreover have "length (Block_info_free_list s) = 1" using arg_cong[OF d(2), of length] by (simp add: kfrees_def regions_def)
  moreover have "length (Block_info_taken_list s) < 10"
    using arg_cong[OF d(3), of size] len by (simp add: ktakens_def regions_def)
  ultimately have fb: "free_blocks s \<noteq> []" by (auto simp: kdescriptors_def Max_number_of_blocks_def)
  obtain t where t: "kmalloc sz s = Inr (?l, t)" "heap_tables_ok K T R t" "kfrees t = kfrees s"
    "mset (ktakens t) = add_mset (unat ?l, unat (0x2000 :: uint32)) (mset (ktakens s))"
    "mset (kdescriptors t) = mset (kdescriptors s)" "last_va_in_kheap t = ?l + 0x2000"
    "KHeapPlacementStrategy t = PLACE_CONTALLOC" "free_frame_list t = drop (unat (0x2000 :: uint32) div 4096) (free_frame_list s)"
    "\<And>v. heap_page v \<Longrightarrow> if unat v \<in> cells (unat ?l, unat (0x2000 :: uint32)) then kmem t (K v) \<noteq> 0 else kmem t (K v) = kmem s (K v)"
    "shares t = shares s" "shares_ptr t = shares_ptr s" "MAX_SHARES t = MAX_SHARES s"
    "MAX_SEMAPHORES t = MAX_SEMAPHORES s"
    by (rule kmalloc_contiguous[OF d(1,5) n[symmetric] le al sub zero _ fb]) (use ff in simp_all)
  have nl: "unat (last_va_in_kheap t) = 0xF6000000 + 4096 * (k + 2)"
    using d(6) k by (simp add: t(6) unat_word_ariths)
  have "kmem t (K v) = 0 \<longleftrightarrow> 0xF6000000 + 4096 * (k + 2) \<le> unat v" if v: "heap_page v" for v
    using t(9)[OF v] d(7)[OF v] d(6) by (auto simp: cells_def split: if_splits)
  with t d nl have "boot_heap K T R (k + 2) ((0xF6000000 + 4096 * k, 0x2000) # tk) t" by (simp add: boot_heap_def)
  with t show ?thesis by (intro that[of t]) simp_all
qed

lemma boot_heap_invariant:
  assumes "boot_heap K T R 4 [(0xF6002000, 0x2000), (0xF6000000, 0x2000)] s"
  shows "kh_inv K T R s"
proof -
  from assms have d: "heap_tables_ok K T R s" "kfrees s = [(0xF6004000, 0x09FFB000)]"
    "mset (ktakens s) = mset [(0xF6002000, 0x2000), (0xF6000000, 0x2000)]"
    "mset (kdescriptors s) = mset [0..<Max_number_of_blocks]"
    "\<And>v. heap_page v \<Longrightarrow> kmem s (K v) = 0 \<longleftrightarrow> 0xF6004000 \<le> unat v"
    by (simp_all add: boot_heap_def)
  have c: "cover (ktakens s) = {0xF6000000..<0xF6004000}" "cover (kfrees s) = {0xF6004000..<0xFFFFF000}"
    unfolding cover_mset_cong[OF d(3)] d(2) by (auto simp: cover_def cells_def)
  have "disjoint_regions (ktakens s)"
    unfolding disjoint_regions_mset[OF d(3)] by (auto simp: disjoint_regions_def cells_def)
  moreover have "\<forall>r\<in>set (ktakens s). 0 < snd r" "\<forall>r\<in>set (kfrees s @ ktakens s). page_aligned r"
    using mset_eq_setD[OF d(3)] by (simp_all add: d(2) page_aligned_def)
  moreover have "gapped (kfrees s)" by (simp add: d(2) gapped_def)
  ultimately have "blocks_ok s" using d(4) by (auto simp: blocks_ok_def c kernel_heap_cells_eq)
  moreover have "backed K s"
    unfolding backed_def c using d(5) by (auto simp: heap_page_iff kernel_heap_cells_eq)
  ultimately show ?thesis using d(1) by (simp add: kh_inv_def heap_tables_ok_def)
qed

lemma boot_heap_cong:
  assumes "boot_heap K T R k tk s" and "kmem s' = kmem s" and "frames_info s' = frames_info s"
    and "free_frame_list s' = free_frame_list s" and "number_of_frames s' = number_of_frames s"
    and "ptr_page_directory s' = ptr_page_directory s" and "blocks_info s' = blocks_info s"
    and "Block_info_free_list s' = Block_info_free_list s" and "Block_info_taken_list s' = Block_info_taken_list s"
    and "free_blocks s' = free_blocks s" and "last_va_in_kheap s' = last_va_in_kheap s"
    and "KHeapPlacementStrategy s' = KHeapPlacementStrategy s"
  shows "boot_heap K T R k tk s'"
proof -
  have e: "kfrees s' = kfrees s" "ktakens s' = ktakens s" "kdescriptors s' = kdescriptors s"
    by (simp_all add: kfrees_def ktakens_def kdescriptors_def assms(7-10))
  from assms(1) have "heap_tables_ok K T R s" by (simp add: boot_heap_def)
  from heap_tables_ok_cong[OF assms(2-6) e(3) this] assms(1) show ?thesis
    unfolding boot_heap_def e assms(2,11,12) by blast
qed

text \<open>The first and the second array.\<close>

lemma create_shares_array_boot:
  assumes h: "boot_heap K T R 0 [] s" and m: "MAX_SHARES s = 97" and ff: "4 \<le> length (free_frame_list s)"
  obtains t where "create_shares_array 97 s = Inr ((), t)" and "boot_heap K T R 2 [(0xF6000000, 0x2000)] t"
    and "2 \<le> length (free_frame_list t)" and "shares_ptr t = 0xF6000000" and "MAX_SHARES t = 97"
    and "\<forall>i<97. shares t i = zero_share"
proof -
  have l: "last_va_in_kheap s = 0xF6000000" using h by (simp add: boot_heap_def word_unat_eq_iff)
  obtain u where u: "kmalloc (97 * sizeof_Share) s = Inr (last_va_in_kheap s, u)"
    "boot_heap K T R (0 + 2) [(0xF6000000 + 4096 * 0, 0x2000)] u"
    "free_frame_list u = drop 2 (free_frame_list s)" "MAX_SHARES u = MAX_SHARES s"
    by (rule boot_heap_two_pages[OF h _ _ array_sizes(3)]) (use ff in simp_all)
  let ?t = "u\<lparr>shares_ptr := 0xF6000000, shares := (\<lambda>i. if i < unat (MAX_SHARES u) then zero_share else shares u i)\<rparr>"
  have "create_shares_array 97 s = Inr ((), ?t)" using u(1) l by (simp add: create_shares_array_def cong: if_cong)
  moreover have "boot_heap K T R 2 [(0xF6000000, 0x2000)] ?t"
    by (rule boot_heap_cong[OF u(2)[unfolded add_0 mult_0_right add_0_right]]) simp_all
  ultimately show ?thesis using u(3,4) m ff by (intro that[of ?t]) simp_all
qed

lemma create_semaphores_array_boot:
  assumes h: "boot_heap K T R 2 tk s" and m: "MAX_SEMAPHORES s = 89" and ff: "2 \<le> length (free_frame_list s)"
    and len: "length tk < 10"
  obtains t where "create_semaphores_array 89 s = Inr ((), t)" and "boot_heap K T R 4 ((0xF6002000, 0x2000) # tk) t"
    and "semaphores_ptr t = 0xF6002000" and "MAX_SEMAPHORES t = 89" and "\<forall>i<89. semaphores t i = zero_semaphore"
    and "shares t = shares s" and "shares_ptr t = shares_ptr s" and "MAX_SHARES t = MAX_SHARES s"
proof -
  have l: "last_va_in_kheap s = 0xF6002000" using h by (simp add: boot_heap_def word_unat_eq_iff)
  obtain u where u: "kmalloc (89 * sizeof_Semaphore) s = Inr (last_va_in_kheap s, u)"
    "boot_heap K T R (2 + 2) ((0xF6000000 + 4096 * 2, 0x2000) # tk) u"
    "shares u = shares s" "shares_ptr u = shares_ptr s" "MAX_SHARES u = MAX_SHARES s" "MAX_SEMAPHORES u = MAX_SEMAPHORES s"
    by (rule boot_heap_two_pages[OF h _ len array_sizes(4) ff]) simp_all
  let ?t = "u\<lparr>semaphores_ptr := 0xF6002000, semaphores := (\<lambda>i. if i < unat (MAX_SEMAPHORES u) then zero_semaphore else semaphores u i)\<rparr>"
  have "create_semaphores_array 89 s = Inr ((), ?t)" using u(1) l by (simp add: create_semaphores_array_def cong: if_cong)
  moreover have "boot_heap K T R (2 + 2) ((0xF6000000 + 4096 * 2, 0x2000) # tk) ?t" by (rule boot_heap_cong[OF u(2)]) simp_all
  ultimately show ?thesis using u(3-6) m by (intro that[of ?t]) simp_all
qed

section \<open>The heap at the command prompt\<close>

text \<open>C18: The initialisations establish the invariant of the kernel heap: once the two arrays exist the blocks of the
  heap are exactly those arrays and the free rest, every page of theirs and no other is mapped to a frame of its own
  that was free, and the next contiguous request starts where the free block starts.  The frames of the kernel
  image and of the devices stay in use.\<close>

theorem boot_establishes_heap:
  assumes "boot_tables K T s"
  shows "\<exists>t. initialize_services s = Inr ((), t) \<and> kh_inv K T (boot_frames s) t \<and>
    kfrees t = [(0xF6004000, 0x09FFB000)] \<and> mset (ktakens t) = {#(0xF6000000, 0x2000), (0xF6002000, 0x2000)#} \<and>
    unat (last_va_in_kheap t) = 0xF6004000 \<and> shares_ptr t = 0xF6000000 \<and> semaphores_ptr t = 0xF6002000 \<and>
    MAX_SHARES t = 97 \<and> (\<forall>i<97. shares t i = zero_share) \<and>
    MAX_SEMAPHORES t = 89 \<and> (\<forall>i<89. semaphores t i = zero_semaphore)"
proof -
  let ?R = "boot_frames s"
  from initialize_paging_tables[OF assms] obtain a where a: "initialize_paging s = Inr ((), a)" "heap_tables_ok K T ?R a"
    "kfrees a = [(0xF6004000, 0x09FFB000)]" "ktakens a = []" "mset (kdescriptors a) = mset [0..<Max_number_of_blocks]"
    "4 \<le> length (free_frame_list a)" "last_va_in_kheap a = KERNEL_HEAP_START" "\<And>a'. a' \<in> T \<Longrightarrow> kmem a a' = 0" by metis
  define b where "b = a\<lparr>envs := (\<lambda>i. if i < unat NENV then (envs a i)\<lparr>env_status := ENV_FREE, env_id := 0\<rparr> else envs a i),
     env_free_list := [0..<unat NENV] @ env_free_list a, PageRepAlgoType := PG_REP_FIFO,
     UHeapPlacementStrategy := UHP_PLACE_FIRSTFIT, KHeapPlacementStrategy := PLACE_CONTALLOC, EnableBuffering := 0,
     EnableModifiedBuffer := 0, env_ready_queue := [], env_new_queue := [], env_exit_queue := [], sched_next := None,
     scheduler_started := False, MAX_SHARES := 97\<rparr>"
  have ok: "heap_tables_ok K T ?R b"
    by (rule heap_tables_ok_cong[OF _ _ _ _ _ _ a(2)]) (simp_all add: b_def kdescriptors_def)
  have e: "kfrees b = kfrees a" "ktakens b = ktakens a" "kdescriptors b = kdescriptors a" "kmem b = kmem a"
    by (simp_all add: b_def kfrees_def ktakens_def kdescriptors_def)
  have "kmem b (K v) = 0 \<longleftrightarrow> 0xF6000000 + 4096 * 0 \<le> unat v" if v: "heap_page v" for v
  proof -
    have "K v \<in> T" using assms v by (simp add: boot_tables_def)
    then show ?thesis using a(8) v by (simp add: e heap_page_iff kernel_heap_cells_eq)
  qed
  then have h: "boot_heap K T ?R 0 [] b"
    unfolding boot_heap_def e using ok a(3-5,7) by (simp add: b_def layout_defs)
  obtain c where c: "create_shares_array 97 b = Inr ((), c)" "boot_heap K T ?R 2 [(0xF6000000, 0x2000)] c"
    "2 \<le> length (free_frame_list c)" "shares_ptr c = 0xF6000000" "MAX_SHARES c = 97" "\<forall>i<97. shares c i = zero_share"
    by (rule create_shares_array_boot[OF h]) (use a(6) in \<open>simp_all add: b_def\<close>)
  let ?d = "c\<lparr>MAX_SEMAPHORES := 89\<rparr>"
  have hd: "boot_heap K T ?R 2 [(0xF6000000, 0x2000)] ?d" by (rule boot_heap_cong[OF c(2)]) simp_all
  obtain t where t: "create_semaphores_array 89 ?d = Inr ((), t)"
    "boot_heap K T ?R 4 [(0xF6002000, 0x2000), (0xF6000000, 0x2000)] t" "semaphores_ptr t = 0xF6002000"
    "MAX_SEMAPHORES t = 89" "\<forall>i<89. semaphores t i = zero_semaphore" "shares t = shares ?d"
    "shares_ptr t = shares_ptr ?d" "MAX_SHARES t = MAX_SHARES ?d"
    by (rule create_semaphores_array_boot[OF hd]) (use c(3) in simp_all)
  have "initialize_services s = Inr ((), t)"
    using a(1) c(1,5) t(1)
    by (simp add: initialize_services_def seqm_def bnd_apply env_init_def setPageReplacmentAlgorithm_def
        setUHeapPlacementStrategy_def setKHeapPlacementStrategy_def enableBuffering_def enableModifiedBuffer_def
        sched_init_def array_sizes b_def)
  moreover have "kfrees t = [(0xF6004000, 0x09FFB000)]" "mset (ktakens t) = {#(0xF6000000, 0x2000), (0xF6002000, 0x2000)#}"
    "unat (last_va_in_kheap t) = 0xF6004000"
    using t(2) by (simp_all add: boot_heap_def)
  ultimately show ?thesis using boot_heap_invariant[OF t(2)] t(3-8) c(4-6) by simp
qed

text \<open>The machine of \<open>kernel_start\<close>, when its image and boot-time data end at 4 MB.\<close>

theorem boot_establishes_heap_witness:
  "\<exists>t. initialize_services (kernel_start\<lparr>ptr_free_mem := 0xF0400000, last_va_in_kheap := KERNEL_HEAP_START\<rparr>) = Inr ((), t) \<and>
     kfrees t = [(0xF6004000, 0x09FFB000)] \<and> shares_ptr t = 0xF6000000 \<and> semaphores_ptr t = 0xF6002000"
proof -
  let ?s = "kernel_start\<lparr>ptr_free_mem := 0xF0400000, last_va_in_kheap := KERNEL_HEAP_START\<rparr>"
  have f: "first_frame_after_kernel ?s = 0x400" "unat (number_of_frames ?s) = 0x404"
    by (simp_all add: first_frame_after_kernel_def kernel_start_def ROUNDUP_def ROUNDDOWN_def KERNEL_BASE_def PAGE_SIZE_def)
  have "kslots kernel_slot ?s" by (rule kslots_cong[OF _ _ _ kernel_start_kslots]) simp_all
  moreover have "word_at 0xF0300000 (PDX w) \<notin> boot_page_words" for w
  proof -
    have lt: "unat (PDX w) < 1024" unfolding unat_PDX using unsigned_less[of w, where ?'a = nat] by simp
    then have "unat (4 * PDX w) = 4 * unat (PDX w)" by (simp add: unat_word_ariths)
    with lt have "unat (word_at 0xF0300000 (PDX w)) = 0xF0300000 + 4 * unat (PDX w)"
      unfolding word_at_def by (subst word_add_le_unat) simp_all
    then show ?thesis by (simp add: boot_page_words_def)
  qed
  moreover have "ptr_page_directory ?s = 0xF0300000" by (simp add: kernel_start_def)
  moreover have "finite kernel_slots" "\<forall>v. heap_page v \<longrightarrow> kernel_slot v \<in> kernel_slots" by (simp_all add: kernel_slots_def)
  moreover have "\<forall>a\<in>kernel_slots. kmem ?s a = 0" using kernel_slots_zero by simp
  ultimately have "boot_tables kernel_slot kernel_slots ?s"
    unfolding boot_tables_def f by (simp add: KERNEL_BASE_def)
  from boot_establishes_heap[OF this] show ?thesis by blast
qed

end
