(* ===== verification/Printfmt.thy ===== *)
theory Printfmt
  imports Cstring Paging
begin

text \<open>
  Formatted output: lib/printfmt.c, and its three users, kern/printf.c, lib/printf.c and
  \<open>vsnprintf\<close>.  The state \<open>'d\<close> is what the callback \<open>putch\<close> works on, \<open>rd\<close> is the memory in it: the
  format, the arguments and the strings are read from memory between two characters of
  output.  The arguments are words on the stack, from \<open>ap\<close> on.  Loops that run to the end of the
  format or of a string are partial functions.
\<close>

section \<open>Arguments (inc/stdarg.h)\<close>

definition load_word :: "memory \<Rightarrow> uint32 \<Rightarrow> uint32" where
  "load_word m a = ucast (m a) OR push_bit 8 (ucast (m (a + 1))) OR
     push_bit 16 (ucast (m (a + 2))) OR push_bit 24 (ucast (m (a + 3)))"

definition load_long :: "memory \<Rightarrow> uint32 \<Rightarrow> uint64" where
  "load_long m a = ucast (load_word m a) OR push_bit 32 (ucast (load_word m (a + 4)))"

text \<open>The number and the place of the next argument.\<close>

definition getuint :: "memory \<Rightarrow> uint32 \<Rightarrow> nat \<Rightarrow> uint64 \<times> uint32" where
  "getuint m ap lflag = (if 2 \<le> lflag then (load_long m ap, ap + 8) else (ucast (load_word m ap), ap + 4))"

definition getint :: "memory \<Rightarrow> uint32 \<Rightarrow> nat \<Rightarrow> uint64 \<times> uint32" where
  "getint m ap lflag = (if 2 \<le> lflag then (load_long m ap, ap + 8) else (scast (load_word m ap), ap + 4))"

section \<open>Numbers\<close>

definition digit_char :: "nat \<Rightarrow> uint32" where
  "digit_char k = of_char (''0123456789abcdef'' ! k)"

text \<open>The higher digits are printed first, by a recursive call; the padding comes before the first.\<close>

partial_function (option) printnum ::
  "(uint32 \<Rightarrow> 'd \<Rightarrow> 'd) \<Rightarrow> uint64 \<Rightarrow> uint32 \<Rightarrow> uint32 \<Rightarrow> uint32 \<Rightarrow> 'd \<Rightarrow> 'd option" where
  "printnum putch num base width padc d =
     Option.bind
       (if ucast base \<le> num then printnum putch (num div ucast base) base (width - 1) padc d
        else Some ((putch padc ^^ nat (sint (width - 1))) d))
       (\<lambda>d. Some (putch (digit_char (unat (num mod ucast base))) d))"

section \<open>Strings\<close>

text \<open>
  The loop of \<^verbatim>\<open>%s\<close>, over a string in memory and over a string constant.  The result is what is left
  of the width, and the state.
\<close>

definition shown :: "bool \<Rightarrow> uint8 \<Rightarrow> uint32" where
  "shown altflag c = (if altflag \<and> (c <s 32 \<or> 126 <s c) then 63 else scast c)"

partial_function (option) put_string ::
  "('d \<Rightarrow> memory) \<Rightarrow> (uint32 \<Rightarrow> 'd \<Rightarrow> 'd) \<Rightarrow> bool \<Rightarrow> uint32 \<Rightarrow> uint32 \<Rightarrow> uint32 \<Rightarrow> 'd \<Rightarrow> (uint32 \<times> 'd) option" where
  "put_string rd putch altflag p precision width d =
     (let c = rd d p in
      if c \<noteq> 0 \<and> (precision <s 0 \<or> 0 \<le>s precision - 1)
      then put_string rd putch altflag (p + 1) (if precision <s 0 then precision else precision - 1) (width - 1)
             (putch (shown altflag c) d)
      else Some (width, d))"

fun put_constant :: "(uint32 \<Rightarrow> 'd \<Rightarrow> 'd) \<Rightarrow> bool \<Rightarrow> string \<Rightarrow> uint32 \<Rightarrow> uint32 \<Rightarrow> 'd \<Rightarrow> uint32 \<times> 'd" where
  "put_constant putch altflag [] precision width d = (width, d)"
| "put_constant putch altflag (c # cs) precision width d =
     (if precision <s 0 \<or> 0 \<le>s precision - 1
      then put_constant putch altflag cs (if precision <s 0 then precision else precision - 1) (width - 1)
             (putch (shown altflag (chr c)) d)
      else (width, d))"

definition put_times :: "(uint32 \<Rightarrow> 'd \<Rightarrow> 'd) \<Rightarrow> uint32 \<Rightarrow> uint32 \<Rightarrow> 'd \<Rightarrow> 'd" where
  "put_times putch n ch d = (putch ch ^^ nat (sint n)) d"

text \<open>The messages of \<^verbatim>\<open>%e\<close>; the table has a hundred entries more, which are null.\<close>

definition MAXERROR :: uint32 where "MAXERROR = 100"

definition error_string :: "uint32 \<Rightarrow> string option" where
  "error_string err = (if err = 1 then Some ''unspecified error'' else if err = 2 then Some ''bad environment''
     else if err = 3 then Some ''invalid parameter'' else if err = 4 then Some ''out of memory''
     else if err = 5 then Some ''out of environments'' else if err = 6 then Some ''segmentation fault''
     else None)"

section \<open>The directives\<close>

record directive =
  padc :: uint32
  width :: uint32
  precision :: uint32
  lflag :: nat
  altflag :: bool

definition no_flags :: directive where
  "no_flags = \<lparr>padc = of_char CHR '' '', width = -1, precision = -1, lflag = 0, altflag = False\<rparr>"

definition process_precision :: "uint32 \<Rightarrow> directive \<Rightarrow> directive" where
  "process_precision p f = (if width f <s 0 then f\<lparr>width := p, precision := -1\<rparr> else f\<lparr>precision := p\<rparr>)"

partial_function (option) scan_width :: "memory \<Rightarrow> uint8 \<Rightarrow> uint32 \<Rightarrow> uint32 \<Rightarrow> (uint32 \<times> uint32) option" where
  "scan_width m ch fmt p =
     (let p' = p * 10 + ucast ch - 48 in
      if m fmt < 48 \<or> 57 < m fmt then Some (p', fmt) else scan_width m (m fmt) (fmt + 1) p')"

text \<open>Flags, width and precision; returns the character of the conversion.\<close>

partial_function (option) scan_directive ::
  "memory \<Rightarrow> uint32 \<Rightarrow> uint32 \<Rightarrow> directive \<Rightarrow> (uint8 \<times> directive \<times> uint32 \<times> uint32) option" where
  "scan_directive m fmt ap f =
     (let ch = m fmt in
      if ch = chr CHR ''-'' \<or> ch = chr CHR ''0'' then scan_directive m (fmt + 1) ap (f\<lparr>padc := ucast ch\<rparr>)
      else if chr CHR ''1'' \<le> ch \<and> ch \<le> chr CHR ''9'' then
        Option.bind (scan_width m ch (fmt + 1) 0) (\<lambda>(p, fmt). scan_directive m fmt ap (process_precision p f))
      else if ch = chr CHR ''*'' then scan_directive m (fmt + 1) (ap + 4) (process_precision (load_word m ap) f)
      else if ch = chr CHR ''.'' then scan_directive m (fmt + 1) ap (if width f <s 0 then f\<lparr>width := 0\<rparr> else f)
      else if ch = chr CHR ''#'' then scan_directive m (fmt + 1) ap (f\<lparr>altflag := True\<rparr>)
      else if ch = chr CHR ''l'' then scan_directive m (fmt + 1) ap (f\<lparr>lflag := lflag f + 1\<rparr>)
      else Some (ch, f, fmt + 1, ap))"

text \<open>An unknown directive is printed as it stands: back to the character after the percent sign.\<close>

partial_function (option) rewind :: "memory \<Rightarrow> uint32 \<Rightarrow> uint32 option" where
  "rewind m fmt = (if m (fmt - 1) = chr CHR ''%'' then Some fmt else rewind m (fmt - 1))"

definition put_s :: "('d \<Rightarrow> memory) \<Rightarrow> (uint32 \<Rightarrow> 'd \<Rightarrow> 'd) \<Rightarrow> directive \<Rightarrow> uint32 \<Rightarrow> 'd \<Rightarrow> 'd option" where
  "put_s rd putch f p d =
     (let len = (if p = 0 then of_nat (min 6 (unat (precision f))) else strnlen (rd d) p (precision f));
          pads = (0 <s width f \<and> padc f \<noteq> ucast (chr CHR ''-''));
          d = (if pads then put_times putch (width f - len) (padc f) d else d);
          w = (if pads then (if width f - len <s 0 then width f - len else 0) else width f)
      in Option.bind
           (if p = 0 then Some (put_constant putch (altflag f) ''(null)'' (precision f) w d)
            else put_string rd putch (altflag f) p (precision f) w d)
           (\<lambda>(w, d). Some (put_times putch w (of_char CHR '' '') d)))"

text \<open>The most negative code has no absolute value and is looked up far outside the table.\<close>

definition put_e :: "(uint32 \<Rightarrow> 'd \<Rightarrow> 'd) \<Rightarrow> uint32 \<Rightarrow> 'd \<Rightarrow> 'd option" where
  "put_e putch code d =
     (let err = (if code <s 0 then - code else code) in
      if err = 0x80000000 then None
      else case (if MAXERROR <s err then None else error_string err) of
        None \<Rightarrow> printnum putch (ucast err) 10 (-1) 32 (fold putch (map of_char ''error '') d)
      | Some p \<Rightarrow> Some (fold putch (map of_char p) d))"

text \<open>One conversion; \<open>fmt\<close> is behind its character.\<close>

definition conversion ::
  "('d \<Rightarrow> memory) \<Rightarrow> (uint32 \<Rightarrow> 'd \<Rightarrow> 'd) \<Rightarrow> uint8 \<Rightarrow> directive \<Rightarrow> uint32 \<Rightarrow> uint32 \<Rightarrow> 'd \<Rightarrow> (uint32 \<times> uint32 \<times> 'd) option" where
  "conversion rd putch ch f fmt ap d =
     (let m = rd d; number = (\<lambda>num base d. printnum putch num base (width f) (padc f) d) in
      if ch = chr CHR ''c'' then Some (fmt, ap + 4, putch (load_word m ap) d)
      else if ch = chr CHR ''e'' then map_option (\<lambda>d. (fmt, ap + 4, d)) (put_e putch (load_word m ap) d)
      else if ch = chr CHR ''s'' then map_option (\<lambda>d. (fmt, ap + 4, d)) (put_s rd putch f (load_word m ap) d)
      else if ch = chr CHR ''d'' then
        (let (num, ap) = getint m ap (lflag f) in
         map_option (\<lambda>d. (fmt, ap, d))
           (if num <s 0 then number (- num) 10 (putch (of_char CHR ''-'') d) else number num 10 d))
      else if ch = chr CHR ''u'' then
        (let (num, ap) = getuint m ap (lflag f) in map_option (\<lambda>d. (fmt, ap, d)) (number num 10 d))
      else if ch = chr CHR ''o'' then Some (fmt, ap, (putch (of_char CHR ''X'') ^^ 3) d)
      else if ch = chr CHR ''p'' then
        map_option (\<lambda>d. (fmt, ap + 4, d))
          (number (ucast (load_word m ap)) 16 (putch (of_char CHR ''x'') (putch (of_char CHR ''0'') d)))
      else if ch = chr CHR ''x'' then
        (let (num, ap) = getuint m ap (lflag f) in map_option (\<lambda>d. (fmt, ap, d)) (number num 16 d))
      else if ch = chr CHR ''%'' then Some (fmt, ap, putch (ucast ch) d)
      else (let d = putch (of_char CHR ''%'') d in map_option (\<lambda>fmt. (fmt, ap, d)) (rewind (rd d) (fmt - 1))))"

partial_function (option) vprintfmt ::
  "('d \<Rightarrow> memory) \<Rightarrow> (uint32 \<Rightarrow> 'd \<Rightarrow> 'd) \<Rightarrow> uint32 \<Rightarrow> uint32 \<Rightarrow> 'd \<Rightarrow> 'd option" where
  "vprintfmt rd putch fmt ap d =
     (let ch = rd d fmt in
      if ch = 0 then Some d
      else if ch \<noteq> chr CHR ''%'' then vprintfmt rd putch (fmt + 1) ap (putch (ucast ch) d)
      else Option.bind (scan_directive (rd d) (fmt + 1) ap no_flags) (\<lambda>(ch, f, fmt, ap).
           Option.bind (conversion rd putch ch f fmt ap d) (\<lambda>(fmt, ap, d). vprintfmt rd putch fmt ap d)))"

section \<open>Output to a buffer\<close>

record sprintbuf =
  buf :: uint32
  ebuf :: uint32
  cnt :: uint32
  bytes :: memory

definition sprintputch :: "uint32 \<Rightarrow> sprintbuf \<Rightarrow> sprintbuf" where
  "sprintputch ch b = (let b = b\<lparr>cnt := cnt b + 1\<rparr> in
     if buf b < ebuf b then b\<lparr>bytes := (bytes b)(buf b := ucast ch), buf := buf b + 1\<rparr> else b)"

text \<open>Returns the memory and the count; the error code is negated although it is negative.\<close>

definition vsnprintf :: "memory \<Rightarrow> uint32 \<Rightarrow> uint32 \<Rightarrow> uint32 \<Rightarrow> uint32 \<Rightarrow> (memory \<times> uint32) option" where
  "vsnprintf m p n fmt ap =
     (if p = 0 \<or> n <s 1 then Some (m, of_int (- E_INVAL))
      else map_option (\<lambda>b. ((bytes b)(buf b := 0), cnt b))
        (vprintfmt bytes sprintputch fmt ap \<lparr>buf = p, ebuf = p + n - 1, cnt = 0, bytes = m\<rparr>))"

section \<open>Output to the console\<close>

text \<open>
  The kernel writes to the console at once.  Its \<open>putch\<close> increments its pointer to the count instead of the
  count, so the count that is returned is always 0.
\<close>

definition kernel_putch :: "uint32 \<Rightarrow> uint32 list \<Rightarrow> uint32 list" where
  "kernel_putch ch console = console @ [ch]"

definition kernel_vcprintf :: "memory \<Rightarrow> uint32 \<Rightarrow> uint32 \<Rightarrow> uint32 list \<Rightarrow> (uint32 list \<times> uint32) option" where
  "kernel_vcprintf m fmt ap console =
     map_option (\<lambda>console. (console, 0)) (vprintfmt (\<lambda>_. m) kernel_putch fmt ap console)"

text \<open>A program collects 255 characters and prints them with one system call; \<open>cputs\<close> has the calls.\<close>

record printbuf =
  pending :: "uint8 list"
  total_cnt :: uint32
  cputs :: "uint8 list list"

definition user_putch :: "uint32 \<Rightarrow> printbuf \<Rightarrow> printbuf" where
  "user_putch ch b =
     (let b = b\<lparr>pending := pending b @ [ucast ch]\<rparr>;
          b = (if length (pending b) = 255 then b\<lparr>cputs := cputs b @ [pending b], pending := []\<rparr> else b)
      in b\<lparr>total_cnt := total_cnt b + 1\<rparr>)"

definition user_vcprintf :: "memory \<Rightarrow> uint32 \<Rightarrow> uint32 \<Rightarrow> (uint8 list list \<times> uint32) option" where
  "user_vcprintf m fmt ap =
     map_option (\<lambda>b. (cputs b @ [pending b], total_cnt b))
       (vprintfmt (\<lambda>_. m) user_putch fmt ap \<lparr>pending = [], total_cnt = 0, cputs = []\<rparr>)"

section \<open>Reading a line (lib/readline.c)\<close>

definition BUFLEN :: nat where "BUFLEN = 1024"

text \<open>
  The input is a list of results of \<open>getchar\<close>; when it runs out the loop waits, and there is no
  result.  The result is the memory and the rest of the input.  On a negative character the text
  is not terminated.
\<close>

fun readline_go :: "uint32 \<Rightarrow> uint32 list \<Rightarrow> nat \<Rightarrow> memory \<Rightarrow> (memory \<times> uint32 list) option" where
  "readline_go p [] i m = None"
| "readline_go p (c # cs) i m =
     (if c <s 0 then Some (m, cs)
      else if 32 \<le>s c \<and> i < BUFLEN - 1 then readline_go p cs (i + 1) (m(p + of_nat i := ucast c))
      else if c = 8 \<and> 0 < i then readline_go p cs (i - 1) m
      else if c = 10 \<or> c = 13 then Some (m(p + of_nat i := 0), cs)
      else readline_go p cs i m)"

definition readline :: "uint32 \<Rightarrow> uint32 list \<Rightarrow> memory \<Rightarrow> (memory \<times> uint32 list) option" where
  "readline p input m = readline_go p input 0 m"

end
