(* ===== verification/Printfmt_Props.thy ===== *)
theory Printfmt_Props
  imports Printfmt
begin

text \<open>
  What formatted output prints.  A format is described by the items it was written from, and every format has items; the text of
  the items is a plain function.  The locale has what a callback must promise: it leaves alone
  the memory that is still to be read.  Both the buffer of \<open>vsnprintf\<close> and the consoles are instances.
\<close>

section \<open>Numerals\<close>

fun digits :: "nat \<Rightarrow> nat \<Rightarrow> nat list" where
  "digits b n = (if n < b \<or> b < 2 then [n] else digits b (n div b) @ [n mod b])"

declare digits.simps [simp del]

lemma digits_less: "n < b \<Longrightarrow> digits b n = [n]"
  by (simp add: digits.simps)

lemma digits_step: "2 \<le> b \<Longrightarrow> b \<le> n \<Longrightarrow> digits b n = digits b (n div b) @ [n mod b]"
  by (subst digits.simps) simp

lemma digits_value: "2 \<le> b \<Longrightarrow> foldl (\<lambda>v k. v * b + k) 0 (digits b n) = n"
proof (induction b n rule: digits.induct)
  case (1 b n)
  then show ?case by (cases "n < b") (simp_all add: digits_less digits_step)
qed

lemma digits_range: "2 \<le> b \<Longrightarrow> k \<in> set (digits b n) \<Longrightarrow> k < b"
proof (induction b n rule: digits.induct)
  case (1 b n)
  then show ?case by (cases "n < b") (auto simp: digits_less digits_step)
qed

lemma digits_hd: "2 \<le> b \<Longrightarrow> 0 < n \<Longrightarrow> \<exists>k ks. digits b n = k # ks \<and> 0 < k"
proof (induction b n rule: digits.induct)
  case (1 b n)
  show ?case
  proof (cases "n < b")
    case True
    with 1(3) show ?thesis by (simp add: digits_less)
  next
    case False
    then have "0 < n div b" using 1(2) by (simp add: div_greater_zero_iff)
    with False 1 show ?thesis by (fastforce simp: digits_step)
  qed
qed

lemma digits_length: "2 \<le> b \<Longrightarrow> n < b ^ Suc j \<Longrightarrow> length (digits b n) \<le> Suc j"
proof (induction j arbitrary: n)
  case 0
  then show ?case by (simp add: digits_less)
next
  case (Suc j)
  show ?case
  proof (cases "n < b")
    case True
    then show ?thesis by (simp add: digits_less)
  next
    case False
    have "n div b < b ^ Suc j"
      using Suc.prems by (simp add: less_mult_imp_div_less mult.commute)
    from Suc.IH[OF Suc.prems(1) this] show ?thesis using False Suc.prems(1) by (simp add: digits_step)
  qed
qed

text \<open>What a number looks like: padded on the left to its width.\<close>

definition numeral_text :: "nat \<Rightarrow> uint32 \<Rightarrow> nat \<Rightarrow> nat \<Rightarrow> uint32 list" where
  "numeral_text b pad w n =
     (let ds = map digit_char (digits b n) in replicate (w - length ds) pad @ ds)"

lemma funpow_replicate: "(putch c ^^ k) d = fold putch (replicate k c) d"
  by (induction k arbitrary: d) (simp_all add: funpow_swap1)

lemma sint_minus_one: "- (2 ^ 31) < sint (w :: uint32) \<Longrightarrow> sint (w - 1) = sint w - 1"
proof -
  assume lo: "- (2 ^ 31) < sint w"
  have hi: "sint w < 2 ^ 31" using sint_lt[of w] by simp
  have "sint (w - 1) = signed_take_bit 31 (sint w - sint (1 :: uint32))"
    by (simp add: sint_word_ariths)
  then show ?thesis using lo hi by (simp add: signed_take_bit_int_eq_self)
qed

lemma printnum_digits:
  assumes "2 \<le> b" and "b < 2 ^ 32" and "int (length (digits b (unat num))) \<le> 2 ^ 31 + sint w"
  shows "printnum putch num (of_nat b) w pad d =
    Some (fold putch (replicate (nat (sint w - int (length (digits b (unat num))))) pad @
            map digit_char (digits b (unat num))) d)"
  using assms(3)
proof (induction "unat num" arbitrary: num w d rule: less_induct)
  case less
  have b: "unat (of_nat b :: uint32) = b" "unat (ucast (of_nat b :: uint32) :: uint64) = b"
    using assms(2) by (simp_all add: unat_of_nat_small unsigned_ucast_eq take_bit_nat_eq_self)
  note [simp del] = funpow.simps
  have ne: "0 < int (length (digits b n))" for n
    by (cases "n < b") (simp_all add: digits_less digits_step assms(1))
  have w: "sint (w - 1) = sint w - 1" by (rule sint_minus_one) (use less.prems ne[of "unat num"] in linarith)
  have m: "unat (num mod ucast (of_nat b :: uint32)) = unat num mod b" by (simp only: unat_mod b)
  have q: "unat (num div ucast (of_nat b :: uint32)) = unat num div b" by (simp only: unat_div b)
  have le: "ucast (of_nat b :: uint32) \<le> num \<longleftrightarrow> b \<le> unat num" by (simp only: word_le_nat_alt b)
  note unfold = printnum.simps[of putch num "of_nat b" w pad d, unfolded le m w]
  show ?case
  proof (cases "unat num < b")
    case True
    then have d: "digits b (unat num) = [unat num]" and nle: "\<not> b \<le> unat num" by (simp_all add: digits_less)
    have m': "unat num mod b = unat num" using True by simp
    show ?thesis unfolding unfold d m' funpow_replicate by (simp only: nle if_False) simp
  next
    case False
    let ?q = "num div ucast (of_nat b :: uint32)"
    have step: "digits b (unat num) = digits b (unat num div b) @ [unat num mod b]"
      using False assms(1) by (simp add: digits_step)
    have lt: "unat ?q < unat num" unfolding q using False assms(1) by simp
    have pre: "int (length (digits b (unat ?q))) \<le> 2 ^ 31 + sint (w - 1)" using less.prems unfolding step w q by simp
    have "printnum putch ?q (of_nat b) (w - 1) pad d =
        Some (fold putch (replicate (nat (sint w - int (length (digits b (unat num))))) pad @
            map digit_char (digits b (unat num div b))) d)"
      using less.hyps[OF lt pre, of d] unfolding w q step by (simp add: algebra_simps)
    then show ?thesis using False unfolding unfold step by (simp add: not_less)
  qed
qed

section \<open>Formats\<close>

text \<open>
  The items of a format are plain bytes and directives.  A directive has flags and a conversion.  A number or a star among
  the flags is the width, and the precision when there is a width; a point makes the width 0 when there is none.  A conversion that the
  code does not know is printed as it stands, and so is a directive that the end of the format cuts off.
  Each item has the bytes it is written with, its arguments, its text.
\<close>

datatype flag = Zeros | Dash | Point | Sharp | Ell | Number nat | Star uint32

datatype conv =
    Percent
  | Character uint32
  | Text uint32 "uint8 list"
  | Null
  | Signed int
  | Unsigned nat
  | Hexadecimal nat
  | Pointer uint32
  | Octal
  | Error_code uint32
  | Unknown uint8
  | Cut

datatype item = Literal uint8 | Directive "flag list" conv

definition digit_byte :: "nat \<Rightarrow> uint8" where
  "digit_byte k = 48 + of_nat k"

fun flag_bytes :: "flag \<Rightarrow> uint8 list" where
  "flag_bytes Zeros = [chr CHR ''0'']"
| "flag_bytes Dash = [chr CHR ''-'']"
| "flag_bytes Point = [chr CHR ''.'']"
| "flag_bytes Sharp = [chr CHR ''#'']"
| "flag_bytes Ell = [chr CHR ''l'']"
| "flag_bytes (Number n) = map digit_byte (digits 10 n)"
| "flag_bytes (Star v) = [chr CHR ''*'']"

fun flag_args :: "flag \<Rightarrow> uint32 list" where
  "flag_args (Star v) = [v]"
| "flag_args _ = []"

fun apply_flag :: "flag \<Rightarrow> directive \<Rightarrow> directive" where
  "apply_flag Zeros f = f\<lparr>padc := 48\<rparr>"
| "apply_flag Dash f = f\<lparr>padc := 45\<rparr>"
| "apply_flag Point f = (if width f <s 0 then f\<lparr>width := 0\<rparr> else f)"
| "apply_flag Sharp f = f\<lparr>altflag := True\<rparr>"
| "apply_flag Ell f = f\<lparr>lflag := lflag f + 1\<rparr>"
| "apply_flag (Number n) f = (if width f <s 0 then f\<lparr>width := of_nat n, precision := -1\<rparr> else f\<lparr>precision := of_nat n\<rparr>)"
| "apply_flag (Star v) f = (if width f <s 0 then f\<lparr>width := v, precision := -1\<rparr> else f\<lparr>precision := v\<rparr>)"

definition flags :: "flag list \<Rightarrow> directive" where
  "flags fl = fold apply_flag fl no_flags"

definition long :: "flag list \<Rightarrow> bool" where
  "long fl \<longleftrightarrow> 2 \<le> lflag (flags fl)"

fun conv_bytes :: "conv \<Rightarrow> uint8 list" where
  "conv_bytes Percent = [chr CHR ''%'']"
| "conv_bytes (Character v) = [chr CHR ''c'']"
| "conv_bytes (Text a bs) = [chr CHR ''s'']"
| "conv_bytes Null = [chr CHR ''s'']"
| "conv_bytes (Signed v) = [chr CHR ''d'']"
| "conv_bytes (Unsigned n) = [chr CHR ''u'']"
| "conv_bytes (Hexadecimal n) = [chr CHR ''x'']"
| "conv_bytes (Pointer v) = [chr CHR ''p'']"
| "conv_bytes Octal = [chr CHR ''o'']"
| "conv_bytes (Error_code v) = [chr CHR ''e'']"
| "conv_bytes (Unknown c) = [c]"
| "conv_bytes Cut = []"

definition int_args :: "bool \<Rightarrow> int \<Rightarrow> uint32 list" where
  "int_args l v = (if l then [word_of_int v, word_of_int (v div 2 ^ 32)] else [word_of_int v])"

fun conv_args :: "bool \<Rightarrow> conv \<Rightarrow> uint32 list" where
  "conv_args l (Character v) = [v]"
| "conv_args l (Text a bs) = [a]"
| "conv_args l Null = [0]"
| "conv_args l (Signed v) = int_args l v"
| "conv_args l (Unsigned n) = int_args l (int n)"
| "conv_args l (Hexadecimal n) = int_args l (int n)"
| "conv_args l (Pointer v) = [v]"
| "conv_args l (Error_code v) = [v]"
| "conv_args l _ = []"

text \<open>A string is cut to the precision and padded to the width, behind it with spaces after a dash.\<close>

definition shorten :: "uint32 \<Rightarrow> 'a list \<Rightarrow> 'a list" where
  "shorten P bs = (if P <s 0 then bs else take (unat P) bs)"

definition string_text :: "directive \<Rightarrow> uint8 list \<Rightarrow> uint32 list" where
  "string_text f bs =
     (let body = map (shown (altflag f)) (shorten (precision f) bs);
          pad = nat (sint (width f) - int (length body))
      in if padc f = 45 then body @ replicate pad 32 else replicate pad (padc f) @ body)"

definition number_text :: "directive \<Rightarrow> nat \<Rightarrow> nat \<Rightarrow> uint32 list" where
  "number_text f b n = numeral_text b (padc f) (nat (sint (width f))) n"

definition error_text :: "uint32 \<Rightarrow> uint32 list" where
  "error_text v = (case error_string (word_of_int \<bar>sint v\<bar>) of Some s \<Rightarrow> map of_char s
     | None \<Rightarrow> map of_char ''error '' @ numeral_text 10 32 0 (nat \<bar>sint v\<bar>))"

fun conv_text :: "directive \<Rightarrow> conv \<Rightarrow> uint32 list" where
  "conv_text f Percent = [37]"
| "conv_text f (Character v) = [v]"
| "conv_text f (Text a bs) = string_text f bs"
| "conv_text f Null = string_text f (map chr ''(null)'')"
| "conv_text f (Signed v) = (if v < 0 then [45] else []) @ number_text f 10 (nat \<bar>v\<bar>)"
| "conv_text f (Unsigned n) = number_text f 10 n"
| "conv_text f (Hexadecimal n) = number_text f 16 n"
| "conv_text f (Pointer v) = [48, 120] @ number_text f 16 (unat v)"
| "conv_text f Octal = [88, 88, 88]"
| "conv_text f (Error_code v) = error_text v"
| "conv_text f (Unknown c) = [ucast c]"
| "conv_text f Cut = []"

definition literal :: "conv \<Rightarrow> bool" where
  "literal cv \<longleftrightarrow> (case cv of Unknown c \<Rightarrow> True | Cut \<Rightarrow> True | _ \<Rightarrow> False)"

definition flags_bytes :: "flag list \<Rightarrow> uint8 list" where
  "flags_bytes fl = concat (map flag_bytes fl)"

fun format_of :: "item \<Rightarrow> uint8 list" where
  "format_of (Literal c) = [c]"
| "format_of (Directive fl cv) = chr CHR ''%'' # flags_bytes fl @ conv_bytes cv"

fun args_of :: "item \<Rightarrow> uint32 list" where
  "args_of (Literal c) = []"
| "args_of (Directive fl cv) = concat (map flag_args fl) @ conv_args (long fl) cv"

fun text_of :: "item \<Rightarrow> uint32 list" where
  "text_of (Literal c) = [ucast c]"
| "text_of (Directive fl cv) =
    (if literal cv then 37 # map ucast (flags_bytes fl) else []) @ conv_text (flags fl) cv"

text \<open>What is asked of an item: numbers are in the range of their type, and widths are not close to the most negative one.\<close>

definition starts_digit :: "flag \<Rightarrow> bool" where
  "starts_digit fg \<longleftrightarrow> (case fg of Zeros \<Rightarrow> True | Number n \<Rightarrow> True | _ \<Rightarrow> False)"

fun flags_ok :: "flag list \<Rightarrow> bool" where
  "flags_ok [] \<longleftrightarrow> True"
| "flags_ok (Number n # fl) \<longleftrightarrow> 0 < n \<and> (fl = [] \<or> \<not> starts_digit (hd fl)) \<and> flags_ok fl"
| "flags_ok (_ # fl) \<longleftrightarrow> flags_ok fl"

definition in_int :: "flag \<Rightarrow> bool" where
  "in_int fg \<longleftrightarrow> (case fg of Number n \<Rightarrow> n < 2 ^ 31 | _ \<Rightarrow> True)"

definition special :: "uint8 set" where
  "special = {0, 37, 99, 101, 115, 100, 117, 111, 112, 120, 45, 42, 46, 35, 108} \<union> {48..57}"

fun conv_ok :: "bool \<Rightarrow> conv \<Rightarrow> bool" where
  "conv_ok l (Text a bs) \<longleftrightarrow> a \<noteq> 0 \<and> length bs < 2 ^ 30"
| "conv_ok l (Signed v) \<longleftrightarrow> (if l then - (2 ^ 63) \<le> v \<and> v < 2 ^ 63 else - (2 ^ 31) \<le> v \<and> v < 2 ^ 31)"
| "conv_ok l (Unsigned n) \<longleftrightarrow> n < (if l then 2 ^ 64 else 2 ^ 32)"
| "conv_ok l (Hexadecimal n) \<longleftrightarrow> n < (if l then 2 ^ 64 else 2 ^ 32)"
| "conv_ok l (Error_code v) \<longleftrightarrow> v \<noteq> 0x80000000"
| "conv_ok l (Unknown c) \<longleftrightarrow> c \<notin> special"
| "conv_ok l _ \<longleftrightarrow> True"

fun item_ok :: "item \<Rightarrow> bool" where
  "item_ok (Literal c) \<longleftrightarrow> c \<noteq> 0 \<and> c \<noteq> chr CHR ''%''"
| "item_ok (Directive fl cv) \<longleftrightarrow> flags_ok fl \<and> list_all in_int fl \<and> - (2 ^ 30) \<le> sint (width (flags fl)) \<and> conv_ok (long fl) cv"

text \<open>Only the last item can be cut off.\<close>

fun cut_off :: "item \<Rightarrow> bool" where
  "cut_off (Literal c) \<longleftrightarrow> False"
| "cut_off (Directive fl cv) \<longleftrightarrow> cv = Cut"

definition cut_last :: "item list \<Rightarrow> bool" where
  "cut_last items \<longleftrightarrow> list_all (\<lambda>it. \<not> cut_off it) (butlast items)"

definition printed :: "item list \<Rightarrow> uint32 list" where
  "printed items = concat (map text_of items)"

text \<open>The format, the arguments and the strings are in memory, at addresses of \<open>A\<close>.\<close>

definition in_memory :: "uint32 set \<Rightarrow> memory \<Rightarrow> uint32 \<Rightarrow> uint8 list \<Rightarrow> bool" where
  "in_memory A m p bs \<longleftrightarrow> string_at m p bs \<and> (\<forall>i \<le> length bs. p + of_nat i \<in> A)"

fun args_at :: "uint32 set \<Rightarrow> memory \<Rightarrow> uint32 \<Rightarrow> uint32 list \<Rightarrow> bool" where
  "args_at A m p [] \<longleftrightarrow> True"
| "args_at A m p (v # vs) \<longleftrightarrow> load_word m p = v \<and> {p, p + 1, p + 2, p + 3} \<subseteq> A \<and> args_at A m (p + 4) vs"

definition laid_out :: "uint32 set \<Rightarrow> memory \<Rightarrow> uint32 \<Rightarrow> uint32 \<Rightarrow> item list \<Rightarrow> bool" where
  "laid_out A m fmt ap items \<longleftrightarrow> list_all item_ok items \<and> cut_last items \<and>
     in_memory A m fmt (concat (map format_of items)) \<and> args_at A m ap (concat (map args_of items)) \<and>
     (\<forall>fl a bs. Directive fl (Text a bs) \<in> set items \<longrightarrow> in_memory A m a bs)"

lemma cut_last_Cons: "cut_last (it # items) \<longleftrightarrow> items = [] \<or> \<not> cut_off it \<and> cut_last items"
  by (simp add: cut_last_def)

lemma cut_last_tl: "cut_last (it # items) \<Longrightarrow> cut_last items"
  by (cases "items = []") (simp_all add: cut_last_def)

lemma in_memory_Nil [simp]: "in_memory A m p [] \<longleftrightarrow> m p = 0 \<and> p \<in> A"
  by (simp add: in_memory_def)

lemma in_memory_Cons [simp]:
  "in_memory A m p (x # xs) \<longleftrightarrow> x \<noteq> 0 \<and> m p = x \<and> p \<in> A \<and> in_memory A m (p + 1) xs"
proof -
  have "(\<forall>i \<le> Suc n. P i) \<longleftrightarrow> P 0 \<and> (\<forall>i \<le> n. P (Suc i))" for n and P :: "nat \<Rightarrow> bool"
    by (metis Suc_le_mono le0 not0_implies_Suc)
  from this[of "length xs" "\<lambda>i. p + of_nat i \<in> A"]
  have "(\<forall>i \<le> length (x # xs). p + of_nat i \<in> A) \<longleftrightarrow> p \<in> A \<and> (\<forall>i \<le> length xs. p + 1 + of_nat i \<in> A)"
    by (simp add: add.assoc)
  then show ?thesis by (auto simp: in_memory_def)
qed

lemma in_memory_nth: "in_memory A m p bs \<Longrightarrow> i < length bs \<Longrightarrow> m (p + of_nat i) = bs ! i"
proof (induction bs arbitrary: p i)
  case (Cons b bs)
  then show ?case using Cons.IH[of "p + 1" "i - 1"] by (cases i) (simp_all add: add.assoc)
qed simp

lemma in_memory_skip: "in_memory A m p (xs @ ys) \<Longrightarrow> in_memory A m (p + of_nat (length xs)) ys"
proof (induction xs arbitrary: p)
  case (Cons x xs)
  then show ?case using Cons.IH[of "p + 1"] by (simp add: add.assoc)
qed simp

lemma in_memory_agree:
  "in_memory A m p bs \<Longrightarrow> (\<And>a. a \<in> A \<Longrightarrow> m' a = m a) \<Longrightarrow> in_memory A m' p bs"
  by (induction bs arbitrary: p) auto

lemma args_at_agree:
  "args_at A m p vs \<Longrightarrow> (\<And>a. a \<in> A \<Longrightarrow> m' a = m a) \<Longrightarrow> args_at A m' p vs"
  by (induction vs arbitrary: p) (auto simp: load_word_def)

lemma laid_out_agree:
  "laid_out A m fmt ap items \<Longrightarrow> (\<And>a. a \<in> A \<Longrightarrow> m' a = m a) \<Longrightarrow> laid_out A m' fmt ap items"
  unfolding laid_out_def using in_memory_agree args_at_agree by blast

section \<open>Scanning a directive\<close>

lemma chr_eqs [simp]: "chr c = chr d \<longleftrightarrow> c = d"
proof -
  have "of_char c < (256 :: nat)" for c
    using mod_less_divisor[of 256 "of_char c :: nat"] by (simp del: mod_less_divisor)
  then have "unat (chr c) = of_char c" for c by (simp add: chr_def unat_of_nat_small)
  then show ?thesis by (metis of_char_eq_iff)
qed

lemma digit_byte_cases:
  assumes "k < 10"
  shows "digit_byte k \<noteq> 0" "\<not> digit_byte k < 48" "\<not> 57 < digit_byte k" "ucast (digit_byte k) - 48 = (of_nat k :: uint32)"
    "0 < k \<Longrightarrow> chr CHR ''1'' \<le> digit_byte k" "digit_byte k \<le> chr CHR ''9''" "digit_byte k \<noteq> chr CHR ''-''"
    "0 < k \<Longrightarrow> digit_byte k \<noteq> chr CHR ''0''"
proof -
  have "k = 0 \<or> k = 1 \<or> k = 2 \<or> k = 3 \<or> k = 4 \<or> k = 5 \<or> k = 6 \<or> k = 7 \<or> k = 8 \<or> k = 9"
    using assms by presburger
  then show "digit_byte k \<noteq> 0" "\<not> digit_byte k < 48" "\<not> 57 < digit_byte k"
      "ucast (digit_byte k) - 48 = (of_nat k :: uint32)" "0 < k \<Longrightarrow> chr CHR ''1'' \<le> digit_byte k"
      "digit_byte k \<le> chr CHR ''9''" "digit_byte k \<noteq> chr CHR ''-''" "0 < k \<Longrightarrow> digit_byte k \<noteq> chr CHR ''0''"
    by (elim disjE; simp add: digit_byte_def chr_def)+
qed

lemma scan_width_bytes:
  assumes "in_memory A m p (map digit_byte ks @ rest)" and "\<forall>k \<in> set ks. k < 10"
    and "m (p + of_nat (length ks)) < 48 \<or> 57 < m (p + of_nat (length ks))"
  shows "scan_width m ch p v =
    Some (foldl (\<lambda>v k. v * 10 + of_nat k) (v * 10 + ucast ch - 48) ks, p + of_nat (length ks))"
  using assms
proof (induction ks arbitrary: p ch v)
  case Nil
  then show ?case by (subst scan_width.simps) simp
next
  case (Cons k ks)
  have "scan_width m (digit_byte k) (p + 1) (v * 10 + ucast ch - 48) =
      Some (foldl (\<lambda>v k. v * 10 + of_nat k) ((v * 10 + ucast ch - 48) * 10 + ucast (digit_byte k) - 48) ks,
        p + 1 + of_nat (length ks))"
    by (rule Cons.IH) (use Cons.prems in \<open>auto simp: add.assoc\<close>)
  then show ?case using Cons.prems(1,2)
    by (subst scan_width.simps) (simp add: digit_byte_cases Let_def add_diff_eq[symmetric])
qed

lemma foldl_word: "foldl (\<lambda>v k. v * 10 + of_nat k) (of_nat x) ks = (of_nat (foldl (\<lambda>v k. v * 10 + k) x ks) :: uint32)"
proof (induction ks arbitrary: x)
  case (Cons k ks)
  show ?case using Cons.IH[of "x * 10 + k"] by simp
qed simp

lemma chr_values:
  "chr CHR ''%'' = 37" "chr CHR ''-'' = 45" "chr CHR ''0'' = 48" "chr CHR ''1'' = 49" "chr CHR ''9'' = 57" "chr CHR ''*'' = 42"
  "chr CHR ''.'' = 46" "chr CHR ''#'' = 35" "chr CHR ''l'' = 108" "chr CHR ''c'' = 99" "chr CHR ''e'' = 101"
  "chr CHR ''s'' = 115" "chr CHR ''d'' = 100" "chr CHR ''u'' = 117" "chr CHR ''o'' = 111" "chr CHR ''p'' = 112"
  "chr CHR ''x'' = 120"
  by (simp_all add: chr_def)

text \<open>A number among the flags, up to the byte behind its digits.\<close>

lemma scan_number:
  assumes "in_memory A m fmt (flag_bytes (Number n) @ rest)" and "0 < n"
    and "m (fmt + of_nat (length (flag_bytes (Number n)))) < 48 \<or> 57 < m (fmt + of_nat (length (flag_bytes (Number n))))"
  shows "scan_directive m fmt ap f =
    scan_directive m (fmt + of_nat (length (flag_bytes (Number n)))) ap (apply_flag (Number n) f)"
proof -
  obtain k ks where ks: "digits 10 n = k # ks" "0 < k" using digits_hd[of 10 n] assms(2) by auto
  have range: "k < 10" "\<forall>j \<in> set ks. j < 10" using digits_range[of 10 _ n] ks(1) by auto
  have mem: "m fmt = digit_byte k" "in_memory A m (fmt + 1) (map digit_byte ks @ rest)"
    using assms(1) ks by simp_all
  have len: "fmt + of_nat (length (flag_bytes (Number n))) = fmt + 1 + of_nat (length ks)" by (simp add: ks)
  let ?p = "foldl (\<lambda>v k. v * 10 + of_nat k) (0 * 10 + ucast (digit_byte k) - 48) ks :: uint32"
  note scan = scan_width_bytes[OF mem(2) range(2) assms(3)[unfolded len], of "digit_byte k" 0]
  have "?p = of_nat (foldl (\<lambda>v k. v * 10 + k) k ks)"
    using digit_byte_cases(4)[OF range(1)] foldl_word[of k ks] by simp
  also have "foldl (\<lambda>v k. v * 10 + k) k ks = n" using digits_value[of 10 n] ks by simp
  finally have p: "?p = of_nat n" .
  have first: "\<not> (m fmt = chr CHR ''-'' \<or> m fmt = chr CHR ''0'')" "chr CHR ''1'' \<le> m fmt \<and> m fmt \<le> chr CHR ''9''"
    using digit_byte_cases[OF range(1)] ks(2) mem(1) by auto
  have "scan_directive m fmt ap f =
      Option.bind (scan_width m (m fmt) (fmt + 1) 0) (\<lambda>(p, fmt). scan_directive m fmt ap (process_precision p f))"
    by (subst scan_directive.simps) (simp only: Let_def first if_False if_True simp_thms)
  then show ?thesis unfolding len mem(1) scan p by (simp add: process_precision_def)
qed

lemma scan_flag:
  assumes "in_memory A m fmt (flag_bytes fg @ rest)" and "args_at A m ap (flag_args fg @ vs)" and "\<nexists>n. fg = Number n"
  shows "scan_directive m fmt ap f =
    scan_directive m (fmt + of_nat (length (flag_bytes fg))) (ap + 4 * of_nat (length (flag_args fg))) (apply_flag fg f)"
  using assms by (subst scan_directive.simps) (cases fg; simp add: chr_values process_precision_def)

lemma flag_byte_no_digit: "\<not> starts_digit fg \<Longrightarrow> \<exists>c cs. flag_bytes fg = c # cs \<and> (c < 48 \<or> 57 < c)"
  by (cases fg) (simp_all add: starts_digit_def chr_values)

lemma args_at_skip: "args_at A m ap (xs @ ys) \<Longrightarrow> args_at A m (ap + 4 * of_nat (length xs)) ys"
proof (induction xs arbitrary: ap)
  case (Cons x xs)
  then show ?case using Cons.IH[of "ap + 4"] by (simp add: algebra_simps)
qed simp

text \<open>All flags, up to the byte behind them.\<close>

lemma scan_flags:
  assumes "flags_ok fl" and "in_memory A m fmt (flags_bytes fl @ rest)" and "args_at A m ap (concat (map flag_args fl) @ vs)"
    and "m (fmt + of_nat (length (flags_bytes fl))) < 48 \<or> 57 < m (fmt + of_nat (length (flags_bytes fl)))"
  shows "scan_directive m fmt ap f =
    scan_directive m (fmt + of_nat (length (flags_bytes fl))) (ap + 4 * of_nat (length (concat (map flag_args fl))))
      (fold apply_flag fl f)"
  using assms
proof (induction fl arbitrary: fmt ap f)
  case Nil
  then show ?case by (simp add: flags_bytes_def)
next
  case (Cons fg fl)
  let ?fmt = "fmt + of_nat (length (flag_bytes fg))" and ?ap = "ap + 4 * of_nat (length (flag_args fg))"
  have mem: "in_memory A m fmt (flag_bytes fg @ flags_bytes fl @ rest)" using Cons.prems(2) by (simp add: flags_bytes_def)
  have args: "args_at A m ap (flag_args fg @ concat (map flag_args fl) @ vs)" using Cons.prems(3) by simp
  have ok: "flags_ok fl" using Cons.prems(1) by (cases fg) simp_all
  have next_byte: "m (?fmt + of_nat (length (flags_bytes fl))) < 48 \<or> 57 < m (?fmt + of_nat (length (flags_bytes fl)))"
    using Cons.prems(4) by (simp add: flags_bytes_def add.assoc)
  have "scan_directive m fmt ap f = scan_directive m ?fmt ?ap (apply_flag fg f)"
  proof (cases "\<exists>n. fg = Number n")
    case True
    then obtain n where fg: "fg = Number n" by blast
    have "m ?fmt < 48 \<or> 57 < m ?fmt"
    proof (cases fl)
      case Nil
      then show ?thesis using next_byte by (simp add: flags_bytes_def)
    next
      case (Cons g gs)
      then have "\<not> starts_digit g" using Cons.prems(1) fg by simp
      from flag_byte_no_digit[OF this] obtain c cs where c: "flag_bytes g = c # cs" "c < 48 \<or> 57 < c" by blast
      from in_memory_skip[OF mem] c Cons show ?thesis by (simp add: flags_bytes_def)
    qed
    from scan_number[OF mem[unfolded fg] _ this[unfolded fg]] Cons.prems(1) fg show ?thesis by simp
  next
    case False
    then show ?thesis using scan_flag[OF mem args] by blast
  qed
  also have "\<dots> = scan_directive m (?fmt + of_nat (length (flags_bytes fl)))
      (?ap + 4 * of_nat (length (concat (map flag_args fl)))) (fold apply_flag fl (apply_flag fg f))"
    by (rule Cons.IH[OF ok in_memory_skip[OF mem] args_at_skip[OF args] next_byte])
  finally show ?case by (simp add: flags_bytes_def algebra_simps)
qed

text \<open>Any other byte is the conversion.\<close>

lemma scan_conversion:
  assumes "m fmt \<notin> special - {0, 37, 99, 101, 115, 100, 117, 111, 112, 120}"
  shows "scan_directive m fmt ap f = Some (m fmt, f, fmt + 1, ap)"
proof -
  have "\<not> (48 \<le> m fmt \<and> m fmt \<le> 57)" "m fmt \<noteq> 45" "m fmt \<noteq> 42" "m fmt \<noteq> 46" "m fmt \<noteq> 35" "m fmt \<noteq> 108"
    using assms by (auto simp: special_def)
  moreover have "(48 :: uint8) \<le> 49" "(48 :: uint8) \<le> 48" "(48 :: uint8) \<le> 57" by simp_all
  ultimately have "\<not> (49 \<le> m fmt \<and> m fmt \<le> 57)" "m fmt \<notin> {45, 48, 42, 46, 35, 108}" using order_trans by (blast, auto)
  then show ?thesis by (subst scan_directive.simps) (unfold Let_def chr_values, auto)
qed

lemma conversion_no_digit:
  assumes "c \<notin> special - {0, 37, 99, 101, 115, 100, 117, 111, 112, 120}"
  shows "c < 48 \<or> 57 < c"
proof (rule ccontr)
  assume "\<not> (c < 48 \<or> 57 < c)"
  then have c: "48 \<le> c" "c \<le> 57" by (simp_all only: not_less de_Morgan_disj)
  then have "c \<noteq> 0" "c \<noteq> 37" by auto
  with c have "c \<in> special - {0, 37, 99, 101, 115, 100, 117, 111, 112, 120}" by (auto simp: special_def)
  with assms show False by simp
qed

lemma rewind_to:
  assumes "m p = 37" and "in_memory A m (p + 1) bs" and "37 \<notin> set (take k bs)" and "k \<le> length bs"
  shows "rewind m (p + 1 + of_nat k) = Some (p + 1)"
  using assms(3,4)
proof (induction k)
  case 0
  then show ?case using assms(1) by (subst rewind.simps) (simp add: chr_values)
next
  case (Suc k)
  then have "m (p + 1 + of_nat k) = bs ! k" using in_memory_nth[OF assms(2)] by simp
  moreover have "bs ! k \<noteq> 37" using Suc.prems by (auto simp: take_Suc_conv_app_nth)
  moreover have "rewind m (p + 1 + of_nat k) = Some (p + 1)"
    using Suc by (simp add: take_Suc_conv_app_nth)
  ultimately show ?case by (subst rewind.simps) (simp add: chr_values algebra_simps)
qed

lemma flags_bytes_plain: "c \<in> set (flags_bytes fl) \<Longrightarrow> c \<noteq> 37"
proof -
  have digit: "digit_byte k \<noteq> 37" if "k < 10" for k using digit_byte_cases(2)[OF that] by auto
  have "c \<in> set (flag_bytes fg) \<Longrightarrow> c \<noteq> 37" for fg
    using digit digits_range[of 10] by (cases fg) (auto simp: chr_values)
  then show "c \<in> set (flags_bytes fl) \<Longrightarrow> c \<noteq> 37" unfolding flags_bytes_def by auto
qed

section \<open>Every format has items\<close>

text \<open>What an item must satisfy for its bytes to be read as this item, whatever its arguments.\<close>

fun written :: "item \<Rightarrow> bool" where
  "written (Literal c) \<longleftrightarrow> c \<noteq> 0 \<and> c \<noteq> 37"
| "written (Directive fl cv) \<longleftrightarrow> flags_ok fl \<and> (case cv of Unknown c \<Rightarrow> c \<notin> special | _ \<Rightarrow> True)"

lemma item_written: "item_ok it \<Longrightarrow> written it"
proof (cases it)
  case (Directive fl cv)
  then show "item_ok it \<Longrightarrow> written it" by (cases cv) simp_all
qed (simp add: chr_values)

lemma digits_foldl:
  assumes "\<forall>k \<in> set ks. k < 10" and "0 < k" and "k < 10"
  shows "digits 10 (foldl (\<lambda>v k. v * 10 + k) k ks) = k # ks \<and> 0 < foldl (\<lambda>v k. v * 10 + k) k ks"
  using assms
proof (induction ks rule: rev_induct)
  case Nil
  then show ?case by (simp add: digits_less)
next
  case (snoc j ks)
  let ?v = "foldl (\<lambda>v k. v * 10 + k) k ks"
  have IH: "digits 10 ?v = k # ks" "0 < ?v" and j: "j < 10" using snoc by simp_all
  have "digits 10 (?v * 10 + j) = digits 10 ((?v * 10 + j) div 10) @ [(?v * 10 + j) mod 10]"
    by (rule digits_step) (use IH(2) in simp_all)
  with IH j show ?case by simp
qed

lemma digit_byte_of:
  fixes c :: uint8
  assumes "48 \<le> c" and "c \<le> 57"
  shows "c = digit_byte (unat c - 48)" "unat c - 48 < 10" "48 < c \<Longrightarrow> 0 < unat c - 48"
proof -
  have u: "48 \<le> unat c" "unat c \<le> 57" using assms by (simp_all add: word_le_nat_alt)
  have "digit_byte (unat c - 48) = 48 + (of_nat (unat c) - of_nat 48)"
    unfolding digit_byte_def using u(1) by (simp only: of_nat_diff)
  then show "c = digit_byte (unat c - 48)" by simp
  show "unat c - 48 < 10" using u by simp
  show "48 < c \<Longrightarrow> 0 < unat c - 48" by (simp add: word_less_nat_alt)
qed

lemma digit_first: "starts_digit fg \<Longrightarrow> flags_ok (fg # fl) \<Longrightarrow> \<exists>c cs. flag_bytes fg = c # cs \<and> 48 \<le> c \<and> c \<le> 57"
proof (cases fg)
  case (Number n)
  assume "flags_ok (fg # fl)"
  then obtain k ks where ks: "digits 10 n = k # ks" using digits_hd[of 10 n] Number by auto
  then have "k < 10" using digits_range[of 10 k n] by simp
  from digit_byte_cases(2,3)[OF this] ks Number show ?thesis by (simp add: not_less)
qed (simp_all add: starts_digit_def chr_values)

lemma conv_of_byte:
  assumes "e \<notin> special - {0, 37, 99, 101, 115, 100, 117, 111, 112, 120}" and "e \<noteq> 0"
  obtains cv where "conv_bytes cv = [e]" "case cv of Unknown c \<Rightarrow> c \<notin> special | _ \<Rightarrow> True" "cv \<noteq> Cut"
proof (cases "e \<in> special")
  case False
  then show ?thesis by (intro that[of "Unknown e"]) simp_all
next
  case True
  with assms have "e \<in> {37, 99, 101, 115, 100, 117, 111, 112, 120}" by blast
  then show ?thesis
    using that[of Percent] that[of "Character 0"] that[of "Error_code 0"] that[of Null] that[of "Signed 0"] that[of "Unsigned 0"]
      that[of Octal] that[of "Pointer 0"] that[of "Hexadecimal 0"] by (auto simp: chr_values)
qed

lemma digits_prefix: "\<exists>ks rest. bs = map digit_byte ks @ rest \<and> (\<forall>k \<in> set ks. k < 10) \<and>
  (rest = [] \<or> hd rest < 48 \<or> 57 < hd rest) \<and> length rest \<le> length bs"
proof (induction bs)
  case (Cons c bs)
  show ?case
  proof (cases "48 \<le> c \<and> c \<le> 57")
    case True
    from Cons obtain ks rest where k: "bs = map digit_byte ks @ rest" "\<forall>k \<in> set ks. k < 10"
      "rest = [] \<or> hd rest < 48 \<or> 57 < hd rest" by blast
    then show ?thesis using True digit_byte_of[of c] by (intro exI[of _ "(unat c - 48) # ks"] exI[of _ rest]) simp
  next
    case False
    then show ?thesis by (intro exI[of _ "[]"] exI[of _ "c # bs"]) (simp add: not_le)
  qed
qed simp

lemma flags_prefix: "\<exists>fl rest. bs = flags_bytes fl @ rest \<and> flags_ok fl \<and>
  (rest = [] \<or> hd rest \<notin> special - {0, 37, 99, 101, 115, 100, 117, 111, 112, 120})"
proof (induction bs rule: length_induct)
  case (1 bs)
  show ?case
  proof (cases "bs = [] \<or> hd bs \<notin> special - {0, 37, 99, 101, 115, 100, 117, 111, 112, 120}")
    case True
    then show ?thesis by (intro exI[of _ "[]"] exI[of _ bs]) (simp add: flags_bytes_def)
  next
    case False
    then obtain c cs where bs: "bs = c # cs" and "c \<in> special" by (cases bs) auto
    with False have c: "c \<in> {45, 42, 46, 35, 108} \<or> 48 \<le> c \<and> c \<le> 57" by (auto simp: special_def)
    show ?thesis
    proof (cases "48 < c \<and> c \<le> 57")
      case True
      obtain ks rest where k: "cs = map digit_byte ks @ rest" "\<forall>k \<in> set ks. k < 10"
        "rest = [] \<or> hd rest < 48 \<or> 57 < hd rest" "length rest \<le> length cs" using digits_prefix[of cs] by blast
      define n where "n = foldl (\<lambda>v k. v * 10 + k) (unat c - 48) ks"
      have first: "c = digit_byte (unat c - 48)" "unat c - 48 < 10" "0 < unat c - 48" using True digit_byte_of[of c] by auto
      have n: "flag_bytes (Number n) = c # map digit_byte ks" "0 < n"
        using digits_foldl[OF k(2) first(3,2)] first(1) by (simp_all add: n_def)
      from 1 k(4) bs obtain fl rest' where f: "rest = flags_bytes fl @ rest'" "flags_ok fl"
        "rest' = [] \<or> hd rest' \<notin> special - {0, 37, 99, 101, 115, 100, 117, 111, 112, 120}" by (metis le_imp_less_Suc length_Cons)
      have "fl = [] \<or> \<not> starts_digit (hd fl)"
      proof (cases fl)
        case (Cons fg gs)
        show ?thesis
        proof (rule ccontr)
          assume "\<not> ?thesis"
          with digit_first[of fg gs] f(2) Cons obtain b cs' where "flag_bytes fg = b # cs'" "48 \<le> b" "b \<le> 57" by auto
          with k(3) f(1) Cons show False by (auto simp: flags_bytes_def)
        qed
      qed simp
      then show ?thesis using f n bs k(1) by (intro exI[of _ "Number n # fl"] exI[of _ rest']) (simp add: flags_bytes_def)
    next
      case False
      with c have c': "c \<in> {45, 42, 46, 35, 108, 48}" by auto
      from 1 bs obtain fl rest where f: "cs = flags_bytes fl @ rest" "flags_ok fl"
        "rest = [] \<or> hd rest \<notin> special - {0, 37, 99, 101, 115, 100, 117, 111, 112, 120}" by (metis lessI length_Cons)
      from c' obtain fg where fg: "flag_bytes fg = [c]" "\<And>fl. flags_ok (fg # fl) = flags_ok fl"
        using that[of Dash] that[of "Star 0"] that[of Point] that[of Sharp] that[of Ell] that[of Zeros] by (auto simp: chr_values)
      then show ?thesis using f bs by (intro exI[of _ "fg # fl"] exI[of _ rest]) (simp add: flags_bytes_def)
    qed
  qed
qed

text \<open>Every sequence of bytes up to a null byte is the text of some items.\<close>

theorem every_format:
  "0 \<notin> set bs \<Longrightarrow> \<exists>items. concat (map format_of items) = bs \<and> list_all written items \<and> cut_last items"
proof (induction bs rule: length_induct)
  case (1 bs)
  show ?case
  proof (cases bs)
    case Nil
    then show ?thesis by (intro exI[of _ "[]"]) (simp add: cut_last_def)
  next
    case (Cons c cs)
    show ?thesis
    proof (cases "c = 37")
      case False
      from 1 Cons obtain items where "concat (map format_of items) = cs" "list_all written items" "cut_last items" by auto
      then show ?thesis using Cons 1(2) False by (intro exI[of _ "Literal c # items"]) (simp add: cut_last_Cons)
    next
      case True
      obtain fl rest where f: "cs = flags_bytes fl @ rest" "flags_ok fl"
        "rest = [] \<or> hd rest \<notin> special - {0, 37, 99, 101, 115, 100, 117, 111, 112, 120}" using flags_prefix[of cs] by blast
      show ?thesis
      proof (cases rest)
        case Nil
        then show ?thesis using Cons True f
          by (intro exI[of _ "[Directive fl Cut]"]) (simp add: cut_last_def chr_values)
      next
        case (Cons e es)
        have "0 \<notin> set es" "length es < length bs" using 1(2) \<open>bs = c # cs\<close> f(1) Cons by auto
        with 1(1) obtain items where i: "concat (map format_of items) = es" "list_all written items" "cut_last items" by auto
        have "e \<noteq> 0" using 1(2) \<open>bs = c # cs\<close> f(1) Cons by auto
        moreover have "e \<notin> special - {0, 37, 99, 101, 115, 100, 117, 111, 112, 120}" using f(3) Cons by simp
        ultimately obtain cv where cv: "conv_bytes cv = [e]" "case cv of Unknown c \<Rightarrow> c \<notin> special | _ \<Rightarrow> True" "cv \<noteq> Cut"
          using conv_of_byte by blast
        then show ?thesis using \<open>bs = c # cs\<close> True f(1,2) Cons i
          by (intro exI[of _ "Directive fl cv # items"]) (simp add: cut_last_Cons chr_values)
      qed
    qed
  qed
qed

section \<open>Conversions\<close>

lemma sint_of_nat_small: "n < 2 ^ 31 \<Longrightarrow> sint (of_nat n :: uint32) = int n"
  by (simp add: signed_of_nat signed_take_bit_int_eq_self)

lemma sint_of_int_small: "- (2 ^ 31) \<le> k \<Longrightarrow> k < 2 ^ 31 \<Longrightarrow> sint (word_of_int k :: uint32) = k"
  by (subst signed_of_int) (simp add: signed_take_bit_int_eq_self)

lemma uint_of_int_small: "0 \<le> k \<Longrightarrow> k < 2 ^ 64 \<Longrightarrow> uint (word_of_int k :: uint64) = k"
  by (subst unsigned_of_int) (simp add: take_bit_int_eq_self)

lemma print_number:
  assumes "b = 10 \<or> b = 16" and "- (2 ^ 30) \<le> sint (width f)"
  shows "printnum putch num (of_nat b) (width f) (padc f) d = Some (fold putch (number_text f b (unat num)) d)"
proof -
  let ?l = "length (digits b (unat num))"
  have "unat num < 2 ^ 64" using unsigned_less[of num, where ?'a = nat] by simp
  also have "(2 :: nat) ^ 64 \<le> b ^ 64" by (rule power_mono) (use assms(1) in auto)
  finally have "?l \<le> 64" using digits_length[of b "unat num" 63] assms(1) by auto
  then have bound: "int ?l \<le> 2 ^ 31 + sint (width f)" using assms(2) by simp
  have "nat (sint (width f) - int ?l) = nat (sint (width f)) - ?l" by auto
  then show ?thesis using printnum_digits[OF _ _ bound, of putch "padc f" d] assms(1)
    by (auto simp: number_text_def numeral_text_def Let_def)
qed

text \<open>The number that the one or two words of an argument stand for.\<close>

lemma load_long_word:
  assumes "load_word m a = word_of_int v" and "load_word m (a + 4) = word_of_int (v div 2 ^ 32)"
  shows "load_long m a = word_of_int v"
proof (rule bit_word_eqI)
  fix n assume n: "n < LENGTH(64)"
  have high: "bit (v div 4294967296) (n - 32) \<longleftrightarrow> bit v n" if "32 \<le> n"
    using that bit_drop_bit_eq[of 32 v] by (simp add: drop_bit_eq_div)
  show "bit (load_long m a) n = bit (word_of_int v :: uint64) n"
    unfolding load_long_def assms using n
    by (auto simp: bit_simps high)
qed

lemma getint_argument:
  assumes "args_at A m ap (int_args (2 \<le> l) v @ vs)" and "conv_ok (2 \<le> l) (Signed v)"
  shows "getint m ap l = (word_of_int v, ap + 4 * of_nat (length (int_args (2 \<le> l) v)))"
proof (cases "2 \<le> l")
  case True
  then show ?thesis using assms(1) load_long_word[of m ap v] by (simp add: getint_def int_args_def)
next
  case False
  then have "scast (word_of_int v :: uint32) = (word_of_int v :: uint64)"
    using assms(2) by (simp add: scast_eq sint_of_int_small)
  with False show ?thesis using assms(1) by (simp add: getint_def int_args_def)
qed

lemma getuint_argument:
  assumes "args_at A m ap (int_args (2 \<le> l) (int n) @ vs)" and "conv_ok (2 \<le> l) (Unsigned n)"
  shows "getuint m ap l = (of_nat n, ap + 4 * of_nat (length (int_args (2 \<le> l) (int n))))"
proof (cases "2 \<le> l")
  case True
  then show ?thesis using assms(1) load_long_word[of m ap "int n"] by (simp add: getuint_def int_args_def)
next
  case False
  then have "unat (ucast (of_nat n :: uint32) :: uint64) = unat (of_nat n :: uint64)"
    using assms(2) by (simp add: unsigned_ucast_eq unat_of_nat_small take_bit_nat_eq_self)
  then have "ucast (of_nat n :: uint32) = (of_nat n :: uint64)" by (rule unsigned_word_eqI)
  with False show ?thesis using assms(1) by (simp add: getuint_def int_args_def)
qed

lemma signed_value:
  fixes v :: int
  assumes "- (2 ^ 63) \<le> v" and "v < 2 ^ 63"
  defines "num \<equiv> word_of_int v :: uint64"
  shows "num <s 0 \<longleftrightarrow> v < 0" and "v < 0 \<Longrightarrow> unat (- num) = nat \<bar>v\<bar>" and "\<not> v < 0 \<Longrightarrow> unat num = nat \<bar>v\<bar>"
proof -
  have s: "sint num = v" unfolding num_def
    by (subst signed_of_int) (use assms(1,2) in \<open>simp add: signed_take_bit_int_eq_self\<close>)
  show "num <s 0 \<longleftrightarrow> v < 0" by (simp add: word_sless_alt s)
  show "unat (- num) = nat \<bar>v\<bar>" if "v < 0"
  proof -
    have "- num = word_of_int (- v)" unfolding num_def by simp
    also have "uint \<dots> = - v" by (rule uint_of_int_small) (use assms(1) that in simp_all)
    finally show ?thesis using that by (simp only: unat_eq_nat_uint abs_of_neg)
  qed
  show "unat num = nat \<bar>v\<bar>" if "\<not> v < 0"
  proof -
    have "uint num = v" unfolding num_def by (rule uint_of_int_small) (use assms(2) that in simp_all)
    then show ?thesis using that by (simp only: unat_eq_nat_uint abs_of_nonneg not_less)
  qed
qed

lemma put_error:
  assumes "v \<noteq> 0x80000000"
  shows "put_e putch v d = Some (fold putch (error_text v) d)"
proof -
  let ?e = "if v <s 0 then - v else v"
  have lo: "sint v \<noteq> - (2 ^ 31)"
  proof
    assume "sint v = - (2 ^ 31)"
    then have "sint v = sint (0x80000000 :: uint32)" by simp
    with assms show False using signed_word_eqI by blast
  qed
  have r: "- (2 ^ 31) \<le> sint v" "sint v < 2 ^ 31" using sint_ge[of v] sint_lt[of v] by simp_all
  have e: "?e = word_of_int \<bar>sint v\<bar>" by (simp add: word_sless_alt)
  have u: "uint ?e = \<bar>sint v\<bar>" unfolding e by (subst unsigned_of_int) (use r in \<open>simp add: take_bit_int_eq_self\<close>)
  have s: "sint ?e = \<bar>sint v\<bar>" unfolding e by (rule sint_of_int_small) (use r lo in simp_all)
  have ne: "?e \<noteq> 0x80000000"
  proof
    assume "?e = 0x80000000"
    then have "sint ?e = sint (0x80000000 :: uint32)" by (rule arg_cong)
    with s show False by simp
  qed
  have n: "unat (ucast ?e :: uint64) = nat \<bar>sint v\<bar>"
    using u unsigned_less[of ?e, where ?'a = int] by (simp add: unat_eq_nat_uint unsigned_ucast_eq take_bit_int_eq_self)
  have big: "error_string ?e = None" if "MAXERROR <s ?e"
    using that by (auto simp: error_string_def MAXERROR_def word_sless_alt)
  have print: "printnum putch (ucast ?e) 10 (-1) 32 d' = Some (fold putch (numeral_text 10 32 0 (nat \<bar>sint v\<bar>)) d')" for d'
    using print_number[of 10 no_flags putch "ucast ?e" d'] n by (simp add: no_flags_def number_text_def)
  show ?thesis
    using ne print big unfolding put_e_def Let_def error_text_def e[symmetric]
    by (auto split: option.splits)
qed

text \<open>Counting the precision down.\<close>

lemma shorten_step:
  fixes P :: uint32
  assumes "P <s 0 \<or> 0 \<le>s P - 1"
  shows "shorten P (x # bs) = x # shorten (if P <s 0 then P else P - 1) bs"
proof (cases "P <s 0")
  case False
  with assms have "0 \<le>s P - 1" by simp
  moreover from this have "P \<noteq> 0" by auto
  then have "unat P = Suc (unat (P - 1))" by (simp add: unat_minus_one unat_gt_0)
  ultimately show ?thesis using False by (simp add: shorten_def word_sless_alt word_sle_eq)
qed (simp add: shorten_def)

lemma precision_end:
  fixes P :: uint32
  assumes "\<not> P <s 0" and "\<not> 0 \<le>s P - 1"
  shows "P = 0"
proof (rule ccontr)
  assume "P \<noteq> 0"
  then have "sint P \<noteq> 0" by (metis signed_eq_0_iff)
  with assms(1) have "0 < sint P" by (simp add: word_sless_alt)
  then have "sint (P - 1) = sint P - 1" using sint_minus_one[of P] by simp
  with assms(2) \<open>0 < sint P\<close> show False by (simp add: word_sle_eq)
qed

lemma precision_small:
  fixes P :: uint32
  assumes "P <s 0"
  shows "2 ^ 31 \<le> unat P"
proof -
  have neg: "sint P < 0" using assms by (simp add: word_sless_alt)
  show ?thesis
  proof (rule ccontr)
    assume "\<not> 2 ^ 31 \<le> unat P"
    then have "sint (of_nat (unat P) :: uint32) = int (unat P)" by (intro sint_of_nat_small) simp
    with neg show False by simp
  qed
qed

lemma strnlen_go_min: "in_memory A m p bs \<Longrightarrow> strnlen_go m p k n = n + of_nat (min (length bs) k)"
proof (induction bs arbitrary: p k n)
  case Nil
  then show ?case by (cases k) simp_all
next
  case (Cons b bs)
  then show ?case by (cases k) simp_all
qed

lemma strnlen_cut:
  assumes "in_memory A m p bs" and "length bs < 2 ^ 30"
  shows "strnlen m p P = of_nat (length (shorten P bs))"
  using strnlen_go_min[OF assms(1)] precision_small[of P] assms(2) by (auto simp: strnlen_def shorten_def min_def)

section \<open>The interface of a callback\<close>

locale char_output =
  fixes rd :: "'d \<Rightarrow> memory" and putch :: "uint32 \<Rightarrow> 'd \<Rightarrow> 'd" and A :: "uint32 set" and I :: "'d \<Rightarrow> bool"
  assumes keeps: "I d \<Longrightarrow> I (putch c d)"
    and reads: "I d \<Longrightarrow> a \<in> A \<Longrightarrow> rd (putch c d) a = rd d a"
begin

lemma keeps_all: "I d \<Longrightarrow> I (fold putch cs d)"
  by (induction cs arbitrary: d) (simp_all add: keeps)

lemma reads_all: "I d \<Longrightarrow> a \<in> A \<Longrightarrow> rd (fold putch cs d) a = rd d a"
  by (induction cs arbitrary: d) (simp_all add: keeps reads)

text \<open>The loop over a string: what is printed, and what is left of the width.\<close>

lemma put_string_text:
  "I d \<Longrightarrow> in_memory A (rd d) p bs \<Longrightarrow> put_string rd putch alt p P w d =
    Some (w - of_nat (length (shorten P bs)), fold putch (map (shown alt) (shorten P bs)) d)"
proof (induction bs arbitrary: p P w d)
  case Nil
  then show ?case by (subst put_string.simps) (simp add: shorten_def)
next
  case (Cons b bs)
  have mem: "in_memory A (rd (putch (shown alt b) d)) (p + 1) bs"
    by (rule in_memory_agree[of _ "rd d"]) (use Cons.prems reads in auto)
  note IH = Cons.IH[OF keeps[OF Cons.prems(1)] mem]
  show ?case
  proof (cases "P <s 0 \<or> 0 \<le>s P - 1")
    case True
    then have "shorten P (b # bs) = b # shorten (if P <s 0 then P else P - 1) bs"
      by (simp add: shorten_step)
    with True IH show ?thesis using Cons.prems by (subst put_string.simps) simp
  next
    case False
    then have "P = 0" by (simp add: precision_end)
    then have "shorten P (b # bs) = []" by (simp add: shorten_def)
    with False show ?thesis by (subst put_string.simps) simp
  qed
qed

lemma put_constant_text:
  "put_constant putch alt cs P w d = (let body = shorten P (map chr cs) in
    (w - of_nat (length body), fold putch (map (shown alt) body) d))"
proof (induction cs arbitrary: P w d)
  case (Cons c cs)
  show ?case
  proof (cases "P <s 0 \<or> 0 \<le>s P - 1")
    case True
    then show ?thesis using Cons.IH by (simp add: Let_def shorten_step)
  next
    case False
    then have "P = 0" by (simp add: precision_end)
    with False show ?thesis by (simp add: shorten_def)
  qed
qed (simp add: shorten_def)

lemma put_text:
  assumes "I d" and "if p = 0 then bs = map chr ''(null)'' else in_memory A (rd d) p bs" and "length bs < 2 ^ 30"
    and "- (2 ^ 30) \<le> sint (width f)"
  shows "put_s rd putch f p d = Some (fold putch (string_text f bs) d)"
proof -
  let ?body = "shorten (precision f) bs" and ?W = "sint (width f)"
  define l where "l = length ?body"
  define pads where "pads \<longleftrightarrow> 0 <s width f \<and> padc f \<noteq> ucast (chr CHR ''-'')"
  define d1 where "d1 = (if pads then fold putch (replicate (nat (?W - int l)) (padc f)) d else d)"
  define w where "w = (if pads then (if width f - of_nat l <s 0 then width f - of_nat l else 0) else width f)"
  have l: "l < 2 ^ 30" using assms(3) by (auto simp: l_def shorten_def)
  have W: "?W < 2 ^ 31" using sint_lt[of "width f"] by simp
  have minus: "sint (x - of_nat l) = sint x - int l" if "- (2 ^ 30) \<le> sint x" "sint x < 2 ^ 31" for x :: uint32
  proof -
    have "x - of_nat l = word_of_int (sint x - int l)" by simp
    then have "sint (x - of_nat l) = sint (word_of_int (sint x - int l) :: uint32)" by (rule arg_cong)
    also have "\<dots> = sint x - int l" by (rule sint_of_int_small) (use that l in simp_all)
    finally show ?thesis .
  qed
  have Wl: "sint (width f - of_nat l) = ?W - int l" by (rule minus) (use assms(4) W in simp_all)
  have len: "(if p = 0 then of_nat (min 6 (unat (precision f))) else strnlen (rd d) p (precision f)) = of_nat l"
    using assms(2,3) strnlen_cut[of A "rd d" p bs "precision f"] by (auto simp: l_def shorten_def min_def dest: precision_small)
  have loop: "(if p = 0 then Some (put_constant putch (altflag f) ''(null)'' (precision f) w d1)
      else put_string rd putch (altflag f) p (precision f) w d1) =
    Some (w - of_nat l, fold putch (map (shown (altflag f)) ?body) d1)"
  proof (cases "p = 0")
    case True
    then have "map chr ''(null)'' = bs" using assms(2) by presburger
    then show ?thesis using True unfolding put_constant_text by (simp only: l_def Let_def if_True simp_thms)
  next
    case False
    have d1: "I d1" "a \<in> A \<Longrightarrow> rd d1 a = rd d a" for a
      unfolding d1_def using assms(1) keeps_all[OF assms(1)] reads_all[OF assms(1)] by (simp_all only: refl split: if_split) blast+
    then have "in_memory A (rd d1) p bs" using in_memory_agree[of A "rd d" p bs "rd d1"] assms(2) d1(2) False by simp
    then show ?thesis using False d1(1) by (simp add: put_string_text l_def)
  qed
  have w: "nat (sint (w - of_nat l)) = (if padc f = 45 then nat (?W - int l) else 0)"
  proof (cases pads)
    case True
    then have "sint (w - of_nat l) = (if ?W - int l < 0 then ?W - int l else 0) - int l"
      using minus[of "width f - of_nat l"] minus[of 0] l W Wl by (simp add: w_def pads_def word_sless_alt)
    with True show ?thesis by (simp add: pads_def chr_values)
  next
    case False
    then show ?thesis using Wl by (auto simp: w_def pads_def chr_values word_sless_alt)
  qed
  have string: "string_text f bs = (if padc f = 45 then map (shown (altflag f)) ?body @ replicate (nat (?W - int l)) 32
      else replicate (nat (?W - int l)) (padc f) @ map (shown (altflag f)) ?body)"
    by (simp only: string_text_def Let_def l_def length_map)
  have d1: "(if pads then put_times putch (width f - of_nat l) (padc f) d else d) = d1"
    by (simp only: d1_def put_times_def funpow_replicate Wl)
  have "put_s rd putch f p d = Some (put_times putch (w - of_nat l) (of_char CHR '' '') (fold putch (map (shown (altflag f)) ?body) d1))"
    unfolding put_s_def len Let_def pads_def[symmetric] d1 w_def[symmetric] loop by (simp only: Option.bind.simps prod.case)
  also have "put_times putch (w - of_nat l) (of_char CHR '' '') (fold putch (map (shown (altflag f)) ?body) d1) =
      fold putch (map (shown (altflag f)) ?body @ replicate (if padc f = 45 then nat (?W - int l) else 0) (of_char CHR '' '')) d1"
    by (simp only: put_times_def funpow_replicate w fold_append comp_apply)
  also have "\<dots> = fold putch (string_text f bs) d"
  proof (cases "padc f = 45 \<or> nat (?W - int l) = 0")
    case True
    then have "d1 = d" by (auto simp: d1_def pads_def chr_values)
    with True show ?thesis by (auto simp: string)
  next
    case False
    then have "pads" by (simp add: pads_def chr_values word_sless_alt)
    with False show ?thesis by (simp add: string d1_def)
  qed
  finally show ?thesis .
qed

lemma print_directive:
  assumes "rd d fmt = chr CHR ''%''" and "scan_directive (rd d) (fmt + 1) ap no_flags = Some (c, f, fmt', ap')"
    and "conversion rd putch c f fmt' ap' d = Some (fmt'', ap'', d')"
  shows "vprintfmt rd putch fmt ap d = vprintfmt rd putch fmt'' ap'' d'"
  by (subst vprintfmt.simps) (simp add: assms chr_values)

text \<open>A conversion prints its text and takes its arguments; the end of the format and unknown conversions are below.\<close>

lemma convert:
  assumes "I d" and "\<not> literal cv" and "conv_ok (2 \<le> lflag f) cv" and width: "- (2 ^ 30) \<le> sint (width f)"
    and args: "args_at A (rd d) ap (conv_args (2 \<le> lflag f) cv @ vs)" and strs: "\<And>a bs. cv = Text a bs \<Longrightarrow> in_memory A (rd d) a bs"
  shows "conversion rd putch (hd (conv_bytes cv)) f fmt ap d =
    Some (fmt, ap + 4 * of_nat (length (conv_args (2 \<le> lflag f) cv)), fold putch (conv_text f cv) d)"
proof -
  note number = print_number[OF _ width, of 10 putch] print_number[OF _ width, of 16 putch]
  show ?thesis
  proof (cases cv)
    case (Text a bs)
    then have "put_s rd putch f a d = Some (fold putch (string_text f bs) d)"
      using put_text[OF assms(1) _ _ width, of a bs] strs assms(3) by simp
    with Text args show ?thesis by (simp add: conversion_def chr_values)
  next
    case Null
    have "put_s rd putch f 0 d = Some (fold putch (string_text f (map chr ''(null)'')) d)"
      by (rule put_text[OF assms(1) _ _ width]) simp_all
    with Null args show ?thesis by (simp add: conversion_def chr_values)
  next
    case (Signed v)
    have arg: "getint (rd d) ap (lflag f) = (word_of_int v, ap + 4 * of_nat (length (int_args (2 \<le> lflag f) v)))"
      by (rule getint_argument) (use args assms(3) Signed in simp_all)
    have v: "- (2 ^ 63) \<le> v" "v < 2 ^ 63" using assms(3) Signed by (simp_all split: if_splits)
    show ?thesis
    proof (cases "v < 0")
      case True
      with signed_value(1,2)[OF v] number(1)[of "- word_of_int v" "putch 45 d"] Signed arg show ?thesis
        by (simp add: conversion_def chr_values)
    next
      case False
      with signed_value(1,3)[OF v] number(1)[of "word_of_int v" d] Signed arg show ?thesis
        by (simp add: conversion_def chr_values)
    qed
  next
    case (Unsigned n)
    have arg: "getuint (rd d) ap (lflag f) = (of_nat n, ap + 4 * of_nat (length (int_args (2 \<le> lflag f) (int n))))"
      by (rule getuint_argument) (use args assms(3) Unsigned in simp_all)
    have "unat (of_nat n :: uint64) = n" using assms(3) Unsigned by (simp add: unat_of_nat_small split: if_splits)
    with number(1)[of "of_nat n" d] Unsigned arg show ?thesis by (simp add: conversion_def chr_values)
  next
    case (Hexadecimal n)
    have arg: "getuint (rd d) ap (lflag f) = (of_nat n, ap + 4 * of_nat (length (int_args (2 \<le> lflag f) (int n))))"
      by (rule getuint_argument) (use args assms(3) Hexadecimal in simp_all)
    have "unat (of_nat n :: uint64) = n" using assms(3) Hexadecimal by (simp add: unat_of_nat_small split: if_splits)
    with number(2)[of "of_nat n" d] Hexadecimal arg show ?thesis by (simp add: conversion_def chr_values)
  next
    case (Pointer v)
    have "unat (ucast v :: uint64) = unat v"
      using unsigned_less[of v, where ?'a = nat] by (simp add: unsigned_ucast_eq take_bit_nat_eq_self)
    with number(2)[of "ucast v" "putch 120 (putch 48 d)"] Pointer args show ?thesis
      by (simp add: conversion_def chr_values)
  next
    case Octal
    then show ?thesis by (simp add: conversion_def chr_values numeral_3_eq_3)
  next
    case (Error_code v)
    with put_error[of v putch d] assms(3) args show ?thesis by (simp add: conversion_def chr_values)
  qed (use args assms(2) in \<open>simp_all add: conversion_def chr_values literal_def\<close>)
qed

lemma print_bytes:
  "I d \<Longrightarrow> in_memory A (rd d) fmt (bs @ rest) \<Longrightarrow> 37 \<notin> set bs \<Longrightarrow>
    vprintfmt rd putch fmt ap d = vprintfmt rd putch (fmt + of_nat (length bs)) ap (fold putch (map ucast bs) d)"
proof (induction bs arbitrary: fmt d)
  case (Cons b bs)
  have "in_memory A (rd (putch (ucast b) d)) (fmt + 1) (bs @ rest)"
    by (rule in_memory_agree[of _ "rd d"]) (use Cons.prems reads in auto)
  from Cons.IH[OF keeps[OF Cons.prems(1)] this] Cons.prems show ?case
    by (subst vprintfmt.simps) (simp add: chr_values add.assoc)
qed simp

text \<open>A directive that is not understood: the percent sign is printed, then the rest as plain bytes.\<close>

lemma print_literal:
  assumes "I d" and "fmt \<in> A \<and> rd d fmt = 37" and mem: "in_memory A (rd d) (fmt + 1) (bs @ conv_bytes cv @ rest)" and "37 \<notin> set bs"
    and "literal cv" and "conv_ok l cv" and "cv = Cut \<Longrightarrow> rest = []"
    and scan: "scan_directive (rd d) (fmt + 1) ap no_flags =
      Some (rd d (fmt + 1 + of_nat (length bs)), f, fmt + 1 + of_nat (length bs) + 1, ap')"
  shows "vprintfmt rd putch fmt ap d = vprintfmt rd putch (fmt + 1 + of_nat (length (bs @ conv_bytes cv))) ap'
    (fold putch (37 # map ucast bs @ conv_text f cv) d)"
proof -
  let ?c = "rd d (fmt + 1 + of_nat (length bs))" and ?d = "putch 37 d"
  have c: "?c = (case cv of Unknown c \<Rightarrow> c | _ \<Rightarrow> 0)"
    using in_memory_skip[OF mem] assms(5,7) by (cases cv) (simp_all add: literal_def)
  have "?c \<notin> special - {0}" unfolding c using assms(5,6) by (cases cv) (auto simp: literal_def special_def)
  then have "?c \<notin> {37, 99, 101, 115, 100, 117, 111, 112, 120}" by (auto simp: special_def)
  moreover have mem': "in_memory A (rd ?d) (fmt + 1) (bs @ conv_bytes cv @ rest)"
    by (rule in_memory_agree[OF mem]) (simp add: reads assms(1))
  have fmt: "rd ?d fmt = 37" using reads[OF assms(1)] assms(2) by simp
  have "rewind (rd ?d) (fmt + 1 + of_nat (length bs)) = Some (fmt + 1)"
    by (rule rewind_to[OF fmt mem']) (use assms(4) in simp_all)
  ultimately have "conversion rd putch ?c f (fmt + 1 + of_nat (length bs) + 1) ap' d = Some (fmt + 1, ap', ?d)"
    by (simp add: conversion_def chr_values Let_def ac_simps)
  from print_directive[OF _ scan this] assms(2)
  have "vprintfmt rd putch fmt ap d = vprintfmt rd putch (fmt + 1) ap' ?d" by (simp add: chr_values)
  also have "\<dots> = vprintfmt rd putch (fmt + 1 + of_nat (length (bs @ conv_bytes cv))) ap'
      (fold putch (map ucast (bs @ conv_bytes cv)) ?d)"
    by (rule print_bytes[OF keeps[OF assms(1)], where rest = rest])
      (use mem' assms(4,5,6) in \<open>auto simp: literal_def special_def split: conv.splits\<close>)
  also have "map ucast (bs @ conv_bytes cv) = map ucast bs @ conv_text f cv"
    using assms(5) by (cases cv) (simp_all add: literal_def)
  finally show ?thesis by simp
qed

lemma print_item:
  assumes "I d" and "item_ok it" and mem: "in_memory A (rd d) fmt (format_of it @ rest)"
    and args: "args_at A (rd d) ap (args_of it @ vs)" and strs: "\<And>fl a bs. it = Directive fl (Text a bs) \<Longrightarrow> in_memory A (rd d) a bs"
    and last: "\<And>fl. it = Directive fl Cut \<Longrightarrow> rest = []"
  shows "vprintfmt rd putch fmt ap d =
    vprintfmt rd putch (fmt + of_nat (length (format_of it))) (ap + 4 * of_nat (length (args_of it))) (fold putch (text_of it) d)"
proof (cases it)
  case (Literal c)
  then show ?thesis using mem assms(2) by (subst vprintfmt.simps) simp
next
  case (Directive fl cv)
  let ?bs = "flags_bytes fl" and ?l = "2 \<le> lflag (flags fl)"
  let ?c = "rd d (fmt + 1 + of_nat (length ?bs))" and ?ap = "ap + 4 * of_nat (length (concat (map flag_args fl)))"
  have ok: "flags_ok fl" "- (2 ^ 30) \<le> sint (width (flags fl))" "conv_ok ?l cv"
    using assms(2) Directive by (simp_all add: long_def)
  have m: "fmt \<in> A \<and> rd d fmt = 37" and mem': "in_memory A (rd d) (fmt + 1) (?bs @ conv_bytes cv @ rest)"
    using mem Directive by (simp_all add: chr_values)
  have args': "args_at A (rd d) ap (concat (map flag_args fl) @ conv_args ?l cv @ vs)"
    using args Directive by (simp add: long_def)
  have c: "?c = (if cv = Cut then 0 else hd (conv_bytes cv))"
    using in_memory_skip[OF mem'] last Directive by (cases cv) simp_all
  have plain: "?c \<notin> special - {0, 37, 99, 101, 115, 100, 117, 111, 112, 120}"
    unfolding c using ok(3) by (cases cv) (simp_all add: special_def chr_values)
  have "scan_directive (rd d) (fmt + 1) ap no_flags = scan_directive (rd d) (fmt + 1 + of_nat (length ?bs)) ?ap (flags fl)"
    unfolding flags_def by (rule scan_flags[OF ok(1) mem' args' conversion_no_digit[OF plain]])
  then have scan: "scan_directive (rd d) (fmt + 1) ap no_flags =
      Some (?c, flags fl, fmt + 1 + of_nat (length ?bs) + 1, ?ap)" by (simp only: scan_conversion[where m = "rd d", OF plain])
  show ?thesis
  proof (cases "literal cv")
    case True
    from print_literal[OF assms(1) m mem' _ True ok(3) _ scan] flags_bytes_plain last Directive
    have "vprintfmt rd putch fmt ap d = vprintfmt rd putch (fmt + 1 + of_nat (length (?bs @ conv_bytes cv))) ?ap
      (fold putch (37 # map ucast ?bs @ conv_text (flags fl) cv) d)" by blast
    moreover have "conv_args (long fl) cv = []" using True by (cases cv) (simp_all add: literal_def)
    ultimately show ?thesis using Directive True by (simp add: add.assoc)
  next
    case False
    then have "cv \<noteq> Cut" "length (conv_bytes cv) = 1" by (cases cv; simp add: literal_def)+
    then have c': "?c = hd (conv_bytes cv)" using c by simp
    have "conversion rd putch ?c (flags fl) (fmt + 1 + of_nat (length ?bs) + 1) ?ap d =
        Some (fmt + 1 + of_nat (length ?bs) + 1, ?ap + 4 * of_nat (length (conv_args ?l cv)), fold putch (conv_text (flags fl) cv) d)"
      unfolding c' by (rule convert[OF assms(1) False ok(3,2) args_at_skip[OF args']]) (use strs Directive in blast)
    from print_directive[OF _ scan this] m have "vprintfmt rd putch fmt ap d =
        vprintfmt rd putch (fmt + 1 + of_nat (length ?bs) + 1) (?ap + 4 * of_nat (length (conv_args ?l cv)))
          (fold putch (conv_text (flags fl) cv) d)" by (simp add: chr_values)
    then show ?thesis using Directive False \<open>length (conv_bytes cv) = 1\<close> by (simp add: long_def algebra_simps)
  qed
qed

theorem print_items:
  "I d \<Longrightarrow> laid_out A (rd d) fmt ap items \<Longrightarrow> vprintfmt rd putch fmt ap d = Some (fold putch (printed items) d)"
proof (induction items arbitrary: fmt ap d)
  case Nil
  then show ?case by (subst vprintfmt.simps) (simp add: laid_out_def printed_def)
next
  case (Cons it items)
  let ?d = "fold putch (text_of it) d"
  let ?fmt = "fmt + of_nat (length (format_of it))" and ?ap = "ap + 4 * of_nat (length (args_of it))"
  from Cons.prems have ok: "item_ok it" and mem: "in_memory A (rd d) fmt (format_of it @ concat (map format_of items))"
    and args: "args_at A (rd d) ap (args_of it @ concat (map args_of items))"
    and strs: "\<And>fl a bs. it = Directive fl (Text a bs) \<Longrightarrow> in_memory A (rd d) a bs"
    and cut: "cut_last (it # items)" by (auto simp: laid_out_def)
  have last: "\<And>fl. it = Directive fl Cut \<Longrightarrow> concat (map format_of items) = []" using cut by (auto simp: cut_last_Cons)
  have "laid_out A (rd d) ?fmt ?ap items"
    using Cons.prems(2) in_memory_skip[OF mem] args_at_skip[OF args] cut_last_tl[OF cut] by (simp add: laid_out_def)
  then have "laid_out A (rd ?d) ?fmt ?ap items" by (rule laid_out_agree) (rule reads_all[OF Cons.prems(1)])
  from Cons.IH[OF keeps_all[OF Cons.prems(1)] this] print_item[OF Cons.prems(1) ok mem args strs last]
  show ?case by (simp add: printed_def)
qed

end

section \<open>The buffer\<close>








text \<open>A machine with the format \<^verbatim>\<open>%.*s=%03x\<close>, its arguments and a string.\<close>

definition sample_memory :: memory where
  "sample_memory = (\<lambda>_. 0)(0x100 := 37, 0x101 := 46, 0x102 := 42, 0x103 := 115, 0x104 := 61, 0x105 := 37, 0x106 := 48, 0x107 := 51,
     0x108 := 120, 0x200 := 2, 0x205 := 3, 0x208 := 0x1A, 0x300 := 72, 0x301 := 105, 0x302 := 33)"

definition sample_items :: "item list" where
  "sample_items = [Directive [Point, Star 2] (Text 0x300 [72, 105, 33]), Literal 61, Directive [Zeros, Number 3] (Hexadecimal 0x1A)]"

lemma sample_flags:
  "flags [Point, Star 2] = \<lparr>padc = 32, width = 0, precision = 2, lflag = 0, altflag = False\<rparr>"
  "flags [Zeros, Number 3] = \<lparr>padc = 48, width = 3, precision = -1, lflag = 0, altflag = False\<rparr>"
  by (simp_all add: flags_def no_flags_def)

lemma sample_layout: "{a. a < 0x304} \<subseteq> A \<Longrightarrow> laid_out A sample_memory 0x100 0x200 sample_items"
  by (auto simp: laid_out_def sample_items_def sample_memory_def load_word_def flags_bytes_def long_def sample_flags
      int_args_def in_int_def starts_digit_def cut_last_def digits_less digit_byte_def chr_values subset_eq)

lemma sample_text: "printed sample_items = [72, 105, 61, 48, 49, 97]"
proof -
  have d: "digits 16 26 = [1, 10]" by (simp add: digits_step digits_less)
  have "numeral_text 16 48 3 26 = [48, 49, 97]" by (simp add: numeral_text_def d digit_char_def)
  then show ?thesis
    by (simp add: printed_def sample_items_def sample_flags number_text_def string_text_def shorten_def shown_def literal_def word_sless_alt)
qed


section \<open>The consoles\<close>

interpretation console: char_output "\<lambda>_. m" putch UNIV "\<lambda>_. True" for m putch
  by unfold_locales simp_all

lemma kernel_putch_all: "fold kernel_putch cs out = out @ cs"
  by (induction cs arbitrary: out) (simp_all add: kernel_putch_def)

text \<open>Full chunks have gone out, and fewer than 255 characters are pending.\<close>

lemma user_putch_all:
  assumes "length (pending b) < 255"
  shows "\<exists>calls rest. fold user_putch cs b =
      \<lparr>pending = rest, total_cnt = total_cnt b + of_nat (length cs), cputs = cputs b @ calls\<rparr> \<and>
    concat calls @ rest = pending b @ map ucast cs \<and> length rest < 255 \<and> (\<forall>c \<in> set calls. length c = 255)"
  using assms
proof (induction cs arbitrary: b)
  case Nil
  then show ?case by (intro exI[of _ "[]"] exI[of _ "pending b"]) simp
next
  case (Cons c cs)
  let ?b = "user_putch c b"
  obtain call where b: "cputs ?b = cputs b @ call" "concat call @ pending ?b = pending b @ [ucast c]"
      "length (pending ?b) < 255" "\<forall>c \<in> set call. length c = 255" "total_cnt ?b = total_cnt b + 1"
  proof (cases "length (pending b @ [ucast c]) = 255")
    case True
    then show ?thesis by (intro that[of "[pending b @ [ucast c]]"]) (simp_all add: user_putch_def Let_def)
  next
    case False
    with Cons.prems show ?thesis by (intro that[of "[]"]) (simp_all add: user_putch_def Let_def)
  qed
  from Cons.IH[OF b(3)] obtain calls rest where r: "fold user_putch cs ?b =
      \<lparr>pending = rest, total_cnt = total_cnt ?b + of_nat (length cs), cputs = cputs ?b @ calls\<rparr>"
    "concat calls @ rest = pending ?b @ map ucast cs" "length rest < 255" "\<forall>c \<in> set calls. length c = 255" by blast
  have "concat (call @ calls) @ rest = pending b @ map ucast (c # cs)"
    using r(2) arg_cong[OF b(2), of "\<lambda>xs. xs @ map ucast cs"] by simp
  with r b show ?case by (intro exI[of _ "call @ calls"] exI[of _ rest]) auto
qed

text \<open>Both consoles print the text of the format, each character once and in order.  The kernel prints it at once and
  returns 0 in place of the number of characters.  A program prints it in system calls of at most 255
  characters and returns the number of characters.\<close>

theorem consoles_print:
  assumes "laid_out UNIV m fmt ap items"
  shows "kernel_vcprintf m fmt ap out = Some (out @ printed items, 0) \<and>
    (\<exists>calls. user_vcprintf m fmt ap = Some (calls, of_nat (length (printed items))) \<and>
       concat calls = map ucast (printed items) \<and> (\<forall>c \<in> set calls. length c \<le> 255))"
proof
  note print = console.print_items[OF TrueI assms]
  show "kernel_vcprintf m fmt ap out = Some (out @ printed items, 0)"
    by (simp add: kernel_vcprintf_def print kernel_putch_all)
  obtain calls rest where r: "fold user_putch (printed items) \<lparr>pending = [], total_cnt = 0, cputs = []\<rparr> =
      \<lparr>pending = rest, total_cnt = of_nat (length (printed items)), cputs = calls\<rparr>"
    "concat calls @ rest = map ucast (printed items)" "length rest < 255" "\<forall>c \<in> set calls. length c = 255"
    using user_putch_all[of "\<lparr>pending = [], total_cnt = 0, cputs = []\<rparr>" "printed items"] by auto
  then have "user_vcprintf m fmt ap = Some (calls @ [rest], of_nat (length (printed items)))"
    by (simp add: user_vcprintf_def print)
  then show "\<exists>calls. user_vcprintf m fmt ap = Some (calls, of_nat (length (printed items))) \<and>
       concat calls = map ucast (printed items) \<and> (\<forall>c \<in> set calls. length c \<le> 255)"
    using r by (intro exI[of _ "calls @ [rest]"]) auto
qed

theorem consoles_print_witness:
  "kernel_vcprintf sample_memory 0x100 0x200 [] = Some ([72, 105, 61, 48, 49, 97], 0) \<and>
    (\<exists>calls. user_vcprintf sample_memory 0x100 0x200 = Some (calls, 6) \<and> concat calls = [72, 105, 61, 48, 49, 97])"
proof -
  have "laid_out UNIV sample_memory 0x100 0x200 sample_items" by (rule sample_layout) simp
  from consoles_print[OF this, of "[]"] show ?thesis by (auto simp: sample_text)
qed

end
