(* ===== verification/Kdebug.thy ===== *)
theory Kdebug
  imports Cstring Layout
begin

text \<open>
  Debug information, kern/kdebug.c: the binary search in the table of stabs, and what is found about
  an instruction address.  The tables are made by the linker and are parameters.
\<close>

record Stab =
  n_strx :: uint32
  n_type :: uint8
  n_value :: uint32

definition N_FUN :: uint8 where "N_FUN = 0x24"
definition N_SO :: uint8 where "N_SO = 0x64"
definition N_SOL :: uint8 where "N_SOL = 0x84"

section \<open>Binary search\<close>

text \<open>\<open>while (m >= l && stabs[m].n_type != type) m--\<close>\<close>

function stab_before :: "(int \<Rightarrow> Stab) \<Rightarrow> uint8 \<Rightarrow> int \<Rightarrow> int \<Rightarrow> int" where
  "stab_before stabs type l m = (if l \<le> m \<and> n_type (stabs m) \<noteq> type then stab_before stabs type l (m - 1) else m)"
  by pat_completeness auto
termination by (relation "measure (\<lambda>(stabs, type, l, m). nat (m - l + 1))") auto

declare stab_before.simps [simp del]

lemma stab_before_le: "stab_before stabs type l m \<le> m"
proof (induction stabs type l m rule: stab_before.induct)
  case (1 stabs type l m)
  then show ?case by (subst stab_before.simps) force
qed

text \<open>
  The loop, with the two results and the flag \<open>any_matches\<close>.  The address is a pointer to words, so
  \<open>addr++\<close> moves it by four bytes.  After an exact match with the first stab of the range neither
  bound has moved; the next round finds the same stab, which is then below the address.
\<close>

function stab_loop ::
  "(int \<Rightarrow> Stab) \<Rightarrow> uint8 \<Rightarrow> int \<Rightarrow> int \<Rightarrow> uint32 \<Rightarrow> int \<Rightarrow> int \<Rightarrow> bool \<Rightarrow> int \<times> int \<times> bool" where
  "stab_loop stabs type l r addr left right any_matches =
     (if l \<le> r then
        let true_m = (l + r) div 2; m = stab_before stabs type l true_m in
        if m < l then stab_loop stabs type (true_m + 1) r addr left right any_matches
        else if n_value (stabs m) < addr then stab_loop stabs type (true_m + 1) r addr m right True
        else if addr < n_value (stabs m) then stab_loop stabs type l (m - 1) addr left (m - 1) True
        else stab_loop stabs type m r (addr + 4) m right True
      else (left, right, any_matches))"
  by pat_completeness auto
termination
proof (relation "measures [\<lambda>(stabs, type, l, r, addr, left, right, any_matches). nat (r - l + 1),
    \<lambda>(stabs, type, l, r, addr, left, right, any_matches).
      if n_value (stabs (stab_before stabs type l ((l + r) div 2))) = addr then 1 else 0]", goal_cases)
  case 1
  show ?case by simp
next
  case (2 stabs type l r addr left right any_matches true_m m)
  then show ?case by auto
next
  case (3 stabs type l r addr left right any_matches true_m m)
  then show ?case by auto
next
  case (4 stabs type l r addr left right any_matches true_m m)
  then have "m \<le> true_m" by (simp add: stab_before_le)
  with 4 show ?case by auto
next
  case (5 stabs type l r addr left right any_matches true_m m)
  then have v: "n_value (stabs m) = addr" by auto
  have "addr + 4 \<noteq> addr" by simp
  with 5 v show ?case by (cases "m = l") auto
qed

declare stab_loop.simps [simp del]

text \<open>\<open>for (l = *region_right; l > *region_left && stabs[l].n_type != type; l--)\<close>\<close>

function rightmost :: "(int \<Rightarrow> Stab) \<Rightarrow> uint8 \<Rightarrow> int \<Rightarrow> int \<Rightarrow> int" where
  "rightmost stabs type left l = (if left < l \<and> n_type (stabs l) \<noteq> type then rightmost stabs type left (l - 1) else l)"
  by pat_completeness auto
termination by (relation "measure (\<lambda>(stabs, type, left, l). nat (l - left))") auto

declare rightmost.simps [simp del]

definition stab_binsearch :: "(int \<Rightarrow> Stab) \<Rightarrow> int \<Rightarrow> int \<Rightarrow> uint8 \<Rightarrow> uint32 \<Rightarrow> int \<times> int" where
  "stab_binsearch stabs region_left region_right type addr =
     (case stab_loop stabs type region_left region_right addr region_left region_right False of
        (left, right, any_matches) \<Rightarrow>
          if \<not> any_matches then (left, left - 1) else (rightmost stabs type left right, right))"

section \<open>Information about an address\<close>

text \<open>The table of the kernel, or of a program, with its strings in memory.\<close>

record stab_table =
  stab_at :: "int \<Rightarrow> Stab"
  number_of_stabs :: int
  strings :: memory
  stabstr :: uint32
  stabstr_end :: uint32

text \<open>A name is a pointer, or the constant for an unknown one, which has nine characters.\<close>

record Eipdebuginfo =
  eip_file :: "uint32 option"
  eip_line :: int
  eip_fn_name :: "uint32 option"
  eip_fn_namelen :: int
  eip_fn_addr :: uint32
  eip_fn_narg :: int

definition stab_name :: "stab_table \<Rightarrow> int \<Rightarrow> uint32 option" where
  "stab_name t i = (if n_strx (stab_at t i) < stabstr_end t - stabstr t then Some (stabstr t + n_strx (stab_at t i)) else None)"

text \<open>Backwards from \<open>lline\<close> to a stab that names a file, or below \<open>lfile\<close>.\<close>

function file_stab :: "(int \<Rightarrow> Stab) \<Rightarrow> int \<Rightarrow> int \<Rightarrow> int" where
  "file_stab stabs lfile lline =
     (if lfile \<le> lline \<and> n_type (stabs lline) \<noteq> N_SOL \<and> (n_type (stabs lline) \<noteq> N_SO \<or> n_value (stabs lline) = 0)
      then file_stab stabs lfile (lline - 1) else lline)"
  by pat_completeness auto
termination by (relation "measure (\<lambda>(stabs, lfile, lline). nat (lline - lfile + 1))") auto

declare file_stab.simps [simp del]

text \<open>The line number is never set.  The result is the code the function returns, and the structure it fills.\<close>

definition debuginfo_eip :: "stab_table \<Rightarrow> stab_table \<Rightarrow> uint32 \<Rightarrow> (int \<times> Eipdebuginfo) option" where
  "debuginfo_eip kstabs ustabs addr =
     (let t = (if USER_LIMIT \<le> addr then kstabs else ustabs);
          info = \<lparr>eip_file = None, eip_line = 0, eip_fn_name = None, eip_fn_namelen = 9, eip_fn_addr = addr, eip_fn_narg = 0\<rparr>
      in if stabstr_end t \<le> stabstr t \<or> strings t (stabstr_end t - 1) \<noteq> 0 then Some (-1, info)
         else let (lfile, rfile) = stab_binsearch (stab_at t) 0 (number_of_stabs t - 1) N_SO addr in
           if lfile = 0 then Some (-1, info)
           else let (lfun, rfun) = stab_binsearch (stab_at t) lfile rfile N_FUN addr;
                    found = (lfun \<le> rfun);
                    name = (if found then stab_name t lfun else None);
                    lline = file_stab (stab_at t) lfile (if found then lfun else lfile)
             in Option.bind (case name of None \<Rightarrow> Some 9
                  | Some p \<Rightarrow> map_option (\<lambda>q. sint (q - p)) (strfind (strings t) p (chr CHR '':''))) (\<lambda>len.
                  Some (0, info\<lparr>eip_fn_name := name, eip_fn_namelen := len,
                    eip_fn_addr := (if found then n_value (stab_at t lfun) else addr),
                    eip_file := (if lfile \<le> lline then stab_name t lline else None)\<rparr>)))"

section \<open>The search finds the last stab at or below the address\<close>

text \<open>
  The stabs of a type in a range, and the order of their addresses; when the address that is looked
  for is one of them, the next one is more than four bytes away.
\<close>

definition stabs_of :: "(int \<Rightarrow> Stab) \<Rightarrow> uint8 \<Rightarrow> int \<Rightarrow> int \<Rightarrow> int set" where
  "stabs_of stabs type left right = {i. left \<le> i \<and> i \<le> right \<and> n_type (stabs i) = type}"

definition spaced :: "(int \<Rightarrow> Stab) \<Rightarrow> int set \<Rightarrow> uint32 \<Rightarrow> bool" where
  "spaced stabs S a \<longleftrightarrow> (\<forall>i \<in> S. \<forall>j \<in> S. i < j \<longrightarrow> n_value (stabs i) < n_value (stabs j) \<and>
     (n_value (stabs i) = a \<longrightarrow> unat a + 4 < unat (n_value (stabs j))))"

lemma stab_before_spec:
  "stab_before stabs type l m < l \<and> (\<forall>i. l \<le> i \<and> i \<le> m \<longrightarrow> n_type (stabs i) \<noteq> type) \<or>
   l \<le> stab_before stabs type l m \<and> n_type (stabs (stab_before stabs type l m)) = type \<and>
     (\<forall>i. stab_before stabs type l m < i \<and> i \<le> m \<longrightarrow> n_type (stabs i) \<noteq> type)"
proof (induction stabs type l m rule: stab_before.induct)
  case (1 stabs type l m)
  show ?case
  proof (cases "l \<le> m \<and> n_type (stabs m) \<noteq> type")
    case True
    then have e: "stab_before stabs type l m = stab_before stabs type l (m - 1)" by (subst stab_before.simps) simp
    have s: "i \<le> m \<longleftrightarrow> i = m \<or> i \<le> m - 1" for i by auto
    from 1[OF True] True show ?thesis unfolding e s by blast
  next
    case False
    then have "stab_before stabs type l m = m" by (subst stab_before.simps) auto
    with False show ?thesis by auto
  qed
qed


lemma spaced_less:
  assumes "spaced stabs S a" and "i \<in> S" and "j \<in> S" and "i < j"
  shows "unat (n_value (stabs i)) < unat (n_value (stabs j))"
    and "n_value (stabs i) = a \<Longrightarrow> unat a + 4 < unat (n_value (stabs j))"
  using assms by (auto simp: spaced_def word_less_nat_alt)

text \<open>
  What holds at the head of the loop: the right result is the right bound, and is at the end of the range or
  just before a stab; stabs below the left bound are at or below the address and the last of
  them is the left result; those above the right bound are above the address.  After an exact
  match the loop goes on with the address plus four.
\<close>

definition search_inv ::
  "(int \<Rightarrow> Stab) \<Rightarrow> int set \<Rightarrow> int \<Rightarrow> int \<Rightarrow> uint32 \<Rightarrow> int \<Rightarrow> int \<Rightarrow> uint32 \<Rightarrow> int \<Rightarrow> int \<Rightarrow> bool \<Rightarrow> bool" where
  "search_inv stabs S L R a l r addr left right any \<longleftrightarrow>
     L \<le> l \<and> right = r \<and> (r = R \<or> r + 1 \<in> S) \<and>
     (\<forall>i \<in> S. i < l \<longrightarrow> n_value (stabs i) \<le> a \<and> left \<in> S \<and> i \<le> left \<and> any) \<and>
     (\<forall>i \<in> S. r < i \<longrightarrow> a < n_value (stabs i)) \<and>
     (left \<in> S \<longrightarrow> n_value (stabs left) \<le> a) \<and>
     (addr = a \<or> unat addr = unat a + 4 \<and> left \<in> S \<and> n_value (stabs left) = a \<and> left \<le> l)"

lemma search_step_below:
  assumes inv: "search_inv stabs S L R a l r addr left right any" and sp: "spaced stabs S a"
    and m: "m \<in> S" "l \<le> m" "m < l'" "\<forall>i \<in> S. m < i \<longrightarrow> l' \<le> i" and v: "n_value (stabs m) < addr"
  shows "search_inv stabs S L R a l' r addr m right True"
proof -
  have at: "left = m" if "addr \<noteq> a"
  proof (rule ccontr)
    assume "left \<noteq> m"
    with inv that m have "left < m" "left \<in> S" "n_value (stabs left) = a" "unat addr = unat a + 4"
      by (auto simp: search_inv_def)
    with spaced_less(2)[OF sp, of left m] m(1) v show False by (simp add: word_less_nat_alt)
  qed
  have le: "n_value (stabs m) \<le> a"
  proof (cases "addr = a")
    case True
    with v show ?thesis by simp
  next
    case False
    from at[OF this] inv m(1) show ?thesis by (simp add: search_inv_def)
  qed
  have "i \<le> m \<and> n_value (stabs i) \<le> a" if "i \<in> S" "i < l'" for i
  proof -
    have "i \<le> m" using m(4) that by force
    then show ?thesis using spaced_less[OF sp that(1) m(1)] le by (cases "i = m") (auto simp: word_le_nat_alt)
  qed
  with inv m(1-3) le at show ?thesis by (auto simp: search_inv_def)
qed

lemma search_step_above:
  assumes inv: "search_inv stabs S L R a l r addr left right any" and sp: "spaced stabs S a"
    and m: "m \<in> S" and v: "addr < n_value (stabs m)"
  shows "search_inv stabs S L R a l (m - 1) addr left (m - 1) True"
proof -
  have "a < n_value (stabs i)" if "i \<in> S" "m - 1 < i" for i
  proof (cases "i = m")
    case True
    then show ?thesis using inv v by (auto simp: search_inv_def word_less_nat_alt)
  next
    case False
    with that have "m < i" by simp
    from spaced_less[OF sp m that(1) this] inv v show ?thesis by (auto simp: search_inv_def word_less_nat_alt)
  qed
  with inv m show ?thesis by (auto simp: search_inv_def)
qed

lemma search_step_exact:
  assumes inv: "search_inv stabs S L R a l r addr left right any" and sp: "spaced stabs S a"
    and m: "m \<in> S" "l \<le> m" and v: "n_value (stabs m) = addr" and a: "unat a + 4 < 2 ^ 32"
  shows "search_inv stabs S L R a m r (addr + 4) m right True"
proof -
  have "addr = a"
  proof (rule ccontr)
    assume "addr \<noteq> a"
    with inv have left: "left \<in> S" "n_value (stabs left) = a" "left \<le> m" "unat addr = unat a + 4"
      using m(2) by (auto simp: search_inv_def)
    then have "left \<noteq> m" using v by auto
    with left spaced_less[OF sp left(1) m(1)] v show False by simp
  qed
  moreover have "unat (a + 4) = unat a + 4" using a by (subst word_add_le_unat) simp_all
  moreover have "n_value (stabs i) \<le> a" if "i \<in> S" "i < m" for i
    using spaced_less[OF sp that(1) m(1) that(2)] v \<open>addr = a\<close> by (simp add: word_le_nat_alt)
  ultimately show ?thesis using inv m v by (auto simp: search_inv_def)
qed

lemma stab_loop_inv:
  assumes "search_inv stabs S L R a l r addr left right any" and "S = stabs_of stabs type L R" and "spaced stabs S a"
    and "unat a + 4 < 2 ^ 32"
  shows "\<exists>l' r' addr' left' right' any'. stab_loop stabs type l r addr left right any = (left', right', any') \<and>
    r' < l' \<and> search_inv stabs S L R a l' r' addr' left' right' any'"
  using assms
proof (induction stabs type l r addr left right any rule: stab_loop.induct)
  case (1 stabs type l r addr left right any)
  note inv = 1(5) and S = 1(6) and sp = 1(7) and a = 1(8)
  show ?case
  proof (cases "l \<le> r")
    case False
    then have "stab_loop stabs type l r addr left right any = (left, right, any)" by (subst stab_loop.simps) simp
    with False inv show ?thesis by (intro exI conjI) auto
  next
    case True
    define t where "t = (l + r) div 2"
    define m where "m = stab_before stabs type l t"
    have t: "l \<le> t" "t \<le> r" using True by (auto simp: t_def)
    have R: "r \<le> R" "L \<le> l" using inv S by (auto simp: search_inv_def stabs_of_def)
    note loop = stab_loop.simps[of stabs type l r addr left right any, unfolded Let_def, folded t_def, folded m_def]
    note IH = 1(1-4)[OF True t_def, folded t_def, OF m_def]
    show ?thesis
    proof (cases "m < l")
      case None: True
      then have no: "n_type (stabs i) \<noteq> type" if "l \<le> i" "i \<le> t" for i
        using stab_before_spec[of stabs type l t] that unfolding m_def[symmetric] by auto
      have "i < l" if "i \<in> S" "i < t + 1" for i using no[of i] that S by (force simp: stabs_of_def)
      then have "search_inv stabs S L R a (t + 1) r addr left right any"
        using inv t by (auto simp: search_inv_def)
      from IH(1)[OF None this S sp a] show ?thesis using True None by (simp add: loop)
    next
      case False
      then have m: "l \<le> m" "n_type (stabs m) = type" "\<forall>i. m < i \<and> i \<le> t \<longrightarrow> n_type (stabs i) \<noteq> type"
        using stab_before_spec[of stabs type l t] unfolding m_def[symmetric] by auto
      have mt: "m \<le> t" unfolding m_def by (rule stab_before_le)
      have mS: "m \<in> S" using m(1,2) mt t R S by (auto simp: stabs_of_def)
      have above: "\<forall>i \<in> S. m < i \<longrightarrow> t + 1 \<le> i" using m(3) S by (force simp: stabs_of_def)
      consider "n_value (stabs m) < addr" | "addr < n_value (stabs m)" | "n_value (stabs m) = addr" by (rule linorder_cases)
      then show ?thesis
      proof cases
        case 1
        from search_step_below[OF inv sp mS m(1) _ above 1] mt
        have "search_inv stabs S L R a (t + 1) r addr m right True" by simp
        from IH(2)[OF False 1 this S sp a] show ?thesis using True False 1 by (simp add: loop)
      next
        case 2
        then have n: "\<not> n_value (stabs m) < addr" by simp
        from IH(3)[OF False n 2 search_step_above[OF inv sp mS 2] S sp a] show ?thesis using True False 2 n by (simp add: loop)
      next
        case 3
        then have n: "\<not> n_value (stabs m) < addr" "\<not> addr < n_value (stabs m)" by simp_all
        from IH(4)[OF False n search_step_exact[OF inv sp mS m(1) 3 a] S sp a] show ?thesis using True False n by (simp add: loop)
      qed
    qed
  qed
qed

lemma rightmost_eq: "left \<le> r \<Longrightarrow> (\<forall>i. left < i \<and> i \<le> r \<longrightarrow> n_type (stabs i) \<noteq> type) \<Longrightarrow> rightmost stabs type left r = left"
proof (induction stabs type left r rule: rightmost.induct)
  case (1 stabs type left r)
  show ?case
  proof (cases "left < r")
    case True
    then have "rightmost stabs type left r = rightmost stabs type left (r - 1)"
      using 1(3) by (subst rightmost.simps) simp
    with 1 True show ?thesis by simp
  next
    case False
    with 1(2) show ?thesis by (subst rightmost.simps) simp
  qed
qed

text \<open>C36: When a stab of the type is at or below the address, the binary search ends and brackets the address: the left
  result is the last such stab, the right result is just before the next stab of the type or the end
  of the range.  The stabs of the type are in the order of their addresses; because \<open>addr++\<close> adds
  four, the next one has to be more than four bytes away when the address matches exactly.\<close>

theorem stab_binsearch_finds:
  assumes "spaced stabs (stabs_of stabs type left right) addr" and "unat addr + 4 < 2 ^ 32"
    and "b \<in> stabs_of stabs type left right" and "n_value (stabs b) \<le> addr"
    and "\<forall>i \<in> stabs_of stabs type left right. b < i \<longrightarrow> addr < n_value (stabs i)"
  shows "\<exists>r. stab_binsearch stabs left right type addr = (b, r) \<and> b \<le> r \<and>
    (\<forall>i \<in> stabs_of stabs type left right. i \<le> r \<longrightarrow> i \<le> b) \<and> (r = right \<or> r + 1 \<in> stabs_of stabs type left right)"
proof -
  define S where "S = stabs_of stabs type left right"
  note as = assms[folded S_def]
  have "n_value (stabs left) \<le> addr" if "left \<in> S"
  proof (cases "left = b")
    case False
    then have "left < b" using as(3) by (auto simp: S_def stabs_of_def)
    from spaced_less[OF as(1) that as(3) this] as(4) show ?thesis by (simp add: word_le_nat_alt)
  qed (use as(4) in simp)
  then have "search_inv stabs S left right addr left right addr left right False"
    by (auto simp: search_inv_def S_def stabs_of_def)
  from stab_loop_inv[OF this S_def as(1,2)] obtain l r addr' l' r' any where
    loop: "stab_loop stabs type left right addr left right False = (l', r', any)" and "r < l"
    and inv: "search_inv stabs S left right addr l r addr' l' r' any" by blast
  have r: "r' = r" "r = right \<or> r + 1 \<in> S" using inv by (auto simp: search_inv_def)
  have above: "addr < n_value (stabs i)" if "i \<in> S" "r < i" for i
    using inv that unfolding search_inv_def by blast
  have below: "l' \<in> S \<and> i \<le> l' \<and> any" if "i \<in> S" "i < l" for i
    using inv that unfolding search_inv_def by blast
  have "b \<le> r" using above[OF as(3)] as(4) by (meson leD not_le)
  then have b: "l' \<in> S" "b \<le> l'" any using below[OF as(3)] \<open>r < l\<close> by auto
  have "n_value (stabs l') \<le> addr" using inv b(1) unfolding search_inv_def by blast
  then have "\<not> b < l'" using as(5) b(1) by auto
  with b(2) have l': "l' = b" by simp
  have none: "i \<le> b" if "i \<in> S" "i \<le> r" for i
    using below[OF that(1)] that(2) \<open>r < l\<close> l' by simp
  have "rightmost stabs type b r = b"
  proof (rule rightmost_eq[OF \<open>b \<le> r\<close>], intro allI impI)
    fix i assume i: "b < i \<and> i \<le> r"
    have "r \<le> right" using r(2) by (auto simp: S_def stabs_of_def)
    with i as(3) none[of i] show "n_type (stabs i) \<noteq> type" by (auto simp: S_def stabs_of_def)
  qed
  then have "stab_binsearch stabs left right type addr = (b, r)"
    using loop \<open>any\<close> by (simp add: stab_binsearch_def r(1) l')
  with \<open>b \<le> r\<close> none r(2) show ?thesis unfolding S_def by blast
qed

text \<open>The example of the source: seven stabs, and an address in the fourth.\<close>

definition sample_stabs :: "int \<Rightarrow> Stab" where
  "sample_stabs i = \<lparr>n_strx = 0,
     n_type = (if i \<in> {0, 13, 117, 118, 555, 556, 657} then N_SO else N_FUN),
     n_value = (if i = 0 then 0xF0100000 else if i = 13 then 0xF0100040 else if i = 117 then 0xF0100176
       else if i = 118 then 0xF0100178 else if i = 555 then 0xF0100652 else if i = 556 then 0xF0100654
       else if i = 657 then 0xF0100849 else 0)\<rparr>"

theorem stab_binsearch_finds_witness:
  "stab_binsearch sample_stabs 0 657 N_SO 0xF0100184 = (118, 554)"
proof -
  have S: "stabs_of sample_stabs N_SO 0 657 = {0, 13, 117, 118, 555, 556, 657}"
    by (auto simp: stabs_of_def sample_stabs_def N_SO_def N_FUN_def split: if_splits)
  have sp: "spaced sample_stabs (stabs_of sample_stabs N_SO 0 657) 0xF0100184"
    unfolding S spaced_def by (simp add: sample_stabs_def)
  have above: "\<forall>i \<in> stabs_of sample_stabs N_SO 0 657. 118 < i \<longrightarrow> 0xF0100184 < n_value (sample_stabs i)"
    unfolding S by (simp add: sample_stabs_def)
  have "\<exists>r. stab_binsearch sample_stabs 0 657 N_SO 0xF0100184 = (118, r) \<and> 118 \<le> r \<and>
    (\<forall>i \<in> stabs_of sample_stabs N_SO 0 657. i \<le> r \<longrightarrow> i \<le> 118) \<and> (r = 657 \<or> r + 1 \<in> stabs_of sample_stabs N_SO 0 657)"
    by (rule stab_binsearch_finds[OF sp _ _ _ above]) (simp_all add: S, simp add: sample_stabs_def)
  then show ?thesis unfolding S by auto
qed

text \<open>Two stabs two bytes apart: the address of the first one is attributed to the second.\<close>

definition close_stabs :: "int \<Rightarrow> Stab" where
  "close_stabs i = \<lparr>n_strx = 0, n_type = N_SO, n_value = (if i = 0 then 0xF0100176 else 0xF0100178)\<rparr>"

lemma exact_match_overshoots: "stab_binsearch close_stabs 0 1 N_SO 0xF0100176 = (1, 1)"
proof -
  have m: "stab_before close_stabs N_SO l m = m" for l m by (subst stab_before.simps) (simp add: close_stabs_def)
  have v: "n_value (close_stabs 0) = 0xF0100176" "n_value (close_stabs 1) = 0xF0100178" by (simp_all add: close_stabs_def)
  have "stab_loop close_stabs N_SO 2 1 0xF010017A 1 1 True = (1, 1, True)" by (subst stab_loop.simps) simp
  then have "stab_loop close_stabs N_SO 1 1 0xF010017A 0 1 True = (1, 1, True)"
    by (subst stab_loop.simps) (simp add: m v Let_def)
  then have "stab_loop close_stabs N_SO 0 1 0xF010017A 0 1 True = (1, 1, True)"
    by (subst stab_loop.simps) (simp add: m v Let_def)
  then have "stab_loop close_stabs N_SO 0 1 0xF0100176 0 1 False = (1, 1, True)"
    by (subst stab_loop.simps) (simp add: m v Let_def)
  moreover have "rightmost close_stabs N_SO 1 1 = 1" by (subst rightmost.simps) simp
  ultimately show ?thesis by (simp add: stab_binsearch_def)
qed

end
