(* ===== verification/Console.thy ===== *)
theory Console
  imports Prelude
begin

text \<open>
  The console, kern/console.c: the text screen, the keyboard and the serial line, and the ring
  buffer of input characters.  What the keyboard and the serial line have received and not yet
  handed over are two lists; port writes are a trace.  The wait for the printer is a bounded
  delay without effect on the state.
\<close>

unbundle bit_operations_syntax

record console =
  kbd_input :: "uint8 list"
  com_input :: "uint8 list"
  ports :: "(uint16 \<times> uint8) list"
  crt_buf :: "nat \<Rightarrow> uint16"
  crt_pos :: uint16
  addr_6845 :: uint16
  text_length :: int
  shift :: uint32
  serial_exists :: bool
  cons_buf :: "nat \<Rightarrow> uint8"
  rpos :: nat
  wpos :: nat

definition outb :: "uint16 \<Rightarrow> uint8 \<Rightarrow> (console, unit) M" where
  "outb port v = modify (\<lambda>s. s\<lparr>ports := ports s @ [(port, v)]\<rparr>)"

section \<open>Serial and parallel port\<close>

definition COM1 :: uint16 where "COM1 = 0x3F8"

text \<open>-1 when no byte has come in.\<close>

definition serial_proc_data :: "(console, int) M" where
  "serial_proc_data = bnd (gets com_input) (\<lambda>xs. case xs of [] \<Rightarrow> ret (-1)
     | x # xs \<Rightarrow> seqm (modify (\<lambda>s. s\<lparr>com_input := xs\<rparr>)) (ret (uint x)))"

text \<open>The line status tells whether there is a port at all.\<close>

definition serial_init :: "uint8 \<Rightarrow> (console, unit) M" where
  "serial_init line_status =
     seqm (outb (COM1 + 2) 0) (seqm (outb (COM1 + 3) 0x80)
     (seqm (outb COM1 12) (seqm (outb (COM1 + 1) 0)
     (seqm (outb (COM1 + 3) 0x03) (seqm (outb (COM1 + 4) 0) (seqm (outb (COM1 + 1) 0x01)
       (modify (\<lambda>s. s\<lparr>serial_exists := line_status \<noteq> 0xFF\<rparr>))))))))"

definition lpt_putc :: "uint32 \<Rightarrow> (console, unit) M" where
  "lpt_putc c = seqm (outb 0x378 (ucast c)) (seqm (outb 0x37A 0x0D) (outb 0x37A 0x08))"

section \<open>The screen\<close>

definition CRT_COLS :: nat where "CRT_COLS = 80"
definition CRT_SIZE :: nat where "CRT_SIZE = 2000"

definition blank :: uint16 where "blank = 0x0720"

definition set_cell :: "nat \<Rightarrow> uint16 \<Rightarrow> (console, unit) M" where
  "set_cell i v = seqm (guard (i < CRT_SIZE) OutOfBounds) (modify (\<lambda>s. s\<lparr>crt_buf := (crt_buf s)(i := v)\<rparr>))"

definition set_pos :: "(uint16 \<Rightarrow> uint16) \<Rightarrow> (console, unit) M" where
  "set_pos f = modify (\<lambda>s. s\<lparr>crt_pos := f (crt_pos s)\<rparr>)"

text \<open>Whether there is a colour screen, and where the cursor is, is asked from the hardware.\<close>

definition cga_init :: "bool \<Rightarrow> uint8 \<Rightarrow> uint8 \<Rightarrow> (console, unit) M" where
  "cga_init color hi lo =
     (let a = (if color then 0x3D4 else 0x3B4) in
      seqm (modify (\<lambda>s. s\<lparr>addr_6845 := a\<rparr>)) (seqm (outb a 14) (seqm (outb a 15)
        (modify (\<lambda>s. s\<lparr>crt_pos := push_bit 8 (ucast hi) OR ucast lo\<rparr>)))))"

text \<open>A character without attribute is white on black.\<close>

definition with_attribute :: "uint32 \<Rightarrow> uint32" where
  "with_attribute c = (if c AND NOT 0xFF = 0 then c OR 0x0700 else c)"

text \<open>The cases of the switch but the tabulator, which prints blanks.\<close>

definition cga_switch :: "uint32 \<Rightarrow> (console, unit) M" where
  "cga_switch c =
     (let k = c AND 0xFF in
      bnd (gets crt_pos) (\<lambda>pos.
      if k = 8 then whenM (0 < pos) (seqm (set_pos (\<lambda>p. p - 1)) (set_cell (unat (pos - 1)) (ucast ((c AND NOT 0xFF) OR 0x20))))
      else if k = 10 then
        seqm (set_pos (\<lambda>p. p + of_nat CRT_COLS)) (seqm (modify (\<lambda>s. s\<lparr>text_length := 0\<rparr>))
          (set_pos (\<lambda>p. p - p mod of_nat CRT_COLS)))
      else if k = 13 then set_pos (\<lambda>p. p - p mod of_nat CRT_COLS)
      else if k = 228 then whenM (0 < pos) (set_pos (\<lambda>p. p - 1))
      else if k = 229 then whenM (unat pos < CRT_SIZE) (set_pos (\<lambda>p. p + 1))
      else seqm (set_cell (unat pos) (ucast c)) (seqm (set_pos (\<lambda>p. p + 1))
        (modify (\<lambda>s. if 1920 + text_length s < uint (crt_pos s) then s\<lparr>text_length := text_length s + 1\<rparr> else s)))))"

text \<open>Scrolling by one line when the cursor has left the screen, and the cursor registers.\<close>

definition scroll :: "(console, unit) M" where
  "scroll = bnd (gets crt_pos) (\<lambda>pos. whenM (CRT_SIZE \<le> unat pos)
     (seqm (modify (\<lambda>s. s\<lparr>crt_buf := (\<lambda>i. if i < CRT_SIZE - CRT_COLS then crt_buf s (i + CRT_COLS)
               else if i < CRT_SIZE then blank else crt_buf s i)\<rparr>))
        (set_pos (\<lambda>p. p - of_nat CRT_COLS))))"

definition show_cursor :: "(console, unit) M" where
  "show_cursor = bnd (gets (\<lambda>s. (addr_6845 s, crt_pos s))) (\<lambda>(a, pos).
     seqm (outb a 14) (seqm (outb (a + 1) (ucast (drop_bit 8 pos))) (seqm (outb a 15) (outb (a + 1) (ucast pos)))))"

definition cga_char :: "uint32 \<Rightarrow> (console, unit) M" where
  "cga_char c = seqm (cga_switch c) (seqm scroll show_cursor)"

definition cga_putc :: "uint32 \<Rightarrow> (console, unit) M" where
  "cga_putc c0 =
     (let c = with_attribute c0 in
      if c AND 0xFF = 9
      then seqm (for_n 5 0 (\<lambda>_. seqm (lpt_putc 0x20) (cga_char (with_attribute 0x20)))) (seqm scroll show_cursor)
      else cga_char c)"

definition cons_putc :: "uint32 \<Rightarrow> (console, unit) M" where
  "cons_putc c = seqm (lpt_putc c) (cga_putc c)"

section \<open>The keyboard\<close>

definition SHIFT :: uint32 where "SHIFT = 1"
definition CTL :: uint32 where "CTL = 2"
definition ALT :: uint32 where "ALT = 4"
definition CAPSLOCK :: uint32 where "CAPSLOCK = 8"
definition NUMLOCK :: uint32 where "NUMLOCK = 16"
definition SCROLLLOCK :: uint32 where "SCROLLLOCK = 32"
definition E0ESC :: uint32 where "E0ESC = 64"
definition KEY_DEL :: uint8 where "KEY_DEL = 0xE9"

definition shiftcode :: "uint8 \<Rightarrow> uint32" where
  "shiftcode d = (if d = 0x1D \<or> d = 0x9D then CTL else if d = 0x2A \<or> d = 0x36 then SHIFT
     else if d = 0x38 \<or> d = 0xB8 then ALT else 0)"

definition togglecode :: "uint8 \<Rightarrow> uint32" where
  "togglecode d = (if d = 0x3A then CAPSLOCK else if d = 0x45 then NUMLOCK else if d = 0x46 then SCROLLLOCK else 0)"

text \<open>The tables begin with a row for each sixteen scan codes; the keys with an escape code follow.\<close>

definition escaped_keys :: "uint8 \<Rightarrow> uint8" where
  "escaped_keys d = (if d = 0x97 then 0xE0 else if d = 0xC8 then 0xE2 else if d = 0xC9 then 0xE6
     else if d = 0xCB then 0xE4 else if d = 0xCD then 0xE5 else if d = 0xCF then 0xE1 else if d = 0xD0 then 0xE3
     else if d = 0xD1 then 0xE7 else if d = 0xD2 then 0xE8 else if d = 0xD3 then KEY_DEL else 0)"

definition in_table :: "uint8 list \<Rightarrow> (uint8 \<Rightarrow> uint8) \<Rightarrow> uint8 \<Rightarrow> uint8" where
  "in_table row other d = (if unat d < length row then row ! unat d else other d)"

definition keypad :: "uint8 \<Rightarrow> uint8" where
  "keypad d = (if d = 0x9C then 0x0A else if d = 0xB5 then 0x2F else escaped_keys d)"

definition normalmap :: "uint8 \<Rightarrow> uint8" where
  "normalmap = in_table
     [0, 27, 49, 50, 51, 52, 53, 54, 55, 56, 57, 48, 45, 61, 8, 9,
      113, 119, 101, 114, 116, 121, 117, 105, 111, 112, 91, 93, 10, 0, 97, 115,
      100, 102, 103, 104, 106, 107, 108, 59, 39, 96, 0, 92, 122, 120, 99, 118,
      98, 110, 109, 44, 46, 47, 0, 42, 0, 32, 0, 0, 0, 0, 0, 0,
      0, 0, 0, 0, 0, 0, 0, 55, 56, 57, 45, 52, 53, 54, 43, 49,
      50, 51, 48, 46, 0, 0, 0, 0] keypad"

definition shiftmap :: "uint8 \<Rightarrow> uint8" where
  "shiftmap = in_table
     [0, 27, 33, 64, 35, 36, 37, 94, 38, 42, 40, 41, 95, 43, 8, 9,
      81, 87, 69, 82, 84, 89, 85, 73, 79, 80, 123, 125, 10, 0, 65, 83,
      68, 70, 71, 72, 74, 75, 76, 58, 34, 126, 0, 124, 90, 88, 67, 86,
      66, 78, 77, 60, 62, 63, 0, 42, 0, 32, 0, 0, 0, 0, 0, 0,
      0, 0, 0, 0, 0, 0, 0, 55, 56, 57, 45, 52, 53, 54, 43, 49,
      50, 51, 48, 46, 0, 0, 0, 0] keypad"

definition ctlmap :: "uint8 \<Rightarrow> uint8" where
  "ctlmap = in_table
     [0, 0, 0, 0, 0, 0, 0, 0, 0, 0, 0, 0, 0, 0, 0, 0,
      17, 23, 5, 18, 20, 25, 21, 9, 15, 16, 0, 0, 13, 0, 1, 19,
      4, 6, 7, 8, 10, 11, 12, 0, 0, 0, 0, 28, 26, 24, 3, 22,
      2, 14, 13, 0, 0, 239, 0, 0, 0, 255] (\<lambda>d. if d = 0xB5 then 239 else escaped_keys d)"

definition charcode :: "uint32 \<Rightarrow> uint8 \<Rightarrow> uint8" where
  "charcode k d = (if k = 0 then normalmap d else if k = SHIFT then shiftmap d else ctlmap d)"

text \<open>The delete key moves the rest of the line in the last row of the screen.\<close>

definition delete_key :: "(console, int) M" where
  "delete_key = bnd (gets (\<lambda>s. (text_length s, crt_pos s))) (\<lambda>(len, pos).
     if len \<le> 0 \<or> uint pos = 1920 + len then ret 0
     else seqm (modify (\<lambda>s. s\<lparr>text_length := len - 1\<rparr>))
       (seqm (for_n (nat (len - (uint pos - 1925))) (unat pos) (\<lambda>i.
          seqm (guard (i + 1 < CRT_SIZE) OutOfBounds) (bnd (gets (\<lambda>s. crt_buf s (i + 1))) (set_cell i))))
         (ret (uint KEY_DEL))))"

definition caps :: "uint8 \<Rightarrow> uint8" where
  "caps c = (if 97 \<le> c \<and> c \<le> 122 then c - 32 else if 65 \<le> c \<and> c \<le> 90 then c + 32 else c)"

text \<open>
  One scan code: -1 when there is none, 0 when it completes no character.  The restart that the code has
  for the delete key with control and alternate comes after the delete key has been answered.
\<close>

definition kbd_proc_data :: "(console, int) M" where
  "kbd_proc_data = bnd (gets kbd_input) (\<lambda>xs. case xs of [] \<Rightarrow> ret (-1)
     | data # xs \<Rightarrow> seqm (modify (\<lambda>s. s\<lparr>kbd_input := xs\<rparr>)) (bnd (gets shift) (\<lambda>sh.
         if data = 0xE0 then seqm (modify (\<lambda>s. s\<lparr>shift := sh OR E0ESC\<rparr>)) (ret 0)
         else if data AND 0x80 \<noteq> 0 then
           (let data = (if sh AND E0ESC \<noteq> 0 then data else data AND 0x7F) in
            seqm (modify (\<lambda>s. s\<lparr>shift := sh AND NOT (shiftcode data OR E0ESC)\<rparr>)) (ret 0))
         else
           (let esc = (sh AND E0ESC \<noteq> 0); data = (if esc then data OR 0x80 else data);
                sh = (if esc then sh AND NOT E0ESC else sh);
                sh = (sh OR shiftcode data) XOR togglecode data;
                c = charcode (sh AND (CTL OR SHIFT)) data
            in seqm (modify (\<lambda>s. s\<lparr>shift := sh\<rparr>))
              (if c = KEY_DEL then delete_key
               else let c = (if sh AND CAPSLOCK \<noteq> 0 then caps c else c) in
                 if sh = NUMLOCK \<and> 48 \<le> c \<and> c \<le> 57 then ret 0
                 else if c = 255 then ret 0 else ret (uint c))))))"

section \<open>The ring buffer\<close>

definition CONSBUFSIZE :: nat where "CONSBUFSIZE = 512"

definition next_pos :: "nat \<Rightarrow> nat" where
  "next_pos i = (if i + 1 = CONSBUFSIZE then 0 else i + 1)"

definition cons_store :: "uint8 \<Rightarrow> (console, unit) M" where
  "cons_store c = bnd (gets wpos) (\<lambda>w. seqm (guard (w < CONSBUFSIZE) OutOfBounds)
     (modify (\<lambda>s. s\<lparr>cons_buf := (cons_buf s)(w := c), wpos := next_pos w\<rparr>)))"

text \<open>The loop ends when the device has no more bytes; each round takes one.\<close>

fun cons_intr :: "nat \<Rightarrow> (console, int) M \<Rightarrow> (console, unit) M" where
  "cons_intr 0 proc = raise OutOfFuel"
| "cons_intr (Suc n) proc = bnd proc (\<lambda>c.
     if c = -1 then ret ()
     else seqm (whenM (c \<noteq> 0) (cons_store (of_int c))) (cons_intr n proc))"

definition serial_intr :: "(console, unit) M" where
  "serial_intr = bnd (gets (\<lambda>s. (serial_exists s, length (com_input s)))) (\<lambda>(e, n). whenM e (cons_intr (Suc n) serial_proc_data))"

definition kbd_intr :: "(console, unit) M" where
  "kbd_intr = bnd (gets (\<lambda>s. length (kbd_input s))) (\<lambda>n. cons_intr (Suc n) kbd_proc_data)"

definition cons_take :: "(console, int) M" where
  "cons_take = bnd (gets (\<lambda>s. (rpos s, wpos s))) (\<lambda>(r, w).
     if r \<noteq> w then seqm (guard (r < CONSBUFSIZE) OutOfBounds) (bnd (gets (\<lambda>s. cons_buf s r)) (\<lambda>c.
       seqm (modify (\<lambda>s. s\<lparr>rpos := next_pos r\<rparr>)) (ret (uint c))))
     else ret 0)"

definition cons_getc :: "(console, int) M" where
  "cons_getc = seqm serial_intr (seqm kbd_intr cons_take)"

text \<open>At most one byte of each device; nothing is taken unless the keyboard gave a character.\<close>

definition cons_getc2 :: "(console, int) M" where
  "cons_getc2 =
     bnd (gets serial_exists) (\<lambda>e.
     seqm (whenM e (bnd serial_proc_data (\<lambda>c. whenM (c \<noteq> -1 \<and> c \<noteq> 0) (cons_store (of_int c)))))
     (bnd kbd_proc_data (\<lambda>c2.
      seqm (whenM (c2 \<noteq> -1 \<and> c2 \<noteq> 0) (cons_store (of_int c2)))
        (if 0 < c2 then cons_take else ret 0))))"

definition console_initialize :: "bool \<Rightarrow> uint8 \<Rightarrow> uint8 \<Rightarrow> uint8 \<Rightarrow> (console, unit) M" where
  "console_initialize color hi lo line_status = seqm (cga_init color hi lo) (serial_init line_status)"

definition cputchar :: "uint32 \<Rightarrow> (console, unit) M" where
  "cputchar c = cons_putc c"

text \<open>\<open>getchar\<close> polls until there is a character; \<open>None\<close> when it has to wait for the devices.\<close>

definition getchar :: "(console, int option) M" where
  "getchar = bnd cons_getc (\<lambda>c. ret (if c = 0 then None else Some c))"

end
