(* ===== verification/Console_Props.thy ===== *)
theory Console_Props
  imports Console
begin

text \<open>
  The screen is a window of twenty-five lines on an endless page, and the ring buffer is a queue of 511
  characters.
\<close>

section \<open>The endless page\<close>

text \<open>
  Cells are numbered from the first line that was ever on the screen; \<open>row\<close> is the line at the top
  of the window now.  Nothing is moved when the window moves down.
\<close>

record page =
  cells :: "nat \<Rightarrow> uint16"
  cursor :: nat
  row :: nat

definition page_write :: "uint32 \<Rightarrow> page \<Rightarrow> page" where
  "page_write c p =
     (let k = c AND 0xFF; start = 80 * row p; i = cursor p in
      if k = 8 then if start < i then p\<lparr>cursor := i - 1, cells := (cells p)(i - 1 := ucast ((c AND NOT 0xFF) OR 0x20))\<rparr> else p
      else if k = 10 then p\<lparr>cursor := i + 80 - i mod 80\<rparr>
      else if k = 13 then p\<lparr>cursor := i - i mod 80\<rparr>
      else if k = 228 then if start < i then p\<lparr>cursor := i - 1\<rparr> else p
      else if k = 229 then p\<lparr>cursor := i + 1\<rparr>
      else p\<lparr>cursor := i + 1, cells := (cells p)(i := ucast c)\<rparr>)"

definition page_follow :: "page \<Rightarrow> page" where
  "page_follow p = (if 80 * row p + 2000 \<le> cursor p then p\<lparr>row := row p + 1\<rparr> else p)"

definition page_char :: "uint32 \<Rightarrow> page \<Rightarrow> page" where
  "page_char c p = page_follow (page_write c p)"

definition page_putc :: "uint32 \<Rightarrow> page \<Rightarrow> page" where
  "page_putc c0 p = (let c = with_attribute c0 in
     if c AND 0xFF = 9 then (page_char 0x0720 ^^ 5) p else page_char c p)"

text \<open>The cursor is in the window, or just behind it before the window follows.\<close>

definition window :: "nat \<Rightarrow> console \<Rightarrow> page \<Rightarrow> bool" where
  "window extra s p \<longleftrightarrow> 80 * row p \<le> cursor p \<and> cursor p < 80 * row p + 2000 + extra \<and>
     unat (crt_pos s) = cursor p - 80 * row p \<and>
     (\<forall>i < 2000. crt_buf s i = cells p (80 * row p + i)) \<and> (\<forall>j \<ge> 80 * row p + 2000. cells p j = blank)"

lemma set_cell_ok: "i < 2000 \<Longrightarrow> set_cell i v s = Inr ((), s\<lparr>crt_buf := (crt_buf s)(i := v)\<rparr>)"
  by (simp add: set_cell_def CRT_SIZE_def seqm_def)

lemma set_pos_apply [simp]: "set_pos f s = Inr ((), s\<lparr>crt_pos := f (crt_pos s)\<rparr>)"
  by (simp add: set_pos_def)

lemma unat_plus16: "unat (w :: uint16) + n < 65536 \<Longrightarrow> unat (w + of_nat n) = unat w + n"
  by (subst word_add_le_unat) (simp_all add: unat_of_nat_small)

lemma switch_refines:
  assumes w: "window 0 s p"
  shows "\<exists>s'. cga_switch c s = Inr ((), s') \<and> window 1 s' (page_write c p)"
proof -
  define x where "x = unat (crt_pos s)"
  have x: "x < 2000" "cursor p = 80 * row p + x" using w by (auto simp: window_def x_def)
  have cells: "crt_buf s i = cells p (80 * row p + i)" if "i < 2000" for i using w that by (simp add: window_def)
  have blank: "cells p j = blank" if "80 * row p + 2000 \<le> j" for j using w that by (simp add: window_def)
  have pos: "crt_pos s = of_nat x" by (simp add: x_def)
  have md: "cursor p mod 80 = x mod 80" using x(2) by simp
  have z: "0 < crt_pos s \<longleftrightarrow> 0 < x" unfolding x_def by (simp add: word_less_nat_alt)
  have minus: "unat (crt_pos s - 1) = x - 1" if "0 < x" using that unfolding x_def by (simp add: unat_minus_one unat_gt_0)
  have plus: "unat (crt_pos s + of_nat n) = x + n" if "n \<le> 80" for n
    unfolding x_def by (rule unat_plus16) (use x(1) that in \<open>simp add: x_def[symmetric]\<close>)
  have col: "unat (crt_pos s - crt_pos s mod of_nat CRT_COLS) = x - x mod 80"
    unfolding x_def by (simp add: CRT_COLS_def unat_sub word_le_nat_alt unat_mod)
  have line: "unat (crt_pos s + of_nat CRT_COLS - (crt_pos s + of_nat CRT_COLS) mod of_nat CRT_COLS) = x + 80 - x mod 80"
    using plus[of 80] by (simp add: CRT_COLS_def unat_sub word_le_nat_alt unat_mod)
  have line_le: "x mod 80 \<le> x" "x - x mod 80 \<le> 1920" using x(1) by (simp_all add: minus_mod_eq_div_mult)
  define k where "k = c AND 0xFF"
  note sw = cga_switch_def[of c, unfolded Let_def, folded k_def] page_write_def[of c p, unfolded Let_def, folded k_def] window_def
  consider (bs) "k = 8" | (nl) "k = 10" | (cr) "k = 13" | (le) "k = 228" | (ri) "k = 229"
    | (ch) "k \<noteq> 8" "k \<noteq> 10" "k \<noteq> 13" "k \<noteq> 228" "k \<noteq> 229" by blast
  then show ?thesis
  proof cases
    case bs
    then show ?thesis using x cells blank minus
      by (cases "0 < x") (auto simp: sw z set_cell_ok whenM_def x_def[symmetric])
  next
    case nl
    then show ?thesis using x cells blank line md by (simp add: sw) (use line_le in linarith)
  next
    case cr
    then show ?thesis using x cells blank col md by (simp add: sw) (use line_le x in linarith)
  next
    case le
    then show ?thesis using x cells blank minus by (cases "0 < x") (auto simp: sw z whenM_def x_def[symmetric])
  next
    case ri
    then show ?thesis using x cells blank plus[of 1] by (simp add: sw CRT_SIZE_def whenM_def x_def[symmetric])
  next
    case ch
    then show ?thesis using x cells blank plus[of 1] by (simp add: sw set_cell_ok x_def[symmetric])
  qed
qed

lemma scroll_refines:
  assumes w: "window 1 s p"
  shows "\<exists>s'. scroll s = Inr ((), s') \<and> window 0 s' (page_follow p)"
proof (cases "unat (crt_pos s) = 2000")
  case False
  with w show ?thesis by (auto simp: scroll_def whenM_def CRT_SIZE_def page_follow_def window_def)
next
  case True
  then have "unat (crt_pos s - 80) = 1920" by (simp add: unat_sub word_le_nat_alt)
  with True w show ?thesis
    by (simp add: scroll_def whenM_def CRT_SIZE_def CRT_COLS_def page_follow_def window_def ac_simps) arith
qed

lemma show_cursor_keeps: "window e s p \<Longrightarrow> \<exists>s'. show_cursor s = Inr ((), s') \<and> window e s' p"
  by (simp add: show_cursor_def outb_def window_def)

lemma scroll_idle:
  assumes "window 0 s p"
  shows "scroll s = Inr ((), s)"
  using assms by (auto simp: scroll_def whenM_def CRT_SIZE_def window_def)

lemma char_refines:
  assumes w: "window 0 s p"
  shows "\<exists>s'. cga_char c s = Inr ((), s') \<and> window 0 s' (page_char c p)"
proof -
  from switch_refines[OF w] obtain s1 where 1: "cga_switch c s = Inr ((), s1)" "window 1 s1 (page_write c p)" by blast
  from scroll_refines[OF 1(2)] obtain s2 where 2: "scroll s1 = Inr ((), s2)" "window 0 s2 (page_char c p)"
    unfolding page_char_def by blast
  from show_cursor_keeps[OF 2(2)] 1 2 show ?thesis by (auto simp: cga_char_def seqm_def)
qed

lemma lpt_putc_keeps: "window e s p \<Longrightarrow> \<exists>s'. lpt_putc c s = Inr ((), s') \<and> window e s' p"
  by (simp add: lpt_putc_def outb_def window_def)

lemma blanks_refine:
  assumes "window 0 s p"
  shows "\<exists>s'. for_n n i (\<lambda>_. seqm (lpt_putc 0x20) (cga_char c)) s = Inr ((), s') \<and> window 0 s' ((page_char c ^^ n) p)"
  using assms
proof (induction n arbitrary: s p i)
  case (Suc n)
  from lpt_putc_keeps[OF Suc.prems] obtain s1 where 1: "lpt_putc 0x20 s = Inr ((), s1)" "window 0 s1 p" by blast
  from char_refines[OF 1(2)] obtain s2 where 2: "cga_char c s1 = Inr ((), s2)" "window 0 s2 (page_char c p)" by blast
  from Suc.IH[OF 2(2)] 1(1) 2(1) show ?case by (simp add: seqm_def funpow_swap1)
qed simp

lemma putc_refines:
  assumes w: "window 0 s p"
  shows "\<exists>s'. cons_putc c s = Inr ((), s') \<and> window 0 s' (page_putc c p)"
proof -
  from lpt_putc_keeps[OF w] obtain s1 where 1: "lpt_putc c s = Inr ((), s1)" "window 0 s1 p" by blast
  show ?thesis
  proof (cases "with_attribute c AND 0xFF = 9")
    case False
    from char_refines[OF 1(2), of "with_attribute c"] 1(1) False show ?thesis
      by (auto simp: cons_putc_def cga_putc_def page_putc_def seqm_def Let_def)
  next
    case True
    have a: "with_attribute 0x20 = 0x720" by (simp add: with_attribute_def)
    from blanks_refine[OF 1(2)] obtain s2 where
      2: "for_n 5 0 (\<lambda>_. seqm (lpt_putc 0x20) (cga_char 0x720)) s1 = Inr ((), s2)" "window 0 s2 (page_putc c p)"
      using True by (fastforce simp: page_putc_def)
    from show_cursor_keeps[OF 2(2)] obtain s3 where "show_cursor s2 = Inr ((), s3)" "window 0 s3 (page_putc c p)" by blast
    with 1(1) 2 True show ?thesis
      by (simp add: cons_putc_def cga_putc_def seqm_def a scroll_idle[OF 2(2)])
  qed
qed

text \<open>C24: The screen shows the last twenty-five lines of the page: printing any characters succeeds, no cell outside the
  screen is written, and the screen, the cursor and the blank rest agree with a page on which nothing is ever
  moved, at the row the window has followed the cursor to.\<close>

theorem screen_shows_page:
  assumes "window 0 s p"
  shows "\<exists>s'. for_each cs cons_putc s = Inr ((), s') \<and> window 0 s' (fold page_putc cs p)"
  using assms
proof (induction cs arbitrary: s p)
  case (Cons c cs)
  from putc_refines[OF Cons.prems] obtain s1 where 1: "cons_putc c s = Inr ((), s1)" "window 0 s1 (page_putc c p)" by blast
  from Cons.IH[OF 1(2)] 1(1) show ?case by (simp add: seqm_def)
qed simp

definition blank_console :: console where
  "blank_console = \<lparr>kbd_input = [], com_input = [], ports = [], crt_buf = (\<lambda>i. blank), crt_pos = 0, addr_6845 = 0x3D4,
     text_length = 0, shift = 0, serial_exists = True, cons_buf = (\<lambda>i. 0), rpos = 0, wpos = 0\<rparr>"

theorem screen_shows_page_witness:
  "\<exists>s'. for_each [0x41, 0x0A, 0x42] cons_putc blank_console = Inr ((), s') \<and>
     crt_buf s' 0 = 0x0741 \<and> crt_buf s' 80 = 0x0742 \<and> unat (crt_pos s') = 81"
proof -
  define p where "p = \<lparr>cells = \<lambda>i. blank, cursor = 0, row = 0\<rparr>"
  have "window 0 blank_console p" by (simp add: window_def p_def blank_console_def)
  from screen_shows_page[OF this, of "[0x41, 0x0A, 0x42]"] obtain s' where
    s': "for_each [0x41, 0x0A, 0x42] cons_putc blank_console = Inr ((), s')"
    and w: "window 0 s' (fold page_putc [0x41, 0x0A, 0x42] p)" by blast
  have "fold page_putc [0x41, 0x0A, 0x42] p = \<lparr>cells = (\<lambda>i. blank)(0 := 0x0741, 80 := 0x0742), cursor = 81, row = 0\<rparr>"
    by (simp add: p_def page_putc_def with_attribute_def page_char_def page_follow_def page_write_def Let_def)
  with w have "crt_buf s' 0 = 0x0741 \<and> crt_buf s' 80 = 0x0742 \<and> unat (crt_pos s') = 81" by (simp add: window_def)
  with s' show ?thesis by blast
qed

section \<open>The ring buffer is a queue\<close>

definition ring_ok :: "console \<Rightarrow> bool" where
  "ring_ok s \<longleftrightarrow> rpos s < 512 \<and> wpos s < 512"

definition pending :: "console \<Rightarrow> uint8 list" where
  "pending s = map (cons_buf s) (if rpos s \<le> wpos s then [rpos s..<wpos s] else [rpos s..<512] @ [0..<wpos s])"

lemma upt_512: "i < 512 \<Longrightarrow> [i..<512] = [i..<511] @ [511]"
  using upt_Suc_append[of i 511] by simp

lemma store_appends:
  assumes ok: "ring_ok s" and room: "length (pending s) < 511"
  shows "\<exists>s'. cons_store c s = Inr ((), s') \<and> ring_ok s' \<and> pending s' = pending s @ [c] \<and>
    (kbd_input s', com_input s', shift s', serial_exists s') = (kbd_input s, com_input s, shift s, serial_exists s)"
proof -
  have w: "wpos s < 512" "rpos s < 512" using ok by (simp_all add: ring_ok_def)
  have n: "length (pending s) = (if rpos s \<le> wpos s then wpos s - rpos s else 512 - rpos s + wpos s)" by (simp add: pending_def)
  show ?thesis
  proof (cases "wpos s = 511")
    case True
    then show ?thesis using w n room upt_512[OF w(2)]
      by (auto simp: cons_store_def CONSBUFSIZE_def next_pos_def pending_def ring_ok_def)
  next
    case False
    then have "wpos s + 1 \<noteq> rpos s" using n room w by auto
    with False show ?thesis using w
      by (auto simp: cons_store_def CONSBUFSIZE_def next_pos_def pending_def ring_ok_def)
  qed
qed

lemma take_removes:
  assumes ok: "ring_ok s"
  shows "\<exists>s'. cons_take s = Inr (case pending s of [] \<Rightarrow> 0 | c # cs \<Rightarrow> uint c, s') \<and> ring_ok s' \<and>
    pending s' = (case pending s of [] \<Rightarrow> [] | c # cs \<Rightarrow> cs) \<and> com_input s' = com_input s \<and> kbd_input s' = kbd_input s"
proof -
  have w: "wpos s < 512" "rpos s < 512" using ok by (simp_all add: ring_ok_def)
  have up: "rpos s < n \<Longrightarrow> [rpos s..<n] = rpos s # [Suc (rpos s)..<n]" for n by (rule upt_conv_Cons)
  consider "rpos s = wpos s" | "rpos s < wpos s" | "wpos s < rpos s" by linarith
  then show ?thesis
  proof cases
    case 1
    then show ?thesis using ok by (simp add: cons_take_def pending_def)
  next
    case 2
    then show ?thesis using w up[OF 2]
      by (simp add: cons_take_def pending_def ring_ok_def CONSBUFSIZE_def next_pos_def)
  next
    case 3
    then show ?thesis using w up[OF w(2)]
      by (auto simp: cons_take_def pending_def ring_ok_def CONSBUFSIZE_def next_pos_def)
  qed
qed

text \<open>The character that fills the buffer makes it look empty.\<close>

lemma store_loses_all:
  assumes ok: "ring_ok s" and full: "length (pending s) = 511"
  shows "\<exists>s'. cons_store c s = Inr ((), s') \<and> pending s' = []"
proof -
  have w: "wpos s < 512" "rpos s < 512" using ok by (simp_all add: ring_ok_def)
  have "length (pending s) = (if rpos s \<le> wpos s then wpos s - rpos s else 512 - rpos s + wpos s)" by (simp add: pending_def)
  then have "next_pos (wpos s) = rpos s" using w full by (auto simp: next_pos_def CONSBUFSIZE_def split: if_splits)
  then show ?thesis using w by (simp add: cons_store_def CONSBUFSIZE_def pending_def)
qed

text \<open>
  What the loop of \<open>cons_intr\<close> relies on: a call takes one of the waiting items and returns the character it
  completes or 0, and leaves the ring buffer alone.  \<open>chars\<close> are the characters that are still to come.
\<close>

definition same_ring :: "console \<Rightarrow> console \<Rightarrow> bool" where
  "same_ring s s' \<longleftrightarrow> rpos s' = rpos s \<and> wpos s' = wpos s \<and> cons_buf s' = cons_buf s"

lemma same_ring_pending: "same_ring s s' \<Longrightarrow> pending s' = pending s \<and> ring_ok s' = ring_ok s"
  by (simp add: same_ring_def pending_def ring_ok_def)

locale input_device =
  fixes proc :: "(console, int) M" and waiting :: "console \<Rightarrow> nat" and usable :: "console \<Rightarrow> bool"
    and chars :: "console \<Rightarrow> uint8 list" and rest :: "console \<Rightarrow> 'r"
  assumes idle: "waiting s = 0 \<Longrightarrow> proc s = Inr (-1, s) \<and> chars s = []"
    and takes: "usable s \<Longrightarrow> 0 < waiting s \<Longrightarrow> \<exists>c s'. proc s = Inr (uint c, s') \<and> usable s' \<and> waiting s = Suc (waiting s') \<and>
      same_ring s s' \<and> rest s' = rest s \<and> chars s = (if c = 0 then [] else [c]) @ chars s'"
    and ring_only: "(kbd_input s', com_input s', shift s', serial_exists s') = (kbd_input s, com_input s, shift s, serial_exists s) \<Longrightarrow>
      usable s' = usable s \<and> waiting s' = waiting s \<and> chars s' = chars s \<and> rest s' = rest s"
begin

lemma interrupt_queues:
  assumes "usable s" and "ring_ok s" and "length (pending s @ chars s) \<le> 511" and "waiting s < n"
  shows "\<exists>s'. cons_intr n proc s = Inr ((), s') \<and> ring_ok s' \<and> pending s' = pending s @ chars s \<and> rest s' = rest s \<and> waiting s' = 0"
  using assms
proof (induction n arbitrary: s)
  case (Suc n)
  show ?case
  proof (cases "waiting s = 0")
    case True
    from idle[OF True] True Suc.prems(2) show ?thesis by simp
  next
    case False
    with takes[OF Suc.prems(1)] obtain c s1 where
      1: "proc s = Inr (uint c, s1)" "usable s1" "waiting s = Suc (waiting s1)" "rest s1 = rest s"
      and r: "same_ring s s1" and c: "chars s = (if c = 0 then [] else [c]) @ chars s1" by blast
    from same_ring_pending[OF r] Suc.prems(2) have p: "pending s1 = pending s" "ring_ok s1" by auto
    have "\<exists>s2. whenM (uint c \<noteq> 0) (cons_store (of_int (uint c))) s1 = Inr ((), s2) \<and> usable s2 \<and> waiting s2 = waiting s1 \<and>
      ring_ok s2 \<and> rest s2 = rest s \<and> chars s2 = chars s1 \<and> pending s2 = pending s @ (if c = 0 then [] else [c])"
    proof (cases "c = 0")
      case True
      then show ?thesis using 1(2,4) p by (simp add: whenM_def)
    next
      case nz: False
      have "length (pending s1) < 511" using Suc.prems(3) c nz p(1) by simp
      from store_appends[OF p(2) this, of c] obtain s2 where s2: "cons_store c s1 = Inr ((), s2)" "ring_ok s2"
        "pending s2 = pending s1 @ [c]"
        and k: "(kbd_input s2, com_input s2, shift s2, serial_exists s2) = (kbd_input s1, com_input s1, shift s1, serial_exists s1)"
        by blast
      from ring_only[OF k] s2 1(2,4) p nz show ?thesis by (simp add: whenM_def uint_0_iff)
    qed
    then obtain s2 where s2: "whenM (uint c \<noteq> 0) (cons_store (of_int (uint c))) s1 = Inr ((), s2)" "usable s2" "waiting s2 = waiting s1"
      "ring_ok s2" "rest s2 = rest s" "chars s2 = chars s1" "pending s2 = pending s @ (if c = 0 then [] else [c])" by blast
    have "length (pending s2 @ chars s2) \<le> 511" "waiting s2 < n" using Suc.prems(3,4) s2 1(3) c by (auto split: if_splits)
    from Suc.IH[OF s2(2,4) this] obtain s3 where "cons_intr n proc s2 = Inr ((), s3)" "ring_ok s3"
      "pending s3 = pending s2 @ chars s2" "rest s3 = rest s2" "waiting s3 = 0" by blast
    moreover have "uint c \<noteq> - 1" by (metis neg_0_le_iff_le not_one_le_zero uint_ge_0)
    ultimately show ?thesis using 1(1) s2 c by (simp add: seqm_def)
  qed
qed simp

end

interpretation serial: input_device serial_proc_data "\<lambda>s. length (com_input s)" "\<lambda>s. True"
  "\<lambda>s. List.filter (\<lambda>c. c \<noteq> 0) (com_input s)" "\<lambda>s. (kbd_input s, shift s)"
proof unfold_locales
  fix s :: console assume "0 < length (com_input s)"
  then obtain c xs where "com_input s = c # xs" by (cases "com_input s") auto
  then show "\<exists>c s'. serial_proc_data s = Inr (uint c, s') \<and> True \<and> length (com_input s) = Suc (length (com_input s')) \<and>
      same_ring s s' \<and> (kbd_input s', shift s') = (kbd_input s, shift s) \<and>
      List.filter (\<lambda>c. c \<noteq> 0) (com_input s) = (if c = 0 then [] else [c]) @ List.filter (\<lambda>c. c \<noteq> 0) (com_input s')"
    by (intro exI[of _ c] exI[of _ "s\<lparr>com_input := xs\<rparr>"]) (simp add: serial_proc_data_def same_ring_def)
qed (auto simp: serial_proc_data_def)

text \<open>
  The keyboard as an automaton: the modifiers and locks that are on, and the character a scan code completes.
  The scan code 0x53 is that of the delete key, which edits the screen, or of the point of the keypad.
\<close>

definition key_step :: "uint32 \<Rightarrow> uint8 \<Rightarrow> uint32 \<times> uint8" where
  "key_step sh d =
     (if d = 0xE0 then (sh OR E0ESC, 0)
      else if d AND 0x80 \<noteq> 0
      then (sh AND NOT (shiftcode (if sh AND E0ESC \<noteq> 0 then d else d AND 0x7F) OR E0ESC), 0)
      else let e = (if sh AND E0ESC \<noteq> 0 then d OR 0x80 else d);
               sh = ((sh AND NOT E0ESC) OR shiftcode e) XOR togglecode e;
               c = charcode (sh AND (CTL OR SHIFT)) e;
               c = (if sh AND CAPSLOCK \<noteq> 0 then caps c else c)
           in (sh, if sh = NUMLOCK \<and> 48 \<le> c \<and> c \<le> 57 \<or> c = 255 then 0 else c))"

primrec typed :: "uint32 \<Rightarrow> uint8 list \<Rightarrow> uint8 list" where
  "typed sh [] = []"
| "typed sh (d # ds) = (case key_step sh d of (sh', c) \<Rightarrow> (if c = 0 then [] else [c]) @ typed sh' ds)"

lemma no_escape: "(sh :: uint32) AND E0ESC = 0 \<Longrightarrow> sh AND NOT E0ESC = sh"
proof -
  assume "sh AND E0ESC = 0"
  moreover have "sh = (sh AND E0ESC) OR (sh AND NOT E0ESC)" by (rule bit_eqI) (auto simp: bit_simps)
  ultimately show ?thesis by simp
qed

lemma in_table_not: "x \<notin> set tab \<Longrightarrow> other d \<noteq> x \<Longrightarrow> in_table tab other d \<noteq> x"
  unfolding in_table_def by (metis nth_mem)

lemma delete_only_53: "charcode k d = KEY_DEL \<Longrightarrow> d = 0xD3"
proof (rule ccontr)
  assume c: "charcode k d = KEY_DEL" and d: "d \<noteq> 0xD3"
  have k: "keypad d \<noteq> KEY_DEL" "escaped_keys d \<noteq> KEY_DEL" using d by (auto simp: keypad_def escaped_keys_def KEY_DEL_def)
  have "normalmap d \<noteq> KEY_DEL" unfolding normalmap_def by (rule in_table_not) (use k in \<open>simp_all add: KEY_DEL_def\<close>)
  moreover have "shiftmap d \<noteq> KEY_DEL" unfolding shiftmap_def by (rule in_table_not) (use k in \<open>simp_all add: KEY_DEL_def\<close>)
  moreover have "ctlmap d \<noteq> KEY_DEL" unfolding ctlmap_def by (rule in_table_not) (use k in \<open>simp_all add: KEY_DEL_def\<close>)
  ultimately show False using c by (simp add: charcode_def split: if_splits)
qed

lemma mask_split: "(d :: 'a :: len word) = (d AND m) OR (d AND NOT m)" "(d OR m) AND NOT m = d AND NOT m"
  by (rule bit_eqI, auto simp: bit_simps)+

lemma not_delete: "(d :: uint8) AND 0x80 = 0 \<Longrightarrow> d \<noteq> 0x53 \<Longrightarrow> d \<noteq> 0xD3 \<and> d OR 0x80 \<noteq> 0xD3"
proof
  assume z: "d AND 0x80 = 0" and n: "d \<noteq> 0x53"
  show "d \<noteq> 0xD3" using z by auto
  show "d OR 0x80 \<noteq> 0xD3"
  proof
    assume "d OR 0x80 = 0xD3"
    then have "d AND NOT 0x80 = 0xD3 AND NOT 0x80" using mask_split(2)[of d "0x80"] by simp
    then have "d AND NOT 0x80 = 0x53" by simp
    with mask_split(1)[of d "0x80"] z n show False by simp
  qed
qed

lemma kbd_proc_data_step:
  assumes "kbd_input s = d # xs" and "d \<noteq> 0x53"
  shows "kbd_proc_data s = Inr (uint (snd (key_step (shift s) d)), s\<lparr>kbd_input := xs, shift := fst (key_step (shift s) d)\<rparr>)"
proof (cases "d = 0xE0 \<or> d AND 0x80 \<noteq> 0")
  case True
  show ?thesis
  proof (cases "d = 0xE0")
    case E0: True
    then show ?thesis using assms(1) by (simp add: kbd_proc_data_def key_step_def seqm_def)
  next
    case False
    with True assms(1) show ?thesis
      by (cases "shift s AND E0ESC = 0") (simp_all add: kbd_proc_data_def key_step_def seqm_def Let_def)
  qed
next
  case False
  with not_delete[of d] assms(2) have nd: "d \<noteq> 0xD3" "d OR 0x80 \<noteq> 0xD3" by auto
  define e where "e = (if shift s AND E0ESC \<noteq> 0 then d OR 0x80 else d)"
  define sh where "sh = ((shift s AND NOT E0ESC) OR shiftcode e) XOR togglecode e"
  define c where "c = (if sh AND CAPSLOCK \<noteq> 0 then caps (charcode (sh AND (CTL OR SHIFT)) e) else charcode (sh AND (CTL OR SHIFT)) e)"
  have "key_step (shift s) d = (sh, if sh = NUMLOCK \<and> 48 \<le> c \<and> c \<le> 57 \<or> c = 255 then 0 else c)"
    using False unfolding key_step_def Let_def e_def[symmetric] sh_def[symmetric] c_def[symmetric] by simp
  moreover have mods: "(if shift s AND E0ESC \<noteq> 0 then shift s AND NOT E0ESC else shift s) = shift s AND NOT E0ESC"
    using no_escape[of "shift s"] by simp
  have "kbd_proc_data s = (if charcode (sh AND (CTL OR SHIFT)) e = KEY_DEL then delete_key
      else if sh = NUMLOCK \<and> 48 \<le> c \<and> c \<le> 57 then ret 0 else if c = 255 then ret 0 else ret (uint c))
      (s\<lparr>kbd_input := xs, shift := sh\<rparr>)"
    using False assms(1) unfolding kbd_proc_data_def Let_def seqm_def
    by (simp add: mods e_def[symmetric] sh_def[symmetric] c_def[symmetric] split del: if_split cong: if_cong)
  moreover have "charcode k e \<noteq> KEY_DEL" for k using nd delete_only_53[of k e] unfolding e_def by presburger
  ultimately show ?thesis by simp
qed

interpretation keyboard: input_device kbd_proc_data "\<lambda>s. length (kbd_input s)" "\<lambda>s. 0x53 \<notin> set (kbd_input s)"
  "\<lambda>s. typed (shift s) (kbd_input s)" com_input
proof unfold_locales
  fix s :: console assume "0 < length (kbd_input s)" and nd: "0x53 \<notin> set (kbd_input s)"
  then obtain d xs where d: "kbd_input s = d # xs" "d \<noteq> 0x53" by (cases "kbd_input s") auto
  show "\<exists>c s'. kbd_proc_data s = Inr (uint c, s') \<and> 0x53 \<notin> set (kbd_input s') \<and> length (kbd_input s) = Suc (length (kbd_input s')) \<and>
      same_ring s s' \<and> com_input s' = com_input s \<and>
      typed (shift s) (kbd_input s) = (if c = 0 then [] else [c]) @ typed (shift s') (kbd_input s')"
    unfolding kbd_proc_data_step[OF d]
    by (intro exI conjI, rule refl) (use d nd in \<open>simp_all add: same_ring_def split_beta\<close>)
qed (auto simp: kbd_proc_data_def)

text \<open>C25: Console input is first in, first out: \<open>cons_getc\<close> first queues what the serial line and then the keyboard have
  sent, in order, and returns the oldest character, 0 when there is none.  The bound is what the ring
  buffer can hold; the delete key is treated apart, since it also edits the screen.\<close>

theorem cons_getc_fifo:
  assumes "ring_ok s" and "serial_exists s" and "0x53 \<notin> set (kbd_input s)"
    and "q = pending s @ List.filter (\<lambda>c. c \<noteq> 0) (com_input s) @ typed (shift s) (kbd_input s)" and "length q \<le> 511"
  shows "\<exists>s'. cons_getc s = Inr (case q of [] \<Rightarrow> 0 | c # cs \<Rightarrow> uint c, s') \<and> ring_ok s' \<and>
    pending s' = (case q of [] \<Rightarrow> [] | c # cs \<Rightarrow> cs) \<and> com_input s' = [] \<and> kbd_input s' = []"
proof -
  from serial.interrupt_queues[OF TrueI assms(1), of "Suc (length (com_input s))"] assms(4,5) obtain s1 where
    1: "serial_intr s = Inr ((), s1)" "ring_ok s1" "pending s1 = pending s @ List.filter (\<lambda>c. c \<noteq> 0) (com_input s)"
      "kbd_input s1 = kbd_input s" "shift s1 = shift s" "com_input s1 = []"
    using assms(2) by (auto simp: serial_intr_def whenM_def)
  have "length (pending s1 @ typed (shift s1) (kbd_input s1)) \<le> 511" using 1 assms(4,5) by simp
  from keyboard.interrupt_queues[OF _ 1(2) this, of "Suc (length (kbd_input s1))"] assms(3,4) 1(3-6) obtain s2 where
    2: "kbd_intr s1 = Inr ((), s2)" "ring_ok s2" "pending s2 = q" "com_input s2 = []" "kbd_input s2 = []"
    by (auto simp: kbd_intr_def)
  from take_removes[OF 2(2)] 2 1(1) show ?thesis by (auto simp: cons_getc_def seqm_def)
qed

text \<open>Shift, an a, its release, and a 7 on the serial line.\<close>

theorem cons_getc_fifo_witness:
  "\<exists>s'. cons_getc (blank_console\<lparr>kbd_input := [0x2A, 0x1E, 0xAA, 0x30], com_input := [0, 0x37]\<rparr>) = Inr (0x37, s') \<and> pending s' = [0x41, 0x62]"
proof -
  let ?s = "blank_console\<lparr>kbd_input := [0x2A, 0x1E, 0xAA, 0x30], com_input := [0, 0x37]\<rparr>"
  note codes = key_step_def shiftcode_def togglecode_def E0ESC_def SHIFT_def CTL_def ALT_def CAPSLOCK_def NUMLOCK_def
    charcode_def normalmap_def shiftmap_def in_table_def
  have t: "typed 0 [0x2A, 0x1E, 0xAA, 0x30] = [0x41, 0x62]" by (simp add: codes)
  have "\<exists>s'. cons_getc ?s = Inr (case [0x37, 0x41, 0x62 :: uint8] of [] \<Rightarrow> 0 | c # cs \<Rightarrow> uint c, s') \<and> ring_ok s' \<and>
    pending s' = (case [0x37, 0x41, 0x62] of [] \<Rightarrow> [] | c # cs \<Rightarrow> cs) \<and> com_input s' = [] \<and> kbd_input s' = []"
    by (rule cons_getc_fifo) (simp_all add: blank_console_def ring_ok_def pending_def t del: typed.simps)
  then show ?thesis by auto
qed

end
