(* ===== verification/Commands.thy ===== *)
theory Commands
  imports Syscall Printfmt
begin

text \<open>
  The commands of the kernel command prompt, kern/command_prompt.c, and their interpreter.  The
  command line and the words in it are in a memory of their own, the stack of the prompt.  What a
  command prints is its list of calls of \<open>cprintf\<close>.  Accesses to the memory of a program go through its
  page directory, which is loaded for that time.
\<close>

unbundle bit_operations_syntax

section \<open>Output, arguments, and what comes from outside\<close>

datatype printed = Num uint32 | Str string | Chr uint8

type_synonym print = "string \<times> printed list"

text \<open>
  The images of the programs, the addresses of the linker, the line the user types when a command
  asks for one, and the self tests of the kernel heap.
\<close>

record machine =
  images :: "string \<Rightarrow> uint32 \<times> Elf"
  start_of_kernel :: uint32
  end_of_kernel_code_section :: uint32
  start_of_uninitialized_data_section :: uint32
  end_of_kernel :: uint32
  answer :: "uint32 list"
  self_test :: "string \<Rightarrow> (kstate, print list) M"

type_synonym command = "machine \<Rightarrow> memory \<Rightarrow> uint32 list \<Rightarrow> (kstate, int \<times> print list) M"

definition tabs :: "nat \<Rightarrow> string" where
  "tabs n = replicate n (CHR 0x09)"

text \<open>The pointer behind the last argument is null; those behind that were never set.\<close>

definition argument :: "uint32 list \<Rightarrow> nat \<Rightarrow> (kstate, uint32) M" where
  "argument args i = (if i < length args then ret (args ! i)
     else if i = length args then raise NullDeref else raise BadAddress)"

definition number :: "memory \<Rightarrow> uint32 list \<Rightarrow> nat \<Rightarrow> int \<Rightarrow> (kstate, uint32) M" where
  "number m args i base = bnd (argument args i) (\<lambda>p.
     case strtol m p base of None \<Rightarrow> raise OutOfFuel | Some (v, _) \<Rightarrow> ret v)"

definition string_of :: "memory \<Rightarrow> uint32 \<Rightarrow> (kstate, string) M" where
  "string_of m p = (case strlen m p of None \<Rightarrow> raise OutOfFuel
     | Some n \<Rightarrow> ret (map (\<lambda>i. char_of (unat (m (p + of_nat i)))) [0..<unat n]))"

definition finished :: "print list \<Rightarrow> (kstate, int \<times> print list) M" where
  "finished out = ret (0, out)"

text \<open>The environment with the id of the first argument.\<close>

definition named_env :: "memory \<Rightarrow> uint32 list \<Rightarrow> (kstate, nat option) M" where
  "named_env m args = bnd (number m args 1 10) (\<lambda>envId. bnd (envid2env envId False) (\<lambda>(_, e). ret e))"

text \<open>On the page directory of the environment.\<close>

definition in_space :: "nat \<Rightarrow> (kstate, 'a) M \<Rightarrow> (kstate, 'a) M" where
  "in_space e body =
     bnd (gets current_cr3) (\<lambda>oldDir.
     seqm (modify (\<lambda>s. emit (Load_cr3 (env_cr3 (envs s e))) s))
     (bnd body (\<lambda>r. seqm (modify (emit (Load_cr3 oldDir))) (ret r))))"

text \<open>A loop that collects what it prints.\<close>

primrec collect :: "nat \<Rightarrow> nat \<Rightarrow> (nat \<Rightarrow> (kstate, 'b) M) \<Rightarrow> (kstate, 'b list) M" where
  "collect 0 lo body = ret []"
| "collect (Suc n) lo body = bnd (body lo) (\<lambda>x. bnd (collect n (Suc lo) body) (\<lambda>xs. ret (x # xs)))"

section \<open>Memory\<close>

definition command_writeusermem :: command where
  "command_writeusermem mach m args =
     bnd (named_env m args) (\<lambda>env.
     bnd (number m args 3 16) (\<lambda>address.
       case env of None \<Rightarrow> finished []
       | Some e \<Rightarrow> in_space e (bnd (argument args 2) (\<lambda>p.
           bnd (get_env e) (\<lambda>v. seqm (put_user_byte (env_page_directory v) address (m p)) (finished []))))))"

definition command_writemem_k :: command where
  "command_writemem_k mach m args =
     bnd (number m args 1 16) (\<lambda>a. let address = a + KERNEL_BASE in
     bnd (number m args 2 10) (\<lambda>sz.
     bnd (argument args 3) (\<lambda>p.
       case strlen m p of None \<Rightarrow> raise OutOfFuel
       | Some stringLen \<Rightarrow>
         bnd (gets ptr_page_directory) (\<lambda>pgdir.
         seqm (for_n (nat (sint sz)) 0 (\<lambda>c. for_n (nat (sint stringLen)) 0 (\<lambda>i.
             put_user_byte pgdir (address + of_nat c * stringLen + of_nat i) (m (p + of_nat i)))))
           (finished [])))))"

definition command_readusermem :: command where
  "command_readusermem mach m args =
     bnd (named_env m args) (\<lambda>env.
     bnd (number m args 2 16) (\<lambda>address.
       case env of None \<Rightarrow> finished []
       | Some e \<Rightarrow> in_space e (bnd (get_env e) (\<lambda>v.
           bnd (load_user_byte (env_page_directory v) address) (\<lambda>b.
             finished [(''value at address %x = %c\<newline>'', [Num address, Chr b])])))))"

definition command_readmem_k :: command where
  "command_readmem_k mach m args =
     bnd (number m args 1 16) (\<lambda>address.
     bnd (gets ptr_page_directory) (\<lambda>pgdir.
     bnd (get_page_table pgdir address) (\<lambda>_.
     bnd (number m args 2 10) (\<lambda>sz.
     bnd (collect (nat (sint sz)) 0 (\<lambda>i. bnd (load_user_byte pgdir (address + of_nat i)) (\<lambda>b. ret (''%c'', [Chr b])))) (\<lambda>out.
       finished (out @ [(''\<newline>'', [])]))))))"

definition command_readuserblock :: command where
  "command_readuserblock mach m args =
     bnd (named_env m args) (\<lambda>env.
     bnd (number m args 2 16) (\<lambda>address.
     bnd (number m args 3 10) (\<lambda>nBytes.
       case env of None \<Rightarrow> finished []
       | Some e \<Rightarrow> in_space e (bnd (get_env e) (\<lambda>v.
           bnd (collect (nat (sint nBytes)) 0 (\<lambda>i. let ptr = address + of_nat i in
             bnd (load_user_byte (env_page_directory v) ptr) (\<lambda>b.
               ret (''%08x : %02x  %c\<newline>'', [Num ptr, Num (ucast b), Chr b])))) finished)))))"

definition command_remove_table :: command where
  "command_remove_table mach m args =
     bnd (named_env m args) (\<lambda>env. case env of None \<Rightarrow> finished []
       | Some e \<Rightarrow>
         bnd (number m args 2 16) (\<lambda>va.
         bnd (get_env e) (\<lambda>v. let pgdir = env_page_directory v in
         bnd (load (word_at pgdir (PDX va))) (\<lambda>pde. let table_pa = pde AND 0xFFFFF000 in
         seqm (if \<not> CHECK_IF_KERNEL_ADDRESS va then bnd (kheap_virtual_address table_pa) kfree
               else bnd (to_frame_info table_pa) (\<lambda>fi.
                 seqm (modify (upd_frame fi (\<lambda>f. f\<lparr>references := 0\<rparr>))) (free_frame fi)))
         (seqm (update_word (word_at pgdir (PDX va)) (\<lambda>w. w AND NOT PERM_PRESENT))
         (seqm tlbflush (finished [])))))))"

definition command_allocuserpage :: command where
  "command_allocuserpage mach m args =
     bnd (named_env m args) (\<lambda>env. case env of None \<Rightarrow> finished []
       | Some e \<Rightarrow>
         bnd (number m args 2 16) (\<lambda>va.
         bnd (allocate_frame kmalloc) (\<lambda>fi.
         bnd (get_env e) (\<lambda>v.
         seqm (map_frame kmalloc (env_page_directory v) fi va (PERM_WRITEABLE OR PERM_USER)) (finished [])))))"

definition command_meminfo :: command where
  "command_meminfo mach m args =
     bnd calculate_available_frames (\<lambda>c.
       finished [(''Total available frames = %d\<newline>Free Buffered = %d\<newline>Free Not Buffered = %d\<newline>Modified = %d\<newline>'',
         [Num (of_nat (freeBuffered c + freeNotBuffered c + modified c)), Num (of_nat (freeBuffered c)),
          Num (of_nat (freeNotBuffered c)), Num (of_nat (modified c))])])"

section \<open>Programs\<close>

definition no_working_set :: "print list" where
  "no_working_set = [(''Error: Please specify a working set size in the third argument, aborting.\<newline>'', [])]"

definition create_named :: "machine \<Rightarrow> memory \<Rightarrow> uint32 list \<Rightarrow> (kstate, nat option) M" where
  "create_named mach m args =
     bnd (argument args 1) (\<lambda>p. bnd (string_of m p) (\<lambda>name.
     bnd (number m args 2 10) (\<lambda>ws. env_create (images mach) name ws)))"

definition environment_id :: "nat \<Rightarrow> kstate \<Rightarrow> print" where
  "environment_id e s = (''\<newline>Environment Id= %d\<newline>'', [Num (env_id (envs s e))])"

definition command_run_program :: command where
  "command_run_program mach m args =
     (if length args < 3 then finished no_working_set
      else bnd (create_named mach m args) (\<lambda>env. case env of None \<Rightarrow> finished []
        | Some e \<Rightarrow> bnd (gets (environment_id e)) (\<lambda>out.
            seqm (sched_new_env (Some e))
            (bnd (get_env e) (\<lambda>v. seqm (sched_run_env (env_id v)) (finished [out]))))))"

definition command_kill_program :: command where
  "command_kill_program mach m args =
     bnd (number m args 1 10) (\<lambda>envId. seqm (sched_kill_env envId) (finished []))"

definition commnad_load_env :: command where
  "commnad_load_env mach m args =
     (if length args < 3 then finished no_working_set
      else bnd (create_named mach m args) (\<lambda>env. case env of None \<Rightarrow> finished []
        | Some e \<Rightarrow> seqm (sched_new_env (Some e)) (bnd (gets (environment_id e)) (\<lambda>out. finished [out]))))"

definition command_run_all :: command where
  "command_run_all mach m args = seqm sched_run_all (finished [])"

definition print_queue :: "string \<Rightarrow> string \<Rightarrow> nat list \<Rightarrow> kstate \<Rightarrow> print list" where
  "print_queue some none q s = (if q \<noteq> [] then (some, []) #
       map (\<lambda>e. (tabs 1 @ ''[%d] %s\<newline>'', [Num (env_id (envs s e)), Str (prog_name (envs s e))])) q
     else [(none, [])])"

definition sched_print_all :: "kstate \<Rightarrow> print list" where
  "sched_print_all s =
     (let line = (''================================================\<newline>'', []) in
      print_queue ''\<newline>The processes in NEW queue are:\<newline>'' ''\<newline>No processes in NEW queue\<newline>'' (env_new_queue s) s @ [line] @
      print_queue ''The processes in READY queue are:\<newline>'' ''No processes in READY queue\<newline>'' (env_ready_queue s) s @ [line] @
      print_queue ''The processes in EXIT queue are:\<newline>'' ''No processes in EXIT queue\<newline>'' (env_exit_queue s) s)"

definition command_print_all :: command where
  "command_print_all mach m args = bnd (gets sched_print_all) finished"

definition command_kill_all :: command where
  "command_kill_all mach m args = seqm sched_kill_all (finished [])"

section \<open>Strategies\<close>

definition now :: "(kstate, unit) M \<Rightarrow> string \<Rightarrow> (kstate, int \<times> print list) M" where
  "now action message = seqm action (finished [(message, [])])"

definition command_set_page_rep_LRU :: command where
  "command_set_page_rep_LRU mach m args =
     now (setPageReplacmentAlgorithm PG_REP_LRU) ''Page replacement algorithm is now LRU\<newline>''"

definition command_set_page_rep_CLOCK :: command where
  "command_set_page_rep_CLOCK mach m args =
     now (setPageReplacmentAlgorithm PG_REP_CLOCK) ''Page replacement algorithm is now CLOCK\<newline>''"

definition command_set_page_rep_FIFO :: command where
  "command_set_page_rep_FIFO mach m args =
     now (setPageReplacmentAlgorithm PG_REP_FIFO) ''Page replacement algorithm is now FIFO\<newline>''"

definition command_set_page_rep_ModifiedCLOCK :: command where
  "command_set_page_rep_ModifiedCLOCK mach m args =
     now (setPageReplacmentAlgorithm PG_REP_MODIFIEDCLOCK) ''Page replacement algorithm is now Modified CLOCK\<newline>''"

text \<open>The first test that answers yes decides what is printed.\<close>

fun print_first :: "((kstate, uint32) M \<times> string) list \<Rightarrow> string \<Rightarrow> (kstate, int \<times> print list) M" where
  "print_first [] undefined_message = finished [(undefined_message, [])]"
| "print_first ((test, message) # tests) undefined_message =
     bnd test (\<lambda>b. if b \<noteq> 0 then finished [(message, [])] else print_first tests undefined_message)"

definition command_print_page_rep :: command where
  "command_print_page_rep mach m args = print_first
     [(isPageReplacmentAlgorithm PG_REP_CLOCK, ''Page replacement algorithm is CLOCK\<newline>''),
      (isPageReplacmentAlgorithm PG_REP_LRU, ''Page replacement algorithm is LRU\<newline>''),
      (isPageReplacmentAlgorithm PG_REP_FIFO, ''Page replacement algorithm is FIFO\<newline>''),
      (isPageReplacmentAlgorithm PG_REP_MODIFIEDCLOCK, ''Page replacement algorithm is Modified CLOCK\<newline>'')]
     ''Page replacement algorithm is UNDEFINED\<newline>''"

definition command_set_uheap_plac_FIRSTFIT :: command where
  "command_set_uheap_plac_FIRSTFIT mach m args =
     now (setUHeapPlacementStrategy UHP_PLACE_FIRSTFIT) ''User Heap placement strategy is now FIRST FIT\<newline>''"

definition command_set_uheap_plac_BESTFIT :: command where
  "command_set_uheap_plac_BESTFIT mach m args =
     now (setUHeapPlacementStrategy UHP_PLACE_BESTFIT) ''User Heap placement strategy is now BEST FIT\<newline>''"

definition command_set_uheap_plac_NEXTFIT :: command where
  "command_set_uheap_plac_NEXTFIT mach m args =
     now (setUHeapPlacementStrategy UHP_PLACE_NEXTFIT) ''User Heap placement strategy is now NEXT FIT\<newline>''"

definition command_set_uheap_plac_WORSTFIT :: command where
  "command_set_uheap_plac_WORSTFIT mach m args =
     now (setUHeapPlacementStrategy UHP_PLACE_WORSTFIT) ''User Heap placement strategy is now WORST FIT\<newline>''"

definition command_print_uheap_plac :: command where
  "command_print_uheap_plac mach m args = print_first
     [(isUHeapPlacementStrategy UHP_PLACE_FIRSTFIT, ''User Heap placement strategy is FIRST FIT\<newline>''),
      (isUHeapPlacementStrategy UHP_PLACE_BESTFIT, ''User Heap placement strategy is BEST FIT\<newline>''),
      (isUHeapPlacementStrategy UHP_PLACE_NEXTFIT, ''User Heap placement strategy is NEXT FIT\<newline>''),
      (isUHeapPlacementStrategy UHP_PLACE_WORSTFIT, ''User Heap placement strategy is WORST FIT\<newline>'')]
     ''User Heap placement strategy is UNDEFINED\<newline>''"

definition command_set_kheap_plac_CONTALLOC :: command where
  "command_set_kheap_plac_CONTALLOC mach m args =
     now (setKHeapPlacementStrategy PLACE_CONTALLOC) ''Kernel Heap placement strategy is now FIRST FIT\<newline>''"

definition command_set_kheap_plac_FIRSTFIT :: command where
  "command_set_kheap_plac_FIRSTFIT mach m args =
     now (setKHeapPlacementStrategy PLACE_FIRSTFIT) ''Kernel Heap placement strategy is now FIRST FIT\<newline>''"

definition command_set_kheap_plac_BESTFIT :: command where
  "command_set_kheap_plac_BESTFIT mach m args =
     now (setKHeapPlacementStrategy PLACE_BESTFIT) ''Kernel Heap placement strategy is now BEST FIT\<newline>''"

definition command_set_kheap_plac_NEXTFIT :: command where
  "command_set_kheap_plac_NEXTFIT mach m args =
     now (setKHeapPlacementStrategy PLACE_NEXTFIT) ''Kernel Heap placement strategy is now NEXT FIT\<newline>''"

definition command_set_kheap_plac_WORSTFIT :: command where
  "command_set_kheap_plac_WORSTFIT mach m args =
     now (setKHeapPlacementStrategy PLACE_WORSTFIT) ''Kernel Heap placement strategy is now WORST FIT\<newline>''"

definition command_print_kheap_plac :: command where
  "command_print_kheap_plac mach m args = print_first
     [(isKHeapPlacementStrategy PLACE_CONTALLOC, ''Kernel Heap placement strategy is CONTINUOUS ALLOCATION\<newline>''),
      (isKHeapPlacementStrategy PLACE_FIRSTFIT, ''Kernel Heap placement strategy is FIRST FIT\<newline>''),
      (isKHeapPlacementStrategy PLACE_BESTFIT, ''Kernel Heap placement strategy is BEST FIT\<newline>''),
      (isKHeapPlacementStrategy PLACE_NEXTFIT, ''Kernel Heap placement strategy is NEXT FIT\<newline>''),
      (isKHeapPlacementStrategy PLACE_WORSTFIT, ''Kernel Heap placement strategy is WORST FIT\<newline>'')]
     ''Kernel Heap placement strategy is UNDEFINED\<newline>''"

section \<open>Buffering\<close>

definition enable_first :: print where
  "enable_first = (''Buffering is not enabled. Please enable buffering first.\<newline>'', [])"

definition set_modified_buffer :: "uint32 \<Rightarrow> string \<Rightarrow> (kstate, int \<times> print list) M" where
  "set_modified_buffer enableIt message = bnd isBufferingEnabled (\<lambda>b.
     if b = 0 then finished [enable_first] else now (enableModifiedBuffer enableIt) message)"

definition command_disable_modified_buffer :: command where
  "command_disable_modified_buffer mach m args = set_modified_buffer 0 ''Modified Buffer is now DISABLED\<newline>''"

definition command_enable_modified_buffer :: command where
  "command_enable_modified_buffer mach m args = set_modified_buffer 1 ''Modified Buffer is now ENABLED\<newline>''"

definition command_disable_buffering :: command where
  "command_disable_buffering mach m args =
     seqm (enableBuffering 0) (now (enableModifiedBuffer 0) ''Buffering is now DISABLED\<newline>'')"

text \<open>The line for the length goes to a buffer of 100 bytes; \<open>readline\<close> does not know its size.\<close>

definition ask_length :: "machine \<Rightarrow> (kstate, uint32) M" where
  "ask_length mach = (case readline 0 (answer mach) (\<lambda>_. 0) of None \<Rightarrow> raise OutOfFuel
     | Some (m, _) \<Rightarrow> (case strtol m 0 10 of None \<Rightarrow> raise OutOfFuel | Some (v, _) \<Rightarrow> ret v))"

definition length_updated :: "(kstate, print) M" where
  "length_updated = bnd getModifiedBufferLength (\<lambda>n. ret (''Modified buffer length updated = %d\<newline>'', [Num n]))"

definition command_enable_buffering :: command where
  "command_enable_buffering mach m args =
     seqm (enableBuffering 1)
     (seqm (enableModifiedBuffer 1)
     (bnd getModifiedBufferLength (\<lambda>n.
      bnd (if n = 0 then
             bnd (ask_length mach) (\<lambda>v. seqm (setModifiedBufferLength v) (bnd length_updated (\<lambda>u.
               ret [(''Modified buffer enabled but with length = 0\<newline>'', []),
                    (''Please enter the modified buff length = '', []), u])))
           else ret [])
        (\<lambda>out. finished (out @ [(''Buffering is now ENABLED\<newline>'', [])])))))"

text \<open>The warnings of the next two commands do not stop them.\<close>

definition buffering_warning :: "(kstate, print list) M" where
  "buffering_warning = bnd isBufferingEnabled (\<lambda>b.
     if b = 0 then ret [(''Buffering is not enabled. Please enable buffering to use the modified buffer.\<newline>'', [])]
     else bnd isModifiedBufferEnabled (\<lambda>mb.
       if mb = 0 then ret [(''Modified Buffering is not enabled. Please enable modified buffering.\<newline>'', [])] else ret []))"

definition command_set_modified_buffer_length :: command where
  "command_set_modified_buffer_length mach m args =
     bnd buffering_warning (\<lambda>w.
     bnd (number m args 1 10) (\<lambda>v.
     seqm (setModifiedBufferLength v) (bnd length_updated (\<lambda>u. finished (w @ [u])))))"

definition command_get_modified_buffer_length :: command where
  "command_get_modified_buffer_length mach m args =
     bnd buffering_warning (\<lambda>w. bnd getModifiedBufferLength (\<lambda>n.
       finished (w @ [(''Modified buffer length = %d\<newline>'', [Num n])])))"

section \<open>Information and tests\<close>

definition command_kernel_info :: command where
  "command_kernel_info mach m args =
     (let sym = (\<lambda>name a. (name, [Num a, Num (a - KERNEL_BASE)])) in
      finished [(''Special kernel symbols:\<newline>'', []),
        sym (''  Start Address of the kernel '' @ tabs 3 @ ''%08x (virt)  %08x (phys)\<newline>'') (start_of_kernel mach),
        sym (''  End address of kernel code  '' @ tabs 3 @ ''%08x (virt)  %08x (phys)\<newline>'') (end_of_kernel_code_section mach),
        sym (''  Start addr. of uninitialized data section '' @ tabs 1 @ ''%08x (virt)  %08x (phys)\<newline>'') (start_of_uninitialized_data_section mach),
        sym (''  End address of the kernel   '' @ tabs 3 @ ''%08x (virt)  %08x (phys)\<newline>'') (end_of_kernel mach),
        (''Kernel executable memory footprint: %d KB\<newline>'',
          [Num (of_int (sint (end_of_kernel mach - start_of_kernel mach + 1023) sdiv 1024))])])"

definition run_test :: "machine \<Rightarrow> string \<Rightarrow> (kstate, int \<times> print list) M" where
  "run_test mach name = bnd (self_test mach name) finished"

definition need_number :: "string \<Rightarrow> print list" where
  "need_number strategy = [(''Error: [Kernel.'' @ strategy @ ''] must specify the test number (1 or 2) as an argument\<newline>'', [])]"

definition command_test_kmalloc :: command where
  "command_test_kmalloc mach m args =
     bnd (if length args = 2 then number m args 1 10 else ret 0) (\<lambda>testNum.
     bnd (gets KHeapPlacementStrategy) (\<lambda>st. case st of
         PLACE_CONTALLOC \<Rightarrow> run_test mach ''test_kmalloc''
       | PLACE_NEXTFIT \<Rightarrow> run_test mach ''test_kmalloc_nextfit''
       | PLACE_BESTFIT \<Rightarrow> (if testNum = 0 then finished (need_number ''BestFit'') else finished [])
       | PLACE_FIRSTFIT \<Rightarrow> (if testNum = 0 then finished (need_number ''FirstFit'')
           else if testNum = 1 then run_test mach ''test_kmalloc_firstfit1''
           else if testNum = 2 then run_test mach ''test_kmalloc_firstfit2'' else finished [])
       | PLACE_WORSTFIT \<Rightarrow> finished []))"

definition command_test_kfree :: command where
  "command_test_kfree mach m args = run_test mach ''test_kfree''"

definition command_test_kheap_phys_addr :: command where
  "command_test_kheap_phys_addr mach m args = run_test mach ''test_kheap_phys_addr''"

definition command_test_kheap_virt_addr :: command where
  "command_test_kheap_virt_addr mach m args = run_test mach ''test_kheap_virt_addr''"

definition command_test_three_creation_functions :: command where
  "command_test_three_creation_functions mach m args = run_test mach ''test_three_creation_functions''"

definition command_test_krealloc :: command where
  "command_test_krealloc mach m args = run_test mach ''test_krealloc''"

section \<open>The table and the interpreter\<close>

definition other_commands :: "(string \<times> string \<times> command) list" where
  "other_commands = [
    (''kernel_info'', ''Display information about the kernel'', command_kernel_info),
    (''wum'', ''writes one byte to specific location in given environment'', command_writeusermem),
    (''rum'', ''reads one byte from specific location in given environment'', command_readusermem),
    (''wm'', ''writes one byte to specific location'', command_writemem_k),
    (''rm'', ''reads one byte from specific location'', command_readmem_k),
    (''rub'', ''reads block of bytes from specific location in given environment'', command_readuserblock),
    (''kill'', ''kill the given environment (by its ID) from the system'', command_kill_program),
    (''rut'', '''', command_remove_table),
    (''aup'', '''', command_allocuserpage),
    (''meminfo'', '''', command_meminfo),
    (''run'', ''runs a single user program'', command_run_program),
    (''load'', ''load a single user program to mem with status = NEW'', commnad_load_env),
    (''runall'', ''run all loaded programs'', command_run_all),
    (''printall'', ''print all loaded programs'', command_print_all),
    (''killall'', ''kill all environments in the system'', command_kill_all),
    (''lru'', ''set replacement algorithm to LRU'', command_set_page_rep_LRU),
    (''fifo'', ''set replacement algorithm to FIFO'', command_set_page_rep_FIFO),
    (''clock'', ''set replacement algorithm to CLOCK'', command_set_page_rep_CLOCK),
    (''modifiedclock'', ''set replacement algorithm to modified CLOCK'', command_set_page_rep_ModifiedCLOCK),
    (''rep?'', ''print current replacement algorithm'', command_print_page_rep),
    (''uhfirstfit'', ''set USER heap placement strategy to FIRST FIT'', command_set_uheap_plac_FIRSTFIT),
    (''uhbestfit'', ''set USER heap placement strategy to BEST FIT'', command_set_uheap_plac_BESTFIT),
    (''uhnextfit'', ''set USER heap placement strategy to NEXT FIT'', command_set_uheap_plac_NEXTFIT),
    (''uhworstfit'', ''set USER heap placement strategy to WORST FIT'', command_set_uheap_plac_WORSTFIT),
    (''uheap?'', ''print current USER heap placement strategy'', command_print_uheap_plac),
    (''khcontalloc'', ''set KERNEL heap placement strategy to CONTINUOUS ALLOCATION'', command_set_kheap_plac_CONTALLOC),
    (''khfirstfit'', ''set KERNEL heap placement strategy to FIRST FIT'', command_set_kheap_plac_FIRSTFIT),
    (''khbestfit'', ''set KERNEL heap placement strategy to BEST FIT'', command_set_kheap_plac_BESTFIT),
    (''khnextfit'', ''set KERNEL heap placement strategy to NEXT FIT'', command_set_kheap_plac_NEXTFIT),
    (''khworstfit'', ''set KERNEL heap placement strategy to WORST FIT'', command_set_kheap_plac_WORSTFIT),
    (''kheap?'', ''print current KERNEL heap placement strategy'', command_print_kheap_plac),
    (''nobuff'', '''', command_disable_buffering),
    (''buff'', '''', command_enable_buffering),
    (''nomodbuff'', '''', command_disable_modified_buffer),
    (''modbuff'', '''', command_enable_modified_buffer),
    (''modbufflength?'', '''', command_get_modified_buffer_length),
    (''modbufflength'', '''', command_set_modified_buffer_length),
    (''tstkmalloc'', ''Kernel Heap: test kmalloc (return address, size, mem access...etc)'', command_test_kmalloc),
    (''tstkfree'', ''Kernel Heap: test kfree (freed frames, mem access...etc)'', command_test_kfree),
    (''tstkphysaddr'', ''Kernel Heap: test kheap_phys_addr'', command_test_kheap_phys_addr),
    (''tstkvirtaddr'', ''Kernel Heap: test kheap_virt_addr'', command_test_kheap_virt_addr),
    (''tst3functions'', ''Env Load: test the creation of new dir, tables and pages WS'', command_test_three_creation_functions),
    (''tstkrealloc'', ''Kernel realloc: test realloc (virtual address = 0)'', command_test_krealloc)]"

text \<open>\<open>help\<close> prints the table it is in: the list of its names and descriptions.\<close>

definition command_help :: command where
  "command_help mach m args =
     finished ((''%s - %s\<newline>'', [Str ''help'', Str ''Display this list of commands'']) #
       map (\<lambda>(name, description, _). (''%s - %s\<newline>'', [Str name, Str description])) other_commands @
       [(''-------------------\<newline>'', [])] @
       map (\<lambda>(name, desc, _). (''run %s - %s [User Program]\<newline>'', [Str name, Str desc])) userPrograms)"

definition commands :: "(string \<times> string \<times> command) list" where
  "commands = (''help'', ''Display this list of commands'', command_help) # other_commands"

definition NUM_OF_COMMANDS :: nat where
  "NUM_OF_COMMANDS = length commands"

text \<open>\<open>WHITESPACE\<close> is a string constant at \<open>sep\<close>.\<close>

definition execute_command :: "machine \<Rightarrow> memory \<Rightarrow> uint32 \<Rightarrow> uint32 \<Rightarrow> (kstate, int \<times> print list) M" where
  "execute_command mach m sep command_string =
     (case strsplit m command_string sep of None \<Rightarrow> raise OutOfFuel
      | Some (m, arguments, _) \<Rightarrow>
        if arguments = [] then finished []
        else bnd (string_of m (arguments ! 0)) (\<lambda>name.
          case find (\<lambda>c. fst c = name) commands of
            Some (_, _, function_to_execute) \<Rightarrow> function_to_execute mach m arguments
          | None \<Rightarrow> finished [(''Unknown command '' @ [CHR 0x27] @ ''%s'' @ [CHR 0x27] @ ''\<newline>'', [Str name])]))"

end
