(* ===== verification/Split_Props.thy ===== *)
theory Split_Props
  imports Cstring
begin

text \<open>
  \<open>strsplit\<close> of lib/string.c cuts a line into the words between its separators.
\<close>

section \<open>Words of a line\<close>

function split_words :: "uint8 set \<Rightarrow> uint8 list \<Rightarrow> uint8 list list" where
  "split_words ss xs = (case dropWhile (\<lambda>c. c \<in> ss) xs of [] \<Rightarrow> []
     | y # ys \<Rightarrow> (y # takeWhile (\<lambda>c. c \<notin> ss) ys) # split_words ss (dropWhile (\<lambda>c. c \<notin> ss) ys))"
  by pat_completeness auto
termination
proof (relation "measure (\<lambda>(ss, xs). length xs)")
  fix ss :: "uint8 set" and xs y ys
  assume "dropWhile (\<lambda>c. c \<in> ss) xs = y # ys"
  with length_dropWhile_le[of "\<lambda>c. c \<in> ss" xs] have "length ys < length xs" by simp
  then show "((ss, dropWhile (\<lambda>c. c \<notin> ss) ys), ss, xs) \<in> measure (\<lambda>(ss, xs). length xs)"
    using length_dropWhile_le[of "\<lambda>c. c \<notin> ss" ys] by simp
qed simp

declare split_words.simps [simp del]

section \<open>Strings in memory\<close>

lemma of_nat_eq_32:
  assumes "i < 2 ^ 32" and "j < 2 ^ 32"
  shows "s + of_nat i = s + (of_nat j :: uint32) \<longleftrightarrow> i = j"
proof
  assume "s + of_nat i = s + (of_nat j :: uint32)"
  then have "unat (of_nat i :: uint32) = unat (of_nat j :: uint32)" by simp
  then show "i = j" using assms by (simp add: unat_of_nat_small)
qed simp

text \<open>The bytes of a string, and a change of memory that does not touch it.\<close>

lemma string_at_nth: "string_at m s xs \<longleftrightarrow> (\<forall>i < length xs. m (s + of_nat i) = xs ! i \<and> xs ! i \<noteq> 0) \<and> m (s + of_nat (length xs)) = 0"
proof (induction xs arbitrary: s)
  case (Cons x xs)
  have "(\<forall>i < length (x # xs). m (s + of_nat i) = (x # xs) ! i \<and> (x # xs) ! i \<noteq> 0) \<longleftrightarrow>
    m s = x \<and> x \<noteq> 0 \<and> (\<forall>i < length xs. m (s + 1 + of_nat i) = xs ! i \<and> xs ! i \<noteq> 0)"
    by (simp add: All_less_Suc2 add.assoc)
  then show ?case using Cons[of "s + 1"] by (simp add: add.assoc) blast
qed simp

lemma string_at_cong: "(\<And>i. i \<le> length xs \<Longrightarrow> m' (s + of_nat i) = m (s + of_nat i)) \<Longrightarrow> string_at m' s xs = string_at m s xs"
  unfolding string_at_nth by (metis less_imp_le order_refl)

lemma string_at_drop:
  assumes "string_at m s (xs @ ys)"
  shows "string_at m (s + of_nat (length xs)) ys"
  unfolding string_at_nth
proof (intro conjI allI impI)
  fix i assume "i < length ys"
  with assms[unfolded string_at_nth] show "m (s + of_nat (length xs) + of_nat i) = ys ! i" "ys ! i \<noteq> 0"
    by (metis (no_types, lifting) add.assoc length_append nat_add_left_cancel_less nth_append_length_plus of_nat_add)+
next
  show "m (s + of_nat (length xs) + of_nat (length ys)) = 0"
    using assms by (simp add: string_at_nth add.assoc)
qed

section \<open>The separators\<close>

text \<open>The separators are a string at \<open>q\<close> that does not reach the end of memory.\<close>

definition separators :: "memory \<Rightarrow> uint32 \<Rightarrow> uint8 list \<Rightarrow> bool" where
  "separators m q seps \<longleftrightarrow> string_at m q seps \<and> q \<noteq> 0 \<and> unat q + length seps < 2 ^ 32"

lemma strchr_string:
  "string_at m q seps \<Longrightarrow> q \<noteq> 0 \<Longrightarrow> unat q + length seps < 2 ^ 32 \<Longrightarrow>
   \<exists>p. strchr m q c = Some p \<and> (p \<noteq> 0 \<longleftrightarrow> c \<in> set seps)"
proof (induction seps arbitrary: q)
  case Nil
  then show ?case by (subst strchr.simps) simp
next
  case (Cons x seps)
  have "unat (q + 1) = unat q + 1" using Cons.prems(3) by (subst word_add_le_unat) simp_all
  then have "q + 1 \<noteq> 0" "unat (q + 1) + length seps < 2 ^ 32" using Cons.prems(3) by (auto simp: unat_eq_zero[symmetric])
  with Cons.IH[of "q + 1"] Cons.prems show ?case by (subst strchr.simps) auto
qed

lemma at_split_set: "separators m q seps \<Longrightarrow> at_split m q s = Some (m s \<noteq> 0 \<and> m s \<in> set seps)"
  using strchr_string[of m q seps "m s"] by (auto simp: separators_def at_split_def)

lemma separators_cong:
  "separators m q seps \<Longrightarrow> (\<And>i. i \<le> length seps \<Longrightarrow> m' (q + of_nat i) = m (q + of_nat i)) \<Longrightarrow> separators m' q seps"
  unfolding separators_def using string_at_cong by blast

text \<open>The line and the separators do not overlap; what changes the line leaves the separators.\<close>

definition apart :: "uint32 \<Rightarrow> nat \<Rightarrow> uint32 \<Rightarrow> nat \<Rightarrow> bool" where
  "apart s n q k \<longleftrightarrow> (\<forall>i \<le> n. \<forall>j \<le> k. s + of_nat i \<noteq> q + of_nat j)"

definition changes_only :: "uint32 \<Rightarrow> nat \<Rightarrow> memory \<Rightarrow> memory \<Rightarrow> bool" where
  "changes_only s n m m' \<longleftrightarrow> (\<forall>a. (\<forall>i < n. a \<noteq> s + of_nat i) \<longrightarrow> m' a = m a)"

lemma separators_kept:
  "separators m q seps \<Longrightarrow> changes_only s n m m' \<Longrightarrow> apart s n q (length seps) \<Longrightarrow> separators m' q seps"
proof (erule separators_cong)
  fix i assume c: "changes_only s n m m'" "apart s n q (length seps)" "i \<le> length seps"
  then have "\<forall>j < n. q + of_nat i \<noteq> s + of_nat j" unfolding apart_def by (metis less_imp_le)
  with c(1) show "m' (q + of_nat i) = m (q + of_nat i)" unfolding changes_only_def by blast
qed

lemma apart_suffix:
  assumes "apart s (n + k) q l"
  shows "apart (s + of_nat k) n q l"
  unfolding apart_def
proof (intro allI impI)
  fix i j assume "i \<le> n" "j \<le> l"
  with assms[unfolded apart_def, rule_format, of "k + i" j] show "s + of_nat k + of_nat i \<noteq> q + of_nat j"
    by (simp add: add.assoc)
qed

lemma changes_only_trans:
  "changes_only s n m m' \<Longrightarrow> changes_only (s + of_nat n) k m' m'' \<Longrightarrow> changes_only s (n + k) m m''"
proof -
  assume c: "changes_only s n m m'" "changes_only (s + of_nat n) k m' m''"
  show "changes_only s (n + k) m m''"
    unfolding changes_only_def
  proof (intro allI impI)
    fix a assume a: "\<forall>i < n + k. a \<noteq> s + of_nat i"
    then have "\<forall>i < n. a \<noteq> s + of_nat i" by simp
    moreover have "\<forall>i < k. a \<noteq> s + of_nat n + of_nat i"
    proof (intro allI impI)
      fix i assume "i < k"
      with a[rule_format, of "n + i"] show "a \<noteq> s + of_nat n + of_nat i" by (simp add: add.assoc)
    qed
    ultimately show "m'' a = m a" using c unfolding changes_only_def by metis
  qed
qed

lemma changes_only_outside:
  assumes "changes_only s n m m'" and "n \<le> i" and "i < 2 ^ 32"
  shows "m' (s + of_nat i) = m (s + of_nat i)"
proof -
  have "\<forall>j < n. s + of_nat i \<noteq> s + of_nat j" using assms(2,3) of_nat_eq_32[of i _ s] by auto
  with assms(1) show ?thesis unfolding changes_only_def by blast
qed

lemma string_after:
  assumes "changes_only s n m m'" and "string_at m (s + of_nat n) xs" and "n + length xs < 2 ^ 32"
  shows "string_at m' (s + of_nat n) xs"
proof -
  have "m' (s + of_nat n + of_nat i) = m (s + of_nat n + of_nat i)" if "i \<le> length xs" for i
    using changes_only_outside[OF assms(1), of "n + i"] that assms(3) by (simp add: add.assoc)
  then show ?thesis using assms(2) by (subst string_at_cong) simp_all
qed

text \<open>Leading separators become null bytes.\<close>

lemma trim_split_spec:
  assumes "string_at m s xs" and "separators m q seps" and "apart s (length xs) q (length seps)" and "length xs < 2 ^ 32"
    and "k = length (takeWhile (\<lambda>c. c \<in> set seps) xs)"
  shows "\<exists>m'. trim_split m q s = Some (m', s + of_nat k) \<and> changes_only s k m m' \<and> (0 < k \<longrightarrow> m' s = 0)"
  using assms
proof (induction xs arbitrary: m s k)
  case Nil
  then have "trim_split m q s = Some (m, s)" by (subst trim_split.simps) (simp add: at_split_set)
  with Nil show ?case by (simp add: changes_only_def)
next
  case (Cons x xs)
  have x: "m s = x" "x \<noteq> 0" "string_at m (s + 1) xs" using Cons.prems(1) by simp_all
  show ?case
  proof (cases "x \<in> set seps")
    case False
    then have "trim_split m q s = Some (m, s)" using x by (subst trim_split.simps) (simp add: at_split_set[OF Cons.prems(2)])
    with False Cons.prems(5) show ?thesis by (simp add: changes_only_def)
  next
    case True
    define m1 where "m1 = m(s := 0)"
    have step: "trim_split m q s = trim_split m1 q (s + 1)"
      using x True by (subst trim_split.simps) (simp add: at_split_set[OF Cons.prems(2)] m1_def)
    have c: "changes_only s 1 m m1" by (simp add: changes_only_def m1_def)
    have "string_at m1 (s + of_nat 1) xs" using c by (rule string_after) (use x Cons.prems(4) in simp_all)
    moreover have "separators m1 q seps"
      using Cons.prems(2) c by (rule separators_kept) (use Cons.prems(3) in \<open>auto simp: apart_def\<close>)
    moreover have "apart (s + of_nat 1) (length xs) q (length seps)" by (rule apart_suffix) (use Cons.prems(3) in simp)
    ultimately obtain m' where m': "trim_split m1 q (s + 1) = Some (m', s + 1 + of_nat (k - 1))"
      "changes_only (s + 1) (k - 1) m1 m'"
      using Cons.IH[of "m1" "s + 1" "k - 1"] Cons.prems(4,5) True by auto
    have k: "0 < k" using Cons.prems(5) True by simp
    then have "of_nat k = (1 :: uint32) + of_nat (k - 1)" by (simp add: of_nat_diff)
    moreover have "changes_only s (1 + (k - 1)) m m'" using c by (rule changes_only_trans) (use m'(2) in simp)
    moreover have "m' s = 0"
    proof -
      have "length (takeWhile (\<lambda>c. c \<in> set seps) xs) \<le> length xs" by (rule length_takeWhile_le)
      then have "k \<le> length xs + 1" using Cons.prems(5) True by simp
      then have "\<forall>i < k - 1. s \<noteq> s + 1 + of_nat i"
        using of_nat_eq_32[of 0 "Suc _" s] Cons.prems(4) by (auto simp: add.assoc)
      then show ?thesis using m'(2) by (simp add: changes_only_def m1_def)
    qed
    ultimately show ?thesis using step m'(1) k by (simp add: add.assoc)
  qed
qed

lemma skip_word_spec:
  assumes "string_at m s xs" and "separators m q seps"
  shows "skip_word m q s = Some (s + of_nat (length (takeWhile (\<lambda>c. c \<notin> set seps) xs)))"
  using assms
proof (induction xs arbitrary: s)
  case Nil
  then show ?case by (subst skip_word.simps) (simp add: at_split_set)
next
  case (Cons x xs)
  then show ?case by (subst skip_word.simps) (simp add: at_split_set add.assoc)
qed

lemma split_words_step:
  "split_words ss xs = (let ys = dropWhile (\<lambda>c. c \<in> ss) xs in
     if ys = [] then [] else takeWhile (\<lambda>c. c \<notin> ss) ys # split_words ss (dropWhile (\<lambda>c. c \<notin> ss) ys))"
proof (cases "dropWhile (\<lambda>c. c \<in> ss) xs")
  case (Cons y ys)
  then have "y \<notin> ss" by (metis dropWhile_eq_Cons_conv)
  with Cons show ?thesis by (subst split_words.simps) simp
next
  case Nil
  show ?thesis by (subst split_words.simps) (simp only: Nil list.case Let_def refl if_True)
qed

text \<open>
  The loop, from a place where the line still has \<open>xs\<close>, with \<open>argv\<close> the words found so far: the last of
  them is terminated by the next step, since \<open>xs\<close> is at an end or at a separator.
\<close>

lemma strsplit_go_spec:
  assumes "string_at m s xs" and "separators m q seps" and "apart s (length xs) q (length seps)" and "length xs < 2 ^ 32"
    and "length argv \<le> 15" and "ws = split_words (set seps) xs"
  shows "\<exists>m' args. strsplit_go m s q argv = Some (m', argv @ args, if length argv + length ws \<le> 15 then 1 else 0) \<and>
    list_all2 (string_at m') args (take (15 - length argv) ws) \<and> changes_only s (length xs) m m' \<and>
    (xs = [] \<or> hd xs \<in> set seps \<longrightarrow> m' s = 0)"
  using assms
proof (induction xs arbitrary: m s argv ws rule: length_induct)
  case (1 xs)
  let ?sep = "\<lambda>c. c \<in> set seps" and ?word = "\<lambda>c. c \<notin> set seps"
  note prems = 1(2-7)
  define k where "k = length (takeWhile ?sep xs)"
  define ys where "ys = dropWhile ?sep xs"
  have xs: "xs = takeWhile ?sep xs @ ys" by (simp add: ys_def)
  have len: "length xs = k + length ys" by (subst xs) (simp only: length_append k_def)
  from trim_split_spec[OF prems(1-4) k_def] obtain m1 where
    m1: "trim_split m q s = Some (m1, s + of_nat k)" "changes_only s k m m1" "0 < k \<longrightarrow> m1 s = 0" by blast
  have ys_m: "string_at m (s + of_nat k) ys" using string_at_drop[of m s "takeWhile ?sep xs" ys] prems(1) xs by (simp add: k_def)
  then have ys_at: "string_at m1 (s + of_nat k) ys" by (rule string_after[OF m1(2)]) (use len prems(4) in simp)
  have sep1: "separators m1 q seps"
    using prems(2) m1(2) by (rule separators_kept) (use prems(3) len in \<open>auto simp: apart_def\<close>)
  have ap1: "apart (s + of_nat k) (length ys) q (length seps)" by (rule apart_suffix) (use prems(3) len in \<open>simp add: add.commute\<close>)
  have k0: "k = 0 \<Longrightarrow> xs = [] \<or> hd xs \<in> set seps \<Longrightarrow> xs = []" by (cases xs) (auto simp: k_def)
  have wide: "changes_only s k m m1 \<Longrightarrow> changes_only s (length xs) m m1" unfolding changes_only_def len by simp
  show ?case
  proof (cases "ys = []")
    case True
    then have "m1 (s + of_nat k) = 0" using ys_at by simp
    moreover have "ws = []" using True prems(6) by (subst (asm) split_words_step) (simp add: ys_def Let_def)
    moreover have "m1 s = 0" if "xs = [] \<or> hd xs \<in> set seps"
      using k0[OF _ that] m1(3) prems(1) m1(2) by (cases "k = 0") (auto simp: changes_only_def)
    ultimately show ?thesis using m1 wide prems(5) by (subst strsplit_go.simps) (auto intro!: exI[of _ "[]"])
  next
    case False
    then obtain y zs where y: "ys = y # zs" by (cases ys) auto
    then have yw: "y \<notin> set seps" unfolding ys_def by (metis dropWhile_eq_Cons_conv)
    have ws: "ws = takeWhile ?word ys # split_words (set seps) (dropWhile ?word ys)"
      using False prems(6) by (subst (asm) split_words_step) (simp add: ys_def[symmetric] Let_def)
    have nz: "m1 (s + of_nat k) \<noteq> 0" using ys_at y by simp
    have start: "m' s = 0" if "xs = [] \<or> hd xs \<in> set seps" "\<forall>i < length ys. s \<noteq> s + of_nat k + of_nat i \<Longrightarrow> m' s = m1 s" for m'
    proof -
      have "xs \<noteq> []" using xs False by auto
      then have "0 < k" using k0[OF _ that(1)] by auto
      moreover have "\<forall>i < length ys. s \<noteq> s + of_nat k + of_nat i"
        using of_nat_eq_32[of 0 "k + _" s] len prems(4) \<open>0 < k\<close> by (auto simp: add.assoc)
      ultimately show ?thesis using that(2) m1(3) by simp
    qed
    show ?thesis
    proof (cases "length argv = 15")
      case True
      then have "strsplit_go m s q argv = Some (m1, argv, 0)"
        using m1(1) nz by (subst strsplit_go.simps) (simp add: MAX_ARGUMENTS_def)
      then show ?thesis using True ws wide[OF m1(2)] start[of m1] by (auto intro!: exI[of _ "[]"])
    next
      case argv: False
      define w where "w = takeWhile ?word ys"
      define rest where "rest = dropWhile ?word ys"
      have ys_w: "ys = w @ rest" by (simp add: w_def rest_def)
      have wl: "0 < length w" using y yw by (simp add: w_def)
      have len_y: "length ys = length w + length rest" using ys_w by (metis length_append)
      define s' where "s' = s + of_nat k + of_nat (length w)"
      have "skip_word m1 q (s + of_nat k) = Some s'" unfolding s'_def w_def by (rule skip_word_spec[OF ys_at sep1])
      then have step: "strsplit_go m s q argv = strsplit_go m1 s' q (argv @ [s + of_nat k])"
        using m1(1) nz argv by (subst strsplit_go.simps) (simp add: MAX_ARGUMENTS_def)
      have r1: "string_at m1 s' rest" unfolding s'_def using string_at_drop ys_at ys_w by metis
      have r2: "apart s' (length rest) q (length seps)" unfolding s'_def by (rule apart_suffix) (use ap1 len_y in \<open>simp add: add.commute\<close>)
      have r3: "length rest < length xs" "length rest < 2 ^ 32" "length (argv @ [s + of_nat k]) \<le> 15"
        using len len_y wl prems(4,5) argv by auto
      from 1(1)[rule_format, OF r3(1) r1 sep1 r2 r3(2,3) refl] obtain m' args where
        rec: "strsplit_go m1 s' q (argv @ [s + of_nat k]) = Some (m', argv @ [s + of_nat k] @ args,
            if length (argv @ [s + of_nat k]) + length (split_words (set seps) rest) \<le> 15 then 1 else 0)"
        and args: "list_all2 (string_at m') args (take (15 - length (argv @ [s + of_nat k])) (split_words (set seps) rest))"
        and c: "changes_only s' (length rest) m1 m'" and z: "rest = [] \<or> hd rest \<in> set seps \<longrightarrow> m' s' = 0" by auto
      have c': "changes_only s (length xs) m m'"
      proof -
        have "changes_only (s + of_nat k) (length w + length rest) m1 m'"
          by (rule changes_only_trans[of _ _ m1 m1]) (use c in \<open>simp_all add: s'_def changes_only_def\<close>)
        then have "changes_only s (k + (length w + length rest)) m m'" by (rule changes_only_trans[OF m1(2)])
        then show ?thesis using len len_y by simp
      qed
      have "rest = [] \<or> hd rest \<in> set seps" using hd_dropWhile[of ?word ys] by (auto simp: rest_def)
      with z have z': "m' s' = 0" by simp
      have same: "m' (s + of_nat k + of_nat i) = m1 (s + of_nat k + of_nat i)" if "i < length w" for i
      proof -
        have "s + of_nat k + of_nat i \<noteq> s' + of_nat j" if "j < length rest" for j
          using of_nat_eq_32[of i "length w + j" "s + of_nat k"] \<open>i < length w\<close> that len len_y prems(4)
          by (simp add: s'_def add.assoc)
        with c show ?thesis unfolding changes_only_def by blast
      qed
      have "string_at m' (s + of_nat k) w"
        unfolding string_at_nth
      proof (intro conjI allI impI)
        fix i assume i: "i < length w"
        then have "m1 (s + of_nat k + of_nat i) = ys ! i \<and> ys ! i \<noteq> 0" using ys_at len_y unfolding string_at_nth by simp
        moreover have "ys ! i = w ! i" using i ys_w by (simp add: nth_append)
        ultimately show "m' (s + of_nat k + of_nat i) = w ! i" "w ! i \<noteq> 0" using same[OF i] by auto
      next
        show "m' (s + of_nat k + of_nat (length w)) = 0" using z' by (simp add: s'_def)
      qed
      moreover have "m' s = 0" if "xs = [] \<or> hd xs \<in> set seps"
      proof (rule start[OF that])
        assume o: "\<forall>i < length ys. s \<noteq> s + of_nat k + of_nat i"
        have "s \<noteq> s' + of_nat j" if "j < length rest" for j
          using o[rule_format, of "length w + j"] that len_y by (simp add: s'_def add.assoc)
        with c show "m' s = m1 s" unfolding changes_only_def by blast
      qed
      moreover have "15 - length argv = Suc (15 - length (argv @ [s + of_nat k]))" using r3(3) by simp
      ultimately show ?thesis using step rec args c' ws by (auto simp: w_def[symmetric] rest_def[symmetric] intro!: exI[of _ "(s + of_nat k) # args"])
    qed
  qed
qed

text \<open>C27: \<open>strsplit\<close> ends on every line and finds its words: \<open>argv\<close> points to the words between separators, at most
  fifteen, each terminated by a null byte; the result says whether there were no more, and only bytes
  of the line change.\<close>

theorem strsplit_finds_words:
  assumes "string_at m s xs" and "separators m q seps" and "apart s (length xs) q (length seps)" and "length xs < 2 ^ 32"
  shows "\<exists>m' argv. strsplit m s q = Some (m', argv, if length (split_words (set seps) xs) \<le> 15 then 1 else 0) \<and>
    list_all2 (string_at m') argv (take 15 (split_words (set seps) xs)) \<and> changes_only s (length xs) m m'"
  using strsplit_go_spec[OF assms, of "[]"] by (auto simp: strsplit_def)

definition bytes_from :: "uint32 \<Rightarrow> uint8 list \<Rightarrow> memory \<Rightarrow> memory" where
  "bytes_from p xs m = (\<lambda>a. let i = unat (a - p) in if i < length xs then xs ! i else m a)"

theorem strsplit_finds_words_witness:
  "\<exists>m' argv. strsplit (bytes_from 0x100 [32, 97, 98, 9, 32, 99, 0] (bytes_from 0x200 [9, 13, 10, 32, 0] (\<lambda>a. 1))) 0x100 0x200 = Some (m', argv, 1) \<and>
    list_all2 (string_at m') argv [[97, 98], [99]]"
proof -
  let ?m = "bytes_from 0x100 [32, 97, 98, 9, 32, 99, 0] (bytes_from 0x200 [9, 13, 10, 32, 0] (\<lambda>a. 1))"
  let ?line = "[32, 97, 98, 9, 32, 99] :: uint8 list" and ?seps = "[9, 13, 10, 32] :: uint8 list"
  have w: "split_words (set ?seps) ?line = [[97, 98], [99]]" by (simp add: split_words.simps)
  have "string_at ?m 0x100 ?line" by (simp add: bytes_from_def)
  moreover have "separators ?m 0x200 ?seps" by (simp add: separators_def bytes_from_def)
  moreover have "apart 0x100 (length ?line) 0x200 (length ?seps)"
    unfolding apart_def
  proof (intro allI impI)
    fix i j assume "i \<le> length ?line" "j \<le> length ?seps"
    then have "unat (0x100 + of_nat i :: uint32) = 0x100 + i" "unat (0x200 + of_nat j :: uint32) = 0x200 + j"
      by (subst word_add_le_unat; simp add: unat_of_nat_small)+
    moreover have "0x100 + i \<noteq> 0x200 + j" using \<open>i \<le> length ?line\<close> by simp
    ultimately show "(0x100 :: uint32) + of_nat i \<noteq> 0x200 + of_nat j" by metis
  qed
  ultimately show ?thesis using strsplit_finds_words[of ?m "0x100" ?line "0x200" ?seps] unfolding w by simp blast
qed

end
