(* ===== verification/Commands_Props.thy ===== *)
theory Commands_Props
  imports Commands Split_Props PageFile
begin

text \<open>
  The interpreter runs the command a line names, the prompt never ends, and what one command writes to the
  memory of a program another one reads.
\<close>

section \<open>Every command returns 0\<close>

definition returns_zero :: "(kstate, int \<times> print list) M \<Rightarrow> bool" where
  "returns_zero f \<longleftrightarrow> (\<forall>s r out s'. f s = Inr ((r, out), s') \<longrightarrow> r = 0)"

named_theorems zero_intros

lemma zero_finished [zero_intros]: "returns_zero (finished out)"
  by (simp add: returns_zero_def finished_def)

lemma zero_raise [zero_intros]: "returns_zero (raise e)"
  by (simp add: returns_zero_def raise_def)

lemma zero_bnd [zero_intros]: "(\<And>x. returns_zero (f x)) \<Longrightarrow> returns_zero (bnd g f)"
  by (auto simp: returns_zero_def bnd_def split: sum.splits)

lemma zero_seqm [zero_intros]: "returns_zero f \<Longrightarrow> returns_zero (seqm g f)"
  unfolding seqm_def by (rule zero_bnd)

lemma zero_if [zero_intros]: "(b \<Longrightarrow> returns_zero f) \<Longrightarrow> (\<not> b \<Longrightarrow> returns_zero g) \<Longrightarrow> returns_zero (if b then f else g)"
  by simp

lemma zero_option [zero_intros]:
  "returns_zero f \<Longrightarrow> (\<And>x. returns_zero (g x)) \<Longrightarrow> returns_zero (case e of None \<Rightarrow> f | Some x \<Rightarrow> g x)"
  by (cases e) simp_all

lemma zero_prod [zero_intros]: "(\<And>x y. returns_zero (f x y)) \<Longrightarrow> returns_zero (case p of (x, y) \<Rightarrow> f x y)"
  by (cases p) simp

lemma zero_let [zero_intros]: "(\<And>x. returns_zero (f x)) \<Longrightarrow> returns_zero (Let t f)"
  by simp

lemma zero_placement [zero_intros]:
  "returns_zero a \<Longrightarrow> returns_zero b \<Longrightarrow> returns_zero c \<Longrightarrow> returns_zero d \<Longrightarrow> returns_zero e \<Longrightarrow>
   returns_zero (case p of PLACE_CONTALLOC \<Rightarrow> a | PLACE_FIRSTFIT \<Rightarrow> b | PLACE_BESTFIT \<Rightarrow> c | PLACE_NEXTFIT \<Rightarrow> d | PLACE_WORSTFIT \<Rightarrow> e)"
  by (cases p) simp_all

lemma zero_in_space [zero_intros]:
  assumes "returns_zero body"
  shows "returns_zero (in_space e body)"
  unfolding returns_zero_def in_space_def
proof (intro allI impI)
  fix s r out s'
  assume "bnd (gets current_cr3) (\<lambda>oldDir. seqm (modify (\<lambda>s. emit (Load_cr3 (env_cr3 (envs s e))) s))
    (bnd body (\<lambda>r. seqm (modify (emit (Load_cr3 oldDir))) (ret r)))) s = Inr ((r, out), s')"
  then obtain s1 s2 where "body s1 = Inr ((r, out), s2)" by (auto simp: seqm_def bnd_def gets_def modify_def ret_def split: sum.splits)
  with assms show "r = 0" unfolding returns_zero_def by blast
qed

lemma zero_now [zero_intros]: "returns_zero (now action message)"
  unfolding now_def by (intro zero_intros)

lemma zero_print_first [zero_intros]: "returns_zero (print_first tests message)"
  by (induction tests message rule: print_first.induct) (simp_all add: zero_intros)

lemmas command_defs = command_writeusermem_def command_writemem_k_def command_readusermem_def command_readmem_k_def
  command_readuserblock_def command_remove_table_def command_allocuserpage_def command_meminfo_def command_run_program_def
  command_kill_program_def commnad_load_env_def command_run_all_def command_print_all_def command_kill_all_def
  command_set_page_rep_LRU_def command_set_page_rep_CLOCK_def command_set_page_rep_FIFO_def command_set_page_rep_ModifiedCLOCK_def
  command_print_page_rep_def command_set_uheap_plac_FIRSTFIT_def command_set_uheap_plac_BESTFIT_def
  command_set_uheap_plac_NEXTFIT_def command_set_uheap_plac_WORSTFIT_def command_print_uheap_plac_def
  command_set_kheap_plac_CONTALLOC_def command_set_kheap_plac_FIRSTFIT_def command_set_kheap_plac_BESTFIT_def
  command_set_kheap_plac_NEXTFIT_def command_set_kheap_plac_WORSTFIT_def command_print_kheap_plac_def
  command_disable_modified_buffer_def command_enable_modified_buffer_def command_disable_buffering_def command_enable_buffering_def
  command_set_modified_buffer_length_def command_get_modified_buffer_length_def command_kernel_info_def
  command_test_kmalloc_def command_test_kfree_def command_test_kheap_phys_addr_def command_test_kheap_virt_addr_def
  command_test_three_creation_functions_def command_test_krealloc_def command_help_def set_modified_buffer_def run_test_def

lemma command_returns_zero: "c \<in> set commands \<Longrightarrow> returns_zero (snd (snd c) mach m args)"
proof -
  have "list_all (\<lambda>c. returns_zero (snd (snd c) mach m args)) commands"
    unfolding commands_def other_commands_def list.pred_inject snd_conv
    by (intro conjI list.pred_inject(1); unfold command_defs; intro zero_intros)
  then show "c \<in> set commands \<Longrightarrow> returns_zero (snd (snd c) mach m args)" by (simp add: list_all_iff)
qed

lemma zero_dispatch:
  "returns_zero (case find (\<lambda>c. fst c = name) commands of
      None \<Rightarrow> finished out | Some (_, _, function_to_execute) \<Rightarrow> function_to_execute mach m arguments)"
proof (cases "find (\<lambda>c. fst c = name) commands")
  case (Some c)
  then have "c \<in> set commands" by (auto simp: find_Some_iff in_set_conv_nth)
  from command_returns_zero[OF this, of mach m arguments] Some show ?thesis by (cases c) simp
qed (simp add: zero_finished)

lemma execute_command_zero: "returns_zero (execute_command mach m sep line)"
  unfolding execute_command_def by (intro zero_dispatch zero_intros)

text \<open>No line ends the command prompt: whatever is typed, when the command returns, it returns 0, and the prompt
  goes on only while the result is not negative.\<close>

lemma commands_return_zero:
  assumes "execute_command mach m sep line s = Inr ((r, out), s')"
  shows "r = 0"
  using assms execute_command_zero unfolding returns_zero_def by blast

section \<open>A line runs the command it names\<close>

definition to_string :: "uint8 list \<Rightarrow> string" where
  "to_string w = map (\<lambda>b. char_of (unat b)) w"

lemma string_of_string:
  assumes "string_at m p w" and "length w < 2 ^ 32"
  shows "string_of m p = ret (to_string w)"
proof -
  have "unat (of_nat (length w) :: uint32) = length w" using assms(2) by (simp add: unat_of_nat_small)
  moreover have "map (\<lambda>i. char_of (unat (m (p + of_nat i)))) [0..<length w] = to_string w"
    using assms(1) by (auto simp: string_at_nth to_string_def intro: nth_equalityI)
  ultimately show ?thesis by (simp add: string_of_def strlen_string[OF assms(1)])
qed

lemma first_word_short:
  assumes "split_words ss xs = w # ws"
  shows "length w \<le> length xs"
proof -
  have "w = takeWhile (\<lambda>c. c \<notin> ss) (dropWhile (\<lambda>c. c \<in> ss) xs)"
    using assms by (subst (asm) split_words_step) (auto simp: Let_def split: if_splits)
  then show ?thesis using length_takeWhile_le length_dropWhile_le order_trans by blast
qed

lemma execute_command_words:
  assumes "string_at m line xs" and "separators m sep [9, 13, 10, 32]" and "apart line (length xs) sep 4" and "length xs < 2 ^ 32"
  shows "\<exists>m' args. list_all2 (string_at m') args (take 15 (split_words {9, 13, 10, 32} xs)) \<and>
    execute_command mach m sep line = (case split_words {9, 13, 10, 32} xs of [] \<Rightarrow> finished []
      | w # ws \<Rightarrow> (case find (\<lambda>c. fst c = to_string w) commands of
          Some (_, _, function_to_execute) \<Rightarrow> function_to_execute mach m' args
        | None \<Rightarrow> finished [(''Unknown command '' @ [CHR 0x27] @ ''%s'' @ [CHR 0x27] @ ''\<newline>'', [Str (to_string w)])]))"
proof -
  let ?ws = "split_words {9, 13, 10, 32} xs"
  have "apart line (length xs) sep (length [9, 13, 10, 32 :: uint8])" using assms(3) by (simp add: eval_nat_numeral)
  from strsplit_go_spec[OF assms(1,2) this assms(4), of "[]" ?ws] obtain m' args where
    sp: "strsplit m line sep = Some (m', args, if length ?ws \<le> 15 then 1 else 0)"
    and args: "list_all2 (string_at m') args (take 15 ?ws)" by (auto simp: strsplit_def)
  have "execute_command mach m sep line = (case ?ws of [] \<Rightarrow> finished []
      | w # ws \<Rightarrow> (case find (\<lambda>c. fst c = to_string w) commands of
          Some (_, _, function_to_execute) \<Rightarrow> function_to_execute mach m' args
        | None \<Rightarrow> finished [(''Unknown command '' @ [CHR 0x27] @ ''%s'' @ [CHR 0x27] @ ''\<newline>'', [Str (to_string w)])]))"
  proof (cases ?ws)
    case Nil
    then show ?thesis using sp args by (simp add: execute_command_def)
  next
    case (Cons w ws)
    then obtain a as where a: "args = a # as" "string_at m' a w" using args by (auto simp: list_all2_Cons2)
    have "string_of m' a = ret (to_string w)"
      using a(2) by (rule string_of_string) (use first_word_short[OF Cons] assms(4) in simp)
    then show ?thesis using sp Cons unfolding a(1) by (simp add: execute_command_def bnd_def ret_def)
  qed
  with args show ?thesis by blast
qed

text \<open>The line "fifo " in memory, and the separators.\<close>

definition fifo_line :: memory where
  "fifo_line = bytes_from 0x100 [102, 105, 102, 111, 32, 0] (bytes_from 0x200 [9, 13, 10, 32, 0] (\<lambda>a. 1))"

lemma fifo_line:
  "string_at fifo_line 0x100 [102, 105, 102, 111, 32]" "separators fifo_line 0x200 [9, 13, 10, 32]"
  "apart 0x100 (length [102, 105, 102, 111, 32 :: uint8]) 0x200 4" "length [102, 105, 102, 111, 32 :: uint8] < 2 ^ 32"
  "split_words {9, 13, 10, 32} [102, 105, 102, 111, 32] = [[102, 105, 102, 111]]"
  "to_string [102, 105, 102, 111] = ''fifo''"
proof -
  show "apart 0x100 (length [102, 105, 102, 111, 32 :: uint8]) 0x200 4"
    unfolding apart_def
  proof (intro allI impI)
    fix i j :: nat assume i: "i \<le> length [102, 105, 102, 111, 32 :: uint8]" and "j \<le> 4"
    then have "unat (0x100 + of_nat i :: uint32) = 0x100 + i" "unat (0x200 + of_nat j :: uint32) = 0x200 + j"
      by (subst word_add_le_unat; simp add: unat_of_nat_small)+
    moreover have "0x100 + i \<noteq> 0x200 + j" using i by simp
    ultimately show "(0x100 :: uint32) + of_nat i \<noteq> 0x200 + of_nat j" by metis
  qed
  show "to_string [102, 105, 102, 111] = ''fifo''" by code_simp
qed (simp_all add: fifo_line_def bytes_from_def separators_def split_words.simps)

lemma find_fifo: "find (\<lambda>c. fst c = ''fifo'') commands = Some (''fifo'', ''set replacement algorithm to FIFO'', command_set_page_rep_FIFO)"
  by (simp add: commands_def other_commands_def)

section \<open>What wum writes, rum reads\<close>

lemma get_put_byte: "k < 4 \<Longrightarrow> get_byte (put_byte w k b) k = b"
proof -
  assume k: "k < 4"
  have m: "(0xFF :: uint32) = mask 8" by (simp add: mask_eq_exp_minus_1)
  show ?thesis unfolding get_byte_def put_byte_def m
    by (rule bit_word_eqI) (use k in \<open>auto simp: bit_simps\<close>)
qed

text \<open>The translation of an address looks at the tables and at the frames' descriptors only.\<close>

definition same_tables :: "kstate \<Rightarrow> kstate \<Rightarrow> bool" where
  "same_tables s t \<longleftrightarrow> kmem t = kmem s \<and> number_of_frames t = number_of_frames s \<and> frames_info t = frames_info s"

lemma table_address_cong:
  assumes "same_tables s t" and "table_address va entry s = Inr (x, s')"
  shows "s' = s \<and> table_address va entry t = Inr (x, t)"
proof -
  have e: "number_of_frames t = number_of_frames s" "frames_info t = frames_info s" using assms(1) by (simp_all add: same_tables_def)
  show ?thesis
    using assms(2) unfolding table_address_def kheap_virtual_address_def STATIC_KERNEL_VIRTUAL_ADDRESS_def e
    by (cases "CHECK_IF_KERNEL_ADDRESS va"; cases "number_of_frames s \<le> PPN (EXTRACT_ADDRESS entry)") (use e in auto)
qed

lemma get_page_table_cong:
  assumes st: "same_tables s t" and g: "get_page_table pgdir va s = Inr (x, s')"
  shows "s' = s \<and> get_page_table pgdir va t = Inr (x, t)"
proof -
  from g obtain entry pt where e: "load (word_at pgdir (PDX va)) s = Inr (entry, s)" "table_address va entry s = Inr (pt, s)"
    by (auto simp: get_page_table_def bnd_def split: sum.splits prod.splits dest: table_address_cong[OF st])
  from table_address_cong[OF st e(2)] have t: "table_address va entry t = Inr (pt, t)" by blast
  have "load (word_at pgdir (PDX va)) t = Inr (entry, t)" using e(1) st by (auto simp: same_tables_def)
  with e t g show ?thesis
    by (auto simp: get_page_table_def bnd_def ret_def raise_def seqm_def modify_def split: if_splits)
qed

lemma frame_at_cong:
  assumes st: "same_tables s t" and g: "frame_at pgdir a s = Inr (f, s')"
  shows "frame_at pgdir a t = Inr (f, t)"
proof -
  from g obtain st' pt where e: "get_page_table pgdir a s = Inr ((st', pt), s)"
    by (auto simp: frame_at_def get_frame_info_def bnd_def split: sum.splits prod.splits dest: get_page_table_cong[OF st])
  from get_page_table_cong[OF st e] have t: "get_page_table pgdir a t = Inr ((st', pt), t)" by blast
  have l: "load v t = Inr (kmem s v, t)" if "load v s = Inr (kmem s v, s)" for v using that st by (auto simp: same_tables_def)
  show ?thesis using e t g st
    by (auto simp: frame_at_def get_frame_info_def bnd_def ret_def raise_def load_def to_frame_info_def same_tables_def
        split: if_splits)
qed

lemma envid2env_cong:
  assumes "envid2env i False s = Inr (x, s)" and "envs t = envs s" and "curenv t = curenv s"
  shows "envid2env i False t = Inr (x, t)"
  using assms by (auto simp: envid2env_def get_env_def bnd_def gets_def ret_def Let_def split: if_splits)

text \<open>C28: What \<open>wum\<close> writes to the memory of a program, \<open>rum\<close> reads: for an address of a page that is mapped, writing a
  character succeeds, and reading at the address afterwards prints it, through any page directory and
  without changing what the other one is.\<close>

theorem wum_then_rum:
  assumes "number m args 1 10 = ret i" and "number m args 3 16 = ret a" and "argument args 2 = ret p"
    and "number m' args' 1 10 = ret i" and "number m' args' 2 16 = ret a"
    and "envid2env i False s = Inr ((0, Some e), s)" and "a < KERNEL_BASE"
    and "frame_at (env_page_directory (envs s e)) a s = Inr (f, s)"
  shows "\<exists>s1 s2. command_writeusermem mach m args s = Inr ((0, []), s1) \<and>
    command_readusermem mach' m' args' s1 = Inr ((0, [(''value at address %x = %c\<newline>'', [Num a, Chr (m p)])]), s2) \<and>
    current_cr3 s2 = current_cr3 s"
proof -
  define pgdir where "pgdir = env_page_directory (envs s e)"
  define s0 where "s0 = emit (Load_cr3 (env_cr3 (envs s e))) s"
  define j where "j = unat (PGOFF a) div 4"
  define k where "k = unat (a AND 3)"
  have k: "k < 4"
  proof -
    have "a AND 3 \<le> 3" by (rule word_and_le1)
    then show ?thesis by (simp add: k_def word_le_nat_alt)
  qed
  define w where "w = put_byte (frame_data s f j) k (m p)"
  define s1 where "s1 = emit (Load_cr3 (current_cr3 s)) (s0\<lparr>frame_data := (frame_data s)(f := (frame_data s f)(j := w))\<rparr>)"
  define s2 where "s2 = emit (Load_cr3 (env_cr3 (envs s e))) s1"
  have low: "\<not> KERNEL_BASE \<le> a" using assms(7) by simp
  have f0: "frame_at pgdir a s0 = Inr (f, s0)"
    unfolding pgdir_def by (rule frame_at_cong[OF _ assms(8)]) (simp add: s0_def same_tables_def)
  have f2: "frame_at pgdir a s2 = Inr (f, s2)"
    unfolding pgdir_def by (rule frame_at_cong[OF _ assms(8)]) (simp add: s2_def s1_def s0_def same_tables_def)
  have e1: "envid2env i False s1 = Inr ((0, Some e), s1)"
    by (rule envid2env_cong[OF assms(6)]) (simp_all add: s1_def s0_def)
  have cr3: "current_cr3 s1 = current_cr3 s" by (simp add: s1_def current_cr3_def)
  have d: "bnd (ret x) g = g x" for x :: 'x and g :: "'x \<Rightarrow> (kstate, 'y) M" by (simp add: bnd_def ret_def)
  have named: "named_env m args t = Inr (Some e, t)" "named_env m' args' t = Inr (Some e, t)"
    if "envid2env i False t = Inr ((0, Some e), t)" for t
    using that unfolding named_env_def assms(1,4) d by (simp_all add: bnd_def ret_def)
  have "put_user_byte pgdir a (m p) s0 = Inr ((), s0\<lparr>frame_data := (frame_data s)(f := (frame_data s f)(j := w))\<rparr>)"
    using f0 low by (simp add: put_user_byte_def store_user_byte_def j_def k_def w_def s0_def Let_def)
  then have W: "command_writeusermem mach m args s = Inr ((0, []), s1)"
    using named(1)[OF assms(6)] unfolding command_writeusermem_def assms(2,3) d
    by (simp add: bnd_def in_space_def get_env_def finished_def ret_def seqm_def gets_def modify_def s1_def)
      (simp add: s0_def pgdir_def)
  have "load_user_byte pgdir a s2 = Inr (m p, s2)"
    using f2 low get_put_byte[OF k]
    by (simp add: load_user_byte_def j_def[symmetric] k_def[symmetric]) (simp add: s2_def s1_def s0_def w_def)
  then have R: "command_readusermem mach' m' args' s1 =
      Inr ((0, [(''value at address %x = %c\<newline>'', [Num a, Chr (m p)])]), emit (Load_cr3 (current_cr3 s1)) s2)"
    using named(2)[OF e1] unfolding command_readusermem_def assms(5) d
    by (simp add: bnd_def in_space_def get_env_def finished_def ret_def seqm_def gets_def modify_def s2_def)
      (simp add: s1_def s0_def pgdir_def)
  show ?thesis
    by (intro exI conjI, rule W, rule R) (simp add: current_cr3_def s1_def)
qed

text \<open>An x is written to the first page of the running program of a machine with one mapped user page.\<close>

definition wum_words :: memory where
  "wum_words = bytes_from 0x10 [48, 0] (bytes_from 0x20 [120, 0] (bytes_from 0x30 [56, 48, 48, 48, 48, 53, 0] (\<lambda>a. 1)))"

lemma wum_numbers:
  "number wum_words [0, 0x10, 0x20, 0x30] 1 10 = ret 0" "number wum_words [0, 0x10, 0x20, 0x30] 3 16 = ret 0x800005"
  "argument [0, 0x10, 0x20, 0x30] 2 = ret 0x20"
  "number wum_words [0, 0x10, 0x30] 1 10 = ret 0" "number wum_words [0, 0x10, 0x30] 2 16 = ret 0x800005"
proof -
  have a: "strtol wum_words 0x10 10 = Some (0, 0x11)"
    by (simp add: strtol_def skip_blanks.simps strtol_digits.simps digit_value_def chr_def wum_words_def bytes_from_def)
  have b: "strtol wum_words 0x30 16 = Some (0x800005, 0x36)"
    by (simp add: strtol_def skip_blanks.simps strtol_digits.simps digit_value_def chr_def wum_words_def bytes_from_def)
  show "number wum_words [0, 0x10, 0x20, 0x30] 1 10 = ret 0" "number wum_words [0, 0x10, 0x20, 0x30] 3 16 = ret 0x800005"
    "argument [0, 0x10, 0x20, 0x30] 2 = ret 0x20"
    "number wum_words [0, 0x10, 0x30] 1 10 = ret 0" "number wum_words [0, 0x10, 0x30] 2 16 = ret 0x800005"
    by (simp_all add: number_def argument_def bnd_def ret_def a b)
qed

theorem wum_then_rum_witness:
  "\<forall>mach mach'. \<exists>s1 s2. command_writeusermem mach wum_words [0, 0x10, 0x20, 0x30] swap_machine = Inr ((0, []), s1) \<and>
    command_readusermem mach' wum_words [0, 0x10, 0x30] s1 = Inr ((0, [(''value at address %x = %c\<newline>'', [Num 0x800005, Chr 120])]), s2) \<and>
    current_cr3 s2 = current_cr3 swap_machine"
proof (intro allI)
  fix mach mach'
  have e: "envid2env 0 False swap_machine = Inr ((0, Some 0), swap_machine)"
    by (simp add: envid2env_def swap_machine_def bnd_def gets_def ret_def)
  have f: "frame_at (env_page_directory (envs swap_machine 0)) 0x800005 swap_machine = Inr (0x400, swap_machine)"
    by (simp add: swap_eval frame_at_def get_frame_info_def get_page_table_def bnd_def ret_def load_def to_frame_info_def)
  have x: "wum_words 0x20 = 120" by (simp add: wum_words_def bytes_from_def)
  have k: "(0x800005 :: uint32) < KERNEL_BASE" by (simp add: KERNEL_BASE_def)
  show "\<exists>s1 s2. command_writeusermem mach wum_words [0, 0x10, 0x20, 0x30] swap_machine = Inr ((0, []), s1) \<and>
    command_readusermem mach' wum_words [0, 0x10, 0x30] s1 = Inr ((0, [(''value at address %x = %c\<newline>'', [Num 0x800005, Chr 120])]), s2) \<and>
    current_cr3 s2 = current_cr3 swap_machine"
    using wum_then_rum[OF wum_numbers e k f, of mach mach'] unfolding x .
qed

end
