(* ===== verification/Prompt.thy ===== *)
theory Prompt
  imports Split_Props
begin

text \<open>
  The line editor of the command prompt, \<open>command_prompt_readline\<close> of kern/command_prompt.c, with its history and
  the completion of names.  Buffers are lists of their length; a string is what comes before the first
  null byte.  The names of the commands and of the programs are parameters here.
\<close>

definition BUFLEN_prompt :: nat where "BUFLEN_prompt = 1024"
definition HISTORY_MAX :: int where "HISTORY_MAX = 9"

text \<open>
  The variables of the function and the globals it uses.  \<open>last_c\<close> and \<open>prefix_list_size\<close> are not initialised.
  \<open>before_history\<close> is the string in front of the array \<open>command_history\<close>, which is read before there is any
  command.  \<open>echoed\<close> is what was given to \<open>cputchar\<close>.
\<close>

record editor =
  line_buf :: "uint8 list"
  col :: nat
  lastIndex :: nat
  commandidx :: int
  prefix_list_idx :: nat
  prefix_list_size :: nat
  last_c :: int
  command_history :: "uint8 list list"
  last_command_idx :: int
  before_history :: "uint8 list"
  PrefixList :: "uint8 list list"
  echoed :: "int list"

section \<open>Strings in buffers\<close>

definition cstring :: "uint8 list \<Rightarrow> uint8 list" where
  "cstring a = takeWhile (\<lambda>c. c \<noteq> 0) a"

definition terminated :: "uint8 list \<Rightarrow> (editor, uint8 list) M" where
  "terminated a = seqm (guard (0 \<in> set a) OutOfBounds) (ret (cstring a))"

text \<open>A cleared buffer with a string in it.\<close>

definition buffer_with :: "uint8 list \<Rightarrow> uint8 list" where
  "buffer_with xs = xs @ replicate (BUFLEN_prompt - length xs) 0"

definition echo :: "int list \<Rightarrow> (editor, unit) M" where
  "echo cs = modify (\<lambda>s. s\<lparr>echoed := echoed s @ cs\<rparr>)"

definition set_buf :: "nat \<Rightarrow> uint8 \<Rightarrow> (editor, unit) M" where
  "set_buf j c = seqm (guard (j < BUFLEN_prompt) OutOfBounds) (modify (\<lambda>s. s\<lparr>line_buf := (line_buf s)[j := c]\<rparr>))"

section \<open>Replacing the line\<close>

text \<open>The old text is wiped with \<open>n\<close> backspaces, the new one is printed and becomes the line.\<close>

definition rewrite_line :: "nat \<Rightarrow> uint8 list \<Rightarrow> (editor, unit) M" where
  "rewrite_line n row =
     bnd (terminated row) (\<lambda>xs.
     seqm (echo (replicate n 8 @ map sint xs))
       (modify (\<lambda>s. s\<lparr>line_buf := buffer_with xs, col := length xs, lastIndex := length xs\<rparr>)))"

definition clearandwritecommand :: "(editor, unit) M" where
  "clearandwritecommand =
     bnd (gets (\<lambda>s. (col s, commandidx s, command_history s))) (\<lambda>(i, idx, rows).
     seqm (guard (0 \<le> idx \<and> nat idx < length rows) OutOfBounds) (rewrite_line i (rows ! nat idx)))"

definition RoundAutoCompleteCommandWithTheSamePrefix :: "nat \<Rightarrow> uint8 list \<Rightarrow> (editor, unit) M" where
  "RoundAutoCompleteCommandWithTheSamePrefix old_buf_len prefix_element = rewrite_line old_buf_len prefix_element"

section \<open>Completion\<close>

definition clear_prefix_list :: "(editor, unit) M" where
  "clear_prefix_list = modify (\<lambda>s. s\<lparr>PrefixList := replicate 100 (buffer_with [])\<rparr>)"

definition whitespace :: "uint8 set" where "whitespace = {9, 13, 10, 32}"

text \<open>\<open>strncmp(temp_buf, name, strlen(temp_buf)) == 0\<close>\<close>

definition starts_with :: "uint8 list \<Rightarrow> uint8 list \<Rightarrow> bool" where
  "starts_with w name \<longleftrightarrow> take (length w) name = w"

definition store_prefixes :: "uint8 list list \<Rightarrow> (editor, unit) M" where
  "store_prefixes xss =
     seqm (guard (length xss \<le> 100 \<and> (\<forall>xs \<in> set xss. length xs < BUFLEN_prompt)) OutOfBounds)
       (modify (\<lambda>s. s\<lparr>PrefixList := map buffer_with xss @ drop (length xss) (PrefixList s), prefix_list_size := length xss\<rparr>))"

text \<open>The first candidate overwrites the start of the line; what was behind it stays.\<close>

definition take_first :: "nat \<Rightarrow> (editor, unit) M" where
  "take_first bufLength =
     bnd (gets PrefixList) (\<lambda>rows. bnd (terminated (hd rows)) (\<lambda>xs.
     seqm (modify (\<lambda>s. s\<lparr>prefix_list_idx := 0, line_buf := xs @ drop (length xs) (line_buf s)\<rparr>))
     (bnd (gets line_buf) (\<lambda>b. bnd (terminated b) (\<lambda>ys.
     seqm (echo (replicate bufLength 8 @ map sint ys))
       (modify (\<lambda>s. s\<lparr>col := length ys, lastIndex := length ys\<rparr>)))))))"

text \<open>
  The first tabulator: \<open>False\<close> where the code continues with the next character at once.  With one word
  the commands are searched, with more the programs, for the commands run and load only.  \<open>strsplit\<close> puts
  null bytes for the separators, so the copy of the line it has split ends before the first one.
\<close>

definition complete :: "uint8 list list \<Rightarrow> uint8 list list \<Rightarrow> (editor, bool) M" where
  "complete cmds progs =
     seqm clear_prefix_list
     (bnd (gets (\<lambda>s. (line_buf s, last_c s))) (\<lambda>(b, lc).
      bnd (terminated b) (\<lambda>xs.
      if xs = [] \<or> lc = 255 then ret False
      else seqm (modify (\<lambda>s. s\<lparr>prefix_list_size := 0\<rparr>))
       (if List.last xs = 32 then ret False
        else let args = take 15 (split_words whitespace xs) in
          if 1 < length args \<and> hd args \<noteq> map of_char ''run'' \<and> hd args \<noteq> map of_char ''load'' then ret False
          else
           (let start = (if 1 < length args then take (length xs - length (List.last args)) xs else []);
                temp_buf = (if 1 < length args then List.last args else takeWhile (\<lambda>c. c \<notin> whitespace) xs);
                found = (if length args = 1 then filter (starts_with temp_buf) cmds
                         else map (\<lambda>p. start @ p) (filter (starts_with temp_buf) progs)) in
            seqm (whenM (1 < length args) (set_buf (length start) 0))
            (seqm (store_prefixes found)
            (seqm (whenM (found \<noteq> []) (take_first (length xs))) (ret True))))))))"

text \<open>The next ones go around the candidates.\<close>

definition complete_again :: "(editor, unit) M" where
  "complete_again = bnd (gets (\<lambda>s. (prefix_list_idx s, prefix_list_size s, PrefixList s))) (\<lambda>(prev, n, rows).
     whenM (0 < n)
      (let idx = (prev + 1) mod n in
       seqm (modify (\<lambda>s. s\<lparr>prefix_list_idx := idx\<rparr>))
       (bnd (terminated (rows ! prev)) (\<lambda>old.
         RoundAutoCompleteCommandWithTheSamePrefix (length old) (rows ! idx)))))"

section \<open>History\<close>

definition remember :: "(editor, unit) M" where
  "remember = bnd (gets (\<lambda>s. (line_buf s, command_history s, last_command_idx s, before_history s))) (\<lambda>(b, rows, n, front).
     if n = HISTORY_MAX then modify (\<lambda>s. s\<lparr>command_history := tl rows @ [b]\<rparr>)
     else whenM ((if n < 0 then front else cstring (rows ! nat n)) \<noteq> cstring b)
       (modify (\<lambda>s. s\<lparr>command_history := rows[nat (n + 1) := b], last_command_idx := n + 1\<rparr>)))"

section \<open>One key\<close>

datatype verdict = Return | Next | Continue

definition KEY_DEL_code :: int where "KEY_DEL_code = 0xE9"

definition delete_char :: "(editor, unit) M" where
  "delete_char = bnd (gets (\<lambda>s. (col s, lastIndex s))) (\<lambda>(i, n).
     seqm (for_n (n + 1 - i) i (\<lambda>var. seqm (guard (var + 1 < BUFLEN_prompt) OutOfBounds)
             (bnd (gets (\<lambda>s. line_buf s ! (var + 1))) (set_buf var))))
       (modify (\<lambda>s. s\<lparr>lastIndex := n - 1\<rparr>)))"

definition key :: "uint8 list list \<Rightarrow> uint8 list list \<Rightarrow> int \<Rightarrow> (editor, verdict) M" where
  "key cmds progs c =
     seqm (modify (\<lambda>s. s\<lparr>lastIndex := max (lastIndex s) (col s)\<rparr>))
     (bnd (gets (\<lambda>s. (col s, lastIndex s))) (\<lambda>(i, n).
      if c < 0 then ret Return
      else if c = 226 then
        seqm (modify (\<lambda>s. if commandidx s \<noteq> 0 then s\<lparr>commandidx := commandidx s - 1\<rparr> else s)) (seqm clearandwritecommand (ret Next))
      else if c = 227 then
        seqm (modify (\<lambda>s. if commandidx s < last_command_idx s then s\<lparr>commandidx := commandidx s + 1\<rparr> else s))
        (bnd (gets last_command_idx) (\<lambda>l. seqm (whenM (0 \<le> l) clearandwritecommand) (ret Next)))
      else if c = 9 then bnd (gets last_c) (\<lambda>lc.
        if lc \<noteq> 9 then bnd (complete cmds progs) (\<lambda>b. ret (if b then Next else Continue))
        else seqm complete_again (ret Next))
      else if c = 228 then
        seqm (whenM (0 < i) (seqm (modify (\<lambda>s. s\<lparr>col := i - 1\<rparr>)) (echo [c]))) (ret Next)
      else if c = 229 then
        seqm (whenM (i < n) (seqm (modify (\<lambda>s. s\<lparr>col := i + 1\<rparr>)) (echo [c]))) (ret Next)
      else if c = KEY_DEL_code \<and> 0 < i then seqm delete_char (ret Next)
      else if 32 \<le> c \<and> i < BUFLEN_prompt - 1 then
        seqm (echo [c]) (seqm (set_buf i (of_int c)) (seqm (modify (\<lambda>s. s\<lparr>col := i + 1, lastIndex := n + 1\<rparr>)) (ret Next)))
      else if c = 8 \<and> 0 < i then
        seqm (echo [c]) (seqm (guard (i < BUFLEN_prompt) OutOfBounds)
          (bnd (gets (\<lambda>s. line_buf s ! i)) (\<lambda>b. seqm (set_buf (i - 1) b) (seqm (modify (\<lambda>s. s\<lparr>col := i - 1\<rparr>)) (ret Next)))))
      else if c = 10 \<or> c = 13 then
        seqm (echo [c]) (seqm (set_buf n 0) (seqm remember (ret Return)))
      else ret Next))"

text \<open>The loop, over the characters \<open>getchar\<close> gives; \<open>None\<close> when it waits for more.\<close>

fun prompt_loop :: "uint8 list list \<Rightarrow> uint8 list list \<Rightarrow> int list \<Rightarrow> (editor, int list option) M" where
  "prompt_loop cmds progs [] = ret None"
| "prompt_loop cmds progs (c # cs) = bnd (key cmds progs c) (\<lambda>v. case v of
       Return \<Rightarrow> ret (Some cs)
     | Next \<Rightarrow> seqm (modify (\<lambda>s. s\<lparr>last_c := c\<rparr>)) (prompt_loop cmds progs cs)
     | Continue \<Rightarrow> prompt_loop cmds progs cs)"

definition command_prompt_readline :: "uint8 list list \<Rightarrow> uint8 list list \<Rightarrow> int list \<Rightarrow> (editor, int list option) M" where
  "command_prompt_readline cmds progs keys =
     seqm (echo (map of_char ''FOS> ''))
     (seqm (modify (\<lambda>s. s\<lparr>commandidx := last_command_idx s + 1, prefix_list_idx := 0, lastIndex := 0, col := 0\<rparr>))
       (prompt_loop cmds progs keys))"

text \<open>A round of the prompt clears the line first.\<close>

definition read_command :: "uint8 list list \<Rightarrow> uint8 list list \<Rightarrow> int list \<Rightarrow> (editor, int list option) M" where
  "read_command cmds progs keys =
     seqm (modify (\<lambda>s. s\<lparr>line_buf := buffer_with []\<rparr>)) (command_prompt_readline cmds progs keys)"

end
