(* ===== verification/Prompt_Props.thy ===== *)
theory Prompt_Props
  imports Prompt
begin

text \<open>
  The line editor: what is typed and corrected is what is read, tabulators go around the names that start
  with what was typed, and the arrow keys bring back earlier lines.
\<close>

section \<open>Buffers\<close>

lemma cstring_zeros: "0 \<notin> set xs \<Longrightarrow> cstring (xs @ replicate n 0) = xs"
proof -
  assume "0 \<notin> set xs"
  then have "takeWhile (\<lambda>c. c \<noteq> 0) (xs @ replicate n 0) = xs @ takeWhile (\<lambda>c. c \<noteq> 0) (replicate n (0 :: uint8))"
    by (intro takeWhile_append2) auto
  then show ?thesis by (cases n) (simp_all add: cstring_def)
qed

lemma terminated_buffer:
  assumes "0 \<notin> set xs" and "length xs < BUFLEN_prompt"
  shows "terminated (buffer_with xs) = ret xs"
proof -
  have "0 \<in> set (buffer_with xs)" using assms(2) by (simp add: buffer_with_def)
  then show ?thesis using cstring_zeros[OF assms(1)]
    by (simp add: terminated_def buffer_with_def guard_def seqm_def bnd_def ret_def)
qed

lemma length_buffer [simp]: "length xs \<le> BUFLEN_prompt \<Longrightarrow> length (buffer_with xs) = BUFLEN_prompt"
  by (simp add: buffer_with_def)

lemma replicate_update: "(replicate n x)[d := x] = replicate n x"
  by (metis length_replicate list_update_id list_update_beyond not_le nth_replicate)

lemma buffer_clear: "length xs \<le> j \<Longrightarrow> (buffer_with xs)[j := 0] = buffer_with xs"
  by (simp add: buffer_with_def list_update_append replicate_update)

lemma buffer_append:
  assumes "length xs < BUFLEN_prompt"
  shows "(buffer_with xs)[length xs := c] = buffer_with (xs @ [c])"
proof -
  obtain n where "BUFLEN_prompt - length xs = Suc n" using assms by (cases "BUFLEN_prompt - length xs") auto
  then show ?thesis using assms by (simp add: buffer_with_def list_update_append)
qed

lemma buffer_butlast:
  assumes "xs \<noteq> []" and "length xs < BUFLEN_prompt"
  shows "(buffer_with xs)[length xs - Suc 0 := 0] = buffer_with (butlast xs)"
proof -
  obtain ys y where xs: "xs = ys @ [y]" using assms(1) by (metis append_butlast_last_id)
  have "BUFLEN_prompt - length ys = Suc (BUFLEN_prompt - length xs)" using assms(2) xs by simp
  then show ?thesis by (simp add: xs buffer_with_def list_update_append)
qed

lemma buffer_nth: "length xs \<le> j \<Longrightarrow> j < BUFLEN_prompt \<Longrightarrow> buffer_with xs ! j = 0"
  by (simp add: buffer_with_def nth_append)

section \<open>Typing and correcting\<close>

text \<open>The keys that write a character, and the backspace; the others of 224 and above move or complete.\<close>

definition prints :: "int \<Rightarrow> bool" where
  "prints c \<longleftrightarrow> 32 \<le> c \<and> c < 256 \<and> c \<notin> {226, 227, 228, 229, KEY_DEL_code}"

definition edit :: "uint8 list \<Rightarrow> int \<Rightarrow> uint8 list" where
  "edit xs c = (if c = 8 then butlast xs else xs @ [of_int c])"

text \<open>\<open>n\<close> bounds the number of characters written so far; \<open>lastIndex\<close> does not shrink with backspaces.\<close>

definition clean :: "nat \<Rightarrow> editor \<Rightarrow> uint8 list \<Rightarrow> bool" where
  "clean n s xs \<longleftrightarrow> line_buf s = buffer_with xs \<and> col s = length xs \<and> length xs \<le> n \<and> lastIndex s \<le> n \<and> 0 \<notin> set xs"

definition same_history :: "editor \<Rightarrow> editor \<Rightarrow> bool" where
  "same_history s s' \<longleftrightarrow> command_history s' = command_history s \<and> last_command_idx s' = last_command_idx s \<and>
     before_history s' = before_history s"

lemma of_int_nonzero: "32 \<le> c \<Longrightarrow> c < 256 \<Longrightarrow> (of_int c :: uint8) \<noteq> 0"
  using zdvd_not_zless[of c 256] by (simp add: word_of_int_eq_0_iff)

lemma key_prints:
  assumes "clean n s xs" and "prints c" and "n < 1023"
  shows "\<exists>s'. key cmds progs c s = Inr (Next, s') \<and> clean (n + 1) s' (edit xs c) \<and> same_history s s'"
proof -
  have c: "\<not> c < 0" "c \<noteq> 226" "c \<noteq> 227" "c \<noteq> 228" "c \<noteq> 229" "c \<noteq> 9" "c \<noteq> KEY_DEL_code" "32 \<le> c" "c < 256" "c \<noteq> 8"
    using assms(2) by (auto simp: prints_def)
  have l: "length xs < BUFLEN_prompt - 1" "length xs < BUFLEN_prompt" using assms(1,3) by (auto simp: clean_def BUFLEN_prompt_def)
  have "(of_int c :: uint8) \<noteq> 0" using c by (intro of_int_nonzero)
  with c l assms(1) show ?thesis
    by (simp add: key_def clean_def edit_def seqm_def echo_def set_buf_def buffer_append same_history_def)
qed

lemma key_backspace:
  assumes "clean n s xs" and "n \<le> 1023"
  shows "\<exists>s'. key cmds progs 8 s = Inr (Next, s') \<and> clean n s' (edit xs 8) \<and> same_history s s'"
proof (cases xs)
  case Nil
  with assms(1) show ?thesis by (simp add: key_def clean_def edit_def seqm_def KEY_DEL_code_def same_history_def)
next
  case (Cons y ys)
  then have l: "length xs < BUFLEN_prompt" "xs \<noteq> []" "length xs - 1 < BUFLEN_prompt" using assms by (auto simp: clean_def BUFLEN_prompt_def)
  have "0 \<notin> set (butlast xs)" using assms(1) by (auto simp: clean_def dest: in_set_butlastD)
  with l assms(1) show ?thesis
    by (simp add: key_def clean_def edit_def seqm_def KEY_DEL_code_def echo_def set_buf_def buffer_butlast buffer_nth same_history_def) arith
qed

lemma typing:
  assumes "clean n s xs" and "\<forall>c \<in> set keys. prints c \<or> c = 8" and "n + length (filter prints keys) \<le> 1023"
  shows "\<exists>s' n'. prompt_loop cmds progs (keys @ ks) s = prompt_loop cmds progs ks s' \<and>
    clean n' s' (fold (\<lambda>c xs. edit xs c) keys xs) \<and> n' \<le> 1023 \<and> same_history s s'"
  using assms
proof (induction keys arbitrary: s n xs)
  case Nil
  then show ?case by (auto simp: same_history_def)
next
  case (Cons c keys)
  obtain s1 n1 where k: "key cmds progs c s = Inr (Next, s1)" "clean n1 s1 (edit xs c)" "same_history s s1"
    and n1: "n1 + length (filter prints keys) \<le> 1023"
  proof (cases "prints c")
    case True
    with Cons.prems have "n < 1023" by simp
    from key_prints[OF Cons.prems(1) True this] that Cons.prems(3) True show ?thesis by fastforce
  next
    case False
    with Cons.prems have "c = 8" "n \<le> 1023" by auto
    from key_backspace[OF Cons.prems(1) this(2)] that Cons.prems(3) False \<open>c = 8\<close> show ?thesis by fastforce
  qed
  let ?s2 = "s1\<lparr>last_c := c\<rparr>"
  have "clean n1 ?s2 (edit xs c)" using k(2) by (simp add: clean_def)
  from Cons.IH[OF this _ n1] Cons.prems(2) obtain s' n' where
    "prompt_loop cmds progs (keys @ ks) ?s2 = prompt_loop cmds progs ks s'"
    "clean n' s' (fold (\<lambda>c xs. edit xs c) keys (edit xs c))" "n' \<le> 1023" "same_history ?s2 s'" by auto
  with k show ?case by (auto simp: seqm_def same_history_def)
qed

section \<open>Entering a line\<close>

definition history_ok :: "editor \<Rightarrow> bool" where
  "history_ok s \<longleftrightarrow> length (command_history s) = 10 \<and> - 1 \<le> last_command_idx s \<and> last_command_idx s \<le> 9 \<and>
     (\<forall>row \<in> set (command_history s). 0 \<in> set row)"

text \<open>What Enter does to the history: the last row is the line, unless it was equal to the one before it.\<close>

lemma remember_line:
  assumes "history_ok s" and "line_buf s = buffer_with xs" and "0 \<notin> set xs" and "length xs < BUFLEN_prompt"
  shows "\<exists>s'. remember s = Inr ((), s') \<and> line_buf s' = line_buf s \<and> history_ok s' \<and> before_history s' = before_history s \<and>
    (0 \<le> last_command_idx s \<or> before_history s \<noteq> xs \<longrightarrow> 0 \<le> last_command_idx s' \<and>
      cstring (command_history s' ! nat (last_command_idx s')) = xs)"
proof -
  have xs: "cstring (buffer_with xs) = xs" using cstring_zeros[OF assms(3)] by (simp add: buffer_with_def)
  have z: "0 \<in> set (buffer_with xs)" using assms(4) by (simp add: buffer_with_def)
  consider "last_command_idx s = 9" | "last_command_idx s < 0" | "0 \<le> last_command_idx s" "last_command_idx s < 9"
    using assms(1) unfolding history_ok_def by linarith
  then show ?thesis
  proof cases
    case 1
    then show ?thesis using assms xs z
      by (auto simp: remember_def HISTORY_MAX_def history_ok_def nth_append dest: list.set_sel(2)[rotated])
  next
    case 2
    then have "last_command_idx s = -1" using assms(1) by (simp add: history_ok_def)
    then show ?thesis using assms xs z
      by (auto simp: remember_def HISTORY_MAX_def history_ok_def whenM_def dest: set_update_subset_insert[THEN subsetD])
  next
    case 3
    then have "nat (last_command_idx s + 1) < 10" by simp
    with 3 show ?thesis using assms xs z
      by (auto simp: remember_def HISTORY_MAX_def history_ok_def whenM_def dest: set_update_subset_insert[THEN subsetD])
  qed
qed

lemma key_enter:
  assumes "clean n s xs" and "n \<le> 1023" and "history_ok s" and "c = 10 \<or> c = 13"
  shows "\<exists>s'. key cmds progs c s = Inr (Return, s') \<and> line_buf s' = buffer_with xs \<and> history_ok s' \<and>
    (0 \<le> last_command_idx s \<or> before_history s \<noteq> xs \<longrightarrow> 0 \<le> last_command_idx s' \<and>
      cstring (command_history s' ! nat (last_command_idx s')) = xs)"
proof -
  define m where "m = max (lastIndex s) (col s)"
  have m: "length xs \<le> m" "m < BUFLEN_prompt" using assms(1,2) by (auto simp: clean_def m_def BUFLEN_prompt_def)
  let ?s = "s\<lparr>lastIndex := m, echoed := echoed s @ [c], line_buf := buffer_with xs\<rparr>"
  have "history_ok ?s" "line_buf ?s = buffer_with xs" using assms(3) by (simp_all add: history_ok_def)
  moreover have "0 \<notin> set xs" "length xs < BUFLEN_prompt" using assms(1,2) by (auto simp: clean_def BUFLEN_prompt_def)
  ultimately obtain s' where
    s': "remember ?s = Inr ((), s')" "line_buf s' = buffer_with xs" "history_ok s'"
      "0 \<le> last_command_idx s \<or> before_history s \<noteq> xs \<longrightarrow> 0 \<le> last_command_idx s' \<and>
        cstring (command_history s' ! nat (last_command_idx s')) = xs" using remember_line[of ?s xs] by auto
  have "line_buf s = buffer_with xs" using assms(1) by (simp add: clean_def)
  then have "key cmds progs c s = Inr (Return, s')"
    using assms(4) m(2) s'(1) buffer_clear[OF m(1)]
    by (elim disjE) (simp_all add: key_def seqm_def KEY_DEL_code_def echo_def set_buf_def flip: m_def)
  with s'(2-4) show ?thesis by blast
qed

lemma read_command_typed:
  assumes "\<forall>c \<in> set keys. prints c \<or> c = 8" and "length (filter prints keys) \<le> 1023" and "e = 10 \<or> e = 13" and "history_ok s"
  shows "\<exists>s'. read_command cmds progs (keys @ e # rest) s = Inr (Some rest, s') \<and>
    line_buf s' = buffer_with (fold (\<lambda>c xs. edit xs c) keys []) \<and> history_ok s' \<and>
    (0 \<le> last_command_idx s \<or> before_history s \<noteq> fold (\<lambda>c xs. edit xs c) keys [] \<longrightarrow> 0 \<le> last_command_idx s' \<and>
      cstring (command_history s' ! nat (last_command_idx s')) = fold (\<lambda>c xs. edit xs c) keys [])"
proof -
  define s0 where "s0 = s\<lparr>line_buf := buffer_with [], echoed := echoed s @ map of_char ''FOS> '',
    commandidx := last_command_idx s + 1, prefix_list_idx := 0, lastIndex := 0, col := 0\<rparr>"
  have "clean 0 s0 []" by (simp add: clean_def s0_def)
  from typing[OF this assms(1), of cmds progs "e # rest"] assms(2) obtain s1 n where
    1: "prompt_loop cmds progs (keys @ e # rest) s0 = prompt_loop cmds progs (e # rest) s1"
      "clean n s1 (fold (\<lambda>c xs. edit xs c) keys [])" "n \<le> 1023" "same_history s0 s1" by auto
  have h: "history_ok s1" "last_command_idx s1 = last_command_idx s" "before_history s1 = before_history s"
    using 1(4) assms(4) by (simp_all add: same_history_def history_ok_def s0_def)
  from key_enter[OF 1(2,3) h(1) assms(3), of cmds progs] obtain s2 where
    2: "key cmds progs e s1 = Inr (Return, s2)" "line_buf s2 = buffer_with (fold (\<lambda>c xs. edit xs c) keys [])" "history_ok s2"
      "0 \<le> last_command_idx s \<or> before_history s \<noteq> fold (\<lambda>c xs. edit xs c) keys [] \<longrightarrow> 0 \<le> last_command_idx s2 \<and>
      cstring (command_history s2 ! nat (last_command_idx s2)) = fold (\<lambda>c xs. edit xs c) keys []" unfolding h(2,3) by blast
  have "read_command cmds progs (keys @ e # rest) s = prompt_loop cmds progs (keys @ e # rest) s0"
    by (simp add: read_command_def command_prompt_readline_def seqm_def echo_def s0_def)
  with 1(1) 2(1) have "read_command cmds progs (keys @ e # rest) s = Inr (Some rest, s2)" by simp
  with 2(2-4) show ?thesis by blast
qed

definition fresh_editor :: editor where
  "fresh_editor = \<lparr>line_buf = buffer_with [], col = 0, lastIndex = 0, commandidx = 0, prefix_list_idx = 0, prefix_list_size = 0,
     last_c = 0, command_history = replicate 10 (buffer_with []), last_command_idx = - 1, before_history = [],
     PrefixList = replicate 100 (buffer_with []), echoed = []\<rparr>"

text \<open>The arrow up brings back the line entered last: on the next prompt it puts that line into the buffer again,
  with the cursor behind it; before there is any history, the line has to differ from the bytes in
  front of the array, which the code compares it with.\<close>

theorem arrow_up_recalls:
  assumes "\<forall>c \<in> set keys. prints c \<or> c = 8" and "length (filter prints keys) \<le> 1023" and "e = 10 \<or> e = 13" and "history_ok s"
    and "xs = fold (\<lambda>c xs. edit xs c) keys []" and "0 \<le> last_command_idx s \<or> before_history s \<noteq> xs"
  shows "\<exists>s' s''. read_command cmds progs (keys @ [e]) s = Inr (Some [], s') \<and>
    read_command cmds progs [226] s' = Inr (None, s'') \<and> line_buf s'' = buffer_with xs \<and> col s'' = length xs"
proof -
  from read_command_typed[OF assms(1-4), of cmds progs "[]"] assms(5,6) obtain s' where
    s': "read_command cmds progs (keys @ [e]) s = Inr (Some [], s')" "history_ok s'" "0 \<le> last_command_idx s'"
      "cstring (command_history s' ! nat (last_command_idx s')) = xs" by auto
  define row where "row = command_history s' ! nat (last_command_idx s')"
  have i: "nat (last_command_idx s') < length (command_history s')" using s'(2,3) by (simp add: history_ok_def) linarith
  then have "0 \<in> set row" using s'(2) by (auto simp: history_ok_def row_def)
  then have t: "terminated row = ret xs" using s'(4) by (simp add: terminated_def row_def guard_def seqm_def bnd_def ret_def)
  have "\<exists>s''. read_command cmds progs [226] s' = Inr (None, s'') \<and> line_buf s'' = buffer_with xs \<and> col s'' = length xs"
    using i s'(3) t
    by (simp add: read_command_def command_prompt_readline_def seqm_def echo_def key_def clearandwritecommand_def
        rewrite_line_def row_def[symmetric] nat_less_iff)
  with s'(1) show ?thesis by blast
qed

theorem arrow_up_recalls_witness:
  "\<exists>s' s''. read_command [] [] [104, 105, 10] fresh_editor = Inr (Some [], s') \<and>
    read_command [] [] [226] s' = Inr (None, s'') \<and> line_buf s'' = buffer_with [104, 105] \<and> col s'' = length [104, 105]"
  using arrow_up_recalls[of "[104, 105]" 10 fresh_editor "[104, 105]" "[]" "[]"]
  by (simp add: prints_def KEY_DEL_code_def history_ok_def fresh_editor_def edit_def buffer_with_def BUFLEN_prompt_def)

section \<open>Completion\<close>

lemma split_one_word:
  assumes "w \<noteq> []" and "set w \<inter> ss = {}"
  shows "split_words ss w = [w]"
proof -
  have "dropWhile (\<lambda>c. c \<in> ss) w = w" using assms by (cases w) auto
  moreover have "takeWhile (\<lambda>c. c \<notin> ss) w = w" "dropWhile (\<lambda>c. c \<notin> ss) w = []"
    using assms(2) unfolding takeWhile_eq_all_conv dropWhile_eq_Nil_conv by blast+
  moreover have "split_words ss [] = []" by (subst split_words_step) simp
  ultimately show ?thesis using assms(1) by (subst split_words_step) (simp only: Let_def if_False)
qed

text \<open>The state after some tabulators: candidate \<open>k\<close> is in the line.\<close>

definition completing :: "uint8 list list \<Rightarrow> nat \<Rightarrow> editor \<Rightarrow> bool" where
  "completing cands k s \<longleftrightarrow> k < length cands \<and> prefix_list_idx s = k \<and> prefix_list_size s = length cands \<and>
     (\<exists>rows. PrefixList s = map buffer_with cands @ rows) \<and> last_c s = 9 \<and>
     line_buf s = buffer_with (cands ! k) \<and> col s = length (cands ! k) \<and> lastIndex s = length (cands ! k)"

definition names_ok :: "uint8 list list \<Rightarrow> bool" where
  "names_ok names \<longleftrightarrow> length names \<le> 100 \<and> (\<forall>xs \<in> set names. 0 \<notin> set xs \<and> length xs < BUFLEN_prompt)"

lemma first_tab:
  assumes "line_buf s = buffer_with w" and "w \<noteq> []" and "set w \<inter> whitespace = {}" and "0 \<notin> set w" and "length w < BUFLEN_prompt"
    and "last_c s \<noteq> 9" and "last_c s \<noteq> 255" and "cands = filter (starts_with w) cmds" and "cands \<noteq> []" and "names_ok cands"
  shows "\<exists>s'. prompt_loop cmds progs (9 # ks) s = prompt_loop cmds progs ks s' \<and> completing cands 0 s'"
proof -
  obtain x xs where c: "cands = x # xs" using assms(9) by (cases cands) auto
  have x: "0 \<notin> set x" "length x < BUFLEN_prompt" using assms(10) c by (auto simp: names_ok_def)
  have "x \<in> set (filter (starts_with w) cmds)" using assms(8) c by (metis list.set_intros(1))
  then have "starts_with w x" by simp
  then have "length w \<le> length x" by (metis starts_with_def length_take min.cobounded1)
  then have over: "x @ drop (length x) (buffer_with w) = buffer_with x" using x(2) by (simp add: buffer_with_def)
  have lw: "List.last w \<noteq> 32" using assms(2,3) last_in_set by (force simp: whitespace_def)
  have tw: "takeWhile (\<lambda>c. c \<notin> whitespace) w = w" using assms(3) unfolding takeWhile_eq_all_conv by blast
  have ok: "length cands \<le> 100" "\<forall>xs \<in> set cands. length xs < BUFLEN_prompt" using assms(10) by (auto simp: names_ok_def)
  note eval = complete_def clear_prefix_list_def seqm_def bnd_def gets_def modify_def ret_def
  let ?s = "s\<lparr>lastIndex := max (lastIndex s) (col s)\<rparr>"
  let ?s1 = "?s\<lparr>PrefixList := replicate 100 (buffer_with []), prefix_list_size := 0\<rparr>"
  have "complete cmds progs ?s = seqm (store_prefixes cands) (seqm (take_first (length w)) (ret True)) ?s1"
    using lw terminated_buffer[OF assms(4,5)] assms(1,2,6,7,9) split_one_word[OF assms(2,3)]
    by (simp add: tw eval Let_def whenM_def flip: assms(8))
  moreover have "\<exists>s1. seqm (store_prefixes cands) (seqm (take_first (length w)) (ret True)) ?s1 = Inr (True, s1) \<and>
      completing cands 0 (s1\<lparr>last_c := 9\<rparr>)"
    using ok terminated_buffer[OF x] over assms(1)
    by (simp add: store_prefixes_def seqm_def take_first_def echo_def completing_def c)
  ultimately have "\<exists>s1. complete cmds progs (s\<lparr>lastIndex := max (lastIndex s) (col s)\<rparr>) = Inr (True, s1) \<and>
      completing cands 0 (s1\<lparr>last_c := 9\<rparr>)" by simp
  then obtain s1 where 1: "complete cmds progs (s\<lparr>lastIndex := max (lastIndex s) (col s)\<rparr>) = Inr (True, s1)"
    "completing cands 0 (s1\<lparr>last_c := 9\<rparr>)" by blast
  then have "prompt_loop cmds progs (9 # ks) s = prompt_loop cmds progs ks (s1\<lparr>last_c := 9\<rparr>)"
    using assms(6) by (simp add: key_def seqm_def)
  with 1(2) show ?thesis by blast
qed

lemma next_tab:
  assumes "completing cands k s" and "names_ok cands"
  shows "\<exists>s'. prompt_loop cmds progs (9 # ks) s = prompt_loop cmds progs ks s' \<and> completing cands (Suc k mod length cands) s'"
proof -
  obtain rows where c: "k < length cands" "prefix_list_idx s = k" "prefix_list_size s = length cands"
    "PrefixList s = map buffer_with cands @ rows" "last_c s = 9" using assms(1) by (auto simp: completing_def)
  define k' where "k' = Suc k mod length cands"
  have k': "k' < length cands" unfolding k'_def using c(1) by (intro mod_less_divisor) auto
  have t: "terminated (PrefixList s ! j) = ret (cands ! j)" if "j < length cands" for j
    using that assms(2) terminated_buffer[of "cands ! j"] by (simp add: c(4) nth_append names_ok_def)
  have "\<exists>s1. complete_again (s\<lparr>lastIndex := max (lastIndex s) (col s)\<rparr>) = Inr ((), s1) \<and> completing cands k' (s1\<lparr>last_c := 9\<rparr>)"
    using c k' t[OF c(1)] t[OF k']
    by (simp add: complete_again_def whenM_def seqm_def Let_def k'_def[symmetric] RoundAutoCompleteCommandWithTheSamePrefix_def
        rewrite_line_def echo_def completing_def) (auto simp: c(4))
  then show ?thesis using c(5) by (auto simp: key_def seqm_def k'_def)
qed

lemma more_tabs:
  assumes "completing cands k s" and "names_ok cands"
  shows "\<exists>s'. prompt_loop cmds progs (replicate n 9) s = Inr (None, s') \<and> completing cands ((k + n) mod length cands) s'"
  using assms
proof (induction n arbitrary: k s)
  case 0
  then show ?case by (simp add: completing_def)
next
  case (Suc n)
  from next_tab[OF Suc.prems] obtain s1 where 1: "prompt_loop cmds progs (9 # replicate n 9) s = prompt_loop cmds progs (replicate n 9) s1"
    "completing cands (Suc k mod length cands) s1" by blast
  from Suc.IH[OF 1(2) Suc.prems(2)] 1(1) show ?case by (simp add: mod_add_left_eq)
qed

text \<open>Tabulators go around the commands that start with the word typed, in the order of the table: the first one
  completes it to the first of them, each further one to the next, and after the last comes the
  first again.\<close>

theorem tabs_cycle:
  assumes "line_buf s = buffer_with w" and "w \<noteq> []" and "set w \<inter> whitespace = {}" and "0 \<notin> set w" and "length w < BUFLEN_prompt"
    and "last_c s \<noteq> 9" and "last_c s \<noteq> 255" and "cands = filter (starts_with w) cmds" and "cands \<noteq> []" and "names_ok cands"
  shows "\<exists>s'. prompt_loop cmds progs (replicate (Suc n) 9) s = Inr (None, s') \<and>
    line_buf s' = buffer_with (cands ! (n mod length cands)) \<and> col s' = length (cands ! (n mod length cands))"
proof -
  from first_tab[OF assms, of progs "replicate n 9"] obtain s1 where
    1: "prompt_loop cmds progs (9 # replicate n 9) s = prompt_loop cmds progs (replicate n 9) s1" "completing cands 0 s1" by blast
  from more_tabs[OF 1(2) assms(10), of cmds progs n] 1(1) show ?thesis by (auto simp: completing_def)
qed

theorem tabs_cycle_witness:
  "\<exists>s'. prompt_loop [[114, 109], [114, 117, 98], [107], [114, 117, 110]] [] (replicate (Suc 2) 9)
      (fresh_editor\<lparr>line_buf := buffer_with [114, 117]\<rparr>) = Inr (None, s') \<and>
    line_buf s' = buffer_with [114, 117, 98] \<and> col s' = 3"
proof -
  let ?cmds = "[[114, 109], [114, 117, 98], [107], [114, 117, 110]] :: uint8 list list"
    and ?cands = "[[114, 117, 98], [114, 117, 110]] :: uint8 list list" and ?s = "fresh_editor\<lparr>line_buf := buffer_with [114, 117]\<rparr>"
  have c: "?cands ! (2 mod length ?cands) = [114, 117, 98]" by (simp add: numeral_2_eq_2)
  have h: "?cands = filter (starts_with [114, 117]) ?cmds" by (simp add: starts_with_def)
  have "\<exists>s'. prompt_loop ?cmds [] (replicate (Suc 2) 9) ?s = Inr (None, s') \<and>
      line_buf s' = buffer_with (?cands ! (2 mod length ?cands)) \<and> col s' = length (?cands ! (2 mod length ?cands))"
    by (rule tabs_cycle[OF _ _ _ _ _ _ _ h]) (simp_all add: whitespace_def fresh_editor_def names_ok_def BUFLEN_prompt_def)
  then show ?thesis unfolding c by (simp add: numeral_3_eq_3)
qed

text \<open>When no program starts with the second word, the line keeps only the first one, although the screen still shows both.\<close>

lemma unknown_argument_is_lost:
  "\<exists>s'. complete [] [] (fresh_editor\<lparr>line_buf := buffer_with [114, 117, 110, 32, 120], col := 5, lastIndex := 5\<rparr>) = Inr (True, s') \<and>
     cstring (line_buf s') = [114, 117, 110, 32] \<and> col s' = 5 \<and> echoed s' = []"
proof -
  let ?w = "[114, 117, 110, 32, 120] :: uint8 list"
  have ws: "split_words whitespace ?w = [[114, 117, 110], [120]]" by (simp add: whitespace_def split_words.simps)
  have t: "terminated (buffer_with ?w) = ret ?w" by (rule terminated_buffer) (simp_all add: BUFLEN_prompt_def)
  have run: "map of_char ''run'' = ([114, 117, 110] :: uint8 list)" by simp
  have b: "(buffer_with ?w)[Suc (Suc (Suc (Suc 0))) := 0] = buffer_with [114, 117, 110, 32]" using buffer_butlast[of ?w] by (simp add: BUFLEN_prompt_def)
  have c: "cstring (buffer_with [114, 117, 110, 32]) = [114, 117, 110, 32]"
    using cstring_zeros[of "[114, 117, 110, 32]"] by (simp add: buffer_with_def)
  show ?thesis
    by (simp add: complete_def clear_prefix_list_def seqm_def fresh_editor_def t ws run whenM_def set_buf_def BUFLEN_prompt_def
        store_prefixes_def Let_def b c)
qed

section \<open>The loop ends with Enter\<close>

lemma prompt_loop_consumes: "prompt_loop cmds progs keys s = Inr (Some rest, s') \<Longrightarrow> length rest < length keys"
proof (induction keys arbitrary: s)
  case (Cons c keys)
  from Cons.prems obtain v s1 where k: "key cmds progs c s = Inr (v, s1)" by (auto simp: bnd_def split: sum.splits)
  show ?case
  proof (cases v)
    case Return
    with k Cons.prems show ?thesis by simp
  next
    case Next
    with k Cons.prems Cons.IH[of "s1\<lparr>last_c := c\<rparr>"] show ?thesis by (simp add: seqm_def)
  next
    case Continue
    with k Cons.prems Cons.IH[of s1] show ?thesis by simp
  qed
qed simp

lemma read_command_consumes: "read_command cmds progs keys s = Inr (Some rest, s') \<Longrightarrow> length rest < length keys"
  by (auto simp: read_command_def command_prompt_readline_def seqm_def echo_def dest: prompt_loop_consumes)

end
