(* ===== verification/Shell.thy ===== *)
theory Shell
  imports Commands_Props Prompt_Props
begin

text \<open>
  The loop of the command prompt, \<open>run_command_prompt\<close> of kern/command_prompt.c: the line editor with the names of the
  commands and of the programs, and the interpreter on the line that was read.
\<close>

definition command_names :: "uint8 list list" where
  "command_names = map (\<lambda>c. map of_char (fst c)) commands"

definition program_names :: "uint8 list list" where
  "program_names = map (\<lambda>p. map of_char (fst p)) userPrograms"

text \<open>
  The line is at \<open>command_line\<close> in the memory of the prompt, the separators at \<open>sep\<close>.  The result is what
  the commands printed and the two states when the prompt waits for more keys, or has ended.
\<close>

function run_command_prompt ::
  "machine \<Rightarrow> memory \<Rightarrow> uint32 \<Rightarrow> uint32 \<Rightarrow> int list \<Rightarrow> print list \<Rightarrow> editor \<Rightarrow> kstate \<Rightarrow> error + print list \<times> editor \<times> kstate" where
  "run_command_prompt mach m sep command_line keys out ed s =
     (case read_command command_names program_names keys ed of
        Inl err \<Rightarrow> Inl err
      | Inr (None, ed) \<Rightarrow> Inr (out, ed, s)
      | Inr (Some rest, ed) \<Rightarrow>
         (case execute_command mach (bytes_from command_line (line_buf ed) m) sep command_line s of
            Inl err \<Rightarrow> Inl err
          | Inr ((r, out'), s) \<Rightarrow>
              if r < 0 then Inr (out @ out', ed, s)
              else run_command_prompt mach m sep command_line rest (out @ out') ed s))"
  by pat_completeness auto
termination
  by (relation "measure (\<lambda>(mach, m, sep, command_line, keys, out, ed, s). length keys)") (auto dest: read_command_consumes)

declare run_command_prompt.simps [simp del]

lemma string_in_buffer:
  assumes "0 \<notin> set xs" and "length xs < BUFLEN_prompt"
  shows "string_at (bytes_from p (buffer_with xs) m) p xs"
  unfolding string_at_nth
proof (intro conjI allI impI)
  have u: "unat (p + of_nat i - p) = i" if "i \<le> length xs" for i
    using that assms(2) by (simp add: unat_of_nat_small BUFLEN_prompt_def)
  have l: "length (buffer_with xs) = BUFLEN_prompt" using assms(2) by simp
  fix i assume i: "i < length xs"
  then show "bytes_from p (buffer_with xs) m (p + of_nat i) = xs ! i"
    using u[of i] l assms(2) by (simp add: bytes_from_def Let_def buffer_with_def nth_append)
  from i assms(1) show "xs ! i \<noteq> 0" by (metis nth_mem)
next
  have "unat (p + of_nat (length xs) - p) = length xs" using assms(2) by (simp add: unat_of_nat_small BUFLEN_prompt_def)
  then show "bytes_from p (buffer_with xs) m (p + of_nat (length xs)) = 0"
    using assms(2) buffer_nth[of xs "length xs"] by (simp add: bytes_from_def Let_def)
qed

lemma bytes_from_outside: "length xs \<le> unat (a - p) \<Longrightarrow> bytes_from p xs m a = m a"
  by (simp add: bytes_from_def)

lemma edit_bounds:
  assumes "\<forall>c \<in> set keys. prints c \<or> c = 8"
  shows "0 \<notin> set xs \<Longrightarrow> 0 \<notin> set (fold (\<lambda>c xs. edit xs c) keys xs) \<and>
    length (fold (\<lambda>c xs. edit xs c) keys xs) \<le> length xs + length (filter prints keys)"
  using assms
proof (induction keys arbitrary: xs)
  case (Cons c keys)
  have e: "0 \<notin> set (edit xs c)" "length (edit xs c) \<le> length xs + length (filter prints [c])"
    using Cons.prems of_int_nonzero[of c] by (auto simp: edit_def prints_def dest: in_set_butlastD)
  from Cons.IH[OF e(1)] Cons.prems(2) e(2) show ?case by auto
qed simp

text \<open>C26: The prompt runs what is typed: after characters, backspaces and Enter, the command that the first word of
  the corrected text names is run on the words of that text, an unknown word is reported, and the
  prompt goes on with the keys that follow.\<close>

theorem prompt_runs_typed_command:
  assumes "\<forall>c \<in> set keys. prints c \<or> c = 8" and "length (filter prints keys) \<le> 1023" and "e = 10 \<or> e = 13" and "history_ok ed"
    and "ws = split_words {9, 13, 10, 32} (fold (\<lambda>c xs. edit xs c) keys [])"
    and "separators m sep [9, 13, 10, 32]" and "apart command_line 1024 sep 4"
  shows "\<exists>ed' m' args. history_ok ed' \<and> list_all2 (string_at m') args (take 15 ws) \<and>
    run_command_prompt mach m sep command_line (keys @ e # rest) out ed s =
      (case (case ws of [] \<Rightarrow> finished []
          | w # _ \<Rightarrow> (case find (\<lambda>c. fst c = to_string w) commands of
              Some (_, _, function_to_execute) \<Rightarrow> function_to_execute mach m' args
            | None \<Rightarrow> finished [(''Unknown command '' @ [CHR 0x27] @ ''%s'' @ [CHR 0x27] @ ''\<newline>'', [Str (to_string w)])])) s of
         Inl err \<Rightarrow> Inl err
       | Inr ((_, printed), s') \<Rightarrow> run_command_prompt mach m sep command_line rest (out @ printed) ed' s')"
proof -
  define xs where "xs = fold (\<lambda>c xs. edit xs c) keys []"
  define m1 where "m1 = bytes_from command_line (buffer_with xs) m"
  from edit_bounds[OF assms(1), of "[]"] assms(2) have xs: "0 \<notin> set xs" "length xs < BUFLEN_prompt"
    by (auto simp: xs_def BUFLEN_prompt_def)
  have "string_at m1 command_line xs" unfolding m1_def by (rule string_in_buffer[OF xs])
  moreover have "separators m1 sep [9, 13, 10, 32]"
    using assms(6)
  proof (rule separators_cong)
    fix i assume i: "i \<le> length [9, 13, 10, 32 :: uint8]"
    have "BUFLEN_prompt \<le> unat (sep + of_nat i - command_line)"
    proof (rule ccontr)
      assume "\<not> BUFLEN_prompt \<le> unat (sep + of_nat i - command_line)"
      moreover define k where "k = unat (sep + of_nat i - command_line)"
      ultimately have "k \<le> 1024" "command_line + of_nat k = sep + of_nat i" by (simp_all add: BUFLEN_prompt_def)
      with assms(7) i show False by (auto simp: apart_def)
    qed
    then show "m1 (sep + of_nat i) = m (sep + of_nat i)"
      unfolding m1_def by (intro bytes_from_outside) (use xs(2) in simp)
  qed
  moreover have "apart command_line (length xs) sep 4" using assms(7) xs(2) by (auto simp: apart_def BUFLEN_prompt_def)
  moreover have "length xs < 2 ^ 32" using xs(2) by (simp add: BUFLEN_prompt_def)
  ultimately obtain m' args where args: "list_all2 (string_at m') args (take 15 ws)"
    and ex: "execute_command mach m1 sep command_line = (case ws of [] \<Rightarrow> finished []
      | w # _ \<Rightarrow> (case find (\<lambda>c. fst c = to_string w) commands of
          Some (_, _, function_to_execute) \<Rightarrow> function_to_execute mach m' args
        | None \<Rightarrow> finished [(''Unknown command '' @ [CHR 0x27] @ ''%s'' @ [CHR 0x27] @ ''\<newline>'', [Str (to_string w)])]))"
    using execute_command_words[of m1 command_line xs sep mach] assms(5) unfolding xs_def[symmetric] by blast
  from read_command_typed[OF assms(1-4), of command_names program_names rest] obtain ed' where
    ed: "read_command command_names program_names (keys @ e # rest) ed = Inr (Some rest, ed')"
      "line_buf ed' = buffer_with xs" "history_ok ed'" unfolding xs_def by blast
  have zero: "r = 0" if "execute_command mach m1 sep command_line s = Inr ((r, printed), s')" for r printed s'
    using that execute_command_zero unfolding returns_zero_def by blast
  have "run_command_prompt mach m sep command_line (keys @ e # rest) out ed s =
    (case execute_command mach m1 sep command_line s of Inl err \<Rightarrow> Inl err
       | Inr ((_, printed), s') \<Rightarrow> run_command_prompt mach m sep command_line rest (out @ printed) ed' s')"
    using zero by (subst run_command_prompt.simps) (auto simp: ed m1_def split: sum.splits prod.splits)
  with ed(3) args ex show ?thesis by auto
qed

text \<open>The keys "fify", backspace, "o" and Enter at a fresh prompt.\<close>

lemma prompt_waits: "\<exists>ed'. run_command_prompt mach m sep line [] out ed s = Inr (out, ed', s)"
  by (subst run_command_prompt.simps) (simp add: read_command_def command_prompt_readline_def seqm_def echo_def)

theorem prompt_runs_typed_command_witness:
  "\<forall>mach s. \<exists>ed'. run_command_prompt mach (bytes_from 0x100 [9, 13, 10, 32, 0] (\<lambda>a. 1)) 0x100 0x1000
      [102, 105, 102, 121, 8, 111, 10] [] fresh_editor s =
    Inr ([(''Page replacement algorithm is now FIFO\<newline>'', [])], ed', s\<lparr>PageRepAlgoType := PG_REP_FIFO\<rparr>)"
proof (intro allI)
  fix mach s
  let ?keys = "[102, 105, 102, 121, 8, 111] :: int list" and ?m = "bytes_from 0x100 [9, 13, 10, 32, 0] (\<lambda>a. 1)"
  have w: "[[102, 105, 102, 111]] = split_words {9, 13, 10, 32} (fold (\<lambda>c xs. edit xs c) ?keys [])"
    by (simp add: edit_def split_words.simps)
  have ap: "apart 0x1000 1024 0x100 4"
    unfolding apart_def
  proof (intro allI impI)
    fix i j :: nat assume i: "i \<le> 1024" and j: "j \<le> 4"
    then have "unat (0x1000 + of_nat i :: uint32) = 0x1000 + i" "unat (0x100 + of_nat j :: uint32) = 0x100 + j"
      by (subst word_add_le_unat; simp add: unat_of_nat_small)+
    moreover have "0x1000 + i \<noteq> 0x100 + j" using j by simp
    ultimately show "(0x1000 :: uint32) + of_nat i \<noteq> 0x100 + of_nat j" by metis
  qed
  have sp: "separators ?m 0x100 [9, 13, 10, 32]" by (simp add: separators_def bytes_from_def)
  have k: "\<forall>c \<in> set ?keys. prints c \<or> c = 8" "length (filter prints ?keys) \<le> 1023" "(10 :: int) = 10 \<or> (10 :: int) = 13" "history_ok fresh_editor"
    by (simp_all add: prints_def KEY_DEL_code_def history_ok_def fresh_editor_def buffer_with_def BUFLEN_prompt_def)
  from prompt_runs_typed_command[OF k w sp ap, of mach "[]" "[]" s] obtain ed' m' args where
    r: "run_command_prompt mach ?m 0x100 0x1000 (?keys @ [10]) [] fresh_editor s =
      (case (case find (\<lambda>c. fst c = ''fifo'') commands of
              Some (_, _, function_to_execute) \<Rightarrow> function_to_execute mach m' args
            | None \<Rightarrow> finished [(''Unknown command '' @ [CHR 0x27] @ ''%s'' @ [CHR 0x27] @ ''\<newline>'', [Str ''fifo''])]) s of
         Inl err \<Rightarrow> Inl err
       | Inr ((_, printed), s') \<Rightarrow> run_command_prompt mach ?m 0x100 0x1000 [] ([] @ printed) ed' s')"
    unfolding list.case fifo_line(6) by blast
  then show "\<exists>ed'. run_command_prompt mach ?m 0x100 0x1000 [102, 105, 102, 121, 8, 111, 10] [] fresh_editor s =
    Inr ([(''Page replacement algorithm is now FIFO\<newline>'', [])], ed', s\<lparr>PageRepAlgoType := PG_REP_FIFO\<rparr>)"
    using prompt_waits[of mach ?m "0x100" "0x1000" _ ed'] unfolding find_fifo
    by (simp add: command_set_page_rep_FIFO_def now_def setPageReplacmentAlgorithm_def finished_def seqm_def)
qed

end
