(* ===== verification/Disk.thy ===== *)
theory Disk
  imports Cstring
begin

text \<open>
  The disk driver, lib/disk.c, and the boot loader, boot/main.c, which has a driver of its own.  The
  answers of the status register are a list.  What is written to the ports of the controller, and each
  transfer of a sector, is an event; the bytes of a sector that is read are a function of the events before,
  which the controller computes and which is a parameter, \<open>dev\<close>.
\<close>

unbundle bit_operations_syntax

datatype ide_event = Out uint16 uint8 | In_sector | Out_sector "uint8 list"

record ide =
  status :: "uint8 list"
  events :: "ide_event list"
  ram :: memory

type_synonym device = "ide_event list \<Rightarrow> nat \<Rightarrow> uint8"

definition SECTSIZE :: uint32 where "SECTSIZE = 512"

section \<open>Ports\<close>

definition out :: "uint16 \<Rightarrow> uint8 \<Rightarrow> (ide, unit) M" where
  "out port v = modify (\<lambda>s. s\<lparr>events := events s @ [Out port v]\<rparr>)"

text \<open>A sector comes in as 128 words; they are stored from \<open>dst\<close> on.\<close>

definition store_block :: "uint32 \<Rightarrow> (nat \<Rightarrow> uint8) \<Rightarrow> memory \<Rightarrow> memory" where
  "store_block dst d m = (\<lambda>a. if unat (a - dst) < 512 then d (unat (a - dst)) else m a)"

definition insl :: "device \<Rightarrow> uint32 \<Rightarrow> (ide, unit) M" where
  "insl dev dst = modify (\<lambda>s. s\<lparr>ram := store_block dst (dev (events s)) (ram s), events := events s @ [In_sector]\<rparr>)"

definition outsl :: "uint32 \<Rightarrow> (ide, unit) M" where
  "outsl src = modify (\<lambda>s. s\<lparr>events := events s @ [Out_sector (map (\<lambda>i. ram s (src + of_nat i)) [0..<512])]\<rparr>)"

definition IDE_BSY :: uint8 where "IDE_BSY = 0x80"
definition IDE_DRDY :: uint8 where "IDE_DRDY = 0x40"
definition IDE_DF :: uint8 where "IDE_DF = 0x20"
definition IDE_ERR :: uint8 where "IDE_ERR = 0x01"

text \<open>Polling until the controller is ready and not busy; \<open>OutOfFuel\<close> when it never is.\<close>

fun poll :: "uint8 list \<Rightarrow> (uint8 \<times> uint8 list) option" where
  "poll [] = None"
| "poll (r # rs) = (if r AND (IDE_BSY OR IDE_DRDY) \<noteq> IDE_DRDY then poll rs else Some (r, rs))"

definition ide_wait_ready :: "bool \<Rightarrow> (ide, int) M" where
  "ide_wait_ready check_error = bnd (gets (\<lambda>s. poll (status s))) (\<lambda>p. case p of
       None \<Rightarrow> raise OutOfFuel
     | Some (r, rs) \<Rightarrow> seqm (modify (\<lambda>s. s\<lparr>status := rs\<rparr>))
         (ret (if check_error \<and> r AND (IDE_DF OR IDE_ERR) \<noteq> 0 then -1 else 0)))"

section \<open>Reading and writing sectors\<close>

definition diskno :: uint32 where "diskno = 0"

definition ide_command :: "uint32 \<Rightarrow> uint32 \<Rightarrow> uint8 \<Rightarrow> (ide, unit) M" where
  "ide_command secno nsecs cmd =
     seqm (out 0x1F2 (ucast nsecs))
     (seqm (out 0x1F3 (ucast (secno AND 0xFF)))
     (seqm (out 0x1F4 (ucast (drop_bit 8 secno AND 0xFF)))
     (seqm (out 0x1F5 (ucast (drop_bit 16 secno AND 0xFF)))
     (seqm (out 0x1F6 (ucast (0xE0 OR push_bit 4 (diskno AND 1) OR (drop_bit 24 secno AND 0x0F))))
       (out 0x1F7 cmd)))))"

text \<open>The loop over the sectors ends with the first error.\<close>

primrec transfer :: "nat \<Rightarrow> uint32 \<Rightarrow> (uint32 \<Rightarrow> (ide, unit) M) \<Rightarrow> (ide, int) M" where
  "transfer 0 a step = ret 0"
| "transfer (Suc n) a step = bnd (ide_wait_ready True) (\<lambda>r.
     if r < 0 then ret r else seqm (step a) (transfer n (a + SECTSIZE) step))"

definition ide_read :: "device \<Rightarrow> uint32 \<Rightarrow> uint32 \<Rightarrow> uint32 \<Rightarrow> (ide, int) M" where
  "ide_read dev secno dst nsecs =
     seqm (guard (nsecs \<le> 256) AssertFailed)
     (bnd (ide_wait_ready False) (\<lambda>_.
      seqm (ide_command secno nsecs 0x20) (transfer (unat nsecs) dst (insl dev))))"

definition ide_write :: "uint32 \<Rightarrow> uint32 \<Rightarrow> uint32 \<Rightarrow> (ide, int) M" where
  "ide_write secno src nsecs =
     seqm (guard (nsecs \<le> 256) AssertFailed)
     (bnd (ide_wait_ready False) (\<lambda>_.
      seqm (ide_command secno nsecs 0x30) (transfer (unat nsecs) src outsl)))"

section \<open>The boot loader (boot/main.c)\<close>

definition waitdisk :: "(ide, unit) M" where
  "waitdisk = bnd (gets (\<lambda>s. poll (status s))) (\<lambda>p. case p of
       None \<Rightarrow> raise OutOfFuel
     | Some (r, rs) \<Rightarrow> modify (\<lambda>s. s\<lparr>status := rs\<rparr>))"

definition readsect :: "device \<Rightarrow> uint32 \<Rightarrow> uint32 \<Rightarrow> (ide, unit) M" where
  "readsect dev dst offset =
     seqm waitdisk
     (seqm (out 0x1F2 1)
     (seqm (out 0x1F3 (ucast offset))
     (seqm (out 0x1F4 (ucast (drop_bit 8 offset)))
     (seqm (out 0x1F5 (ucast (drop_bit 16 offset)))
     (seqm (out 0x1F6 (ucast (drop_bit 24 offset OR 0xE0)))
     (seqm (out 0x1F7 0x20)
     (seqm waitdisk (insl dev dst))))))))"

text \<open>\<open>fuel\<close> bounds the number of sectors, since the address may wrap around for an end near the top of memory.\<close>

fun readseg_loop :: "nat \<Rightarrow> device \<Rightarrow> uint32 \<Rightarrow> uint32 \<Rightarrow> uint32 \<Rightarrow> (ide, unit) M" where
  "readseg_loop 0 dev va end_va offset = raise OutOfFuel"
| "readseg_loop (Suc n) dev va end_va offset =
     (if va < end_va then seqm (readsect dev va offset) (readseg_loop n dev (va + SECTSIZE) end_va (offset + 1)) else ret ())"

definition readseg :: "device \<Rightarrow> uint32 \<Rightarrow> uint32 \<Rightarrow> uint32 \<Rightarrow> (ide, unit) M" where
  "readseg dev va count offset =
     (let va = va AND 0xFFFFFF; end_va = va + count in
      readseg_loop (unat count div 512 + 3) dev (va AND NOT (SECTSIZE - 1)) end_va (offset div SECTSIZE + 1))"

definition ram_half :: "memory \<Rightarrow> uint32 \<Rightarrow> uint32" where
  "ram_half m a = ucast (m a) OR push_bit 8 (ucast (m (a + 1)))"

definition ram_word :: "memory \<Rightarrow> uint32 \<Rightarrow> uint32" where
  "ram_word m a = ram_half m a OR push_bit 16 (ram_half m (a + 2))"

definition ELFHDR :: uint32 where "ELFHDR = 0x10000"
definition ELF_MAGIC_boot :: uint32 where "ELF_MAGIC_boot = 0x464C457F"

text \<open>Each program header is read from memory when its turn comes, behind the segments loaded before.\<close>

primrec load_headers :: "nat \<Rightarrow> device \<Rightarrow> uint32 \<Rightarrow> (ide, unit) M" where
  "load_headers 0 dev ph = ret ()"
| "load_headers (Suc n) dev ph = bnd (gets ram) (\<lambda>m.
     seqm (readseg dev (ram_word m (ph + 8)) (ram_word m (ph + 20)) (ram_word m (ph + 4))) (load_headers n dev (ph + 32)))"

text \<open>The address the loader jumps to, or \<open>None\<close> when the image is not valid and the machine stops.\<close>

definition cmain :: "device \<Rightarrow> (ide, uint32 option) M" where
  "cmain dev =
     seqm (readseg dev ELFHDR (SECTSIZE * 8) 0)
     (bnd (gets ram) (\<lambda>m.
      if ram_word m ELFHDR \<noteq> ELF_MAGIC_boot then ret None
      else seqm (let n = unat (ram_half m (ELFHDR + 44)); ph = ELFHDR + ram_word m (ELFHDR + 28); eph = ph + 32 * of_nat n in
          load_headers (if ph < eph then n else 0) dev ph)
        (bnd (gets ram) (\<lambda>m. ret (Some (ram_word m (ELFHDR + 24) AND 0xFFFFFF))))))"

end
