(* ===== verification/Disk_Props.thy ===== *)
theory Disk_Props
  imports Disk
begin

text \<open>
  The disk driver and the boot loader against the contents of the disk: what the controller answers to
  the read command, by its documentation, is the hypothesis \<open>ide_device\<close>; the driver then brings the
  sectors, and the loader the bytes of the image, to where they belong.
\<close>

unbundle bit_operations_syntax

section \<open>What the controller does\<close>

text \<open>The address of a sector is in four registers; only half of the last belongs to it.\<close>

definition lba :: "uint8 \<Rightarrow> uint8 \<Rightarrow> uint8 \<Rightarrow> uint8 \<Rightarrow> nat" where
  "lba r0 r1 r2 r3 = unat r0 + 256 * unat r1 + 65536 * unat r2 + 16777216 * (unat r3 mod 16)"

definition read_command :: "uint8 \<Rightarrow> uint8 \<Rightarrow> uint8 \<Rightarrow> uint8 \<Rightarrow> uint8 \<Rightarrow> ide_event list" where
  "read_command n r0 r1 r2 r3 = [Out 0x1F2 n, Out 0x1F3 r0, Out 0x1F4 r1, Out 0x1F5 r2, Out 0x1F6 r3, Out 0x1F7 0x20]"

text \<open>After a read command for the first disk the sectors come one after the other, as many as were asked for; 0 asks for 256.\<close>

definition ide_device :: "device \<Rightarrow> (nat \<Rightarrow> nat \<Rightarrow> uint8) \<Rightarrow> bool" where
  "ide_device dev disk \<longleftrightarrow> (\<forall>es n r0 r1 r2 r3 k. r3 AND 0xF0 = 0xE0 \<and> k < (if n = 0 then 256 else unat n) \<longrightarrow>
     dev (es @ read_command n r0 r1 r2 r3 @ replicate k In_sector) = disk (lba r0 r1 r2 r3 + k))"

text \<open>A device that does so.\<close>

fun last_read :: "(nat \<Rightarrow> nat \<Rightarrow> uint8) \<Rightarrow> nat \<Rightarrow> ide_event list \<Rightarrow> nat \<Rightarrow> uint8" where
  "last_read disk k (In_sector # es) = last_read disk (Suc k) es"
| "last_read disk k (Out p5 c # Out p4 r3 # Out p3 r2 # Out p2 r1 # Out p1 r0 # es) = disk (lba r0 r1 r2 r3 + k)"
| "last_read disk k es = (\<lambda>_. 0)"

definition a_device :: "(nat \<Rightarrow> nat \<Rightarrow> uint8) \<Rightarrow> device" where
  "a_device disk es = last_read disk 0 (rev es)"

lemma last_read_replicate: "last_read disk j (replicate k In_sector @ es) = last_read disk (j + k) es"
  by (induction k arbitrary: j) simp_all

lemma a_device: "ide_device (a_device disk) disk"
  by (simp add: ide_device_def a_device_def last_read_replicate read_command_def)

section \<open>Blocks in memory\<close>

definition store_blocks :: "uint32 \<Rightarrow> nat \<Rightarrow> (nat \<Rightarrow> nat \<Rightarrow> uint8) \<Rightarrow> memory \<Rightarrow> memory" where
  "store_blocks a n d m = (\<lambda>x. if unat (x - a) < 512 * n then d (unat (x - a) div 512) (unat (x - a) mod 512) else m x)"

lemma store_blocks_0 [simp]: "store_blocks a 0 d m = m"
  by (simp add: store_blocks_def)

lemma store_blocks_Suc:
  assumes n: "512 * Suc n \<le> 2 ^ 32"
  shows "store_blocks (a + 512) n (\<lambda>k. d (Suc k)) (store_block a (d 0) m) = store_blocks a (Suc n) d m"
proof
  fix x
  define y where "y = unat (x - a)"
  have y: "y < 2 ^ 32"
    using unsigned_less [of "x - a", where ?'a = nat] unfolding y_def by simp
  have s: "x - (a + 512) = (x - a) - 512"
    by simp
  show "store_blocks (a + 512) n (\<lambda>k. d (Suc k)) (store_block a (d 0) m) x = store_blocks a (Suc n) d m x"
  proof (cases "y < 512")
    case True
    have "unat ((x - a) - 512) = y + 2 ^ 32 - 512"
      using True unfolding y_def by (simp add: unat_sub_if_size word_size)
    then have "\<not> unat (x - (a + 512)) < 512 * n"
      using n unfolding s by simp
    then show ?thesis
      using True n by (simp add: store_blocks_def store_block_def flip: y_def)
  next
    case False
    have "unat ((x - a) - 512) = y - 512"
      using False unfolding y_def by (simp add: unat_sub_if_size word_size)
    then have e: "unat (x - (a + 512)) = y - 512"
      unfolding s .
    show ?thesis
      using False by (auto simp add: store_blocks_def store_block_def e le_div_geq le_mod_geq simp flip: y_def)
  qed
qed

section \<open>The driver\<close>

text \<open>The controller gets ready \<open>n\<close> times, without an error.\<close>

fun served :: "nat \<Rightarrow> uint8 list \<Rightarrow> uint8 list option" where
  "served 0 st = Some st"
| "served (Suc n) st = (case poll st of None \<Rightarrow> None
     | Some (r, rs) \<Rightarrow> if r AND (IDE_DF OR IDE_ERR) \<noteq> 0 then None else served n rs)"

lemma transfer_insl:
  assumes "served n (status s) = Some rest"
    and "events s = es @ replicate j In_sector"
    and "\<And>k. k < j + n \<Longrightarrow> dev (es @ replicate k In_sector) = d k"
    and "512 * n \<le> 2 ^ 32"
  shows "transfer n a (insl dev) s = Inr (0, s\<lparr>status := rest, events := es @ replicate (j + n) In_sector,
     ram := store_blocks a n (\<lambda>k. d (j + k)) (ram s)\<rparr>)"
  using assms
proof (induction n arbitrary: a s j)
  case 0
  then show ?case
    by (cases s) simp
next
  case (Suc n)
  obtain r rs where p: "poll (status s) = Some (r, rs)" and r: "r AND (IDE_DF OR IDE_ERR) = 0"
    and rest: "served n rs = Some rest"
    using Suc.prems(1) by (auto split: option.splits if_splits)
  define t where "t = s\<lparr>status := rs, ram := store_block a (d j) (ram s), events := es @ replicate (Suc j) In_sector\<rparr>"
  have w: "ide_wait_ready True s = Inr (0, s\<lparr>status := rs\<rparr>)"
    by (simp add: ide_wait_ready_def p r)
  have dj: "dev (events s) = d j"
    using Suc.prems(3) [of j] by (simp add: Suc.prems(2))
  have "insl dev a (s\<lparr>status := rs\<rparr>) = Inr ((), t)"
    by (simp add: insl_def t_def dj [unfolded Suc.prems(2)] Suc.prems(2) flip: replicate_append_same)
  then have "transfer (Suc n) a (insl dev) s = transfer n (a + SECTSIZE) (insl dev) t"
    by (simp add: w)
  also have "\<dots> = Inr (0, t\<lparr>status := rest, events := es @ replicate (Suc j + n) In_sector,
     ram := store_blocks (a + SECTSIZE) n (\<lambda>k. d (Suc j + k)) (ram t)\<rparr>)"
    by (rule Suc.IH) (use Suc.prems rest in \<open>simp_all add: t_def\<close>)
  also have "store_blocks (a + SECTSIZE) n (\<lambda>k. d (Suc j + k)) (ram t) = store_blocks a (Suc n) (\<lambda>k. d (j + k)) (ram s)"
    using store_blocks_Suc [of n a "\<lambda>k. d (j + k)" "ram s"] Suc.prems(4) by (simp add: t_def SECTSIZE_def)
  finally show ?case
    by (simp add: t_def)
qed

lemma transfer_fails:
  assumes "served k (status s) = Some st" and "poll st = Some (r, rs)" and "r AND (IDE_DF OR IDE_ERR) \<noteq> 0" and "k < n"
    and step: "\<And>a s. \<exists>t. step a s = Inr ((), t) \<and> status t = status s"
  shows "\<exists>t. transfer n a step s = Inr (-1, t)"
  using assms(1-4)
proof (induction k arbitrary: n a s)
  case 0
  then obtain n' where "n = Suc n'"
    by (cases n) auto
  with 0 show ?case
    by (simp add: ide_wait_ready_def)
next
  case (Suc k)
  then obtain n' where n: "n = Suc n'"
    by (cases n) auto
  obtain q qs where p: "poll (status s) = Some (q, qs)" and q: "q AND (IDE_DF OR IDE_ERR) = 0" and k: "served k qs = Some st"
    using Suc.prems(1) by (auto split: option.splits if_splits)
  obtain t where t: "step a (s\<lparr>status := qs\<rparr>) = Inr ((), t)" and st: "status t = qs"
    using step [of a "s\<lparr>status := qs\<rparr>"] by auto
  have w: "ide_wait_ready True s = Inr (0, s\<lparr>status := qs\<rparr>)"
    by (simp add: ide_wait_ready_def p q)
  have "\<exists>u. transfer n' (a + SECTSIZE) step t = Inr (-1, u)"
    by (rule Suc.IH) (use Suc.prems k st n in simp_all)
  then show ?case
    by (simp add: n w t)
qed

lemma mod_16: "unat (r AND 15) = unat (r :: 'a::len word) mod 16" if "4 \<le> LENGTH('a)"
proof -
  have "r AND 15 = take_bit 4 r"
    by (simp add: take_bit_eq_mask mask_eq_exp_minus_1)
  then have "unat (r AND 15) = take_bit 4 (unat r)"
    using that by (metis unsigned_take_bit_eq)
  then show ?thesis
    by (simp add: take_bit_eq_mod)
qed

lemma digits:
  fixes n :: nat
  assumes "n = 256 * a + d0" and "a = 256 * b + d1" and "b = 256 * c + d2"
  shows "d0 + 256 * d1 + 65536 * d2 + 16777216 * c = n"
  unfolding assms by simp

lemma lba_split:
  fixes x :: uint32
  assumes x: "unat x < 2 ^ 28" and "r0 = ucast x" and "r1 = ucast (drop_bit 8 x)" and "r2 = ucast (drop_bit 16 x)"
    and r3: "r3 AND 15 = ucast (drop_bit 24 x AND 15)"
  shows "lba r0 r1 r2 r3 = unat x"
proof -
  define n where "n = unat x"
  have l: "unat (drop_bit 24 x AND 15) = n div 16777216 mod 16"
    by (simp add: mod_16 unat_drop_bit_eq n_def) (simp add: drop_bit_eq_div)
  have "unat r3 mod 16 = unat (ucast (drop_bit 24 x AND 15) :: uint8)"
    using mod_16 [of r3] by (simp add: r3)
  also have "\<dots> = n div 16777216 mod 16"
    using l by (simp add: unsigned_ucast_eq take_bit_nat_eq_self)
  finally have b3: "unat r3 mod 16 = n div 16777216 mod 16" .
  have "unat r0 = n mod 256" "unat r1 = n div 256 mod 256" "unat r2 = n div 65536 mod 256"
    unfolding assms n_def by (simp_all add: unsigned_ucast_eq unat_drop_bit_eq take_bit_eq_mod)
      (simp_all add: drop_bit_eq_div)
  moreover have "n mod 256 + 256 * (n div 256 mod 256) + 65536 * (n div 65536 mod 256) + 16777216 * (n div 16777216) = n"
    by (rule digits [of n "n div 256" _ "n div 65536"]) (simp_all add: div_mult2_eq [of n 256 256, simplified] div_mult2_eq [of n 65536 256, simplified])
  ultimately show ?thesis
    using x unfolding lba_def b3 by (simp flip: n_def)
qed

text \<open>What the driver writes to the registers is the address of the sector.\<close>

lemma drive_bits: "(r OR 0xE0) AND 0xF0 = 0xE0" "(r OR 0xE0) AND 15 = r" if "r AND 0xF0 = 0" for r :: uint8
proof -
  have "(r OR 0xE0) AND 0xF0 = (r AND 0xF0) OR (0xE0 AND 0xF0)"
    by (rule bit.conj_disj_distrib2)
  then show "(r OR 0xE0) AND 0xF0 = 0xE0"
    by (simp add: that)
  have all: "(0xF0 OR 15 :: uint8) = - 1"
    by simp
  have "r = (r AND 0xF0) OR (r AND 15)"
    unfolding bit.conj_disj_distrib [symmetric] all and.right_neutral ..
  moreover have "(r OR 0xE0) AND 15 = (r AND 15) OR (0xE0 AND 15)"
    by (rule bit.conj_disj_distrib2)
  ultimately show "(r OR 0xE0) AND 15 = r"
    using that by simp
qed

lemma high_bits:
  fixes x :: uint32
  assumes "unat x < 2 ^ 28"
  shows "ucast (drop_bit 24 x) AND (0xF0 :: uint8) = 0" and "drop_bit 24 x AND 15 = drop_bit 24 x"
proof -
  have d: "unat (drop_bit 24 x) < 16"
    using assms by (simp add: unat_drop_bit_eq) (simp add: drop_bit_eq_div)
  then show a: "drop_bit 24 x AND 15 = drop_bit 24 x"
    using mod_16 [of "drop_bit 24 x"] by (simp add: word_unat_eq_iff)
  have "ucast (drop_bit 24 x AND 15) = (ucast (drop_bit 24 x) :: uint8) AND 15"
    by (simp add: unsigned_and_eq)
  then have "(ucast (drop_bit 24 x) :: uint8) = ucast (drop_bit 24 x) AND 15"
    by (simp add: a)
  then have "(ucast (drop_bit 24 x) :: uint8) AND 0xF0 = (ucast (drop_bit 24 x) AND 15) AND 0xF0"
    by simp
  then show "ucast (drop_bit 24 x) AND (0xF0 :: uint8) = 0"
    unfolding and.assoc by simp
qed

definition lba_command :: "uint32 \<Rightarrow> uint8 \<Rightarrow> ide_event list" where
  "lba_command x n = read_command n (ucast x) (ucast (drop_bit 8 x)) (ucast (drop_bit 16 x)) (ucast (drop_bit 24 x) OR 0xE0)"

lemma device_reads:
  assumes "ide_device dev disk" and x: "unat x < 2 ^ 28" and "k < (if n = 0 then 256 else unat n)"
  shows "dev (es @ lba_command x n @ replicate k In_sector) = disk (unat x + k)"
proof -
  have "lba (ucast x) (ucast (drop_bit 8 x)) (ucast (drop_bit 16 x)) (ucast (drop_bit 24 x) OR 0xE0) = unat x"
    by (rule lba_split [OF x refl refl refl]) (unfold drive_bits(2) [OF high_bits(1) [OF x]] high_bits(2) [OF x], rule refl)
  moreover have "(ucast (drop_bit 24 x) OR 0xE0) AND (0xF0 :: uint8) = 0xE0"
    by (rule drive_bits(1)) (rule high_bits(1) [OF x])
  ultimately show ?thesis
    using assms unfolding ide_device_def lba_command_def by metis
qed

lemma ucast_and_255: "ucast (x AND 0xFF) = (ucast x :: uint8)" for x :: uint32
proof -
  have "ucast (x AND 0xFF) = (ucast x :: uint8) AND 0xFF"
    by (simp add: unsigned_and_eq)
  also have "(0xFF :: uint8) = - 1"
    by simp
  finally show ?thesis
    unfolding and.right_neutral .
qed

lemma ide_command_events:
  assumes "unat x < 2 ^ 28"
  shows "ide_command x n 0x20 s = Inr ((), s\<lparr>events := events s @ lba_command x (ucast n)\<rparr>)"
proof -
  have "ucast (0xE0 OR push_bit 4 (diskno AND 1) OR (drop_bit 24 x AND 0x0F)) = (ucast (drop_bit 24 x) OR 0xE0 :: uint8)"
    by (simp add: diskno_def high_bits(2) [OF assms] unsigned_or_eq or.commute)
  then show ?thesis
    by (simp add: ide_command_def out_def lba_command_def read_command_def ucast_and_255)
qed

lemma ide_read_transfers:
  assumes "nsecs \<le> 256" and x: "unat secno < 2 ^ 28"
    and "poll (status s) = Some (r, rs)" and "served (unat nsecs) rs = Some rest"
    and d: "\<And>k. k < unat nsecs \<Longrightarrow> dev (events s @ lba_command secno (ucast nsecs) @ replicate k In_sector) = d k"
  shows "ide_read dev secno dst nsecs s = Inr (0, s\<lparr>status := rest,
     events := events s @ lba_command secno (ucast nsecs) @ replicate (unat nsecs) In_sector, ram := store_blocks dst (unat nsecs) d (ram s)\<rparr>)"
proof -
  define t where "t = s\<lparr>status := rs, events := events s @ lba_command secno (ucast nsecs)\<rparr>"
  have n: "unat nsecs \<le> 256"
    using assms(1) by (simp add: word_le_nat_alt)
  have "ide_read dev secno dst nsecs s = transfer (unat nsecs) dst (insl dev) t"
    using assms(1,3) by (simp add: ide_read_def ide_wait_ready_def ide_command_events [OF x] t_def)
  also have "\<dots> = Inr (0, t\<lparr>status := rest, events := (events s @ lba_command secno (ucast nsecs)) @ replicate (0 + unat nsecs) In_sector,
     ram := store_blocks dst (unat nsecs) (\<lambda>k. d (0 + k)) (ram t)\<rparr>)"
    by (rule transfer_insl) (use assms(4) n d in \<open>simp_all add: t_def\<close>)
  finally show ?thesis
    by (simp add: t_def)
qed

lemma sectors_asked:
  assumes "0 < nsecs" and "(nsecs :: uint32) \<le> 256"
  shows "(if (ucast nsecs :: uint8) = 0 then 256 else unat (ucast nsecs :: uint8)) = unat nsecs"
  using assms by (auto simp: unsigned_ucast_eq word_unat_eq_iff take_bit_eq_mod le_less word_less_nat_alt)

text \<open>
  When the controller gets ready for each sector without an error, \<open>ide_read\<close> returns 0 and memory
  holds the sectors from \<open>secno\<close> on, at \<open>dst\<close>; the rest of memory is as before.
\<close>

theorem ide_read_reads_sectors:
  assumes "ide_device dev disk" and "0 < nsecs" and "nsecs \<le> 256" and "unat secno + unat nsecs \<le> 2 ^ 28"
    and "poll (status s) = Some (r, rs)" and "served (unat nsecs) rs = Some rest"
  shows "\<exists>s'. ide_read dev secno dst nsecs s = Inr (0, s') \<and> status s' = rest \<and>
    ram s' = (\<lambda>a. let i = unat (a - dst) in
      if i < 512 * unat nsecs then disk (unat secno + i div 512) (i mod 512) else ram s a)"
proof -
  have x: "unat secno < 2 ^ 28"
    using assms(2,4) by (simp add: word_less_nat_alt)
  have "dev (events s @ lba_command secno (ucast nsecs) @ replicate k In_sector) = disk (unat secno + k)" if "k < unat nsecs" for k
    by (rule device_reads [OF assms(1) x]) (simp add: that sectors_asked [OF assms(2,3)])
  from ide_read_transfers [where d = "\<lambda>k. disk (unat secno + k)", OF assms(3) x assms(5,6) this] show ?thesis
    by (simp add: store_blocks_def Let_def)
qed

lemma served_2: "served 2 st = served (Suc (Suc 0)) st"
  by (simp only: numeral_2_eq_2)

definition idle :: "uint8 list \<Rightarrow> ide" where
  "idle st = \<lparr>status = st, events = [], ram = (\<lambda>a. ucast a)\<rparr>"

lemma ide_read_reads_sectors_witness:
  "\<exists>s'. ide_read (a_device (\<lambda>n i. of_nat (n + i))) 5 0x2000 2 (idle [0x80, 0x40, 0xC0, 0x58, 0x50]) = Inr (0, s') \<and>
     status s' = [] \<and> ram s' = (\<lambda>a. let i = unat (a - 0x2000) in if i < 512 * unat (2 :: uint32)
       then of_nat (unat (5 :: uint32) + i div 512 + i mod 512) else ram (idle [0x80, 0x40, 0xC0, 0x58, 0x50]) a)"
  by (rule ide_read_reads_sectors [OF a_device, where r = "0x40" and rs = "[0xC0, 0x58, 0x50]"])
    (simp_all add: idle_def served_2 IDE_BSY_def IDE_DRDY_def IDE_DF_def IDE_ERR_def)

section \<open>Writing, and reading again\<close>

definition block_at :: "memory \<Rightarrow> uint32 \<Rightarrow> nat \<Rightarrow> uint8 list" where
  "block_at m a k = map (\<lambda>i. m (a + of_nat (512 * k + i))) [0..<512]"

lemma transfer_outsl:
  assumes "served n (status s) = Some rest"
  shows "transfer n a outsl s = Inr (0, s\<lparr>status := rest, events := events s @ map (\<lambda>k. Out_sector (block_at (ram s) a k)) [0..<n]\<rparr>)"
  using assms
proof (induction n arbitrary: a s)
  case 0
  then show ?case
    by (cases s) simp
next
  case (Suc n)
  obtain r rs where p: "poll (status s) = Some (r, rs)" and r: "r AND (IDE_DF OR IDE_ERR) = 0" and rest: "served n rs = Some rest"
    using Suc.prems by (auto split: option.splits if_splits)
  define t where "t = s\<lparr>status := rs, events := events s @ [Out_sector (block_at (ram s) a 0)]\<rparr>"
  have w: "ide_wait_ready True s = Inr (0, s\<lparr>status := rs\<rparr>)"
    by (simp add: ide_wait_ready_def p r)
  have "outsl a (s\<lparr>status := rs\<rparr>) = Inr ((), t)"
    by (simp add: outsl_def t_def block_at_def)
  then have "transfer (Suc n) a outsl s = transfer n (a + SECTSIZE) outsl t"
    by (simp add: w)
  also have "\<dots> = Inr (0, t\<lparr>status := rest, events := events t @ map (\<lambda>k. Out_sector (block_at (ram t) (a + SECTSIZE) k)) [0..<n]\<rparr>)"
    by (rule Suc.IH) (simp add: t_def rest)
  also have "block_at (ram t) (a + SECTSIZE) = (\<lambda>k. block_at (ram s) a (Suc k))"
    by (rule ext) (simp add: block_at_def t_def SECTSIZE_def algebra_simps)
  finally show ?case
    by (simp add: t_def upt_conv_Cons map_Suc_upt [symmetric] comp_def del: upt_Suc)
qed

definition write_command :: "uint8 \<Rightarrow> uint8 \<Rightarrow> uint8 \<Rightarrow> uint8 \<Rightarrow> uint8 \<Rightarrow> ide_event list" where
  "write_command n r0 r1 r2 r3 = [Out 0x1F2 n, Out 0x1F3 r0, Out 0x1F4 r1, Out 0x1F5 r2, Out 0x1F6 r3, Out 0x1F7 0x30]"

text \<open>What was sent after a write command is what a read command for the same sectors gets.\<close>

definition ide_stores :: "device \<Rightarrow> bool" where
  "ide_stores dev \<longleftrightarrow> (\<forall>es n r0 r1 r2 r3 bs k i. r3 AND 0xF0 = 0xE0 \<and> length bs = (if n = 0 then 256 else unat n) \<and>
     (\<forall>d\<in>set bs. length d = 512) \<and> k < length bs \<and> i < 512 \<longrightarrow>
     dev (es @ write_command n r0 r1 r2 r3 @ map Out_sector bs @ read_command n r0 r1 r2 r3 @ replicate k In_sector) i = bs ! k ! i)"

definition lba_write_command :: "uint32 \<Rightarrow> uint8 \<Rightarrow> ide_event list" where
  "lba_write_command x n = write_command n (ucast x) (ucast (drop_bit 8 x)) (ucast (drop_bit 16 x)) (ucast (drop_bit 24 x) OR 0xE0)"

lemma ide_write_command_events:
  assumes "unat x < 2 ^ 28"
  shows "ide_command x n 0x30 s = Inr ((), s\<lparr>events := events s @ lba_write_command x (ucast n)\<rparr>)"
proof -
  have "ucast (0xE0 OR push_bit 4 (diskno AND 1) OR (drop_bit 24 x AND 0x0F)) = (ucast (drop_bit 24 x) OR 0xE0 :: uint8)"
    by (simp add: diskno_def high_bits(2) [OF assms] unsigned_or_eq or.commute)
  then show ?thesis
    by (simp add: ide_command_def out_def lba_write_command_def write_command_def ucast_and_255)
qed

lemma stores_read:
  assumes "ide_stores dev" and x: "unat x < 2 ^ 28" and "length bs = (if n = 0 then 256 else unat n)"
    and "\<forall>d\<in>set bs. length d = 512" and "k < length bs" and "i < 512"
  shows "dev (es @ lba_write_command x n @ map Out_sector bs @ lba_command x n @ replicate k In_sector) i = bs ! k ! i"
proof -
  have "(ucast (drop_bit 24 x) OR 0xE0) AND (0xF0 :: uint8) = 0xE0"
    by (rule drive_bits(1)) (rule high_bits(1) [OF x])
  then show ?thesis
    using assms(1,3-6) unfolding ide_stores_def lba_write_command_def lba_command_def by blast
qed

lemma ide_write_sends:
  assumes "nsecs \<le> 256" and x: "unat secno < 2 ^ 28"
    and "poll (status s) = Some (r, rs)" and "served (unat nsecs) rs = Some rest"
  shows "ide_write secno src nsecs s = Inr (0, s\<lparr>status := rest, events := events s @ lba_write_command secno (ucast nsecs) @
     map Out_sector (map (block_at (ram s) src) [0..<unat nsecs])\<rparr>)"
proof -
  define t where "t = s\<lparr>status := rs, events := events s @ lba_write_command secno (ucast nsecs)\<rparr>"
  have "ide_write secno src nsecs s = transfer (unat nsecs) src outsl t"
    using assms by (simp add: ide_write_def ide_wait_ready_def ide_write_command_events t_def)
  then show ?thesis
    using transfer_outsl [of "unat nsecs" t rest src] assms by (simp add: t_def comp_def)
qed

text \<open>C29: What \<open>ide_write\<close> has written, \<open>ide_read\<close> brings back, anywhere in memory.
\<close>

theorem ide_write_then_read:
  assumes dev: "ide_stores dev" and n: "0 < nsecs" "nsecs \<le> 256" and x: "unat secno < 2 ^ 28"
    and "poll (status s) = Some (r1, st1)" and "served (unat nsecs) st1 = Some st2"
    and "poll st2 = Some (r2, st3)" and "served (unat nsecs) st3 = Some st4"
  shows "\<exists>s'. seqm (ide_write secno src nsecs) (ide_read dev secno dst nsecs) s = Inr (0, s') \<and>
    ram s' = (\<lambda>a. if unat (a - dst) < 512 * unat nsecs then ram s (src + (a - dst)) else ram s a)"
proof -
  define bs where "bs = map (block_at (ram s) src) [0..<unat nsecs]"
  define t where "t = s\<lparr>status := st2, events := events s @ lba_write_command secno (ucast nsecs) @ map Out_sector bs\<rparr>"
  let ?d = "\<lambda>k i. if i < 512 then ram s (src + of_nat (512 * k + i)) else dev (events t @ lba_command secno (ucast nsecs) @ replicate k In_sector) i"
  have bs: "length bs = unat nsecs" "\<forall>d\<in>set bs. length d = 512"
    by (auto simp: bs_def block_at_def)
  have w: "ide_write secno src nsecs s = Inr (0, t)"
    using ide_write_sends [OF n(2) x assms(5,6)] by (simp add: t_def bs_def)
  have "dev (events t @ lba_command secno (ucast nsecs) @ replicate k In_sector) = ?d k" if k: "k < unat nsecs" for k
  proof
    fix i
    show "dev (events t @ lba_command secno (ucast nsecs) @ replicate k In_sector) i = ?d k i"
      using stores_read [OF dev x, of bs "ucast nsecs" k i "events s"] bs k sectors_asked [OF n]
      by (simp add: t_def bs_def block_at_def)
  qed
  then have "ide_read dev secno dst nsecs t = Inr (0, t\<lparr>status := st4,
     events := events t @ lba_command secno (ucast nsecs) @ replicate (unat nsecs) In_sector, ram := store_blocks dst (unat nsecs) ?d (ram t)\<rparr>)"
    using assms by (intro ide_read_transfers) (simp_all add: t_def)
  moreover have "store_blocks dst (unat nsecs) ?d (ram t) = (\<lambda>a. if unat (a - dst) < 512 * unat nsecs then ram s (src + (a - dst)) else ram s a)"
    by (rule ext) (simp add: store_blocks_def t_def)
  ultimately show ?thesis
    by (simp add: w)
qed

text \<open>A device that remembers the last blocks sent, for one write and one read.\<close>

fun last_write :: "nat \<Rightarrow> ide_event list \<Rightarrow> nat \<Rightarrow> uint8" where
  "last_write k (In_sector # es) = last_write (Suc k) es"
| "last_write k (Out p5 c # Out p4 r3 # Out p3 r2 # Out p2 r1 # Out p1 r0 # Out p0 n # es) =
     (\<lambda>i. (rev (map (\<lambda>e. case e of Out_sector d \<Rightarrow> d | _ \<Rightarrow> []) (takeWhile (\<lambda>e. \<exists>d. e = Out_sector d) es)) ! k) ! i)"
| "last_write k es = (\<lambda>_. 0)"

lemma last_write_replicate: "last_write j (replicate k In_sector @ es) = last_write (j + k) es"
  by (induction k arbitrary: j) simp_all

lemma takeWhile_sectors: "takeWhile (\<lambda>e. \<exists>d. e = Out_sector d) (rev (map Out_sector bs) @ Out p v # es) = rev (map Out_sector bs)"
  by (subst takeWhile_append2) auto

lemma last_write_stores: "ide_stores (\<lambda>es. last_write 0 (rev es))"
  unfolding ide_stores_def
  by (simp add: last_write_replicate write_command_def read_command_def takeWhile_sectors rev_map [symmetric] comp_def)

lemma ide_write_then_read_witness:
  "\<exists>s'. seqm (ide_write 9 0x100 2) (ide_read (\<lambda>es. last_write 0 (rev es)) 9 0x2000 2) (idle [0x40, 0x50, 0x50, 0x50, 0x50, 0x50]) = Inr (0, s') \<and>
    ram s' = (\<lambda>a. if unat (a - 0x2000) < 512 * unat (2 :: uint32) then ram (idle [0x40, 0x50, 0x50, 0x50, 0x50, 0x50]) (0x100 + (a - 0x2000))
      else ram (idle [0x40, 0x50, 0x50, 0x50, 0x50, 0x50]) a)"
  by (rule ide_write_then_read [OF last_write_stores, where ?st1.0 = "[0x50, 0x50, 0x50, 0x50, 0x50]" and ?st2.0 = "[0x50, 0x50, 0x50]"
      and ?st3.0 = "[0x50, 0x50]" and ?st4.0 = "[]" and ?r1.0 = "0x40" and ?r2.0 = "0x50"])
    (simp_all add: idle_def served_2 IDE_BSY_def IDE_DRDY_def IDE_DF_def IDE_ERR_def)

section \<open>The boot loader\<close>

text \<open>The controller gets ready \<open>n\<close> times; the loader does not look at errors.\<close>

fun ready :: "nat \<Rightarrow> uint8 list \<Rightarrow> uint8 list option" where
  "ready 0 st = Some st"
| "ready (Suc n) st = (case poll st of None \<Rightarrow> None | Some (r, rs) \<Rightarrow> ready n rs)"

lemma waitdisk_ready: "poll (status s) = Some (r, rs) \<Longrightarrow> waitdisk s = Inr ((), s\<lparr>status := rs\<rparr>)"
  by (simp add: waitdisk_def)

lemma readsect_stores:
  assumes "ide_device dev disk" and x: "unat offset < 2 ^ 28" and "ready 2 (status s) = Some rest"
  shows "readsect dev dst offset s = Inr ((), s\<lparr>status := rest, events := events s @ lba_command offset 1 @ [In_sector],
     ram := store_block dst (disk (unat offset)) (ram s)\<rparr>)"
proof -
  obtain r1 st1 r2 where p: "poll (status s) = Some (r1, st1)" "poll st1 = Some (r2, rest)"
    using assms(3) by (auto simp: numeral_2_eq_2 split: option.splits)
  define t where "t = s\<lparr>status := st1, events := events s @ lba_command offset 1\<rparr>"
  have "dev (events t) = disk (unat offset)"
    using device_reads [OF assms(1) x, of 0 1 "events s"] by (simp add: t_def)
  then have "insl dev dst (t\<lparr>status := rest\<rparr>) = Inr ((), t\<lparr>status := rest, events := events t @ [In_sector],
     ram := store_block dst (disk (unat offset)) (ram t)\<rparr>)"
    by (simp add: insl_def)
  moreover have "readsect dev dst offset s = seqm waitdisk (insl dev dst) t"
    using p by (simp add: readsect_def waitdisk_ready out_def t_def lba_command_def read_command_def unsigned_or_eq)
  moreover have "waitdisk t = Inr ((), t\<lparr>status := rest\<rparr>)"
    by (rule waitdisk_ready [where r = r2]) (simp add: t_def p)
  ultimately show ?thesis
    by (simp add: t_def)
qed

lemma ready_add: "ready (m + n) st = (case ready m st of None \<Rightarrow> None | Some st' \<Rightarrow> ready n st')"
  by (induction m arbitrary: st) (auto split: option.splits)

lemma readseg_loop_stores:
  assumes "ide_device dev disk" and "unat offset + n \<le> 2 ^ 28" and "ready (2 * n) (status s) = Some rest"
    and "unat va + 512 * n < 2 ^ 32" and "n = 0 \<longrightarrow> end_va \<le> va" and "0 < n \<longrightarrow> unat va + 512 * (n - 1) < unat end_va"
    and "unat end_va \<le> unat va + 512 * n" and "n < fuel"
  shows "\<exists>s'. readseg_loop fuel dev va end_va offset s = Inr ((), s') \<and> status s' = rest \<and>
     ram s' = store_blocks va n (\<lambda>k. disk (unat offset + k)) (ram s)"
  using assms(2-)
proof (induction n arbitrary: fuel va offset s)
  case 0
  then obtain f where "fuel = Suc f"
    by (cases fuel) auto
  then show ?case
    using 0 by (simp add: leD)
next
  case (Suc n)
  then obtain f where f: "fuel = Suc f"
    by (cases fuel) auto
  obtain st where r: "ready 2 (status s) = Some st" "ready (2 * n) st = Some rest"
    using Suc.prems(2) ready_add [of 2 "2 * n"] by (auto split: option.splits)
  define t where "t = s\<lparr>status := st, events := events s @ lba_command offset 1 @ [In_sector], ram := store_block va (disk (unat offset)) (ram s)\<rparr>"
  have x: "unat offset < 2 ^ 28"
    using Suc.prems(1) by simp
  have o: "unat (offset + 1) = unat offset + 1"
    using word_add_le_unat [of offset 1] Suc.prems(1) by simp
  have v: "unat (va + 512) = unat va + 512"
    using word_add_le_unat [of va 512] Suc.prems(3) by simp
  have lt: "va < end_va"
    using Suc.prems(5) by (simp add: word_less_nat_alt)
  have "\<exists>s'. readseg_loop f dev (va + 512) end_va (offset + 1) t = Inr ((), s') \<and> status s' = rest \<and>
     ram s' = store_blocks (va + 512) n (\<lambda>k. disk (unat (offset + 1) + k)) (ram t)"
  proof (rule Suc.IH)
    show "unat (offset + 1) + n \<le> 2 ^ 28" "unat (va + 512) + 512 * n < 2 ^ 32" "n < f"
      using Suc.prems f by (simp_all add: o v)
    show "ready (2 * n) (status t) = Some rest"
      by (simp add: t_def r)
    show "n = 0 \<longrightarrow> end_va \<le> va + 512" "unat end_va \<le> unat (va + 512) + 512 * n"
      using Suc.prems(6) by (simp_all add: word_le_nat_alt v)
    show "0 < n \<longrightarrow> unat (va + 512) + 512 * (n - 1) < unat end_va"
      using Suc.prems(5) by (cases n) (simp_all add: v)
  qed
  moreover have "store_blocks (va + 512) n (\<lambda>k. disk (unat (offset + 1) + k)) (ram t) = store_blocks va (Suc n) (\<lambda>k. disk (unat offset + k)) (ram s)"
    using store_blocks_Suc [of n va "\<lambda>k. disk (unat offset + k)" "ram s"] Suc.prems(3) by (simp add: t_def o)
  ultimately show ?case
    using readsect_stores [OF assms(1) x r(1)] lt by (simp add: f SECTSIZE_def t_def)
qed

lemma round_sector: "unat (x AND NOT 511) = 512 * (unat x div 512)" for x :: uint32
proof -
  have "x AND 511 = take_bit 9 x"
    by (simp add: take_bit_eq_mask mask_eq_exp_minus_1)
  then have "unat (x AND 511) = take_bit 9 (unat x)"
    by (metis unsigned_take_bit_eq)
  then have m: "unat (x AND 511) = unat x mod 512"
    by (simp add: take_bit_eq_mod)
  have "(x AND NOT 511) AND (x AND 511) = 0"
    by (simp add: and.assoc and.left_commute)
  moreover have "(x AND NOT 511) OR (x AND 511) = x"
    by (rule bit_eqI) (auto simp: bit_simps)
  ultimately have "x = (x AND NOT 511) + (x AND 511)"
    using word_plus_and_or [of "x AND NOT 511" "x AND 511"] by simp
  then have "x AND NOT 511 = x - (x AND 511)"
    by (metis add_diff_cancel_right')
  moreover have "x AND 511 \<le> x"
    by (simp add: word_le_nat_alt m)
  ultimately have "unat (x AND NOT 511) = unat x - unat x mod 512"
    by (simp add: unat_sub_le m)
  then show ?thesis
    by (simp add: minus_mod_eq_mult_div)
qed

text \<open>The bytes of the kernel image, which starts in the second sector.\<close>

definition image_byte :: "(nat \<Rightarrow> nat \<Rightarrow> uint8) \<Rightarrow> nat \<Rightarrow> uint8" where
  "image_byte disk i = disk (1 + i div 512) (i mod 512)"

text \<open>C30: When address and offset agree within a sector, \<open>readseg\<close> brings the bytes of the image to the lower 24
  bits of the address, ends, and changes nothing but the sectors it touches.
\<close>

theorem readseg_loads_image:
  assumes dev: "ide_device dev disk" and start: "start = va AND 0xFFFFFF" and same: "unat start mod 512 = unat offset mod 512"
    and top: "unat start + unat count + 511 < 2 ^ 32" and img: "unat offset + unat count < 2 ^ 32"
    and n: "n = (unat start mod 512 + unat count + 511) div 512" and st: "ready (2 * n) (status s) = Some rest"
  shows "\<exists>s'. readseg dev va count offset s = Inr ((), s') \<and> status s' = rest \<and>
    (\<forall>i < unat count. ram s' (start + of_nat i) = image_byte disk (unat offset + i)) \<and>
    (\<forall>a. 512 * n \<le> unat (a - (start AND NOT 511)) \<longrightarrow> ram s' a = ram s a)"
proof -
  define b where "b = start AND NOT 511"
  have b: "unat b = 512 * (unat start div 512)"
    unfolding b_def by (rule round_sector)
  define r where "r = unat start mod 512"
  have sq: "unat start = unat b + r" "r < 512"
    by (simp_all add: b r_def)
  have nq: "512 * n \<le> r + unat count + 511" "r + unat count < 512 * n + 1"
    unfolding n r_def [symmetric] using mult_div_mod_eq [of 512 "r + unat count + 511"]
      mod_less_divisor [of 512 "r + unat count + 511"] by linarith+
  have e: "unat (start + count) = unat start + unat count"
    using top by (intro word_add_le_unat) simp
  have o: "unat (offset div SECTSIZE + 1) = unat offset div 512 + 1"
    using word_add_le_unat [of "offset div 512" 1] img by (simp add: unat_div SECTSIZE_def)
  have "\<exists>s'. readseg_loop (unat count div 512 + 3) dev b (start + count) (offset div SECTSIZE + 1) s = Inr ((), s') \<and> status s' = rest \<and>
     ram s' = store_blocks b n (\<lambda>k. disk (unat (offset div SECTSIZE + 1) + k)) (ram s)"
  proof (rule readseg_loop_stores [OF dev _ st])
    show "unat (offset div SECTSIZE + 1) + n \<le> 2 ^ 28" 
      using top img unfolding o n by simp
    show "unat b + 512 * n < 2 ^ 32"
      using top sq nq by simp
    show "n = 0 \<longrightarrow> start + count \<le> b"
      unfolding word_le_nat_alt e using sq nq by simp
    show "0 < n \<longrightarrow> unat b + 512 * (n - 1) < unat (start + count)" "unat (start + count) \<le> unat b + 512 * n"
      unfolding e using sq nq by (auto simp: diff_mult_distrib2)
    show "n < unat count div 512 + 3"
    proof -
      define c where "c = unat count div 512"
      have "unat count < 512 * c + 512"
        unfolding c_def using mult_div_mod_eq [of 512 "unat count"] mod_less_divisor [of 512 "unat count"] by linarith
      then have "512 * n < 512 * (c + 3)"
        using nq(1) sq(2) by simp
      then show ?thesis
        by (simp add: c_def)
    qed
  qed
  then obtain s' where s': "readseg dev va count offset s = Inr ((), s')" "status s' = rest"
    "ram s' = store_blocks b n (\<lambda>k. disk (unat offset div 512 + 1 + k)) (ram s)"
    by (auto simp: readseg_def b_def SECTSIZE_def Let_def o [unfolded SECTSIZE_def] simp flip: start)
  have "ram s' (start + of_nat i) = image_byte disk (unat offset + i)" if i: "i < unat count" for i
  proof -
    have "unat (start + of_nat i) = unat start + i"
      using word_add_le_unat [of start "of_nat i"] i top by (simp add: unat_of_nat_small)
    moreover have "unat start = unat b + unat start mod 512"
      unfolding b by simp
    ultimately have "unat (start + of_nat i - b) = unat start mod 512 + i"
      using unat_sub_le [of b "start + of_nat i"] by (simp add: word_le_nat_alt)
    moreover have "unat start mod 512 + i < 512 * n"
      using i unfolding n by linarith
    moreover have "unat offset div 512 + 1 + (unat start mod 512 + i) div 512 = 1 + (unat offset + i) div 512"
      "(unat start mod 512 + i) mod 512 = (unat offset + i) mod 512"
      unfolding same by (simp_all add: div_add1_eq [of _ i] mod_add_left_eq)
    ultimately show ?thesis
      unfolding s'(3) store_blocks_def image_byte_def by simp
  qed
  moreover have "ram s' a = ram s a" if "512 * n \<le> unat (a - b)" for a
    using that unfolding s'(3) store_blocks_def by simp
  ultimately show ?thesis
    using s'(1,2) unfolding b_def by blast
qed

lemma ready_numeral: "ready (numeral k) st = (case poll st of None \<Rightarrow> None | Some (r, rs) \<Rightarrow> ready (pred_numeral k) rs)"
  by (simp add: numeral_eq_Suc)

lemma readseg_loads_image_witness:
  "\<exists>s'. readseg (a_device (\<lambda>n i. of_nat (n + i))) 0xF0100020 0x300 0x1020 (idle [0x50, 0x50, 0x80, 0x50, 0x50]) = Inr ((), s') \<and> status s' = [] \<and>
    (\<forall>i < unat (0x300 :: uint32). ram s' (0x100020 + of_nat i) = image_byte (\<lambda>n i. of_nat (n + i)) (unat (0x1020 :: uint32) + i)) \<and>
    (\<forall>a. 512 * 2 \<le> unat (a - (0x100020 AND NOT 511)) \<longrightarrow> ram s' a = ram (idle [0x50, 0x50, 0x80, 0x50, 0x50]) a)"
  by (rule readseg_loads_image [OF a_device])
    (simp_all add: idle_def ready_numeral IDE_BSY_def IDE_DRDY_def)

end
