(* ===== verification/Userlib.thy ===== *)
theory Userlib
  imports Syscall Printfmt
begin

text \<open>
  The library of the programs: the stubs of lib/syscall.c that raise the system call interrupt, and
  lib/console.c, lib/concurrency.c, lib/exit.c, lib/libmain.c, lib/panic.c, with the functions of lib/printf.c
  and lib/readline.c that print or disable interrupts.  \<open>tf\<close> is the trap frame of the program: what its registers
  are at the interrupt, apart from those the stub loads.  A stub with a name of the kernel has the suffix \<open>_stub\<close>.
\<close>

unbundle bit_operations_syntax

section \<open>The interrupt\<close>

definition syscall_number :: "syscall_no \<Rightarrow> uint32" where
  "syscall_number n = of_nat (length (takeWhile (\<lambda>k. k \<noteq> n) syscall_numbers))"

definition int_frame :: "Trapframe \<Rightarrow> uint32 \<Rightarrow> uint32 \<Rightarrow> uint32 \<Rightarrow> uint32 \<Rightarrow> uint32 \<Rightarrow> uint32 \<Rightarrow> Trapframe" where
  "int_frame tf num a1 a2 a3 a4 a5 =
     tf\<lparr>tf_trapno := T_SYSCALL, tf_eax := num, tf_edx := a1, tf_ecx := a2, tf_ebx := a3, tf_edi := a4, tf_esi := a5\<rparr>"

text \<open>
  The kernel enters at \<open>trap\<close>.  When the environment runs again, at once or after others have run, its registers
  are those of its saved frame, so the value of the call is what is in \<open>eax\<close> there.
\<close>

definition int_syscall ::
  "devices \<Rightarrow> Trapframe \<Rightarrow> syscall_no \<Rightarrow> uint32 \<Rightarrow> uint32 \<Rightarrow> uint32 \<Rightarrow> uint32 \<Rightarrow> uint32 \<Rightarrow> (kstate, uint32) M" where
  "int_syscall d tf n a1 a2 a3 a4 a5 =
     bnd (gets curenv) (\<lambda>c. bnd (deref c) (\<lambda>e.
       seqm (trap d (int_frame tf (syscall_number n) a1 a2 a3 a4 a5)) (gets (\<lambda>s. tf_eax (env_tf (envs s e))))))"

section \<open>The stubs (lib/syscall.c)\<close>

definition sys_cputs_stub :: "devices \<Rightarrow> Trapframe \<Rightarrow> uint32 \<Rightarrow> uint32 \<Rightarrow> uint8 \<Rightarrow> (kstate, unit) M" where
  "sys_cputs_stub d tf str len printProgName = seqm (int_syscall d tf SYS_cputs str len (ucast (printProgName)) 0 0) (ret ())"

definition sys_cgetc_stub :: "devices \<Rightarrow> Trapframe \<Rightarrow> (kstate, uint32) M" where
  "sys_cgetc_stub d tf = int_syscall d tf SYS_cgetc 0 0 0 0 0"

definition sys_env_destroy_stub :: "devices \<Rightarrow> Trapframe \<Rightarrow> uint32 \<Rightarrow> (kstate, uint32) M" where
  "sys_env_destroy_stub d tf envid = int_syscall d tf SYS_env_destroy envid 0 0 0 0"

definition sys_getenvid_stub :: "devices \<Rightarrow> Trapframe \<Rightarrow> (kstate, uint32) M" where
  "sys_getenvid_stub d tf = int_syscall d tf SYS_getenvid 0 0 0 0 0"

definition sys_getenvindex_stub :: "devices \<Rightarrow> Trapframe \<Rightarrow> (kstate, uint32) M" where
  "sys_getenvindex_stub d tf = int_syscall d tf SYS_getenvindex 0 0 0 0 0"

definition sys_getparentenvid_stub :: "devices \<Rightarrow> Trapframe \<Rightarrow> (kstate, uint32) M" where
  "sys_getparentenvid_stub d tf = int_syscall d tf SYS_getparentenvid 0 0 0 0 0"

definition sys_env_exit_stub :: "devices \<Rightarrow> Trapframe \<Rightarrow> (kstate, unit) M" where
  "sys_env_exit_stub d tf = seqm (int_syscall d tf SYS_env_exit 0 0 0 0 0) (ret ())"

definition sys_allocate_page_stub :: "devices \<Rightarrow> Trapframe \<Rightarrow> uint32 \<Rightarrow> uint32 \<Rightarrow> (kstate, uint32) M" where
  "sys_allocate_page_stub d tf va perm = int_syscall d tf SYS_allocate_page va perm 0 0 0"

definition sys_map_frame_stub :: "devices \<Rightarrow> Trapframe \<Rightarrow> uint32 \<Rightarrow> uint32 \<Rightarrow> uint32 \<Rightarrow> uint32 \<Rightarrow> uint32 \<Rightarrow> (kstate, uint32) M" where
  "sys_map_frame_stub d tf srcenv srcva dstenv dstva perm = int_syscall d tf SYS_map_frame srcenv srcva dstenv dstva perm"

definition sys_unmap_frame_stub :: "devices \<Rightarrow> Trapframe \<Rightarrow> uint32 \<Rightarrow> uint32 \<Rightarrow> (kstate, uint32) M" where
  "sys_unmap_frame_stub d tf envid va = int_syscall d tf SYS_unmap_frame envid va 0 0 0"

definition sys_calculate_required_frames_stub :: "devices \<Rightarrow> Trapframe \<Rightarrow> uint32 \<Rightarrow> uint32 \<Rightarrow> (kstate, uint32) M" where
  "sys_calculate_required_frames_stub d tf start sz = int_syscall d tf SYS_calc_req_frames start sz 0 0 0"

definition sys_calculate_free_frames_stub :: "devices \<Rightarrow> Trapframe \<Rightarrow> (kstate, uint32) M" where
  "sys_calculate_free_frames_stub d tf = int_syscall d tf SYS_calc_free_frames 0 0 0 0 0"

definition sys_calculate_modified_frames_stub :: "devices \<Rightarrow> Trapframe \<Rightarrow> (kstate, uint32) M" where
  "sys_calculate_modified_frames_stub d tf = int_syscall d tf SYS_calc_modified_frames 0 0 0 0 0"

definition sys_calculate_notmod_frames_stub :: "devices \<Rightarrow> Trapframe \<Rightarrow> (kstate, uint32) M" where
  "sys_calculate_notmod_frames_stub d tf = int_syscall d tf SYS_calc_notmod_frames 0 0 0 0 0"

definition sys_freeMem_stub :: "devices \<Rightarrow> Trapframe \<Rightarrow> uint32 \<Rightarrow> uint32 \<Rightarrow> (kstate, unit) M" where
  "sys_freeMem_stub d tf va sz = seqm (int_syscall d tf SYS_freeMem va sz 0 0 0) (ret ())"

definition sys_allocateMem_stub :: "devices \<Rightarrow> Trapframe \<Rightarrow> uint32 \<Rightarrow> uint32 \<Rightarrow> (kstate, unit) M" where
  "sys_allocateMem_stub d tf va sz = seqm (int_syscall d tf SYS_allocateMem va sz 0 0 0) (ret ())"

definition sys_pf_calculate_allocated_pages_stub :: "devices \<Rightarrow> Trapframe \<Rightarrow> (kstate, uint32) M" where
  "sys_pf_calculate_allocated_pages_stub d tf = int_syscall d tf SYS_pf_calc_allocated_pages 0 0 0 0 0"

definition sys_disable_interrupt_stub :: "devices \<Rightarrow> Trapframe \<Rightarrow> (kstate, unit) M" where
  "sys_disable_interrupt_stub d tf = seqm (int_syscall d tf SYS_disableINTR 0 0 0 0 0) (ret ())"

definition sys_enable_interrupt_stub :: "devices \<Rightarrow> Trapframe \<Rightarrow> (kstate, unit) M" where
  "sys_enable_interrupt_stub d tf = seqm (int_syscall d tf SYS_enableINTR 0 0 0 0 0) (ret ())"

definition sys_cputc_stub :: "devices \<Rightarrow> Trapframe \<Rightarrow> uint8 \<Rightarrow> (kstate, unit) M" where
  "sys_cputc_stub d tf c = seqm (int_syscall d tf SYS_cputc (scast (c)) 0 0 0 0) (ret ())"

definition sys_clear_ffl_stub :: "devices \<Rightarrow> Trapframe \<Rightarrow> (kstate, unit) M" where
  "sys_clear_ffl_stub d tf = seqm (int_syscall d tf SYS_clearFFL 0 0 0 0 0) (ret ())"

definition sys_createSemaphore_stub :: "devices \<Rightarrow> Trapframe \<Rightarrow> uint32 \<Rightarrow> uint32 \<Rightarrow> (kstate, uint32) M" where
  "sys_createSemaphore_stub d tf name initialValue = int_syscall d tf SYS_create_semaphore name initialValue 0 0 0"

definition sys_getSemaphoreValue_stub :: "devices \<Rightarrow> Trapframe \<Rightarrow> uint32 \<Rightarrow> uint32 \<Rightarrow> (kstate, uint32) M" where
  "sys_getSemaphoreValue_stub d tf owner name = int_syscall d tf SYS_get_semaphore_value owner name 0 0 0"

definition sys_waitSemaphore_stub :: "devices \<Rightarrow> Trapframe \<Rightarrow> uint32 \<Rightarrow> uint32 \<Rightarrow> (kstate, unit) M" where
  "sys_waitSemaphore_stub d tf owner name = seqm (int_syscall d tf SYS_wait_semaphore owner name 0 0 0) (ret ())"

definition sys_signalSemaphore_stub :: "devices \<Rightarrow> Trapframe \<Rightarrow> uint32 \<Rightarrow> uint32 \<Rightarrow> (kstate, unit) M" where
  "sys_signalSemaphore_stub d tf owner name = seqm (int_syscall d tf SYS_signal_semaphore owner name 0 0 0) (ret ())"

definition sys_createSharedObject_stub :: "devices \<Rightarrow> Trapframe \<Rightarrow> uint32 \<Rightarrow> uint32 \<Rightarrow> uint8 \<Rightarrow> uint32 \<Rightarrow> (kstate, uint32) M" where
  "sys_createSharedObject_stub d tf name sz writable va = int_syscall d tf SYS_create_shared_object name sz (ucast (writable)) va 0"

definition sys_getSizeOfSharedObject_stub :: "devices \<Rightarrow> Trapframe \<Rightarrow> uint32 \<Rightarrow> uint32 \<Rightarrow> (kstate, uint32) M" where
  "sys_getSizeOfSharedObject_stub d tf owner name = int_syscall d tf SYS_get_size_of_shared_object owner name 0 0 0"

definition sys_getSharedObject_stub :: "devices \<Rightarrow> Trapframe \<Rightarrow> uint32 \<Rightarrow> uint32 \<Rightarrow> uint32 \<Rightarrow> (kstate, uint32) M" where
  "sys_getSharedObject_stub d tf owner name va = int_syscall d tf SYS_get_shared_object owner name va 0 0"

definition sys_freeSharedObject_stub :: "devices \<Rightarrow> Trapframe \<Rightarrow> uint32 \<Rightarrow> uint32 \<Rightarrow> (kstate, uint32) M" where
  "sys_freeSharedObject_stub d tf objectID va = int_syscall d tf SYS_free_shared_object objectID va 0 0 0"

definition sys_getMaxShares_stub :: "devices \<Rightarrow> Trapframe \<Rightarrow> (kstate, uint32) M" where
  "sys_getMaxShares_stub d tf = int_syscall d tf SYS_get_max_shares 0 0 0 0 0"

definition sys_create_env_stub :: "devices \<Rightarrow> Trapframe \<Rightarrow> uint32 \<Rightarrow> uint32 \<Rightarrow> (kstate, uint32) M" where
  "sys_create_env_stub d tf name page_WS_size = int_syscall d tf SYS_create_env name page_WS_size 0 0 0"

definition sys_run_env_stub :: "devices \<Rightarrow> Trapframe \<Rightarrow> uint32 \<Rightarrow> (kstate, unit) M" where
  "sys_run_env_stub d tf envId = seqm (int_syscall d tf SYS_run_env envId 0 0 0 0) (ret ())"

definition sys_free_env_stub :: "devices \<Rightarrow> Trapframe \<Rightarrow> uint32 \<Rightarrow> (kstate, unit) M" where
  "sys_free_env_stub d tf envId = seqm (int_syscall d tf SYS_free_env envId 0 0 0 0) (ret ())"

definition sys_moveMem_stub :: "devices \<Rightarrow> Trapframe \<Rightarrow> uint32 \<Rightarrow> uint32 \<Rightarrow> uint32 \<Rightarrow> (kstate, unit) M" where
  "sys_moveMem_stub d tf src dst sz = seqm (int_syscall d tf SYS_moveMem src dst sz 0 0) (ret ())"

definition sys_rcr2_stub :: "devices \<Rightarrow> Trapframe \<Rightarrow> (kstate, uint32) M" where
  "sys_rcr2_stub d tf = int_syscall d tf SYS_rcr2 0 0 0 0 0"

definition sys_bypassPageFault_stub :: "devices \<Rightarrow> Trapframe \<Rightarrow> uint8 \<Rightarrow> (kstate, unit) M" where
  "sys_bypassPageFault_stub d tf len = seqm (int_syscall d tf SYS_bypassPageFault (ucast (len)) 0 0 0 0) (ret ())"

definition rsttst_stub :: "devices \<Rightarrow> Trapframe \<Rightarrow> (kstate, unit) M" where
  "rsttst_stub d tf = seqm (int_syscall d tf SYS_rsttst 0 0 0 0 0) (ret ())"

definition tst_stub :: "devices \<Rightarrow> Trapframe \<Rightarrow> uint32 \<Rightarrow> uint32 \<Rightarrow> uint32 \<Rightarrow> uint8 \<Rightarrow> uint32 \<Rightarrow> (kstate, unit) M" where
  "tst_stub d tf n v1 v2 c invalid = seqm (int_syscall d tf SYS_testNum n v1 v2 (scast (c)) invalid) (ret ())"

definition chktst_stub :: "devices \<Rightarrow> Trapframe \<Rightarrow> uint32 \<Rightarrow> (kstate, unit) M" where
  "chktst_stub d tf n = seqm (int_syscall d tf SYS_chktst n 0 0 0 0) (ret ())"

definition inctst_stub :: "devices \<Rightarrow> Trapframe \<Rightarrow> (kstate, unit) M" where
  "inctst_stub d tf = seqm (int_syscall d tf SYS_inctst 0 0 0 0 0) (ret ())"

definition gettst_stub :: "devices \<Rightarrow> Trapframe \<Rightarrow> (kstate, uint32) M" where
  "gettst_stub d tf = int_syscall d tf SYS_gettst 0 0 0 0 0"

definition sys_set_uheap_strategy_stub :: "devices \<Rightarrow> Trapframe \<Rightarrow> uint32 \<Rightarrow> (kstate, unit) M" where
  "sys_set_uheap_strategy_stub d tf heapStrategy = seqm (int_syscall d tf SYS_set_heap_strategy heapStrategy 0 0 0 0) (ret ())"

text \<open>The structure that is returned lies in the memory of the program, where the kernel writes it.\<close>

definition load_user_word :: "uint32 \<Rightarrow> uint32 \<Rightarrow> (kstate, uint32) M" where
  "load_user_word pgdir a =
     acc_n 4 0 (\<lambda>k w. bnd (load_user_byte pgdir (a + of_nat k)) (\<lambda>b. ret (w OR push_bit (8 * k) (ucast b)))) 0"

definition sys_get_virtual_time_stub :: "devices \<Rightarrow> Trapframe \<Rightarrow> uint32 \<Rightarrow> (kstate, uint32 \<times> uint32) M" where
  "sys_get_virtual_time_stub d tf result =
     seqm (int_syscall d tf SYS_get_virtual_time result (result + 4) 0 0 0)
     (bnd current_directory (\<lambda>pgdir.
      bnd (load_user_word pgdir result) (\<lambda>low. bnd (load_user_word pgdir (result + 4)) (\<lambda>hi. ret (low, hi)))))"

definition is_strategy :: "devices \<Rightarrow> Trapframe \<Rightarrow> uint32 \<Rightarrow> (kstate, uint32) M" where
  "is_strategy d tf strategy = bnd (int_syscall d tf SYS_get_heap_strategy 0 0 0 0 0) (\<lambda>r. ret (if r = strategy then 1 else 0))"

definition sys_isUHeapPlacementStrategyFIRSTFIT :: "devices \<Rightarrow> Trapframe \<Rightarrow> (kstate, uint32) M" where
  "sys_isUHeapPlacementStrategyFIRSTFIT d tf = is_strategy d tf UHP_PLACE_FIRSTFIT"

definition sys_isUHeapPlacementStrategyBESTFIT :: "devices \<Rightarrow> Trapframe \<Rightarrow> (kstate, uint32) M" where
  "sys_isUHeapPlacementStrategyBESTFIT d tf = is_strategy d tf UHP_PLACE_BESTFIT"

definition sys_isUHeapPlacementStrategyNEXTFIT :: "devices \<Rightarrow> Trapframe \<Rightarrow> (kstate, uint32) M" where
  "sys_isUHeapPlacementStrategyNEXTFIT d tf = is_strategy d tf UHP_PLACE_NEXTFIT"

definition sys_isUHeapPlacementStrategyWORSTFIT :: "devices \<Rightarrow> Trapframe \<Rightarrow> (kstate, uint32) M" where
  "sys_isUHeapPlacementStrategyWORSTFIT d tf = is_strategy d tf UHP_PLACE_WORSTFIT"

section \<open>Console (lib/console.c)\<close>

definition user_cputchar :: "devices \<Rightarrow> Trapframe \<Rightarrow> uint32 \<Rightarrow> (kstate, unit) M" where
  "user_cputchar d tf ch = sys_cputc_stub d tf (ucast ch)"

definition atomic :: "devices \<Rightarrow> Trapframe \<Rightarrow> (kstate, 'a) M \<Rightarrow> (kstate, 'a) M" where
  "atomic d tf m = seqm (sys_disable_interrupt_stub d tf) (bnd m (\<lambda>r. seqm (sys_enable_interrupt_stub d tf) (ret r)))"

definition atomic_cputchar :: "devices \<Rightarrow> Trapframe \<Rightarrow> uint32 \<Rightarrow> (kstate, unit) M" where
  "atomic_cputchar d tf ch = atomic d tf (user_cputchar d tf ch)"

text \<open>
  The loops ask until there is a character; each question is answered by the devices as they are at that time.
  The result has the devices that are left.
\<close>

fun user_getchar :: "Trapframe \<Rightarrow> devices list \<Rightarrow> (kstate, uint32 \<times> devices list) M" where
  "user_getchar tf [] = raise OutOfFuel"
| "user_getchar tf (d # ds) = bnd (sys_cgetc_stub d tf) (\<lambda>c. if c = 0 then user_getchar tf ds else ret (c, ds))"

definition atomic_getchar :: "devices \<Rightarrow> Trapframe \<Rightarrow> devices list \<Rightarrow> (kstate, uint32 \<times> devices list) M" where
  "atomic_getchar d tf ds = atomic d tf (user_getchar tf ds)"

definition iscons :: "uint32 \<Rightarrow> uint32" where "iscons fdnum = 1"

section \<open>Printing and reading (lib/printf.c, lib/readline.c)\<close>

text \<open>Each piece of the text is printed by a system call on the buffer, which is on the stack of the program.\<close>

definition user_vcprintf_calls :: "devices \<Rightarrow> Trapframe \<Rightarrow> uint32 \<Rightarrow> uint8 \<Rightarrow> memory \<Rightarrow> uint32 \<Rightarrow> uint32 \<Rightarrow> (kstate, uint32) M" where
  "user_vcprintf_calls d tf buffer printProgName m fmt ap = (case user_vcprintf m fmt ap of
       None \<Rightarrow> raise OutOfFuel
     | Some (pieces, n) \<Rightarrow> seqm (for_each pieces (\<lambda>p. sys_cputs_stub d tf buffer (of_nat (length p)) printProgName)) (ret n))"

definition user_cprintf :: "devices \<Rightarrow> Trapframe \<Rightarrow> uint32 \<Rightarrow> memory \<Rightarrow> uint32 \<Rightarrow> uint32 \<Rightarrow> (kstate, uint32) M" where
  "user_cprintf d tf buffer m fmt ap = user_vcprintf_calls d tf buffer 1 m fmt ap"

definition atomic_cprintf :: "devices \<Rightarrow> Trapframe \<Rightarrow> uint32 \<Rightarrow> memory \<Rightarrow> uint32 \<Rightarrow> uint32 \<Rightarrow> (kstate, uint32) M" where
  "atomic_cprintf d tf buffer m fmt ap = atomic d tf (user_vcprintf_calls d tf buffer 0 m fmt ap)"

definition E_EOF :: int where "E_EOF = -7"

text \<open>
  \<open>readline\<close> with the system calls it makes; the line is stored at \<open>p\<close> in the memory of the program, whose
  page is resident.  \<open>n\<close> bounds the characters read, of which there are not more than devices;
  \<open>complain\<close> is the call of \<open>cprintf\<close> with the message about an error.
\<close>

primrec readline_calls :: "nat \<Rightarrow> devices \<Rightarrow> Trapframe \<Rightarrow> (uint32 \<Rightarrow> (kstate, unit) M) \<Rightarrow> uint32 \<Rightarrow> nat \<Rightarrow> devices list \<Rightarrow> (kstate, devices list) M" where
  "readline_calls 0 d tf complain p i ds = raise OutOfFuel"
| "readline_calls (Suc n) d tf complain p i ds =
     bnd (user_getchar tf ds) (\<lambda>(c, ds).
     bnd current_directory (\<lambda>pgdir.
       let echo = whenM (iscons 0 \<noteq> 0) (user_cputchar d tf c) in
       if c <s 0 then seqm (whenM (c \<noteq> of_int (- E_EOF)) (complain c)) (ret ds)
       else if 32 \<le>s c \<and> i < BUFLEN - 1
         then seqm echo (seqm (put_user_byte pgdir (p + of_nat i) (ucast c)) (readline_calls n d tf complain p (i + 1) ds))
       else if c = 8 \<and> 0 < i then seqm echo (readline_calls n d tf complain p (i - 1) ds)
       else if c = 10 \<or> c = 13 then seqm echo (seqm (put_user_byte pgdir (p + of_nat i) 0) (ret ds))
       else readline_calls n d tf complain p i ds))"

definition atomic_readline ::
  "devices \<Rightarrow> Trapframe \<Rightarrow> uint32 \<Rightarrow> (uint32 \<Rightarrow> (kstate, unit) M) \<Rightarrow> (memory \<times> uint32 \<times> uint32) option \<Rightarrow> uint32 \<Rightarrow> devices list \<Rightarrow> (kstate, devices list) M" where
  "atomic_readline d tf buffer complain prompt p ds = atomic d tf
     (seqm (case prompt of None \<Rightarrow> ret () | Some (m, fmt, ap) \<Rightarrow> seqm (user_cprintf d tf buffer m fmt ap) (ret ()))
       (readline_calls (Suc (length ds)) d tf complain p 0 ds))"

section \<open>Sleeping (lib/concurrency.c)\<close>

definition CYCLES_PER_MILLISEC :: uint32 where "CYCLES_PER_MILLISEC = 10000"

text \<open>Only the lower word of the difference is looked at.\<close>

primrec sleep_loop :: "Trapframe \<Rightarrow> uint32 \<Rightarrow> devices list \<Rightarrow> uint32 \<Rightarrow> uint32 \<Rightarrow> uint32 \<Rightarrow> (kstate, unit) M" where
  "sleep_loop tf result [] base cycles cycles_counter = (if cycles_counter < cycles then raise OutOfFuel else ret ())"
| "sleep_loop tf result (d # ds) base cycles cycles_counter =
     (if cycles_counter < cycles
      then bnd (sys_get_virtual_time_stub d tf result) (\<lambda>(low, hi). sleep_loop tf result ds base cycles (low - base))
      else ret ())"

definition env_sleep :: "Trapframe \<Rightarrow> uint32 \<Rightarrow> devices \<Rightarrow> devices list \<Rightarrow> uint32 \<Rightarrow> (kstate, unit) M" where
  "env_sleep tf result d ds approxMilliSeconds =
     bnd (sys_get_virtual_time_stub d tf result) (\<lambda>(low, hi).
       sleep_loop tf result ds low (approxMilliSeconds * CYCLES_PER_MILLISEC) 0)"

function busy_loop :: "uint32 \<Rightarrow> uint32 \<Rightarrow> uint32" where
  "busy_loop loopMax i = (if i < loopMax then busy_loop loopMax (i + 1) else i)"
  by pat_completeness auto
termination
proof (relation "measure (\<lambda>(m, i). unat (m - i))", simp)
  fix m i :: uint32
  assume "i < m"
  then have "unat (m - (i + 1)) < unat (m - i)"
    by (metis diff_diff_eq measure_unat right_minus_eq order_less_irrefl)
  then show "((m, i + 1), (m, i)) \<in> measure (\<lambda>(m, i). unat (m - i))"
    by simp
qed

declare busy_loop.simps [simp del]

definition busy_wait :: "uint32 \<Rightarrow> uint32" where
  "busy_wait loopMax = busy_loop loopMax 0"

section \<open>Start and end of a program (lib/exit.c, lib/libmain.c, lib/panic.c)\<close>

definition destroy :: "devices \<Rightarrow> Trapframe \<Rightarrow> (kstate, unit) M" where
  "destroy d tf = seqm (sys_env_destroy_stub d tf 0) (ret ())"

definition exit :: "devices \<Rightarrow> Trapframe \<Rightarrow> (kstate, unit) M" where
  "exit d tf = sys_env_exit_stub d tf"

text \<open>
  \<open>myEnv\<close> is the index of the environment; \<open>main\<close> is what the program does, and \<open>messages\<close> are the formats and
  arguments of the three lines at the end, in the memory \<open>m\<close> of the program.  The name kept for messages is left out.
\<close>

definition libmain :: "devices \<Rightarrow> Trapframe \<Rightarrow> uint32 \<Rightarrow> memory \<Rightarrow> (uint32 \<times> uint32) list \<Rightarrow> (uint32 \<Rightarrow> (kstate, unit) M) \<Rightarrow> (kstate, unit) M" where
  "libmain d tf buffer m messages main =
     bnd (sys_getenvindex_stub d tf) (\<lambda>myEnv.
     seqm (main myEnv)
     (seqm (sys_disable_interrupt_stub d tf)
     (seqm (for_each messages (\<lambda>(fmt, ap). seqm (user_cprintf d tf buffer m fmt ap) (ret ())))
     (seqm (sys_enable_interrupt_stub d tf) (exit d tf)))))"

text \<open>
  Nothing sets \<open>argv0\<close>, so the first line is where the panic was; then comes the message, and a line feed.
  The loop that follows the exit is not reached.
\<close>

definition user_panic :: "devices \<Rightarrow> Trapframe \<Rightarrow> uint32 \<Rightarrow> memory \<Rightarrow> uint32 \<times> uint32 \<Rightarrow> uint32 \<times> uint32 \<Rightarrow> uint32 \<Rightarrow> (kstate, unit) M" where
  "user_panic d tf buffer m place message newline =
     seqm (user_cprintf d tf buffer m (fst place) (snd place))
     (seqm (user_vcprintf_calls d tf buffer 0 m (fst message) (snd message))
     (seqm (user_vcprintf_calls d tf buffer 0 m newline 0) (exit d tf)))"

end
