(* ===== verification/Userlib_Props.thy ===== *)
theory Userlib_Props
  imports Userlib Semaphore_Props
begin

text \<open>
  From the stub through the interrupt, the dispatch and the function of the kernel, and back to the program.
\<close>

unbundle bit_operations_syntax

lemma number_of_syscall: "syscall_of (syscall_number n) = Some n"
proof -
  let ?k = "length (takeWhile (\<lambda>k. k \<noteq> n) syscall_numbers)"
  have l: "length syscall_numbers = 44"
    by (simp add: syscall_numbers_def)
  have "n \<in> set syscall_numbers"
    by (cases n) (simp_all add: syscall_numbers_def)
  then have "takeWhile (\<lambda>k. k \<noteq> n) syscall_numbers \<noteq> syscall_numbers"
    by (auto simp: takeWhile_eq_all_conv)
  then have k: "?k < length syscall_numbers"
    using length_takeWhile_le [of "\<lambda>k. k \<noteq> n" syscall_numbers] takeWhile_eq_take [of "\<lambda>k. k \<noteq> n" syscall_numbers]
    by (metis le_neq_implies_less order_refl take_all)
  then have "syscall_numbers ! ?k = n"
    using nth_length_takeWhile by fastforce
  moreover have "unat (of_nat ?k :: uint32) = ?k"
    using k by (simp add: unat_of_nat_small l)
  ultimately show ?thesis
    using k by (simp add: syscall_of_def syscall_number_def)
qed

text \<open>What the kernel function is called on: the state with the registers of the program saved.\<close>

definition entered :: "nat \<Rightarrow> Trapframe \<Rightarrow> kstate \<Rightarrow> kstate" where
  "entered e tf s = upd_env e (\<lambda>v. v\<lparr>env_tf := tf\<rparr>) (emit Kclock_stop s)"

lemma exits_entered [simp]: "exits (entered e tf s) = exits s"
  by (simp add: entered_def exits_def upd_env_def emit_def gives_control_def)

lemma trap_of_syscall:
  assumes cur: "curenv s = Some e" and user: "tf_cs tf AND 3 = 3"
    and call: "syscall d num a1 a2 a3 a4 a5 (entered e (int_frame tf num a1 a2 a3 a4 a5) s) = Inr (r, s')"
    and stays: "exits s' = exits s" "curenv s' = Some e" "env_status (envs s' e) = ENV_READY"
  shows "trap d (int_frame tf num a1 a2 a3 a4 a5) s = Inr ((), emit (Pop_trapframe e) (emit Kclock_resume (set_eax (Some e) r s')))"
proof -
  let ?tf = "int_frame tf num a1 a2 a3 a4 a5" and ?s = "entered e (int_frame tf num a1 a2 a3 a4 a5) s"
  have "trap_dispatch d (Some e) ?tf ?s = Inr ((), set_eax (Some e) r s')"
    using call stays(1) by (simp add: trap_dispatch_def trap_syscall_def int_frame_def T_SYSCALL_def T_PGFLT_def)
  moreover have "exits (set_eax (Some e) r s') = exits ?s"
    using stays(1) by (simp add: set_eax_def exits_def upd_env_def entered_def emit_def gives_control_def)
  moreover have "env_run e (set_eax (Some e) r s') = Inr ((), emit (Pop_trapframe e) (emit Kclock_resume (set_eax (Some e) r s')))"
    using stays(2) by (simp add: env_run_def set_eax_def upd_env_def)
  moreover have "curenv (set_eax (Some e) r s') = Some e" "env_status (envs (set_eax (Some e) r s') e) = ENV_READY"
    using stays by (simp_all add: set_eax_def upd_env_def)
  ultimately show ?thesis
    using cur user
    by (simp add: trap_def entered_def unless_left_def int_frame_def T_SYSCALL_def T_PGFLT_def IRQ0_Clock_def emit_def get_env_def upd_env_def)
qed

definition resumed :: "nat \<Rightarrow> uint32 \<Rightarrow> kstate \<Rightarrow> kstate" where
  "resumed e r s = emit (Pop_trapframe e) (emit Kclock_resume (set_eax (Some e) r s))"

text \<open>C31: A stub returns to its program what the function of the kernel computes from the arguments, in the state
  with the registers of the program saved, when that function neither blocks nor ends the program; the program
  goes on with its own registers and the result in \<open>eax\<close>.
\<close>

theorem stub_returns_result:
  assumes cur: "curenv s = Some e" and user: "tf_cs tf AND 3 = 3"
    and call: "syscall d (syscall_number n) a1 a2 a3 a4 a5
      (entered e (int_frame tf (syscall_number n) a1 a2 a3 a4 a5) s) = Inr (r, s')"
    and stays: "exits s' = exits s" "curenv s' = Some e" "env_status (envs s' e) = ENV_READY"
  shows "int_syscall d tf n a1 a2 a3 a4 a5 s = Inr (r, resumed e r s') \<and> List.last (hw (resumed e r s')) = Pop_trapframe e"
proof -
  have "tf_eax (env_tf (envs (resumed e r s') e)) = r"
    by (simp add: resumed_def set_eax_def upd_env_def emit_def)
  then show ?thesis
    using trap_of_syscall [OF cur user call stays] cur
    by (simp add: int_syscall_def resumed_def emit_def)
qed

definition user_frame :: Trapframe where
  "user_frame = zero_trapframe\<lparr>tf_cs := 0x1B\<rparr>"

lemma stub_returns_result_witness:
  "\<forall>d. int_syscall d user_frame SYS_gettst 0 0 0 0 0 (two_ready\<lparr>tstcnt := 7\<rparr>) =
     Inr (7, resumed 1 7 (entered 1 (int_frame user_frame (syscall_number SYS_gettst) 0 0 0 0 0) (two_ready\<lparr>tstcnt := 7\<rparr>)))
   \<and> List.last (hw (resumed 1 7 (entered 1 (int_frame user_frame (syscall_number SYS_gettst) 0 0 0 0 0) (two_ready\<lparr>tstcnt := 7\<rparr>)))) = Pop_trapframe 1"
proof (intro allI, rule stub_returns_result)
  fix d
  show "syscall d (syscall_number SYS_gettst) 0 0 0 0 0
      (entered 1 (int_frame user_frame (syscall_number SYS_gettst) 0 0 0 0 0) (two_ready\<lparr>tstcnt := 7\<rparr>)) =
    Inr (7, entered 1 (int_frame user_frame (syscall_number SYS_gettst) 0 0 0 0 0) (two_ready\<lparr>tstcnt := 7\<rparr>))"
    by (simp add: syscall_def number_of_syscall gettst_def entered_def upd_env_def emit_def)
qed (simp_all add: two_ready_def user_frame_def entered_def upd_env_def emit_def exits_def gives_control_def)

section \<open>Reading the memory of a program\<close>

text \<open>States with the same address space, and computations that only look at it.\<close>

definition same_space :: "kstate \<Rightarrow> kstate \<Rightarrow> bool" where
  "same_space s t \<longleftrightarrow> kmem t = kmem s \<and> frame_data t = frame_data s \<and> frames_info t = frames_info s \<and>
     number_of_frames t = number_of_frames s \<and> curenv t = curenv s \<and>
     (\<forall>e. env_page_directory (envs t e) = env_page_directory (envs s e))"

definition reads :: "(kstate, 'a) M \<Rightarrow> bool" where
  "reads m \<longleftrightarrow> (\<forall>s t x u. same_space s t \<longrightarrow> m s = Inr (x, u) \<longrightarrow> u = s \<and> m t = Inr (x, t))"

lemma reads_ret: "reads (ret x)"
  by (simp add: reads_def)

lemma reads_raise: "reads (raise e)"
  by (simp add: reads_def)

lemma reads_deref: "reads (deref p)"
  by (simp add: reads_def)

lemma reads_bnd: "reads m \<Longrightarrow> (\<And>x. reads (f x)) \<Longrightarrow> reads (bnd m f)"
  unfolding reads_def bnd_eq_Inr by blast

lemma reads_raises: "reads (seqm m (raise e))"
  by (simp add: reads_def seqm_eq_Inr)

lemma reads_if: "reads m \<Longrightarrow> reads n \<Longrightarrow> reads (if b then m else n)"
  by simp

lemma reads_case_prod: "(\<And>x y. reads (f x y)) \<Longrightarrow> reads (case p of (x, y) \<Rightarrow> f x y)"
  by (cases p) simp

lemma reads_case_option: "reads m \<Longrightarrow> (\<And>x. reads (f x)) \<Longrightarrow> reads (case p of None \<Rightarrow> m | Some x \<Rightarrow> f x)"
  by (cases p) simp_all

lemma reads_gets: "(\<And>s t. same_space s t \<Longrightarrow> f t = f s) \<Longrightarrow> reads (gets f)"
  by (auto simp: reads_def)

lemma reads_load: "reads (load a)"
  by (auto simp: reads_def load_def same_space_def split: if_splits)

lemma reads_to_frame_info: "reads (to_frame_info pa)"
  by (auto simp: reads_def to_frame_info_def same_space_def split: if_splits)

lemma reads_kheap_virtual_address: "reads (kheap_virtual_address pa)"
  unfolding reads_def kheap_virtual_address_def same_space_def by (simp split: if_split)

lemma reads_STATIC: "reads (STATIC_KERNEL_VIRTUAL_ADDRESS pa)"
  unfolding reads_def STATIC_KERNEL_VIRTUAL_ADDRESS_def same_space_def by (simp split: if_split)

lemma reads_table_address: "reads (table_address va entry)"
  unfolding table_address_def by (rule reads_if reads_kheap_virtual_address reads_STATIC)+

lemma reads_get_page_table: "reads (get_page_table pgdir va)"
  unfolding get_page_table_def
  by (rule reads_bnd reads_load reads_table_address reads_if reads_ret reads_raises)+

lemma reads_frame_at: "reads (frame_at pgdir va)"
  unfolding frame_at_def get_frame_info_def
  by (rule reads_bnd reads_get_page_table reads_load reads_case_prod reads_to_frame_info reads_if
      reads_case_option reads_ret reads_raise)+

lemma reads_load_user_byte: "reads (load_user_byte pgdir a)"
  unfolding load_user_byte_def load_byte_def
  by (rule reads_if reads_bnd reads_load reads_ret reads_frame_at reads_gets)+ (simp add: same_space_def)

lemma reads_read_string: "reads (read_string n pgdir a)"
proof (induction n arbitrary: a)
  case (Suc n)
  show ?case
    unfolding read_string.simps
    by (rule reads_bnd reads_load_user_byte reads_if reads_ret Suc.IH)+
qed (simp add: reads_raise)

lemma reads_current_directory: "reads current_directory"
  unfolding reads_def by (auto simp: current_directory_def get_env_def bnd_eq_Inr same_space_def)

lemma reads_user_string: "reads (user_string a)"
  unfolding user_string_def by (rule reads_bnd reads_current_directory reads_read_string)+

lemma user_string_same: "user_string a s = Inr (x, s) \<Longrightarrow> same_space s t \<Longrightarrow> user_string a t = Inr (x, t)"
  using reads_user_string unfolding reads_def by blast

lemma same_space_steps [simp]:
  "same_space s (entered e tf s)" "same_space s (resumed e r s)" "same_space s (upd_sem i f s)"
  by (simp_all add: same_space_def entered_def resumed_def set_eax_def upd_env_def emit_def upd_sem_def)

lemma same_space_trans: "same_space s t \<Longrightarrow> same_space t u \<Longrightarrow> same_space s u"
  by (simp add: same_space_def)

lemma steps_fields [simp]:
  "curenv (entered e tf s) = curenv s" "semaphores (entered e tf s) = semaphores s" "semaphores_ptr (entered e tf s) = semaphores_ptr s"
  "MAX_SEMAPHORES (entered e tf s) = MAX_SEMAPHORES s" "env_id (envs (entered e tf s) k) = env_id (envs s k)"
  "env_status (envs (entered e tf s) k) = env_status (envs s k)"
  "curenv (resumed e r s) = curenv s" "semaphores (resumed e r s) = semaphores s" "semaphores_ptr (resumed e r s) = semaphores_ptr s"
  "MAX_SEMAPHORES (resumed e r s) = MAX_SEMAPHORES s" "env_id (envs (resumed e r s) k) = env_id (envs s k)"
  "env_status (envs (resumed e r s) k) = env_status (envs s k)"
  by (simp_all add: entered_def resumed_def set_eax_def upd_env_def emit_def)

section \<open>A semaphore of a program\<close>

definition new_semaphore :: "uint32 \<Rightarrow> string \<Rightarrow> uint32 \<Rightarrow> nat \<Rightarrow> kstate \<Rightarrow> kstate" where
  "new_semaphore owner n v i s = upd_sem i (\<lambda>x. x\<lparr>sem_empty := False, sem_name := n, sem_value := v, sem_ownerID := owner\<rparr>)
     (upd_sem i (\<lambda>x. x\<lparr>sem_empty := False\<rparr>) s)"

lemma createSemaphore_new:
  assumes "semaphores_ptr s \<noteq> 0" and "length n < 64"
    and "\<And>k. k < unat (MAX_SEMAPHORES s) \<Longrightarrow> \<not> is_semaphore owner n (semaphores s k)"
    and i: "find (\<lambda>k. sem_empty (semaphores s k)) [0..<unat (MAX_SEMAPHORES s)] = Some i"
  shows "createSemaphore owner n v s = Inr (int i, new_semaphore owner n v i s)"
proof -
  have "find (\<lambda>k. is_semaphore owner n (semaphores s k)) [0..<unat (MAX_SEMAPHORES s)] = None"
    using assms(3) by (simp add: find_None_iff)
  moreover have "int i \<noteq> E_NO_SEMAPHORE"
    by (simp add: E_NO_SEMAPHORE_def)
  ultimately show ?thesis
    using assms(1,2) i by (simp add: createSemaphore_def allocate_semaphore_object_def search_apply new_semaphore_def)
qed

lemma new_semaphore_found:
  assumes "\<And>k. k < unat (MAX_SEMAPHORES s) \<Longrightarrow> \<not> is_semaphore owner n (semaphores s k)" and "i < unat (MAX_SEMAPHORES s)"
  shows "find (\<lambda>k. is_semaphore owner n (semaphores (new_semaphore owner n v i s) k)) [0..<unat (MAX_SEMAPHORES s)] = Some i"
proof -
  have "is_semaphore owner n (semaphores (new_semaphore owner n v i s) k) \<longleftrightarrow> k = i" if "k < unat (MAX_SEMAPHORES s)" for k
    using assms(1) [OF that] by (simp add: new_semaphore_def upd_sem_def is_semaphore_def)
  then show ?thesis
    using assms(2) by (subst find_Some_iff) (intro exI [of _ i], simp)
qed

text \<open>C32: A program that creates a semaphore through its stub and then asks for its value gets the initial value, when the
  program has no semaphore of that name yet and the array has a free entry.
\<close>

theorem created_semaphore_has_value:
  assumes cur: "curenv s = Some e" and user: "tf_cs tf AND 3 = 3" and st: "env_status (envs s e) = ENV_READY"
    and name: "user_string name s = Inr (n, s)" and len: "length n < 64" and ptr: "semaphores_ptr s \<noteq> 0"
    and fresh: "\<And>k. k < unat (MAX_SEMAPHORES s) \<Longrightarrow> \<not> is_semaphore (env_id (envs s e)) n (semaphores s k)"
    and room: "i < unat (MAX_SEMAPHORES s)" "sem_empty (semaphores s i)"
  shows "\<exists>t. seqm (sys_createSemaphore_stub d tf name v) (sys_getSemaphoreValue_stub d tf (env_id (envs s e)) name) s = Inr (v, t)"
proof -
  let ?owner = "env_id (envs s e)"
  obtain j where j: "find (\<lambda>k. sem_empty (semaphores s k)) [0..<unat (MAX_SEMAPHORES s)] = Some j"
    using room find_None_iff [of "\<lambda>k. sem_empty (semaphores s k)" "[0..<unat (MAX_SEMAPHORES s)]"] by fastforce
  have jm: "j < unat (MAX_SEMAPHORES s)"
    using j by (auto simp: find_Some_iff)
  define fr1 where "fr1 = int_frame tf (syscall_number SYS_create_semaphore) name v 0 0 0"
  define s1 where "s1 = new_semaphore ?owner n v j (entered e fr1 s)"
  have same1: "same_space s s1"
    unfolding s1_def new_semaphore_def by (meson same_space_trans same_space_steps)
  have f1: "curenv s1 = Some e" "env_id (envs s1 e) = ?owner" "env_status (envs s1 e) = ENV_READY" "MAX_SEMAPHORES s1 = MAX_SEMAPHORES s"
    "semaphores_ptr s1 \<noteq> 0" "exits s1 = exits s"
    using cur st ptr by (simp_all add: s1_def new_semaphore_def upd_sem_def exits_def entered_def upd_env_def emit_def gives_control_def)
  have "createSemaphore ?owner n v (entered e fr1 s) = Inr (int j, s1)"
    unfolding s1_def by (rule createSemaphore_new) (use ptr len fresh j in simp_all)
  then have c1: "syscall d (syscall_number SYS_create_semaphore) name v 0 0 0 (entered e fr1 s) = Inr (of_int (int j), s1)"
    using user_string_same [OF name same_space_steps(1)] cur
    by (simp add: syscall_def number_of_syscall int_result_def sys_createSemaphore_def myself_def get_env_def)
  define t1 where "t1 = resumed e (of_int (int j)) s1"
  have r1: "sys_createSemaphore_stub d tf name v s = Inr (of_int (int j), t1)"
    using stub_returns_result [OF cur user c1 [unfolded fr1_def] f1(6,1,3)] by (simp add: sys_createSemaphore_stub_def t1_def)
  define fr2 where "fr2 = int_frame tf (syscall_number SYS_get_semaphore_value) ?owner name 0 0 0"
  define s2 where "s2 = entered e fr2 t1"
  have same2: "same_space s s2"
    unfolding s2_def t1_def by (meson same1 same_space_trans same_space_steps)
  have f2: "semaphores s2 = semaphores s1" "MAX_SEMAPHORES s2 = MAX_SEMAPHORES s" "semaphores_ptr s2 \<noteq> 0"
    "curenv s2 = Some e" "env_status (envs s2 e) = ENV_READY" "exits s2 = exits t1"
    using f1 by (simp_all add: s2_def t1_def)
  have "find (\<lambda>k. is_semaphore ?owner n (semaphores s2 k)) [0..<unat (MAX_SEMAPHORES s2)] = Some j"
    using new_semaphore_found [of "entered e fr1 s" ?owner n j v] fresh jm f2(1,2) by (simp add: s1_def)
  then have "get_semaphore_object_ID ?owner n s2 = Inr (int j, s2)"
    using f2(3) by (simp add: get_semaphore_object_ID_def search_apply)
  moreover have "sem_value (semaphores s2 j) = v"
    unfolding f2(1) by (simp add: s1_def new_semaphore_def upd_sem_def)
  ultimately have c2: "syscall d (syscall_number SYS_get_semaphore_value) ?owner name 0 0 0 s2 = Inr (v, s2)"
    using user_string_same [OF name same2] jm f2(2)
    by (simp add: syscall_def number_of_syscall sys_getSemaphoreValue_def)
  have "curenv t1 = Some e"
    using f1 by (simp add: t1_def)
  from stub_returns_result [OF this user c2 [unfolded s2_def fr2_def] f2(6,4,5) [unfolded s2_def fr2_def]]
  have "sys_getSemaphoreValue_stub d tf ?owner name t1 = Inr (v, resumed e v s2)"
    by (simp add: sys_getSemaphoreValue_stub_def s2_def fr2_def)
  with r1 show ?thesis
    by simp
qed

text \<open>A program with a page at 0x800000, which holds the name \<^verbatim>\<open>bc\<close>.\<close>

definition naming_machine :: kstate where
  "naming_machine = two_ready\<lparr>number_of_frames := 0x400, MAX_SEMAPHORES := 2,
     envs := (\<lambda>_. zero_env\<lparr>env_status := ENV_READY, env_id := 4097, env_page_directory := 0xF6000000\<rparr>),
     kmem := (\<lambda>a. if a = 0xF6000008 then 0x300007 else if a = 0xF6001000 then 0x301007 else 0),
     frames_info := (\<lambda>_. zero_frame_info\<lparr>fi_va := 0xF6001000\<rparr>),
     frame_data := (\<lambda>f i. if f = 0x301 \<and> i = 0 then 0x6362 else 0),
     semaphores := (\<lambda>i. if i = 0 then \<lparr>sem_ownerID = 4097, sem_name = ''cs'', env_queue = [], sem_value = 1, sem_empty = False\<rparr>
       else zero_semaphore)\<rparr>"

lemma read_string_numeral:
  "read_string (numeral k) pgdir a = bnd (load_user_byte pgdir a) (\<lambda>b. if b = 0 then ret []
     else bnd (read_string (pred_numeral k) pgdir (a + 1)) (\<lambda>cs. ret (char_of (unat b) # cs)))"
  by (simp add: numeral_eq_Suc)

lemma naming_addresses:
  "PDX 0x800000 = 2" "PDX 0x800001 = 2" "PDX 0x800002 = 2" "PTX 0x800000 = 0" "PTX 0x800001 = 0" "PTX 0x800002 = 0"
  "CHECK_IF_KERNEL_ADDRESS 0x800000 = False" "CHECK_IF_KERNEL_ADDRESS 0x800001 = False" "CHECK_IF_KERNEL_ADDRESS 0x800002 = False"
  "EXTRACT_ADDRESS 0x300007 = 0x300000" "EXTRACT_ADDRESS 0x301007 = 0x301000" "PPN 0x300000 = 0x300" "PPN 0x301000 = 0x301"
  "word_at 0xF6000000 2 = 0xF6000008" "word_at 0xF6001000 0 = 0xF6001000"
  "PGOFF 0x800000 = 0" "PGOFF 0x800001 = 1" "PGOFF 0x800002 = 2"
  by code_simp+

lemma naming_page:
  assumes "PDX va = 2" "PTX va = 0" "CHECK_IF_KERNEL_ADDRESS va = False"
  shows "frame_at 0xF6000000 va naming_machine = Inr (0x301, naming_machine)"
proof -
  have l: "load 0xF6000008 naming_machine = Inr (0x300007, naming_machine)"
      "load 0xF6001000 naming_machine = Inr (0x301007, naming_machine)"
    by (simp_all add: load_def naming_machine_def PAGE_SIZE_def)
  have "kheap_virtual_address 0x300000 naming_machine = Inr (0xF6001000, naming_machine)"
    by (simp add: kheap_virtual_address_def naming_addresses naming_machine_def)
  then have "table_address va 0x300007 naming_machine = Inr (0xF6001000, naming_machine)"
    by (simp add: table_address_def assms(3) naming_addresses)
  then have "get_page_table 0xF6000000 va naming_machine = Inr ((TABLE_IN_MEMORY, 0xF6001000), naming_machine)"
    by (simp add: get_page_table_def assms(1) naming_addresses l PERM_PRESENT_def)
  moreover have "to_frame_info 0x301000 naming_machine = Inr (0x301, naming_machine)"
    by (simp add: to_frame_info_def naming_addresses naming_machine_def)
  ultimately show ?thesis
    using assms(2) by (simp add: frame_at_def get_frame_info_def naming_addresses l)
qed

lemma naming_bytes:
  "load_user_byte 0xF6000000 0x800000 naming_machine = Inr (0x62, naming_machine)"
  "load_user_byte 0xF6000000 0x800001 naming_machine = Inr (0x63, naming_machine)"
  "load_user_byte 0xF6000000 0x800002 naming_machine = Inr (0, naming_machine)"
  by (simp_all add: load_user_byte_def KERNEL_BASE_def naming_page naming_addresses get_byte_def)
    (simp_all add: naming_machine_def)

lemma naming_string: "user_string 0x800000 naming_machine = Inr (''bc'', naming_machine)"
proof -
  have "current_directory naming_machine = Inr (0xF6000000, naming_machine)"
    by (simp add: current_directory_def get_env_def naming_machine_def two_ready_def)
  moreover have "read_string 4096 0xF6000000 0x800000 naming_machine = Inr ([char_of (0x62 :: nat), char_of (0x63 :: nat)], naming_machine)"
    by (simp add: read_string_numeral naming_bytes)
  moreover have "[char_of (0x62 :: nat), char_of (0x63 :: nat)] = ''bc''"
    by code_simp
  ultimately show ?thesis
    by (simp add: user_string_def)
qed

lemma created_semaphore_has_value_witness:
  "\<forall>d. \<exists>t. seqm (sys_createSemaphore_stub d user_frame 0x800000 5)
     (sys_getSemaphoreValue_stub d user_frame (env_id (envs naming_machine 1)) 0x800000) naming_machine = Inr (5, t)"
proof (intro allI, rule created_semaphore_has_value [where i = 1])
  show "\<not> is_semaphore (env_id (envs naming_machine 1)) ''bc'' (semaphores naming_machine k)" for k
    by (simp add: naming_machine_def is_semaphore_def zero_semaphore_def)
  show "user_string 0x800000 naming_machine = Inr (''bc'', naming_machine)"
    by (rule naming_string)
qed (simp_all add: naming_machine_def two_ready_def user_frame_def zero_semaphore_def)

end
