(* ===== verification/Sorts.thy ===== *)
theory Sorts
  imports Prelude "HOL-Library.Multiset"
begin

text \<open>
  The sorting programs: user/quicksort.c, user/mergesort_noleakage.c and the selection of
  user/arrayOperations_stats.c.  An array is a function of the index, its elements are the values of
  the C integers; the programs compare and move them.  A loop that does not end has no result.
\<close>

type_synonym arr = "int \<Rightarrow> int"

definition Swap :: "arr \<Rightarrow> int \<Rightarrow> int \<Rightarrow> arr" where
  "Swap E First Second = (let Tmp = E First; E = E(First := E Second) in E(Second := Tmp))"

section \<open>Quicksort\<close>

partial_function (option) scan_up :: "arr \<Rightarrow> int \<Rightarrow> int \<Rightarrow> int \<Rightarrow> int option" where
  "scan_up E startIndex finalIndex i =
     (if i \<le> finalIndex \<and> E startIndex \<ge> E i then scan_up E startIndex finalIndex (i + 1) else Some i)"

partial_function (option) scan_down :: "arr \<Rightarrow> int \<Rightarrow> int \<Rightarrow> int option" where
  "scan_down E startIndex j =
     (if j > startIndex \<and> E startIndex \<le> E j then scan_down E startIndex (j - 1) else Some j)"

partial_function (option) partition_loop :: "int \<Rightarrow> int \<Rightarrow> arr \<Rightarrow> int \<Rightarrow> int \<Rightarrow> (arr \<times> int \<times> int) option" where
  "partition_loop startIndex finalIndex E i j =
     (if i \<le> j then
        Option.bind (scan_up E startIndex finalIndex i) (\<lambda>i.
        Option.bind (scan_down E startIndex j) (\<lambda>j.
          partition_loop startIndex finalIndex (if i \<le> j then Swap E i j else E) i j))
      else Some (E, i, j))"

partial_function (option) QSort :: "arr \<Rightarrow> int \<Rightarrow> int \<Rightarrow> arr option" where
  "QSort E startIndex finalIndex =
     (if startIndex \<ge> finalIndex then Some E
      else Option.bind (partition_loop startIndex finalIndex E (startIndex + 1) finalIndex) (\<lambda>(E, i, j).
           Option.bind (QSort (Swap E startIndex j) startIndex (j - 1)) (\<lambda>E.
             QSort E i finalIndex)))"

definition QuickSort :: "arr \<Rightarrow> int \<Rightarrow> arr option" where
  "QuickSort E NumOfElements = QSort E 0 (NumOfElements - 1)"

function CheckSorted_from :: "arr \<Rightarrow> int \<Rightarrow> int \<Rightarrow> uint32" where
  "CheckSorted_from E NumOfElements i =
     (if i < NumOfElements - 1 then if E i > E (i + 1) then 0 else CheckSorted_from E NumOfElements (i + 1) else 1)"
  by pat_completeness auto
termination
  by (relation "measure (\<lambda>(E, n, i). nat (n - i))") auto

definition CheckSorted :: "arr \<Rightarrow> int \<Rightarrow> uint32" where
  "CheckSorted E NumOfElements = CheckSorted_from E NumOfElements 0"

text \<open>\<open>for (i = 0; i < n; i++) Elements[i] = f(i)\<close>; remainders by zero trap, so the initialization may have no result.\<close>

primrec fill :: "nat \<Rightarrow> (int \<Rightarrow> int) \<Rightarrow> arr \<Rightarrow> arr" where
  "fill 0 f E = E"
| "fill (Suc n) f E = (fill n f E)(int n := f (int n))"

definition InitializeAscending :: "arr \<Rightarrow> int \<Rightarrow> arr" where
  "InitializeAscending E NumOfElements = fill (nat NumOfElements) (\<lambda>i. i) E"

definition InitializeDescending :: "arr \<Rightarrow> int \<Rightarrow> arr" where
  "InitializeDescending E NumOfElements = fill (nat NumOfElements) (\<lambda>i. NumOfElements - i - 1) E"

definition InitializeSemiRandom :: "arr \<Rightarrow> int \<Rightarrow> arr option" where
  "InitializeSemiRandom E NumOfElements =
     (let Repetition = (if NumOfElements < 0 then - (- NumOfElements div 3) else NumOfElements div 3) in
      if 0 < NumOfElements \<and> Repetition = 0 then None
      else Some (fill (nat NumOfElements) (\<lambda>i. i mod Repetition) E))"

text \<open>What the program does between reading its input and printing: \<open>None\<close> when it does not get to the end.\<close>

definition sort_program :: "char \<Rightarrow> arr \<Rightarrow> int \<Rightarrow> uint32 option" where
  "sort_program Chose E n =
     Option.bind (if Chose = CHR ''a'' then Some (InitializeAscending E n)
                  else if Chose = CHR ''b'' then Some (InitializeDescending E n)
                  else InitializeSemiRandom E n) (\<lambda>E.
     Option.bind (QuickSort E n) (\<lambda>E. Some (CheckSorted E n)))"

section \<open>Merge sort\<close>

text \<open>
  The indices start at 1 here, so that \<open>div\<close> is the division of C.  \<open>lefts\<close> and \<open>rights\<close> are the copies of the
  halves, for which there is memory.
\<close>

primrec merge_loop :: "nat \<Rightarrow> arr \<Rightarrow> arr \<Rightarrow> int \<Rightarrow> int \<Rightarrow> arr \<Rightarrow> int \<Rightarrow> int \<Rightarrow> int \<Rightarrow> arr" where
  "merge_loop 0 lefts rights leftCapacity rightCapacity A leftIndex rightIndex k = A"
| "merge_loop (Suc n) lefts rights leftCapacity rightCapacity A leftIndex rightIndex k =
     (if leftIndex < leftCapacity \<and> rightIndex < rightCapacity then
        if lefts leftIndex < rights rightIndex
        then merge_loop n lefts rights leftCapacity rightCapacity (A(k - 1 := lefts leftIndex)) (leftIndex + 1) rightIndex (k + 1)
        else merge_loop n lefts rights leftCapacity rightCapacity (A(k - 1 := rights rightIndex)) leftIndex (rightIndex + 1) (k + 1)
      else if leftIndex < leftCapacity
        then merge_loop n lefts rights leftCapacity rightCapacity (A(k - 1 := lefts leftIndex)) (leftIndex + 1) rightIndex (k + 1)
        else merge_loop n lefts rights leftCapacity rightCapacity (A(k - 1 := rights rightIndex)) leftIndex (rightIndex + 1) (k + 1))"

definition Merge :: "arr \<Rightarrow> int \<Rightarrow> int \<Rightarrow> int \<Rightarrow> arr" where
  "Merge A p q r =
     (let leftCapacity = q - p + 1; rightCapacity = r - q;
          lefts = fill (nat leftCapacity) (\<lambda>i. A (p + i - 1)) (\<lambda>_. 0);
          rights = fill (nat rightCapacity) (\<lambda>j. A (q + j)) (\<lambda>_. 0)
      in merge_loop (nat (r - p + 1)) lefts rights leftCapacity rightCapacity A 0 0 p)"

function MSort :: "arr \<Rightarrow> int \<Rightarrow> int \<Rightarrow> arr" where
  "MSort A p r =
     (if p \<ge> r then A
      else let q = (p + r) div 2 in Merge (MSort (MSort A p q) (q + 1) r) p q r)"
  by pat_completeness auto
termination
  by (relation "measure (\<lambda>(A, p, r). nat (r - p))") auto

declare CheckSorted_from.simps [simp del] MSort.simps [simp del]

section \<open>Selection\<close>

text \<open>The clock gives a new number each time it is asked; \<open>RAND\<close> is a remainder of words.\<close>

definition RAND :: "uint32 \<Rightarrow> int \<Rightarrow> int \<Rightarrow> int" where
  "RAND low s e = sint (low mod (of_int (e - s)) + of_int s)"

partial_function (option) QSort_kth :: "(nat \<Rightarrow> uint32) \<Rightarrow> nat \<Rightarrow> arr \<Rightarrow> int \<Rightarrow> int \<Rightarrow> int \<Rightarrow> int option" where
  "QSort_kth clock t E startIndex finalIndex kIndex =
     (if startIndex \<ge> finalIndex then Some (E finalIndex)
      else let pvtIndex = RAND (clock t) startIndex finalIndex; E = Swap E startIndex pvtIndex in
           Option.bind (partition_loop startIndex finalIndex E (startIndex + 1) finalIndex) (\<lambda>(E, i, j).
             let E = Swap E startIndex j in
             if kIndex = j then Some (E kIndex)
             else if kIndex < j then QSort_kth clock (Suc t) E startIndex (j - 1) kIndex
             else QSort_kth clock (Suc t) E i finalIndex kIndex))"

definition KthElement :: "(nat \<Rightarrow> uint32) \<Rightarrow> arr \<Rightarrow> int \<Rightarrow> int \<Rightarrow> int option" where
  "KthElement clock E NumOfElements k = QSort_kth clock 0 E 0 (NumOfElements - 1) (k - 1)"

end
