(* ===== verification/Sorts_Props.thy ===== *)
theory Sorts_Props
  imports Sorts
begin

text \<open>
  The sorting programs sort: they end, the array is a permutation of what it was, and ascending.  Ranges of the array are
  lists, \<open>map E [s..f]\<close>.
\<close>

declare scan_up.simps [simp del] scan_down.simps [simp del] partition_loop.simps [simp del] QSort.simps [simp del] QSort_kth.simps [simp del]

section \<open>Ranges\<close>

definition range_mset :: "arr \<Rightarrow> int \<Rightarrow> int \<Rightarrow> int multiset" where
  "range_mset E s f = mset (map E [s..f])"

lemma range_mset_set: "set_mset (range_mset E s f) = E ` {s..f}"
  by (simp add: range_mset_def)

lemma range_mset_split: "s \<le> m + 1 \<Longrightarrow> m \<le> f \<Longrightarrow> range_mset E s f = range_mset E s m + range_mset E (m + 1) f"
proof (cases "s \<le> m")
  case True
  assume "m \<le> f"
  with True have "[s..f] = [s..m] @ [m + 1..f]"
    by (rule upto_split2)
  then show ?thesis
    by (simp add: range_mset_def)
next
  case False
  assume "s \<le> m + 1"
  with False have "s = m + 1"
    by simp
  then show ?thesis
    by (simp add: range_mset_def)
qed

lemma range_mset_cong: "(\<And>k. s \<le> k \<Longrightarrow> k \<le> f \<Longrightarrow> E' k = E k) \<Longrightarrow> range_mset E' s f = range_mset E s f"
  unfolding range_mset_def by (intro arg_cong [where f = mset] map_cong) auto

lemma range_mset_one [simp]: "range_mset E s s = {#E s#}"
  by (simp add: range_mset_def)

lemma Swap_apply: "Swap E i j k = (if k = j then E i else if k = i then E j else E k)"
  by (simp add: Swap_def)

lemma range_mset_image: "range_mset E s f = image_mset E (mset_set {s..f})"
  using mset_set_set [of "[s..f]"] by (simp add: range_mset_def)

lemma Swap_mset:
  assumes "i \<in> {s..f}" and "j \<in> {s..f}"
  shows "range_mset (Swap E i j) s f = range_mset E s f"
proof (cases "i = j")
  case True
  then show ?thesis
    by (intro range_mset_cong) (simp add: Swap_apply)
next
  case False
  define S where "S = {s..f} - {i, j}"
  have "{s..f} = insert i (insert j S)" "finite S" "i \<notin> insert j S" "j \<notin> S"
    using assms False by (auto simp: S_def)
  then have m: "mset_set {s..f} = {#i, j#} + mset_set S"
    by simp
  have "image_mset (Swap E i j) (mset_set S) = image_mset E (mset_set S)"
    by (rule image_mset_cong) (auto simp: Swap_apply S_def)
  then show ?thesis
    unfolding range_mset_image m using False by (simp add: Swap_apply)
qed

section \<open>Partition\<close>

lemma scan_up_spec:
  assumes "i \<le> f + 1"
  shows "\<exists>i'. scan_up E s f i = Some i' \<and> i \<le> i' \<and> i' \<le> f + 1 \<and> (\<forall>k. i \<le> k \<and> k < i' \<longrightarrow> E k \<le> E s) \<and> (i' \<le> f \<longrightarrow> E s < E i')"
  using assms
proof (induction "nat (f + 1 - i)" arbitrary: i rule: less_induct)
  case less
  show ?case
  proof (cases "i \<le> f \<and> E s \<ge> E i")
    case True
    then have "nat (f + 1 - (i + 1)) < nat (f + 1 - i)" "i + 1 \<le> f + 1"
      by simp_all
    then obtain i' where "scan_up E s f (i + 1) = Some i'" "i + 1 \<le> i'" "i' \<le> f + 1"
      "\<forall>k. i + 1 \<le> k \<and> k < i' \<longrightarrow> E k \<le> E s" "i' \<le> f \<longrightarrow> E s < E i'"
      using less.hyps by blast
    moreover have "scan_up E s f i = scan_up E s f (i + 1)"
      using True by (subst scan_up.simps) simp
    moreover have "E k \<le> E s" if "i \<le> k" "k < i'" for k
      using that True calculation(4) by (cases "k = i") auto
    ultimately show ?thesis
      by (intro exI [of _ i']) simp
  next
    case False
    then show ?thesis
      using less.prems by (subst scan_up.simps) auto
  qed
qed

lemma scan_down_spec:
  assumes "s \<le> j"
  shows "\<exists>j'. scan_down E s j = Some j' \<and> j' \<le> j \<and> s \<le> j' \<and> (\<forall>k. j' < k \<and> k \<le> j \<longrightarrow> E s \<le> E k) \<and> (s < j' \<longrightarrow> E j' < E s)"
  using assms
proof (induction "nat (j - s)" arbitrary: j rule: less_induct)
  case less
  show ?case
  proof (cases "j > s \<and> E s \<le> E j")
    case True
    then have "nat (j - 1 - s) < nat (j - s)" "s \<le> j - 1"
      by simp_all
    then obtain j' where "scan_down E s (j - 1) = Some j'" "j' \<le> j - 1" "s \<le> j'"
      "\<forall>k. j' < k \<and> k \<le> j - 1 \<longrightarrow> E s \<le> E k" "s < j' \<longrightarrow> E j' < E s"
      using less.hyps by blast
    moreover have "scan_down E s j = scan_down E s (j - 1)"
      using True by (subst scan_down.simps) simp
    moreover have "E s \<le> E k" if "j' < k" "k \<le> j" for k
      using that True calculation(4) by (cases "k = j") auto
    ultimately show ?thesis
      by (intro exI [of _ j']) simp
  next
    case False
    then show ?thesis
      using less.prems by (subst scan_down.simps) auto
  qed
qed

text \<open>The state of the partition: what is left of \<open>i\<close> is not above the pivot, what is right of \<open>j\<close> not below it.\<close>

definition split_around :: "arr \<Rightarrow> int \<Rightarrow> int \<Rightarrow> int \<Rightarrow> int \<Rightarrow> bool" where
  "split_around E s f i j \<longleftrightarrow> s < i \<and> i \<le> f + 1 \<and> s \<le> j \<and> j \<le> f \<and>
     (\<forall>k. s < k \<and> k < i \<longrightarrow> E k \<le> E s) \<and> (\<forall>k. j < k \<and> k \<le> f \<longrightarrow> E s \<le> E k)"

lemma partition_round:
  assumes "split_around E s f i j"
  obtains i' j' where "scan_up E s f i = Some i'" and "scan_down E s j = Some j'" and "i \<le> i'" and "j' \<le> j"
    and "split_around E s f i' j'" and "i' \<le> f \<longrightarrow> E s < E i'" and "s < j' \<longrightarrow> E j' < E s"
proof -
  obtain i' where i: "scan_up E s f i = Some i'" "i \<le> i'" "i' \<le> f + 1" "\<forall>k. i \<le> k \<and> k < i' \<longrightarrow> E k \<le> E s" "i' \<le> f \<longrightarrow> E s < E i'"
    using scan_up_spec [of i f E s] assms unfolding split_around_def by blast
  obtain j' where j: "scan_down E s j = Some j'" "j' \<le> j" "s \<le> j'" "\<forall>k. j' < k \<and> k \<le> j \<longrightarrow> E s \<le> E k" "s < j' \<longrightarrow> E j' < E s"
    using scan_down_spec [of s j E] assms unfolding split_around_def by blast
  have "E k \<le> E s" if "s < k" "k < i'" for k
    using that i(4) assms unfolding split_around_def by (cases "k < i") auto
  moreover have "E s \<le> E k" if "j' < k" "k \<le> f" for k
    using that j(4) assms unfolding split_around_def by (cases "j < k") auto
  ultimately have "split_around E s f i' j'"
    using i j assms unfolding split_around_def by auto
  with i j show ?thesis
    by (intro that)
qed

lemma twice_less: "x < y \<Longrightarrow> 2 * x + (if P then 1 else 0) < 2 * y + (if Q then 1 else (0 :: nat))"
  by auto

text \<open>
  The loop ends: a round either moves one of the indices, or swaps two elements so that the next round moves both.
\<close>

lemma partition_loop_spec:
  assumes "split_around E s f i j"
  shows "\<exists>E' i' j'. partition_loop s f E i j = Some (E', i', j') \<and> j' < i' \<and> split_around E' s f i' j' \<and> E' s = E s \<and>
     range_mset E' s f = range_mset E s f \<and> (\<forall>k. k < s \<or> f < k \<longrightarrow> E' k = E k)"
  using assms
proof (induction "(2 * nat (j + 1 - i) + (if i \<le> f \<and> E s < E i then 1 else 0) :: nat)" arbitrary: E i j rule: less_induct)
  case less
  show ?case
  proof (cases "i \<le> j")
    case False
    then show ?thesis
      using less.prems by (subst partition_loop.simps) auto
  next
    case True
    obtain i' j' where r: "scan_up E s f i = Some i'" "scan_down E s j = Some j'" "i \<le> i'" "j' \<le> j"
      "split_around E s f i' j'" "i' \<le> f \<longrightarrow> E s < E i'" "s < j' \<longrightarrow> E j' < E s"
      using partition_round [OF less.prems] by blast
    define F where "F = (if i' \<le> j' then Swap E i' j' else E)"
    have eq: "partition_loop s f E i j = partition_loop s f F i' j'"
      using True r(1,2) by (subst partition_loop.simps) (simp add: F_def)
    show ?thesis
    proof (cases "i' \<le> j'")
      case False
      then have "partition_loop s f E i j = Some (E, i', j')"
        unfolding eq by (subst partition_loop.simps) (simp add: F_def)
      with False r(5) show ?thesis
        by auto
    next
      case swap: True
      have b: "s < i'" "i' < j'" "j' \<le> f" "E s < E i'" "E j' < E s"
        using swap r(5-7) unfolding split_around_def by (auto simp: le_less)
      have F: "F = Swap E i' j'" "F s = E s" "F i' = E j'" "F j' = E i'"
        using swap b by (simp_all add: F_def Swap_apply)
      have Fk: "F k = E k" if "k \<noteq> i'" "k \<noteq> j'" for k
        using that by (simp add: F(1) Swap_apply)
      have "split_around F s f i' j'"
        unfolding split_around_def F(2) using r(5) b Fk unfolding split_around_def by fastforce
      moreover have "2 * nat (j' + 1 - i') + (if i' \<le> f \<and> F s < F i' then 1 else 0) <
          2 * nat (j + 1 - i) + (if i \<le> f \<and> E s < E i then 1 else (0 :: nat))"
      proof (cases "i' = i")
        case True
        then have "i \<le> f \<and> E s < E i" "nat (j' + 1 - i') \<le> nat (j + 1 - i)"
          using b r(4) by auto
        moreover have "\<not> F s < F i'"
          unfolding F(2,3) using b by simp
        ultimately show ?thesis
          by simp
      next
        case False
        then have "nat (j' + 1 - i') < nat (j + 1 - i)"
          using swap r(3,4) by simp
        then show ?thesis
          by (rule twice_less)
      qed
      ultimately obtain E' i'' j'' where h: "partition_loop s f F i' j' = Some (E', i'', j'')" "j'' < i''" "split_around E' s f i'' j''"
        "E' s = F s" "range_mset E' s f = range_mset F s f" "\<forall>k. k < s \<or> f < k \<longrightarrow> E' k = F k"
        using less.hyps by blast
      have "range_mset F s f = range_mset E s f"
        unfolding F(1) by (rule Swap_mset) (use b in auto)
      with h eq b F(2) Fk show ?thesis
        by auto
    qed
  qed
qed

text \<open>After the pivot went to \<open>j\<close>, it is above what is left of it, and everything between \<open>j\<close> and \<open>i\<close> is equal to it.\<close>

lemma partition_end:
  assumes "s < f"
  obtains E' i j where "partition_loop s f E (s + 1) f = Some (E', i, j)" and "s \<le> j" and "j < i" and "j \<le> f" and "i \<le> f + 1"
    and "range_mset (Swap E' s j) s f = range_mset E s f" and "\<And>k. k < s \<or> f < k \<Longrightarrow> Swap E' s j k = E k"
    and "\<And>k. s \<le> k \<Longrightarrow> k < i \<Longrightarrow> Swap E' s j k \<le> Swap E' s j j" and "\<And>k. j \<le> k \<Longrightarrow> k \<le> f \<Longrightarrow> Swap E' s j j \<le> Swap E' s j k"
    and "Swap E' s j j = E s"
proof -
  have "split_around E s f (s + 1) f"
    using assms by (simp add: split_around_def)
  then obtain E' i j where p: "partition_loop s f E (s + 1) f = Some (E', i, j)" "j < i" "split_around E' s f i j" "E' s = E s"
    "range_mset E' s f = range_mset E s f" "\<forall>k. k < s \<or> f < k \<longrightarrow> E' k = E k"
    using partition_loop_spec by blast
  have b: "s \<le> j" "j \<le> f" "i \<le> f + 1" "\<And>k. s < k \<Longrightarrow> k < i \<Longrightarrow> E' k \<le> E' s" "\<And>k. j < k \<Longrightarrow> k \<le> f \<Longrightarrow> E' s \<le> E' k"
    using p(3) unfolding split_around_def by auto
  show ?thesis
  proof (rule that [OF p(1) b(1) p(2) b(2,3)])
    show "range_mset (Swap E' s j) s f = range_mset E s f"
      using b(1,2) assms p(5) by (subst Swap_mset) auto
    show "Swap E' s j k = E k" if "k < s \<or> f < k" for k
      using that b(1,2) p(6) by (auto simp: Swap_apply)
    show "Swap E' s j k \<le> Swap E' s j j" if "s \<le> k" "k < i" for k
      using that b p(2) by (auto simp: Swap_apply)
    show "Swap E' s j j \<le> Swap E' s j k" if "j \<le> k" "k \<le> f" for k
      using that b by (auto simp: Swap_apply)
    show "Swap E' s j j = E s"
      by (simp add: Swap_apply p(4))
  qed
qed

section \<open>Quicksort\<close>

definition ascending :: "arr \<Rightarrow> int \<Rightarrow> int \<Rightarrow> bool" where
  "ascending E s f \<longleftrightarrow> (\<forall>a b. s \<le> a \<and> a \<le> b \<and> b \<le> f \<longrightarrow> E a \<le> E b)"

lemma ascending_sorted: "ascending E s f \<Longrightarrow> sorted (map E [s..f])"
  unfolding sorted_iff_nth_mono ascending_def by simp

lemma range_le:
  assumes "range_mset E' s f = range_mset E s f" and "\<And>k. s \<le> k \<Longrightarrow> k \<le> f \<Longrightarrow> P (E k)" and "s \<le> k" "k \<le> f"
  shows "P (E' k)"
proof -
  have "E' k \<in> set_mset (range_mset E' s f)"
    unfolding range_mset_set using assms(3,4) by simp
  then have "E' k \<in> E ` {s..f}"
    unfolding assms(1) range_mset_set .
  then show ?thesis
    using assms(2) by auto
qed

lemma ascending_join:
  assumes "ascending E s (j - 1)" and "ascending E i f" and "j < i"
    and "\<And>k. s \<le> k \<Longrightarrow> k < i \<Longrightarrow> E k \<le> E j" and "\<And>k. j \<le> k \<Longrightarrow> k \<le> f \<Longrightarrow> E j \<le> E k"
  shows "ascending E s f"
  unfolding ascending_def
proof (intro allI impI)
  fix a b
  assume ab: "s \<le> a \<and> a \<le> b \<and> b \<le> f"
  consider "b < j" | "i \<le> a" | "j \<le> b" "a < i"
    by linarith
  then show "E a \<le> E b"
  proof cases
    case 3
    then show ?thesis
      using assms(4) [of a] assms(5) [of b] ab by force
  qed (use assms(1,2) ab in \<open>auto simp: ascending_def\<close>)
qed

lemma QSort_spec:
  "\<exists>E'. QSort E s f = Some E' \<and> range_mset E' s f = range_mset E s f \<and> ascending E' s f \<and> (\<forall>k. k < s \<or> f < k \<longrightarrow> E' k = E k)"
proof (induction "nat (f - s)" arbitrary: E s f rule: less_induct)
  case less
  show ?case
  proof (cases "s < f")
    case False
    have "ascending E s f"
      unfolding ascending_def
    proof (intro allI impI)
      fix a b
      assume "s \<le> a \<and> a \<le> b \<and> b \<le> f"
      with False have "a = b"
        by simp
      then show "E a \<le> E b"
        by simp
    qed
    with False show ?thesis
      by (subst QSort.simps) simp
  next
    case True
    obtain P i j where p: "partition_loop s f E (s + 1) f = Some (P, i, j)" "s \<le> j" "j < i" "j \<le> f" "i \<le> f + 1"
      "range_mset (Swap P s j) s f = range_mset E s f" "\<And>k. k < s \<or> f < k \<Longrightarrow> Swap P s j k = E k"
      "\<And>k. s \<le> k \<Longrightarrow> k < i \<Longrightarrow> Swap P s j k \<le> Swap P s j j" "\<And>k. j \<le> k \<Longrightarrow> k \<le> f \<Longrightarrow> Swap P s j j \<le> Swap P s j k"
      using partition_end [OF True, of E] by metis
    define F where "F = Swap P s j"
    obtain G where G: "QSort F s (j - 1) = Some G" "range_mset G s (j - 1) = range_mset F s (j - 1)" "ascending G s (j - 1)"
      "\<forall>k. k < s \<or> j - 1 < k \<longrightarrow> G k = F k"
      using less [of "j - 1" s F] True p(4) by auto
    obtain H where H: "QSort G i f = Some H" "range_mset H i f = range_mset G i f" "ascending H i f"
      "\<forall>k. k < i \<or> f < k \<longrightarrow> H k = G k"
      using less [of f i G] True p(2,3) by auto
    have Hj: "H j = F j"
      using H(4) G(4) p(3) by simp
    have low: "H k \<le> H j" if k: "s \<le> k" "k < i" for k
    proof (cases "k < j")
      case True
      have "G k \<le> F j"
        by (rule range_le [OF G(2), where P = "\<lambda>x. x \<le> F j"]) (use p(3,8) k True in \<open>auto simp: F_def\<close>)
      then show ?thesis
        using H(4) k Hj by simp
    next
      case False
      then show ?thesis
        using H(4) G(4) k Hj p(8) [OF k] by (simp add: F_def)
    qed
    have high: "H j \<le> H k" if k: "j \<le> k" "k \<le> f" for k
    proof (cases "k < i")
      case True
      then show ?thesis
        using H(4) G(4) k Hj p(9) [OF k] by (simp add: F_def)
    next
      case False
      have "F j \<le> H k"
        by (rule range_le [OF H(2), where P = "\<lambda>x. F j \<le> x"]) (use p(3,9) G(4) k False in \<open>auto simp: F_def\<close>)
      then show ?thesis
        by (simp add: Hj)
    qed
    have "ascending H s (j - 1)"
      using G(3) H(4) p(3) unfolding ascending_def by auto
    then have "ascending H s f"
      by (rule ascending_join [OF _ H(3) p(3) low high])
    moreover have "range_mset H s f = range_mset E s f"
    proof -
      have "range_mset G s f = range_mset F s f"
        using range_mset_split [of s "j - 1" f] G(2) range_mset_cong [of j f G F] G(4) p(2,4) by simp
      moreover have "range_mset H s f = range_mset G s f"
        using range_mset_split [of s "i - 1" f] H(2) range_mset_cong [of s "i - 1" H G] H(4) p(2,3,5) by simp
      ultimately show ?thesis
        using p(6) by (simp add: F_def)
    qed
    moreover have "QSort E s f = Some H"
      using True p(1) G(1) H(1) by (subst QSort.simps) (simp add: F_def)
    moreover have "\<forall>k. k < s \<or> f < k \<longrightarrow> H k = E k"
      using H(4) G(4) p(2-5,7) by (auto simp: F_def)
    ultimately show ?thesis
      by blast
  qed
qed

lemma CheckSorted_from_ascending: "ascending E i (n - 1) \<Longrightarrow> CheckSorted_from E n i = 1"
proof (induction E n i rule: CheckSorted_from.induct)
  case (1 E n i)
  have "ascending E (i + 1) (n - 1)"
    using "1.prems" by (simp add: ascending_def)
  moreover have "E i \<le> E (i + 1)" if "i < n - 1"
    using "1.prems" that unfolding ascending_def by simp
  ultimately show ?case
    using "1.IH" by (subst CheckSorted_from.simps) (force simp: not_less)
qed

text \<open>C34: \<open>QuickSort\<close> ends, leaves a sorted permutation of the elements and nothing else changed, and \<open>CheckSorted\<close>
  finds it sorted, for any contents of the array.
\<close>

theorem QuickSort_sorts:
  "\<exists>E'. QuickSort E n = Some E' \<and> sorted (map E' [0..n - 1]) \<and> mset (map E' [0..n - 1]) = mset (map E [0..n - 1]) \<and>
     (\<forall>k. k \<notin> {0..n - 1} \<longrightarrow> E' k = E k) \<and> CheckSorted E' n = 1"
proof -
  obtain E' where q: "QSort E 0 (n - 1) = Some E'" "range_mset E' 0 (n - 1) = range_mset E 0 (n - 1)" "ascending E' 0 (n - 1)"
    "\<forall>k. k < 0 \<or> n - 1 < k \<longrightarrow> E' k = E k"
    using QSort_spec [of E 0 "n - 1"] by blast
  have "CheckSorted E' n = 1"
    unfolding CheckSorted_def by (rule CheckSorted_from_ascending) (rule q(3))
  then show ?thesis
    using q ascending_sorted [OF q(3)] by (intro exI [of _ E']) (auto simp: QuickSort_def range_mset_def)
qed

lemma QuickSort_sorts_witness:
  "\<exists>E'. QuickSort (\<lambda>k. 7 - k) 5 = Some E' \<and> sorted (map E' [0..5 - 1]) \<and> mset (map E' [0..5 - 1]) = mset (map (\<lambda>k. 7 - k) [0..5 - 1]) \<and>
     (\<forall>k. k \<notin> {0..5 - 1} \<longrightarrow> E' k = 7 - k) \<and> CheckSorted E' 5 = 1"
  by (rule QuickSort_sorts)

text \<open>The whole program: it only fails to get to the end when it divides by zero.\<close>

theorem sort_program_ends:
  "sort_program c E n = (if c \<noteq> CHR ''a'' \<and> c \<noteq> CHR ''b'' \<and> 0 < n \<and> n < 3 then None else Some 1)"
proof -
  have s: "Option.bind (QuickSort F n) (\<lambda>E. Some (CheckSorted E n)) = Some 1" for F
    using QuickSort_sorts [of F n] by auto
  have "InitializeSemiRandom E n = None \<longleftrightarrow> 0 < n \<and> n < 3"
    by (auto simp: InitializeSemiRandom_def Let_def)
  then show ?thesis
    unfolding sort_program_def s by (cases "InitializeSemiRandom E n") auto
qed

section \<open>Merge sort\<close>

fun merge_lists :: "int list \<Rightarrow> int list \<Rightarrow> int list" where
  "merge_lists [] ys = ys"
| "merge_lists xs [] = xs"
| "merge_lists (x # xs) (y # ys) = (if x < y then x # merge_lists xs (y # ys) else y # merge_lists (x # xs) ys)"

lemma mset_merge_lists [simp]: "mset (merge_lists xs ys) = mset xs + mset ys"
  by (induction xs ys rule: merge_lists.induct) auto

lemma set_merge_lists [simp]: "set (merge_lists xs ys) = set xs \<union> set ys"
  by (metis mset_merge_lists set_mset_mset set_mset_union)

lemma sorted_merge_lists: "sorted xs \<Longrightarrow> sorted ys \<Longrightarrow> sorted (merge_lists xs ys)"
  by (induction xs ys rule: merge_lists.induct) (auto simp: less_imp_le not_less dest: order_trans)

lemma merge_lists_Nil [simp]: "merge_lists xs [] = xs"
  by (cases xs) simp_all

text \<open>Writing a list into an array.\<close>

primrec put :: "arr \<Rightarrow> int \<Rightarrow> int list \<Rightarrow> arr" where
  "put A k [] = A"
| "put A k (x # xs) = put (A(k := x)) (k + 1) xs"

lemma put_apply: "put A k xs i = (if k \<le> i \<and> i < k + int (length xs) then xs ! nat (i - k) else A i)"
proof (induction xs arbitrary: A k)
  case (Cons x xs)
  show ?case
  proof (cases "i = k")
    case False
    have "nat (i - (k + 1)) = nat (i - k) - 1"
      by arith
    with False show ?thesis
      by (auto simp: Cons.IH nth_Cons')
  next
    case True
    then show ?thesis
      unfolding put.simps Cons.IH by simp
  qed
qed simp

lemma map_put: "map (put A k xs) [k..k + int (length xs) - 1] = xs"
  by (rule nth_equalityI) (auto simp: put_apply)

lemma fill_apply: "fill n f E i = (if 0 \<le> i \<and> i < int n then f i else E i)"
  by (induction n) auto

lemma merge_loop_put:
  assumes "0 \<le> li" "li \<le> lc" "0 \<le> ri" "ri \<le> rc" and "n = nat (lc - li) + nat (rc - ri)"
  shows "merge_loop n L R lc rc A li ri k = put A (k - 1) (merge_lists (map L [li..lc - 1]) (map R [ri..rc - 1]))"
  using assms
proof (induction n arbitrary: A li ri k)
  case 0
  then show ?case
    by simp
next
  case (Suc n)
  note IH = Suc.IH
  have n: "n + 1 = nat (lc - li) + nat (rc - ri)"
    using Suc.prems(5) by simp
  consider "li < lc" "ri < rc" | "li < lc" "ri = rc" | "li = lc" "ri < rc"
    using Suc.prems by linarith
  then show ?case
  proof cases
    case 1
    have l: "[li..lc - 1] = li # [li + 1..lc - 1]" "[ri..rc - 1] = ri # [ri + 1..rc - 1]"
      using 1 by (simp_all add: upto_rec1)
    show ?thesis
    proof (cases "L li < R ri")
      case True
      have m: "n = nat (lc - (li + 1)) + nat (rc - (ri))"
        using n Suc.prems(1-4) 1 by simp
      show ?thesis
        unfolding merge_loop.simps l using Suc.prems(1-4) 1 True m [symmetric]
          by (subst IH) (simp_all add: l)
    next
      case False
      have m: "n = nat (lc - (li)) + nat (rc - (ri + 1))"
        using n Suc.prems(1-4) 1 by simp
      show ?thesis
        unfolding merge_loop.simps l using Suc.prems(1-4) 1 False m [symmetric]
          by (subst IH) (simp_all add: l)
    qed
  next
    case 2
    have l: "[li..lc - 1] = li # [li + 1..lc - 1]"
      using 2 by (simp add: upto_rec1)
    have m: "n = nat (lc - (li + 1)) + nat (rc - (ri))"
      using n Suc.prems(1-4) 2 by simp
    show ?thesis
      unfolding merge_loop.simps l using Suc.prems(1-4) 2 m [symmetric]
          by (subst IH) (simp_all add: l)
  next
    case 3
    have l: "[ri..rc - 1] = ri # [ri + 1..rc - 1]"
      using 3 by (simp add: upto_rec1)
    have m: "n = nat (lc - (li)) + nat (rc - (ri + 1))"
      using n Suc.prems(1-4) 3 by simp
    show ?thesis
      unfolding merge_loop.simps l using Suc.prems(1-4) 3 m [symmetric]
          by (subst IH) (simp_all add: l)
  qed
qed

lemma Merge_put:
  assumes "p \<le> q" "q < r"
  shows "Merge A p q r = put A (p - 1) (merge_lists (map A [p - 1..q - 1]) (map A [q..r - 1]))"
proof -
  have "map (fill (nat (q - p + 1)) (\<lambda>i. A (p + i - 1)) (\<lambda>_. 0)) [0..q - p + 1 - 1] = map A [p - 1..q - 1]"
    using assms by (intro nth_equalityI) (auto simp: fill_apply algebra_simps)
  moreover have "map (fill (nat (r - q)) (\<lambda>j. A (q + j)) (\<lambda>_. 0)) [0..r - q - 1] = map A [q..r - 1]"
    using assms by (intro nth_equalityI) (auto simp: fill_apply)
  ultimately show ?thesis
    using assms unfolding Merge_def Let_def by (subst merge_loop_put) simp_all
qed

lemma MSort_spec:
  "p \<le> r \<Longrightarrow> range_mset (MSort A p r) (p - 1) (r - 1) = range_mset A (p - 1) (r - 1) \<and> sorted (map (MSort A p r) [p - 1..r - 1]) \<and>
     (\<forall>k. k < p - 1 \<or> r - 1 < k \<longrightarrow> MSort A p r k = A k)"
proof (induction A p r rule: MSort.induct)
  case (1 A p r)
  show ?case
  proof (cases "p < r")
    case False
    then have "MSort A p r = A"
      by (subst MSort.simps) simp
    moreover have "p = r"
      using False "1.prems" by simp
    ultimately show ?thesis
      by simp
  next
    case True
    define q where "q = (p + r) div 2"
    have q: "p \<le> q" "q < r"
      using True by (auto simp: q_def)
    define B where "B = MSort A p q"
    define C where "C = MSort B (q + 1) r"
    have B: "range_mset B (p - 1) (q - 1) = range_mset A (p - 1) (q - 1)" "sorted (map B [p - 1..q - 1])"
      "\<forall>k. k < p - 1 \<or> q - 1 < k \<longrightarrow> B k = A k"
      using "1.IH"(1) [OF _ q_def] True q unfolding B_def by auto
    have C: "range_mset C q (r - 1) = range_mset B q (r - 1)" "sorted (map C [q..r - 1])" "\<forall>k. k < q \<or> r - 1 < k \<longrightarrow> C k = B k"
      using "1.IH"(2) [OF _ q_def] True q unfolding C_def B_def by auto
    define D where "D = merge_lists (map C [p - 1..q - 1]) (map C [q..r - 1])"
    have M: "MSort A p r = put C (p - 1) D"
      using True Merge_put [OF q, of C] by (subst MSort.simps) (simp add: Let_def D_def C_def B_def flip: q_def)
    have "mset D = mset (map C [p - 1..q - 1]) + mset (map C [q..r - 1])"
      unfolding D_def by simp
    then have "size (mset D) = nat (r - p + 1)"
      using q by (simp add: nat_add_distrib [symmetric])
    then have len: "p - 1 + int (length D) - 1 = r - 1"
      using True by simp
    have "map C [p - 1..q - 1] = map B [p - 1..q - 1]"
      using C(3) by simp
    then have "sorted (map C [p - 1..q - 1])"
      using B(2) by (simp only:)
    then have "sorted D"
      unfolding D_def using C(2) by (rule sorted_merge_lists)
    moreover have "map (put C (p - 1) D) [p - 1..r - 1] = D"
      using map_put [of C "p - 1" D] unfolding len .
    moreover have "mset D = range_mset A (p - 1) (r - 1)"
    proof -
      have "mset D = range_mset C (p - 1) (q - 1) + range_mset C q (r - 1)"
        unfolding D_def range_mset_def by simp
      also have "\<dots> = range_mset A (p - 1) (q - 1) + range_mset A q (r - 1)"
        using B(1) C(1) range_mset_cong [of "p - 1" "q - 1" C B] range_mset_cong [of q "r - 1" B A] B(3) C(3) by simp
      also have "\<dots> = range_mset A (p - 1) (r - 1)"
        using range_mset_split [of "p - 1" "q - 1" "r - 1" A] q by simp
      finally show ?thesis .
    qed
    moreover have "put C (p - 1) D k = A k" if "k < p - 1 \<or> r - 1 < k" for k
      using that len B(3) C(3) q by (auto simp: put_apply)
    ultimately show ?thesis
      unfolding M range_mset_def by simp
  qed
qed

text \<open>C35: \<open>MSort\<close>, with indices from 1, ends and leaves a sorted permutation of the elements and nothing else changed.
\<close>

theorem MSort_sorts:
  assumes "1 \<le> n"
  shows "sorted (map (MSort A 1 n) [0..n - 1]) \<and> mset (map (MSort A 1 n) [0..n - 1]) = mset (map A [0..n - 1]) \<and>
     {k. MSort A 1 n k \<noteq> A k} \<subseteq> {0..n - 1}"
  using MSort_spec [of 1 n A] assms by (force simp: range_mset_def)

lemma MSort_sorts_witness:
  "sorted (map (MSort (\<lambda>k. 7 - k) 1 5) [0..5 - 1]) \<and> mset (map (MSort (\<lambda>k. 7 - k) 1 5) [0..5 - 1]) = mset (map (\<lambda>k. 7 - k) [0..5 - 1]) \<and>
     {k. MSort (\<lambda>k. 7 - k) 1 5 k \<noteq> 7 - k} \<subseteq> {0..5 - 1}"
  by (rule MSort_sorts) simp

section \<open>Selection\<close>

lemma RAND_range:
  assumes "0 \<le> s" "s < e" "e < 2 ^ 31"
  shows "s \<le> RAND low s e \<and> RAND low s e < e"
proof -
  define m where "m = uint low mod (e - s)"
  have m: "0 \<le> m" "m < e - s"
    using assms by (simp_all add: m_def)
  have "uint (of_int (e - s) :: uint32) = e - s"
    using assms by (subst uint_word_of_int) simp
  then have "uint (low mod of_int (e - s)) = m"
    by (simp add: uint_mod m_def)
  moreover have "low mod of_int (e - s) = of_int (uint (low mod of_int (e - s)))"
    by simp
  ultimately have "low mod of_int (e - s) = of_int m"
    by (simp only:)
  then have "low mod of_int (e - s) + of_int s = (of_int (m + s) :: uint32)"
    by (simp only: of_int_add)
  then have "RAND low s e = sint (of_int (m + s) :: uint32)"
    by (simp only: RAND_def)
  also have "\<dots> = m + s"
    using m assms by (subst signed_of_int) (simp add: signed_take_bit_int_eq_self)
  finally show ?thesis
    using m by simp
qed

text \<open>The value with \<open>m\<close> smaller elements.\<close>

definition has_rank :: "int multiset \<Rightarrow> nat \<Rightarrow> int \<Rightarrow> bool" where
  "has_rank M m v \<longleftrightarrow> v \<in># M \<and> size (filter_mset (\<lambda>x. x < v) M) = m"

lemma filter_below:
  assumes "\<forall>x \<in># L. x < p" and "\<forall>x \<in># R. p < x"
  shows "has_rank (L + {#p#} + R) (size L) p"
    and "has_rank L m v \<Longrightarrow> has_rank (L + {#p#} + R) m v"
    and "has_rank R m v \<Longrightarrow> has_rank (L + {#p#} + R) (size L + 1 + m) v"
proof -
  have all: "filter_mset (\<lambda>x. x < v) N = N" if "\<And>x. x \<in># N \<Longrightarrow> x < v" for N :: "int multiset" and v
    using that by (simp add: filter_mset_eq_conv)
  have none: "filter_mset (\<lambda>x. x < v) N = {#}" if "\<And>x. x \<in># N \<Longrightarrow> \<not> x < v" for N :: "int multiset" and v
    using that by (simp add: filter_mset_eq_conv)
  show "has_rank (L + {#p#} + R) (size L) p"
    using all [of L p] none [of R p] assms by (force simp: has_rank_def)
  show "has_rank (L + {#p#} + R) m v" if r: "has_rank L m v"
  proof -
    have "v < p"
      using r assms(1) by (simp add: has_rank_def)
    then have "filter_mset (\<lambda>x. x < v) R = {#}"
      using assms(2) by (intro none) force
    then show ?thesis
      using r \<open>v < p\<close> by (simp add: has_rank_def)
  qed
  show "has_rank (L + {#p#} + R) (size L + 1 + m) v" if r: "has_rank R m v"
  proof -
    have "p < v"
      using r assms(2) by (simp add: has_rank_def)
    then have "filter_mset (\<lambda>x. x < v) L = L"
      using assms(1) by (intro all) force
    then show ?thesis
      using r \<open>p < v\<close> by (simp add: has_rank_def)
  qed
qed

lemma size_range [simp]: "size (range_mset E s f) = nat (f - s + 1)"
  by (simp add: range_mset_def)

lemma inj_range: "range_mset E' s f = range_mset E s f \<Longrightarrow> inj_on E {s..f} \<Longrightarrow> inj_on E' {s..f}"
  using mset_eq_imp_distinct_iff [of "map E' [s..f]" "map E [s..f]"] by (simp add: range_mset_def distinct_map)

lemma QSort_kth_rank:
  assumes "0 \<le> s" "s \<le> k" "k \<le> f" "f < 2 ^ 31" "inj_on E {s..f}"
  shows "\<exists>v. QSort_kth clock t E s f k = Some v \<and> has_rank (range_mset E s f) (nat (k - s)) v"
  using assms
proof (induction "nat (f - s)" arbitrary: t E s f rule: less_induct)
  case less
  show ?case
  proof (cases "s < f")
    case False
    then have "s = f" "k = f"
      using less.prems by simp_all
    then show ?thesis
      by (subst QSort_kth.simps) (simp add: has_rank_def)
  next
    case True
    define E0 where "E0 = Swap E s (RAND (clock t) s f)"
    have e0: "range_mset E0 s f = range_mset E s f"
      unfolding E0_def using RAND_range [of s f "clock t"] True less.prems(1,4) by (intro Swap_mset) auto
    obtain P i j where p: "partition_loop s f E0 (s + 1) f = Some (P, i, j)" "s \<le> j" "j < i" "j \<le> f" "i \<le> f + 1"
      "range_mset (Swap P s j) s f = range_mset E0 s f"
      "\<And>k. s \<le> k \<Longrightarrow> k < i \<Longrightarrow> Swap P s j k \<le> Swap P s j j" "\<And>k. j \<le> k \<Longrightarrow> k \<le> f \<Longrightarrow> Swap P s j j \<le> Swap P s j k"
      using partition_end [OF True, of E0] by metis
    define F where "F = Swap P s j"
    have F: "range_mset F s f = range_mset E s f"
      unfolding F_def p(6) by (rule e0)
    then have inj: "inj_on F {s..f}"
      using inj_range less.prems(5) by blast
    have other: "F a \<noteq> F j" if "s \<le> a" "a \<le> f" "a \<noteq> j" for a
      using that p(2,4) inj_onD [OF inj] by auto
    have low: "F a < F j" if "s \<le> a" "a < j" for a
      using other [of a] p(3,4) p(7) [of a] that unfolding F_def by auto
    have high: "F j < F a" if "j < a" "a \<le> f" for a
      using other [of a] p(2) p(8) [of a] that unfolding F_def by auto
    have i: "i = j + 1"
      using high [of "j + 1"] p(2,3,5) p(7) [of "j + 1"] by (force simp: F_def)
    have M: "range_mset E s f = range_mset F s (j - 1) + {#F j#} + range_mset F i f"
      using range_mset_split [of s "j - 1" f F] range_mset_split [of j j f F] p(2,4) F i by (simp add: add.assoc)
    have L: "\<forall>x \<in># range_mset F s (j - 1). x < F j"
      using low by (auto simp: range_mset_set)
    have R: "\<forall>x \<in># range_mset F i f. F j < x"
      using high i by (auto simp: range_mset_set)
    have step: "QSort_kth clock t E s f k = (if k = j then Some (F k) else if k < j then QSort_kth clock (Suc t) F s (j - 1) k
        else QSort_kth clock (Suc t) F i f k)"
      using True p(1) by (subst QSort_kth.simps) (simp add: Let_def F_def flip: E0_def)
    consider "k = j" | "k < j" | "i \<le> k"
      using i by linarith
    then show ?thesis
    proof cases
      case 1
      have "has_rank (range_mset E s f) (nat (k - s)) (F k)"
        using filter_below(1) [OF L R] unfolding M 1 by simp
      moreover have "QSort_kth clock t E s f k = Some (F k)"
        unfolding step using 1 by simp
      ultimately show ?thesis
        by blast
    next
      case 2
      have "inj_on F {s..j - 1}"
        by (rule inj_on_subset [OF inj]) (use p(4) in auto)
      moreover have "nat (j - 1 - s) < nat (f - s)" "k \<le> j - 1" "j - 1 < 2 ^ 31"
        using less.prems(3,4) p(4) True 2 by simp_all
      ultimately obtain v where v: "QSort_kth clock (Suc t) F s (j - 1) k = Some v" "has_rank (range_mset F s (j - 1)) (nat (k - s)) v"
        using less.hyps less.prems(1,2) by blast
      have "QSort_kth clock t E s f k = Some v"
        unfolding step using 2 v(1) by simp
      then show ?thesis
        using filter_below(2) [OF L R v(2)] unfolding M by blast
    next
      case 3
      have "inj_on F {i..f}"
        by (rule inj_on_subset [OF inj]) (use p(2,3) in auto)
      moreover have "nat (f - i) < nat (f - s)" "0 \<le> i"
        using less.prems(1) p(2,3) True by simp_all
      ultimately obtain v where v: "QSort_kth clock (Suc t) F i f k = Some v" "has_rank (range_mset F i f) (nat (k - i)) v"
        using less.hyps less.prems(3,4) 3 by blast
      have "QSort_kth clock t E s f k = Some v"
        unfolding step using 3 i v(1) by simp
      moreover have "nat (k - s) = size (range_mset F s (j - 1)) + 1 + nat (k - i)"
        using p(2) i 3 by simp
      ultimately show ?thesis
        using filter_below(3) [OF L R v(2)] unfolding M by metis
    qed
  qed
qed

lemma rank_is_index:
  assumes "sorted xs" "distinct xs" "has_rank (mset xs) m v"
  shows "xs ! m = v"
proof -
  obtain i where i: "i < length xs" "xs ! i = v"
    using assms(3) by (auto simp: has_rank_def in_set_conv_nth)
  have "xs ! k < v \<longleftrightarrow> k < i" if "k < length xs" for k
    using assms(1,2) i that by (metis sorted_wrt_nth_less strict_sorted_iff not_less_iff_gr_or_eq)
  then have "{k. k < length xs \<and> xs ! k < v} = {..<i}"
    using i(1) by auto
  then have "length (filter (\<lambda>x. x < v) xs) = i"
    by (simp add: length_filter_conv_card)
  moreover have "length (filter (\<lambda>x. x < v) xs) = m"
    using assms(3) by (simp add: has_rank_def flip: mset_filter)
  ultimately show ?thesis
    using i(2) by simp
qed

text \<open>When the elements are distinct, \<open>KthElement\<close> ends and returns the element at position \<open>k\<close> of the sorted array,
  whatever the clock says.
\<close>

theorem KthElement_distinct:
  assumes "1 \<le> k" "k \<le> n" "n < 2 ^ 31" "distinct (map E [0..n - 1])"
  shows "KthElement clock E n k = Some (sort (map E [0..n - 1]) ! nat (k - 1))"
proof -
  have "inj_on E {0..n - 1}"
    using assms(4) by (simp add: distinct_map)
  then obtain v where v: "KthElement clock E n k = Some v" "has_rank (range_mset E 0 (n - 1)) (nat (k - 1)) v"
    using QSort_kth_rank [of 0 "k - 1" "n - 1" E clock 0] assms(1-3) by (auto simp: KthElement_def)
  have "sort (map E [0..n - 1]) ! nat (k - 1) = v"
    by (rule rank_is_index) (use v(2) assms(4) in \<open>simp_all add: range_mset_def\<close>)
  then show ?thesis
    by (simp add: v(1))
qed

lemma KthElement_distinct_witness:
  "\<forall>clock. KthElement clock (\<lambda>k. 7 - k) 5 3 = Some (sort (map (\<lambda>k. 7 - k) [0..5 - 1]) ! nat (3 - 1))"
  by (intro allI KthElement_distinct) (simp_all add: distinct_map inj_on_def)

text \<open>
  With equal elements the selection is wrong: the pivot is not at the wanted index, but equal to what is there, and the
  search goes on where the elements are larger.  The median of 1, 1, 2 is found to be 2.
\<close>

theorem KthElement_wrong:
  "KthElement clock (\<lambda>k. if k = 2 then 2 else 1) 3 2 = Some 2 \<and> sort (map (\<lambda>k. if k = 2 then 2 else 1) [0..3 - 1]) ! nat (2 - 1) = (1 :: int)"
proof -
  let ?E = "\<lambda>k :: int. if k = 2 then 2 else (1 :: int)"
  define r where "r = RAND (clock 0) 0 2"
  have "r = 0 \<or> r = 1"
    using RAND_range [of 0 2 "clock 0"] by (auto simp: r_def)
  then have s: "Swap ?E 0 r = ?E"
    by (auto simp: Swap_apply)
  have "partition_loop 0 2 ?E 1 2 = Some (?E, 2, 0)"
    by (subst partition_loop.simps, simp add: scan_up.simps scan_down.simps, subst partition_loop.simps, simp)
  moreover have "QSort_kth clock (Suc 0) E 2 2 1 = Some (E 2)" for E
    by (subst QSort_kth.simps) simp
  ultimately have "QSort_kth clock 0 ?E 0 2 1 = Some 2"
    using s by (subst QSort_kth.simps) (simp add: Let_def Swap_apply flip: r_def)
  moreover have "sort (map ?E [0..3 - 1]) ! nat (2 - 1) = 1"
    by code_simp
  ultimately show ?thesis
    by (simp add: KthElement_def)
qed

end
