(* ===== verification/Timer.thy ===== *)
theory Timer
  imports Prelude
begin

text \<open>
  The timer and the clock chip, kern/kclock.c with inc/timerreg.h, and the interrupt controllers, kern/picirq.c.
  The bytes written to ports are a trace, those read come from a stream.
\<close>

unbundle bit_operations_syntax

record timer =
  irq_mask_8259A :: uint16
  didinit :: bool
  ports :: "(uint16 \<times> uint8) list"
  inputs :: "nat \<Rightarrow> uint8"

definition port_out :: "uint16 \<Rightarrow> uint8 \<Rightarrow> (timer, unit) M" where
  "port_out p v = modify (\<lambda>s. s\<lparr>ports := ports s @ [(p, v)]\<rparr>)"

definition port_in :: "uint16 \<Rightarrow> (timer, uint8) M" where
  "port_in p = bnd (gets (\<lambda>s. inputs s 0)) (\<lambda>v. seqm (modify (\<lambda>s. s\<lparr>inputs := (\<lambda>n. inputs s (Suc n))\<rparr>)) (ret v))"

section \<open>Interrupt controllers (kern/picirq.c)\<close>

definition IO_PIC1 :: uint16 where "IO_PIC1 = 0x20"
definition IO_PIC2 :: uint16 where "IO_PIC2 = 0xA0"
definition IRQ_SLAVE :: nat where "IRQ_SLAVE = 2"
definition IRQ_OFFSET :: uint8 where "IRQ_OFFSET = 32"

definition initial_irq_mask :: uint16 where
  "initial_irq_mask = 0xFFFF AND NOT (push_bit IRQ_SLAVE 1)"

definition irq_setmask_8259A :: "uint16 \<Rightarrow> (timer, unit) M" where
  "irq_setmask_8259A m =
     seqm (modify (\<lambda>s. s\<lparr>irq_mask_8259A := m\<rparr>))
     (bnd (gets didinit) (\<lambda>b. whenM b
       (seqm (port_out (IO_PIC1 + 1) (ucast m)) (port_out (IO_PIC2 + 1) (ucast (drop_bit 8 m))))))"

definition pic_init :: "(timer, unit) M" where
  "pic_init =
     seqm (modify (\<lambda>s. s\<lparr>didinit := True\<rparr>))
     (seqm (port_out (IO_PIC1 + 1) 0xFF) (seqm (port_out (IO_PIC2 + 1) 0xFF)
     (seqm (port_out IO_PIC1 0x11)
     (seqm (port_out (IO_PIC1 + 1) IRQ_OFFSET)
     (seqm (port_out (IO_PIC1 + 1) (push_bit IRQ_SLAVE 1))
     (seqm (port_out (IO_PIC1 + 1) 0x3)
     (seqm (port_out IO_PIC2 0x11)
     (seqm (port_out (IO_PIC2 + 1) (IRQ_OFFSET + 8))
     (seqm (port_out (IO_PIC2 + 1) (of_nat IRQ_SLAVE))
     (seqm (port_out (IO_PIC2 + 1) 0x01)
     (seqm (port_out IO_PIC1 0x68) (seqm (port_out IO_PIC1 0x0a)
     (seqm (port_out IO_PIC2 0x68) (seqm (port_out IO_PIC2 0x0a)
     (bnd (gets irq_mask_8259A) (\<lambda>m. whenM (m \<noteq> 0xFFFF) (irq_setmask_8259A m)))))))))))))))))"

section \<open>Timer and clock chip (kern/kclock.c)\<close>

definition IO_RTC :: uint16 where "IO_RTC = 0x70"
definition TIMER_CNTR0 :: uint16 where "TIMER_CNTR0 = 0x40"
definition TIMER_MODE :: uint16 where "TIMER_MODE = 0x43"
definition TIMER_SEL0 :: uint8 where "TIMER_SEL0 = 0x00"
definition TIMER_RATEGEN :: uint8 where "TIMER_RATEGEN = 0x04"
definition TIMER_16BIT :: uint8 where "TIMER_16BIT = 0x30"
definition TIMER_LATCH :: uint8 where "TIMER_LATCH = 0x00"
definition TIMER_FREQ :: nat where "TIMER_FREQ = 1193182"
definition CLOCK_INTERVAL_IN_MS :: nat where "CLOCK_INTERVAL_IN_MS = 20"

definition TIMER_DIV :: "nat \<Rightarrow> nat" where
  "TIMER_DIV x = (TIMER_FREQ + x div 2) div x"

definition CLOCK_INTERVAL_IN_CNTS :: nat where
  "CLOCK_INTERVAL_IN_CNTS = TIMER_DIV (1000 div CLOCK_INTERVAL_IN_MS)"

definition mc146818_read :: "uint32 \<Rightarrow> (timer, uint32) M" where
  "mc146818_read reg = seqm (port_out IO_RTC (ucast reg)) (bnd (port_in (IO_RTC + 1)) (\<lambda>v. ret (ucast v)))"

definition mc146818_write :: "uint32 \<Rightarrow> uint32 \<Rightarrow> (timer, unit) M" where
  "mc146818_write reg datum = seqm (port_out IO_RTC (ucast reg)) (port_out (IO_RTC + 1) (ucast datum))"

definition kclock_write_cnt0_LSB_first :: "uint16 \<Rightarrow> (timer, unit) M" where
  "kclock_write_cnt0_LSB_first val =
     seqm (port_out TIMER_CNTR0 (ucast (val AND 0x00FF))) (port_out TIMER_CNTR0 (ucast (drop_bit 8 val AND 0x00FF)))"

definition kclock_read_cnt0 :: "(timer, uint16) M" where
  "kclock_read_cnt0 = bnd (port_in TIMER_CNTR0) (\<lambda>cnt0_lo. bnd (port_in TIMER_CNTR0) (\<lambda>cnt0_hi.
     ret (push_bit 8 (ucast cnt0_hi) OR ucast cnt0_lo)))"

definition kclock_read_cnt0_latch :: "(timer, uint16) M" where
  "kclock_read_cnt0_latch =
     bnd (port_in TIMER_MODE) (\<lambda>old_mode.
     seqm (port_out TIMER_MODE (TIMER_SEL0 OR TIMER_LATCH))
     (bnd kclock_read_cnt0 (\<lambda>cnt0. seqm (port_out TIMER_MODE old_mode) (ret cnt0))))"

definition kclock_reset :: "(timer, unit) M" where
  "kclock_reset = kclock_write_cnt0_LSB_first (of_nat CLOCK_INTERVAL_IN_CNTS)"

definition rate_generator :: "(timer, unit) M" where
  "rate_generator = port_out TIMER_MODE (TIMER_SEL0 OR TIMER_RATEGEN OR TIMER_16BIT)"

definition unmask_timer :: "(timer, unit) M" where
  "unmask_timer = bnd (gets irq_mask_8259A) (\<lambda>m. irq_setmask_8259A (m AND NOT 1))"

definition kclock_start :: "(timer, unit) M" where
  "kclock_start = seqm rate_generator (seqm kclock_reset unmask_timer)"

definition kclock_resume :: "(timer, unit) M" where
  "kclock_resume = bnd kclock_read_cnt0 (\<lambda>cnt0. seqm rate_generator
     (seqm (kclock_write_cnt0_LSB_first (if cnt0 < 5 then 10 else cnt0)) unmask_timer))"

definition kclock_stop :: "(timer, unit) M" where
  "kclock_stop = seqm rate_generator (irq_setmask_8259A 0xFFFF)"

end
