(* ===== verification/Timer_Props.thy ===== *)
theory Timer_Props
  imports Timer Environment
begin

text \<open>
  The commands of the kernel to its clock against what the chips make of the bytes: the two interrupt controllers keep a
  mask each, which the second kind of write sets and an initialization suspends, and the counter of the timer is loaded
  low byte first.
\<close>

unbundle bit_operations_syntax

section \<open>The chips\<close>

text \<open>The mask of a controller, and how many words of its initialization are to come.\<close>

fun pic_step :: "uint16 \<Rightarrow> uint16 \<times> uint8 \<Rightarrow> uint8 \<times> nat \<Rightarrow> uint8 \<times> nat" where
  "pic_step base (p, v) (m, k) =
     (if p = base \<and> v AND 0x10 \<noteq> 0 then (0, 3)
      else if p = base + 1 then if 0 < k then (m, k - 1) else (v, 0)
      else (m, k))"

definition pic :: "uint16 \<Rightarrow> (uint16 \<times> uint8) list \<Rightarrow> uint8 \<times> nat" where
  "pic base ps = fold (pic_step base) ps (0, 0)"

text \<open>The value the timer counts down from, and the low byte when only that has come.\<close>

fun pit_step :: "uint16 \<times> uint8 \<Rightarrow> uint16 \<times> uint8 option \<Rightarrow> uint16 \<times> uint8 option" where
  "pit_step (p, v) (n, lo) =
     (if p = 0x43 then (n, None)
      else if p = 0x40 then (case lo of None \<Rightarrow> (n, Some v) | Some l \<Rightarrow> (push_bit 8 (ucast v) OR ucast l, None))
      else (n, lo))"

definition pit :: "(uint16 \<times> uint8) list \<Rightarrow> uint16 \<times> uint8 option" where
  "pit ps = fold pit_step ps (0, None)"

lemma chips_append [simp]:
  "pic base (ps @ qs) = fold (pic_step base) qs (pic base ps)" "pit (ps @ qs) = fold pit_step qs (pit ps)"
  by (simp_all add: pic_def pit_def)

section \<open>The commands\<close>

datatype clock_op = Start | Reset | Resume | Stop

primrec do_op :: "clock_op \<Rightarrow> (timer, unit) M" where
  "do_op Start = kclock_start"
| "do_op Reset = kclock_reset"
| "do_op Resume = kclock_resume"
| "do_op Stop = kclock_stop"

primrec clock_ops :: "clock_op list \<Rightarrow> (timer, unit) M" where
  "clock_ops [] = ret ()"
| "clock_ops (x # xs) = seqm (do_op x) (clock_ops xs)"

text \<open>The mask: stopping masks all interrupts, starting and resuming allow that of the timer.\<close>

primrec mask_after :: "clock_op \<Rightarrow> uint16 \<Rightarrow> uint16" where
  "mask_after Start m = m AND NOT 1"
| "mask_after Reset m = m"
| "mask_after Resume m = m AND NOT 1"
| "mask_after Stop m = 0xFFFF"

definition programmed :: "timer \<Rightarrow> bool" where
  "programmed s \<longleftrightarrow> didinit s \<and> pic IO_PIC1 (ports s) = (ucast (irq_mask_8259A s), 0) \<and>
     pic IO_PIC2 (ports s) = (ucast (drop_bit 8 (irq_mask_8259A s)), 0) \<and> snd (pit (ports s)) = None"

lemmas registers = IO_PIC1_def IO_PIC2_def TIMER_MODE_def TIMER_CNTR0_def port_out_def port_in_def

lemma bytes_of: "push_bit 8 (ucast (ucast (drop_bit 8 w AND 255) :: uint8)) OR ucast (ucast (w AND 255) :: uint8) = (w :: uint16)"
proof -
  have m: "(255 :: uint16) = mask 8"
    by (simp add: mask_eq_exp_minus_1)
  show ?thesis
    unfolding m by (rule bit_eqI) (auto simp: bit_simps)
qed

lemma setmask_programmed:
  assumes "didinit s" "snd (pic IO_PIC1 (ports s)) = 0" "snd (pic IO_PIC2 (ports s)) = 0" "snd (pit (ports s)) = None"
  shows "\<exists>s'. irq_setmask_8259A m s = Inr ((), s') \<and> programmed s' \<and> irq_mask_8259A s' = m \<and> pit (ports s') = pit (ports s)"
  using assms
  by (cases "pic IO_PIC1 (ports s)"; cases "pic IO_PIC2 (ports s)"; cases "pit (ports s)")
    (simp add: irq_setmask_8259A_def programmed_def registers)

lemma load_programmed:
  assumes "programmed s"
  shows "\<exists>s'. kclock_write_cnt0_LSB_first n s = Inr ((), s') \<and> programmed s' \<and> irq_mask_8259A s' = irq_mask_8259A s \<and> fst (pit (ports s')) = n"
  using assms
  by (cases "pit (ports s)") (simp add: kclock_write_cnt0_LSB_first_def programmed_def registers bytes_of)

lemma rate_programmed:
  assumes "programmed s"
  shows "\<exists>s'. rate_generator s = Inr ((), s') \<and> programmed s' \<and> irq_mask_8259A s' = irq_mask_8259A s"
  using assms
  by (cases "pit (ports s)") (simp add: rate_generator_def programmed_def registers)

lemma programmed_chips:
  "programmed s \<Longrightarrow> didinit s" "programmed s \<Longrightarrow> snd (pic IO_PIC1 (ports s)) = 0"
  "programmed s \<Longrightarrow> snd (pic IO_PIC2 (ports s)) = 0" "programmed s \<Longrightarrow> snd (pit (ports s)) = None"
  by (simp_all add: programmed_def)

lemma unmask_programmed:
  assumes "programmed s"
  shows "\<exists>s'. unmask_timer s = Inr ((), s') \<and> programmed s' \<and> irq_mask_8259A s' = irq_mask_8259A s AND NOT 1 \<and> pit (ports s') = pit (ports s)"
  using setmask_programmed [OF programmed_chips [OF assms], of "irq_mask_8259A s AND NOT 1"] by (simp add: unmask_timer_def)

lemma read_programmed:
  assumes "programmed s"
  shows "\<exists>s' n. kclock_read_cnt0 s = Inr (n, s') \<and> programmed s' \<and> irq_mask_8259A s' = irq_mask_8259A s"
  using assms by (simp add: kclock_read_cnt0_def port_in_def programmed_def)

definition loads_interval :: "clock_op \<Rightarrow> bool" where
  "loads_interval x \<longleftrightarrow> x = Start \<or> x = Reset"

lemma do_op_programmed:
  assumes "programmed s"
  shows "\<exists>s'. do_op x s = Inr ((), s') \<and> programmed s' \<and> irq_mask_8259A s' = mask_after x (irq_mask_8259A s) \<and>
     (loads_interval x \<longrightarrow> fst (pit (ports s')) = 23864)"
proof (cases x)
  case Start
  obtain s1 where 1: "rate_generator s = Inr ((), s1)" "programmed s1" "irq_mask_8259A s1 = irq_mask_8259A s"
    using rate_programmed [OF assms] by blast
  obtain s2 where 2: "kclock_reset s1 = Inr ((), s2)" "programmed s2" "irq_mask_8259A s2 = irq_mask_8259A s1" "fst (pit (ports s2)) = 23864"
    using load_programmed [OF 1(2), of 23864]
    by (auto simp: kclock_reset_def CLOCK_INTERVAL_IN_CNTS_def TIMER_DIV_def TIMER_FREQ_def CLOCK_INTERVAL_IN_MS_def)
  show ?thesis
    using unmask_programmed [OF 2(2)] 1 2 Start by (auto simp: kclock_start_def)
next
  case Reset
  show ?thesis
    using load_programmed [OF assms, of 23864] Reset
    by (auto simp: kclock_reset_def CLOCK_INTERVAL_IN_CNTS_def TIMER_DIV_def TIMER_FREQ_def CLOCK_INTERVAL_IN_MS_def)
next
  case Resume
  obtain s1 n where 1: "kclock_read_cnt0 s = Inr (n, s1)" "programmed s1" "irq_mask_8259A s1 = irq_mask_8259A s"
    using read_programmed [OF assms] by blast
  obtain s2 where 2: "rate_generator s1 = Inr ((), s2)" "programmed s2" "irq_mask_8259A s2 = irq_mask_8259A s1"
    using rate_programmed [OF 1(2)] by blast
  obtain s3 where 3: "kclock_write_cnt0_LSB_first (if n < 5 then 10 else n) s2 = Inr ((), s3)" "programmed s3" "irq_mask_8259A s3 = irq_mask_8259A s2"
    using load_programmed [OF 2(2)] by blast
  show ?thesis
    using unmask_programmed [OF 3(2)] 1 2 3 Resume by (auto simp: kclock_resume_def loads_interval_def)
next
  case Stop
  obtain s1 where 1: "rate_generator s = Inr ((), s1)" "programmed s1"
    using rate_programmed [OF assms] by blast
  show ?thesis
    using setmask_programmed [OF programmed_chips [OF 1(2)], of "0xFFFF"] 1 Stop by (auto simp: kclock_stop_def loads_interval_def)
qed

lemma clock_ops_programmed:
  "programmed s \<Longrightarrow> \<exists>s'. clock_ops xs s = Inr ((), s') \<and> programmed s' \<and> irq_mask_8259A s' = fold mask_after xs (irq_mask_8259A s) \<and>
     (xs \<noteq> [] \<and> loads_interval (List.last xs) \<longrightarrow> fst (pit (ports s')) = 23864)"
proof (induction xs arbitrary: s)
  case (Cons x xs)
  obtain t where t: "do_op x s = Inr ((), t)" "programmed t" "irq_mask_8259A t = mask_after x (irq_mask_8259A s)"
    "loads_interval x \<longrightarrow> fst (pit (ports t)) = 23864"
    using do_op_programmed [OF Cons.prems] by blast
  show ?case
    using Cons.IH [OF t(2)] t by (cases xs) auto
qed simp

lemma pic_init_programmed:
  assumes "ports s = []" and "irq_mask_8259A s = initial_irq_mask"
  shows "\<exists>s'. pic_init s = Inr ((), s') \<and> programmed s' \<and> irq_mask_8259A s' = initial_irq_mask"
  using assms
  by (simp add: pic_init_def irq_setmask_8259A_def programmed_def registers pic_def pit_def initial_irq_mask_def IRQ_SLAVE_def IRQ_OFFSET_def)

text \<open>Whether the last of the commands that change it lets the timer interrupt.\<close>

primrec allows :: "clock_op \<Rightarrow> bool \<Rightarrow> bool" where
  "allows Start b = True"
| "allows Reset b = b"
| "allows Resume b = True"
| "allows Stop b = False"

lemma timer_bit: "bit (fold mask_after xs m) 0 \<longleftrightarrow> \<not> fold allows xs (\<not> bit m 0)"
proof (induction xs arbitrary: m)
  case (Cons x xs)
  have "\<not> bit (mask_after x m) 0 \<longleftrightarrow> allows x (\<not> bit m 0)"
    by (cases x) (auto simp: bit_simps)
  then show ?case
    by (simp add: Cons.IH)
qed simp

text \<open>C33: After the controllers are initialized, whatever the kernel does with its clock, the masks in the chips are those of
  \<open>irq_mask_8259A\<close>; the timer may interrupt exactly when the last start, resume or stop was not a stop; and after a start or a
  reset it counts down from the interval.
\<close>

theorem timer_follows_commands:
  assumes "ports s = []" and "irq_mask_8259A s = initial_irq_mask"
  shows "\<exists>s'. seqm pic_init (clock_ops xs) s = Inr ((), s') \<and>
     pic IO_PIC1 (ports s') = (ucast (irq_mask_8259A s'), 0) \<and> pic IO_PIC2 (ports s') = (ucast (drop_bit 8 (irq_mask_8259A s')), 0) \<and>
     (bit (irq_mask_8259A s') 0 \<longleftrightarrow> \<not> fold allows xs False) \<and>
     (xs \<noteq> [] \<and> loads_interval (List.last xs) \<longrightarrow> pit (ports s') = (23864, None))"
proof -
  obtain t where t: "pic_init s = Inr ((), t)" "programmed t" "irq_mask_8259A t = initial_irq_mask"
    using pic_init_programmed [OF assms] by blast
  obtain s' where s': "clock_ops xs t = Inr ((), s')" "programmed s'" "irq_mask_8259A s' = fold mask_after xs (irq_mask_8259A t)"
    "xs \<noteq> [] \<and> loads_interval (List.last xs) \<longrightarrow> fst (pit (ports s')) = 23864"
    using clock_ops_programmed [OF t(2)] by blast
  have "bit initial_irq_mask 0"
    by (simp add: initial_irq_mask_def IRQ_SLAVE_def)
  then have "bit (irq_mask_8259A s') 0 \<longleftrightarrow> \<not> fold allows xs False"
    unfolding s'(3) t(3) timer_bit by simp
  then show ?thesis
    using t(1) s'(1,2,4) by (intro exI [of _ s']) (auto simp: programmed_def prod_eq_iff)
qed

lemma timer_follows_commands_witness:
  "\<exists>s'. seqm pic_init (clock_ops [Start, Stop, Reset, Resume, Reset]) \<lparr>irq_mask_8259A = initial_irq_mask, didinit = False, ports = [], inputs = (\<lambda>_. 0)\<rparr> = Inr ((), s') \<and>
     pic IO_PIC1 (ports s') = (ucast (irq_mask_8259A s'), 0) \<and> pic IO_PIC2 (ports s') = (ucast (drop_bit 8 (irq_mask_8259A s')), 0) \<and>
     (bit (irq_mask_8259A s') 0 \<longleftrightarrow> \<not> fold allows [Start, Stop, Reset, Resume, Reset] False) \<and>
     ([Start, Stop, Reset, Resume, Reset] \<noteq> [] \<and> loads_interval (List.last [Start, Stop, Reset, Resume, Reset]) \<longrightarrow> pit (ports s') = (23864, None))"
  by (rule timer_follows_commands) simp_all

text \<open>The first stop masks the other interrupts too, and nothing allows them again.\<close>

theorem stop_masks_the_others: "Stop \<in> set xs \<Longrightarrow> fold mask_after xs m \<in> {0xFFFF, 0xFFFE}"
proof (induction xs rule: rev_induct)
  case (snoc x xs)
  have step: "mask_after x n \<in> {0xFFFF, 0xFFFE}" if "n \<in> {0xFFFF, 0xFFFE}" for n
    using that by (cases x) auto
  show ?case
  proof (cases "x = Stop")
    case False
    then show ?thesis
      using snoc step by simp
  qed simp
qed simp

section \<open>The kernel\<close>

text \<open>The clock commands among the events of the kernel; when a program runs, the timer can interrupt it.\<close>

definition clock_trace :: "hw_event list \<Rightarrow> clock_op list" where
  "clock_trace = List.map_filter (\<lambda>ev. case ev of Kclock_stop \<Rightarrow> Some Stop | Kclock_reset \<Rightarrow> Some Reset
     | Kclock_resume \<Rightarrow> Some Resume | _ \<Rightarrow> None)"

lemma program_can_be_interrupted:
  assumes "env_run e s = Inr ((), s')"
  shows "List.last (hw s') = Pop_trapframe e \<and> fold allows (clock_trace (hw s')) b"
proof -
  obtain t where "hw s' = t @ [Kclock_resume, Pop_trapframe e]"
    using assms by (auto simp: env_run_def emit_def bnd_eq_Inr seqm_eq_Inr split: if_splits)
  then show ?thesis
    by (simp add: clock_trace_def map_filter_def)
qed

end
