(* ===== verification/Spec2Isabelle.thy ===== *)
theory Spec2Isabelle
  imports Uheap_Props Kheap_Props Cstring Environment_Props Semaphore_Props Fault_Order
    Shares_Props Frames_Props WS_Types Boot_Heap Printfmt_Props
    Kdebug Console_Props Shell Disk_Props Userlib_Props Sorts_Props Timer_Props
begin

text \<open>
  A model of the FOS teaching kernel, FOS_Project_2017_Template: its memory manager, the page
  file, page faults, environments, the scheduler, semaphores, shared memory, the system calls,
  the console with the command prompt, the drivers and the boot, with the user heap, the library of the
  programs and the sorting programs.

  \<^bold>\<open>The parts and how they interact.\<close>  At boot the kernel maps itself and puts the free frames on
  a list (kern/memory_manager.c).  Everything that needs memory takes frames from that list and
  maps them in two-level page tables; page tables, page directories and working sets of new
  environments come from the kernel heap (kern/kheap.c), which itself maps frames, so \<open>kmalloc\<close>,
  \<open>map_frame\<close> and \<open>create_page_table\<close> call each other.  A process is an environment
  (kern/user_environment.c) with a page directory, a working set of resident pages and a disk page
  directory (kern/file_manager.c).  A page that is not resident faults (kern/trap.c): the handler
  takes a free entry of the working set or evicts the page at the last index, writes it back to the
  page file when it was modified, and reads the wanted page.  The scheduler (kern/sched.c) keeps
  the environments in queues and runs the ready ones in turn at each clock interrupt; semaphores
  (kern/semaphore_manager.c) take environments out of the ready queue and put them back; shared
  objects (kern/shared_memory_manager.c) map the frames of one owner into other page directories.
  Traps and system calls (kern/trap.c, kern/syscall.c) lead to all of these.  A program keeps its
  own heap (lib/uheap.c) with the help of the kernel.  The
  kernel talks to the user through a console (kern/console.c), a formatter (lib/printfmt.c) and a line
  editor and interpreter (kern/command_prompt.c).  The stubs of lib/syscall.c raise the system calls.

  \<^bold>\<open>The state.\<close>  Theory KState has the record \<open>kstate\<close>: the globals of kern/, the arrays
  \<open>frames_info\<close>, \<open>disk_frames_info\<close>, \<open>envs\<close>, \<open>semaphores\<close> and \<open>shares\<close> as functions of the index,
  the words of kernel memory (\<open>kmem\<close>: page tables, directories and the storage of shared objects), the
  contents of frames and disk frames.  Pointers to array elements are indices, and a null pointer
  is \<open>None\<close>.  The list macros are modelled at the level of their pointers in Queue, where they are
  proved to implement lists; the other theories use lists.  What the hardware does (CR3, the timer,
  leaving the kernel) is a trace of events, \<open>hw\<close>.  Operations are functions of type \<open>(kstate, 'a) M\<close>, which
  return an error or a result and a state; dereferencing null, a failed assertion, a panic, an access
  out of bounds are the errors of Prelude.  The user heap has a state of its own, \<open>uheap\<close>.

  \<^bold>\<open>The theories.\<close>
    \<^item> Prelude: results and errors, loops, Hoare triples, and \<open>preserves\<close> with its automation.
    \<^item> Layout: inc/memlayout.h, inc/mmu.h, inc/types.h.  Queue: inc/queue.h.
    \<^item> Region: abstract heaps of intervals; the locale of an allocator with first fit and
      coalescing, and what follows for any history of it.  Pool: the same for single resources.
      Block: descriptors of blocks shared by both heaps.
    \<^item> Uheap, Uheap_Correct, Uheap_Props: lib/uheap.c.
    \<^item> KState; Paging, Paging_Correct, Paging_Props: frames, page tables and their flags,
      kern/memory_manager.c.  Kheap, Kheap_Pages, Kheap_Correct, Kheap_Free, Kheap_Props:
      kern/kheap.c.  PageFile: kern/file_manager.c.  Cstring: lib/string.c.
    \<^item> WorkingSet: working sets, allocateMem, freeMem, moveMem, frame counts,
      kern/memory_manager.c; Frames_Props and WS_Types state properties of them.
    \<^item> Environment, Environment_Props, Loader: kern/user_environment.c and envid2env; Loader has
      env_create.  Sched, Sched_Props: kern/sched.c.  Semaphore, Semaphore_Props:
      kern/semaphore_manager.c.  Shares, Shares_Props: kern/shared_memory_manager.c.
    \<^item> Fault, Fault_Props, Fault_Order: the fault handlers of kern/trap.c, and the order of replacement.  Syscall: kern/syscall.c, trap and
      trap_dispatch.  Boot, Boot_Props: kern/init.c, kern/helpers.c and the initialisation in
      kern/memory_manager.c; Boot_Heap: the heap it leaves behind.
    \<^item> Printfmt, Printfmt_Props: lib/printfmt.c, kern/printf.c, lib/printf.c, lib/readline.c.  Split_Props: strsplit
      of lib/string.c.  Console, Console_Props: kern/console.c.  Kdebug: kern/kdebug.c.
    \<^item> Commands, Commands_Props: the commands of kern/command_prompt.c and their table; Prompt, Prompt_Props: its
      line editor with history and completion; Shell: the loop that reads and runs commands.
    \<^item> Disk, Disk_Props: lib/disk.c and boot/main.c.  Timer, Timer_Props: kern/kclock.c, kern/picirq.c.
    \<^item> Userlib, Userlib_Props: lib/syscall.c, lib/console.c, lib/concurrency.c, lib/exit.c, lib/libmain.c,
      lib/panic.c.  Sorts, Sorts_Props: user/quicksort.c, user/mergesort_noleakage.c and the selection of
      user/arrayOperations_stats.c.

  \<^bold>\<open>What is shown.\<close>  Both heaps implement one abstract allocator: \<open>malloc\<close> and \<open>kmalloc\<close> take the lowest interval
  that fits, \<open>free\<close> and \<open>kfree\<close> merge the block with the neighbours it touches.  No history of calls that runs to its end
  makes blocks overlap or loses a byte, and freeing everything restores the start; the requests are of sizes that do not round
  to 0, and for the kernel heap by first or next fit, because a block of the contiguous strategy stays free.  For the kernel
  heap the invariant includes the page tables: a page is mapped exactly when it belongs to a taken
  block.  Mapping and unmapping keep the reference counters equal to the number of entries, what was
  mapped is found, what is handed out is mapped nowhere.  A page that is written back and read again
  is the same.  Replacement evicts in the order of arrival as long as only faults change the working set (\<open>freed_page_breaks_fifo\<close>
  has what happens after \<open>freeMem\<close>).  The scheduler implements a queue that
  rotates, so each ready environment runs; semaphores implement a counter with a queue, and serve in
  the order of arrival.  A process that gets a shared object sees its frames with the right
  permissions.  After boot the free frames are those outside the reserved ranges, and the invariant of the kernel heap holds.  Page faults, clock
  interrupts, and the operations on memory, semaphores and shared objects keep the working sets well formed.  The string routines are shown to terminate
  and to be right on strings and overlapping blocks.  \<open>vsnprintf\<close> prints
  the text of its format, which may be any, in its buffer and not behind it.  The screen is a window on an
  endless page; console input is first in, first out, through the automaton of the keyboard; keys with
  corrections run the command that the line names.  The drivers are shown against the documented behaviour
  of their chips: what is written to the disk is read again, the loader brings the bytes of the
  image to memory, the masks of the interrupt controllers and the counter of the timer follow the commands.
  A stub returns to its program what the kernel computes, which a program with a semaphore illustrates.
  Both sorts leave sorted permutations.  Where the code does not do what it
  means to, the theorem says what it does: null dereferences of the heaps, the digits lost by \<open>ltostr\<close>, the
  environments \<open>envid2env\<close> misses, the search for a stab and the selection, which go wrong on some inputs
  (\<open>exact_match_overshoots\<close>, \<open>KthElement_wrong\<close>), pending input lost by the console (\<open>store_loses_all\<close>).

  \<^bold>\<open>Bounds.\<close>  \<open>kmalloc\<close> unrolls its cycle three times: mapping a page of the heap would create a table
  that is missing, and allocate a page for it.  The boot creates all tables of the kernel, so one round is
  enough; the theorems are about states where they exist, and there the error \<open>OutOfFuel\<close> does
  not occur.  \<open>count_up\<close> runs \<open>2 ^ 20 + 1\<close> rounds, one more than there are pages;
  its equivalence with the count of missing pages is for ranges that do not wrap around.  The loop over
  the segments of an image has \<open>e_phnum\<close> rounds, which is shown to be enough.  A string of a user is read up
  to 4096 bytes.  \<open>boot_map_range\<close> has the size of its range as the number of rounds.  The
  loops of lib/string.c that run to a null byte, the formatter and the loops of quicksort are partial functions;
  the theorems show that they return.  Polling a device goes through a list of its answers.  \<open>readseg\<close> has two rounds
  more than whole sectors and one to see the end; the loop for console input has one round more than there is
  input; the prompt ends when the keys run out.

  \<^bold>\<open>Parameters.\<close>  The images of the programs, which the build makes, the stabs and the symbols of the linker, the
  bytes of the clock chip and of the timer, the keys and the bytes of the serial line, the time stamp
  counter, the data and the answers of the disk controller, the self tests that the command prompt starts,
  what a program does between its start and its end and, for the user heap, the answers of the kernel.

  \<^bold>\<open>Not modelled.\<close>  Assembly (boot/boot.S, kern/entry.S, kern/trapentry.S, \<open>env_pop_tf\<close>), which appears as
  events; functions that only print; kern/test_kheap.c, tests with fixed sizes; the dialogues of the programs
  under user/ and the other examples and tests there; Kern/, an older copy of kern/, which the build does not use.
  Page faults of a program between its system calls are not part of the model of the stubs.
\<close>

end
